(* ===== verification/StatsTypes.thy ===== *)
theory StatsTypes imports Prelude begin

text \<open>
  The data of package stats (src/internal/stats/store.go): every struct of the live store as a
  record whose fields keep the Go field names behind a short prefix, the tri-state device status,
  and the zero values the store starts an entry from. Pointers are options, slices are lists,
  int and int64 are unbounded integers, float64 is \<open>f64\<close>, time.Time is \<open>time\<close>.
\<close>

section \<open>Device status\<close>

text \<open>DeviceStatus is a string type; the empty string is the zero value of a fresh entry.\<close>

type_synonym device_status = string

abbreviation StatusOnline :: device_status where "StatusOnline \<equiv> ''online''"
abbreviation StatusUnknown :: device_status where "StatusUnknown \<equiv> ''unknown''"
abbreviation StatusOffline :: device_status where "StatusOffline \<equiv> ''offline''"
abbreviation StatusUpgrading :: device_status where "StatusUpgrading \<equiv> ''upgrading''"

definition normalizeStatus :: "device_status \<Rightarrow> device_status" where
  "normalizeStatus s =
     (if s \<in> {StatusOnline, StatusUnknown, StatusOffline, StatusUpgrading} then s else StatusUnknown)"

section \<open>Statistics records\<close>

record cpu_core =
  core_ID :: string
  core_Usage :: int

record ram_stats =
  ram_Total :: int
  ram_Free :: int
  ram_Usage :: int

record temp_stats =
  temp_CPU :: f64
  temp_Radio60 :: f64
  temp_Radio6 :: f64
  temp_Radio5 :: f64
  temp_Board :: f64

record gps_stats =
  gps_Fix :: bool
  gps_Lat :: f64
  gps_Lon :: f64
  gps_Alt :: f64
  gps_Sats :: int

record orientation_stats =
  orient_Tilt :: f64
  orient_Roll :: f64
  orient_Tilt24 :: f64
  orient_Roll24 :: f64

record link_score =
  ls_DL :: int
  ls_UL :: int
  ls_DL2 :: int
  ls_UL2 :: int
  ls_DL24 :: int
  ls_UL24 :: int

record capacity_stats =
  cap_DL :: int
  cap_UL :: int
  cap_Combined :: int
  cap_DLIdeal :: int
  cap_ULIdeal :: int
  cap_CombinedIdeal :: int

record utilization =
  util_DL :: f64
  util_UL :: f64
  util_Interference :: f64

record dfs_stats =
  dfs_Enabled :: bool
  dfs_CACDuration :: int
  dfs_CACRemaining :: int

record afc_channel =
  afcch_CenterMHz :: int
  afcch_MaxEIRPDbm :: int

record afc_freq_range =
  afcfr_StartMHz :: int
  afcfr_EndMHz :: int

record afc_regulatory =
  afcreg_ChannelWidthMHz :: int
  afcreg_Channels :: "afc_channel list"
  afcreg_FreqRanges :: "afc_freq_range list"

record afc_stats =
  afc_Label :: string
  afc_Status :: string
  afc_Type :: string
  afc_Detail :: string
  afc_Reason :: string
  afc_ExpiryMs :: int
  afc_Regulatory :: "afc_regulatory list"

record airview_point =
  av_FrequencyMHz :: int
  av_UsagePct :: int

record radio_stats =
  radio_ID :: string
  radio_Name :: string
  radio_LinkState :: string
  radio_DisplayBandOverride :: string
  radio_Frequency :: int
  radio_ChannelWidth :: int
  radio_ChannelBW :: int
  radio_TxPower :: int
  radio_TxPowerEIRP :: int
  radio_Signal :: int
  radio_SignalCombined :: int
  radio_SignalQuality :: string
  radio_RSSI :: int
  radio_NoiseFloor :: int
  radio_SignalPerChain :: "int list"
  radio_Distance :: f64
  radio_DLRatio :: int
  radio_FrameLength :: f64
  radio_RxEfficiency :: f64
  radio_AntennaName :: string
  radio_AntennaGain :: int
  radio_Capacity :: "capacity_stats option"
  radio_Utilization :: "utilization option"
  radio_GPSSyncState :: int
  radio_DFS :: "dfs_stats option"
  radio_AFC :: "afc_stats option"

record wireless_stats =
  wl_ServiceUptime :: int
  wl_ServiceDowntime :: int
  wl_TxRate :: int
  wl_RxRate :: int
  wl_LinkScore :: "link_score option"
  wl_Radio60GHz :: "radio_stats option"
  wl_Radio5GHz :: "radio_stats option"
  wl_Radio6GHz :: "radio_stats option"
  wl_RadioLTU :: "radio_stats option"
  wl_Radios :: "radio_stats list"
  wl_AirViewUtilization :: "airview_point list"

record wireless_config =
  cfg_Mode :: string
  cfg_NetMode :: string
  cfg_SSID :: string
  cfg_FrameMode :: string
  cfg_FrameLen :: int
  cfg_DLRatio :: int
  cfg_GPSSync :: bool
  cfg_WaveAI :: bool
  cfg_AutoFreq60 :: bool
  cfg_AutoFreq6 :: bool
  cfg_AutoFreq5 :: bool
  cfg_Compat11N :: bool

record network_config =
  net_Mode :: string
  net_MTU :: int
  net_MgmtVLAN :: int
  net_DataIPv4CIDR :: string
  net_DataIPv4Mode :: string
  net_DefaultGateway :: string
  net_DNSServers :: "string list"

record interface_stats =
  ifc_ID :: string
  ifc_Name :: string
  ifc_Type :: string
  ifc_Enabled :: bool
  ifc_Plugged :: bool
  ifc_Status :: string
  ifc_Description :: string
  ifc_CurrentSpeed :: string
  ifc_ConfiguredSpeed :: string
  ifc_Speed :: int
  ifc_TxBytes :: int
  ifc_RxBytes :: int
  ifc_TxRate :: int
  ifc_RxRate :: int
  ifc_TxPackets :: int
  ifc_RxPackets :: int
  ifc_TxErrors :: int
  ifc_RxErrors :: int

record signal_histogram =
  hist_Histogram :: "int list"
  hist_MinSignal :: int
  hist_MaxSignal :: int
  hist_Period :: int

record cinr_stats =
  cinr_DL :: int
  cinr_UL :: int

record evm_stats =
  evm_DL :: f64
  evm_UL :: f64

record mcs_stats =
  mcs_TxIdx :: int
  mcs_RxIdx :: int
  mcs_TxLabel :: string
  mcs_RxLabel :: string
  mcs_TxRate :: int
  mcs_RxRate :: int
  mcs_TxIdxIdeal :: int
  mcs_RxIdxIdeal :: int

record peer_radio_stats =
  pr_ID :: string
  pr_Active :: bool
  pr_Connected :: bool
  pr_LinkState :: string
  pr_Signal :: int
  pr_SignalCombined :: int
  pr_SignalQuality :: string
  pr_SignalDay :: int
  pr_IdealSignal :: int
  pr_NoiseFloor :: int
  pr_SignalPerChain :: "int list"
  pr_RemoteSignal :: int
  pr_RemoteSignalCombined :: int
  pr_RemoteSignalQuality :: string
  pr_RemoteIdealSignal :: int
  pr_RemoteNoiseFloor :: int
  pr_RemoteSignalPerChain :: "int list"
  pr_SignalHistogram :: "signal_histogram option"
  pr_SNR :: int
  pr_RemoteSNR :: int
  pr_ConnectionTime :: int
  pr_CINR :: "cinr_stats option"
  pr_EVM :: "evm_stats option"
  pr_MCS :: "mcs_stats option"
  pr_AirtimeDL :: f64
  pr_AirtimeUL :: f64
  pr_Capacity :: "capacity_stats option"
  pr_LinkScore :: "link_score option"

record peer_stats =
  peer_MAC :: string
  peer_IP :: string
  peer_Hostname :: string
  peer_Firmware :: string
  peer_FirmwareFull :: string
  peer_Model :: string
  peer_Distance :: f64
  peer_ConnectionTime :: int
  peer_Uptime :: int
  peer_PowerTime :: int
  peer_ServiceUptime :: int
  peer_NetMode :: string
  peer_GPS :: gps_stats
  peer_Orientation :: "orientation_stats option"
  peer_CPU :: "cpu_core list"
  peer_RAM :: ram_stats
  peer_Temperature :: f64
  peer_CarrierDrop :: bool
  peer_Signal :: int
  peer_RSSI :: int
  peer_NoiseFloor :: int
  peer_TXPower :: int
  peer_RemoteSignal :: int
  peer_RemoteSignalCombined :: int
  peer_RemoteSignalQuality :: string
  peer_RemoteNoiseFloor :: int
  peer_RemoteSignalPerChain :: "int list"
  peer_TxBytes :: int
  peer_RxBytes :: int
  peer_TxRate :: int
  peer_RxRate :: int
  peer_TxPackets :: int
  peer_RxPackets :: int
  peer_DLRateLimit :: int
  peer_ULRateLimit :: int
  peer_Radio60GHz :: "peer_radio_stats option"
  peer_Radio5GHz :: "peer_radio_stats option"
  peer_Radio6GHz :: "peer_radio_stats option"
  peer_RadioLTU :: "peer_radio_stats option"
  peer_LinkScore :: "link_score option"
  peer_Interfaces :: "interface_stats list"

record device_stats =
  ds_DeviceID :: int
  ds_SiteID :: int
  ds_MAC :: string
  ds_IP :: string
  ds_Hostname :: string
  ds_Status :: device_status
  ds_DBStatus :: string
  ds_StatusReason :: string
  ds_Online :: bool
  ds_LastSeen :: time
  ds_LastError :: string
  ds_Uptime :: int
  ds_PowerTime :: int
  ds_CPU :: "cpu_core list"
  ds_CPUUsage :: f64
  ds_RAM :: ram_stats
  ds_MemUsage :: f64
  ds_Temperature :: temp_stats
  ds_GPS :: gps_stats
  ds_Orientation :: "orientation_stats option"
  ds_Wireless :: wireless_stats
  ds_Config :: "wireless_config option"
  ds_Network :: "network_config option"
  ds_Interfaces :: "interface_stats list"
  ds_ParentIP :: string
  ds_ParentMAC :: string
  ds_PeerCount :: int
  ds_Peers :: "peer_stats option list"

record throughput_sample =
  tp_Timestamp :: time
  tp_TxRate :: int
  tp_RxRate :: int
  tp_Online :: int
  tp_Offline :: int

record stability_stats =
  stab_IP :: string
  stab_Hostname :: string
  stab_LastUptime :: int
  stab_LastOnline :: bool
  stab_LastSeen :: time
  stab_Flaps1h :: int
  stab_Flaps24h :: int
  stab_Reboots1h :: int
  stab_Reboots24h :: int
  stab_FlapTimes :: "time list"
  stab_RebootTimes :: "time list"

section \<open>Zero values\<close>

text \<open>Go's zero value of each struct: what a composite literal leaves unset.\<close>

definition zero_cpu_core :: cpu_core where
  "zero_cpu_core = \<lparr>core_ID = [], core_Usage = 0\<rparr>"

definition zero_ram_stats :: ram_stats where
  "zero_ram_stats = \<lparr>ram_Total = 0, ram_Free = 0, ram_Usage = 0\<rparr>"

definition zero_temp_stats :: temp_stats where
  "zero_temp_stats = \<lparr>temp_CPU = Fin 0, temp_Radio60 = Fin 0, temp_Radio6 = Fin 0, temp_Radio5 = Fin 0,
     temp_Board = Fin 0\<rparr>"

definition zero_gps_stats :: gps_stats where
  "zero_gps_stats = \<lparr>gps_Fix = False, gps_Lat = Fin 0, gps_Lon = Fin 0, gps_Alt = Fin 0, gps_Sats = 0\<rparr>"

definition zero_orientation_stats :: orientation_stats where
  "zero_orientation_stats = \<lparr>orient_Tilt = Fin 0, orient_Roll = Fin 0, orient_Tilt24 = Fin 0,
     orient_Roll24 = Fin 0\<rparr>"

definition zero_link_score :: link_score where
  "zero_link_score = \<lparr>ls_DL = 0, ls_UL = 0, ls_DL2 = 0, ls_UL2 = 0, ls_DL24 = 0, ls_UL24 = 0\<rparr>"

definition zero_capacity_stats :: capacity_stats where
  "zero_capacity_stats = \<lparr>cap_DL = 0, cap_UL = 0, cap_Combined = 0, cap_DLIdeal = 0, cap_ULIdeal = 0,
     cap_CombinedIdeal = 0\<rparr>"

definition zero_utilization :: utilization where
  "zero_utilization = \<lparr>util_DL = Fin 0, util_UL = Fin 0, util_Interference = Fin 0\<rparr>"

definition zero_dfs_stats :: dfs_stats where
  "zero_dfs_stats = \<lparr>dfs_Enabled = False, dfs_CACDuration = 0, dfs_CACRemaining = 0\<rparr>"

definition zero_afc_channel :: afc_channel where
  "zero_afc_channel = \<lparr>afcch_CenterMHz = 0, afcch_MaxEIRPDbm = 0\<rparr>"

definition zero_afc_freq_range :: afc_freq_range where
  "zero_afc_freq_range = \<lparr>afcfr_StartMHz = 0, afcfr_EndMHz = 0\<rparr>"

definition zero_afc_regulatory :: afc_regulatory where
  "zero_afc_regulatory = \<lparr>afcreg_ChannelWidthMHz = 0, afcreg_Channels = [], afcreg_FreqRanges = []\<rparr>"

definition zero_afc_stats :: afc_stats where
  "zero_afc_stats = \<lparr>afc_Label = [], afc_Status = [], afc_Type = [], afc_Detail = [], afc_Reason = [],
     afc_ExpiryMs = 0, afc_Regulatory = []\<rparr>"

definition zero_airview_point :: airview_point where
  "zero_airview_point = \<lparr>av_FrequencyMHz = 0, av_UsagePct = 0\<rparr>"

definition zero_radio_stats :: radio_stats where
  "zero_radio_stats = \<lparr>radio_ID = [], radio_Name = [], radio_LinkState = [], radio_DisplayBandOverride = [],
     radio_Frequency = 0, radio_ChannelWidth = 0, radio_ChannelBW = 0, radio_TxPower = 0, radio_TxPowerEIRP = 0,
     radio_Signal = 0, radio_SignalCombined = 0, radio_SignalQuality = [], radio_RSSI = 0, radio_NoiseFloor = 0,
     radio_SignalPerChain = [], radio_Distance = Fin 0, radio_DLRatio = 0, radio_FrameLength = Fin 0,
     radio_RxEfficiency = Fin 0, radio_AntennaName = [], radio_AntennaGain = 0, radio_Capacity = None,
     radio_Utilization = None, radio_GPSSyncState = 0, radio_DFS = None, radio_AFC = None\<rparr>"

definition zero_wireless_stats :: wireless_stats where
  "zero_wireless_stats = \<lparr>wl_ServiceUptime = 0, wl_ServiceDowntime = 0, wl_TxRate = 0, wl_RxRate = 0,
     wl_LinkScore = None, wl_Radio60GHz = None, wl_Radio5GHz = None, wl_Radio6GHz = None, wl_RadioLTU = None,
     wl_Radios = [], wl_AirViewUtilization = []\<rparr>"

definition zero_wireless_config :: wireless_config where
  "zero_wireless_config = \<lparr>cfg_Mode = [], cfg_NetMode = [], cfg_SSID = [], cfg_FrameMode = [],
     cfg_FrameLen = 0, cfg_DLRatio = 0, cfg_GPSSync = False, cfg_WaveAI = False, cfg_AutoFreq60 = False,
     cfg_AutoFreq6 = False, cfg_AutoFreq5 = False, cfg_Compat11N = False\<rparr>"

definition zero_network_config :: network_config where
  "zero_network_config = \<lparr>net_Mode = [], net_MTU = 0, net_MgmtVLAN = 0, net_DataIPv4CIDR = [],
     net_DataIPv4Mode = [], net_DefaultGateway = [], net_DNSServers = []\<rparr>"

definition zero_interface_stats :: interface_stats where
  "zero_interface_stats = \<lparr>ifc_ID = [], ifc_Name = [], ifc_Type = [], ifc_Enabled = False,
     ifc_Plugged = False, ifc_Status = [], ifc_Description = [], ifc_CurrentSpeed = [], ifc_ConfiguredSpeed = [],
     ifc_Speed = 0, ifc_TxBytes = 0, ifc_RxBytes = 0, ifc_TxRate = 0, ifc_RxRate = 0, ifc_TxPackets = 0,
     ifc_RxPackets = 0, ifc_TxErrors = 0, ifc_RxErrors = 0\<rparr>"

definition zero_signal_histogram :: signal_histogram where
  "zero_signal_histogram = \<lparr>hist_Histogram = [], hist_MinSignal = 0, hist_MaxSignal = 0, hist_Period = 0\<rparr>"

definition zero_cinr_stats :: cinr_stats where
  "zero_cinr_stats = \<lparr>cinr_DL = 0, cinr_UL = 0\<rparr>"

definition zero_evm_stats :: evm_stats where
  "zero_evm_stats = \<lparr>evm_DL = Fin 0, evm_UL = Fin 0\<rparr>"

definition zero_mcs_stats :: mcs_stats where
  "zero_mcs_stats = \<lparr>mcs_TxIdx = 0, mcs_RxIdx = 0, mcs_TxLabel = [], mcs_RxLabel = [], mcs_TxRate = 0,
     mcs_RxRate = 0, mcs_TxIdxIdeal = 0, mcs_RxIdxIdeal = 0\<rparr>"

definition zero_peer_radio_stats :: peer_radio_stats where
  "zero_peer_radio_stats = \<lparr>pr_ID = [], pr_Active = False, pr_Connected = False, pr_LinkState = [],
     pr_Signal = 0, pr_SignalCombined = 0, pr_SignalQuality = [], pr_SignalDay = 0, pr_IdealSignal = 0,
     pr_NoiseFloor = 0, pr_SignalPerChain = [], pr_RemoteSignal = 0, pr_RemoteSignalCombined = 0,
     pr_RemoteSignalQuality = [], pr_RemoteIdealSignal = 0, pr_RemoteNoiseFloor = 0, pr_RemoteSignalPerChain = [],
     pr_SignalHistogram = None, pr_SNR = 0, pr_RemoteSNR = 0, pr_ConnectionTime = 0, pr_CINR = None, pr_EVM = None,
     pr_MCS = None, pr_AirtimeDL = Fin 0, pr_AirtimeUL = Fin 0, pr_Capacity = None, pr_LinkScore = None\<rparr>"

definition zero_peer_stats :: peer_stats where
  "zero_peer_stats = \<lparr>peer_MAC = [], peer_IP = [], peer_Hostname = [], peer_Firmware = [],
     peer_FirmwareFull = [], peer_Model = [], peer_Distance = Fin 0, peer_ConnectionTime = 0, peer_Uptime = 0,
     peer_PowerTime = 0, peer_ServiceUptime = 0, peer_NetMode = [], peer_GPS = zero_gps_stats,
     peer_Orientation = None, peer_CPU = [], peer_RAM = zero_ram_stats, peer_Temperature = Fin 0,
     peer_CarrierDrop = False, peer_Signal = 0, peer_RSSI = 0, peer_NoiseFloor = 0, peer_TXPower = 0,
     peer_RemoteSignal = 0, peer_RemoteSignalCombined = 0, peer_RemoteSignalQuality = [], peer_RemoteNoiseFloor = 0,
     peer_RemoteSignalPerChain = [], peer_TxBytes = 0, peer_RxBytes = 0, peer_TxRate = 0, peer_RxRate = 0,
     peer_TxPackets = 0, peer_RxPackets = 0, peer_DLRateLimit = 0, peer_ULRateLimit = 0, peer_Radio60GHz = None,
     peer_Radio5GHz = None, peer_Radio6GHz = None, peer_RadioLTU = None, peer_LinkScore = None, peer_Interfaces = []\<rparr>"

definition zero_device_stats :: device_stats where
  "zero_device_stats = \<lparr>ds_DeviceID = 0, ds_SiteID = 0, ds_MAC = [], ds_IP = [], ds_Hostname = [],
     ds_Status = [], ds_DBStatus = [], ds_StatusReason = [], ds_Online = False, ds_LastSeen = 0, ds_LastError = [],
     ds_Uptime = 0, ds_PowerTime = 0, ds_CPU = [], ds_CPUUsage = Fin 0, ds_RAM = zero_ram_stats, ds_MemUsage = Fin 0,
     ds_Temperature = zero_temp_stats, ds_GPS = zero_gps_stats, ds_Orientation = None,
     ds_Wireless = zero_wireless_stats, ds_Config = None, ds_Network = None, ds_Interfaces = [], ds_ParentIP = [],
     ds_ParentMAC = [], ds_PeerCount = 0, ds_Peers = []\<rparr>"

definition zero_throughput_sample :: throughput_sample where
  "zero_throughput_sample = \<lparr>tp_Timestamp = 0, tp_TxRate = 0, tp_RxRate = 0, tp_Online = 0, tp_Offline = 0\<rparr>"

definition zero_stability_stats :: stability_stats where
  "zero_stability_stats = \<lparr>stab_IP = [], stab_Hostname = [], stab_LastUptime = 0, stab_LastOnline = False,
     stab_LastSeen = 0, stab_Flaps1h = 0, stab_Flaps24h = 0, stab_Reboots1h = 0, stab_Reboots24h = 0,
     stab_FlapTimes = [], stab_RebootTimes = []\<rparr>"

end
