(* ===== verification/WebhookGuard.thy ===== *)
theory WebhookGuard imports Prelude begin

text \<open>
  The server-side request forgery guard of webhook delivery
  (src/internal/alerting/notifications.go): which literal addresses a webhook may name, what the
  protected transport dials after name resolution, and which redirects it follows. IP addresses
  are kept at their width (32 and 128 bits). URL parsing, IP literal parsing, the resolver and the
  TCP dialer are parameters.
\<close>

unbundle bit_operations_syntax

section \<open>Addresses and prefixes\<close>

type_synonym net_ip = "8 word list"

datatype addr = V4 "32 word" | V6 "128 word"

text \<open>netip.AddrFromSlice accepts 4 and 16 bytes; Unmap turns ::ffff:a.b.c.d into a.b.c.d.\<close>

definition addr_from_slice :: "net_ip \<Rightarrow> addr option" where
  "addr_from_slice b =
     (if length b = 4 then Some (V4 (word_rcat b))
      else if length b = 16 then Some (V6 (word_rcat b)) else None)"

fun unmap :: "addr \<Rightarrow> addr" where
  "unmap (V4 a) = V4 a"
| "unmap (V6 a) = (if drop_bit 32 a = 0xFFFF then V4 (ucast a) else V6 a)"

datatype prefix4or6 = P4 "32 word" nat | P6 "128 word" nat

fun prefix_contains :: "prefix4or6 \<Rightarrow> addr \<Rightarrow> bool" where
  "prefix_contains (P4 p n) (V4 a) = (drop_bit (32 - n) a = drop_bit (32 - n) p)"
| "prefix_contains (P6 p n) (V6 a) = (drop_bit (128 - n) a = drop_bit (128 - n) p)"
| "prefix_contains _ _ = False"

fun is_global_unicast :: "addr \<Rightarrow> bool" where
  "is_global_unicast (V4 a) =
     (a \<noteq> 0 \<and> a \<noteq> 0xFFFFFFFF \<and> drop_bit 24 a \<noteq> 127 \<and> drop_bit 28 a \<noteq> 0xE \<and> drop_bit 16 a \<noteq> 0xA9FE)"
| "is_global_unicast (V6 a) =
     (a \<noteq> 0 \<and> a \<noteq> 1 \<and> drop_bit 120 a \<noteq> 0xFF \<and> drop_bit 118 a \<noteq> 0x3FA)"

definition ipv4 :: "nat \<Rightarrow> nat \<Rightarrow> nat \<Rightarrow> nat \<Rightarrow> 32 word" where
  "ipv4 a b c d = of_nat (((a * 256 + b) * 256 + c) * 256 + d)"

definition forbiddenWebhookPrefixes :: "prefix4or6 list" where
  "forbiddenWebhookPrefixes =
     [P4 (ipv4 0 0 0 0) 8, P4 (ipv4 10 0 0 0) 8, P4 (ipv4 100 64 0 0) 10, P4 (ipv4 127 0 0 0) 8,
      P4 (ipv4 169 254 0 0) 16, P4 (ipv4 172 16 0 0) 12, P4 (ipv4 192 0 0 0) 24, P4 (ipv4 192 0 2 0) 24,
      P4 (ipv4 192 168 0 0) 16, P4 (ipv4 198 18 0 0) 15, P4 (ipv4 198 51 100 0) 24, P4 (ipv4 203 0 113 0) 24,
      P4 (ipv4 240 0 0 0) 4, P6 0 128, P6 1 128, P6 0x01000000000000000000000000000000 64,
      P6 0x20010DB8000000000000000000000000 32,
      P6 0xFC000000000000000000000000000000 7, P6 0xFE800000000000000000000000000000 10]"

text \<open>A nil or empty net.IP has length 0 and is refused by the first two checks alike.\<close>

definition unsafeWebhookIP :: "net_ip \<Rightarrow> bool" where
  "unsafeWebhookIP ip =
     (case addr_from_slice ip of
        None \<Rightarrow> True
      | Some a0 \<Rightarrow>
          (let a = unmap a0 in
           if \<not> is_global_unicast a then True
           else list_ex (\<lambda>p. prefix_contains p a) forbiddenWebhookPrefixes))"

section \<open>URLs\<close>

record parsed_url =
  u_scheme :: string
  u_hostname :: string
  u_has_user :: bool

datatype webhook_error = UrlParse | BadScheme | HostRequired | PrivateAddress
  | ResolveHost | NoAddresses | ResolvesPrivate | DialFailed | TooManyRedirects | BadAddress

definition validateWebhookURL ::
  "(string \<Rightarrow> parsed_url option) \<Rightarrow> (string \<Rightarrow> net_ip option) \<Rightarrow> string \<Rightarrow> webhook_error option" where
  "validateWebhookURL url_parse parse_ip raw =
     (case url_parse raw of
        None \<Rightarrow> Some UrlParse
      | Some u \<Rightarrow>
          if u_scheme u \<noteq> ''https'' \<and> u_scheme u \<noteq> ''http'' then Some BadScheme
          else if u_hostname u = [] \<or> u_has_user u then Some HostRequired
          else (case parse_ip (u_hostname u) of
                  Some ip \<Rightarrow> if unsafeWebhookIP ip then Some PrivateAddress else None
                | None \<Rightarrow> None))"

definition resolvePublicHost ::
  "(string \<Rightarrow> net_ip option) \<Rightarrow> (string \<Rightarrow> net_ip list option) \<Rightarrow> string \<Rightarrow> webhook_error + net_ip list" where
  "resolvePublicHost parse_ip lookup host =
     (case parse_ip host of
        Some ip \<Rightarrow> if unsafeWebhookIP ip then Inl PrivateAddress else Inr [ip]
      | None \<Rightarrow>
          (case lookup host of
             None \<Rightarrow> Inl ResolveHost
           | Some addrs \<Rightarrow>
               if addrs = [] then Inl NoAddresses
               else if list_ex unsafeWebhookIP addrs then Inl ResolvesPrivate
               else Inr addrs))"

text \<open>The dialer tries the resolved addresses in order and keeps the first connection.\<close>

fun dial_first :: "(net_ip \<Rightarrow> bool) \<Rightarrow> net_ip list \<Rightarrow> net_ip option" where
  "dial_first dial [] = None"
| "dial_first dial (ip # ips) = (if dial ip then Some ip else dial_first dial ips)"

definition webhook_dial ::
  "(string \<Rightarrow> (string \<times> string) option) \<Rightarrow> (string \<Rightarrow> net_ip option) \<Rightarrow> (string \<Rightarrow> net_ip list option)
   \<Rightarrow> (net_ip \<Rightarrow> string \<Rightarrow> bool) \<Rightarrow> string \<Rightarrow> webhook_error + net_ip" where
  "webhook_dial split_host_port parse_ip lookup dial address =
     (case split_host_port address of
        None \<Rightarrow> Inl BadAddress
      | Some (host, port) \<Rightarrow>
          (case resolvePublicHost parse_ip lookup host of
             Inl e \<Rightarrow> Inl e
           | Inr ips \<Rightarrow>
               (case dial_first (\<lambda>ip. dial ip port) ips of None \<Rightarrow> Inl DialFailed | Some ip \<Rightarrow> Inr ip)))"

definition webhook_check_redirect ::
  "(string \<Rightarrow> parsed_url option) \<Rightarrow> (string \<Rightarrow> net_ip option) \<Rightarrow> string \<Rightarrow> nat \<Rightarrow> webhook_error option" where
  "webhook_check_redirect url_parse parse_ip url via =
     (if 3 \<le> via then Some TooManyRedirects else validateWebhookURL url_parse parse_ip url)"

section \<open>Lemmas\<close>

definition mapped_bytes :: "8 word \<Rightarrow> 8 word \<Rightarrow> 8 word \<Rightarrow> 8 word \<Rightarrow> net_ip" where
  "mapped_bytes a b c d = replicate 10 0 @ [0xFF, 0xFF, a, b, c, d]"

definition quad :: "8 word \<Rightarrow> 8 word \<Rightarrow> 8 word \<Rightarrow> 8 word \<Rightarrow> int" where
  "quad a b c d = uint a * 16777216 + uint b * 65536 + uint c * 256 + uint d"

lemma uint_byte_lt: "0 \<le> uint (a :: 8 word) \<and> uint a < 256"
  using uint_bounded [of a] by simp

lemma quad_bounds: "0 \<le> quad a b c d \<and> quad a b c d < 4294967296"
  using uint_byte_lt [of a] uint_byte_lt [of b] uint_byte_lt [of c] uint_byte_lt [of d]
  unfolding quad_def by linarith

lemma horner4: "horner_sum uint 256 [d, c, b, a :: 8 word] = quad a b c d"
  by (simp add: quad_def)

lemma uint_rcat:
  "uint (word_rcat (bs :: 8 word list) :: 'b :: len word) = take_bit LENGTH('b) (horner_sum uint 256 (rev bs))"
  by (simp only: word_rcat_def comp_apply uint_word_of_int_eq) simp

lemma uint_rcat4: "uint (word_rcat [a, b, c, d :: 8 word] :: 32 word) = quad a b c d"
  using quad_bounds [of a b c d] by (simp add: uint_rcat quad_def take_bit_eq_mod add_ac)

lemma uint_drop: "uint (drop_bit n (w :: 'a :: len word)) = uint w div 2 ^ n"
proof -
  have "unat (drop_bit n w) = unat w div 2 ^ n"
    by (rule trans [OF unat_drop_bit_eq drop_bit_eq_div])
  then have "int (unat (drop_bit n w)) = int (unat w) div 2 ^ n"
    by (simp only: zdiv_int of_nat_power of_nat_numeral)
  then show ?thesis by (simp only: uint_nat)
qed

lemma drop_bit_eq_uint: "drop_bit n (w :: 'a :: len word) = v \<longleftrightarrow> uint w div 2 ^ n = uint v"
  by (simp only: word_uint_eq_iff uint_drop)

lemma uint_rcat_mapped:
  "uint (word_rcat (mapped_bytes a b c d) :: 128 word) = 0xFFFF * 4294967296 + quad a b c d"
proof -
  have bytes: "rev (mapped_bytes a b c d) = [d, c, b, a, 0xFF, 0xFF, 0, 0, 0, 0, 0, 0, 0, 0, 0, 0]"
    by (simp add: mapped_bytes_def numeral_eq_Suc)
  have "horner_sum uint 256 (rev (mapped_bytes a b c d)) = 0xFFFF * 4294967296 + quad a b c d"
    unfolding bytes by (simp add: quad_def)
  then show ?thesis
    using quad_bounds [of a b c d] by (simp add: uint_rcat take_bit_eq_mod)
qed

text \<open>
  What the guard refuses, over the four bytes of an address: the special-use blocks, multicast and
  everything above it, in the dotted-quad form.
\<close>

definition special_use4 :: "int \<Rightarrow> int \<Rightarrow> int \<Rightarrow> bool" where
  "special_use4 a b c \<longleftrightarrow>
     a = 0 \<or> a = 10 \<or> a = 127 \<or> 224 \<le> a \<or> (a = 100 \<and> 64 \<le> b \<and> b < 128) \<or> (a = 169 \<and> b = 254)
     \<or> (a = 172 \<and> 16 \<le> b \<and> b < 32) \<or> (a = 192 \<and> b = 0 \<and> (c = 0 \<or> c = 2)) \<or> (a = 192 \<and> b = 168)
     \<or> (a = 198 \<and> (b = 18 \<or> b = 19)) \<or> (a = 198 \<and> b = 51 \<and> c = 100) \<or> (a = 203 \<and> b = 0 \<and> c = 113)"

definition unsafe_addr :: "addr \<Rightarrow> bool" where
  "unsafe_addr a = (if \<not> is_global_unicast a then True
                    else list_ex (\<lambda>p. prefix_contains p a) forbiddenWebhookPrefixes)"

lemma unsafeWebhookIP_alt:
  "unsafeWebhookIP ip = (case addr_from_slice ip of None \<Rightarrow> True | Some a \<Rightarrow> unsafe_addr (unmap a))"
  by (cases "addr_from_slice ip") (simp_all add: unsafeWebhookIP_def unsafe_addr_def Let_def)

lemma div_split:
  fixes x y q r m k :: int
  assumes "x = m * q + r" "0 \<le> r" "r < m" "0 \<le> y" "y < k" "0 < k"
  shows "(x * k + y) div (m * k) = q"
proof (rule int_div_pos_eq [where r = "r * k + y"])
  show "x * k + y = m * k * q + (r * k + y)" by (simp add: assms(1) algebra_simps)
  show "0 \<le> r * k + y" using assms by simp
  have "r * k \<le> (m - 1) * k" using assms by (intro mult_right_mono) auto
  then show "r * k + y < m * k" using assms by (simp add: algebra_simps)
qed

lemma quad_div_int:
  fixes a b c d :: int
  assumes "0 \<le> b" "b < 256" "0 \<le> c" "c < 256" "0 \<le> d" "d < 256"
  shows "(a * 16777216 + b * 65536 + c * 256 + d) div 16777216 = a"
    and "(a * 16777216 + b * 65536 + c * 256 + d) div 65536 = a * 256 + b"
    and "(a * 16777216 + b * 65536 + c * 256 + d) div 256 = a * 65536 + b * 256 + c"
    and "(a * 16777216 + b * 65536 + c * 256 + d) div 4194304 = a * 4 + b div 64"
    and "(a * 16777216 + b * 65536 + c * 256 + d) div 1048576 = a * 16 + b div 16"
    and "(a * 16777216 + b * 65536 + c * 256 + d) div 131072 = a * 128 + b div 2"
    and "(a * 16777216 + b * 65536 + c * 256 + d) div 268435456 = a div 16"
proof -
  show "(a * 16777216 + b * 65536 + c * 256 + d) div 16777216 = a"
    by (rule int_div_pos_eq [where r = "b * 65536 + c * 256 + d"]) (use assms in \<open>(simp add: algebra_simps; fail) | linarith\<close>)+
  show "(a * 16777216 + b * 65536 + c * 256 + d) div 65536 = a * 256 + b"
    by (rule int_div_pos_eq [where r = "c * 256 + d"]) (use assms in \<open>(simp add: algebra_simps; fail) | linarith\<close>)+
  show "(a * 16777216 + b * 65536 + c * 256 + d) div 256 = a * 65536 + b * 256 + c"
    by (rule int_div_pos_eq [where r = d]) (use assms in \<open>(simp add: algebra_simps; fail) | linarith\<close>)+
  show "(a * 16777216 + b * 65536 + c * 256 + d) div 4194304 = a * 4 + b div 64"
    using div_split [of "a * 256 + b" 64 "a * 4 + b div 64" "b mod 64" "c * 256 + d" 65536] assms
    by (simp add: algebra_simps)
  show "(a * 16777216 + b * 65536 + c * 256 + d) div 1048576 = a * 16 + b div 16"
    using div_split [of "a * 256 + b" 16 "a * 16 + b div 16" "b mod 16" "c * 256 + d" 65536] assms
    by (simp add: algebra_simps)
  show "(a * 16777216 + b * 65536 + c * 256 + d) div 131072 = a * 128 + b div 2"
    using div_split [of "a * 256 + b" 2 "a * 128 + b div 2" "b mod 2" "c * 256 + d" 65536] assms
    by (simp add: algebra_simps)
  show "(a * 16777216 + b * 65536 + c * 256 + d) div 268435456 = a div 16"
    using div_split [of a 16 "a div 16" "a mod 16" "b * 65536 + c * 256 + d" 16777216] assms
    by (simp add: algebra_simps)
qed

lemma uint_byte_less [simp]: "uint (a :: 8 word) < 256"
  using uint_byte_lt by blast

lemma quad_div:
  fixes a b c d :: "8 word"
  shows "quad a b c d div 16777216 = uint a" and "quad a b c d div 65536 = uint a * 256 + uint b"
    and "quad a b c d div 256 = uint a * 65536 + uint b * 256 + uint c"
    and "quad a b c d div 4194304 = uint a * 4 + uint b div 64"
    and "quad a b c d div 1048576 = uint a * 16 + uint b div 16"
    and "quad a b c d div 131072 = uint a * 128 + uint b div 2"
    and "quad a b c d div 268435456 = uint a div 16"
  unfolding quad_def by (rule quad_div_int; simp)+

lemma unicast4:
  fixes a b c d :: "8 word"
  shows "is_global_unicast (V4 (word_rcat [a, b, c, d])) \<longleftrightarrow>
    quad a b c d \<noteq> 0 \<and> quad a b c d \<noteq> 0xFFFFFFFF \<and> uint a \<noteq> 127 \<and> uint a div 16 \<noteq> 14
    \<and> uint a * 256 + uint b \<noteq> 0xA9FE"
  by (simp add: drop_bit_eq_uint uint_rcat4 quad_div word_uint_eq_iff [of "word_rcat _"])

lemma contains4:
  fixes a b c d :: "8 word"
  shows "list_ex (\<lambda>p. prefix_contains p (V4 (word_rcat [a, b, c, d]))) forbiddenWebhookPrefixes \<longleftrightarrow>
    uint a \<in> {0, 10, 127} \<or> uint a * 4 + uint b div 64 = 401 \<or> uint a * 256 + uint b \<in> {43518, 49320}
    \<or> uint a * 16 + uint b div 16 = 2753 \<or> uint a * 65536 + uint b * 256 + uint c \<in> {12582912, 12582914, 12989284, 13303921}
    \<or> uint a * 128 + uint b div 2 = 25353 \<or> uint a div 16 = 15"
  unfolding forbiddenWebhookPrefixes_def
  by (simp add: drop_bit_eq_uint uint_rcat4 quad_div ipv4_def) blast

lemma radix_eq:
  fixes x y X Y k :: int
  assumes "0 \<le> y" "y < k" "0 \<le> Y" "Y < k"
  shows "x * k + y = X * k + Y \<longleftrightarrow> x = X \<and> y = Y"
proof
  assume eq: "x * k + y = X * k + Y"
  have "(x * k + y) div k = x" "(X * k + Y) div k = X"
    using assms by simp_all
  with eq have "x = X" by simp
  with eq show "x = X \<and> y = Y" by simp
qed simp

lemma radix3_eq:
  fixes a b c A B C :: int
  assumes "0 \<le> b" "b < 256" "0 \<le> c" "c < 256" "0 \<le> B" "B < 256" "0 \<le> C" "C < 256"
  shows "a * 65536 + b * 256 + c = A * 65536 + B * 256 + C \<longleftrightarrow> a = A \<and> b = B \<and> c = C"
  using radix_eq [of c 256 C "a * 256 + b" "A * 256 + B"] radix_eq [of b 256 B a A] assms by (auto simp: algebra_simps)

lemma octet_arith:
  fixes a b c :: int
  assumes "0 \<le> a" "a < 256" "0 \<le> b" "b < 256" "0 \<le> c" "c < 256"
  shows "a * 4 + b div 64 = 401 \<longleftrightarrow> a = 100 \<and> 64 \<le> b \<and> b < 128"
    and "a * 256 + b = 43518 \<longleftrightarrow> a = 169 \<and> b = 254"
    and "a * 256 + b = 49320 \<longleftrightarrow> a = 192 \<and> b = 168"
    and "a * 16 + b div 16 = 2753 \<longleftrightarrow> a = 172 \<and> 16 \<le> b \<and> b < 32"
    and "a * 128 + b div 2 = 25353 \<longleftrightarrow> a = 198 \<and> (b = 18 \<or> b = 19)"
    and "a * 65536 + b * 256 + c = 12582912 \<longleftrightarrow> a = 192 \<and> b = 0 \<and> c = 0"
    and "a * 65536 + b * 256 + c = 12582914 \<longleftrightarrow> a = 192 \<and> b = 0 \<and> c = 2"
    and "a * 65536 + b * 256 + c = 12989284 \<longleftrightarrow> a = 198 \<and> b = 51 \<and> c = 100"
    and "a * 65536 + b * 256 + c = 13303921 \<longleftrightarrow> a = 203 \<and> b = 0 \<and> c = 113"
    and "a div 16 = 14 \<or> a div 16 = 15 \<longleftrightarrow> 224 \<le> a"
proof -
  have b64: "b div 64 = 1 \<longleftrightarrow> 64 \<le> b \<and> b < 128" "0 \<le> b div 64" "b div 64 < 4"
    and b16: "b div 16 = 1 \<longleftrightarrow> 16 \<le> b \<and> b < 32" "0 \<le> b div 16" "b div 16 < 16"
    and b2: "b div 2 = 9 \<longleftrightarrow> b = 18 \<or> b = 19" "0 \<le> b div 2" "b div 2 < 128"
    using assms by auto
  show "a * 4 + b div 64 = 401 \<longleftrightarrow> a = 100 \<and> 64 \<le> b \<and> b < 128"
    using radix_eq [of "b div 64" 4 1 a 100] b64 by simp
  show "a * 16 + b div 16 = 2753 \<longleftrightarrow> a = 172 \<and> 16 \<le> b \<and> b < 32"
    using radix_eq [of "b div 16" 16 1 a 172] b16 by simp
  show "a * 128 + b div 2 = 25353 \<longleftrightarrow> a = 198 \<and> (b = 18 \<or> b = 19)"
    using radix_eq [of "b div 2" 128 9 a 198] b2 by simp
  show "a * 256 + b = 43518 \<longleftrightarrow> a = 169 \<and> b = 254" "a * 256 + b = 49320 \<longleftrightarrow> a = 192 \<and> b = 168"
    using radix_eq [of b 256 254 a 169] radix_eq [of b 256 168 a 192] assms by simp_all
  show "a * 65536 + b * 256 + c = 12582912 \<longleftrightarrow> a = 192 \<and> b = 0 \<and> c = 0"
    "a * 65536 + b * 256 + c = 12582914 \<longleftrightarrow> a = 192 \<and> b = 0 \<and> c = 2"
    "a * 65536 + b * 256 + c = 12989284 \<longleftrightarrow> a = 198 \<and> b = 51 \<and> c = 100"
    "a * 65536 + b * 256 + c = 13303921 \<longleftrightarrow> a = 203 \<and> b = 0 \<and> c = 113"
    using radix3_eq [of b c 0 0 a 192] radix3_eq [of b c 0 2 a 192] radix3_eq [of b c 51 100 a 198]
      radix3_eq [of b c 0 113 a 203] assms by simp_all
  show "a div 16 = 14 \<or> a div 16 = 15 \<longleftrightarrow> 224 \<le> a" using assms by auto
qed

lemma quad_extremes:
  "quad a b c d = 0 \<Longrightarrow> uint a = 0" "quad a b c d = 0xFFFFFFFF \<Longrightarrow> uint a = 255"
  using quad_div(1) [of a b c d] by simp_all

lemma unsafe_addr_iff:
  "unsafe_addr a \<longleftrightarrow> \<not> is_global_unicast a \<or> list_ex (\<lambda>p. prefix_contains p a) forbiddenWebhookPrefixes"
  by (simp add: unsafe_addr_def)

lemma unsafe_addr4: "unsafe_addr (V4 (word_rcat [a, b, c, d :: 8 word])) \<longleftrightarrow> special_use4 (uint a) (uint b) (uint c)"
proof -
  note oct = octet_arith [of "uint a" "uint b" "uint c", OF uint_ge_0 uint_byte_less uint_ge_0 uint_byte_less
      uint_ge_0 uint_byte_less]
  have "unsafe_addr (V4 (word_rcat [a, b, c, d])) \<longleftrightarrow>
      quad a b c d = 0 \<or> quad a b c d = 0xFFFFFFFF \<or> uint a = 127 \<or> uint a \<in> {0, 10, 127}
      \<or> (uint a = 100 \<and> 64 \<le> uint b \<and> uint b < 128) \<or> (uint a = 169 \<and> uint b = 254) \<or> (uint a = 192 \<and> uint b = 168)
      \<or> (uint a = 172 \<and> 16 \<le> uint b \<and> uint b < 32) \<or> (uint a = 192 \<and> uint b = 0 \<and> uint c = 0)
      \<or> (uint a = 192 \<and> uint b = 0 \<and> uint c = 2) \<or> (uint a = 198 \<and> uint b = 51 \<and> uint c = 100)
      \<or> (uint a = 203 \<and> uint b = 0 \<and> uint c = 113) \<or> (uint a = 198 \<and> (uint b = 18 \<or> uint b = 19))
      \<or> 224 \<le> uint a"
    unfolding unsafe_addr_iff unicast4 contains4 oct(10) [symmetric] insert_iff empty_iff oct(1-9) by satx
  moreover have "quad a b c d = 0xFFFFFFFF \<Longrightarrow> 224 \<le> uint a" "quad a b c d = 0 \<Longrightarrow> uint a = 0"
    using quad_extremes [of a b c d] by simp_all
  ultimately show ?thesis
    unfolding special_use4_def insert_iff empty_iff by blast
qed

lemma unmap_mapped: "unmap (V6 (word_rcat (mapped_bytes a b c d))) = V4 (word_rcat [a, b, c, d])"
proof -
  have "(0xFFFF * 4294967296 + quad a b c d) div 4294967296 = 0xFFFF"
    by (rule int_div_pos_eq [where r = "quad a b c d"]) (use quad_bounds [of a b c d] in auto)
  then have "drop_bit 32 (word_rcat (mapped_bytes a b c d) :: 128 word) = 0xFFFF"
    by (simp add: drop_bit_eq_uint uint_rcat_mapped)
  moreover have "(0xFFFF * 4294967296 + quad a b c d) mod 4294967296 = quad a b c d"
    by (rule int_mod_pos_eq [where q = 65535]) (use quad_bounds [of a b c d] in auto)
  then have "(ucast (word_rcat (mapped_bytes a b c d) :: 128 word) :: 32 word) = word_rcat [a, b, c, d]"
    by (simp add: word_uint_eq_iff uint_rcat4 unsigned_ucast_eq uint_rcat_mapped take_bit_eq_mod)
  ultimately show ?thesis by simp
qed

lemma unsafe_bytes4: "unsafeWebhookIP [a, b, c, d] \<longleftrightarrow> special_use4 (uint a) (uint b) (uint c)"
  by (simp add: unsafeWebhookIP_alt addr_from_slice_def unsafe_addr4)

lemma unsafe_mapped: "unsafeWebhookIP (mapped_bytes a b c d) \<longleftrightarrow> unsafeWebhookIP [a, b, c, d]"
proof -
  have "addr_from_slice (mapped_bytes a b c d) = Some (V6 (word_rcat (mapped_bytes a b c d)))"
    "addr_from_slice [a, b, c, d] = Some (V4 (word_rcat [a, b, c, d]))"
    by (simp_all add: addr_from_slice_def mapped_bytes_def)
  then show ?thesis
    by (simp only: unsafeWebhookIP_alt option.case unmap_mapped unmap.simps(1))
qed

lemma resolvePublicHost_safe:
  "resolvePublicHost parse_ip lookup host = Inr ips \<Longrightarrow> ips \<noteq> [] \<and> (\<forall>ip \<in> set ips. \<not> unsafeWebhookIP ip)"
  by (auto simp: resolvePublicHost_def list_ex_iff split: option.splits if_splits)

lemma dial_first_in: "dial_first dial ips = Some ip \<Longrightarrow> ip \<in> set ips \<and> dial ip"
  by (induction ips) (auto split: if_splits)


definition demo_resolver :: "string \<Rightarrow> net_ip list option" where
  "demo_resolver host = (if host = ''hooks.example'' then Some [[93, 184, 216, 34], [8, 8, 8, 8]] else None)"


end
