(* ===== verification/AlertRules.thy ===== *)
theory AlertRules imports StatsTypes WebhookGuard begin

text \<open>
  Alert rules (src/internal/alerting/manager.go and validation.go): the rule record, its
  normalisation and validation, scope and role matching, the metric a rule reads from a device's
  live statistics, the comparison, the automatic severity and the message text. Everything here
  is a pure function of its arguments. Mail address parsing and URL parsing are parameters of
  \<open>ValidateRule\<close>; the rounding of the two float64 divisions is a parameter of
  \<open>getMetricValue\<close>.
\<close>

section \<open>Constants\<close>

abbreviation MetricSignal60GHz :: string where "MetricSignal60GHz \<equiv> ''signal_60ghz''"
abbreviation MetricSignal5GHz :: string where "MetricSignal5GHz \<equiv> ''signal_5ghz''"
abbreviation MetricSignal6GHz :: string where "MetricSignal6GHz \<equiv> ''signal_6ghz''"
abbreviation MetricSignalLTU :: string where "MetricSignalLTU \<equiv> ''signal_ltu''"
abbreviation MetricCPU :: string where "MetricCPU \<equiv> ''cpu''"
abbreviation MetricTemperature :: string where "MetricTemperature \<equiv> ''temperature''"
abbreviation MetricRAM :: string where "MetricRAM \<equiv> ''ram''"
abbreviation MetricOfflineDuration :: string where "MetricOfflineDuration \<equiv> ''offline_duration''"
abbreviation MetricCapacity :: string where "MetricCapacity \<equiv> ''capacity''"
abbreviation MetricPeerCount :: string where "MetricPeerCount \<equiv> ''peer_count''"
abbreviation MetricLinkScore :: string where "MetricLinkScore \<equiv> ''link_score''"
abbreviation MetricInterference :: string where "MetricInterference \<equiv> ''interference''"
abbreviation MetricChainImbalance :: string where "MetricChainImbalance \<equiv> ''chain_imbalance''"
abbreviation MetricGPSSync :: string where "MetricGPSSync \<equiv> ''gps_sync''"

abbreviation SeverityAuto :: string where "SeverityAuto \<equiv> ''auto''"
abbreviation SeverityInfo :: string where "SeverityInfo \<equiv> ''info''"
abbreviation SeverityWarning :: string where "SeverityWarning \<equiv> ''warning''"
abbreviation SeverityCritical :: string where "SeverityCritical \<equiv> ''critical''"

definition validMetrics :: "string list" where
  "validMetrics =
     [MetricSignal60GHz, MetricSignal5GHz, MetricSignal6GHz, MetricSignalLTU, MetricCPU,
      MetricTemperature, MetricRAM, MetricOfflineDuration, MetricCapacity, MetricPeerCount,
      MetricLinkScore, MetricInterference, MetricChainImbalance, MetricGPSSync]"

definition validOperators :: "string list" where
  "validOperators = [''lt'', ''lte'', ''gt'', ''gte'', ''eq'', ''ne'']"

section \<open>Rules\<close>

record rule =
  r_ID :: int
  r_Name :: string
  r_Enabled :: bool
  r_Scope :: string
  r_ScopeID :: "int option"
  r_TargetRole :: string
  r_RequireAlertable :: bool
  r_Metric :: string
  r_Operator :: string
  r_Threshold :: f64
  r_DurationSeconds :: int
  r_Severity :: string
  r_NotifyChannels :: "string list"
  r_NotifyEmails :: "string list"
  r_WebhookURL :: string
  r_NotifyRecovery :: bool
  r_CooldownSeconds :: int
  r_CreatedAt :: time
  r_CreatedBy :: int

record deviceAlertPolicy =
  pol_DeviceID :: int
  pol_Role :: string
  pol_Alertable :: bool
  pol_AlertSilencedUntil :: "time option"
  pol_CreatedAt :: time

text \<open>The loop of uniqueChannels: \<open>seen\<close> holds the folded names already emitted.\<close>

fun uniqueChannels_loop :: "string list \<Rightarrow> string list \<Rightarrow> string list" where
  "uniqueChannels_loop seen [] = []"
| "uniqueChannels_loop seen (ch # chs) =
     (let ch' = to_lower (trim_space ch) in
      if ch' = [] then uniqueChannels_loop seen chs
      else if ch' \<in> set seen then uniqueChannels_loop seen chs
      else ch' # uniqueChannels_loop (ch' # seen) chs)"

definition uniqueChannels :: "string list \<Rightarrow> string list" where
  "uniqueChannels channels = uniqueChannels_loop [] channels"

definition default_str :: "string \<Rightarrow> string \<Rightarrow> string" where
  "default_str d s = (if s = [] then d else s)"

definition normalizeRule :: "rule \<Rightarrow> rule" where
  "normalizeRule r = r\<lparr>
     r_Name := trim_space (r_Name r),
     r_Scope := default_str ''all'' (to_lower (trim_space (r_Scope r))),
     r_TargetRole := default_str ''all'' (to_lower (trim_space (r_TargetRole r))),
     r_Metric := to_lower (trim_space (r_Metric r)),
     r_Operator := to_lower (trim_space (r_Operator r)),
     r_Severity := default_str SeverityAuto (to_lower (trim_space (r_Severity r))),
     r_WebhookURL := trim_space (r_WebhookURL r),
     r_NotifyChannels := uniqueChannels (map (\<lambda>c. to_lower (trim_space c)) (r_NotifyChannels r)),
     r_NotifyEmails := map trim_space (r_NotifyEmails r)\<rparr>"

datatype rule_error =
    RuleRequired | BadName | BadThreshold | ScopeIDForbidden | ScopeIDRequired string | BadScope
  | BadTargetRole | BadMetric string | BadOperator string | BadSeverity | BadDuration | BadCooldown
  | BadChannel string | EmailsRequired | BadEmail string | WebhookRequired | BadWebhook webhook_error

definition finite_f64 :: "f64 \<Rightarrow> bool" where
  "finite_f64 v \<longleftrightarrow> v \<noteq> NaN \<and> v \<noteq> PosInf \<and> v \<noteq> NegInf"

definition maxSeconds :: int where
  "maxSeconds = 31 * 24 * 60 * 60"

definition deliverable_channels :: "string list" where
  "deliverable_channels = [''email'', ''webhook'', ''zabbix'', ''sysmon'']"

text \<open>The first failing element of a loop that returns an error, in list order.\<close>

fun first_error :: "('a \<Rightarrow> 'e option) \<Rightarrow> 'a list \<Rightarrow> 'e option" where
  "first_error f [] = None"
| "first_error f (x # xs) = (case f x of Some e \<Rightarrow> Some e | None \<Rightarrow> first_error f xs)"

definition check_scope :: "rule \<Rightarrow> rule_error option" where
  "check_scope r =
     (if r_Scope r = ''all'' then (if r_ScopeID r \<noteq> None then Some ScopeIDForbidden else None)
      else if r_Scope r = ''site'' \<or> r_Scope r = ''device'' then
        (case r_ScopeID r of None \<Rightarrow> Some (ScopeIDRequired (r_Scope r))
         | Some i \<Rightarrow> if i \<le> 0 then Some (ScopeIDRequired (r_Scope r)) else None)
      else Some BadScope)"

definition check_channels ::
  "(string \<Rightarrow> string option) \<Rightarrow> (string \<Rightarrow> webhook_error option) \<Rightarrow> rule \<Rightarrow> rule_error option" where
  "check_channels parse_address validate_url r =
     (case first_error (\<lambda>ch. if ch \<in> set deliverable_channels then None else Some (BadChannel ch)) (r_NotifyChannels r) of
        Some e \<Rightarrow> Some e
      | None \<Rightarrow>
     (case (if ''email'' \<in> set (r_NotifyChannels r) then
              (if r_NotifyEmails r = [] then Some EmailsRequired
               else first_error (\<lambda>a. case parse_address a of
                        None \<Rightarrow> Some (BadEmail a)
                      | Some p \<Rightarrow> if \<not> equal_fold p (trim_space a) then Some (BadEmail a) else None) (r_NotifyEmails r))
            else None) of
        Some e \<Rightarrow> Some e
      | None \<Rightarrow>
          if ''webhook'' \<in> set (r_NotifyChannels r) then
            (if r_WebhookURL r = [] then Some WebhookRequired
             else map_option BadWebhook (validate_url (r_WebhookURL r)))
          else if r_WebhookURL r \<noteq> [] then map_option BadWebhook (validate_url (r_WebhookURL r))
          else None))"

text \<open>
  ValidateRule normalises the rule it is given (the caller sees the normalised fields) and
  returns the first violation; \<open>None\<close> models the nil pointer.
\<close>

definition ValidateRule ::
  "(string \<Rightarrow> string option) \<Rightarrow> (string \<Rightarrow> webhook_error option) \<Rightarrow> rule option \<Rightarrow> rule_error + rule" where
  "ValidateRule parse_address validate_url ro =
     (case ro of None \<Rightarrow> Inl RuleRequired
      | Some r0 \<Rightarrow>
        (let r = normalizeRule r0 in
         if r_Name r = [] \<or> rune_count (r_Name r) > 100 then Inl BadName
         else if \<not> finite_f64 (r_Threshold r) then Inl BadThreshold
         else (case check_scope r of Some e \<Rightarrow> Inl e | None \<Rightarrow>
         if r_TargetRole r \<noteq> ''all'' \<and> r_TargetRole r \<noteq> ''ap'' \<and> r_TargetRole r \<noteq> ''sta'' then Inl BadTargetRole
         else if r_Metric r \<notin> set validMetrics then Inl (BadMetric (r_Metric r))
         else if r_Operator r \<notin> set validOperators then Inl (BadOperator (r_Operator r))
         else if r_Severity r \<noteq> SeverityAuto \<and> r_Severity r \<noteq> SeverityInfo
              \<and> r_Severity r \<noteq> SeverityWarning \<and> r_Severity r \<noteq> SeverityCritical then Inl BadSeverity
         else if r_DurationSeconds r < 0 \<or> r_DurationSeconds r > maxSeconds then Inl BadDuration
         else if r_CooldownSeconds r < 0 \<or> r_CooldownSeconds r > maxSeconds then Inl BadCooldown
         else (case check_channels parse_address validate_url r of Some e \<Rightarrow> Inl e | None \<Rightarrow> Inr r))))"

section \<open>Matching a rule against a device\<close>

definition scopeMatches :: "rule \<Rightarrow> device_stats \<Rightarrow> bool" where
  "scopeMatches r ds =
     (if r_Scope r = ''all'' then True
      else if r_Scope r = ''site'' then r_ScopeID r = Some (ds_SiteID ds)
      else if r_Scope r = ''device'' then r_ScopeID r = Some (ds_DeviceID ds)
      else False)"

definition roleMatches :: "string \<Rightarrow> string \<Rightarrow> bool" where
  "roleMatches targetRole deviceRole \<longleftrightarrow> targetRole = ''all'' \<or> targetRole = deviceRole"

definition ruleApplies :: "rule \<Rightarrow> device_stats \<Rightarrow> deviceAlertPolicy \<Rightarrow> time \<Rightarrow> bool" where
  "ruleApplies r ds policy now =
     (if ds_DeviceID ds \<le> 0 \<or> pol_DeviceID policy \<noteq> ds_DeviceID ds then False
      else if \<not> scopeMatches r ds \<or> \<not> roleMatches (r_TargetRole r) (pol_Role policy) then False
      else if r_RequireAlertable r \<and> \<not> pol_Alertable policy then False
      else (case pol_AlertSilencedUntil policy of None \<Rightarrow> True | Some t \<Rightarrow> \<not> now < t))"

section \<open>Metrics\<close>

text \<open>The fixed radio slots in the order the code checks them, then the list of all radios.\<close>

definition all_radios :: "device_stats \<Rightarrow> radio_stats list" where
  "all_radios ds =
     (let w = ds_Wireless ds in
      List.map_filter (\<lambda>r. r) [wl_Radio60GHz w, wl_Radio5GHz w, wl_Radio6GHz w, wl_RadioLTU w] @ wl_Radios w)"

fun interference_step :: "f64 \<times> bool \<Rightarrow> radio_stats \<Rightarrow> f64 \<times> bool" where
  "interference_step (m, found) r =
     (case radio_Utilization r of
        None \<Rightarrow> (m, found)
      | Some u \<Rightarrow>
          if \<not> finite_f64 (util_Interference u) then (m, found)
          else (if \<not> found \<or> flt m (util_Interference u) then util_Interference u else m, True))"

definition maxRadioInterference :: "device_stats \<Rightarrow> f64 \<times> bool" where
  "maxRadioInterference ds = foldl interference_step (Fin 0, False) (all_radios ds)"

fun chain_step :: "int \<times> int \<times> nat \<Rightarrow> int \<Rightarrow> int \<times> int \<times> nat" where
  "chain_step (mn, mx, count) signal =
     (if signal \<ge> 0 then (mn, mx, count)
      else (if count = 0 \<or> signal < mn then signal else mn,
            if count = 0 \<or> signal > mx then signal else mx, count + 1))"

fun imbalance_step :: "f64 \<times> bool \<Rightarrow> radio_stats \<Rightarrow> f64 \<times> bool" where
  "imbalance_step (m, found) r =
     (if length (radio_SignalPerChain r) < 2 then (m, found)
      else (case foldl chain_step (0, 0, 0) (radio_SignalPerChain r) of
              (mn, mx, count) \<Rightarrow>
                if count < 2 then (m, found)
                else (let spread = f64_of_int (mx - mn) in
                      (if \<not> found \<or> flt m spread then spread else m, True))))"

definition maxRadioChainImbalance :: "device_stats \<Rightarrow> f64 \<times> bool" where
  "maxRadioChainImbalance ds = foldl imbalance_step (Fin 0, False) (all_radios ds)"

definition gpsSyncMetric :: "device_stats \<Rightarrow> f64 \<times> bool" where
  "gpsSyncMetric ds =
     (if list_ex (\<lambda>r. radio_GPSSyncState r = 2) (all_radios ds) then (Fin 1, True)
      else if list_ex (\<lambda>r. radio_GPSSyncState r \<noteq> 0) (all_radios ds) then (Fin 0, True)
      else (case ds_Config ds of Some c \<Rightarrow> if cfg_GPSSync c then (Fin 1, True) else (Fin 0, False)
            | None \<Rightarrow> (Fin 0, False)))"

definition radio_signal :: "radio_stats option \<Rightarrow> f64 \<times> bool" where
  "radio_signal r = (case r of Some x \<Rightarrow> (f64_of_int (radio_Signal x), True) | None \<Rightarrow> (Fin 0, False))"

definition offline_seconds :: "(rat \<Rightarrow> rat) \<Rightarrow> device_stats \<Rightarrow> deviceAlertPolicy \<Rightarrow> time \<Rightarrow> f64" where
  "offline_seconds rnd ds policy now =
     (if ds_Status ds \<noteq> StatusOffline then Fin 0
      else (let start = (if ds_LastSeen ds = 0 then pol_CreatedAt policy else ds_LastSeen ds) in
            if start = 0 \<or> now < start then Fin 0
            else Fin (rnd (of_int (now - start) / of_int second))))"

definition getMetricValue ::
  "(rat \<Rightarrow> rat) \<Rightarrow> string \<Rightarrow> device_stats \<Rightarrow> deviceAlertPolicy \<Rightarrow> time \<Rightarrow> f64 \<times> bool" where
  "getMetricValue rnd metric ds policy now =
     (let w = ds_Wireless ds in
      if metric = MetricSignal60GHz then radio_signal (wl_Radio60GHz w)
      else if metric = MetricSignal5GHz then radio_signal (wl_Radio5GHz w)
      else if metric = MetricSignal6GHz then
        (case wl_Radio6GHz w of
           Some r \<Rightarrow> if radio_Frequency r \<ge> 5925 then (f64_of_int (radio_Signal r), True) else (Fin 0, False)
         | None \<Rightarrow> (Fin 0, False))
      else if metric = MetricSignalLTU then radio_signal (wl_RadioLTU w)
      else if metric = MetricCPU then (ds_CPUUsage ds, True)
      else if metric = MetricTemperature then (temp_CPU (ds_Temperature ds), True)
      else if metric = MetricRAM then (ds_MemUsage ds, True)
      else if metric = MetricOfflineDuration then (offline_seconds rnd ds policy now, True)
      else if metric = MetricPeerCount then (f64_of_int (ds_PeerCount ds), True)
      else if metric = MetricCapacity then
        (case wl_Radio60GHz w of
           Some r \<Rightarrow> (case radio_Capacity r of
                          Some c \<Rightarrow> (Fin (rnd (of_int (cap_Combined c) / 1000000)), True)
                        | None \<Rightarrow> (Fin 0, False))
         | None \<Rightarrow> (Fin 0, False))
      else if metric = MetricLinkScore then
        (case wl_LinkScore w of Some l \<Rightarrow> (f64_of_int (ls_DL l), True) | None \<Rightarrow> (Fin 0, False))
      else if metric = MetricInterference then maxRadioInterference ds
      else if metric = MetricChainImbalance then maxRadioChainImbalance ds
      else if metric = MetricGPSSync then gpsSyncMetric ds
      else (Fin 0, False))"

section \<open>Condition, severity, message\<close>

definition evaluateCondition :: "string \<Rightarrow> f64 \<Rightarrow> f64 \<Rightarrow> bool" where
  "evaluateCondition op v t =
     (if op = ''lt'' then flt v t
      else if op = ''lte'' then fle v t
      else if op = ''gt'' then flt t v
      else if op = ''gte'' then fle t v
      else if op = ''eq'' then feq v t
      else if op = ''ne'' then \<not> feq v t
      else False)"

text \<open>
  One case of the severity switch: the critical test, then the warning test; a value that passes
  neither leaves the switch and gets the final \<open>return SeverityWarning\<close>.
\<close>

definition severity_case :: "bool \<Rightarrow> bool \<Rightarrow> string" where
  "severity_case crit warn =
     (if crit then SeverityCritical else if warn then SeverityWarning else SeverityWarning)"

definition determineSeverity :: "rule \<Rightarrow> f64 \<Rightarrow> string" where
  "determineSeverity r v =
     (if r_Severity r = SeverityInfo \<or> r_Severity r = SeverityWarning \<or> r_Severity r = SeverityCritical
      then r_Severity r
      else if r_Metric r \<in> {MetricSignal60GHz, MetricSignal5GHz, MetricSignal6GHz, MetricSignalLTU} then
        severity_case (flt v (Fin (-80))) (flt v (Fin (-70)))
      else if r_Metric r \<in> {MetricCPU, MetricRAM} then severity_case (flt (Fin 95) v) (flt (Fin 85) v)
      else if r_Metric r = MetricTemperature then severity_case (flt (Fin 85) v) (flt (Fin 75) v)
      else if r_Metric r = MetricOfflineDuration then severity_case (flt (Fin 3600) v) (flt (Fin 300) v)
      else if r_Metric r = MetricCapacity then severity_case (flt v (Fin 25)) (flt v (Fin 100))
      else if r_Metric r = MetricLinkScore then severity_case (flt v (Fin 25)) (flt v (Fin 50))
      else if r_Metric r = MetricInterference then severity_case (fle (Fin 50) v) (fle (Fin 25) v)
      else if r_Metric r = MetricChainImbalance then severity_case (fle (Fin 12) v) (fle (Fin 6) v)
      else if r_Metric r = MetricGPSSync then severity_case (flt v (Fin 1)) False
      else SeverityWarning)"

definition op_words :: "string \<Rightarrow> string" where
  "op_words op = get_str
     [(''lt'', ''below''), (''lte'', ''at or below''), (''gt'', ''above''), (''gte'', ''at or above''),
      (''eq'', ''equal to''), (''ne'', ''not equal to'')] op"

definition formatAlertMessage :: "rule \<Rightarrow> device_stats \<Rightarrow> f64 \<Rightarrow> string" where
  "formatAlertMessage r ds v =
     (let hostname = default_str (ds_IP ds) (ds_Hostname ds) in
      if r_Metric r = MetricGPSSync then
        r_Name r @ '': GPS synchronization is '' @
        (if fle (Fin 1) v then ''synchronized'' else ''not synchronized'') @ '' on '' @ hostname
      else r_Name r @ '': '' @ r_Metric r @ '' is '' @ op_words (r_Operator r) @ '' threshold ('' @
           fmt2 v @ '' '' @ r_Operator r @ '' '' @ fmt2 (r_Threshold r) @ '') on '' @ hostname)"

section \<open>Lemmas: normalisation\<close>

abbreviation fold_name :: "string \<Rightarrow> string" where "fold_name s \<equiv> to_lower (trim_space s)"

lemma fold_name_idem: "fold_name (fold_name s) = fold_name s"
  by simp

lemma set_uniqueChannels_loop:
  "set (uniqueChannels_loop seen chs) = {c \<in> fold_name ` set chs. c \<noteq> [] \<and> c \<notin> set seen}"
  by (induction seen chs rule: uniqueChannels_loop.induct) (auto simp: Let_def)

lemma distinct_uniqueChannels_loop: "distinct (uniqueChannels_loop seen chs)"
  by (induction seen chs rule: uniqueChannels_loop.induct) (auto simp: Let_def set_uniqueChannels_loop)

lemma uniqueChannels_loop_fixed:
  "distinct chs \<Longrightarrow> set chs \<inter> set seen = {} \<Longrightarrow> \<forall>c \<in> set chs. c \<noteq> [] \<and> fold_name c = c
   \<Longrightarrow> uniqueChannels_loop seen chs = chs"
  by (induction chs arbitrary: seen) (auto simp: Let_def)

lemma set_uniqueChannels: "set (uniqueChannels chs) = {c \<in> fold_name ` set chs. c \<noteq> []}"
  by (simp add: uniqueChannels_def set_uniqueChannels_loop)

lemma distinct_uniqueChannels [simp]: "distinct (uniqueChannels chs)"
  by (simp add: uniqueChannels_def distinct_uniqueChannels_loop)

lemma uniqueChannels_folded: "c \<in> set (uniqueChannels chs) \<Longrightarrow> c \<noteq> [] \<and> fold_name c = c"
  by (auto simp: set_uniqueChannels)

lemma uniqueChannels_fixed:
  "distinct chs \<Longrightarrow> \<forall>c \<in> set chs. c \<noteq> [] \<and> fold_name c = c \<Longrightarrow> uniqueChannels chs = chs"
  by (simp add: uniqueChannels_def uniqueChannels_loop_fixed)

lemma uniqueChannels_idem [simp]: "uniqueChannels (uniqueChannels chs) = uniqueChannels chs"
  by (rule uniqueChannels_fixed) (auto dest: uniqueChannels_folded)

lemma map_fold_uniqueChannels [simp]: "map fold_name (uniqueChannels chs) = uniqueChannels chs"
  by (rule map_idI) (auto dest: uniqueChannels_folded)

lemma to_lower_all [simp]: "to_lower ''all'' = ''all''" "to_lower SeverityAuto = SeverityAuto"
  by (simp_all add: to_lower_def lower_char_def)

lemma trim_all [simp]: "trim_space ''all'' = ''all''" "trim_space SeverityAuto = SeverityAuto"
  by (simp_all add: trim_space_def is_space_def)

lemma default_str_fold [simp]:
  "default_str ''all'' (fold_name (default_str ''all'' (fold_name s))) = default_str ''all'' (fold_name s)"
  "default_str SeverityAuto (fold_name (default_str SeverityAuto (fold_name s))) = default_str SeverityAuto (fold_name s)"
  by (simp_all add: default_str_def)

lemma normalizeRule_idem [simp]: "normalizeRule (normalizeRule r) = normalizeRule r"
  by (simp add: normalizeRule_def comp_def)

lemma normalizeRule_channels [simp]:
  "uniqueChannels (r_NotifyChannels (normalizeRule r)) = r_NotifyChannels (normalizeRule r)"
  by (simp add: normalizeRule_def)

lemma normalizeRule_ID [simp]: "r_ID (normalizeRule r) = r_ID r"
  by (simp add: normalizeRule_def)

section \<open>Lemmas: validation\<close>

lemma first_error_None: "first_error f xs = None \<longleftrightarrow> (\<forall>x \<in> set xs. f x = None)"
  by (induction xs) (auto split: option.splits)

text \<open>What the rest of the alerting code relies on in a rule it loaded.\<close>

definition rule_wf :: "rule \<Rightarrow> bool" where
  "rule_wf r \<longleftrightarrow>
     normalizeRule r = r \<and> finite_f64 (r_Threshold r)
     \<and> (r_Scope r = ''all'' \<and> r_ScopeID r = None
        \<or> r_Scope r \<in> {''site'', ''device''} \<and> (\<exists>i > 0. r_ScopeID r = Some i))
     \<and> r_TargetRole r \<in> {''all'', ''ap'', ''sta''}
     \<and> r_Metric r \<in> set validMetrics \<and> r_Operator r \<in> set validOperators
     \<and> 0 \<le> r_DurationSeconds r \<and> r_DurationSeconds r \<le> maxSeconds
     \<and> 0 \<le> r_CooldownSeconds r \<and> r_CooldownSeconds r \<le> maxSeconds
     \<and> distinct (r_NotifyChannels r) \<and> set (r_NotifyChannels r) \<subseteq> set deliverable_channels
     \<and> (''email'' \<in> set (r_NotifyChannels r) \<longrightarrow> r_NotifyEmails r \<noteq> [])
     \<and> (''webhook'' \<in> set (r_NotifyChannels r) \<longrightarrow> r_WebhookURL r \<noteq> [])"

lemma check_scope_None:
  "check_scope r = None \<longleftrightarrow>
     r_Scope r = ''all'' \<and> r_ScopeID r = None
     \<or> r_Scope r \<in> {''site'', ''device''} \<and> (\<exists>i > 0. r_ScopeID r = Some i)"
  by (auto simp: check_scope_def split: option.splits if_splits)

lemma check_channels_None:
  "check_channels pa vu r = None \<Longrightarrow>
     set (r_NotifyChannels r) \<subseteq> set deliverable_channels
     \<and> (''email'' \<in> set (r_NotifyChannels r) \<longrightarrow> r_NotifyEmails r \<noteq> [])
     \<and> (''webhook'' \<in> set (r_NotifyChannels r) \<longrightarrow> r_WebhookURL r \<noteq> [])
     \<and> (r_WebhookURL r \<noteq> [] \<longrightarrow> vu (r_WebhookURL r) = None)"
  by (auto simp: check_channels_def first_error_None split: option.splits if_splits)

lemma ValidateRule_Inr:
  "ValidateRule pa vu ro = Inr r \<Longrightarrow> \<exists>r0. ro = Some r0 \<and> r = normalizeRule r0 \<and>
     check_scope r = None \<and> check_channels pa vu r = None \<and> finite_f64 (r_Threshold r)
     \<and> r_TargetRole r \<in> {''all'', ''ap'', ''sta''} \<and> r_Metric r \<in> set validMetrics \<and> r_Operator r \<in> set validOperators
     \<and> 0 \<le> r_DurationSeconds r \<and> r_DurationSeconds r \<le> maxSeconds
     \<and> 0 \<le> r_CooldownSeconds r \<and> r_CooldownSeconds r \<le> maxSeconds"
  unfolding ValidateRule_def Let_def by (auto split: option.splits if_splits)

lemma ValidateRule_wf: "ValidateRule pa vu ro = Inr r \<Longrightarrow> rule_wf r"
proof -
  assume "ValidateRule pa vu ro = Inr r"
  from ValidateRule_Inr [OF this] obtain r0 where r0: "r = normalizeRule r0" "check_scope r = None"
    "check_channels pa vu r = None" and rest: "finite_f64 (r_Threshold r)"
    "r_TargetRole r \<in> {''all'', ''ap'', ''sta''}" "r_Metric r \<in> set validMetrics" "r_Operator r \<in> set validOperators"
    "0 \<le> r_DurationSeconds r" "r_DurationSeconds r \<le> maxSeconds" "0 \<le> r_CooldownSeconds r" "r_CooldownSeconds r \<le> maxSeconds"
    by blast
  have "normalizeRule r = r" "distinct (r_NotifyChannels r)"
    unfolding r0(1) by (simp, simp add: normalizeRule_def)
  then show ?thesis
    using rest check_channels_None [OF r0(3)] r0(2)
    unfolding rule_wf_def check_scope_None by blast
qed

lemma ValidateRule_again: "ValidateRule pa vu ro = Inr r \<Longrightarrow> ValidateRule pa vu (Some r) = Inr r"
proof -
  assume ok: "ValidateRule pa vu ro = Inr r"
  from ValidateRule_Inr [OF ok] obtain r0 where "ro = Some r0" and r: "r = normalizeRule r0" by blast
  then have "ValidateRule pa vu (Some r0) = Inr r" using ok by simp
  then show ?thesis unfolding ValidateRule_def r by simp
qed

section \<open>Lemmas: the two maxima over the radios\<close>

text \<open>Both loops keep the largest sample seen; a radio contributes at most one finite sample.\<close>

fun max_step :: "('a \<Rightarrow> rat option) \<Rightarrow> f64 \<times> bool \<Rightarrow> 'a \<Rightarrow> f64 \<times> bool" where
  "max_step f (m, found) x =
     (case f x of None \<Rightarrow> (m, found)
      | Some v \<Rightarrow> (if \<not> found \<or> flt m (Fin v) then Fin v else m, True))"

definition samples :: "('a \<Rightarrow> rat option) \<Rightarrow> 'a list \<Rightarrow> rat set" where
  "samples f xs = {v. \<exists>x \<in> set xs. f x = Some v}"

lemma samples_simps [simp]:
  "samples f [] = {}"
  "samples f (xs @ [x]) = (case f x of None \<Rightarrow> samples f xs | Some v \<Rightarrow> insert v (samples f xs))"
  by (auto simp: samples_def split: option.splits)

lemma finite_samples [simp]: "finite (samples f xs)"
proof -
  have "samples f xs \<subseteq> (the \<circ> f) ` set xs" by (force simp: samples_def)
  then show ?thesis by (rule finite_subset) simp
qed

lemma Max_insert_if: "finite S \<Longrightarrow> S \<noteq> {} \<Longrightarrow> Max (insert (v :: 'a :: linorder) S) = (if Max S < v then v else Max S)"
  using Max_insert [of S v] unfolding max_def by (metis not_le)

lemma Min_insert_if: "finite S \<Longrightarrow> S \<noteq> {} \<Longrightarrow> Min (insert (v :: 'a :: linorder) S) = (if v < Min S then v else Min S)"
  using Min_insert [of S v] unfolding min_def by (metis not_le antisym less_le)

lemma foldl_max_step:
  "foldl (max_step f) (Fin 0, False) xs =
     (if samples f xs = {} then (Fin 0, False) else (Fin (Max (samples f xs)), True))"
proof (induction xs rule: rev_induct)
  case (snoc x xs)
  show ?case
  proof (cases "f x")
    case (Some v)
    then show ?thesis
      using snoc Max_insert_if [OF finite_samples, of f xs v] by (cases "samples f xs = {}") (simp_all del: Max_insert)
  qed (use snoc in simp)
qed simp

definition interference_sample :: "radio_stats \<Rightarrow> rat option" where
  "interference_sample r =
     (case radio_Utilization r of Some u \<Rightarrow> (case util_Interference u of Fin q \<Rightarrow> Some q | _ \<Rightarrow> None) | None \<Rightarrow> None)"

lemma interference_step_max: "interference_step = max_step interference_sample"
  by (intro ext) (auto simp: interference_sample_def finite_f64_def split: option.splits f64.splits)

definition negative_chains :: "int list \<Rightarrow> int list" where
  "negative_chains cs = filter (\<lambda>s. s < 0) cs"

lemma negative_chains_simps [simp]:
  "negative_chains [] = []"
  "negative_chains (cs @ [c]) = (if c < 0 then negative_chains cs @ [c] else negative_chains cs)"
  by (simp_all add: negative_chains_def)

lemma foldl_chain_step:
  "foldl chain_step (0, 0, 0) cs =
     (if negative_chains cs = [] then (0, 0, 0)
      else (Min (set (negative_chains cs)), Max (set (negative_chains cs)), length (negative_chains cs)))"
proof (induction cs rule: rev_induct)
  case (snoc c cs)
  let ?N = "negative_chains cs"
  show ?case
  proof (cases "?N = []")
    case True
    then show ?thesis using snoc by simp
  next
    case False
    then have "set ?N \<noteq> {}" by simp
    then show ?thesis
      using snoc False Max_insert_if [of "set ?N" c] Min_insert_if [of "set ?N" c]
      by (simp del: Max_insert Min_insert)
  qed
qed simp

definition imbalance_sample :: "radio_stats \<Rightarrow> rat option" where
  "imbalance_sample r =
     (let ns = negative_chains (radio_SignalPerChain r) in
      if length ns < 2 then None else Some (of_int (Max (set ns) - Min (set ns))))"

lemma imbalance_step_max: "imbalance_step = max_step imbalance_sample"
proof (intro ext)
  fix s :: "f64 \<times> bool" and r :: radio_stats
  obtain m found where s: "s = (m, found)" by (cases s)
  have len: "length (negative_chains cs) \<le> length cs" for cs by (simp add: negative_chains_def)
  have le2: "length (radio_SignalPerChain r) < 2 \<Longrightarrow> length (negative_chains (radio_SignalPerChain r)) < 2"
    using len by (rule le_less_trans)
  show "imbalance_step s r = max_step imbalance_sample s r"
    unfolding s using le2
    by (auto simp: foldl_chain_step imbalance_sample_def Let_def f64_of_int_def split: if_splits)
qed

lemma maxRadioInterference_eq:
  "maxRadioInterference ds =
     (if samples interference_sample (all_radios ds) = {} then (Fin 0, False)
      else (Fin (Max (samples interference_sample (all_radios ds))), True))"
  by (simp add: maxRadioInterference_def interference_step_max foldl_max_step)

lemma maxRadioChainImbalance_eq:
  "maxRadioChainImbalance ds =
     (if samples imbalance_sample (all_radios ds) = {} then (Fin 0, False)
      else (Fin (Max (samples imbalance_sample (all_radios ds))), True))"
  by (simp add: maxRadioChainImbalance_def imbalance_step_max foldl_max_step)

lemma Max_samples_in: "samples f xs \<noteq> {} \<Longrightarrow> \<exists>x \<in> set xs. f x = Some (Max (samples f xs))"
proof -
  assume "samples f xs \<noteq> {}"
  then have "Max (samples f xs) \<in> samples f xs" by (simp add: Max_in)
  then show ?thesis by (simp add: samples_def)
qed

section \<open>Lemmas: severity\<close>

lemma severity_case_cases: "severity_case c w = (if c then SeverityCritical else SeverityWarning)"
  by (simp add: severity_case_def)

lemma determineSeverity_range:
  "determineSeverity r v \<in> {SeverityInfo, SeverityWarning, SeverityCritical}"
  by (simp add: determineSeverity_def severity_case_cases)

lemma determineSeverity_auto:
  "r_Severity r = SeverityAuto \<Longrightarrow> determineSeverity r v \<in> {SeverityWarning, SeverityCritical}"
  by (simp add: determineSeverity_def severity_case_cases)

section \<open>Properties\<close>


definition demo_rule :: rule where
  "demo_rule = \<lparr>r_ID = 1, r_Name = '' weak link '', r_Enabled = True, r_Scope = [], r_ScopeID = None,
     r_TargetRole = ''STA'', r_RequireAlertable = True, r_Metric = ''signal_60ghz'', r_Operator = ''lt'',
     r_Threshold = Fin (-70), r_DurationSeconds = 0, r_Severity = [],
     r_NotifyChannels = [''Email'', ''sysmon'', ''email ''], r_NotifyEmails = ['' noc@example.net''],
     r_WebhookURL = [], r_NotifyRecovery = True, r_CooldownSeconds = 300, r_CreatedAt = 0, r_CreatedBy = 1\<rparr>"

definition demo_rule_stored :: rule where
  "demo_rule_stored = normalizeRule demo_rule"

lemma demo_rule_valid: "ValidateRule Some (\<lambda>_. None) (Some demo_rule) = Inr demo_rule_stored"
  by code_simp


text \<open>The chain-imbalance metric is the largest spread between the strongest and the weakest
  reported chain of any radio: zero and positive readings (the parser's missing values) never
  count, radios with fewer than two real readings contribute nothing, and the metric is absent
  exactly when no radio has two.
\<close>

theorem maxRadioChainImbalance_spec:
  "maxRadioChainImbalance ds =
     (let spreads = {v. \<exists>r \<in> set (all_radios ds). 2 \<le> length (negative_chains (radio_SignalPerChain r))
                      \<and> v = (of_int (Max (set (negative_chains (radio_SignalPerChain r)))
                                    - Min (set (negative_chains (radio_SignalPerChain r)))) :: rat)}
      in if spreads = {} then (Fin 0, False) else (Fin (Max spreads), True))"
proof -
  have "samples imbalance_sample (all_radios ds) =
     {v. \<exists>r \<in> set (all_radios ds). 2 \<le> length (negative_chains (radio_SignalPerChain r))
        \<and> v = (of_int (Max (set (negative_chains (radio_SignalPerChain r)))
                      - Min (set (negative_chains (radio_SignalPerChain r)))) :: rat)}"
    by (auto simp: samples_def imbalance_sample_def Let_def not_less split: if_splits)
  then show ?thesis unfolding maxRadioChainImbalance_eq Let_def by simp
qed

end
