(* ===== verification/AlertStore.thy ===== *)
theory AlertStore imports AlertRules begin

text \<open>
  The durable half of alerting: the tables alert_rules, alerts, alert_states,
  alert_notification_outbox and devices (schema.sql), and every transaction of
  src/internal/alerting/notifications.go on them. A table is a list of rows in insertion order.
  Each statement sent to the database may fail: a fault oracle says which call sites fail, and a
  failed statement (or a failed commit) leaves the tables as they were before the transaction.
  The Go clock \<open>now\<close> and the database clock \<open>dbnow\<close> are separate arguments.
\<close>

section \<open>Rows\<close>

datatype alert_status = Active | Acknowledged | Resolved

fun status_name :: "alert_status \<Rightarrow> string" where
  "status_name Active = ''active''"
| "status_name Acknowledged = ''acknowledged''"
| "status_name Resolved = ''resolved''"

datatype event = EvTriggered | EvResolved

fun event_name :: "event \<Rightarrow> string" where
  "event_name EvTriggered = ''triggered''"
| "event_name EvResolved = ''resolved''"

datatype delivery_status = Pending | Sending | Failed | Sent | Dead

record alert =
  al_ID :: int
  al_RuleID :: "int option"
  al_DeviceID :: int
  al_Metric :: string
  al_Value :: f64
  al_Threshold :: f64
  al_Message :: string
  al_Severity :: string
  al_Status :: alert_status
  al_TriggeredAt :: time
  al_AcknowledgedAt :: "time option"
  al_AcknowledgedBy :: "int option"
  al_ResolvedAt :: "time option"
  al_NotifiedAt :: "time option"
  al_NotifyError :: "string option"
  al_RecoveryNotifiedAt :: "time option"
  al_RecoveryNotifyError :: "string option"

record notificationDevice =
  nd_ID :: int
  nd_SiteID :: int
  nd_IP :: string
  nd_MAC :: string
  nd_Hostname :: string

record notificationPayload =
  np_Event :: string
  np_Rule :: rule
  np_Alert :: alert
  np_Device :: notificationDevice
  np_ClearReason :: string

text \<open>A payload that is not a decodable notificationPayload is \<open>None\<close>.\<close>

record outbox_row =
  ob_ID :: int
  ob_AlertID :: int
  ob_Channel :: string
  ob_Event :: event
  ob_Payload :: "notificationPayload option"
  ob_Status :: delivery_status
  ob_Attempts :: int
  ob_NextAttemptAt :: time
  ob_LastError :: "string option"
  ob_UpdatedAt :: time
  ob_SentAt :: "time option"

record outboxItem =
  it_ID :: int
  it_AlertID :: int
  it_Channel :: string
  it_Event :: event
  it_Payload :: notificationPayload
  it_Attempts :: int

record state_row =
  st_RuleID :: int
  st_DeviceID :: int
  st_FirstTriggeredAt :: time
  st_LastValue :: f64
  st_LastCheckedAt :: time
  st_Notified :: bool

record device_row =
  dv_ID :: int
  dv_SiteID :: "int option"
  dv_IP :: string
  dv_MAC :: string
  dv_Hostname :: string
  dv_Role :: string
  dv_ParentID :: "int option"
  dv_Managed :: bool
  dv_Alertable :: bool
  dv_AlertSilencedUntil :: "time option"
  dv_CreatedAt :: time

record rule_row =
  rr_Rule :: rule
  rr_UpdatedAt :: time

record alert_db =
  db_rules :: "rule_row list"
  db_devices :: "device_row list"
  db_alerts :: "alert list"
  db_outbox :: "outbox_row list"
  db_states :: "state_row list"
  db_alert_seq :: int
  db_outbox_seq :: int
  db_rule_seq :: int

section \<open>Failures\<close>

datatype db_site =
    BeginTx | CommitTx | InsertState | TouchState | InsertAlert | EnqueueTrigger string | MarkNotified
  | SelectOpen | SelectAlert int | CloseAlert int | SelectTriggers int | KillTriggers int | LoadRule int
  | EnqueueRecovery int string | DeleteState | LockRule | UpdateRuleRow | DeleteRuleRow | InsertRuleRow
  | LoadRules | DisableRule int | LoadStates | LoadLast | LoadConfig | LoadPolicies | AckAlert
  | SelectClaim | KillPayload | MarkSending | MarkSent | TouchAlert | SelectStatus | MarkFailed | RecoverStale

type_synonym fault = "db_site \<Rightarrow> bool"

datatype alert_error =
    ErrNotFound | ErrNoRows | DbError db_site | BadPayload int | InvalidDeviceID | InvalidRule rule_error
  | ForeignKey | SysmonConfig

text \<open>A statement: it fails if the oracle says so, otherwise the rest runs.\<close>

definition stmt :: "fault \<Rightarrow> db_site \<Rightarrow> (alert_error + 'a) \<Rightarrow> alert_error + 'a" where
  "stmt fault site k = (if fault site then Inl (DbError site) else k)"

lemma stmt_Inr [simp]: "stmt fault site k = Inr x \<longleftrightarrow> \<not> fault site \<and> k = Inr x"
  by (simp add: stmt_def)

section \<open>Queries\<close>

definition open_alert :: "alert \<Rightarrow> bool" where
  "open_alert a \<longleftrightarrow> al_Status a = Active \<or> al_Status a = Acknowledged"

definition get_alert :: "alert_db \<Rightarrow> int \<Rightarrow> alert option" where
  "get_alert db i = find (\<lambda>a. al_ID a = i) (db_alerts db)"

definition get_device :: "alert_db \<Rightarrow> int \<Rightarrow> device_row option" where
  "get_device db i = find (\<lambda>d. dv_ID d = i) (db_devices db)"

definition get_rule_row :: "alert_db \<Rightarrow> int \<Rightarrow> rule_row option" where
  "get_rule_row db i = find (\<lambda>r. r_ID (rr_Rule r) = i) (db_rules db)"

definition getRuleTx :: "alert_db \<Rightarrow> int \<Rightarrow> rule option" where
  "getRuleTx db i = map_option (\<lambda>r. normalizeRule (rr_Rule r)) (get_rule_row db i)"

definition truncateError :: "string \<Rightarrow> nat \<Rightarrow> string" where
  "truncateError s mx = truncate_runes s mx"

definition payload_device :: "device_row \<Rightarrow> notificationDevice" where
  "payload_device d = \<lparr>nd_ID = dv_ID d, nd_SiteID = (case dv_SiteID d of None \<Rightarrow> 0 | Some s \<Rightarrow> s),
     nd_IP = dv_IP d, nd_MAC = dv_MAC d, nd_Hostname = dv_Hostname d\<rparr>"

section \<open>Closing an alert\<close>

definition outbox_key :: "outbox_row \<Rightarrow> int \<times> string \<times> event" where
  "outbox_key o1 = (ob_AlertID o1, ob_Channel o1, ob_Event o1)"

definition new_outbox_row :: "alert_db \<Rightarrow> time \<Rightarrow> int \<Rightarrow> string \<Rightarrow> event \<Rightarrow> notificationPayload \<Rightarrow> outbox_row" where
  "new_outbox_row db dbnow alertID channel ev payload =
     \<lparr>ob_ID = db_outbox_seq db, ob_AlertID = alertID, ob_Channel = channel, ob_Event = ev,
      ob_Payload = Some payload, ob_Status = Pending, ob_Attempts = 0, ob_NextAttemptAt = dbnow,
      ob_LastError = None, ob_UpdatedAt = dbnow, ob_SentAt = None\<rparr>"

text \<open>The recovery upsert: a row already sent keeps its delivery state and only gets the payload.\<close>

definition refresh_recovery :: "time \<Rightarrow> notificationPayload \<Rightarrow> outbox_row \<Rightarrow> outbox_row" where
  "refresh_recovery dbnow payload o1 =
     (if ob_Status o1 = Sent then o1\<lparr>ob_Payload := Some payload, ob_UpdatedAt := dbnow\<rparr>
      else o1\<lparr>ob_Payload := Some payload, ob_Status := Pending, ob_Attempts := 0,
              ob_NextAttemptAt := dbnow, ob_LastError := None, ob_UpdatedAt := dbnow\<rparr>)"

definition upsert_recovery :: "time \<Rightarrow> int \<Rightarrow> string \<Rightarrow> notificationPayload \<Rightarrow> alert_db \<Rightarrow> alert_db" where
  "upsert_recovery dbnow alertID channel payload db =
     (let k = (alertID, channel, EvResolved) in
      if k \<in> outbox_key ` set (db_outbox db)
      then db\<lparr>db_outbox := update_where (\<lambda>o1. outbox_key o1 = k) (refresh_recovery dbnow payload) (db_outbox db),
              db_outbox_seq := db_outbox_seq db + 1\<rparr>
      else db\<lparr>db_outbox := db_outbox db @ [new_outbox_row db dbnow alertID channel EvResolved payload],
              db_outbox_seq := db_outbox_seq db + 1\<rparr>)"

text \<open>
  One trigger delivery of the alert being closed. The payload the trigger was sent with is the
  base; an undecodable one is rebuilt from the rule, and without a rule the close fails.
\<close>

definition recover_trigger ::
  "fault \<Rightarrow> time \<Rightarrow> rule option \<Rightarrow> alert \<Rightarrow> notificationDevice \<Rightarrow> string \<Rightarrow> outbox_row
   \<Rightarrow> bool \<times> alert_db \<Rightarrow> alert_error + bool \<times> alert_db" where
  "recover_trigger fault dbnow rule alert device reason t s =
     (case s of (enqueued, db) \<Rightarrow>
      if ob_Status t \<noteq> Sent \<and> ob_Status t \<noteq> Sending then Inr (enqueued, db)
      else (case (ob_Payload t, rule) of
              (None, None) \<Rightarrow> Inl (BadPayload (al_ID alert))
            | (p, r) \<Rightarrow>
                (let prule = (case r of Some r' \<Rightarrow> r' | None \<Rightarrow> np_Rule (the p));
                     payload = \<lparr>np_Event = event_name EvResolved, np_Rule = prule, np_Alert = alert,
                                np_Device = device, np_ClearReason = truncateError (trim_space reason) 512\<rparr>
                 in if \<not> r_NotifyRecovery prule then Inr (enqueued, db)
                    else stmt fault (EnqueueRecovery (al_ID alert) (ob_Channel t))
                           (Inr (True, upsert_recovery dbnow (al_ID alert) (ob_Channel t) payload db)))))"

definition close_alert_row :: "time \<Rightarrow> alert \<Rightarrow> alert" where
  "close_alert_row now a = a\<lparr>al_Status := Resolved, al_ResolvedAt := Some now, al_RecoveryNotifyError := None\<rparr>"

definition kill_trigger :: "time \<Rightarrow> outbox_row \<Rightarrow> outbox_row" where
  "kill_trigger dbnow o1 = o1\<lparr>ob_Status := Dead,
     ob_LastError := Some ''alert closed before trigger delivery'', ob_UpdatedAt := dbnow\<rparr>"

definition is_trigger_of :: "int \<Rightarrow> outbox_row \<Rightarrow> bool" where
  "is_trigger_of i o1 \<longleftrightarrow> ob_AlertID o1 = i \<and> ob_Event o1 = EvTriggered"

definition close_rows :: "time \<Rightarrow> time \<Rightarrow> int \<Rightarrow> alert_db \<Rightarrow> alert_db" where
  "close_rows now dbnow alertID db =
     db\<lparr>db_alerts := update_where (\<lambda>a. al_ID a = alertID) (close_alert_row now) (db_alerts db),
        db_outbox := update_where (\<lambda>o1. is_trigger_of alertID o1 \<and> (ob_Status o1 = Pending \<or> ob_Status o1 = Failed))
                       (kill_trigger dbnow) (db_outbox db)\<rparr>"

definition resolveAlertTx ::
  "fault \<Rightarrow> time \<Rightarrow> time \<Rightarrow> rule option \<Rightarrow> int \<Rightarrow> string \<Rightarrow> alert_db \<Rightarrow> alert_error + bool \<times> alert_db" where
  "resolveAlertTx fault now dbnow rule alertID reason db =
     stmt fault (SelectAlert alertID)
     (case get_alert db alertID of None \<Rightarrow> Inl ErrNotFound | Some a0 \<Rightarrow>
     (case get_device db (al_DeviceID a0) of None \<Rightarrow> Inl ErrNotFound | Some d \<Rightarrow>
      if al_Status a0 = Resolved then Inr (False, db)
      else
        (let device = payload_device d;
             alert = a0\<lparr>al_Status := Resolved, al_ResolvedAt := Some now\<rparr>
         in stmt fault (CloseAlert alertID)
           (stmt fault (SelectTriggers alertID)
             (let triggers = filter (is_trigger_of alertID) (db_outbox db);
                  db2 = close_rows now dbnow alertID db
              in stmt fault (KillTriggers alertID)
                (case (case (rule, al_RuleID a0) of
                         (None, Some rid) \<Rightarrow> stmt fault (LoadRule rid) (Inr (getRuleTx db2 rid))
                       | _ \<Rightarrow> Inr rule) of
                   Inl e \<Rightarrow> Inl e
                 | Inr r \<Rightarrow> try_fold (recover_trigger fault dbnow r alert device reason) triggers (False, db2)))))))"

text \<open>The loop over the open alerts of a rule, or of a rule and a device.\<close>

definition resolve_each ::
  "fault \<Rightarrow> time \<Rightarrow> time \<Rightarrow> rule option \<Rightarrow> string \<Rightarrow> int \<Rightarrow> bool \<times> alert_db \<Rightarrow> alert_error + bool \<times> alert_db" where
  "resolve_each fault now dbnow rule reason i s =
     (case resolveAlertTx fault now dbnow rule i reason (snd s) of
        Inl e \<Rightarrow> Inl e | Inr (queued, db') \<Rightarrow> Inr (fst s \<or> queued, db'))"

definition resolveRuleDeviceAlertsTx ::
  "fault \<Rightarrow> time \<Rightarrow> time \<Rightarrow> rule \<Rightarrow> int \<Rightarrow> string \<Rightarrow> alert_db \<Rightarrow> alert_error + bool \<times> alert_db" where
  "resolveRuleDeviceAlertsTx fault now dbnow rule deviceID reason db =
     stmt fault SelectOpen
       (try_fold (resolve_each fault now dbnow (Some rule) reason)
          (map al_ID (filter (\<lambda>a. al_RuleID a = Some (r_ID rule) \<and> al_DeviceID a = deviceID \<and> open_alert a) (db_alerts db)))
          (False, db))"

definition resolveRuleAlertsTx ::
  "fault \<Rightarrow> time \<Rightarrow> time \<Rightarrow> rule \<Rightarrow> string \<Rightarrow> alert_db \<Rightarrow> alert_error + bool \<times> alert_db" where
  "resolveRuleAlertsTx fault now dbnow rule reason db =
     stmt fault SelectOpen
       (try_fold (resolve_each fault now dbnow (Some rule) reason)
          (map al_ID (filter (\<lambda>a. al_RuleID a = Some (r_ID rule) \<and> open_alert a) (db_alerts db)))
          (False, db))"

section \<open>Well-formed tables\<close>

definition alert_resolved :: "alert_db \<Rightarrow> int \<Rightarrow> bool" where
  "alert_resolved db i \<longleftrightarrow> (\<exists>a \<in> set (db_alerts db). al_ID a = i \<and> al_Status a = Resolved)"

definition settled :: "delivery_status \<Rightarrow> bool" where
  "settled s \<longleftrightarrow> s = Sending \<or> s = Sent \<or> s = Dead"

text \<open>
  Keys are unique and never reused, every outbox row belongs to an alert, at most eight attempts
  are made outside the sysmon channel, a closed alert has no trigger left that a worker could
  still claim, and a recovery row exists only for a closed alert whose trigger on that channel was
  handed to a worker (or died).
\<close>

definition alerts_wf :: "alert list \<Rightarrow> int \<Rightarrow> bool" where
  "alerts_wf as sq \<longleftrightarrow> distinct (map al_ID as) \<and> (\<forall>a \<in> set as. al_ID a < sq)"

definition row_wf :: "alert_db \<Rightarrow> outbox_row \<Rightarrow> bool" where
  "row_wf db o1 \<longleftrightarrow>
     ob_ID o1 < db_outbox_seq db
     \<and> (\<exists>a \<in> set (db_alerts db). al_ID a = ob_AlertID o1)
     \<and> 0 \<le> ob_Attempts o1 \<and> (ob_Channel o1 \<noteq> ''sysmon'' \<longrightarrow> ob_Attempts o1 \<le> 8)
     \<and> (ob_Event o1 = EvTriggered \<longrightarrow> alert_resolved db (ob_AlertID o1) \<longrightarrow> settled (ob_Status o1))
     \<and> (ob_Event o1 = EvResolved \<longrightarrow> alert_resolved db (ob_AlertID o1)
          \<and> (ob_AlertID o1, ob_Channel o1, EvTriggered) \<in> outbox_key ` set (db_outbox db))"

definition outbox_wf :: "alert_db \<Rightarrow> bool" where
  "outbox_wf db \<longleftrightarrow>
     alerts_wf (db_alerts db) (db_alert_seq db)
     \<and> distinct (map ob_ID (db_outbox db)) \<and> distinct (map outbox_key (db_outbox db))
     \<and> (\<forall>o1 \<in> set (db_outbox db). row_wf db o1)"

lemma get_alert_Some: "get_alert db i = Some a \<Longrightarrow> a \<in> set (db_alerts db) \<and> al_ID a = i"
  unfolding get_alert_def by (rule find_Some_in)

lemma get_alert_None: "get_alert db i = None \<longleftrightarrow> (\<forall>a \<in> set (db_alerts db). al_ID a \<noteq> i)"
  by (simp add: get_alert_def find_None_iff_set)

lemma alert_unique:
  "outbox_wf db \<Longrightarrow> a \<in> set (db_alerts db) \<Longrightarrow> b \<in> set (db_alerts db) \<Longrightarrow> al_ID a = al_ID b \<Longrightarrow> a = b"
  unfolding outbox_wf_def alerts_wf_def by (blast dest: distinct_map_eq)

lemma get_alert_in: "outbox_wf db \<Longrightarrow> a \<in> set (db_alerts db) \<Longrightarrow> get_alert db (al_ID a) = Some a"
  by (metis alert_unique get_alert_None get_alert_Some not_Some_eq)

lemma alert_resolved_get:
  "outbox_wf db \<Longrightarrow> get_alert db i = Some a \<Longrightarrow> alert_resolved db i \<longleftrightarrow> al_Status a = Resolved"
  unfolding alert_resolved_def by (metis alert_unique get_alert_Some)

lemma row_wfD: "outbox_wf db \<Longrightarrow> o1 \<in> set (db_outbox db) \<Longrightarrow> row_wf db o1"
  by (simp add: outbox_wf_def)

lemma outbox_row_unique:
  "outbox_wf db \<Longrightarrow> a \<in> set (db_outbox db) \<Longrightarrow> b \<in> set (db_outbox db) \<Longrightarrow> ob_ID a = ob_ID b \<Longrightarrow> a = b"
  unfolding outbox_wf_def by (blast dest: distinct_map_eq)

lemma outbox_key_unique:
  "outbox_wf db \<Longrightarrow> a \<in> set (db_outbox db) \<Longrightarrow> b \<in> set (db_outbox db) \<Longrightarrow> outbox_key a = outbox_key b \<Longrightarrow> a = b"
  unfolding outbox_wf_def by (blast dest: distinct_map_eq)

text \<open>Updating rows in place keeps the tables well-formed when keys and the local conditions stay.\<close>

lemma keys_update_where:
  assumes "\<And>o1. o1 \<in> set rows \<Longrightarrow> P o1 \<Longrightarrow> g (f o1) = g o1"
  shows "map g (update_where P f rows) = map g rows"
  using assms by (auto simp: update_where_def)

lemma outbox_wf_update:
  assumes wf: "outbox_wf db"
    and keep: "\<And>o1. o1 \<in> set (db_outbox db) \<Longrightarrow> P o1 \<Longrightarrow>
        ob_ID (f o1) = ob_ID o1 \<and> outbox_key (f o1) = outbox_key o1 \<and> 0 \<le> ob_Attempts (f o1)
        \<and> (ob_Channel o1 \<noteq> ''sysmon'' \<longrightarrow> ob_Attempts (f o1) \<le> 8)
        \<and> (ob_Event o1 = EvTriggered \<longrightarrow> alert_resolved db (ob_AlertID o1) \<longrightarrow> settled (ob_Status (f o1)))"
  shows "outbox_wf (db\<lparr>db_outbox := update_where P f (db_outbox db)\<rparr>)"
proof -
  let ?db = "db\<lparr>db_outbox := update_where P f (db_outbox db)\<rparr>"
  have ids: "map ob_ID (db_outbox ?db) = map ob_ID (db_outbox db)"
    and keys: "map outbox_key (db_outbox ?db) = map outbox_key (db_outbox db)"
    using keep by (auto intro!: keys_update_where)
  have kset: "outbox_key ` set (db_outbox ?db) = outbox_key ` set (db_outbox db)"
    using arg_cong [OF keys, of set] by simp
  have "row_wf ?db o2" if "o2 \<in> set (db_outbox ?db)" for o2
  proof -
    from that obtain o1 where o1: "o1 \<in> set (db_outbox db)" "o2 = (if P o1 then f o1 else o1)"
      by (auto simp: in_update_where)
    have res: "alert_resolved ?db = alert_resolved db" by (simp add: alert_resolved_def fun_eq_iff)
    show ?thesis
    proof (cases "P o1")
      case True
      with keep [OF o1(1)] have k: "ob_ID (f o1) = ob_ID o1" "outbox_key (f o1) = outbox_key o1" by auto
      then have "ob_AlertID (f o1) = ob_AlertID o1" "ob_Channel (f o1) = ob_Channel o1" "ob_Event (f o1) = ob_Event o1"
        by (auto simp: outbox_key_def)
      then show ?thesis
        using True o1 k keep [OF o1(1) True] row_wfD [OF wf o1(1)] kset res
        unfolding row_wf_def by simp
    next
      case False
      then show ?thesis using o1 row_wfD [OF wf o1(1)] kset res unfolding row_wf_def by simp
    qed
  qed
  then show ?thesis using wf ids keys unfolding outbox_wf_def by simp
qed

lemma outbox_wf_touch_alerts:
  assumes wf: "outbox_wf db" and keep: "\<And>a. al_ID (g a) = al_ID a \<and> al_Status (g a) = al_Status a"
  shows "outbox_wf (db\<lparr>db_alerts := update_where Q g (db_alerts db)\<rparr>)"
proof -
  let ?db = "db\<lparr>db_alerts := update_where Q g (db_alerts db)\<rparr>"
  have ids: "map al_ID (db_alerts ?db) = map al_ID (db_alerts db)"
    using keep by (auto intro: keys_update_where)
  have pairs: "map (\<lambda>a. (al_ID a, al_Status a)) (db_alerts ?db) = map (\<lambda>a. (al_ID a, al_Status a)) (db_alerts db)"
    using keep by (auto intro: keys_update_where)
  have "alert_resolved ?db i = alert_resolved db i" for i
    using arg_cong [OF pairs, of "\<lambda>l. \<exists>x \<in> set l. fst x = i \<and> snd x = Resolved"]
    by (simp add: alert_resolved_def)
  then have res: "alert_resolved ?db = alert_resolved db" by (rule ext)
  have ex: "(\<exists>a \<in> set (db_alerts ?db). al_ID a = i) \<longleftrightarrow> (\<exists>a \<in> set (db_alerts db). al_ID a = i)" for i
    using arg_cong [OF ids, of "\<lambda>l. \<exists>x \<in> set l. x = i"] by (auto simp: image_iff)
  have bound: "(\<forall>a \<in> set (db_alerts ?db). al_ID a < n) \<longleftrightarrow> (\<forall>a \<in> set (db_alerts db). al_ID a < n)" for n
    using arg_cong [OF ids, of "\<lambda>l. \<forall>x \<in> set l. x < n"] by simp
  have "row_wf ?db o1 = row_wf db o1" for o1
    unfolding row_wf_def using res ex by simp
  then show ?thesis
    using wf ids bound unfolding outbox_wf_def alerts_wf_def by simp
qed

section \<open>Closing keeps the tables well-formed\<close>

lemma outbox_wf_bump: "outbox_wf db \<Longrightarrow> outbox_wf (db\<lparr>db_outbox_seq := db_outbox_seq db + 1\<rparr>)"
  by (force simp: outbox_wf_def row_wf_def alert_resolved_def)

lemma outbox_wf_append:
  assumes wf: "outbox_wf db" and row: "row_wf (db\<lparr>db_outbox_seq := db_outbox_seq db + 1\<rparr>) o1"
    and id: "ob_ID o1 = db_outbox_seq db" and fresh: "outbox_key o1 \<notin> outbox_key ` set (db_outbox db)"
  shows "outbox_wf (db\<lparr>db_outbox := db_outbox db @ [o1], db_outbox_seq := db_outbox_seq db + 1\<rparr>)"
proof -
  let ?db = "db\<lparr>db_outbox := db_outbox db @ [o1], db_outbox_seq := db_outbox_seq db + 1\<rparr>"
  have lift: "row_wf ?db r" if "row_wf (db\<lparr>db_outbox_seq := db_outbox_seq db + 1\<rparr>) r" for r
    using that by (auto simp: row_wf_def alert_resolved_def)
  have "ob_ID o1 \<notin> ob_ID ` set (db_outbox db)"
  proof
    assume "ob_ID o1 \<in> ob_ID ` set (db_outbox db)"
    then obtain r where "r \<in> set (db_outbox db)" "ob_ID r = ob_ID o1" by auto
    then show False using row_wfD [OF wf, of r] id by (simp add: row_wf_def)
  qed
  moreover have "row_wf ?db r" if "r \<in> set (db_outbox db)" for r
    using lift row_wfD [OF outbox_wf_bump [OF wf], of r] that by simp
  ultimately show ?thesis
    using wf fresh lift [OF row] unfolding outbox_wf_def by auto
qed

lemma refresh_recovery_keeps [simp]:
  "ob_ID (refresh_recovery t p o1) = ob_ID o1" "outbox_key (refresh_recovery t p o1) = outbox_key o1"
  by (simp_all add: refresh_recovery_def outbox_key_def)

lemma new_outbox_row_sel [simp]:
  "ob_ID (new_outbox_row db t i c e p) = db_outbox_seq db"
  "ob_AlertID (new_outbox_row db t i c e p) = i" "ob_Channel (new_outbox_row db t i c e p) = c"
  "ob_Event (new_outbox_row db t i c e p) = e" "ob_Status (new_outbox_row db t i c e p) = Pending"
  "ob_Attempts (new_outbox_row db t i c e p) = 0"
  "outbox_key (new_outbox_row db t i c e p) = (i, c, e)"
  by (simp_all add: new_outbox_row_def outbox_key_def)

lemma alert_resolved_exists: "alert_resolved db i \<Longrightarrow> \<exists>a \<in> set (db_alerts db). al_ID a = i"
  by (auto simp: alert_resolved_def)

lemma upsert_recovery_wf:
  assumes wf: "outbox_wf db" and res: "alert_resolved db i"
    and trig: "(i, c, EvTriggered) \<in> outbox_key ` set (db_outbox db)"
  shows "outbox_wf (upsert_recovery t i c p db)"
proof (cases "(i, c, EvResolved) \<in> outbox_key ` set (db_outbox db)")
  case True
  have "outbox_wf (db\<lparr>db_outbox := update_where (\<lambda>o1. outbox_key o1 = (i, c, EvResolved)) (refresh_recovery t p) (db_outbox db)\<rparr>)"
  proof (rule outbox_wf_update [OF wf])
    fix o1 assume o1: "o1 \<in> set (db_outbox db)" "outbox_key o1 = (i, c, EvResolved)"
    then show "ob_ID (refresh_recovery t p o1) = ob_ID o1 \<and> outbox_key (refresh_recovery t p o1) = outbox_key o1
        \<and> 0 \<le> ob_Attempts (refresh_recovery t p o1)
        \<and> (ob_Channel o1 \<noteq> ''sysmon'' \<longrightarrow> ob_Attempts (refresh_recovery t p o1) \<le> 8)
        \<and> (ob_Event o1 = EvTriggered \<longrightarrow> alert_resolved db (ob_AlertID o1) \<longrightarrow> settled (ob_Status (refresh_recovery t p o1)))"
      using row_wfD [OF wf o1(1)] by (auto simp: refresh_recovery_def row_wf_def outbox_key_def)
  qed
  from outbox_wf_bump [OF this] show ?thesis
    using True by (simp add: upsert_recovery_def Let_def)
next
  case False
  have "row_wf (db\<lparr>db_outbox_seq := db_outbox_seq db + 1\<rparr>) (new_outbox_row db t i c EvResolved p)"
    using res trig alert_resolved_exists [OF res]
    by (simp add: row_wf_def alert_resolved_def)
  then show ?thesis
    using False outbox_wf_append [OF wf] by (simp add: upsert_recovery_def Let_def)
qed

lemma upsert_recovery_frame [simp]:
  "db_alerts (upsert_recovery t i c p db) = db_alerts db" "db_states (upsert_recovery t i c p db) = db_states db"
  "db_rules (upsert_recovery t i c p db) = db_rules db" "db_devices (upsert_recovery t i c p db) = db_devices db"
  "db_alert_seq (upsert_recovery t i c p db) = db_alert_seq db" "db_rule_seq (upsert_recovery t i c p db) = db_rule_seq db"
  by (simp_all add: upsert_recovery_def Let_def)

lemma upsert_recovery_keys:
  "outbox_key ` set (db_outbox (upsert_recovery t i c p db)) = insert (i, c, EvResolved) (outbox_key ` set (db_outbox db))"
proof (cases "(i, c, EvResolved) \<in> outbox_key ` set (db_outbox db)")
  case True
  have "map outbox_key (update_where (\<lambda>o1. outbox_key o1 = (i, c, EvResolved)) (refresh_recovery t p) (db_outbox db))
      = map outbox_key (db_outbox db)"
    by (rule keys_update_where) simp
  from arg_cong [OF this, of set] True show ?thesis by (simp add: upsert_recovery_def Let_def insert_absorb)
qed (simp add: upsert_recovery_def Let_def)

lemma close_rows_resolved:
  "alert_resolved (close_rows now t i db) j \<longleftrightarrow>
     alert_resolved db j \<or> j = i \<and> (\<exists>a \<in> set (db_alerts db). al_ID a = i)"
  unfolding alert_resolved_def close_rows_def
  by (auto simp: bex_update_where close_alert_row_def if_distrib split: if_splits)

lemma close_rows_wf:
  assumes wf: "outbox_wf db"
  shows "outbox_wf (close_rows now t i db)"
proof -
  let ?P = "\<lambda>o1. is_trigger_of i o1 \<and> (ob_Status o1 = Pending \<or> ob_Status o1 = Failed)"
  let ?db = "close_rows now t i db"
  have aids: "map al_ID (db_alerts ?db) = map al_ID (db_alerts db)"
    by (simp add: close_rows_def close_alert_row_def keys_update_where)
  have oids: "map ob_ID (db_outbox ?db) = map ob_ID (db_outbox db)"
    and okeys: "map outbox_key (db_outbox ?db) = map outbox_key (db_outbox db)"
    by (auto simp: close_rows_def kill_trigger_def outbox_key_def intro!: keys_update_where)
  have bound: "\<forall>a \<in> set (db_alerts ?db). al_ID a < db_alert_seq db"
    using wf arg_cong [OF aids, of "\<lambda>l. \<forall>x \<in> set l. x < db_alert_seq db"]
    by (auto simp: outbox_wf_def alerts_wf_def)
  have exa: "(\<exists>a \<in> set (db_alerts ?db). al_ID a = j) \<longleftrightarrow> (\<exists>a \<in> set (db_alerts db). al_ID a = j)" for j
    using arg_cong [OF aids, of "\<lambda>l. \<exists>x \<in> set l. x = j"] by (auto simp: image_iff)
  have kset: "outbox_key ` set (db_outbox ?db) = outbox_key ` set (db_outbox db)"
    using arg_cong [OF okeys, of set] by simp
  have "row_wf ?db r" if r: "r \<in> set (db_outbox ?db)" for r
  proof -
    from r obtain o1 where o1: "o1 \<in> set (db_outbox db)" "r = (if ?P o1 then kill_trigger t o1 else o1)"
      by (auto simp: close_rows_def in_update_where)
    have same: "ob_ID r = ob_ID o1" "ob_AlertID r = ob_AlertID o1" "ob_Channel r = ob_Channel o1"
      "ob_Event r = ob_Event o1" "ob_Attempts r = ob_Attempts o1"
      using o1(2) by (simp_all add: kill_trigger_def)
    have st: "settled (ob_Status r)" if "ob_Event o1 = EvTriggered" "alert_resolved ?db (ob_AlertID o1)"
      using that o1 row_wfD [OF wf o1(1)]
      by (cases "ob_Status o1")
        (auto simp: close_rows_resolved row_wf_def settled_def kill_trigger_def is_trigger_of_def)
    have seq: "db_outbox_seq ?db = db_outbox_seq db" by (simp add: close_rows_def)
    show ?thesis
      using row_wfD [OF wf o1(1)] st exa
      unfolding row_wf_def same kset seq by (auto simp: close_rows_resolved)
  qed
  then show ?thesis
    using wf aids oids okeys bound unfolding outbox_wf_def alerts_wf_def by (simp add: close_rows_def)
qed

section \<open>The effect of a close\<close>

definition handed :: "outbox_row \<Rightarrow> bool" where
  "handed t \<longleftrightarrow> ob_Status t = Sent \<or> ob_Status t = Sending"

definition recovery_rule :: "rule option \<Rightarrow> outbox_row \<Rightarrow> rule" where
  "recovery_rule r t = (case r of Some r' \<Rightarrow> r' | None \<Rightarrow> np_Rule (the (ob_Payload t)))"

definition wants_recovery :: "rule option \<Rightarrow> outbox_row \<Rightarrow> bool" where
  "wants_recovery r t \<longleftrightarrow> handed t \<and> r_NotifyRecovery (recovery_rule r t)"

text \<open>The tables a transaction on the outbox leaves alone.\<close>

definition same_frame :: "alert_db \<Rightarrow> alert_db \<Rightarrow> bool" where
  "same_frame db db' \<longleftrightarrow>
     db_rules db' = db_rules db \<and> db_devices db' = db_devices db \<and> db_states db' = db_states db
     \<and> db_alert_seq db' = db_alert_seq db \<and> db_rule_seq db' = db_rule_seq db"

lemma same_frame_refl [simp]: "same_frame db db"
  by (simp add: same_frame_def)

lemma same_frame_trans: "same_frame a b \<Longrightarrow> same_frame b c \<Longrightarrow> same_frame a c"
  by (simp add: same_frame_def)

lemma recover_trigger_Inr:
  assumes "recover_trigger fault t r alert dev reason tr (q, db) = Inr (q', db')"
  shows "if wants_recovery r tr
         then q' \<and> (\<exists>p. np_Event p = event_name EvResolved \<and> db' = upsert_recovery t (al_ID alert) (ob_Channel tr) p db)
         else q' = q \<and> db' = db"
  using assms unfolding recover_trigger_def wants_recovery_def handed_def recovery_rule_def
  by (cases "ob_Payload tr"; cases r) (force simp: Let_def split: if_splits)+

lemma recover_loop:
  assumes "try_fold (recover_trigger fault t r alert dev reason) ts (q, db) = Inr (q', db')"
    and "outbox_wf db" and "alert_resolved db (al_ID alert)"
    and "\<forall>tr \<in> set ts. (al_ID alert, ob_Channel tr, EvTriggered) \<in> outbox_key ` set (db_outbox db)"
  shows "outbox_wf db' \<and> db_alerts db' = db_alerts db \<and> same_frame db db'
    \<and> (q' \<longleftrightarrow> q \<or> (\<exists>tr \<in> set ts. wants_recovery r tr))
    \<and> outbox_key ` set (db_outbox db') = outbox_key ` set (db_outbox db)
        \<union> {(al_ID alert, ob_Channel tr, EvResolved) |tr. tr \<in> set ts \<and> wants_recovery r tr}"
  using assms
proof (induction ts arbitrary: q db)
  case Nil
  then show ?case by simp
next
  case (Cons tr ts)
  from Cons.prems(1) obtain q1 db1 where one: "recover_trigger fault t r alert dev reason tr (q, db) = Inr (q1, db1)"
    and rest: "try_fold (recover_trigger fault t r alert dev reason) ts (q1, db1) = Inr (q', db')"
    by (auto split: sum.splits)
  have step: "outbox_wf db1 \<and> db_alerts db1 = db_alerts db \<and> same_frame db db1
      \<and> (q1 \<longleftrightarrow> q \<or> wants_recovery r tr)
      \<and> outbox_key ` set (db_outbox db1) = outbox_key ` set (db_outbox db)
          \<union> (if wants_recovery r tr then {(al_ID alert, ob_Channel tr, EvResolved)} else {})"
  proof (cases "wants_recovery r tr")
    case True
    then obtain p where "q1" and db1: "db1 = upsert_recovery t (al_ID alert) (ob_Channel tr) p db"
      using recover_trigger_Inr [OF one] by auto
    moreover have "outbox_wf db1"
      unfolding db1 by (rule upsert_recovery_wf) (use Cons.prems(2,3,4) in auto)
    ultimately show ?thesis using True by (simp add: upsert_recovery_keys same_frame_def)
  next
    case False
    then show ?thesis using recover_trigger_Inr [OF one] Cons.prems(2) by simp
  qed
  then have "alert_resolved db1 (al_ID alert)" using Cons.prems(3) by (simp add: alert_resolved_def)
  moreover have "\<forall>tr' \<in> set ts. (al_ID alert, ob_Channel tr', EvTriggered) \<in> outbox_key ` set (db_outbox db1)"
    using step Cons.prems(4) by auto
  ultimately have "outbox_wf db' \<and> db_alerts db' = db_alerts db1 \<and> same_frame db1 db'
      \<and> (q' \<longleftrightarrow> q1 \<or> (\<exists>tr \<in> set ts. wants_recovery r tr))
      \<and> outbox_key ` set (db_outbox db') = outbox_key ` set (db_outbox db1)
          \<union> {(al_ID alert, ob_Channel tr, EvResolved) |tr. tr \<in> set ts \<and> wants_recovery r tr}"
    using Cons.IH [OF rest] step by blast
  then show ?case
    using step same_frame_trans by (auto split: if_splits)
qed

definition close_rule :: "alert_db \<Rightarrow> rule option \<Rightarrow> alert \<Rightarrow> rule option" where
  "close_rule db rule a =
     (case (rule, al_RuleID a) of (None, Some rid) \<Rightarrow> getRuleTx db rid | _ \<Rightarrow> rule)"

lemma getRuleTx_close_rows [simp]: "getRuleTx (close_rows now t i db) rid = getRuleTx db rid"
  by (simp add: getRuleTx_def get_rule_row_def close_rows_def)

lemma resolveAlertTx_Inr:
  assumes run: "resolveAlertTx fault now t rule i reason db = Inr (q, db')" and wf: "outbox_wf db"
  obtains a where "get_alert db i = Some a" "outbox_wf db'" "same_frame db db'"
    "db_alerts db' = update_where (\<lambda>a. al_ID a = i \<and> al_Status a \<noteq> Resolved) (close_alert_row now) (db_alerts db)"
    "outbox_key ` set (db_outbox db') = outbox_key ` set (db_outbox db) \<union>
       (if al_Status a = Resolved then {} else {(i, ob_Channel tr, EvResolved) |tr.
          tr \<in> set (db_outbox db) \<and> is_trigger_of i tr \<and> wants_recovery (close_rule db rule a) tr})"
    "al_Status a = Resolved \<Longrightarrow> \<not> q \<and> db' = db"
    "al_Status a \<noteq> Resolved \<Longrightarrow>
       q \<longleftrightarrow> (\<exists>tr \<in> set (db_outbox db). is_trigger_of i tr \<and> wants_recovery (close_rule db rule a) tr)"
proof -
  from run obtain a d where a: "get_alert db i = Some a" and d: "get_device db (al_DeviceID a) = Some d"
    by (auto simp: resolveAlertTx_def split: option.splits)
  have ain: "a \<in> set (db_alerts db)" "al_ID a = i" using get_alert_Some [OF a] by auto
  show thesis
  proof (cases "al_Status a = Resolved")
    case True
    then have res: "q = False" "db' = db" using run a d by (auto simp: resolveAlertTx_def)
    have "update_where (\<lambda>b. al_ID b = i \<and> al_Status b \<noteq> Resolved) (close_alert_row now) (db_alerts db) = db_alerts db"
      unfolding update_where_def
    proof (rule map_idI)
      fix x assume "x \<in> set (db_alerts db)"
      then show "(if al_ID x = i \<and> al_Status x \<noteq> Resolved then close_alert_row now x else x) = x"
        using alert_unique [OF wf _ ain(1), of x] ain(2) True by auto
    qed
    then show thesis using that [of a] a wf res True by simp
  next
    case False
    let ?alert = "a\<lparr>al_Status := Resolved, al_ResolvedAt := Some now\<rparr>"
    let ?ts = "filter (is_trigger_of i) (db_outbox db)"
    let ?db2 = "close_rows now t i db"
    from run a d False have
      loop: "try_fold (recover_trigger fault t (close_rule db rule a) ?alert (payload_device d) reason) ?ts (False, ?db2)
        = Inr (q, db')"
      by (auto simp: resolveAlertTx_def close_rule_def Let_def split: sum.splits option.splits)
    have "map outbox_key (db_outbox ?db2) = map outbox_key (db_outbox db)"
      by (auto simp: close_rows_def kill_trigger_def outbox_key_def intro!: keys_update_where)
    then have kset: "outbox_key ` set (db_outbox ?db2) = outbox_key ` set (db_outbox db)"
      by (metis list.set_map)
    have "alert_resolved ?db2 i" using ain by (auto simp: close_rows_resolved)
    moreover have "\<forall>tr \<in> set ?ts. (i, ob_Channel tr, EvTriggered) \<in> outbox_key ` set (db_outbox ?db2)"
      unfolding kset by (force simp: is_trigger_of_def outbox_key_def)
    ultimately have res: "outbox_wf db' \<and> db_alerts db' = db_alerts ?db2 \<and> same_frame ?db2 db'
        \<and> (q \<longleftrightarrow> (\<exists>tr \<in> set ?ts. wants_recovery (close_rule db rule a) tr))
        \<and> outbox_key ` set (db_outbox db') = outbox_key ` set (db_outbox db)
          \<union> {(i, ob_Channel tr, EvResolved) |tr. tr \<in> set ?ts \<and> wants_recovery (close_rule db rule a) tr}"
      using recover_loop [OF loop close_rows_wf [OF wf]] ain kset by simp
    have "db_alerts ?db2 = update_where (\<lambda>b. al_ID b = i \<and> al_Status b \<noteq> Resolved) (close_alert_row now) (db_alerts db)"
      unfolding close_rows_def update_where_def
      using alert_unique [OF wf _ ain(1)] ain(2) False by auto
    moreover have "same_frame db ?db2" by (simp add: same_frame_def close_rows_def)
    ultimately show thesis
      using that [of a] a res False same_frame_trans by auto
  qed
qed

section \<open>A concrete store\<close>

text \<open>A small table: an open alert with a pending e-mail trigger, and a closed one owed a recovery.\<close>

definition demo_alert :: "int \<Rightarrow> alert_status \<Rightarrow> alert" where
  "demo_alert i st = \<lparr>al_ID = i, al_RuleID = Some 7, al_DeviceID = 3, al_Metric = MetricCPU, al_Value = Fin 97,
     al_Threshold = Fin 90, al_Message = ''cpu'', al_Severity = SeverityCritical, al_Status = st, al_TriggeredAt = 100,
     al_AcknowledgedAt = None, al_AcknowledgedBy = None, al_ResolvedAt = None, al_NotifiedAt = None,
     al_NotifyError = None, al_RecoveryNotifiedAt = None, al_RecoveryNotifyError = None\<rparr>"

definition demo_device :: notificationDevice where
  "demo_device = \<lparr>nd_ID = 3, nd_SiteID = 1, nd_IP = ''10.0.0.3'', nd_MAC = ''aa'', nd_Hostname = ''tower''\<rparr>"

definition demo_payload :: "event \<Rightarrow> alert \<Rightarrow> notificationPayload" where
  "demo_payload ev a = \<lparr>np_Event = event_name ev, np_Rule = demo_rule_stored, np_Alert = a, np_Device = demo_device, np_ClearReason = []\<rparr>"

definition demo_row :: "int \<Rightarrow> int \<Rightarrow> event \<Rightarrow> delivery_status \<Rightarrow> int \<Rightarrow> outbox_row" where
  "demo_row i aid ev st n = \<lparr>ob_ID = i, ob_AlertID = aid, ob_Channel = ''email'', ob_Event = ev,
     ob_Payload = Some (demo_payload ev (demo_alert aid Active)), ob_Status = st, ob_Attempts = n,
     ob_NextAttemptAt = 100, ob_LastError = None, ob_UpdatedAt = 100, ob_SentAt = None\<rparr>"

definition demo_db :: alert_db where
  "demo_db = \<lparr>db_rules = [\<lparr>rr_Rule = demo_rule_stored\<lparr>r_ID := 7\<rparr>, rr_UpdatedAt = 0\<rparr>],
     db_devices = [\<lparr>dv_ID = 3, dv_SiteID = Some 1, dv_IP = ''10.0.0.3'', dv_MAC = ''aa'', dv_Hostname = ''tower'',
       dv_Role = ''ap'', dv_ParentID = None, dv_Managed = True, dv_Alertable = True, dv_AlertSilencedUntil = None, dv_CreatedAt = 1\<rparr>],
     db_alerts = [demo_alert 1 Resolved, demo_alert 2 Active],
     db_outbox = [demo_row 1 1 EvTriggered Sent 1, demo_row 2 1 EvResolved Pending 0, demo_row 3 2 EvTriggered Pending 0],
     db_states = [], db_alert_seq = 3, db_outbox_seq = 4, db_rule_seq = 8\<rparr>"

lemma demo_db_wf: "outbox_wf demo_db"
  by code_simp

definition no_fault :: fault where "no_fault s = False"

definition unlocked :: "int \<Rightarrow> bool" where "unlocked i = False"

section \<open>Properties\<close>


definition demo_close :: "alert_error + bool \<times> alert_db" where
  "demo_close = resolveAlertTx no_fault 300 310 None 2 ''manual''
     (demo_db\<lparr>db_outbox := [demo_row 1 1 EvTriggered Sent 1, demo_row 3 2 EvTriggered Sending 1]\<rparr>)"


end
