(* ===== verification/NotificationOutbox.thy ===== *)
theory NotificationOutbox imports AlertStore begin

text \<open>
  The notification worker (src/internal/alerting/notifications.go): claiming a due outbox row,
  delivering it, recording success or failure with the retry policy, and recovering claims whose
  worker died; the texts and protocol words built from a payload; and the per-alert delivery
  summary of manager.go. Transports are parameters: \<open>send\<close> says what delivering an item
  returns, \<open>locked\<close> which rows another worker's transaction holds.
\<close>

section \<open>Claiming\<close>

definition alert_open_id :: "alert_db \<Rightarrow> int \<Rightarrow> bool" where
  "alert_open_id db i = (case get_alert db i of Some a \<Rightarrow> open_alert a | None \<Rightarrow> False)"

definition trigger_in_flight :: "alert_db \<Rightarrow> outbox_row \<Rightarrow> bool" where
  "trigger_in_flight db o1 =
     list_ex (\<lambda>t. ob_AlertID t = ob_AlertID o1 \<and> ob_Channel t = ob_Channel o1 \<and> ob_Event t = EvTriggered
                 \<and> ob_Status t = Sending) (db_outbox db)"

text \<open>The WHERE clause of the claim query; the join drops rows whose alert is gone.\<close>

definition claimable :: "alert_db \<Rightarrow> time \<Rightarrow> bool \<Rightarrow> outbox_row \<Rightarrow> bool" where
  "claimable db dbnow sysmonOnly o1 \<longleftrightarrow>
     get_alert db (ob_AlertID o1) \<noteq> None
     \<and> (ob_Status o1 = Pending \<or> ob_Status o1 = Failed) \<and> ob_NextAttemptAt o1 \<le> dbnow
     \<and> (if sysmonOnly then ob_Channel o1 = ''sysmon'' else ob_Channel o1 \<noteq> ''sysmon'')
     \<and> (ob_Channel o1 = ''sysmon'' \<or> ob_Attempts o1 < 8)
     \<and> (ob_Event o1 = EvResolved \<or> alert_open_id db (ob_AlertID o1))
     \<and> \<not> (ob_Event o1 = EvResolved \<and> trigger_in_flight db o1)"

definition next_claim :: "alert_db \<Rightarrow> time \<Rightarrow> (int \<Rightarrow> bool) \<Rightarrow> bool \<Rightarrow> outbox_row option" where
  "next_claim db dbnow locked sysmonOnly =
     (case least_by ob_NextAttemptAt (filter (\<lambda>o1. claimable db dbnow sysmonOnly o1 \<and> \<not> locked (ob_ID o1)) (db_outbox db)) of
        None \<Rightarrow> None
      | Some m \<Rightarrow> least_by ob_ID (filter (\<lambda>o1. claimable db dbnow sysmonOnly o1 \<and> \<not> locked (ob_ID o1)
                                     \<and> ob_NextAttemptAt o1 = ob_NextAttemptAt m) (db_outbox db)))"

definition update_outbox :: "int \<Rightarrow> (outbox_row \<Rightarrow> outbox_row) \<Rightarrow> alert_db \<Rightarrow> alert_db" where
  "update_outbox i f db = db\<lparr>db_outbox := update_where (\<lambda>o1. ob_ID o1 = i) f (db_outbox db)\<rparr>"

definition kill_payload :: "string \<Rightarrow> time \<Rightarrow> outbox_row \<Rightarrow> outbox_row" where
  "kill_payload err dbnow o1 = o1\<lparr>ob_Status := Dead, ob_Attempts := 8,
     ob_LastError := Some (''invalid notification payload: '' @ err), ob_UpdatedAt := dbnow\<rparr>"

definition mark_sending :: "int \<Rightarrow> time \<Rightarrow> outbox_row \<Rightarrow> outbox_row" where
  "mark_sending attempts dbnow o1 = o1\<lparr>ob_Status := Sending, ob_Attempts := attempts, ob_UpdatedAt := dbnow\<rparr>"

definition claimed_item :: "outbox_row \<Rightarrow> notificationPayload \<Rightarrow> outboxItem" where
  "claimed_item o1 p =
     \<lparr>it_ID = ob_ID o1, it_AlertID = ob_AlertID o1, it_Channel = ob_Channel o1, it_Event = ob_Event o1,
      it_Payload = (if np_Event p = [] then p\<lparr>np_Event := event_name (ob_Event o1)\<rparr> else p),
      it_Attempts = ob_Attempts o1 + 1\<rparr>"

text \<open>\<open>jsonerr\<close> is the decoder's message for a payload that does not decode.\<close>

definition claimNotification ::
  "fault \<Rightarrow> string \<Rightarrow> time \<Rightarrow> (int \<Rightarrow> bool) \<Rightarrow> bool \<Rightarrow> alert_db \<Rightarrow> alert_error + outboxItem option \<times> alert_db" where
  "claimNotification fault jsonerr dbnow locked sysmonOnly db =
     stmt fault BeginTx (stmt fault SelectClaim
     (case next_claim db dbnow locked sysmonOnly of
        None \<Rightarrow> Inr (None, db)
      | Some o1 \<Rightarrow>
          (case ob_Payload o1 of
             None \<Rightarrow> stmt fault KillPayload (stmt fault CommitTx
                      (Inr (None, update_outbox (ob_ID o1) (kill_payload jsonerr dbnow) db)))
           | Some p \<Rightarrow> stmt fault MarkSending (stmt fault CommitTx
                        (Inr (Some (claimed_item o1 p),
                              update_outbox (ob_ID o1) (mark_sending (ob_Attempts o1 + 1) dbnow) db))))))"

section \<open>Recording the outcome\<close>

definition claim_held :: "outboxItem \<Rightarrow> outbox_row \<Rightarrow> bool" where
  "claim_held item o1 \<longleftrightarrow> ob_ID o1 = it_ID item \<and> ob_Status o1 = Sending \<and> ob_Attempts o1 = it_Attempts item"

definition mark_sent :: "time \<Rightarrow> outbox_row \<Rightarrow> outbox_row" where
  "mark_sent dbnow o1 = o1\<lparr>ob_Status := Sent, ob_SentAt := Some dbnow, ob_LastError := None, ob_UpdatedAt := dbnow\<rparr>"

definition note_delivered :: "event \<Rightarrow> time \<Rightarrow> alert \<Rightarrow> alert" where
  "note_delivered ev dbnow a =
     (if ev = EvResolved then a\<lparr>al_RecoveryNotifiedAt := Some dbnow, al_RecoveryNotifyError := None\<rparr>
      else a\<lparr>al_NotifiedAt := Some dbnow, al_NotifyError := None\<rparr>)"

text \<open>
  RowsAffected is the number of rows the UPDATE matched; only when it is one the alert row is
  touched, and only once no row of the event is left unsent.
\<close>

definition markNotificationSent ::
  "fault \<Rightarrow> time \<Rightarrow> outboxItem \<Rightarrow> alert_db \<Rightarrow> alert_error + alert_db" where
  "markNotificationSent fault dbnow item db =
     stmt fault BeginTx (stmt fault MarkSent
     (let db1 = db\<lparr>db_outbox := update_where (claim_held item) (mark_sent dbnow) (db_outbox db)\<rparr> in
      if length (filter (claim_held item) (db_outbox db)) \<noteq> 1 then stmt fault CommitTx (Inr db1)
      else stmt fault TouchAlert (stmt fault CommitTx (Inr
        (if list_ex (\<lambda>o1. ob_AlertID o1 = it_AlertID item \<and> ob_Event o1 = it_Event item \<and> ob_Status o1 \<noteq> Sent) (db_outbox db1)
         then db1
         else db1\<lparr>db_alerts := update_where (\<lambda>a. al_ID a = it_AlertID item) (note_delivered (it_Event item) dbnow) (db_alerts db1)\<rparr>)))))"

definition notificationFailurePolicy :: "string \<Rightarrow> int \<Rightarrow> delivery_status \<times> duration" where
  "notificationFailurePolicy channel attempts0 =
     (let attempts = (if attempts0 < 1 then 1 else attempts0) in
      if channel = ''sysmon'' then
        (let backoff = 2 ^ nat (min (attempts - 1) 4) * (5 * second) in
         (Failed, if backoff > minute then minute else backoff))
      else
        (let status = (if attempts \<ge> 8 then Dead else Failed);
             backoff = 2 ^ nat (min (attempts - 1) 8) * (30 * second) in
         (status, if backoff > 30 * minute then 30 * minute else backoff)))"

definition mark_failed :: "delivery_status \<Rightarrow> string \<Rightarrow> time \<Rightarrow> time \<Rightarrow> outbox_row \<Rightarrow> outbox_row" where
  "mark_failed status message next dbnow o1 =
     o1\<lparr>ob_Status := status, ob_LastError := Some message, ob_NextAttemptAt := next, ob_UpdatedAt := dbnow\<rparr>"

definition note_failed :: "event \<Rightarrow> string \<Rightarrow> alert \<Rightarrow> alert" where
  "note_failed ev message a =
     (if ev = EvResolved then a\<lparr>al_RecoveryNotifyError := Some message\<rparr> else a\<lparr>al_NotifyError := Some message\<rparr>)"

definition markNotificationFailed ::
  "fault \<Rightarrow> time \<Rightarrow> time \<Rightarrow> outboxItem \<Rightarrow> string \<Rightarrow> alert_db \<Rightarrow> alert_error + alert_db" where
  "markNotificationFailed fault now dbnow item deliveryErr db =
     (case notificationFailurePolicy (it_Channel item) (it_Attempts item) of (status0, backoff) \<Rightarrow>
      stmt fault BeginTx (stmt fault SelectStatus
      (case get_alert db (it_AlertID item) of
         None \<Rightarrow> Inl ErrNoRows
       | Some a \<Rightarrow>
           (let closed = (it_Event item = EvTriggered \<and> al_Status a = Resolved);
                message0 = truncateError deliveryErr 2000;
                status = (if closed then Dead else status0);
                message = (if closed then truncateError (''alert closed before delivery completed: '' @ message0) 2000
                           else message0)
            in stmt fault MarkFailed
             (let db1 = db\<lparr>db_outbox := update_where (claim_held item)
                             (mark_failed status message (now + backoff) dbnow) (db_outbox db)\<rparr> in
              if length (filter (claim_held item) (db_outbox db)) \<noteq> 1 then stmt fault CommitTx (Inr db1)
              else stmt fault TouchAlert (stmt fault CommitTx (Inr
                (db1\<lparr>db_alerts := update_where (\<lambda>a. al_ID a = it_AlertID item)
                       (note_failed (it_Event item) message) (db_alerts db1)\<rparr>))))))))"

definition stale_claim :: "alert_db \<Rightarrow> time \<Rightarrow> outbox_row \<Rightarrow> bool" where
  "stale_claim db dbnow o1 \<longleftrightarrow>
     get_alert db (ob_AlertID o1) \<noteq> None \<and> ob_Status o1 = Sending \<and> ob_UpdatedAt o1 < dbnow - 5 * minute"

definition recover_claim :: "alert_db \<Rightarrow> time \<Rightarrow> outbox_row \<Rightarrow> outbox_row" where
  "recover_claim db dbnow o1 =
     (let closed = (ob_Event o1 = EvTriggered \<and> (case get_alert db (ob_AlertID o1) of Some a \<Rightarrow> al_Status a = Resolved | None \<Rightarrow> False))
      in o1\<lparr>ob_Status := (if closed then Dead else Failed),
            ob_LastError := Some (if closed then ''delivery claim expired after the alert closed''
                                  else ''recovered stale sending claim''),
            ob_NextAttemptAt := dbnow, ob_UpdatedAt := dbnow\<rparr>)"

definition recoverStaleNotificationClaims :: "fault \<Rightarrow> time \<Rightarrow> alert_db \<Rightarrow> alert_error + alert_db" where
  "recoverStaleNotificationClaims fault dbnow db =
     stmt fault RecoverStale
       (Inr (db\<lparr>db_outbox := update_where (stale_claim db dbnow) (recover_claim db dbnow) (db_outbox db)\<rparr>))"

section \<open>One scan of a worker\<close>

text \<open>
  At most 32 rows per scan; a claim error or an empty queue ends the scan, a failed bookkeeping
  statement is only logged. \<open>tick k\<close> gives the fault oracle and clocks of the k-th iteration.
\<close>

record tick =
  tk_claim :: fault
  tk_mark :: fault
  tk_dbnow :: time
  tk_markdb :: time
  tk_now :: time
  tk_locked :: "int \<Rightarrow> bool"
  tk_jsonerr :: string

datatype send_error = SendFailed string | UnsupportedChannel string

definition deliverNotification ::
  "(string \<Rightarrow> notificationPayload \<Rightarrow> string option) \<Rightarrow> outboxItem \<Rightarrow> send_error option" where
  "deliverNotification transport item =
     (if it_Channel item \<in> {''email'', ''webhook'', ''zabbix'', ''sysmon''}
      then map_option SendFailed (transport (it_Channel item) (it_Payload item))
      else Some (UnsupportedChannel (it_Channel item)))"

fun send_error_text :: "send_error \<Rightarrow> string" where
  "send_error_text (SendFailed s) = s"
| "send_error_text (UnsupportedChannel c) = ''unsupported notification channel '' @ [CHR 0x22] @ c @ [CHR 0x22]"

definition keep_db :: "alert_db \<Rightarrow> alert_error + alert_db \<Rightarrow> alert_db" where
  "keep_db db r = (case r of Inl _ \<Rightarrow> db | Inr db' \<Rightarrow> db')"

fun worker_scan ::
  "nat \<Rightarrow> (nat \<Rightarrow> tick) \<Rightarrow> (string \<Rightarrow> notificationPayload \<Rightarrow> string option) \<Rightarrow> bool \<Rightarrow> alert_db \<Rightarrow> alert_db" where
  "worker_scan 0 tick transport sysmonOnly db = db"
| "worker_scan (Suc n) tick transport sysmonOnly db =
     (let k = tick n in
      case claimNotification (tk_claim k) (tk_jsonerr k) (tk_dbnow k) (tk_locked k) sysmonOnly db of
        Inl _ \<Rightarrow> db
      | Inr (None, db1) \<Rightarrow> db1
      | Inr (Some item, db1) \<Rightarrow>
          worker_scan n tick transport sysmonOnly
            (case deliverNotification transport item of
               None \<Rightarrow> keep_db db1 (markNotificationSent (tk_mark k) (tk_markdb k) item db1)
             | Some e \<Rightarrow> keep_db db1 (markNotificationFailed (tk_mark k) (tk_now k) (tk_markdb k) item (send_error_text e) db1)))"

definition runNotificationWorker_scan ::
  "fault \<Rightarrow> time \<Rightarrow> (nat \<Rightarrow> tick) \<Rightarrow> (string \<Rightarrow> notificationPayload \<Rightarrow> string option) \<Rightarrow> bool \<Rightarrow> alert_db \<Rightarrow> alert_db" where
  "runNotificationWorker_scan fault dbnow tick transport sysmonOnly db =
     worker_scan 32 tick transport sysmonOnly
       (if sysmonOnly then keep_db db (recoverStaleNotificationClaims fault dbnow db) else db)"

section \<open>Texts and protocol words\<close>

definition normalizeNotificationEvent :: "string \<Rightarrow> string" where
  "normalizeNotificationEvent ev =
     (if equal_fold (trim_space ev) ''resolved'' then ''resolved'' else ''triggered'')"

definition notificationText :: "notificationPayload \<Rightarrow> string" where
  "notificationText p =
     (if normalizeNotificationEvent (np_Event p) \<noteq> ''resolved'' then al_Message (np_Alert p)
      else
        (let host0 = trim_space (nd_Hostname (np_Device p));
             host1 = (if host0 = [] then trim_space (nd_IP (np_Device p)) else host0);
             host = (if host1 = [] then ''device '' @ int_str (nd_ID (np_Device p)) else host1);
             reason0 = trim_space (np_ClearReason p);
             reason = (if reason0 = [] then ''condition returned to normal'' else reason0)
         in r_Name (np_Rule p) @ '' cleared on '' @ host @ '': '' @ reason))"

definition sysmonProtocolStatus :: "notificationPayload \<Rightarrow> string" where
  "sysmonProtocolStatus p =
     (if normalizeNotificationEvent (np_Event p) = ''resolved'' then ''OK''
      else if equal_fold (al_Severity (np_Alert p)) SeverityCritical then ''CRITICAL''
      else ''WARNING'')"

text \<open>\<open>valid_name\<close> is the protocol's name pattern (sysmonalerter.ValidProtocolName).\<close>

definition sysmonObject :: "(string \<Rightarrow> bool) \<Rightarrow> notificationPayload \<Rightarrow> string" where
  "sysmonObject valid_name p =
     (let ruleID = (case al_RuleID (np_Alert p) of Some r \<Rightarrow> r
                    | None \<Rightarrow> if r_ID (np_Rule p) > 0 then r_ID (np_Rule p) else 0);
          object = ''device-'' @ int_str (nd_ID (np_Device p)) @ ''-rule-'' @ int_str ruleID
      in if \<not> valid_name object then ''alert-'' @ int_str (al_ID (np_Alert p)) else object)"

section \<open>Delivery state shown with an alert\<close>

record NotificationDelivery =
  del_Channel :: string
  del_Event :: event
  del_Status :: delivery_status
  del_Attempts :: int
  del_LastError :: string
  del_NextAttemptAt :: time
  del_SentAt :: "time option"

definition delivery_of :: "outbox_row \<Rightarrow> NotificationDelivery" where
  "delivery_of o1 = \<lparr>del_Channel = ob_Channel o1, del_Event = ob_Event o1, del_Status = ob_Status o1,
     del_Attempts = ob_Attempts o1, del_LastError = (case ob_LastError o1 of None \<Rightarrow> [] | Some e \<Rightarrow> e),
     del_NextAttemptAt = ob_NextAttemptAt o1, del_SentAt = ob_SentAt o1\<rparr>"

definition count_status :: "delivery_status \<Rightarrow> NotificationDelivery list \<Rightarrow> nat" where
  "count_status s ds = length (filter (\<lambda>d. del_Status d = s) ds)"

definition summarizeDeliveries :: "NotificationDelivery list \<Rightarrow> event \<Rightarrow> string \<Rightarrow> string list \<times> string" where
  "summarizeDeliveries deliveries ev emptyStatus =
     (let ds = filter (\<lambda>d. del_Event d = ev) deliveries; channels = map del_Channel ds in
      if channels = [] then (channels, emptyStatus)
      else if count_status Sending ds > 0 then (channels, ''sending'')
      else if count_status Pending ds > 0 then (channels, ''pending'')
      else if count_status Failed ds > 0 then (channels, ''retrying'')
      else if count_status Sent ds = length channels then (channels, ''sent'')
      else if count_status Sent ds > 0 \<and> count_status Dead ds > 0 then (channels, ''partial'')
      else (channels, ''failed''))"

record alert_view =
  av_alert :: alert
  av_Deliveries :: "NotificationDelivery list"
  av_NotifyChannels :: "string list"
  av_DeliveryStatus :: string
  av_RecoveryChannels :: "string list"
  av_RecoveryDeliveryStatus :: string

definition clamp_limit :: "int \<Rightarrow> int" where
  "clamp_limit limit = (let l = (if limit \<le> 0 then 100 else limit) in if l > 500 then 500 else l)"

definition view_alert :: "outbox_row list \<Rightarrow> alert \<Rightarrow> alert_view" where
  "view_alert rows a =
     (let ds = map delivery_of (sort_key ob_Channel (filter (\<lambda>o1. ob_AlertID o1 = al_ID a \<and> ob_Event o1 = EvResolved) rows)
                              @ sort_key ob_Channel (filter (\<lambda>o1. ob_AlertID o1 = al_ID a \<and> ob_Event o1 = EvTriggered) rows));
          t = summarizeDeliveries ds EvTriggered ''in_app'';
          r = summarizeDeliveries ds EvResolved ''not_requested''
      in \<lparr>av_alert = a, av_Deliveries = ds, av_NotifyChannels = fst t, av_DeliveryStatus = snd t,
          av_RecoveryChannels = fst r, av_RecoveryDeliveryStatus = snd r\<rparr>)"

text \<open>\<open>None\<close> is the "invalid alert status" error; rows with equal times keep table order.\<close>

definition ListAlerts :: "string \<Rightarrow> int \<Rightarrow> alert_db \<Rightarrow> alert_view list option" where
  "ListAlerts status0 limit db =
     (let status = to_lower (trim_space status0) in
      if status \<notin> {[], ''open'', ''active'', ''acknowledged'', ''resolved''} then None
      else
        (let sel = (if status = ''open'' then filter open_alert (db_alerts db)
                    else if status = [] then db_alerts db
                    else filter (\<lambda>a. status_name (al_Status a) = status) (db_alerts db))
         in Some (map (view_alert (db_outbox db))
                   (take (nat (clamp_limit limit)) (sort_key (\<lambda>a. - al_TriggeredAt a) sel)))))"

definition GetActiveAlertCount :: "alert_db \<Rightarrow> nat" where
  "GetActiveAlertCount db = length (filter open_alert (db_alerts db))"

section \<open>Claims\<close>

lemma next_claim_Some:
  assumes "next_claim db dbnow locked sysmonOnly = Some o1"
  shows "o1 \<in> set (db_outbox db) \<and> claimable db dbnow sysmonOnly o1 \<and> \<not> locked (ob_ID o1)
    \<and> (\<forall>o2 \<in> set (db_outbox db). claimable db dbnow sysmonOnly o2 \<and> \<not> locked (ob_ID o2) \<longrightarrow>
         ob_NextAttemptAt o1 < ob_NextAttemptAt o2
         \<or> ob_NextAttemptAt o1 = ob_NextAttemptAt o2 \<and> ob_ID o1 \<le> ob_ID o2)"
proof -
  let ?C = "\<lambda>o1. claimable db dbnow sysmonOnly o1 \<and> \<not> locked (ob_ID o1)"
  from assms obtain m where m: "least_by ob_NextAttemptAt (filter ?C (db_outbox db)) = Some m"
    and o1: "least_by ob_ID (filter (\<lambda>o1. ?C o1 \<and> ob_NextAttemptAt o1 = ob_NextAttemptAt m) (db_outbox db)) = Some o1"
    by (auto simp: next_claim_def split: option.splits)
  show ?thesis using least_by_Some [OF m] least_by_Some [OF o1] by (auto simp: order.strict_iff_order)
qed

lemma next_claim_None:
  "next_claim db dbnow locked sysmonOnly = None \<Longrightarrow> o1 \<in> set (db_outbox db) \<Longrightarrow>
   claimable db dbnow sysmonOnly o1 \<Longrightarrow> locked (ob_ID o1)"
proof -
  assume none: "next_claim db dbnow locked sysmonOnly = None" and o1: "o1 \<in> set (db_outbox db)" "claimable db dbnow sysmonOnly o1"
  let ?C = "\<lambda>o1. claimable db dbnow sysmonOnly o1 \<and> \<not> locked (ob_ID o1)"
  have "filter ?C (db_outbox db) = []"
  proof (cases "least_by ob_NextAttemptAt (filter ?C (db_outbox db))")
    case (Some m)
    with none have "filter (\<lambda>o1. ?C o1 \<and> ob_NextAttemptAt o1 = ob_NextAttemptAt m) (db_outbox db) = []"
      by (simp add: next_claim_def)
    then show ?thesis using least_by_Some [OF Some] by (auto simp: filter_empty_conv)
  qed simp
  then show "locked (ob_ID o1)" using o1 by (auto simp: filter_empty_conv)
qed

text \<open>What a worker's item says about its row.\<close>

definition item_matches :: "alert_db \<Rightarrow> outboxItem \<Rightarrow> bool" where
  "item_matches db item \<longleftrightarrow>
     it_ID item < db_outbox_seq db
     \<and> (\<forall>o1 \<in> set (db_outbox db). ob_ID o1 = it_ID item \<longrightarrow> outbox_key o1 = (it_AlertID item, it_Channel item, it_Event item))"

lemma claim_Inr:
  assumes "claimNotification fault jsonerr dbnow locked sysmonOnly db = Inr (Some item, db')"
  obtains o1 p where "next_claim db dbnow locked sysmonOnly = Some o1" "item = claimed_item o1 p"
    "db' = update_outbox (ob_ID o1) (mark_sending (ob_Attempts o1 + 1) dbnow) db"
  using assms by (auto simp: claimNotification_def split: option.splits)

lemma claimNotification_wf:
  assumes wf: "outbox_wf db" and run: "claimNotification fault jsonerr dbnow locked sysmonOnly db = Inr (it, db')"
  shows "outbox_wf db' \<and> same_frame db db' \<and> db_alerts db' = db_alerts db \<and> db_outbox_seq db' = db_outbox_seq db
    \<and> map outbox_key (db_outbox db') = map outbox_key (db_outbox db) \<and> map ob_ID (db_outbox db') = map ob_ID (db_outbox db)"
proof (cases "next_claim db dbnow locked sysmonOnly")
  case None
  then show ?thesis using run wf by (auto simp: claimNotification_def)
next
  case (Some o1)
  then have o1: "o1 \<in> set (db_outbox db)" "claimable db dbnow sysmonOnly o1" using next_claim_Some by blast+
  have open_or_res: "ob_Event o1 = EvTriggered \<Longrightarrow> \<not> alert_resolved db (ob_AlertID o1)"
    using o1(2) alert_resolved_get [OF wf]
    by (auto simp: claimable_def alert_open_id_def open_alert_def split: option.splits)
  have upd: "outbox_wf (update_outbox (ob_ID o1) f db)
      \<and> map outbox_key (db_outbox (update_outbox (ob_ID o1) f db)) = map outbox_key (db_outbox db)
      \<and> map ob_ID (db_outbox (update_outbox (ob_ID o1) f db)) = map ob_ID (db_outbox db)"
    if keep: "\<And>r. ob_ID (f r) = ob_ID r \<and> outbox_key (f r) = outbox_key r"
      and att: "0 \<le> ob_Attempts (f o1)" "ob_Channel o1 \<noteq> ''sysmon'' \<longrightarrow> ob_Attempts (f o1) \<le> 8" for f
  proof -
    have "outbox_wf (update_outbox (ob_ID o1) f db)"
      unfolding update_outbox_def
    proof (rule outbox_wf_update [OF wf])
      fix r assume "r \<in> set (db_outbox db)" "ob_ID r = ob_ID o1"
      then have "r = o1" using outbox_row_unique [OF wf _ o1(1)] by blast
      then show "ob_ID (f r) = ob_ID r \<and> outbox_key (f r) = outbox_key r \<and> 0 \<le> ob_Attempts (f r)
          \<and> (ob_Channel r \<noteq> ''sysmon'' \<longrightarrow> ob_Attempts (f r) \<le> 8)
          \<and> (ob_Event r = EvTriggered \<longrightarrow> alert_resolved db (ob_AlertID r) \<longrightarrow> settled (ob_Status (f r)))"
        using keep att open_or_res by blast
    qed
    then show ?thesis using keep by (simp add: update_outbox_def keys_update_where)
  qed
  have sending: "outbox_wf (update_outbox (ob_ID o1) (mark_sending (ob_Attempts o1 + 1) dbnow) db)
      \<and> map outbox_key (db_outbox (update_outbox (ob_ID o1) (mark_sending (ob_Attempts o1 + 1) dbnow) db)) = map outbox_key (db_outbox db)
      \<and> map ob_ID (db_outbox (update_outbox (ob_ID o1) (mark_sending (ob_Attempts o1 + 1) dbnow) db)) = map ob_ID (db_outbox db)"
    by (rule upd) (use o1 row_wfD [OF wf o1(1)] in \<open>auto simp: mark_sending_def outbox_key_def claimable_def row_wf_def\<close>)
  have killed: "outbox_wf (update_outbox (ob_ID o1) (kill_payload jsonerr dbnow) db)
      \<and> map outbox_key (db_outbox (update_outbox (ob_ID o1) (kill_payload jsonerr dbnow) db)) = map outbox_key (db_outbox db)
      \<and> map ob_ID (db_outbox (update_outbox (ob_ID o1) (kill_payload jsonerr dbnow) db)) = map ob_ID (db_outbox db)"
    by (rule upd) (simp_all add: kill_payload_def outbox_key_def)
  show ?thesis
    using run Some sending killed
    by (cases "ob_Payload o1") (auto simp: claimNotification_def same_frame_def update_outbox_def)
qed

lemma claimNotification_item:
  assumes wf: "outbox_wf db" and run: "claimNotification fault jsonerr dbnow locked sysmonOnly db = Inr (Some item, db')"
  shows "item_matches db' item"
proof -
  from run obtain o1 p where o1: "next_claim db dbnow locked sysmonOnly = Some o1" "item = claimed_item o1 p"
    and db': "db' = update_outbox (ob_ID o1) (mark_sending (ob_Attempts o1 + 1) dbnow) db"
    by (rule claim_Inr)
  have mem: "o1 \<in> set (db_outbox db)" using next_claim_Some [OF o1(1)] by blast
  have "outbox_key r = (it_AlertID item, it_Channel item, it_Event item)" if "r \<in> set (db_outbox db')" "ob_ID r = it_ID item" for r
  proof -
    from that obtain r0 where r0: "r0 \<in> set (db_outbox db)"
      "r = (if ob_ID r0 = ob_ID o1 then mark_sending (ob_Attempts o1 + 1) dbnow r0 else r0)"
      by (auto simp: db' update_outbox_def in_update_where)
    then have "ob_ID r0 = ob_ID o1" using that(2) o1(2) by (auto simp: claimed_item_def mark_sending_def split: if_splits)
    then have "r0 = o1" using outbox_row_unique [OF wf r0(1) mem] by blast
    then show ?thesis using r0(2) o1(2) by (simp add: mark_sending_def outbox_key_def claimed_item_def)
  qed
  then show ?thesis
    using row_wfD [OF wf mem] o1(2) by (simp add: item_matches_def row_wf_def db' update_outbox_def claimed_item_def)
qed

section \<open>Bookkeeping keeps the tables well-formed\<close>

text \<open>What every step of a worker leaves alone: alerts' keys and states, outbox keys, the other tables.\<close>

definition worker_frame :: "alert_db \<Rightarrow> alert_db \<Rightarrow> bool" where
  "worker_frame db db' \<longleftrightarrow>
     same_frame db db' \<and> db_outbox_seq db' = db_outbox_seq db
     \<and> map (\<lambda>a. (al_ID a, al_Status a, al_RuleID a, al_DeviceID a)) (db_alerts db')
       = map (\<lambda>a. (al_ID a, al_Status a, al_RuleID a, al_DeviceID a)) (db_alerts db)
     \<and> map (\<lambda>o1. (ob_ID o1, outbox_key o1)) (db_outbox db') = map (\<lambda>o1. (ob_ID o1, outbox_key o1)) (db_outbox db)"

lemma worker_frame_refl [simp]: "worker_frame db db"
  by (simp add: worker_frame_def)

lemma worker_frame_trans: "worker_frame a b \<Longrightarrow> worker_frame b c \<Longrightarrow> worker_frame a c"
  unfolding worker_frame_def using same_frame_trans by auto

lemma worker_frame_outbox:
  assumes "\<And>o1. o1 \<in> set (db_outbox db) \<Longrightarrow> P o1 \<Longrightarrow> ob_ID (f o1) = ob_ID o1 \<and> outbox_key (f o1) = outbox_key o1"
  shows "worker_frame db (db\<lparr>db_outbox := update_where P f (db_outbox db)\<rparr>)"
  unfolding worker_frame_def same_frame_def
  using assms by (auto intro!: keys_update_where)

lemma worker_frame_alerts:
  assumes "\<And>a. al_ID (g a) = al_ID a \<and> al_Status (g a) = al_Status a \<and> al_RuleID (g a) = al_RuleID a \<and> al_DeviceID (g a) = al_DeviceID a"
  shows "worker_frame db (db\<lparr>db_alerts := update_where Q g (db_alerts db)\<rparr>)"
  unfolding worker_frame_def same_frame_def
  using assms by (auto intro!: keys_update_where)

lemma claimNotification_frame:
  assumes "claimNotification fault jsonerr dbnow locked sysmonOnly db = Inr (it, db')"
  shows "worker_frame db db'"
proof -
  have "worker_frame db (update_outbox i (mark_sending n dbnow) db)"
    "worker_frame db (update_outbox i (kill_payload jsonerr dbnow) db)" for i n
    unfolding update_outbox_def
    by (rule worker_frame_outbox; simp add: mark_sending_def kill_payload_def outbox_key_def)+
  then show ?thesis
    using assms by (auto simp: claimNotification_def split: option.splits)
qed

lemma mark_sent_wf:
  assumes "outbox_wf db"
  shows "outbox_wf (db\<lparr>db_outbox := update_where (claim_held item) (mark_sent dbnow) (db_outbox db)\<rparr>)"
  by (rule outbox_wf_update [OF assms])
    (use row_wfD [OF assms] in \<open>auto simp: mark_sent_def outbox_key_def row_wf_def settled_def\<close>)

lemma markNotificationSent_wf:
  assumes wf: "outbox_wf db" and run: "markNotificationSent fault dbnow item db = Inr db'"
  shows "outbox_wf db' \<and> worker_frame db db'"
proof -
  let ?db1 = "db\<lparr>db_outbox := update_where (claim_held item) (mark_sent dbnow) (db_outbox db)\<rparr>"
  let ?db2 = "?db1\<lparr>db_alerts := update_where (\<lambda>a. al_ID a = it_AlertID item) (note_delivered (it_Event item) dbnow) (db_alerts ?db1)\<rparr>"
  have wf1: "outbox_wf ?db1" by (rule mark_sent_wf [OF wf])
  have wf2: "outbox_wf ?db2"
    by (rule outbox_wf_touch_alerts [OF wf1]) (simp add: note_delivered_def)
  have f1: "worker_frame db ?db1"
    by (rule worker_frame_outbox) (simp add: mark_sent_def outbox_key_def)
  have f2: "worker_frame ?db1 ?db2"
    by (rule worker_frame_alerts) (simp add: note_delivered_def)
  have "db' = ?db1 \<or> db' = ?db2"
    using run by (auto simp: markNotificationSent_def Let_def split: if_splits)
  then show ?thesis using wf1 wf2 f1 worker_frame_trans [OF f1 f2] by auto
qed

lemma markNotificationFailed_wf:
  assumes wf: "outbox_wf db" and item: "item_matches db item"
    and run: "markNotificationFailed fault now dbnow item err db = Inr db'"
  shows "outbox_wf db' \<and> worker_frame db db'"
proof -
  from run obtain a where a: "get_alert db (it_AlertID item) = Some a"
    by (auto simp: markNotificationFailed_def split: prod.splits option.splits)
  let ?closed = "it_Event item = EvTriggered \<and> al_Status a = Resolved"
  let ?db1 = "\<lambda>st msg next. db\<lparr>db_outbox := update_where (claim_held item) (mark_failed st msg next dbnow) (db_outbox db)\<rparr>"
  let ?db2 = "\<lambda>st msg next. (?db1 st msg next)\<lparr>db_alerts := update_where (\<lambda>a. al_ID a = it_AlertID item) (note_failed (it_Event item) msg) (db_alerts db)\<rparr>"
  have wf1: "outbox_wf (?db1 st msg next)" if st: "?closed \<longrightarrow> settled st" for st msg "next"
  proof (rule outbox_wf_update [OF wf])
    fix o1 assume o1: "o1 \<in> set (db_outbox db)" "claim_held item o1"
    then have k: "outbox_key o1 = (it_AlertID item, it_Channel item, it_Event item)"
      using item by (simp add: item_matches_def claim_held_def)
    have "settled st" if "ob_Event o1 = EvTriggered" "alert_resolved db (ob_AlertID o1)"
      using that k a alert_resolved_get [OF wf a] st by (simp add: outbox_key_def)
    then show "ob_ID (mark_failed st msg next dbnow o1) = ob_ID o1
        \<and> outbox_key (mark_failed st msg next dbnow o1) = outbox_key o1 \<and> 0 \<le> ob_Attempts (mark_failed st msg next dbnow o1)
        \<and> (ob_Channel o1 \<noteq> ''sysmon'' \<longrightarrow> ob_Attempts (mark_failed st msg next dbnow o1) \<le> 8)
        \<and> (ob_Event o1 = EvTriggered \<longrightarrow> alert_resolved db (ob_AlertID o1) \<longrightarrow> settled (ob_Status (mark_failed st msg next dbnow o1)))"
      using row_wfD [OF wf o1(1)] by (auto simp: mark_failed_def outbox_key_def row_wf_def)
  qed
  have f1: "worker_frame db (?db1 st msg next)" for st msg "next"
    by (rule worker_frame_outbox) (simp add: mark_failed_def outbox_key_def)
  have wf2: "outbox_wf (?db2 st msg next)" if "?closed \<longrightarrow> settled st" for st msg "next"
    using outbox_wf_touch_alerts [OF wf1 [OF that], of "note_failed (it_Event item) msg"]
    by (simp add: note_failed_def)
  have f2: "worker_frame db (?db2 st msg next)" for st msg "next"
    using worker_frame_trans [OF f1 worker_frame_alerts, of "note_failed (it_Event item) msg"]
    by (simp add: note_failed_def)
  from run a obtain st msg "next" where "?closed \<longrightarrow> settled st" "db' = ?db1 st msg next \<or> db' = ?db2 st msg next"
    unfolding markNotificationFailed_def
    by (fastforce simp: Let_def settled_def split: prod.splits if_splits)
  then show ?thesis using wf1 wf2 f1 f2 by blast
qed

lemma recoverStale_wf:
  assumes wf: "outbox_wf db" and run: "recoverStaleNotificationClaims fault dbnow db = Inr db'"
  shows "outbox_wf db' \<and> worker_frame db db'"
proof -
  have db': "db' = db\<lparr>db_outbox := update_where (stale_claim db dbnow) (recover_claim db dbnow) (db_outbox db)\<rparr>"
    using run by (simp add: recoverStaleNotificationClaims_def)
  have "outbox_wf db'"
    unfolding db'
  proof (rule outbox_wf_update [OF wf])
    fix o1 assume o1: "o1 \<in> set (db_outbox db)" "stale_claim db dbnow o1"
    then obtain a where a: "get_alert db (ob_AlertID o1) = Some a" by (auto simp: stale_claim_def)
    then show "ob_ID (recover_claim db dbnow o1) = ob_ID o1
        \<and> outbox_key (recover_claim db dbnow o1) = outbox_key o1 \<and> 0 \<le> ob_Attempts (recover_claim db dbnow o1)
        \<and> (ob_Channel o1 \<noteq> ''sysmon'' \<longrightarrow> ob_Attempts (recover_claim db dbnow o1) \<le> 8)
        \<and> (ob_Event o1 = EvTriggered \<longrightarrow> alert_resolved db (ob_AlertID o1) \<longrightarrow> settled (ob_Status (recover_claim db dbnow o1)))"
      using row_wfD [OF wf o1(1)] alert_resolved_get [OF wf a]
      by (auto simp: recover_claim_def outbox_key_def row_wf_def settled_def Let_def)
  qed
  moreover have "worker_frame db db'"
    unfolding db' by (rule worker_frame_outbox) (simp add: recover_claim_def outbox_key_def Let_def)
  ultimately show ?thesis by simp
qed

lemma worker_scan_wf:
  "outbox_wf db \<Longrightarrow> outbox_wf (worker_scan n tick transport sysmonOnly db) \<and> worker_frame db (worker_scan n tick transport sysmonOnly db)"
proof (induction n arbitrary: db)
  case (Suc n)
  let ?k = "tick n"
  let ?claim = "claimNotification (tk_claim ?k) (tk_jsonerr ?k) (tk_dbnow ?k) (tk_locked ?k) sysmonOnly db"
  show ?case
  proof (cases ?claim)
    case (Inl e)
    then show ?thesis using Suc.prems by simp
  next
    case (Inr p)
    obtain it db1 where p: "p = (it, db1)" by fastforce
    have wf1: "outbox_wf db1" using claimNotification_wf [OF Suc.prems] Inr p by blast
    have f1: "worker_frame db db1" using claimNotification_frame Inr p by blast
    show ?thesis
    proof (cases it)
      case None
      then show ?thesis using Inr p wf1 f1 by simp
    next
      case (Some item)
      have match: "item_matches db1 item" using claimNotification_item [OF Suc.prems] Inr p Some by blast
      let ?next = "case deliverNotification transport item of
               None \<Rightarrow> keep_db db1 (markNotificationSent (tk_mark ?k) (tk_markdb ?k) item db1)
             | Some e \<Rightarrow> keep_db db1 (markNotificationFailed (tk_mark ?k) (tk_now ?k) (tk_markdb ?k) item (send_error_text e) db1)"
      have "outbox_wf ?next \<and> worker_frame db1 ?next"
        using wf1 markNotificationSent_wf [OF wf1] markNotificationFailed_wf [OF wf1 match]
        by (auto simp: keep_db_def split: option.splits sum.splits)
      then show ?thesis
        using Suc.IH [of ?next] worker_frame_trans [OF f1] worker_frame_trans Inr p Some
        by (auto simp: Let_def)
    qed
  qed
qed simp

lemma runNotificationWorker_scan_wf:
  assumes "outbox_wf db"
  shows "outbox_wf (runNotificationWorker_scan fault dbnow tick transport sysmonOnly db)
    \<and> worker_frame db (runNotificationWorker_scan fault dbnow tick transport sysmonOnly db)"
proof -
  let ?db0 = "if sysmonOnly then keep_db db (recoverStaleNotificationClaims fault dbnow db) else db"
  have "outbox_wf ?db0 \<and> worker_frame db ?db0"
    using assms recoverStale_wf [OF assms] by (auto simp: keep_db_def split: sum.splits)
  then show ?thesis
    using worker_scan_wf [of ?db0 32 tick transport sysmonOnly] worker_frame_trans
    by (auto simp: runNotificationWorker_scan_def)
qed

section \<open>Properties\<close>

lemma trigger_in_flight_iff:
  "trigger_in_flight db o1 \<longleftrightarrow>
     (\<exists>t \<in> set (db_outbox db). outbox_key t = (ob_AlertID o1, ob_Channel o1, EvTriggered) \<and> ob_Status t = Sending)"
  by (auto simp: trigger_in_flight_def list_ex_iff outbox_key_def)

lemma alert_open_not_resolved:
  "outbox_wf db \<Longrightarrow> alert_open_id db i \<Longrightarrow> \<not> alert_resolved db i"
  using alert_resolved_get by (auto simp: alert_open_id_def open_alert_def split: option.splits)

text \<open>C2. Delivery order. What a worker is handed is a due, unlocked row that belongs to it, the
  oldest of those; outside sysmon it is at most the eighth attempt. A trigger is handed out only
  while its alert is open. A recovery is handed out only after the alert closed and the trigger
  on the same channel was delivered or given up, so no channel sees a recovery before (or
  concurrently with) its trigger.
\<close>

theorem claim_ordering:
  assumes wf: "outbox_wf db"
    and run: "claimNotification fault jsonerr dbnow locked sysmonOnly db = Inr (Some item, db')"
  shows "(\<exists>o1 \<in> set (db_outbox db). ob_ID o1 = it_ID item \<and> outbox_key o1 = (it_AlertID item, it_Channel item, it_Event item)
           \<and> ob_NextAttemptAt o1 \<le> dbnow \<and> it_Attempts item = ob_Attempts o1 + 1
           \<and> (\<forall>o2 \<in> set (db_outbox db). claimable db dbnow sysmonOnly o2 \<and> \<not> locked (ob_ID o2) \<longrightarrow>
                ob_NextAttemptAt o1 \<le> ob_NextAttemptAt o2))
       \<and> \<not> locked (it_ID item) \<and> (sysmonOnly \<longleftrightarrow> it_Channel item = ''sysmon'')
       \<and> (it_Channel item \<noteq> ''sysmon'' \<longrightarrow> it_Attempts item \<le> 8)
       \<and> (it_Event item = EvTriggered \<longrightarrow> alert_open_id db (it_AlertID item))
       \<and> (it_Event item = EvResolved \<longrightarrow> alert_resolved db (it_AlertID item)
           \<and> (\<exists>t \<in> set (db_outbox db). outbox_key t = (it_AlertID item, it_Channel item, EvTriggered)
                \<and> (ob_Status t = Sent \<or> ob_Status t = Dead)))"
proof -
  from run obtain o1 p where o1: "next_claim db dbnow locked sysmonOnly = Some o1" and item: "item = claimed_item o1 p"
    by (rule claim_Inr)
  note nc = next_claim_Some [OF o1]
  then have c: "claimable db dbnow sysmonOnly o1" and mem: "o1 \<in> set (db_outbox db)" by auto
  have sel: "it_ID item = ob_ID o1" "it_AlertID item = ob_AlertID o1" "it_Channel item = ob_Channel o1"
    "it_Event item = ob_Event o1" "it_Attempts item = ob_Attempts o1 + 1"
    by (simp_all add: item claimed_item_def)
  have due: "ob_NextAttemptAt o1 \<le> dbnow" "sysmonOnly \<longleftrightarrow> ob_Channel o1 = ''sysmon''"
    "ob_Channel o1 \<noteq> ''sysmon'' \<longrightarrow> ob_Attempts o1 < 8" "ob_Event o1 = EvTriggered \<longrightarrow> alert_open_id db (ob_AlertID o1)"
    using c by (auto simp: claimable_def split: if_splits)
  have least: "\<forall>o2 \<in> set (db_outbox db). claimable db dbnow sysmonOnly o2 \<and> \<not> locked (ob_ID o2) \<longrightarrow>
                ob_NextAttemptAt o1 \<le> ob_NextAttemptAt o2"
    using nc by force
  have row: "\<exists>r \<in> set (db_outbox db). ob_ID r = ob_ID o1 \<and> outbox_key r = (ob_AlertID o1, ob_Channel o1, ob_Event o1)
           \<and> ob_NextAttemptAt r \<le> dbnow \<and> ob_Attempts o1 + 1 = ob_Attempts r + 1
           \<and> (\<forall>o2 \<in> set (db_outbox db). claimable db dbnow sysmonOnly o2 \<and> \<not> locked (ob_ID o2) \<longrightarrow>
                ob_NextAttemptAt r \<le> ob_NextAttemptAt o2)"
    by (rule bexI [OF _ mem]) (use due least in \<open>simp add: outbox_key_def\<close>)
  have rec: "alert_resolved db (ob_AlertID o1)
           \<and> (\<exists>t \<in> set (db_outbox db). outbox_key t = (ob_AlertID o1, ob_Channel o1, EvTriggered)
                \<and> (ob_Status t = Sent \<or> ob_Status t = Dead))" if ev: "ob_Event o1 = EvResolved"
  proof -
    have res: "alert_resolved db (ob_AlertID o1)"
      and "(ob_AlertID o1, ob_Channel o1, EvTriggered) \<in> outbox_key ` set (db_outbox db)"
      using row_wfD [OF wf mem] ev by (auto simp: row_wf_def)
    then obtain t where t: "t \<in> set (db_outbox db)" "outbox_key t = (ob_AlertID o1, ob_Channel o1, EvTriggered)" by force
    have "settled (ob_Status t)"
      using row_wfD [OF wf t(1)] t(2) res by (simp add: row_wf_def outbox_key_def)
    moreover have "ob_Status t \<noteq> Sending"
      using c ev t by (auto simp: claimable_def trigger_in_flight_iff)
    ultimately show ?thesis using res t by (auto simp: settled_def)
  qed
  have unlocked: "\<not> locked (ob_ID o1)" using nc by blast
  have att: "ob_Channel o1 \<noteq> ''sysmon'' \<longrightarrow> ob_Attempts o1 + 1 \<le> 8" using due(3) by auto
  show ?thesis
    unfolding sel using row unlocked due(2) att due(4) rec by satx
qed

definition demo_claim :: "alert_error + outboxItem option \<times> alert_db" where
  "demo_claim = claimNotification no_fault [] 200 unlocked False demo_db"

lemma demo_claim_value:
  "demo_claim = Inr (Some (claimed_item (demo_row 2 1 EvResolved Pending 0) (demo_payload EvResolved (demo_alert 1 Active))),
                     update_outbox 2 (mark_sending 1 200) demo_db)"
  by code_simp

lemma claim_ordering_witness:
  "it_Event (claimed_item (demo_row 2 1 EvResolved Pending 0) (demo_payload EvResolved (demo_alert 1 Active))) = EvResolved
   \<and> (\<exists>t \<in> set (db_outbox demo_db). outbox_key t = (1, ''email'', EvTriggered) \<and> (ob_Status t = Sent \<or> ob_Status t = Dead))"
  using claim_ordering [OF demo_db_wf demo_claim_value [unfolded demo_claim_def]]
  by (simp add: claimed_item_def demo_row_def)

text \<open>
  Retry policy. A failed delivery is retried after 5, 10, 20, 40, then 60 seconds on sysmon
  and is never given up; elsewhere after 30 seconds doubling up to 30 minutes, and it is given up
  exactly from the eighth attempt on. More attempts never shorten the delay.
\<close>

lemma failure_backoff_sysmon:
  "snd (notificationFailurePolicy ''sysmon'' n) =
     (if n \<le> 1 then 5 else if n = 2 then 10 else if n = 3 then 20 else if n = 4 then 40 else 60) * second"
proof (cases "n \<le> 4")
  case True
  then have "n \<le> 1 \<or> n = 2 \<or> n = 3 \<or> n = 4" by arith
  then show ?thesis by (auto simp: notificationFailurePolicy_def Let_def time_defs)
next
  case False
  then have "min (n - 1) 4 = 4" by auto
  then show ?thesis using False by (simp add: notificationFailurePolicy_def Let_def time_defs)
qed

lemma failure_backoff_other:
  "ch \<noteq> ''sysmon'' \<Longrightarrow> snd (notificationFailurePolicy ch n) =
     (if n \<le> 1 then 30 else if n = 2 then 60 else if n = 3 then 120 else if n = 4 then 240
      else if n = 5 then 480 else if n = 6 then 960 else 1800) * second"
proof -
  assume ch: "ch \<noteq> ''sysmon''"
  show ?thesis
  proof (cases "n \<le> 8")
    case True
    then have "n \<le> 1 \<or> n = 2 \<or> n = 3 \<or> n = 4 \<or> n = 5 \<or> n = 6 \<or> n = 7 \<or> n = 8" by arith
    then show ?thesis using ch by (auto simp: notificationFailurePolicy_def Let_def time_defs)
  next
    case False
    then have "min (n - 1) 8 = 8" by auto
    then show ?thesis using False ch by (simp add: notificationFailurePolicy_def Let_def time_defs)
  qed
qed

theorem notificationFailurePolicy_spec:
  "(fst (notificationFailurePolicy ch n) = Dead \<longleftrightarrow> ch \<noteq> ''sysmon'' \<and> 8 \<le> n)
   \<and> (fst (notificationFailurePolicy ch n) \<noteq> Dead \<longrightarrow> fst (notificationFailurePolicy ch n) = Failed)
   \<and> (if ch = ''sysmon'' then 5 else 30) * second \<le> snd (notificationFailurePolicy ch n)
   \<and> snd (notificationFailurePolicy ch n) \<le> (if ch = ''sysmon'' then minute else 30 * minute)
   \<and> (n \<le> m \<longrightarrow> snd (notificationFailurePolicy ch n) \<le> snd (notificationFailurePolicy ch m))"
proof -
  have dead: "fst (notificationFailurePolicy ch n) = (if ch \<noteq> ''sysmon'' \<and> 8 \<le> n then Dead else Failed)"
    by (auto simp: notificationFailurePolicy_def Let_def)
  show ?thesis
    unfolding dead
    by (cases "ch = ''sysmon''") (auto simp: failure_backoff_sysmon failure_backoff_other time_defs)
qed

lemma notificationFailurePolicy_spec_witness:
  "snd (notificationFailurePolicy ''email'' 3) \<le> snd (notificationFailurePolicy ''email'' 9)
   \<and> snd (notificationFailurePolicy ''email'' 9) = 30 * minute"
  using notificationFailurePolicy_spec [of "''email''" 3 9] notificationFailurePolicy_spec [of "''email''" 9 9]
  by (simp add: failure_backoff_other time_defs)

text \<open>
  Fencing. A worker whose claim was superseded (its row was recovered, re-claimed, finished or
  deleted, so no row still carries its id, attempt number and state "sending") changes nothing
  when it finally reports: neither its success nor its failure touches any table.
\<close>

lemma update_where_none: "(\<And>x. x \<in> set xs \<Longrightarrow> \<not> P x) \<Longrightarrow> update_where P f xs = xs"
  unfolding update_where_def by (rule map_idI) simp

theorem superseded_claim_is_inert:
  assumes "\<forall>o1 \<in> set (db_outbox db). \<not> (ob_ID o1 = it_ID item \<and> ob_Status o1 = Sending \<and> ob_Attempts o1 = it_Attempts item)"
  shows "(markNotificationSent fault dbnow item db = Inr db' \<longrightarrow> db' = db)
       \<and> (markNotificationFailed fault now dbnow item err db = Inr db'' \<longrightarrow> db'' = db)"
proof -
  have no: "\<not> claim_held item o1" if "o1 \<in> set (db_outbox db)" for o1
    using assms that by (auto simp: claim_held_def)
  then have "filter (claim_held item) (db_outbox db) = []" by (simp add: filter_empty_conv)
  moreover have "update_where (claim_held item) f (db_outbox db) = db_outbox db" for f
    by (rule update_where_none) (rule no)
  ultimately show ?thesis
    by (auto simp: markNotificationSent_def markNotificationFailed_def Let_def split: prod.splits option.splits)
qed

lemma superseded_claim_is_inert_witness:
  "markNotificationSent no_fault 300 (claimed_item (demo_row 2 1 EvResolved Pending 0) (demo_payload EvResolved (demo_alert 1 Active))) demo_db
   = Inr demo_db"
proof -
  let ?item = "claimed_item (demo_row 2 1 EvResolved Pending 0) (demo_payload EvResolved (demo_alert 1 Active))"
  have no: "\<forall>o1 \<in> set (db_outbox demo_db). \<not> (ob_ID o1 = it_ID ?item \<and> ob_Status o1 = Sending \<and> ob_Attempts o1 = it_Attempts ?item)"
    by code_simp
  have "\<exists>d. markNotificationSent no_fault 300 ?item demo_db = Inr d"
    by (simp add: markNotificationSent_def stmt_def no_fault_def Let_def)
  then show ?thesis using superseded_claim_is_inert [OF no] by blast
qed

text \<open>Delivery marks. Recording a delivery sets the alert's notified (or recovery-notified) time
  only when every outbox row of that alert and event is sent; no other alert is touched and no
  alert changes its state.
\<close>

theorem notified_means_all_sent:
  assumes "markNotificationSent fault dbnow item db = Inr db'"
    and "a \<in> set (db_alerts db)" and "a \<notin> set (db_alerts db')"
  shows "al_ID a = it_AlertID item
    \<and> note_delivered (it_Event item) dbnow a \<in> set (db_alerts db')
    \<and> (\<forall>o1 \<in> set (db_outbox db'). ob_AlertID o1 = al_ID a \<and> ob_Event o1 = it_Event item \<longrightarrow> ob_Status o1 = Sent)"
proof -
  let ?db1 = "db\<lparr>db_outbox := update_where (claim_held item) (mark_sent dbnow) (db_outbox db)\<rparr>"
  let ?left = "list_ex (\<lambda>o1. ob_AlertID o1 = it_AlertID item \<and> ob_Event o1 = it_Event item \<and> ob_Status o1 \<noteq> Sent) (db_outbox ?db1)"
  have "db' \<noteq> ?db1" using assms(2,3) by auto
  then have nl: "\<not> ?left" and db': "db' = ?db1\<lparr>db_alerts := update_where (\<lambda>a. al_ID a = it_AlertID item)
      (note_delivered (it_Event item) dbnow) (db_alerts db)\<rparr>"
    using assms(1) by (auto simp: markNotificationSent_def Let_def split: if_splits)
  have id: "al_ID a = it_AlertID item"
  proof (rule ccontr)
    assume "al_ID a \<noteq> it_AlertID item"
    then have "a \<in> set (db_alerts db')" using assms(2) by (auto simp: db' in_update_where intro!: bexI [of _ a])
    then show False using assms(3) by simp
  qed
  moreover have "note_delivered (it_Event item) dbnow a \<in> set (db_alerts db')"
    using assms(2) id by (auto simp: db' in_update_where intro!: bexI [of _ a])
  ultimately show ?thesis using nl by (auto simp: db' list_ex_iff)
qed

definition demo_sending :: alert_db where
  "demo_sending = update_outbox 2 (mark_sending 1 200) demo_db"

definition demo_item :: outboxItem where
  "demo_item = claimed_item (demo_row 2 1 EvResolved Pending 0) (demo_payload EvResolved (demo_alert 1 Active))"

definition demo_sent :: alert_db where
  "demo_sent = keep_db demo_sending (markNotificationSent no_fault 300 demo_item demo_sending)"

lemma notified_means_all_sent_witness:
  "note_delivered EvResolved 300 (demo_alert 1 Resolved) \<in> set (db_alerts demo_sent)
   \<and> filter (\<lambda>o1. ob_AlertID o1 = 1 \<and> ob_Event o1 = EvResolved \<and> ob_Status o1 \<noteq> Sent) (db_outbox demo_sent) = []"
proof -
  have run: "markNotificationSent no_fault 300 demo_item demo_sending = Inr demo_sent" by code_simp
  have mem: "demo_alert 1 Resolved \<in> set (db_alerts demo_sending)" by code_simp
  have gone: "demo_alert 1 Resolved \<notin> set (db_alerts demo_sent)" by code_simp
  show ?thesis
    using notified_means_all_sent [OF run mem gone]
    by (auto simp: filter_empty_conv demo_item_def claimed_item_def demo_row_def demo_alert_def)
qed

section \<open>A healthy scan drains the queue\<close>

text \<open>One successful iteration: the claimed row goes to sent, every other row stays.\<close>

definition sent_row :: "time \<Rightarrow> time \<Rightarrow> outbox_row \<Rightarrow> outbox_row" where
  "sent_row t t' o1 = mark_sent t' (mark_sending (ob_Attempts o1 + 1) t o1)"

lemma length_filter_unique:
  "distinct (map f xs) \<Longrightarrow> x \<in> set xs \<Longrightarrow> P x \<Longrightarrow> (\<And>y. P y \<Longrightarrow> f y = f x) \<Longrightarrow> length (filter P xs) = 1"
proof -
  assume d: "distinct (map f xs)" and x: "x \<in> set xs" "P x" and P: "\<And>y. P y \<Longrightarrow> f y = f x"
  have eq: "y = x" if "y \<in> set xs" "P y" for y by (rule distinct_map_eq [OF d that(1) x(1) P [OF that(2)]])
  have s: "set (filter P xs) = {x}"
  proof (rule set_eqI)
    fix y show "y \<in> set (filter P xs) \<longleftrightarrow> y \<in> {x}" using eq [of y] x by (cases "y = x") auto
  qed
  have "distinct (filter P xs)" using d by (simp add: distinct_map)
  then have "length (filter P xs) = card (set (filter P xs))" by (rule distinct_card [symmetric])
  then show ?thesis unfolding s by simp
qed

lemma successful_iteration:
  assumes wf: "outbox_wf db" and nc: "next_claim db t locked sysmonOnly = Some o1"
    and ok: "\<And>s. \<not> f s" "\<And>s. \<not> f' s" and p: "ob_Payload o1 = Some p"
  obtains db1 db2 where
    "claimNotification f je t locked sysmonOnly db = Inr (Some (claimed_item o1 p), db1)"
    "markNotificationSent f' t' (claimed_item o1 p) db1 = Inr db2"
    "db_outbox db2 = update_where (\<lambda>r. ob_ID r = ob_ID o1) (sent_row t t') (db_outbox db)"
    "outbox_wf db2" "worker_frame db db2"
proof -
  let ?item = "claimed_item o1 p"
  let ?db1 = "update_outbox (ob_ID o1) (mark_sending (ob_Attempts o1 + 1) t) db"
  have mem: "o1 \<in> set (db_outbox db)" using next_claim_Some [OF nc] by blast
  have claim: "claimNotification f je t locked sysmonOnly db = Inr (Some ?item, ?db1)"
    using nc p ok(1) by (simp add: claimNotification_def stmt_def)
  have wf1: "outbox_wf ?db1" using claimNotification_wf [OF wf claim] by blast
  let ?r = "mark_sending (ob_Attempts o1 + 1) t o1"
  have r: "?r \<in> set (db_outbox ?db1)" using mem by (auto simp: update_outbox_def in_update_where)
  have held: "claim_held ?item ?r" by (simp add: claim_held_def claimed_item_def mark_sending_def)
  have one: "length (filter (claim_held ?item) (db_outbox ?db1)) = 1"
    by (rule length_filter_unique [where f = ob_ID and P = "claim_held ?item" and x = ?r])
      (use wf1 r held in \<open>auto simp: outbox_wf_def claim_held_def claimed_item_def mark_sending_def\<close>)
  have ids: "claim_held ?item (if ob_ID r = ob_ID o1 then mark_sending (ob_Attempts o1 + 1) t r else r) \<longleftrightarrow> ob_ID r = ob_ID o1"
    for r by (auto simp: claim_held_def claimed_item_def mark_sending_def)
  have rows: "update_where (claim_held ?item) (mark_sent t') (db_outbox ?db1)
      = update_where (\<lambda>r. ob_ID r = ob_ID o1) (sent_row t t') (db_outbox db)"
    unfolding update_outbox_def update_where_def
    using ids outbox_row_unique [OF wf _ mem] by (auto simp: sent_row_def)
  obtain db2 where db2: "markNotificationSent f' t' ?item ?db1 = Inr db2"
    and out: "db_outbox db2 = update_where (claim_held ?item) (mark_sent t') (db_outbox ?db1)"
    using one ok(2) by (force simp: markNotificationSent_def stmt_def Let_def)
  have "outbox_wf db2 \<and> worker_frame ?db1 db2" by (rule markNotificationSent_wf [OF wf1 db2])
  then show thesis
    using that [OF claim db2] rows out worker_frame_trans [OF claimNotification_frame [OF claim]] by simp
qed

lemma worker_frame_get_alert:
  assumes wf: "outbox_wf db" "outbox_wf db'" and fr: "worker_frame db db'"
  shows "map_option al_Status (get_alert db' i) = map_option al_Status (get_alert db i)"
proof -
  have k: "map (\<lambda>a. (al_ID a, al_Status a)) (db_alerts db') = map (\<lambda>a. (al_ID a, al_Status a)) (db_alerts db)"
    using arg_cong [OF fr [unfolded worker_frame_def, THEN conjunct2, THEN conjunct2, THEN conjunct1], of "map (\<lambda>(a, b, c, d). (a, b))"]
    by (simp add: comp_def)
  have f: "map_option al_Status (find (\<lambda>a. al_ID a = i) xs)
      = map_option snd (find (\<lambda>p. fst p = i) (map (\<lambda>a. (al_ID a, al_Status a)) xs))" for xs
    by (induction xs) auto
  then show ?thesis unfolding get_alert_def f k ..
qed

lemma claimable_after:
  assumes wf: "outbox_wf db" "outbox_wf db2" and fr: "worker_frame db db2"
    and rows: "db_outbox db2 = update_where (\<lambda>r. ob_ID r = i) (sent_row t t') (db_outbox db)"
    and c: "claimable db T sysmonOnly r"
  shows "claimable db2 T sysmonOnly r"
proof -
  note st = worker_frame_get_alert [OF wf fr, of "ob_AlertID r"]
  have "get_alert db2 (ob_AlertID r) \<noteq> None" using st c by (auto simp: claimable_def)
  moreover have "alert_open_id db2 (ob_AlertID r) = alert_open_id db (ob_AlertID r)"
    using st by (auto simp: alert_open_id_def open_alert_def split: option.splits)
  moreover have "trigger_in_flight db2 r \<Longrightarrow> trigger_in_flight db r"
    unfolding trigger_in_flight_def rows
    by (auto simp: list_ex_iff bex_update_where sent_row_def mark_sent_def split: if_splits)
  ultimately show ?thesis using c by (auto simp: claimable_def)
qed

definition waiting :: "outbox_row \<Rightarrow> bool" where
  "waiting o1 \<longleftrightarrow> ob_Status o1 = Pending \<or> ob_Status o1 = Failed"

lemma waiting_decreases:
  assumes "o1 \<in> set rows" and "waiting o1" and "distinct (map ob_ID rows)"
  shows "length (filter waiting (update_where (\<lambda>r. ob_ID r = ob_ID o1) (sent_row t t') rows)) < length (filter waiting rows)"
proof -
  let ?P = "\<lambda>r. ob_ID r = ob_ID o1"
  have "filter waiting (update_where ?P (sent_row t t') rows) = filter (\<lambda>r. waiting r \<and> \<not> ?P r) rows"
    unfolding update_where_def
    by (induction rows) (auto simp: sent_row_def waiting_def mark_sent_def)
  moreover have "length (filter (\<lambda>r. waiting r \<and> \<not> ?P r) rows) < length (filter waiting rows)"
  proof -
    have "filter (\<lambda>r. waiting r \<and> \<not> ?P r) rows = filter (\<lambda>r. \<not> ?P r) (filter waiting rows)"
      by (simp add: conj_commute)
    moreover have "length (filter (\<lambda>r. \<not> ?P r) (filter waiting rows)) < length (filter waiting rows)"
      by (rule length_filter_less [of o1]) (use assms in auto)
    ultimately show ?thesis by simp
  qed
  ultimately show ?thesis by simp
qed

text \<open>A clock and fault oracle under which nothing fails: the database time is \<open>t\<close> throughout.\<close>

definition healthy :: "(nat \<Rightarrow> tick) \<Rightarrow> time \<Rightarrow> bool" where
  "healthy tick t \<longleftrightarrow> (\<forall>k s i. \<not> tk_claim (tick k) s \<and> \<not> tk_mark (tick k) s \<and> tk_dbnow (tick k) = t \<and> \<not> tk_locked (tick k) i)"

definition deliverable_row :: "outbox_row \<Rightarrow> bool" where
  "deliverable_row o1 \<longleftrightarrow> ob_Payload o1 \<noteq> None \<and> ob_Channel o1 \<in> set deliverable_channels"

lemma sent_row_keeps [simp]:
  "ob_ID (sent_row t t' o1) = ob_ID o1" "ob_Channel (sent_row t t' o1) = ob_Channel o1"
  "ob_Payload (sent_row t t' o1) = ob_Payload o1" "ob_Status (sent_row t t' o1) = Sent"
  by (simp_all add: sent_row_def mark_sent_def mark_sending_def)

lemma healthy_scan:
  fixes sysmonOnly :: bool
  assumes "outbox_wf db" and h: "healthy tick t" and send: "\<forall>c p. transport c p = None"
    and "\<forall>o1 \<in> set (db_outbox db). deliverable_row o1"
    and "length (filter waiting (db_outbox db)) \<le> n"
  defines "db' \<equiv> worker_scan n tick transport sysmonOnly db"
  shows "(\<forall>o1 \<in> set (db_outbox db'). \<not> claimable db' t sysmonOnly o1)
    \<and> (\<forall>o1 \<in> set (db_outbox db). claimable db t sysmonOnly o1 \<or> ob_Status o1 = Sent \<longrightarrow>
         (\<exists>o2 \<in> set (db_outbox db'). ob_ID o2 = ob_ID o1 \<and> ob_Status o2 = Sent))"
  using assms(1,4,5) unfolding db'_def
proof (induction n arbitrary: db)
  case 0
  then have "\<forall>o1 \<in> set (db_outbox db). \<not> waiting o1" by (simp add: filter_empty_conv)
  then have "\<forall>o1 \<in> set (db_outbox db). \<not> claimable db t sysmonOnly o1" by (auto simp: waiting_def claimable_def)
  then show ?case by auto
next
  case (Suc n)
  let ?k = "tick n"
  have k: "\<And>s. \<not> tk_claim ?k s" "\<And>s. \<not> tk_mark ?k s" "tk_dbnow ?k = t" "\<And>i. \<not> tk_locked ?k i"
    using h by (auto simp: healthy_def)
  show ?case
  proof (cases "next_claim db t (tk_locked ?k) sysmonOnly")
    case None
    then have "worker_scan (Suc n) tick transport sysmonOnly db = db"
      using k by (simp add: claimNotification_def stmt_def)
    then show ?thesis using next_claim_None [OF None] k(4) by auto
  next
    case (Some o1)
    note nc = next_claim_Some [OF Some]
    then have mem: "o1 \<in> set (db_outbox db)" and c: "claimable db t sysmonOnly o1" by auto
    from Suc.prems(2) mem obtain p where p: "ob_Payload o1 = Some p" and ch: "ob_Channel o1 \<in> set deliverable_channels"
      by (auto simp: deliverable_row_def)
    obtain db1 db2 where claim: "claimNotification (tk_claim ?k) (tk_jsonerr ?k) t (tk_locked ?k) sysmonOnly db = Inr (Some (claimed_item o1 p), db1)"
      and sent: "markNotificationSent (tk_mark ?k) (tk_markdb ?k) (claimed_item o1 p) db1 = Inr db2"
      and rows: "db_outbox db2 = update_where (\<lambda>r. ob_ID r = ob_ID o1) (sent_row t (tk_markdb ?k)) (db_outbox db)"
      and wf2: "outbox_wf db2" and fr: "worker_frame db db2"
      by (rule successful_iteration [where je = "tk_jsonerr ?k" and t' = "tk_markdb ?k", OF Suc.prems(1) Some k(1) k(2) p])
    have deliver: "deliverNotification transport (claimed_item o1 p) = None"
      using ch send by (auto simp: deliverNotification_def claimed_item_def deliverable_channels_def)
    have scan: "worker_scan (Suc n) tick transport sysmonOnly db = worker_scan n tick transport sysmonOnly db2"
      using claim sent k(3) deliver by (simp add: keep_db_def Let_def)
    have "waiting o1" "distinct (map ob_ID (db_outbox db))"
      using c Suc.prems(1) by (simp_all add: waiting_def claimable_def outbox_wf_def)
    from waiting_decreases [OF mem this, of t "tk_markdb ?k"] Suc.prems(3)
    have dec: "length (filter waiting (db_outbox db2)) \<le> n" unfolding rows by linarith
    have del: "\<forall>r \<in> set (db_outbox db2). deliverable_row r"
      using Suc.prems(2) unfolding rows by (auto simp: ball_update_where deliverable_row_def)
    note IH = Suc.IH [OF wf2 del dec]
    have "\<exists>o3 \<in> set (db_outbox (worker_scan n tick transport sysmonOnly db2)). ob_ID o3 = ob_ID r \<and> ob_Status o3 = Sent"
      if r: "r \<in> set (db_outbox db)" "claimable db t sysmonOnly r \<or> ob_Status r = Sent" for r
    proof (cases "ob_ID r = ob_ID o1")
      case True
      then have "sent_row t (tk_markdb ?k) r \<in> set (db_outbox db2)"
        using r(1) by (auto simp: rows in_update_where)
      then show ?thesis using IH True by fastforce
    next
      case False
      then have "r \<in> set (db_outbox db2)" using r(1) by (auto simp: rows in_update_where)
      moreover have "claimable db2 t sysmonOnly r \<or> ob_Status r = Sent"
        using claimable_after [OF Suc.prems(1) wf2 fr rows] r(2) by blast
      ultimately show ?thesis using IH by blast
    qed
    then show ?thesis unfolding scan using IH by blast
  qed
qed


definition demo_tick :: "nat \<Rightarrow> tick" where
  "demo_tick k = \<lparr>tk_claim = no_fault, tk_mark = no_fault, tk_dbnow = 200, tk_markdb = 210, tk_now = 205,
     tk_locked = unlocked, tk_jsonerr = []\<rparr>"


section \<open>Stranded rows and the delivery summary\<close>

text \<open>A claim that dies on the eighth attempt outside sysmon is stranded. Recovering the stale
  claim of a recovery row (or of the trigger of an open alert) marks the row "failed" with its
  eight attempts, so no worker can ever claim it again at any time, although the delivery summary
  of its alert reports it as "retrying".
\<close>

theorem stale_last_attempt_stranded:
  assumes "recoverStaleNotificationClaims fault dbnow db = Inr db'"
    and "o1 \<in> set (db_outbox db)" and "stale_claim db dbnow o1"
    and "ob_Channel o1 \<noteq> ''sysmon''" and "ob_Attempts o1 = 8"
    and "ob_Event o1 = EvResolved"
  shows "\<exists>o2 \<in> set (db_outbox db'). ob_ID o2 = ob_ID o1 \<and> ob_Status o2 = Failed
     \<and> (\<forall>t sysmonOnly. \<not> claimable db' t sysmonOnly o2)
     \<and> snd (summarizeDeliveries [delivery_of o2] EvResolved ''not_requested'') = ''retrying''"
proof (rule bexI)
  have db': "db' = db\<lparr>db_outbox := update_where (stale_claim db dbnow) (recover_claim db dbnow) (db_outbox db)\<rparr>"
    using assms(1) by (simp add: recoverStaleNotificationClaims_def)
  show "recover_claim db dbnow o1 \<in> set (db_outbox db')"
    using assms(2,3) by (auto simp: db' in_update_where)
  show "ob_ID (recover_claim db dbnow o1) = ob_ID o1 \<and> ob_Status (recover_claim db dbnow o1) = Failed
     \<and> (\<forall>t sysmonOnly. \<not> claimable db' t sysmonOnly (recover_claim db dbnow o1))
     \<and> snd (summarizeDeliveries [delivery_of (recover_claim db dbnow o1)] EvResolved ''not_requested'') = ''retrying''"
    using assms(4,5,6)
    by (simp add: recover_claim_def Let_def claimable_def summarizeDeliveries_def delivery_of_def count_status_def)
qed

definition demo_stale :: alert_db where
  "demo_stale = demo_db\<lparr>db_outbox := [demo_row 1 1 EvTriggered Sent 1, demo_row 2 1 EvResolved Sending 8]\<rparr>"

lemma stale_last_attempt_stranded_witness:
  "\<exists>o2 \<in> set (db_outbox (keep_db demo_stale (recoverStaleNotificationClaims no_fault (6 * minute + 100) demo_stale))).
     ob_ID o2 = 2 \<and> ob_Status o2 = Failed"
proof -
  have run: "recoverStaleNotificationClaims no_fault (6 * minute + 100) demo_stale
    = Inr (keep_db demo_stale (recoverStaleNotificationClaims no_fault (6 * minute + 100) demo_stale))" by code_simp
  have mem: "demo_row 2 1 EvResolved Sending 8 \<in> set (db_outbox demo_stale)" by code_simp
  have st: "stale_claim demo_stale (6 * minute + 100) (demo_row 2 1 EvResolved Sending 8)" by code_simp
  have sel: "ob_ID (demo_row 2 1 EvResolved Sending 8) = 2" "ob_Channel (demo_row 2 1 EvResolved Sending 8) \<noteq> ''sysmon''"
    "ob_Attempts (demo_row 2 1 EvResolved Sending 8) = 8" "ob_Event (demo_row 2 1 EvResolved Sending 8) = EvResolved"
    by (simp_all add: demo_row_def)
  show ?thesis using stale_last_attempt_stranded [OF run mem st sel(2,3,4)] sel(1) by auto
qed

text \<open>
  Delivery summary. The words "sent", "partial" and "failed" are final verdicts: no delivery of
  the event is still waiting or under way. "sent" means that every delivery was sent, "partial"
  that some were and some died, "failed" that none was sent and all died; the caller's word for
  "nothing requested" appears exactly when there is no delivery of the event.
\<close>

lemma count_status_pos: "0 < count_status s ds \<longleftrightarrow> (\<exists>d \<in> set ds. del_Status d = s)"
  by (induction ds) (auto simp: count_status_def)

lemma length_filter_eq: "length (filter P xs) = length xs \<longleftrightarrow> (\<forall>x \<in> set xs. P x)"
  by (metis filter_id_conv length_filter_less less_irrefl)

lemma count_status_all: "count_status s ds = length ds \<longleftrightarrow> (\<forall>d \<in> set ds. del_Status d = s)"
  by (simp add: count_status_def length_filter_eq)

theorem summarizeDeliveries_verdict:
  defines "verdict ds ev w \<equiv> snd (summarizeDeliveries ds ev w)"
  assumes "w \<notin> {''sending'', ''pending'', ''retrying'', ''sent'', ''partial'', ''failed''}"
  shows "(verdict ds ev w = w \<longleftrightarrow> (\<forall>d \<in> set ds. del_Event d \<noteq> ev))
    \<and> (verdict ds ev w = ''sent'' \<longleftrightarrow> (\<exists>d \<in> set ds. del_Event d = ev) \<and> (\<forall>d \<in> set ds. del_Event d = ev \<longrightarrow> del_Status d = Sent))
    \<and> (verdict ds ev w = ''failed'' \<longleftrightarrow> (\<exists>d \<in> set ds. del_Event d = ev) \<and> (\<forall>d \<in> set ds. del_Event d = ev \<longrightarrow> del_Status d = Dead))
    \<and> (verdict ds ev w = ''partial'' \<longleftrightarrow> (\<forall>d \<in> set ds. del_Event d = ev \<longrightarrow> del_Status d = Sent \<or> del_Status d = Dead)
         \<and> (\<exists>d \<in> set ds. del_Event d = ev \<and> del_Status d = Sent) \<and> (\<exists>d \<in> set ds. del_Event d = ev \<and> del_Status d = Dead))"
proof -
  let ?es = "filter (\<lambda>d. del_Event d = ev) ds"
  define has where "has s \<longleftrightarrow> (\<exists>d \<in> set ?es. del_Status d = s)" for s
  have st: "del_Status d = Sending \<or> del_Status d = Pending \<or> del_Status d = Failed \<or> del_Status d = Sent \<or> del_Status d = Dead" for d
    by (cases "del_Status d") auto
  have none: "?es = [] \<longleftrightarrow> \<not> has Sending \<and> \<not> has Pending \<and> \<not> has Failed \<and> \<not> has Sent \<and> \<not> has Dead"
    unfolding has_def by (cases ?es) (use st in auto)
  have only: "(\<forall>d \<in> set ?es. del_Status d = s) \<longleftrightarrow> (\<forall>s'. s' \<noteq> s \<longrightarrow> \<not> has s')" for s
    by (auto simp: has_def)
  have all: "(\<forall>s'. Q s') \<longleftrightarrow> Q Sending \<and> Q Pending \<and> Q Failed \<and> Q Sent \<and> Q Dead" for Q
    by (metis delivery_status.exhaust)
  have v: "verdict ds ev w =
     (if ?es = [] then w else if has Sending then ''sending'' else if has Pending then ''pending''
      else if has Failed then ''retrying'' else if \<forall>d \<in> set ?es. del_Status d = Sent then ''sent''
      else if has Sent \<and> has Dead then ''partial'' else ''failed'')"
    by (simp only: verdict_def has_def summarizeDeliveries_def Let_def map_is_Nil_conv length_map count_status_pos
        count_status_all if_distrib [where f = snd] snd_conv)
  have w: "w \<noteq> ''sending''" "w \<noteq> ''pending''" "w \<noteq> ''retrying''" "w \<noteq> ''sent''" "w \<noteq> ''partial''" "w \<noteq> ''failed''"
    using assms(2) by auto
  note cs = w w [symmetric] none only all
  have none': "(\<forall>d \<in> set ds. del_Event d \<noteq> ev) \<longleftrightarrow> ?es = []" by (auto simp: filter_empty_conv)
  have some': "(\<exists>d \<in> set ds. del_Event d = ev) \<longleftrightarrow> ?es \<noteq> []" by (auto simp: filter_empty_conv)
  have only': "(\<forall>d \<in> set ds. del_Event d = ev \<longrightarrow> del_Status d = s) \<longleftrightarrow> (\<forall>d \<in> set ?es. del_Status d = s)" for s by auto
  have has': "(\<exists>d \<in> set ds. del_Event d = ev \<and> del_Status d = s) \<longleftrightarrow> has s" for s by (auto simp: has_def)
  have two0: "(x = Sent \<or> x = Dead) \<longleftrightarrow> x \<noteq> Sending \<and> x \<noteq> Pending \<and> x \<noteq> Failed" for x
    by (cases x) simp_all
  have two: "(\<forall>d \<in> set ds. del_Event d = ev \<longrightarrow> del_Status d = Sent \<or> del_Status d = Dead)
      \<longleftrightarrow> \<not> has Sending \<and> \<not> has Pending \<and> \<not> has Failed"
    unfolding two0 has_def by auto
  show ?thesis
    unfolding none' some' only' has' two v only none all
    using w by (cases "has Sending"; cases "has Pending"; cases "has Failed"; cases "has Sent"; cases "has Dead") simp_all
qed

lemma summarizeDeliveries_verdict_witness:
  "snd (summarizeDeliveries [delivery_of (demo_row 1 1 EvTriggered Sent 1)] EvTriggered ''in_app'') = ''sent''"
  using summarizeDeliveries_verdict [of "''in_app''" "[delivery_of (demo_row 1 1 EvTriggered Sent 1)]" EvTriggered]
  by (simp add: delivery_of_def demo_row_def)

end
