(* ===== verification/SysmonClient.thy ===== *)
theory SysmonClient imports Prelude begin

text \<open>
  The sysmon-web alerter client (src/internal/sysmonalerter/client.go): its configuration and the
  checks on it, the one-line protocol (command lines out, three-digit replies in), and the
  long-lived session with its generation counter. Operations that release the client's mutex
  around network I/O are split at that point, so that a configuration update can fall between.
  PEM decoding, certificate parsing, IP parsing and the network's answers are parameters.
\<close>

section \<open>Configuration\<close>

record Config =
  sc_Enabled :: bool
  sc_Host :: string
  sc_Port :: int
  sc_Name :: string
  sc_Token :: string
  sc_Application :: string
  sc_CAPEM :: string

abbreviation DefaultPort :: int where "DefaultPort \<equiv> 1347"
abbreviation maxApplication :: nat where "maxApplication \<equiv> 128"
abbreviation maxAlertText :: nat where "maxAlertText \<equiv> 512"
abbreviation maxReplyBytes :: nat where "maxReplyBytes \<equiv> 4096"

definition keepaliveAfter :: duration where "keepaliveAfter = 55 * second"
definition reconnectInitial :: duration where "reconnectInitial = 5 * second"
definition maintenanceTick :: duration where "maintenanceTick = 5 * second"

text \<open>unicode.IsControl on a rune: the C0 and C1 control characters and DEL.\<close>

definition is_control :: "string \<Rightarrow> bool" where
  "is_control r =
     (case map of_char r :: nat list of
        [c] \<Rightarrow> c < 32 \<or> c = 127
      | [c, d] \<Rightarrow> c = 0xC2 \<and> 0x80 \<le> d \<and> d < 0xA0
      | _ \<Rightarrow> False)"

definition blank_controls :: "string \<Rightarrow> string" where
  "blank_controls s = concat (map (\<lambda>r. if is_control r then '' '' else r) (runes s))"

definition one_line :: "string \<Rightarrow> string" where
  "one_line s = join '' '' (str_fields s)"

definition sanitizeText :: "string \<Rightarrow> nat \<Rightarrow> string" where
  "sanitizeText s maxRunes = truncate_runes (one_line (blank_controls s)) maxRunes"

definition normalizeConfig :: "Config \<Rightarrow> Config" where
  "normalizeConfig c = c\<lparr>
     sc_Host := trim_space (sc_Host c), sc_Name := trim_space (sc_Name c), sc_Token := trim_space (sc_Token c),
     sc_Application := one_line (trim_space (blank_controls (sc_Application c))),
     sc_CAPEM := trim_space (sc_CAPEM c),
     sc_Port := (if sc_Port c = 0 then DefaultPort else sc_Port c)\<rparr>"

text \<open>\<open>^[A-Za-z0-9_-]{1,64}$\<close>\<close>

definition name_char :: "char \<Rightarrow> bool" where
  "name_char c = (let n = of_char c :: nat in
     48 \<le> n \<and> n \<le> 57 \<or> 65 \<le> n \<and> n \<le> 90 \<or> 97 \<le> n \<and> n \<le> 122 \<or> n = 95 \<or> n = 45)"

definition ValidProtocolName :: "string \<Rightarrow> bool" where
  "ValidProtocolName s \<longleftrightarrow> 1 \<le> length s \<and> length s \<le> 64 \<and> list_all name_char s"

datatype config_error =
    BadHost | BadBrackets | HostHasPort | BadPort | BadAlerterName | BadToken | ApplicationTooLong
  | CertMissing | CertMalformed | CertPrivateKey | CertParse

definition host_separators :: string where
  "host_separators = [CHR 0x20, CHR 0x2F, CHR 0x5C, CHR 0x09, CHR 0x0D, CHR 0x0A]"

definition validateHost :: "(string \<Rightarrow> bool) \<Rightarrow> string \<Rightarrow> config_error option" where
  "validateHost parse_ip host0 =
     (let host = trim_space host0; l = prefix ''['' host; r = suffix '']'' host in
      if host = [] \<or> length host > 253 \<or> contains_any host host_separators then Some BadHost
      else if (l \<or> r) \<and> \<not> (l \<and> r) then Some BadBrackets
      else if parse_ip (if l then trim_suffix (trim_prefix host ''['') '']'' else host) then None
      else if CHR '':'' \<in> set host then Some HostHasPort
      else None)"

text \<open>
  \<open>pem_decode\<close> returns a block's type and bytes and the remaining text; every block is shorter than
  the text it was cut from, so a fuel of the text's length plus one reaches the end.
\<close>

record pem =
  pem_decode :: "string \<Rightarrow> (string \<times> string \<times> string) option"
  parse_certificate :: "string \<Rightarrow> bool"
  append_certs :: "string \<Rightarrow> bool"

fun cert_loop :: "nat \<Rightarrow> pem \<Rightarrow> string \<Rightarrow> nat \<Rightarrow> config_error + nat" where
  "cert_loop 0 px rest n = Inl CertMalformed"
| "cert_loop (Suc k) px rest n =
     (if trim_space rest = [] then Inr n
      else (case pem_decode px rest of
              None \<Rightarrow> Inl CertMalformed
            | Some (ty, bytes, rest') \<Rightarrow>
                (let blockType = to_upper (trim_space ty) in
                 if contains_str blockType ''PRIVATE KEY'' then Inl CertPrivateKey
                 else if blockType \<noteq> ''CERTIFICATE'' then cert_loop k px rest' n
                 else if \<not> parse_certificate px bytes then Inl CertParse
                 else cert_loop k px rest' (n + 1))))"

definition ValidateCAPEM :: "pem \<Rightarrow> string \<Rightarrow> config_error option" where
  "ValidateCAPEM px raw0 =
     (let raw = trim_space raw0 in
      if raw = [] then Some CertMissing
      else (case cert_loop (length raw + 1) px raw 0 of
              Inl e \<Rightarrow> Some e
            | Inr n \<Rightarrow> if n = 0 then Some CertMissing
                        else if \<not> append_certs px raw then Some CertMissing else None))"

record deps =
  dp_parse_ip :: "string \<Rightarrow> bool"
  dp_pem :: pem

definition ValidateConfig :: "deps \<Rightarrow> Config \<Rightarrow> config_error option" where
  "ValidateConfig dp cfg0 =
     (let cfg = normalizeConfig cfg0 in
      case validateHost (dp_parse_ip dp) (sc_Host cfg) of Some e \<Rightarrow> Some e | None \<Rightarrow>
      if sc_Port cfg < 1 \<or> sc_Port cfg > 65535 then Some BadPort
      else if \<not> ValidProtocolName (sc_Name cfg) then Some BadAlerterName
      else if sc_Token cfg = [] \<or> length (sc_Token cfg) > 4096
           \<or> contains_any (sc_Token cfg) [CHR 0x20, CHR 0x09, CHR 0x0D, CHR 0x0A] then Some BadToken
      else if rune_count (sc_Application cfg) > maxApplication then Some ApplicationTooLong
      else ValidateCAPEM (dp_pem dp) (sc_CAPEM cfg))"

definition joinHostPort :: "string \<Rightarrow> string \<Rightarrow> string" where
  "joinHostPort host port =
     (if CHR '':'' \<in> set host \<or> CHR ''%'' \<in> set host then ''['' @ host @ '']:'' @ port else host @ '':'' @ port)"

definition Address :: "Config \<Rightarrow> string" where
  "Address cfg =
     (let host = trim_prefix (trim_suffix (trim_space (sc_Host cfg)) '']'') ''['' in
      if host = [] then [] else joinHostPort host (int_str (sc_Port cfg)))"

definition sameConfig :: "Config \<Rightarrow> Config \<Rightarrow> bool" where
  "sameConfig a b \<longleftrightarrow>
     sc_Enabled a = sc_Enabled b \<and> sc_Host a = sc_Host b \<and> sc_Port a = sc_Port b \<and> sc_Name a = sc_Name b
     \<and> sc_Token a = sc_Token b \<and> sc_Application a = sc_Application b \<and> sc_CAPEM a = sc_CAPEM b"

lemma sameConfig_eq [simp]: "sameConfig a b \<longleftrightarrow> a = (b :: Config)"
  unfolding sameConfig_def by (cases a; cases b) auto

section \<open>The wire protocol\<close>

definition greeting :: "Config \<Rightarrow> string" where
  "greeting cfg = ''ALERTER '' @ sc_Name cfg @ '' '' @ sc_Token cfg @
     (if sc_Application cfg \<noteq> [] then '' '' @ sc_Application cfg else [])"

definition alert_line :: "string \<Rightarrow> string \<Rightarrow> string \<Rightarrow> string" where
  "alert_line status object txt =
     ''ALERT '' @ status @ '' '' @ object @ (if txt \<noteq> [] then '' '' @ txt else [])"

abbreviation newline :: char where "newline \<equiv> CHR 0x0A"

definition wire :: "string \<Rightarrow> string" where
  "wire line = line @ [newline]"

datatype client_error =
    ConfigInvalid config_error | ConfigurationChanged | NotConnected | DeliveryDisabled | BadStatus string
  | BadObject | Refusal string | UnexpectedCode int | UnexpectedReply string | ReplyTooLong | ReplyRead
  | Malformed string | DialFailed string

text \<open>readReply on the bytes the server sends: one line of at most 4096 bytes, CR optional.\<close>

definition read_line :: "string \<Rightarrow> client_error + string \<times> string" where
  "read_line stream =
     (let line = takeWhile (\<lambda>c. c \<noteq> newline) stream; found = length line < length stream in
      if length line + (if found then 1 else 0) > maxReplyBytes then Inl ReplyTooLong
      else if \<not> found then Inl ReplyRead
      else Inr (line, drop (length line + 1) stream))"

definition parse_reply :: "string \<Rightarrow> client_error + int \<times> string" where
  "parse_reply line0 =
     (let line = trim_suffix line0 [CHR 0x0D] in
      if length line < 3 then Inl (Malformed line)
      else (case atoi (take 3 line) of
              None \<Rightarrow> Inl (Malformed line)
            | Some code \<Rightarrow>
                if length line > 3 \<and> line ! 3 \<noteq> CHR '' '' then Inl (Malformed line)
                else Inr (code, if length line > 4 then trim_space (drop 4 line) else [])))"

definition readReply :: "string \<Rightarrow> client_error + (int \<times> string) \<times> string" where
  "readReply stream =
     (case read_line stream of Inl e \<Rightarrow> Inl e
      | Inr (line, rest) \<Rightarrow> (case parse_reply line of Inl e \<Rightarrow> Inl e | Inr r \<Rightarrow> Inr (r, rest)))"

definition check_reply :: "int \<times> string \<Rightarrow> string \<Rightarrow> client_error option" where
  "check_reply r expected =
     (case r of (code, message) \<Rightarrow>
      if code = 444 then Some (Refusal (if message = [] then ''rejected'' else message))
      else if code \<noteq> 333 then Some (UnexpectedCode code)
      else if expected \<noteq> [] \<and> \<not> equal_fold (trim_space message) expected then Some (UnexpectedReply message)
      else None)"

text \<open>The outcome of one command whose reply arrived as \<open>stream\<close> (a failed write is an empty stream).\<close>

definition command :: "string \<Rightarrow> string \<Rightarrow> client_error option" where
  "command stream expected =
     (case readReply stream of Inl e \<Rightarrow> Some e | Inr (r, _) \<Rightarrow> check_reply r expected)"

section \<open>The client\<close>

text \<open>
  A session remembers the configuration its handshake authenticated; \<open>se_ID\<close> tells two sockets
  apart. \<open>cl_wake\<close> is the one-element wake channel.
\<close>

record sysmon_session =
  se_ID :: nat
  se_Config :: Config

record Client =
  cl_cfg :: Config
  cl_generation :: "64 word"
  cl_session :: "sysmon_session option"
  cl_lastError :: string
  cl_lastConnectedAt :: time
  cl_lastActivityAt :: time
  cl_lastTestAt :: time
  cl_lastTestOK :: bool
  cl_wake :: bool

record Status =
  ss_Enabled :: bool
  ss_Configured :: bool
  ss_Connected :: bool
  ss_Address :: string
  ss_Name :: string
  ss_Application :: string
  ss_LastError :: string
  ss_LastConnectedAt :: "time option"
  ss_LastActivityAt :: "time option"
  ss_LastTestAt :: "time option"
  ss_LastTestOK :: bool

definition NewClient :: "deps \<Rightarrow> Config \<Rightarrow> config_error + Client" where
  "NewClient dp cfg0 =
     (let cfg = normalizeConfig cfg0;
          c = \<lparr>cl_cfg = cfg, cl_generation = 0, cl_session = None, cl_lastError = [], cl_lastConnectedAt = 0,
               cl_lastActivityAt = 0, cl_lastTestAt = 0, cl_lastTestOK = False, cl_wake = False\<rparr>
      in if sc_Enabled cfg then (case ValidateConfig dp cfg of Some e \<Rightarrow> Inl e | None \<Rightarrow> Inr c) else Inr c)"

definition UpdateConfig :: "deps \<Rightarrow> Config \<Rightarrow> Client \<Rightarrow> config_error option \<times> Client" where
  "UpdateConfig dp cfg0 c =
     (let cfg = normalizeConfig cfg0;
          bad = (if sc_Enabled cfg then ValidateConfig dp cfg else None)
      in case bad of Some e \<Rightarrow> (Some e, c)
         | None \<Rightarrow>
             if sameConfig (cl_cfg c) cfg then (None, c)
             else (None, c\<lparr>cl_session := None, cl_cfg := cfg, cl_generation := cl_generation c + 1,
                           cl_lastError := [], cl_wake := True\<rparr>))"

definition Close :: "Client \<Rightarrow> Client" where
  "Close c = c\<lparr>cl_session := None\<rparr>"

definition opt_time :: "time \<Rightarrow> time option" where
  "opt_time t = (if t = 0 then None else Some t)"

definition client_status :: "deps \<Rightarrow> Client \<Rightarrow> Status" where
  "client_status dp c = \<lparr>ss_Enabled = sc_Enabled (cl_cfg c), ss_Configured = (ValidateConfig dp (cl_cfg c) = None),
     ss_Connected = (cl_session c \<noteq> None), ss_Address = Address (cl_cfg c), ss_Name = sc_Name (cl_cfg c),
     ss_Application = sc_Application (cl_cfg c), ss_LastError = cl_lastError c,
     ss_LastConnectedAt = opt_time (cl_lastConnectedAt c), ss_LastActivityAt = opt_time (cl_lastActivityAt c),
     ss_LastTestAt = opt_time (cl_lastTestAt c), ss_LastTestOK = cl_lastTestOK c\<rparr>"

definition setLastError :: "Config \<Rightarrow> string \<Rightarrow> Client \<Rightarrow> Client" where
  "setLastError cfg err c = (if sameConfig (cl_cfg c) cfg then c\<lparr>cl_lastError := err\<rparr> else c)"

definition configGenerationMatches :: "Config \<Rightarrow> 64 word \<Rightarrow> Client \<Rightarrow> bool" where
  "configGenerationMatches cfg generation c \<longleftrightarrow> cl_generation c = generation \<and> sameConfig (cl_cfg c) cfg"

definition recordTest :: "Config \<Rightarrow> 64 word \<Rightarrow> time \<Rightarrow> string option \<Rightarrow> Client \<Rightarrow> Client" where
  "recordTest cfg generation now err c =
     (if sameConfig (cl_cfg c) cfg \<and> cl_generation c = generation
      then c\<lparr>cl_lastTestAt := now, cl_lastTestOK := (err = None),
             cl_lastError := (case err of None \<Rightarrow> [] | Some e \<Rightarrow> e)\<rparr> else c)\<lparr>cl_wake := True\<rparr>"

text \<open>ensureConnected before it dials: done, refused, or the snapshot to dial with.\<close>

datatype connect_plan = AlreadyConnected | ConfigStale | DialWith Config "64 word"

definition ensureConnected_plan :: "Config \<Rightarrow> Client \<Rightarrow> connect_plan" where
  "ensureConnected_plan expected c =
     (if cl_session c \<noteq> None then (if \<not> sameConfig (cl_cfg c) expected then ConfigStale else AlreadyConnected)
      else if \<not> sameConfig (cl_cfg c) expected \<or> \<not> sc_Enabled (cl_cfg c) then ConfigStale
      else DialWith (cl_cfg c) (cl_generation c))"

text \<open>ensureConnected after the dial: install the socket only if nothing moved meanwhile.\<close>

definition ensureConnected_install ::
  "Config \<Rightarrow> 64 word \<Rightarrow> time \<Rightarrow> string + nat \<Rightarrow> Client \<Rightarrow> client_error option \<times> Client" where
  "ensureConnected_install cfg generation now dialed c =
     (case dialed of
        Inl err \<Rightarrow> (Some (DialFailed err), setLastError cfg err c)
      | Inr sock \<Rightarrow>
          if cl_generation c \<noteq> generation \<or> \<not> sameConfig (cl_cfg c) cfg \<or> \<not> sc_Enabled (cl_cfg c)
          then (Some ConfigurationChanged, c)
          else if cl_session c \<noteq> None then (None, c)
          else (None, c\<lparr>cl_session := Some \<lparr>se_ID = sock, se_Config = cfg\<rparr>, cl_lastConnectedAt := now,
                        cl_lastActivityAt := now, cl_lastError := []\<rparr>))"

text \<open>commandCurrent: the session is read first, the reply is applied only if it is still current.\<close>

definition is_refusal :: "client_error \<Rightarrow> bool" where
  "is_refusal e = (case e of Refusal _ \<Rightarrow> True | _ \<Rightarrow> False)"

definition commandCurrent_apply ::
  "(client_error \<Rightarrow> string) \<Rightarrow> sysmon_session \<Rightarrow> time \<Rightarrow> client_error option \<Rightarrow> Client \<Rightarrow> Client" where
  "commandCurrent_apply err_text s now res c =
     (if cl_session c \<noteq> Some s then c
      else (case res of
              None \<Rightarrow> c\<lparr>cl_lastActivityAt := now, cl_lastError := []\<rparr>
            | Some e \<Rightarrow> c\<lparr>cl_lastError := err_text e,
                           cl_session := (if is_refusal e then cl_session c else None)\<rparr>))"

definition closeCurrent_drop :: "sysmon_session \<Rightarrow> Client \<Rightarrow> Client" where
  "closeCurrent_drop s c = (if cl_session c = Some s then c\<lparr>cl_session := None\<rparr> else c)"

text \<open>What Send checks before it touches the connection, and the line it then sends.\<close>

definition Send_prepare :: "deps \<Rightarrow> string \<Rightarrow> string \<Rightarrow> string \<Rightarrow> Client \<Rightarrow> client_error + string" where
  "Send_prepare dp status0 object0 txt0 c =
     (let status = to_upper (trim_space status0); object = trim_space object0; txt = sanitizeText txt0 maxAlertText in
      if status \<noteq> ''CRITICAL'' \<and> status \<noteq> ''WARNING'' \<and> status \<noteq> ''OK'' then Inl (BadStatus status)
      else if \<not> ValidProtocolName object then Inl BadObject
      else if \<not> sc_Enabled (cl_cfg c) then Inl DeliveryDisabled
      else (case ValidateConfig dp (cl_cfg c) of Some e \<Rightarrow> Inl (ConfigInvalid e) | None \<Rightarrow> Inr (alert_line status object txt)))"

text \<open>The retry delay of the maintenance loop after one pass.\<close>

definition next_backoff :: "duration \<Rightarrow> bool \<Rightarrow> bool \<Rightarrow> bool \<Rightarrow> duration \<times> duration" where
  "next_backoff backoff failed enabled isconn =
     (if failed then (backoff, (if backoff * 2 > minute then minute else backoff * 2))
      else (maintenanceTick, (if \<not> enabled \<or> isconn then reconnectInitial else backoff)))"

section \<open>Interleavings\<close>

text \<open>
  At most one operation holds \<open>opMu\<close>; it is between its two halves (dialing, or waiting for a
  reply) while configuration updates, closes and status writes run freely.
\<close>

datatype op_phase = Idle | Dialing Config "64 word" | Commanding sysmon_session

record client_sys =
  cy_client :: Client
  cy_phase :: op_phase

inductive client_step :: "deps \<Rightarrow> (client_error \<Rightarrow> string) \<Rightarrow> client_sys \<Rightarrow> client_sys \<Rightarrow> bool"
  for dp :: deps and err_text :: "client_error \<Rightarrow> string" where
  step_update: "client_step dp err_text s (s\<lparr>cy_client := snd (UpdateConfig dp cfg (cy_client s))\<rparr>)"
| step_close: "client_step dp err_text s (s\<lparr>cy_client := Close (cy_client s)\<rparr>)"
| step_error: "client_step dp err_text s (s\<lparr>cy_client := setLastError cfg e (cy_client s)\<rparr>)"
| step_record: "client_step dp err_text s (s\<lparr>cy_client := recordTest cfg g now e (cy_client s)\<rparr>)"
| step_dial: "cy_phase s = Idle \<Longrightarrow> ensureConnected_plan expected (cy_client s) = DialWith cfg g \<Longrightarrow>
    client_step dp err_text s (s\<lparr>cy_phase := Dialing cfg g\<rparr>)"
| step_dialed: "cy_phase s = Dialing cfg g \<Longrightarrow>
    client_step dp err_text s
      (s\<lparr>cy_client := snd (ensureConnected_install cfg g now dialed (cy_client s)), cy_phase := Idle\<rparr>)"
| step_command: "cy_phase s = Idle \<Longrightarrow> cl_session (cy_client s) = Some se \<Longrightarrow>
    client_step dp err_text s (s\<lparr>cy_phase := Commanding se\<rparr>)"
| step_replied: "cy_phase s = Commanding se \<Longrightarrow>
    client_step dp err_text s
      (s\<lparr>cy_client := commandCurrent_apply err_text se now res (cy_client s), cy_phase := Idle\<rparr>)"
| step_drop: "client_step dp err_text s (s\<lparr>cy_client := closeCurrent_drop se (cy_client s)\<rparr>)"

inductive_cases client_stepE: "client_step dp err_text s s'"

inductive client_reachable :: "deps \<Rightarrow> (client_error \<Rightarrow> string) \<Rightarrow> client_sys \<Rightarrow> bool"
  for dp :: deps and err_text :: "client_error \<Rightarrow> string" where
  start: "NewClient dp cfg = Inr c \<Longrightarrow> client_reachable dp err_text \<lparr>cy_client = c, cy_phase = Idle\<rparr>"
| more: "client_reachable dp err_text s \<Longrightarrow> client_step dp err_text s s' \<Longrightarrow> client_reachable dp err_text s'"

definition client_wf :: "deps \<Rightarrow> Client \<Rightarrow> bool" where
  "client_wf dp c \<longleftrightarrow>
     (\<exists>x. cl_cfg c = normalizeConfig x) \<and> (sc_Enabled (cl_cfg c) \<longrightarrow> ValidateConfig dp (cl_cfg c) = None)
     \<and> (\<forall>s. cl_session c = Some s \<longrightarrow> se_Config s = cl_cfg c \<and> sc_Enabled (cl_cfg c))"

lemma NewClient_wf: "NewClient dp cfg = Inr c \<Longrightarrow> client_wf dp c"
  unfolding NewClient_def client_wf_def Let_def by (auto split: if_splits option.splits)

lemma UpdateConfig_wf: "client_wf dp c \<Longrightarrow> client_wf dp (snd (UpdateConfig dp cfg c))"
  unfolding UpdateConfig_def client_wf_def Let_def by (auto split: option.splits)

lemma install_wf: "client_wf dp c \<Longrightarrow> client_wf dp (snd (ensureConnected_install cfg g now d c))"
  unfolding ensureConnected_install_def client_wf_def
  by (auto simp: setLastError_def split: sum.splits)

lemma apply_wf: "client_wf dp c \<Longrightarrow> client_wf dp (commandCurrent_apply et se now res c)"
  unfolding commandCurrent_apply_def client_wf_def by (auto split: option.splits)

lemma client_step_wf:
  "client_step dp et s s' \<Longrightarrow> client_wf dp (cy_client s) \<Longrightarrow> client_wf dp (cy_client s')"
proof (induction rule: client_step.induct)
  case (step_update s cfg) then show ?case by (simp add: UpdateConfig_wf)
next
  case (step_dialed s cfg g now dialed) then show ?case by (simp add: install_wf)
next
  case (step_replied s se now res) then show ?case by (simp add: apply_wf)
qed (auto simp: client_wf_def Close_def setLastError_def recordTest_def closeCurrent_drop_def)

section \<open>Properties\<close>

text \<open>C33. Session and configuration agree. However configuration updates, closes, dials and replies
  interleave, the installed session was authenticated with exactly the current configuration, and
  that configuration is enabled and valid: after an operator changes endpoint, identity, token or
  trust anchor no command is sent on a connection opened with the old ones.
\<close>

theorem session_matches_config:
  assumes "client_reachable dp et s" and "cl_session (cy_client s) = Some se"
  shows "se_Config se = cl_cfg (cy_client s) \<and> sc_Enabled (cl_cfg (cy_client s))
    \<and> ValidateConfig dp (cl_cfg (cy_client s)) = None"
proof -
  have "client_wf dp (cy_client s)"
    using assms(1) by (induction rule: client_reachable.induct) (auto simp: NewClient_wf client_step_wf)
  then show ?thesis using assms(2) by (auto simp: client_wf_def)
qed

definition demo_deps :: deps where
  "demo_deps = \<lparr>dp_parse_ip = (\<lambda>s. s = ''192.0.2.7''),
     dp_pem = \<lparr>pem_decode = (\<lambda>s. Some (''CERTIFICATE'', s, [])), parse_certificate = (\<lambda>s. True), append_certs = (\<lambda>s. True)\<rparr>\<rparr>"

definition demo_config :: Config where
  "demo_config = \<lparr>sc_Enabled = True, sc_Host = '' 192.0.2.7 '', sc_Port = 0, sc_Name = ''wavecontrol'',
     sc_Token = ''t0ken'', sc_Application = [CHR 0x0A] @ ''Wave  Control'', sc_CAPEM = ''PEM''\<rparr>"

definition demo_client :: Client where
  "demo_client = \<lparr>cl_cfg = normalizeConfig demo_config, cl_generation = 0, cl_session = None, cl_lastError = [],
     cl_lastConnectedAt = 0, cl_lastActivityAt = 0, cl_lastTestAt = 0, cl_lastTestOK = False, cl_wake = False\<rparr>"

lemma demo_client_new: "NewClient demo_deps demo_config = Inr demo_client"
  by code_simp

lemma demo_plan:
  "ensureConnected_plan (normalizeConfig demo_config) demo_client = DialWith (normalizeConfig demo_config) 0"
  by code_simp

definition demo_connected :: client_sys where
  "demo_connected = \<lparr>cy_client = snd (ensureConnected_install (normalizeConfig demo_config) 0 10 (Inr 1) demo_client), cy_phase = Idle\<rparr>"

lemma session_matches_config_witness:
  "cl_session (cy_client demo_connected) = Some \<lparr>se_ID = 1, se_Config = cl_cfg (cy_client demo_connected)\<rparr>"
proof -
  let ?s0 = "\<lparr>cy_client = demo_client, cy_phase = Idle\<rparr>"
  let ?s1 = "\<lparr>cy_client = demo_client, cy_phase = Dialing (normalizeConfig demo_config) 0\<rparr>"
  have "client_reachable demo_deps (\<lambda>e. []) ?s0" by (rule client_reachable.start [OF demo_client_new])
  moreover have "client_step demo_deps (\<lambda>e. []) ?s0 ?s1"
    using client_step.step_dial [of ?s0 "normalizeConfig demo_config" "normalizeConfig demo_config" 0] demo_plan by simp
  ultimately have "client_reachable demo_deps (\<lambda>e. []) ?s1" by (rule client_reachable.more)
  moreover have "client_step demo_deps (\<lambda>e. []) ?s1 demo_connected"
    using client_step.step_dialed [of ?s1 "normalizeConfig demo_config" 0 demo_deps "\<lambda>e. []" 10 "Inr 1"]
    by (simp add: demo_connected_def)
  ultimately have r: "client_reachable demo_deps (\<lambda>e. []) demo_connected" by (rule client_reachable.more)
  have s: "cl_session (cy_client demo_connected) = Some \<lparr>se_ID = 1, se_Config = normalizeConfig demo_config\<rparr>" by code_simp
  show ?thesis using session_matches_config [OF r s] s by simp
qed

lemma newline_is_space: "is_space newline" "is_space CHR 0x0D"
  by (simp_all add: is_space_def)

lemma one_line_chars: "c \<in> set (one_line s) \<Longrightarrow> c = CHR '' '' \<or> \<not> is_space c"
  unfolding one_line_def using set_join [of c "'' ''" "str_fields s"] str_fields_clean by fastforce

lemma set_truncate_runes: "c \<in> set (truncate_runes s n) \<Longrightarrow> c \<in> set s"
  using prefix_truncate_runes [of s n] set_mono_prefix by blast

lemma sanitizeText_chars: "c \<in> set (sanitizeText s n) \<Longrightarrow> c = CHR '' '' \<or> \<not> is_space c"
  unfolding sanitizeText_def by (drule set_truncate_runes) (rule one_line_chars)

lemma no_newline:
  assumes "\<And>c. c \<in> set s \<Longrightarrow> c = CHR '' '' \<or> \<not> is_space c"
  shows "newline \<notin> set s" "CHR 0x0D \<notin> set s"
  using assms newline_is_space by fastforce+

lemma name_char_not_break: "\<not> name_char newline" "\<not> name_char CHR 0x0D" "\<not> name_char CHR '' ''"
  by (simp_all add: name_char_def)

lemma ValidProtocolName_chars: "ValidProtocolName s \<Longrightarrow> newline \<notin> set s \<and> CHR 0x0D \<notin> set s \<and> CHR '' '' \<notin> set s"
  using name_char_not_break by (auto simp: ValidProtocolName_def list_all_iff)

text \<open>No command injection. An ALERT that passes Send's checks is exactly one protocol line,
  whatever the caller put into the text: its only newline is the terminator, it holds no carriage
  return, the status is one of the three known words, the object one protocol name, and the text
  at most 512 characters long.
\<close>

theorem Send_is_one_line:
  assumes "Send_prepare dp status object txt c = Inr line"
  shows "newline \<notin> set line \<and> CHR 0x0D \<notin> set line
    \<and> (\<exists>st ob tx. line = ''ALERT '' @ st @ '' '' @ ob @ (if tx \<noteq> [] then '' '' @ tx else [])
         \<and> st \<in> {''CRITICAL'', ''WARNING'', ''OK''} \<and> ValidProtocolName ob \<and> rune_count tx \<le> 512)"
proof -
  let ?st = "to_upper (trim_space status)" and ?ob = "trim_space object" and ?tx = "sanitizeText txt maxAlertText"
  from assms have st: "?st \<in> {''CRITICAL'', ''WARNING'', ''OK''}" and ob: "ValidProtocolName ?ob"
    and line: "line = alert_line ?st ?ob ?tx"
    by (auto simp: Send_prepare_def Let_def split: if_splits option.splits)
  have tx: "newline \<notin> set ?tx" "CHR 0x0D \<notin> set ?tx" "rune_count ?tx \<le> 512"
    by (rule no_newline; rule sanitizeText_chars; assumption)+ (simp add: sanitizeText_def)
  have "newline \<notin> set ?st \<and> CHR 0x0D \<notin> set ?st" using st by auto
  then have "newline \<notin> set line \<and> CHR 0x0D \<notin> set line"
    using tx ValidProtocolName_chars [OF ob] by (simp add: line alert_line_def)
  then show ?thesis using st ob tx(3) line unfolding alert_line_def by blast
qed

lemma Send_is_one_line_witness:
  "newline \<notin> set (''ALERT OK device_7 up QUIT'')
   \<and> Send_prepare demo_deps '' ok'' ''device_7'' (''up'' @ [newline] @ ''QUIT'') demo_client = Inr ''ALERT OK device_7 up QUIT''"
proof -
  have run: "Send_prepare demo_deps '' ok'' ''device_7'' (''up'' @ [newline] @ ''QUIT'') demo_client = Inr ''ALERT OK device_7 up QUIT''"
    by code_simp
  show ?thesis using Send_is_one_line [OF run] run by simp
qed

lemma read_line_terminated:
  assumes "newline \<notin> set l" and "length l < maxReplyBytes"
  shows "read_line (l @ newline # rest) = Inr (l, rest)"
proof -
  have tw: "takeWhile (\<lambda>c. c \<noteq> newline) (l @ newline # rest) = l"
    using assms(1) by (subst takeWhile_append2) auto
  show ?thesis using assms(2) by (simp add: read_line_def tw Let_def)
qed

text \<open>Replies are read back. A reply line the server may send (a code between 100 and 999, then
  optionally a space and a message, ended by LF or CRLF) is parsed to that code and the trimmed
  message, and the bytes after it are left for the next reply.
\<close>

theorem readReply_roundtrip:
  assumes "100 \<le> code" and "code \<le> 999" and "newline \<notin> set msg" and "length msg \<le> 4000"
    and "cr = [] \<and> \<not> suffix [CHR 0x0D] msg \<or> cr = [CHR 0x0D]"
  shows "readReply (nat_str code @ '' '' @ msg @ cr @ [newline] @ rest) = Inr ((int code, trim_space msg), rest)"
proof -
  have three: "length (nat_str code) = 3"
  proof -
    have "\<not> code < 10" "\<not> code div 10 < 10" "code div 10 div 10 < 10" using assms(1,2) by auto
    then show ?thesis by (simp add: nat_str.simps)
  qed
  have digits: "newline \<notin> set (nat_str code)"
    using nat_str_digits [of newline code] by (auto simp: is_digit_def)
  let ?line = "nat_str code @ '' '' @ msg @ cr"
  have nl: "newline \<notin> set ?line" using digits assms(3,5) by auto
  have rl: "read_line (?line @ newline # rest) = Inr (?line, rest)"
    by (rule read_line_terminated [OF nl]) (use three assms(4,5) in auto)
  have shape: "nat_str code @ '' '' @ msg @ cr @ [newline] @ rest = ?line @ newline # rest" by simp
  have "trim_suffix ?line [CHR 0x0D] = nat_str code @ '' '' @ msg"
  proof (cases "cr = []")
    case True
    then have "\<not> suffix [CHR 0x0D] msg" using assms(5) by auto
    then have "\<not> suffix [CHR 0x0D] (nat_str code @ '' '' @ msg)"
      by (cases msg rule: rev_cases) (auto simp: suffix_def)
    then show ?thesis using True by (simp add: trim_suffix_def)
  next
    case False
    then have "cr = [CHR 0x0D]" using assms(5) by blast
    then show ?thesis by (simp add: trim_suffix_def suffix_def)
  qed
  then have "parse_reply ?line = Inr (int code, trim_space msg)"
    using three atoi_nat_str [of code] assms(2)
    by (auto simp: parse_reply_def Let_def nth_append)
  then show ?thesis unfolding shape readReply_def rl by simp
qed

lemma readReply_roundtrip_witness:
  "readReply (nat_str 444 @ '' '' @ ''no such object'' @ [CHR 0x0D] @ [newline] @ ''333 ok'') = Inr ((444, ''no such object''), ''333 ok'')"
proof -
  have "trim_space ''no such object'' = ''no such object''" by code_simp
  then show ?thesis
    using readReply_roundtrip [of 444 "''no such object''" "[CHR 0x0D]" "''333 ok''"] by simp
qed

end
