(* ===== verification/AlertManager.thy ===== *)
theory AlertManager imports NotificationOutbox SysmonClient begin

text \<open>
  The alert manager (src/internal/alerting/manager.go): its in-memory rules, evaluation states and
  cooldown clocks beside the durable tables, and every operation on them: loading, evaluation,
  triggering, resolving, rule and alert administration. A database call that fails (the fault
  oracle) leaves the tables alone and the operation returns where the code returns. Operations are
  whole here; section "Reload in two halves" splits the one whose halves a trigger can fall between.
\<close>

section \<open>State\<close>

record AlertState =
  as_RuleID :: int
  as_DeviceID :: int
  as_FirstTriggeredAt :: time
  as_LastValue :: f64
  as_Notified :: bool

record SMTPConfig =
  sm_Host :: string
  sm_Port :: int
  sm_Username :: string
  sm_Password :: string
  sm_From :: string

text \<open>\<open>mg_wakes\<close> counts the tokens in the notification channel, whose capacity is five.\<close>

record manager =
  mg_rules :: "rule list"
  mg_states :: "(string, AlertState) gomap"
  mg_lastNotified :: "(string, time) gomap"
  mg_smtpConfig :: "SMTPConfig option"
  mg_sysmonClient :: Client
  mg_wakes :: nat

text \<open>The running system: the manager, the database, the settings table.\<close>

record sys =
  sy_mgr :: manager
  sy_db :: alert_db
  sy_settings :: "(string, string) gomap"

text \<open>Code outside the repository that the manager calls.\<close>

record ext =
  x_parse_address :: "string \<Rightarrow> string option"
  x_validate_url :: "string \<Rightarrow> webhook_error option"
  x_decrypt :: "string \<Rightarrow> string option"
  x_deps :: deps
  x_rnd :: "rat \<Rightarrow> rat"

text \<open>One call's failing statements and clocks: Go's \<open>time.Now\<close> and the database's \<open>NOW()\<close>.\<close>

record env =
  en_fault :: fault
  en_now :: time
  en_dbnow :: time

definition generalNotificationWorkers :: nat where
  "generalNotificationWorkers = 3"

definition wakeNotificationWorker :: "manager \<Rightarrow> manager" where
  "wakeNotificationWorker m =
     (if mg_wakes m < generalNotificationWorkers + 2 then m\<lparr>mg_wakes := mg_wakes m + 1\<rparr> else m)"

definition wake_if :: "bool \<Rightarrow> manager \<Rightarrow> manager" where
  "wake_if enqueued m = (if enqueued then wakeNotificationWorker m else m)"

definition stateKey :: "int \<Rightarrow> int \<Rightarrow> string" where
  "stateKey ruleID deviceID = int_str ruleID @ '':'' @ int_str deviceID"

section \<open>Loading\<close>

definition scan_rule :: "rule_row \<Rightarrow> rule" where
  "scan_rule row = normalizeRule ((rr_Rule row)\<lparr>r_CreatedAt := 0, r_CreatedBy := 0\<rparr>)"

definition rule_valid :: "ext \<Rightarrow> rule \<Rightarrow> bool" where
  "rule_valid x r = (case ValidateRule (x_parse_address x) (x_validate_url x) (Some r) of Inl _ \<Rightarrow> False | Inr _ \<Rightarrow> True)"

definition disable_rule :: "time \<Rightarrow> int \<Rightarrow> alert_db \<Rightarrow> alert_db" where
  "disable_rule dbnow i db = db\<lparr>db_rules :=
     update_where (\<lambda>row. r_ID (rr_Rule row) = i \<and> r_Enabled (rr_Rule row))
       (\<lambda>row. row\<lparr>rr_Rule := (rr_Rule row)\<lparr>r_Enabled := False\<rparr>, rr_UpdatedAt := dbnow\<rparr>) (db_rules db)\<rparr>"

definition enabled_rules :: "alert_db \<Rightarrow> rule list" where
  "enabled_rules db = map scan_rule (sort_key (\<lambda>row. r_ID (rr_Rule row)) (filter (\<lambda>row. r_Enabled (rr_Rule row)) (db_rules db)))"

definition loadRules :: "ext \<Rightarrow> env \<Rightarrow> alert_db \<Rightarrow> alert_error + rule list \<times> alert_db" where
  "loadRules x e db =
     stmt (en_fault e) LoadRules
     (let rs = enabled_rules db; rules = filter (rule_valid x) rs; invalid = filter (\<lambda>r. \<not> rule_valid x r) rs in
      if invalid = [] then Inr (rules, db)
      else stmt (en_fault e) BeginTx
        (case try_fold (\<lambda>r d. stmt (en_fault e) (DisableRule (r_ID r)) (Inr (disable_rule (en_dbnow e) (r_ID r) d))) invalid db of
           Inl err \<Rightarrow> Inl err
         | Inr db1 \<Rightarrow> stmt (en_fault e) CommitTx (Inr (rules, db1))))"

definition rule_enabled :: "alert_db \<Rightarrow> int \<Rightarrow> bool" where
  "rule_enabled db i \<longleftrightarrow> list_ex (\<lambda>row. r_ID (rr_Rule row) = i \<and> r_Enabled (rr_Rule row)) (db_rules db)"

definition load_state :: "state_row \<Rightarrow> AlertState" where
  "load_state s = \<lparr>as_RuleID = st_RuleID s, as_DeviceID = st_DeviceID s, as_FirstTriggeredAt = st_FirstTriggeredAt s,
     as_LastValue = st_LastValue s, as_Notified = st_Notified s\<rparr>"

definition loadStates :: "env \<Rightarrow> alert_db \<Rightarrow> alert_error + (string, AlertState) gomap" where
  "loadStates e db =
     stmt (en_fault e) LoadStates
       (Inr (foldl (\<lambda>m s. AList.update (stateKey (st_RuleID s) (st_DeviceID s)) (load_state s) m) []
               (filter (\<lambda>s. rule_enabled db (st_RuleID s)) (db_states db))))"

text \<open>GROUP BY rule and device with MAX: the running maximum per key.\<close>

definition latest_step :: "alert_db \<Rightarrow> (string, time) gomap \<Rightarrow> alert \<Rightarrow> (string, time) gomap" where
  "latest_step db m a =
     (case al_RuleID a of None \<Rightarrow> m
      | Some rid \<Rightarrow> (case get_rule_row db rid of None \<Rightarrow> m
         | Some row \<Rightarrow> if rr_UpdatedAt row \<le> al_TriggeredAt a
             then (let k = stateKey rid (al_DeviceID a) in
                   AList.update k (case map_of m k of None \<Rightarrow> al_TriggeredAt a | Some t \<Rightarrow> max t (al_TriggeredAt a)) m)
             else m))"

definition loadLastNotified :: "env \<Rightarrow> alert_db \<Rightarrow> alert_error + (string, time) gomap" where
  "loadLastNotified e db = stmt (en_fault e) LoadLast (Inr (foldl (latest_step db) [] (db_alerts db)))"

text \<open>\<open>fmt.Sscanf(s, "%d", ...)\<close>: leading blanks, a sign, digits; what follows is ignored.\<close>

definition sscanf_d :: "string \<Rightarrow> int option" where
  "sscanf_d s =
     (let t = dropWhile (\<lambda>c. is_space c \<and> c \<noteq> newline) s;
          sgn = (if prefix ''-'' t \<or> prefix ''+'' t then take 1 t else []);
          ds = takeWhile is_digit (drop (length sgn) t)
      in atoi (sgn @ ds))"

definition setting :: "(string, string) gomap \<Rightarrow> string \<Rightarrow> string" where
  "setting m k = get_str m k"

definition secret_setting :: "ext \<Rightarrow> (string, string) gomap \<Rightarrow> string \<Rightarrow> string option" where
  "secret_setting x m k = (let v = setting m k in if v = [] then Some [] else x_decrypt x v)"

datatype config_load = ConfigDB | DecryptFailed string | InvalidPort string

definition loadSMTPConfig :: "ext \<Rightarrow> env \<Rightarrow> (string, string) gomap \<Rightarrow> config_load + SMTPConfig option" where
  "loadSMTPConfig x e m =
     (if en_fault e LoadConfig then Inl ConfigDB
      else (case secret_setting x m ''smtp_password'' of
        None \<Rightarrow> Inl (DecryptFailed ''smtp_password'')
      | Some password \<Rightarrow>
          if trim_space (setting m ''smtp_host'') = [] then Inr None
          else (case sscanf_d (setting m ''smtp_port'') of
                  None \<Rightarrow> Inl (InvalidPort (setting m ''smtp_port''))
                | Some port \<Rightarrow>
                    if port < 1 \<or> port > 65535 then Inl (InvalidPort (setting m ''smtp_port''))
                    else Inr (Some \<lparr>sm_Host = trim_space (setting m ''smtp_host''), sm_Port = port,
                                    sm_Username = setting m ''smtp_username'', sm_Password = password,
                                    sm_From = trim_space (setting m ''smtp_from'')\<rparr>))))"

definition loadSysmonConfig :: "ext \<Rightarrow> env \<Rightarrow> (string, string) gomap \<Rightarrow> config_load + Config" where
  "loadSysmonConfig x e m =
     (if en_fault e LoadConfig then Inl ConfigDB
      else (case secret_setting x m ''sysmon_alerter_token'' of
        None \<Rightarrow> Inl (DecryptFailed ''sysmon_alerter_token'')
      | Some token \<Rightarrow>
          (let raw = trim_space (setting m ''sysmon_alerter_port'');
               port = (if raw = [] then Some DefaultPort
                       else (case sscanf_d raw of None \<Rightarrow> None
                             | Some p \<Rightarrow> if p < 1 \<or> p > 65535 then None else Some p))
           in case port of None \<Rightarrow> Inl (InvalidPort raw)
              | Some p \<Rightarrow> Inr \<lparr>sc_Enabled = equal_fold (trim_space (setting m ''sysmon_alerter_enabled'')) ''true'',
                  sc_Host = setting m ''sysmon_alerter_host'', sc_Port = p, sc_Name = setting m ''sysmon_alerter_name'',
                  sc_Token = token, sc_Application = setting m ''sysmon_alerter_application'',
                  sc_CAPEM = setting m ''sysmon_alerter_ca_pem''\<rparr>)))"

datatype reload_error = LoadFailed alert_error | ConfigFailed config_load | SysmonInvalid config_error

text \<open>What Reload has read when it takes the lock, and the rules it may have disabled on the way.\<close>

record snapshot =
  sn_rules :: "rule list"
  sn_states :: "(string, AlertState) gomap"
  sn_last :: "(string, time) gomap"
  sn_smtp :: "SMTPConfig option"

definition Reload_load :: "ext \<Rightarrow> env \<Rightarrow> sys \<Rightarrow> (reload_error + snapshot) \<times> sys" where
  "Reload_load x e s =
     (case loadRules x e (sy_db s) of Inl err \<Rightarrow> (Inl (LoadFailed err), s)
      | Inr (rules, db1) \<Rightarrow>
        (let s1 = s\<lparr>sy_db := db1\<rparr> in
         case loadStates e db1 of Inl err \<Rightarrow> (Inl (LoadFailed err), s1)
         | Inr states \<Rightarrow> (case loadLastNotified e db1 of Inl err \<Rightarrow> (Inl (LoadFailed err), s1)
         | Inr lastn \<Rightarrow> (case loadSMTPConfig x e (sy_settings s1) of Inl err \<Rightarrow> (Inl (ConfigFailed err), s1)
         | Inr smtp \<Rightarrow> (case loadSysmonConfig x e (sy_settings s1) of Inl err \<Rightarrow> (Inl (ConfigFailed err), s1)
         | Inr sysmon \<Rightarrow>
             (case UpdateConfig (x_deps x) sysmon (mg_sysmonClient (sy_mgr s1)) of
                (Some err, _) \<Rightarrow> (Inl (SysmonInvalid err), s1)
              | (None, client) \<Rightarrow>
                  (Inr \<lparr>sn_rules = rules, sn_states = states, sn_last = lastn, sn_smtp = smtp\<rparr>,
                   s1\<lparr>sy_mgr := (sy_mgr s1)\<lparr>mg_sysmonClient := client\<rparr>\<rparr>)))))))"

definition Reload_install :: "snapshot \<Rightarrow> sys \<Rightarrow> sys" where
  "Reload_install sn s = s\<lparr>sy_mgr := (sy_mgr s)\<lparr>mg_rules := sn_rules sn, mg_states := sn_states sn,
     mg_lastNotified := sn_last sn, mg_smtpConfig := sn_smtp sn\<rparr>\<rparr>"

definition Reload :: "ext \<Rightarrow> env \<Rightarrow> sys \<Rightarrow> reload_error option \<times> sys" where
  "Reload x e s =
     (case Reload_load x e s of (Inl err, s1) \<Rightarrow> (Some err, s1) | (Inr sn, s1) \<Rightarrow> (None, Reload_install sn s1))"

section \<open>Triggering\<close>

definition upsert_state :: "time \<Rightarrow> int \<Rightarrow> int \<Rightarrow> time \<Rightarrow> f64 \<Rightarrow> alert_db \<Rightarrow> alert_db" where
  "upsert_state dbnow rid did now value db =
     (let row = \<lparr>st_RuleID = rid, st_DeviceID = did, st_FirstTriggeredAt = now, st_LastValue = value,
                 st_LastCheckedAt = dbnow, st_Notified = False\<rparr>;
          P = (\<lambda>s. st_RuleID s = rid \<and> st_DeviceID s = did)
      in db\<lparr>db_states := (if list_ex P (db_states db) then update_where P (\<lambda>_. row) (db_states db) else db_states db @ [row])\<rparr>)"

definition touch_state :: "time \<Rightarrow> int \<Rightarrow> int \<Rightarrow> f64 \<Rightarrow> (bool \<Rightarrow> bool) \<Rightarrow> alert_db \<Rightarrow> alert_db" where
  "touch_state dbnow rid did value notified db = db\<lparr>db_states :=
     update_where (\<lambda>s. st_RuleID s = rid \<and> st_DeviceID s = did)
       (\<lambda>s. s\<lparr>st_LastValue := value, st_LastCheckedAt := dbnow, st_Notified := notified (st_Notified s)\<rparr>) (db_states db)\<rparr>"

definition fk_ok :: "alert_db \<Rightarrow> int \<Rightarrow> int \<Rightarrow> bool" where
  "fk_ok db rid did \<longleftrightarrow> get_rule_row db rid \<noteq> None \<and> get_device db did \<noteq> None"

definition persist_state :: "env \<Rightarrow> bool \<Rightarrow> int \<Rightarrow> int \<Rightarrow> time \<Rightarrow> f64 \<Rightarrow> alert_db \<Rightarrow> alert_error + alert_db" where
  "persist_state e existing rid did now value db =
     (if \<not> existing then stmt (en_fault e) InsertState
        (if \<not> fk_ok db rid did then Inl ForeignKey else Inr (upsert_state (en_dbnow e) rid did now value db))
      else stmt (en_fault e) TouchState (Inr (touch_state (en_dbnow e) rid did value (\<lambda>b. b) db)))"

definition enqueue_trigger :: "env \<Rightarrow> int \<Rightarrow> notificationPayload \<Rightarrow> string \<Rightarrow> alert_db \<Rightarrow> alert_error + alert_db" where
  "enqueue_trigger e alertID payload channel db =
     stmt (en_fault e) (EnqueueTrigger channel)
       (Inr (if (alertID, channel, EvTriggered) \<in> outbox_key ` set (db_outbox db) then db\<lparr>db_outbox_seq := db_outbox_seq db + 1\<rparr>
             else db\<lparr>db_outbox := db_outbox db @ [new_outbox_row db (en_dbnow e) alertID channel EvTriggered payload],
                     db_outbox_seq := db_outbox_seq db + 1\<rparr>))"

definition new_alert :: "int \<Rightarrow> rule \<Rightarrow> device_stats \<Rightarrow> f64 \<Rightarrow> time \<Rightarrow> alert" where
  "new_alert i r ds value trig = \<lparr>al_ID = i, al_RuleID = Some (r_ID r), al_DeviceID = ds_DeviceID ds, al_Metric = r_Metric r,
     al_Value = value, al_Threshold = r_Threshold r, al_Message = formatAlertMessage r ds value,
     al_Severity = determineSeverity r value, al_Status = Active, al_TriggeredAt = trig, al_AcknowledgedAt = None,
     al_AcknowledgedBy = None, al_ResolvedAt = None, al_NotifiedAt = None, al_NotifyError = None,
     al_RecoveryNotifiedAt = None, al_RecoveryNotifyError = None\<rparr>"

definition stats_device :: "device_stats \<Rightarrow> notificationDevice" where
  "stats_device ds = \<lparr>nd_ID = ds_DeviceID ds, nd_SiteID = ds_SiteID ds, nd_IP = ds_IP ds, nd_MAC = ds_MAC ds, nd_Hostname = ds_Hostname ds\<rparr>"

text \<open>The transaction that opens an occurrence: the alert, one outbox row per channel, the state.\<close>

definition open_alert_tx :: "env \<Rightarrow> rule \<Rightarrow> device_stats \<Rightarrow> f64 \<Rightarrow> time \<Rightarrow> alert_db \<Rightarrow> alert_error + alert_db" where
  "open_alert_tx e r ds value now db =
     stmt (en_fault e) BeginTx (stmt (en_fault e) InsertAlert
     (if \<not> fk_ok db (r_ID r) (ds_DeviceID ds) then Inl ForeignKey
      else
        (let i = db_alert_seq db;
             row = (new_alert i r ds value (en_dbnow e))\<lparr>al_NotifiedAt := (if r_NotifyChannels r = [] then Some (en_dbnow e) else None)\<rparr>;
             payload = \<lparr>np_Event = ''triggered'', np_Rule = r, np_Alert = new_alert i r ds value now, np_Device = stats_device ds, np_ClearReason = []\<rparr>;
             db1 = db\<lparr>db_alerts := db_alerts db @ [row], db_alert_seq := i + 1\<rparr>
         in case try_fold (enqueue_trigger e i payload) (uniqueChannels (r_NotifyChannels r)) db1 of
              Inl err \<Rightarrow> Inl err
            | Inr db2 \<Rightarrow> stmt (en_fault e) MarkNotified (stmt (en_fault e) CommitTx
                (Inr (touch_state (en_dbnow e) (r_ID r) (ds_DeviceID ds) value (\<lambda>_. True) db2))))))"

definition set_states :: "((string, AlertState) gomap \<Rightarrow> (string, AlertState) gomap) \<Rightarrow> manager \<Rightarrow> manager" where
  "set_states f m = m\<lparr>mg_states := f (mg_states m)\<rparr>"

definition cooling :: "manager \<Rightarrow> string \<Rightarrow> rule \<Rightarrow> time \<Rightarrow> bool" where
  "cooling m key r now = (case map_of (mg_lastNotified m) key of None \<Rightarrow> False | Some t \<Rightarrow> now - t < r_CooldownSeconds r * second)"

text \<open>json.Marshal refuses a NaN or an infinity, so such a value never opens an alert.\<close>

definition handleTriggered :: "env \<Rightarrow> rule \<Rightarrow> device_stats \<Rightarrow> f64 \<Rightarrow> time \<Rightarrow> sys \<Rightarrow> sys" where
  "handleTriggered e r ds value now s =
     (let m = sy_mgr s; rid = r_ID r; did = ds_DeviceID ds; key = stateKey rid did;
          old = map_of (mg_states m) key;
          state = (case old of Some st \<Rightarrow> st | None \<Rightarrow>
                     \<lparr>as_RuleID = rid, as_DeviceID = did, as_FirstTriggeredAt = now, as_LastValue = value, as_Notified = False\<rparr>)
                  \<lparr>as_LastValue := value\<rparr>;
          m1 = set_states (AList.update key state) m
      in case persist_state e (old \<noteq> None) rid did now value (sy_db s) of
           Inl _ \<Rightarrow> s\<lparr>sy_mgr := (if old = None then set_states (AList.delete key) m1 else m1)\<rparr>
         | Inr db1 \<Rightarrow>
             (let s1 = s\<lparr>sy_mgr := m1, sy_db := db1\<rparr> in
              if now - as_FirstTriggeredAt state < r_DurationSeconds r * second \<or> as_Notified state then s1
              else if cooling m key r now then s1
              else if \<not> finite_f64 value then s1
              else (case open_alert_tx e r ds value now db1 of
                      Inl _ \<Rightarrow> s1
                    | Inr db2 \<Rightarrow> s1\<lparr>sy_db := db2,
                        sy_mgr := wakeNotificationWorker
                          ((set_states (AList.update key (state\<lparr>as_Notified := True\<rparr>)) m1)\<lparr>mg_lastNotified := AList.update key now (mg_lastNotified m1)\<rparr>)\<rparr>)))"

section \<open>Resolving\<close>

definition delete_states :: "(state_row \<Rightarrow> bool) \<Rightarrow> alert_db \<Rightarrow> alert_db" where
  "delete_states P db = db\<lparr>db_states := delete_where P (db_states db)\<rparr>"

definition is_state_of :: "int \<Rightarrow> int \<Rightarrow> state_row \<Rightarrow> bool" where
  "is_state_of rid did st \<longleftrightarrow> st_RuleID st = rid \<and> st_DeviceID st = did"

definition handleResolved_tx :: "env \<Rightarrow> bool \<Rightarrow> rule \<Rightarrow> int \<Rightarrow> string \<Rightarrow> alert_db \<Rightarrow> alert_error + bool \<times> alert_db" where
  "handleResolved_tx e notified r did reason db =
     stmt (en_fault e) BeginTx
     (case (if notified then resolveRuleDeviceAlertsTx (en_fault e) (en_now e) (en_dbnow e) r did reason db else Inr (False, db)) of
        Inl err \<Rightarrow> Inl err
      | Inr (enqueued, db1) \<Rightarrow> stmt (en_fault e) DeleteState (stmt (en_fault e) CommitTx
          (Inr (enqueued, delete_states (is_state_of (r_ID r) did) db1))))"

definition handleResolved :: "env \<Rightarrow> string \<Rightarrow> rule \<Rightarrow> int \<Rightarrow> string \<Rightarrow> sys \<Rightarrow> sys" where
  "handleResolved e key r did reason s =
     (case map_of (mg_states (sy_mgr s)) key of
        None \<Rightarrow> s
      | Some st \<Rightarrow>
         (case handleResolved_tx e (as_Notified st) r did reason (sy_db s) of
            Inl _ \<Rightarrow> s
          | Inr (enqueued, db1) \<Rightarrow> s\<lparr>sy_db := db1, sy_mgr := wake_if enqueued (set_states (AList.delete key) (sy_mgr s))\<rparr>))"

section \<open>Evaluation\<close>

definition policy_role :: "device_row \<Rightarrow> string" where
  "policy_role d =
     (let role = to_lower (trim_space (dv_Role d)) in
      if role \<noteq> ''ap'' \<and> role \<noteq> ''sta'' then (if dv_ParentID d \<noteq> None \<and> \<not> dv_Managed d then ''sta'' else ''ap'') else role)"

definition policy_of :: "device_row \<Rightarrow> deviceAlertPolicy" where
  "policy_of d = \<lparr>pol_DeviceID = dv_ID d, pol_Role = policy_role d, pol_Alertable = dv_Alertable d,
     pol_AlertSilencedUntil = dv_AlertSilencedUntil d, pol_CreatedAt = dv_CreatedAt d\<rparr>"

definition loadDeviceAlertPolicies :: "env \<Rightarrow> alert_db \<Rightarrow> alert_error + (int, deviceAlertPolicy) gomap" where
  "loadDeviceAlertPolicies e db =
     stmt (en_fault e) LoadPolicies (Inr (foldl (\<lambda>m d. AList.update (dv_ID d) (policy_of d) m) [] (db_devices db)))"

definition no_match_reason :: string where "no_match_reason = ''device no longer matches the rule scope or alert policy''"
definition no_metric_reason :: string where "no_metric_reason = ''metric is no longer available''"
definition gone_reason :: string where "gone_reason = ''device is no longer present in the monitored inventory''"

definition eval_device ::
  "ext \<Rightarrow> env \<Rightarrow> (int, deviceAlertPolicy) gomap \<Rightarrow> time \<Rightarrow> rule \<Rightarrow> device_stats \<Rightarrow> sys \<Rightarrow> sys" where
  "eval_device x e policies now r ds s =
     (if ds_DeviceID ds \<le> 0 then s
      else
        (let key = stateKey (r_ID r) (ds_DeviceID ds); resolve = (\<lambda>reason. handleResolved e key r (ds_DeviceID ds) reason s) in
         case map_of policies (ds_DeviceID ds) of
           None \<Rightarrow> resolve no_match_reason
         | Some policy \<Rightarrow>
             if \<not> ruleApplies r ds policy now then resolve no_match_reason
             else (case getMetricValue (x_rnd x) (r_Metric r) ds policy now of (value, ok) \<Rightarrow>
                   if \<not> ok then resolve no_metric_reason
                   else if evaluateCondition (r_Operator r) value (r_Threshold r) then handleTriggered e r ds value now s
                   else resolve (''condition returned to normal at '' @ fmt2 value))))"

definition stale_states :: "rule list \<Rightarrow> (int, deviceAlertPolicy) gomap \<Rightarrow> manager \<Rightarrow> AlertState list" where
  "stale_states rules policies m =
     filter (\<lambda>st. as_RuleID st \<notin> r_ID ` set rules \<or> \<not> has_key policies (as_DeviceID st)) (map snd (mg_states m))"

definition prune_state :: "(int \<Rightarrow> int \<Rightarrow> env) \<Rightarrow> rule list \<Rightarrow> AlertState \<Rightarrow> sys \<Rightarrow> sys" where
  "prune_state es rules st s =
     (case find (\<lambda>r. r_ID r = as_RuleID st) (rev rules) of
        None \<Rightarrow> s
      | Some r \<Rightarrow> handleResolved (es (as_RuleID st) (as_DeviceID st)) (stateKey (as_RuleID st) (as_DeviceID st)) r (as_DeviceID st) gone_reason s)"

text \<open>
  \<open>es k\<close> gives the failures and clocks of the handler call for a rule and a device, in the main
  pass (\<open>es 0\<close>) and in the pruning pass (\<open>es 1\<close>); \<open>e\<close> those of the policy query.
\<close>

definition Evaluate ::
  "ext \<Rightarrow> env \<Rightarrow> (nat \<Rightarrow> int \<Rightarrow> int \<Rightarrow> env) \<Rightarrow> device_stats list \<Rightarrow> time \<Rightarrow> sys \<Rightarrow> sys" where
  "Evaluate x e es allStats now s =
     (let rules = mg_rules (sy_mgr s) in
      if rules = [] then s
      else (case loadDeviceAlertPolicies e (sy_db s) of
        Inl _ \<Rightarrow> s
      | Inr policies \<Rightarrow>
         (let s1 = fold (\<lambda>r. fold (\<lambda>ds. eval_device x (es 0 (r_ID r) (ds_DeviceID ds)) policies now r ds) allStats) rules s
          in fold (prune_state (es 1) rules) (stale_states rules policies (sy_mgr s1)) s1)))"

section \<open>Administration\<close>

text \<open>The two ways memory forgets: by key prefix for a rule, by value or key suffix for a device.\<close>

definition clearRuleStateMemory :: "int \<Rightarrow> manager \<Rightarrow> manager" where
  "clearRuleStateMemory ruleID m =
     m\<lparr>mg_states := map_del_if (prefix (int_str ruleID @ '':'')) (mg_states m),
       mg_lastNotified := map_del_if (prefix (int_str ruleID @ '':'')) (mg_lastNotified m)\<rparr>"

definition ClearDeviceState :: "int \<Rightarrow> manager \<Rightarrow> manager" where
  "ClearDeviceState deviceID m =
     m\<lparr>mg_states := map_del_if (\<lambda>k. case map_of (mg_states m) k of Some st \<Rightarrow> as_DeviceID st = deviceID | None \<Rightarrow> False) (mg_states m),
       mg_lastNotified := map_del_if (suffix ('':'' @ int_str deviceID)) (mg_lastNotified m)\<rparr>"

definition resetRuleStateTx :: "env \<Rightarrow> rule \<Rightarrow> string \<Rightarrow> alert_db \<Rightarrow> alert_error + bool \<times> alert_db" where
  "resetRuleStateTx e r reason db =
     (case resolveRuleAlertsTx (en_fault e) (en_now e) (en_dbnow e) r reason db of
        Inl err \<Rightarrow> Inl err
      | Inr (enqueued, db1) \<Rightarrow> stmt (en_fault e) DeleteState
          (Inr (enqueued, delete_states (\<lambda>st. st_RuleID st = r_ID r) db1)))"

datatype op_error = AlertFailed alert_error | ReloadFailed reload_error

definition after_reload :: "reload_error option \<times> sys \<Rightarrow> op_error option \<times> sys" where
  "after_reload r = (map_option ReloadFailed (fst r), snd r)"

definition CreateRule :: "ext \<Rightarrow> env \<Rightarrow> rule \<Rightarrow> sys \<Rightarrow> int \<times> op_error option \<times> sys" where
  "CreateRule x e r s =
     (case ValidateRule (x_parse_address x) (x_validate_url x) (Some r) of
        Inl err \<Rightarrow> (0, Some (AlertFailed (InvalidRule err)), s)
      | Inr r1 \<Rightarrow>
          if en_fault e InsertRuleRow then (0, Some (AlertFailed (DbError InsertRuleRow)), s)
          else
            (let db = sy_db s; i = db_rule_seq db;
                 row = \<lparr>rr_Rule = r1\<lparr>r_ID := i, r_CreatedAt := en_dbnow e\<rparr>, rr_UpdatedAt = en_dbnow e\<rparr>;
                 s1 = s\<lparr>sy_db := db\<lparr>db_rules := db_rules db @ [row], db_rule_seq := i + 1\<rparr>\<rparr>
             in (i, after_reload (Reload x e s1))))"

definition GetRule :: "env \<Rightarrow> int \<Rightarrow> sys \<Rightarrow> alert_error + rule" where
  "GetRule e i s = stmt (en_fault e) (LoadRule i) (case getRuleTx (sy_db s) i of None \<Rightarrow> Inl ErrNotFound | Some r \<Rightarrow> Inr r)"

definition ListRules :: "env \<Rightarrow> sys \<Rightarrow> alert_error + rule list" where
  "ListRules e s = stmt (en_fault e) LoadRules
     (Inr (map (\<lambda>row. normalizeRule ((rr_Rule row)\<lparr>r_CreatedBy := 0\<rparr>)) (sort_key (\<lambda>row. r_Name (rr_Rule row)) (db_rules (sy_db s)))))"

definition update_rule_row :: "time \<Rightarrow> int \<Rightarrow> rule \<Rightarrow> alert_db \<Rightarrow> alert_db" where
  "update_rule_row dbnow i r db = db\<lparr>db_rules := update_where (\<lambda>row. r_ID (rr_Rule row) = i)
     (\<lambda>row. row\<lparr>rr_Rule := r\<lparr>r_ID := i, r_CreatedAt := r_CreatedAt (rr_Rule row), r_CreatedBy := r_CreatedBy (rr_Rule row)\<rparr>,
                rr_UpdatedAt := dbnow\<rparr>) (db_rules db)\<rparr>"

definition delete_rule_row :: "int \<Rightarrow> alert_db \<Rightarrow> alert_db" where
  "delete_rule_row i db = db\<lparr>db_rules := delete_where (\<lambda>row. r_ID (rr_Rule row) = i) (db_rules db),
     db_alerts := update_where (\<lambda>a. al_RuleID a = Some i) (\<lambda>a. a\<lparr>al_RuleID := None\<rparr>) (db_alerts db),
     db_states := delete_where (\<lambda>st. st_RuleID st = i) (db_states db)\<rparr>"

text \<open>The transaction UpdateRule and DeleteRule share, up to the statement on the rule's row.\<close>

definition change_rule_tx ::
  "env \<Rightarrow> int \<Rightarrow> string \<Rightarrow> db_site \<Rightarrow> (alert_db \<Rightarrow> alert_db) \<Rightarrow> alert_db \<Rightarrow> alert_error + bool \<times> alert_db" where
  "change_rule_tx e i reason site f db =
     stmt (en_fault e) BeginTx (stmt (en_fault e) LockRule
     (case get_rule_row db i of None \<Rightarrow> Inl ErrNotFound | Some _ \<Rightarrow>
      stmt (en_fault e) (LoadRule i)
      (case getRuleTx db i of None \<Rightarrow> Inl ErrNotFound | Some oldRule \<Rightarrow>
       (case resetRuleStateTx e oldRule reason db of
          Inl err \<Rightarrow> Inl err
        | Inr (enqueued, db1) \<Rightarrow> stmt (en_fault e) site (stmt (en_fault e) CommitTx (Inr (enqueued, f db1)))))))"

definition change_rule :: "ext \<Rightarrow> env \<Rightarrow> int \<Rightarrow> alert_error + bool \<times> alert_db \<Rightarrow> sys \<Rightarrow> op_error option \<times> sys" where
  "change_rule x e i tx s =
     (case tx of
        Inl err \<Rightarrow> (Some (AlertFailed err), s)
      | Inr (enqueued, db1) \<Rightarrow>
          after_reload (Reload x e (s\<lparr>sy_db := db1, sy_mgr := wake_if enqueued (clearRuleStateMemory i (sy_mgr s))\<rparr>)))"

definition UpdateRule :: "ext \<Rightarrow> env \<Rightarrow> int \<Rightarrow> rule \<Rightarrow> sys \<Rightarrow> op_error option \<times> sys" where
  "UpdateRule x e i r s =
     (case ValidateRule (x_parse_address x) (x_validate_url x) (Some r) of
        Inl err \<Rightarrow> (Some (AlertFailed (InvalidRule err)), s)
      | Inr r1 \<Rightarrow> change_rule x e i
          (change_rule_tx e i ''alert rule was changed or disabled'' UpdateRuleRow (update_rule_row (en_dbnow e) i r1) (sy_db s)) s)"

definition DeleteRule :: "ext \<Rightarrow> env \<Rightarrow> int \<Rightarrow> sys \<Rightarrow> op_error option \<times> sys" where
  "DeleteRule x e i s =
     change_rule x e i (change_rule_tx e i ''alert rule was deleted'' DeleteRuleRow (delete_rule_row i) (sy_db s)) s"

definition AcknowledgeAlert :: "env \<Rightarrow> int \<Rightarrow> int \<Rightarrow> sys \<Rightarrow> alert_error option \<times> sys" where
  "AcknowledgeAlert e alertID userID s =
     (let P = (\<lambda>a. al_ID a = alertID \<and> al_Status a = Active) in
      if en_fault e AckAlert then (Some (DbError AckAlert), s)
      else if \<not> list_ex P (db_alerts (sy_db s)) then (Some ErrNotFound, s)
      else (None, s\<lparr>sy_db := (sy_db s)\<lparr>db_alerts := update_where P
              (\<lambda>a. a\<lparr>al_Status := Acknowledged, al_AcknowledgedAt := Some (en_dbnow e), al_AcknowledgedBy := Some userID\<rparr>)
              (db_alerts (sy_db s))\<rparr>\<rparr>))"

definition ResolveAlert_tx :: "env \<Rightarrow> int \<Rightarrow> alert \<Rightarrow> alert_db \<Rightarrow> alert_error + bool \<times> alert_db" where
  "ResolveAlert_tx e alertID a db =
     (case (case al_RuleID a of None \<Rightarrow> Inr None | Some rid \<Rightarrow> stmt (en_fault e) (LoadRule rid) (Inr (getRuleTx db rid))) of
        Inl err \<Rightarrow> Inl err
      | Inr r \<Rightarrow>
         (case resolveAlertTx (en_fault e) (en_now e) (en_dbnow e) r alertID ''resolved manually by an operator'' db of
            Inl err \<Rightarrow> Inl err
          | Inr (enqueued, db1) \<Rightarrow>
              (case al_RuleID a of
                 None \<Rightarrow> stmt (en_fault e) CommitTx (Inr (enqueued, db1))
               | Some rid \<Rightarrow> stmt (en_fault e) DeleteState (stmt (en_fault e) CommitTx
                   (Inr (enqueued, delete_states (is_state_of rid (al_DeviceID a)) db1))))))"

definition ResolveAlert :: "env \<Rightarrow> int \<Rightarrow> sys \<Rightarrow> alert_error option \<times> sys" where
  "ResolveAlert e alertID s =
     (case stmt (en_fault e) BeginTx (stmt (en_fault e) (SelectAlert alertID)
             (case get_alert (sy_db s) alertID of None \<Rightarrow> Inl ErrNotFound
              | Some a \<Rightarrow> if \<not> open_alert a then Inl ErrNotFound
                          else map_sum id (\<lambda>r. (al_RuleID a, al_DeviceID a, r)) (ResolveAlert_tx e alertID a (sy_db s)))) of
        Inl err \<Rightarrow> (Some err, s)
      | Inr (rid, did, enqueued, db1) \<Rightarrow>
          (None, s\<lparr>sy_db := db1, sy_mgr := wake_if enqueued
             (case rid of None \<Rightarrow> sy_mgr s | Some i \<Rightarrow> set_states (AList.delete (stateKey i did)) (sy_mgr s))\<rparr>))"

definition ResolveDeviceAlerts_tx :: "env \<Rightarrow> int \<Rightarrow> string \<Rightarrow> alert_db \<Rightarrow> alert_error + bool \<times> alert_db" where
  "ResolveDeviceAlerts_tx e did reason db =
     stmt (en_fault e) BeginTx (stmt (en_fault e) SelectOpen
     (case try_fold (resolve_each (en_fault e) (en_now e) (en_dbnow e) None reason)
             (sort (map al_ID (filter (\<lambda>a. al_DeviceID a = did \<and> open_alert a) (db_alerts db)))) (False, db) of
        Inl err \<Rightarrow> Inl err
      | Inr (enqueued, db1) \<Rightarrow> stmt (en_fault e) DeleteState (stmt (en_fault e) CommitTx
          (Inr (enqueued, delete_states (\<lambda>st. st_DeviceID st = did) db1)))))"

definition ResolveDeviceAlerts :: "env \<Rightarrow> int \<Rightarrow> string \<Rightarrow> sys \<Rightarrow> alert_error option \<times> sys" where
  "ResolveDeviceAlerts e did reason s =
     (if did \<le> 0 then (Some InvalidDeviceID, s)
      else (case ResolveDeviceAlerts_tx e did reason (sy_db s) of
              Inl err \<Rightarrow> (Some err, s)
            | Inr (enqueued, db1) \<Rightarrow> (None, s\<lparr>sy_db := db1, sy_mgr := wake_if enqueued (ClearDeviceState did (sy_mgr s))\<rparr>)))"

definition emptyManager :: manager where
  "emptyManager = \<lparr>mg_rules = [], mg_states = [], mg_lastNotified = [], mg_smtpConfig = None,
     mg_sysmonClient = \<lparr>cl_cfg = normalizeConfig \<lparr>sc_Enabled = False, sc_Host = [], sc_Port = 0, sc_Name = [], sc_Token = [],
         sc_Application = [], sc_CAPEM = []\<rparr>, cl_generation = 0, cl_session = None, cl_lastError = [],
         cl_lastConnectedAt = 0, cl_lastActivityAt = 0, cl_lastTestAt = 0, cl_lastTestOK = False, cl_wake = False\<rparr>,
     mg_wakes = 0\<rparr>"

definition NewManager :: "ext \<Rightarrow> env \<Rightarrow> alert_db \<Rightarrow> (string, string) gomap \<Rightarrow> reload_error option \<times> sys" where
  "NewManager x e db settings = Reload x e \<lparr>sy_mgr = emptyManager, sy_db = db, sy_settings = settings\<rparr>"

end
