(* ===== verification/AlertSystem.thy ===== *)
theory AlertSystem imports AlertManager begin

text \<open>
  The alerting system as a whole: every operation of the manager, the notification workers and the
  device inventory as steps on one world, in any order and with any statement failing, and the
  invariants that hold in every reachable world. The tables are abstracted to the sets of open
  occurrences, evaluation states, rules and devices (the facts the occurrence argument is about).
\<close>

section \<open>Transactions that loop\<close>

text \<open>
  The contract of a loop over rows inside a transaction: a step keeps the invariant and moves the
  tables only forward. What holds for one row then holds for the loop.
\<close>

locale tx_loop =
  fixes I :: "'s \<Rightarrow> bool" and R :: "'s \<Rightarrow> 's \<Rightarrow> bool" and step :: "'a \<Rightarrow> 's \<Rightarrow> 'e + 's"
  assumes R_refl: "R s s"
    and R_trans: "R a b \<Longrightarrow> R b c \<Longrightarrow> R a c"
    and step_ok: "I s \<Longrightarrow> step x s = Inr s' \<Longrightarrow> I s' \<and> R s s'"
begin

lemma loop_ok: "try_fold step xs s = Inr s' \<Longrightarrow> I s \<Longrightarrow> I s' \<and> R s s'"
proof (induction xs arbitrary: s)
  case Nil
  then show ?case by (simp add: R_refl)
next
  case (Cons x xs)
  then obtain t where t: "step x s = Inr t" "try_fold step xs t = Inr s'" by (auto split: sum.splits)
  then have "I t \<and> R s t" using step_ok Cons.prems(2) by blast
  then show ?case using Cons.IH [OF t(2)] R_trans by blast
qed

end

section \<open>Keys\<close>

lemma append_sep_eq: "a @ c # b = a' @ c # b' \<Longrightarrow> c \<notin> set a \<Longrightarrow> c \<notin> set a' \<Longrightarrow> a = a' \<and> b = b'"
  by (induction a arbitrary: a') (case_tac a'; auto)+

lemma stateKey_inject [simp]: "stateKey r d = stateKey r' d' \<longleftrightarrow> r = r' \<and> d = d'"
  unfolding stateKey_def using append_sep_eq [of "int_str r" "CHR '':''" "int_str d" "int_str r'" "int_str d'"] by auto

lemma stateKey_prefix [simp]: "prefix (int_str r @ '':'') (stateKey r' d) \<longleftrightarrow> r' = r"
proof
  assume "prefix (int_str r @ '':'') (stateKey r' d)"
  then obtain zs where "int_str r' @ CHR '':'' # int_str d = int_str r @ CHR '':'' # zs"
    by (auto simp: stateKey_def prefix_def)
  from append_sep_eq [OF this] show "r' = r" by simp
qed (simp add: stateKey_def)

lemma append_sep_eq_last: "a @ c # b = a' @ c # b' \<Longrightarrow> c \<notin> set b \<Longrightarrow> c \<notin> set b' \<Longrightarrow> a = a' \<and> b = b'"
  using append_sep_eq [of "rev b" c "rev a" "rev b'" "rev a'"]
  by (metis append.assoc append_Cons append_Nil rev_append rev_rev_ident set_rev rev.simps(2))

lemma stateKey_suffix [simp]: "suffix ('':'' @ int_str d) (stateKey r d') \<longleftrightarrow> d' = d"
proof
  assume "suffix ('':'' @ int_str d) (stateKey r d')"
  then obtain zs where "int_str r @ CHR '':'' # int_str d' = zs @ CHR '':'' # int_str d"
    by (auto simp: stateKey_def suffix_def)
  from append_sep_eq_last [OF this] show "d' = d" by simp
qed (simp add: stateKey_def suffix_def)

section \<open>How the tables move\<close>

text \<open>Outbox rows are only updated in place, deleted, or added under ids never used before.\<close>

definition outbox_grows :: "alert_db \<Rightarrow> alert_db \<Rightarrow> bool" where
  "outbox_grows db db' \<longleftrightarrow> db_outbox_seq db \<le> db_outbox_seq db'
     \<and> (\<forall>r' \<in> set (db_outbox db'). db_outbox_seq db \<le> ob_ID r'
          \<or> (\<exists>r \<in> set (db_outbox db). ob_ID r = ob_ID r' \<and> outbox_key r = outbox_key r'))"

lemma outbox_grows_refl [simp]: "outbox_grows db db"
  by (auto simp: outbox_grows_def)

lemma outbox_grows_trans: "outbox_grows a b \<Longrightarrow> outbox_grows b c \<Longrightarrow> outbox_grows a c"
  unfolding outbox_grows_def by (metis order.trans)

lemma outbox_grows_items: "outbox_grows db db' \<Longrightarrow> item_matches db item \<Longrightarrow> item_matches db' item"
  unfolding outbox_grows_def item_matches_def by (metis order.strict_trans2 not_le)

lemma outbox_grows_same:
  "map (\<lambda>o1. (ob_ID o1, outbox_key o1)) (db_outbox db') = map (\<lambda>o1. (ob_ID o1, outbox_key o1)) (db_outbox db)
   \<Longrightarrow> db_outbox_seq db' = db_outbox_seq db \<Longrightarrow> outbox_grows db db'"
proof -
  assume eq: "map (\<lambda>o1. (ob_ID o1, outbox_key o1)) (db_outbox db') = map (\<lambda>o1. (ob_ID o1, outbox_key o1)) (db_outbox db)"
    and sq: "db_outbox_seq db' = db_outbox_seq db"
  have img: "(\<lambda>o1. (ob_ID o1, outbox_key o1)) ` set (db_outbox db') = (\<lambda>o1. (ob_ID o1, outbox_key o1)) ` set (db_outbox db)"
    using arg_cong [OF eq, of set] by simp
  have "\<exists>r \<in> set (db_outbox db). ob_ID r = ob_ID r' \<and> outbox_key r = outbox_key r'" if "r' \<in> set (db_outbox db')" for r'
  proof -
    have "(ob_ID r', outbox_key r') \<in> (\<lambda>o1. (ob_ID o1, outbox_key o1)) ` set (db_outbox db)"
      unfolding img [symmetric] using that by (rule imageI)
    then show ?thesis by (metis (no_types, lifting) imageE prod.inject)
  qed
  then show ?thesis unfolding outbox_grows_def sq by blast
qed

lemma worker_frame_grows: "worker_frame db db' \<Longrightarrow> outbox_grows db db'"
  by (rule outbox_grows_same) (simp_all add: worker_frame_def)

lemma upsert_recovery_grows: "outbox_grows db (upsert_recovery t i c p db)"
proof (cases "(i, c, EvResolved) \<in> outbox_key ` set (db_outbox db)")
  case True
  have "\<exists>r \<in> set (db_outbox db). ob_ID r = ob_ID r' \<and> outbox_key r = outbox_key r'"
    if "r' \<in> set (update_where (\<lambda>o1. outbox_key o1 = (i, c, EvResolved)) (refresh_recovery t p) (db_outbox db))" for r'
    using that unfolding in_update_where by (metis refresh_recovery_keeps)
  then show ?thesis using True unfolding outbox_grows_def upsert_recovery_def Let_def by simp
next
  case False
  then show ?thesis unfolding outbox_grows_def upsert_recovery_def Let_def by auto
qed

lemma close_rows_grows: "outbox_grows db (close_rows now t i db)"
  by (rule outbox_grows_same) (auto simp: close_rows_def kill_trigger_def outbox_key_def intro!: keys_update_where)

lemma recover_trigger_grows:
  "recover_trigger fault t r a dev reason tr s = Inr s' \<Longrightarrow> outbox_grows (snd s) (snd s')"
  using recover_trigger_Inr [of fault t r a dev reason tr "fst s" "snd s" "fst s'" "snd s'"]
  by (auto simp: upsert_recovery_grows split: if_splits)

interpretation recover_all: tx_loop "\<lambda>s. True" "\<lambda>s s'. outbox_grows (snd s) (snd s')"
  "recover_trigger fault t r a dev reason" for fault t r a dev reason
  by unfold_locales (auto dest: recover_trigger_grows outbox_grows_trans)

lemma resolveAlertTx_grows:
  assumes "resolveAlertTx fault now t rule i reason db = Inr (q, db')"
  shows "outbox_grows db db'"
proof -
  consider "db' = db"
    | r a dev ts where "try_fold (recover_trigger fault t r a dev reason) ts (False, close_rows now t i db) = Inr (q, db')"
    using assms by (auto simp: resolveAlertTx_def Let_def split: option.splits if_splits sum.splits)
  then show ?thesis
  proof cases
    case 2
    then show ?thesis using recover_all.loop_ok outbox_grows_trans [OF close_rows_grows] by fastforce
  qed simp
qed

text \<open>Closing alerts: keys of alerts stay, an alert open afterwards is untouched.\<close>

definition closes :: "alert_db \<Rightarrow> alert_db \<Rightarrow> bool" where
  "closes db db' \<longleftrightarrow> same_frame db db' \<and> outbox_grows db db'
     \<and> (\<forall>a \<in> set (db_alerts db'). open_alert a \<longrightarrow> a \<in> set (db_alerts db))"

lemma closes_refl [simp]: "closes db db"
  by (simp add: closes_def)

lemma closes_trans: "closes a b \<Longrightarrow> closes b c \<Longrightarrow> closes a c"
  unfolding closes_def using same_frame_trans outbox_grows_trans by blast

lemma not_open_closed [simp]: "\<not> open_alert (close_alert_row now a)"
  by (simp add: open_alert_def close_alert_row_def)

lemma resolveAlertTx_closes:
  assumes run: "resolveAlertTx fault now t rule i reason db = Inr (q, db')" and wf: "outbox_wf db"
  shows "outbox_wf db' \<and> closes db db' \<and> (\<forall>a \<in> set (db_alerts db'). al_ID a = i \<longrightarrow> \<not> open_alert a)"
proof -
  obtain a where a: "get_alert db i = Some a" and wf': "outbox_wf db'" and fr: "same_frame db db'"
    and alerts: "db_alerts db' = update_where (\<lambda>a. al_ID a = i \<and> al_Status a \<noteq> Resolved) (close_alert_row now) (db_alerts db)"
    by (rule resolveAlertTx_Inr [OF run wf])
  have "\<forall>a \<in> set (db_alerts db'). open_alert a \<longrightarrow> a \<in> set (db_alerts db)"
    and "\<forall>a \<in> set (db_alerts db'). al_ID a = i \<longrightarrow> \<not> open_alert a"
    unfolding alerts ball_update_where by (auto simp: open_alert_def close_alert_row_def)
  then show ?thesis using wf' fr resolveAlertTx_grows [OF run] by (simp add: closes_def)
qed

interpretation resolve_all: tx_loop "\<lambda>s. outbox_wf (snd s)" "\<lambda>s s'. closes (snd s) (snd s')"
  "resolve_each fault now t rule reason" for fault now t rule reason
  by unfold_locales (auto simp: resolve_each_def split: sum.splits dest: resolveAlertTx_closes closes_trans)

lemma resolve_loop_closed:
  "try_fold (resolve_each fault now t rule reason) ids s = Inr s' \<Longrightarrow> outbox_wf (snd s) \<Longrightarrow>
   \<forall>a \<in> set (db_alerts (snd s')). al_ID a \<in> set ids \<longrightarrow> \<not> open_alert a"
proof (induction ids arbitrary: s)
  case (Cons i ids)
  then obtain s1 where s1: "resolve_each fault now t rule reason i s = Inr s1"
    and rest: "try_fold (resolve_each fault now t rule reason) ids s1 = Inr s'" by (auto split: sum.splits)
  from s1 obtain q db1 where r: "resolveAlertTx fault now t rule i reason (snd s) = Inr (q, db1)" and db1: "snd s1 = db1"
    by (auto simp: resolve_each_def split: sum.splits)
  note one = resolveAlertTx_closes [OF r Cons.prems(2)]
  have c: "closes (snd s1) (snd s')" using resolve_all.loop_ok [OF rest] one db1 by blast
  have IH: "\<forall>a \<in> set (db_alerts (snd s')). al_ID a \<in> set ids \<longrightarrow> \<not> open_alert a"
    using Cons.IH [OF rest] one db1 by blast
  show ?case
  proof (intro ballI impI notI)
    fix a assume a: "a \<in> set (db_alerts (snd s'))" "al_ID a \<in> set (i # ids)" "open_alert a"
    then have "al_ID a = i" using IH by auto
    moreover have "a \<in> set (db_alerts db1)" using c a(1,3) db1 by (simp add: closes_def)
    ultimately show False using one a(3) by blast
  qed
qed simp

section \<open>The occurrence invariant\<close>

definition open_set :: "alert_db \<Rightarrow> (int \<times> int \<times> int) set" where
  "open_set db = {(al_ID a, rid, al_DeviceID a) |a rid. a \<in> set (db_alerts db) \<and> open_alert a \<and> al_RuleID a = Some rid}"

definition state_set :: "alert_db \<Rightarrow> (int \<times> int \<times> bool) set" where
  "state_set db = (\<lambda>st. (st_RuleID st, st_DeviceID st, st_Notified st)) ` set (db_states db)"

definition rule_ids :: "alert_db \<Rightarrow> int set" where
  "rule_ids db = (\<lambda>row. r_ID (rr_Rule row)) ` set (db_rules db)"

definition device_ids :: "alert_db \<Rightarrow> int set" where
  "device_ids db = dv_ID ` set (db_devices db)"

text \<open>
  \<open>M\<close>: ids of the rules in memory, \<open>S\<close>: the states in memory, \<open>A\<close>: open occurrences (alert, rule,
  device), \<open>St\<close>: state rows, \<open>Ru\<close>, \<open>De\<close>: existing rules and devices, \<open>rs\<close>, \<open>ds\<close>: the next ids.
\<close>

definition occ_inv ::
  "int set \<Rightarrow> (string \<Rightarrow> AlertState option) \<Rightarrow> (int \<times> int \<times> int) set \<Rightarrow> (int \<times> int \<times> bool) set
   \<Rightarrow> int set \<Rightarrow> int set \<Rightarrow> int \<Rightarrow> int \<Rightarrow> bool" where
  "occ_inv M S A St Ru De rs ds \<longleftrightarrow>
     (\<forall>i j r d. (i, r, d) \<in> A \<longrightarrow> (j, r, d) \<in> A \<longrightarrow> i = j)
     \<and> (\<forall>i r d. (i, r, d) \<in> A \<longrightarrow> r < rs)
     \<and> (\<forall>i r d. (i, r, d) \<in> A \<longrightarrow> (r, d, True) \<in> St \<and> (r, d, False) \<notin> St)
     \<and> (\<forall>i r d. (i, r, d) \<in> A \<longrightarrow> r \<in> M \<longrightarrow> (\<exists>ms. S (stateKey r d) = Some ms \<and> as_Notified ms))
     \<and> (\<forall>k ms. S k = Some ms \<longrightarrow> k = stateKey (as_RuleID ms) (as_DeviceID ms) \<and> as_RuleID ms < rs \<and> as_DeviceID ms < ds
          \<and> (as_RuleID ms \<in> Ru \<longrightarrow> as_DeviceID ms \<in> De \<longrightarrow> (\<exists>n. (as_RuleID ms, as_DeviceID ms, n) \<in> St)))
     \<and> (\<forall>r d n. (r, d, n) \<in> St \<longrightarrow> r < rs \<and> d < ds)
     \<and> (\<forall>r \<in> Ru. r < rs) \<and> (\<forall>d \<in> De. d < ds)"

lemma occ_invD:
  assumes "occ_inv M S A St Ru De rs ds"
  shows occ_unique: "(i, r, d) \<in> A \<Longrightarrow> (j, r, d) \<in> A \<Longrightarrow> i = j"
    and occ_rule: "(i, r, d) \<in> A \<Longrightarrow> r < rs"
    and occ_row: "(i, r, d) \<in> A \<Longrightarrow> (r, d, True) \<in> St" "(i, r, d) \<in> A \<Longrightarrow> (r, d, False) \<notin> St"
    and occ_mem: "(i, r, d) \<in> A \<Longrightarrow> r \<in> M \<Longrightarrow> \<exists>ms. S (stateKey r d) = Some ms \<and> as_Notified ms"
    and occ_key: "S k = Some ms \<Longrightarrow> k = stateKey (as_RuleID ms) (as_DeviceID ms)"
    and occ_bound: "S k = Some ms \<Longrightarrow> as_RuleID ms < rs \<and> as_DeviceID ms < ds"
    and occ_backed: "S k = Some ms \<Longrightarrow> as_RuleID ms \<in> Ru \<Longrightarrow> as_DeviceID ms \<in> De
          \<Longrightarrow> \<exists>n. (as_RuleID ms, as_DeviceID ms, n) \<in> St"
    and occ_st_bound: "(r, d, n) \<in> St \<Longrightarrow> r < rs \<and> d < ds"
    and occ_Ru: "r \<in> Ru \<Longrightarrow> r < rs" and occ_De: "d \<in> De \<Longrightarrow> d < ds"
  using assms unfolding occ_inv_def by blast+

text \<open>Closing: open occurrences shrink; the forgotten pairs have none left, in the table and in memory.\<close>

lemma occ_close:
  assumes inv: "occ_inv M S A St Ru De rs ds" and A': "A' \<subseteq> A"
    and St': "\<And>r d n. (r, d, n) \<in> St' \<longleftrightarrow> (r, d, n) \<in> St \<and> \<not> F r d"
    and gone: "\<And>i r d. (i, r, d) \<in> A' \<Longrightarrow> \<not> F r d"
    and S': "\<And>r d. S' (stateKey r d) = (if F r d then None else S (stateKey r d))"
    and S'': "\<And>k. S' k = S k \<or> S' k = None"
  shows "occ_inv M S' A' St' Ru De rs ds"
proof -
  have old: "S k = Some ms \<and> \<not> F (as_RuleID ms) (as_DeviceID ms)" if "S' k = Some ms" for k ms
  proof -
    have S: "S k = Some ms" using S'' [of k] that by auto
    have "k = stateKey (as_RuleID ms) (as_DeviceID ms)" by (rule occ_key [OF inv S])
    then show ?thesis using S S' [of "as_RuleID ms" "as_DeviceID ms"] that by (auto split: if_splits)
  qed
  show ?thesis
    unfolding occ_inv_def
  proof (intro conjI allI impI ballI)
    fix i j r d assume "(i, r, d) \<in> A'" "(j, r, d) \<in> A'" then show "i = j" using occ_unique [OF inv] A' by blast
  next
    fix i r d assume "(i, r, d) \<in> A'" then show "r < rs" using occ_rule [OF inv] A' by blast
  next
    fix i r d assume "(i, r, d) \<in> A'" then show "(r, d, True) \<in> St'" using occ_row [OF inv] A' St' gone by blast
  next
    fix i r d assume "(i, r, d) \<in> A'" then show "(r, d, False) \<notin> St'" using occ_row [OF inv] A' St' by blast
  next
    fix i r d assume a: "(i, r, d) \<in> A'" "r \<in> M"
    then show "\<exists>ms. S' (stateKey r d) = Some ms \<and> as_Notified ms" using occ_mem [OF inv] A' gone S' by (metis subsetD)
  next
    fix k ms assume "S' k = Some ms"
    note S = old [OF this]
    show "k = stateKey (as_RuleID ms) (as_DeviceID ms)" using occ_key [OF inv] S by blast
    show "as_RuleID ms < rs" "as_DeviceID ms < ds" using occ_bound [OF inv] S by blast+
    assume "as_RuleID ms \<in> Ru" "as_DeviceID ms \<in> De"
    then show "\<exists>n. (as_RuleID ms, as_DeviceID ms, n) \<in> St'" using occ_backed [OF inv] S St' by blast
  next
    fix r d n assume "(r, d, n) \<in> St'" then show "r < rs" "d < ds" using occ_st_bound [OF inv] St' by blast+
  next
    fix r assume "r \<in> Ru" then show "r < rs" by (rule occ_Ru [OF inv])
  next
    fix d assume "d \<in> De" then show "d < ds" by (rule occ_De [OF inv])
  qed
qed

lemma closes_open_set: "closes db db' \<Longrightarrow> open_set db' \<subseteq> open_set db"
  by (auto simp: closes_def open_set_def)

lemma closes_frame_sets:
  "closes db db' \<Longrightarrow> state_set db' = state_set db \<and> rule_ids db' = rule_ids db \<and> device_ids db' = device_ids db
     \<and> db_rule_seq db' = db_rule_seq db"
  by (simp add: closes_def same_frame_def state_set_def rule_ids_def device_ids_def)

lemma delete_states_sets [simp]:
  "open_set (delete_states P db) = open_set db" "rule_ids (delete_states P db) = rule_ids db"
  "device_ids (delete_states P db) = device_ids db" "db_rule_seq (delete_states P db) = db_rule_seq db"
  "outbox_wf (delete_states P db) = outbox_wf db" "outbox_grows db0 (delete_states P db) = outbox_grows db0 db"
  "db_devices (delete_states P db) = db_devices db" "db_rules (delete_states P db) = db_rules db"
  by (simp_all add: delete_states_def open_set_def rule_ids_def device_ids_def outbox_wf_def row_wf_def
      alert_resolved_def outbox_grows_def)

lemma state_set_delete:
  "(\<And>st. P st \<longleftrightarrow> F (st_RuleID st) (st_DeviceID st)) \<Longrightarrow>
     (r, d, n) \<in> state_set (delete_states P db) \<longleftrightarrow> (r, d, n) \<in> state_set db \<and> \<not> F r d"
  by (auto simp: state_set_def delete_states_def image_iff)

section \<open>Operations keep the invariant\<close>

definition rules_distinct :: "alert_db \<Rightarrow> bool" where
  "rules_distinct db \<longleftrightarrow> distinct (map (\<lambda>row. r_ID (rr_Rule row)) (db_rules db))"

definition sys_good :: "int \<Rightarrow> sys \<Rightarrow> bool" where
  "sys_good ds s \<longleftrightarrow> (outbox_wf (sy_db s) \<and> rules_distinct (sy_db s))
     \<and> occ_inv (r_ID ` set (mg_rules (sy_mgr s))) (map_of (mg_states (sy_mgr s)))
         (open_set (sy_db s)) (state_set (sy_db s)) (rule_ids (sy_db s)) (device_ids (sy_db s)) (db_rule_seq (sy_db s)) ds"

definition forward :: "sys \<Rightarrow> sys \<Rightarrow> bool" where
  "forward s s' \<longleftrightarrow> outbox_grows (sy_db s) (sy_db s') \<and> db_devices (sy_db s') = db_devices (sy_db s)
     \<and> db_rules (sy_db s') = db_rules (sy_db s)"

lemma forward_refl [simp]: "forward s s"
  by (simp add: forward_def)

lemma forward_trans: "forward a b \<Longrightarrow> forward b c \<Longrightarrow> forward a c"
  unfolding forward_def using outbox_grows_trans by auto

lemma closes_forward: "closes db db' \<Longrightarrow> outbox_grows db db' \<and> db_devices db' = db_devices db \<and> db_rules db' = db_rules db"
  by (simp add: closes_def same_frame_def)

lemma mgr_simps [simp]:
  "mg_rules (wakeNotificationWorker m) = mg_rules m" "mg_states (wakeNotificationWorker m) = mg_states m"
  "mg_rules (wake_if q m) = mg_rules m" "mg_states (wake_if q m) = mg_states m"
  "mg_rules (set_states f m) = mg_rules m" "mg_states (set_states f m) = f (mg_states m)"
  "mg_rules (clearRuleStateMemory i m) = mg_rules m" "mg_rules (ClearDeviceState i m) = mg_rules m"
  by (simp_all add: wakeNotificationWorker_def wake_if_def set_states_def clearRuleStateMemory_def ClearDeviceState_def)

lemma filter_closed:
  assumes run: "try_fold (resolve_each fault now t rule reason) ids (False, db) = Inr (q, db')" and wf: "outbox_wf db"
    and ids: "set ids = al_ID ` {a \<in> set (db_alerts db). P a \<and> open_alert a}"
  shows "outbox_wf db' \<and> closes db db' \<and> (\<forall>a \<in> set (db_alerts db'). P a \<longrightarrow> \<not> open_alert a)"
proof -
  have ok: "outbox_wf db' \<and> closes db db'" using resolve_all.loop_ok [OF run] wf by simp
  have none: "\<forall>a \<in> set (db_alerts db'). al_ID a \<in> set ids \<longrightarrow> \<not> open_alert a"
    using resolve_loop_closed [OF run] wf by simp
  have "\<not> open_alert a" if a: "a \<in> set (db_alerts db')" "P a" for a
  proof
    assume o1: "open_alert a"
    then have "a \<in> set (db_alerts db)" using ok a(1) by (simp add: closes_def)
    then have "al_ID a \<in> set ids" unfolding ids using a(2) o1 by blast
    then show False using none a(1) o1 by blast
  qed
  then show ?thesis using ok by blast
qed

lemma rule_device_closed:
  assumes "resolveRuleDeviceAlertsTx fault now t r did reason db = Inr (q, db')" and "outbox_wf db"
  shows "outbox_wf db' \<and> closes db db' \<and> (\<forall>i. (i, r_ID r, did) \<notin> open_set db')"
proof -
  let ?P = "\<lambda>a. al_RuleID a = Some (r_ID r) \<and> al_DeviceID a = did"
  let ?ids = "map al_ID (filter (\<lambda>a. al_RuleID a = Some (r_ID r) \<and> al_DeviceID a = did \<and> open_alert a) (db_alerts db))"
  have run: "try_fold (resolve_each fault now t (Some r) reason) ?ids (False, db) = Inr (q, db')"
    using assms(1) by (simp add: resolveRuleDeviceAlertsTx_def)
  have "outbox_wf db' \<and> closes db db' \<and> (\<forall>a \<in> set (db_alerts db'). ?P a \<longrightarrow> \<not> open_alert a)"
    by (rule filter_closed [OF run assms(2)]) auto
  then show ?thesis by (auto simp: open_set_def)
qed

lemma rule_closed:
  assumes "resolveRuleAlertsTx fault now t r reason db = Inr (q, db')" and "outbox_wf db"
  shows "outbox_wf db' \<and> closes db db' \<and> (\<forall>i d. (i, r_ID r, d) \<notin> open_set db')"
proof -
  let ?P = "\<lambda>a. al_RuleID a = Some (r_ID r)"
  let ?ids = "map al_ID (filter (\<lambda>a. al_RuleID a = Some (r_ID r) \<and> open_alert a) (db_alerts db))"
  have run: "try_fold (resolve_each fault now t (Some r) reason) ?ids (False, db) = Inr (q, db')"
    using assms(1) by (simp add: resolveRuleAlertsTx_def)
  have "outbox_wf db' \<and> closes db db' \<and> (\<forall>a \<in> set (db_alerts db'). ?P a \<longrightarrow> \<not> open_alert a)"
    by (rule filter_closed [OF run assms(2)]) auto
  then show ?thesis by (auto simp: open_set_def)
qed

lemma handleResolved_good:
  fixes e :: env and reason :: string
  assumes good: "sys_good ds s" and r: "r_ID r \<in> r_ID ` set (mg_rules (sy_mgr s))" and key: "key = stateKey (r_ID r) did"
  defines "s' \<equiv> handleResolved e key r did reason s"
  shows "sys_good ds s' \<and> forward s s' \<and> mg_rules (sy_mgr s') = mg_rules (sy_mgr s)"
proof (cases "map_of (mg_states (sy_mgr s)) key")
  case None
  then show ?thesis using good by (simp add: s'_def handleResolved_def)
next
  case (Some st)
  show ?thesis
  proof (cases "handleResolved_tx e (as_Notified st) r did reason (sy_db s)")
    case (Inl err)
    then show ?thesis using good Some by (simp add: s'_def handleResolved_def)
  next
    case (Inr p)
    obtain q db2 where p: "p = (q, db2)" by fastforce
    note inv = good [unfolded sys_good_def, THEN conjunct2] and wf = good [unfolded sys_good_def, THEN conjunct1, THEN conjunct1]
    and rd = good [unfolded sys_good_def, THEN conjunct1, THEN conjunct2]
    obtain db1 where db2: "db2 = delete_states (is_state_of (r_ID r) did) db1"
      and c: "outbox_wf db1 \<and> closes (sy_db s) db1 \<and> (\<forall>i. (i, r_ID r, did) \<notin> open_set db1)"
    proof (cases "as_Notified st")
      case True
      then obtain db1 where "resolveRuleDeviceAlertsTx (en_fault e) (en_now e) (en_dbnow e) r did reason (sy_db s) = Inr (q, db1)"
        and "db2 = delete_states (is_state_of (r_ID r) did) db1"
        using Inr p by (auto simp: handleResolved_tx_def split: sum.splits)
      then show thesis using that rule_device_closed [OF _ wf] by blast
    next
      case False
      then have "db2 = delete_states (is_state_of (r_ID r) did) (sy_db s)"
        using Inr p by (auto simp: handleResolved_tx_def)
      moreover have "(i, r_ID r, did) \<notin> open_set (sy_db s)" for i
        using occ_mem [OF inv _ r, of i did] Some False key by auto
      ultimately show thesis using that wf by auto
    qed
    have "occ_inv (r_ID ` set (mg_rules (sy_mgr s))) (map_of (AList.delete key (mg_states (sy_mgr s))))
         (open_set db2) (state_set db2) (rule_ids (sy_db s)) (device_ids (sy_db s)) (db_rule_seq (sy_db s)) ds"
    proof (rule occ_close [OF inv, where F = "\<lambda>r' d'. r' = r_ID r \<and> d' = did"])
      show "open_set db2 \<subseteq> open_set (sy_db s)" using c by (simp add: db2 closes_open_set)
      show "(r', d, n) \<in> state_set db2 \<longleftrightarrow> (r', d, n) \<in> state_set (sy_db s) \<and> \<not> (r' = r_ID r \<and> d = did)" for r' d n
        unfolding db2 using closes_frame_sets [of "sy_db s" db1] c
        by (subst state_set_delete [where F = "\<lambda>r' d'. r' = r_ID r \<and> d' = did"]) (auto simp: is_state_of_def)
      show "(i, r', d) \<in> open_set db2 \<Longrightarrow> \<not> (r' = r_ID r \<and> d = did)" for i r' d using c by (auto simp: db2)
    qed (auto simp: key)
    then show ?thesis
      using Inr p Some c closes_frame_sets [of "sy_db s" db1] closes_forward [of "sy_db s" db1] rd
      by (simp add: s'_def handleResolved_def sys_good_def forward_def db2 rules_distinct_def)
  qed
qed

section \<open>Opening an occurrence\<close>

lemma outbox_wf_cong:
  "db_alerts db' = db_alerts db \<Longrightarrow> db_outbox db' = db_outbox db \<Longrightarrow> db_alert_seq db' = db_alert_seq db
   \<Longrightarrow> db_outbox_seq db' = db_outbox_seq db \<Longrightarrow> outbox_wf db' = outbox_wf db"
  by (simp add: outbox_wf_def row_wf_def alert_resolved_def)

lemma outbox_wf_new_alert:
  assumes wf: "outbox_wf db" and a: "al_ID a = db_alert_seq db" "al_Status a = Active"
  shows "outbox_wf (db\<lparr>db_alerts := db_alerts db @ [a], db_alert_seq := db_alert_seq db + 1\<rparr>)"
    (is "outbox_wf ?db")
proof -
  have res: "alert_resolved ?db = alert_resolved db"
    using a(2) by (auto simp: alert_resolved_def fun_eq_iff)
  have "row_wf ?db r" if "r \<in> set (db_outbox db)" for r
    using row_wfD [OF wf that] unfolding row_wf_def res by auto
  moreover have "alerts_wf (db_alerts db @ [a]) (db_alert_seq db + 1)"
    using wf a(1) by (force simp: outbox_wf_def alerts_wf_def)
  ultimately show ?thesis using wf by (simp add: outbox_wf_def)
qed

definition has_open_alert :: "alert_db \<Rightarrow> int \<Rightarrow> bool" where
  "has_open_alert db i \<longleftrightarrow> outbox_wf db \<and> (\<exists>a \<in> set (db_alerts db). al_ID a = i) \<and> \<not> alert_resolved db i"

definition only_outbox :: "alert_db \<Rightarrow> alert_db \<Rightarrow> bool" where
  "only_outbox db db' \<longleftrightarrow> outbox_grows db db' \<and> same_frame db db' \<and> db_alerts db' = db_alerts db"

lemma enqueue_trigger_ok:
  assumes I: "has_open_alert db i" and run: "enqueue_trigger e i p c db = Inr db'"
  shows "has_open_alert db' i \<and> only_outbox db db'"
proof -
  let ?bump = "db\<lparr>db_outbox_seq := db_outbox_seq db + 1\<rparr>"
  let ?new = "db\<lparr>db_outbox := db_outbox db @ [new_outbox_row db (en_dbnow e) i c EvTriggered p], db_outbox_seq := db_outbox_seq db + 1\<rparr>"
  have wf: "outbox_wf db" using I by (simp add: has_open_alert_def)
  have row: "row_wf ?bump (new_outbox_row db (en_dbnow e) i c EvTriggered p)"
    using I by (auto simp: has_open_alert_def row_wf_def alert_resolved_def)
  have grows: "outbox_grows db ?bump" "outbox_grows db ?new" by (auto simp: outbox_grows_def)
  show ?thesis
  proof (cases "(i, c, EvTriggered) \<in> outbox_key ` set (db_outbox db)")
    case True
    then have "db' = ?bump" using run by (simp add: enqueue_trigger_def)
    then show ?thesis using I grows(1) outbox_wf_bump [OF wf]
      by (simp add: has_open_alert_def only_outbox_def same_frame_def alert_resolved_def)
  next
    case False
    then have "db' = ?new" using run by (simp add: enqueue_trigger_def)
    moreover have "outbox_wf ?new" by (rule outbox_wf_append [OF wf row]) (use False in simp_all)
    ultimately show ?thesis using I grows(2)
      by (simp add: has_open_alert_def only_outbox_def same_frame_def alert_resolved_def)
  qed
qed

interpretation enqueue_all: tx_loop "\<lambda>db. has_open_alert db i" only_outbox "enqueue_trigger e i p" for e i p
proof unfold_locales
  show "only_outbox s s" for s by (simp add: only_outbox_def)
  show "only_outbox a b \<Longrightarrow> only_outbox b c \<Longrightarrow> only_outbox a c" for a b c
    unfolding only_outbox_def using outbox_grows_trans same_frame_trans by metis
qed (rule enqueue_trigger_ok)

lemma touch_state_sets [simp]:
  "open_set (touch_state t r d v f db) = open_set db" "rule_ids (touch_state t r d v f db) = rule_ids db"
  "device_ids (touch_state t r d v f db) = device_ids db" "db_rule_seq (touch_state t r d v f db) = db_rule_seq db"
  "outbox_wf (touch_state t r d v f db) = outbox_wf db" "outbox_grows db0 (touch_state t r d v f db) = outbox_grows db0 db"
  "db_devices (touch_state t r d v f db) = db_devices db" "db_rules (touch_state t r d v f db) = db_rules db"
  by (simp_all add: touch_state_def open_set_def rule_ids_def device_ids_def outbox_wf_def row_wf_def
      alert_resolved_def outbox_grows_def)

lemma state_set_touch:
  "state_set (touch_state t rid did v f db) =
     (\<lambda>(r, d, n). if r = rid \<and> d = did then (r, d, f n) else (r, d, n)) ` state_set db"
proof -
  let ?g = "\<lambda>st. (st_RuleID st, st_DeviceID st, st_Notified st)"
  let ?h = "\<lambda>s. if st_RuleID s = rid \<and> st_DeviceID s = did
      then s\<lparr>st_LastValue := v, st_LastCheckedAt := t, st_Notified := f (st_Notified s)\<rparr> else s"
  let ?k = "\<lambda>(r, d, n). if r = rid \<and> d = did then (r, d, f n) else (r, d, n)"
  have gh: "?g (?h st) = ?k (?g st)" for st by simp
  have "?g ` (?h ` set (db_states db)) = ?k ` (?g ` set (db_states db))"
    unfolding image_image gh ..
  then show ?thesis by (simp add: state_set_def touch_state_def update_where_def)
qed

lemma upsert_state_sets [simp]:
  "open_set (upsert_state t r d n v db) = open_set db" "rule_ids (upsert_state t r d n v db) = rule_ids db"
  "device_ids (upsert_state t r d n v db) = device_ids db" "db_rule_seq (upsert_state t r d n v db) = db_rule_seq db"
  "outbox_wf (upsert_state t r d n v db) = outbox_wf db" "outbox_grows db0 (upsert_state t r d n v db) = outbox_grows db0 db"
  "db_devices (upsert_state t r d n v db) = db_devices db" "db_rules (upsert_state t r d n v db) = db_rules db"
  by (simp_all add: upsert_state_def Let_def open_set_def rule_ids_def device_ids_def outbox_wf_def row_wf_def
      alert_resolved_def outbox_grows_def)

lemma state_set_upsert:
  "(r, d, n) \<in> state_set (upsert_state t rid did now v db) \<longleftrightarrow>
     (if r = rid \<and> d = did then \<not> n else (r, d, n) \<in> state_set db)"
proof (cases "list_ex (\<lambda>s. st_RuleID s = rid \<and> st_DeviceID s = did) (db_states db)")
  case True
  then show ?thesis
    unfolding state_set_def upsert_state_def Let_def
    by (auto simp: image_iff bex_update_where list_ex_iff if_distrib split: if_splits)
next
  case False
  then show ?thesis
    unfolding state_set_def upsert_state_def Let_def
    by (auto simp: list_ex_iff image_iff split: if_splits)
qed

lemma fk_ok_sets: "fk_ok db rid did \<longleftrightarrow> rid \<in> rule_ids db \<and> did \<in> device_ids db"
proof -
  have "get_rule_row db rid \<noteq> None \<longleftrightarrow> rid \<in> rule_ids db"
    unfolding get_rule_row_def rule_ids_def by (auto simp: find_None_iff image_iff) 
  moreover have "get_device db did \<noteq> None \<longleftrightarrow> did \<in> device_ids db"
    unfolding get_device_def device_ids_def by (auto simp: find_None_iff image_iff)
  ultimately show ?thesis by (simp add: fk_ok_def)
qed

lemma open_alert_tx_Inr:
  assumes run: "open_alert_tx e r ds value now db = Inr db'" and wf: "outbox_wf db"
  shows "r_ID r \<in> rule_ids db \<and> ds_DeviceID ds \<in> device_ids db
    \<and> outbox_wf db' \<and> outbox_grows db db' \<and> db_devices db' = db_devices db \<and> db_rules db' = db_rules db
    \<and> open_set db' = insert (db_alert_seq db, r_ID r, ds_DeviceID ds) (open_set db)
    \<and> state_set db' = (\<lambda>(r', d, n). if r' = r_ID r \<and> d = ds_DeviceID ds then (r', d, True) else (r', d, n)) ` state_set db
    \<and> rule_ids db' = rule_ids db \<and> device_ids db' = device_ids db \<and> db_rule_seq db' = db_rule_seq db"
proof -
  let ?i = "db_alert_seq db"
  obtain row p db2 where row: "al_ID row = ?i" "al_Status row = Active" "al_RuleID row = Some (r_ID r)" "al_DeviceID row = ds_DeviceID ds"
    and loop: "try_fold (enqueue_trigger e ?i p) (uniqueChannels (r_NotifyChannels r))
        (db\<lparr>db_alerts := db_alerts db @ [row], db_alert_seq := ?i + 1\<rparr>) = Inr db2"
    and db': "db' = touch_state (en_dbnow e) (r_ID r) (ds_DeviceID ds) value (\<lambda>_. True) db2"
    and fk: "fk_ok db (r_ID r) (ds_DeviceID ds)"
  proof -
    have "fk_ok db (r_ID r) (ds_DeviceID ds)"
      using run by (auto simp: open_alert_tx_def split: if_splits)
    moreover from this run obtain row p db2 where
      "row = (new_alert ?i r ds value (en_dbnow e))\<lparr>al_NotifiedAt := (if r_NotifyChannels r = [] then Some (en_dbnow e) else None)\<rparr>"
      "try_fold (enqueue_trigger e ?i p) (uniqueChannels (r_NotifyChannels r))
        (db\<lparr>db_alerts := db_alerts db @ [row], db_alert_seq := ?i + 1\<rparr>) = Inr db2"
      "db' = touch_state (en_dbnow e) (r_ID r) (ds_DeviceID ds) value (\<lambda>_. True) db2"
      by (auto simp: open_alert_tx_def Let_def split: sum.splits)
    ultimately show thesis using that [of row p db2] by (simp add: new_alert_def)
  qed
  let ?db1 = "db\<lparr>db_alerts := db_alerts db @ [row], db_alert_seq := ?i + 1\<rparr>"
  have wf1: "outbox_wf ?db1" by (rule outbox_wf_new_alert [OF wf row(1,2)])
  have fresh: "\<forall>a \<in> set (db_alerts db). al_ID a \<noteq> ?i" using wf by (auto simp: outbox_wf_def alerts_wf_def)
  have "has_open_alert ?db1 ?i" using wf1 row fresh by (auto simp: has_open_alert_def alert_resolved_def)
  from enqueue_all.loop_ok [OF loop this]
  have l: "outbox_wf db2" "outbox_grows ?db1 db2" "same_frame ?db1 db2" "db_alerts db2 = db_alerts db @ [row]"
    by (auto simp: has_open_alert_def only_outbox_def)
  have "outbox_grows db db2" using l(2) by (simp add: outbox_grows_def)
  moreover have "open_set db2 = insert (?i, r_ID r, ds_DeviceID ds) (open_set db)"
    unfolding open_set_def l(4) using row by (auto simp: open_alert_def) (rule exI [of _ row], simp)
  moreover have "state_set db2 = state_set db" "rule_ids db2 = rule_ids db" "device_ids db2 = device_ids db"
    "db_rule_seq db2 = db_rule_seq db" "db_devices db2 = db_devices db" "db_rules db2 = db_rules db"
    using l(3) by (simp_all add: same_frame_def state_set_def rule_ids_def device_ids_def)
  ultimately show ?thesis
    using fk l(1) by (simp add: db' fk_ok_sets state_set_touch)
qed

lemma occ_mem_update:
  assumes inv: "occ_inv M S A St Ru De rs ds" and S: "S k = Some ms"
    and ms': "as_RuleID ms' = as_RuleID ms" "as_DeviceID ms' = as_DeviceID ms" "as_Notified ms \<Longrightarrow> as_Notified ms'"
  shows "occ_inv M (S(k \<mapsto> ms')) A St Ru De rs ds"
  unfolding occ_inv_def
proof (intro conjI allI impI ballI)
  fix i r d assume "(i, r, d) \<in> A" "r \<in> M"
  then obtain m0 where "S (stateKey r d) = Some m0" "as_Notified m0" using occ_mem [OF inv] by blast
  then show "\<exists>ms. (S(k \<mapsto> ms')) (stateKey r d) = Some ms \<and> as_Notified ms" using S ms'(3) by auto
next
  fix k' m assume "(S(k \<mapsto> ms')) k' = Some m"
  then obtain m0 where m0: "S k' = Some m0" "as_RuleID m = as_RuleID m0" "as_DeviceID m = as_DeviceID m0"
    using S ms' by (auto split: if_splits)
  show "k' = stateKey (as_RuleID m) (as_DeviceID m)" using occ_key [OF inv m0(1)] m0 by simp
  show "as_RuleID m < rs" "as_DeviceID m < ds" using occ_bound [OF inv m0(1)] m0 by simp_all
  assume "as_RuleID m \<in> Ru" "as_DeviceID m \<in> De"
  then show "\<exists>n. (as_RuleID m, as_DeviceID m, n) \<in> St" using occ_backed [OF inv m0(1)] m0 by simp
qed (use occ_unique [OF inv] occ_rule [OF inv] occ_row [OF inv] occ_st_bound [OF inv] occ_Ru [OF inv] occ_De [OF inv] in blast)+

lemma occ_start:
  assumes inv: "occ_inv M S A St Ru De rs ds" and S: "S (stateKey rid did) = None"
    and mem: "rid \<in> M" "rid \<in> Ru" "did \<in> De"
    and ms: "as_RuleID ms = rid" "as_DeviceID ms = did"
    and St': "\<And>r d n. (r, d, n) \<in> St' \<longleftrightarrow> (if r = rid \<and> d = did then \<not> n else (r, d, n) \<in> St)"
  shows "occ_inv M (S(stateKey rid did \<mapsto> ms)) A St' Ru De rs ds"
proof -
  have none: "(i, rid, did) \<notin> A" for i using occ_mem [OF inv _ mem(1), of i did] S by auto
  then have ne: "(i, r, d) \<in> A \<Longrightarrow> \<not> (r = rid \<and> d = did)" for i r d by auto
  show ?thesis
    unfolding occ_inv_def
  proof (intro conjI allI impI ballI)
    fix i r d assume a: "(i, r, d) \<in> A"
    show "(r, d, True) \<in> St'" "(r, d, False) \<notin> St'" using occ_row [OF inv a] ne [OF a] St' by auto
    assume "r \<in> M"
    then show "\<exists>m. (S(stateKey rid did \<mapsto> ms)) (stateKey r d) = Some m \<and> as_Notified m"
      using occ_mem [OF inv a] ne [OF a] by auto
  next
    fix k m assume k: "(S(stateKey rid did \<mapsto> ms)) k = Some m"
    show "k = stateKey (as_RuleID m) (as_DeviceID m)"
      using k ms occ_key [OF inv, of k m] by (auto split: if_splits)
    show "as_RuleID m < rs" "as_DeviceID m < ds"
      using k ms occ_bound [OF inv, of k m] occ_Ru [OF inv mem(2)] occ_De [OF inv mem(3)] by (auto split: if_splits)
    assume rd: "as_RuleID m \<in> Ru" "as_DeviceID m \<in> De"
    show "\<exists>n. (as_RuleID m, as_DeviceID m, n) \<in> St'"
    proof (cases "as_RuleID m = rid \<and> as_DeviceID m = did")
      case True
      then show ?thesis using St' by auto
    next
      case False
      then have "S k = Some m" using k ms by (auto split: if_splits)
      then show ?thesis using occ_backed [OF inv _ rd] St' False by auto
    qed
  next
    fix r d n assume "(r, d, n) \<in> St'"
    then show "r < rs" "d < ds"
      using St' occ_st_bound [OF inv] occ_Ru [OF inv mem(2)] occ_De [OF inv mem(3)] by (auto split: if_splits)
  qed (use occ_unique [OF inv] occ_rule [OF inv] occ_Ru [OF inv] occ_De [OF inv] in blast)+
qed

lemma occ_open:
  assumes inv: "occ_inv M S A St Ru De rs ds" and S: "S (stateKey rid did) = Some ms" "\<not> as_Notified ms"
    and mem: "rid \<in> M" "rid \<in> Ru" "did \<in> De"
    and St': "St' = (\<lambda>(r, d, n). if r = rid \<and> d = did then (r, d, True) else (r, d, n)) ` St"
    and ms': "as_RuleID ms' = rid" "as_DeviceID ms' = did" "as_Notified ms'"
  shows "occ_inv M (S(stateKey rid did \<mapsto> ms')) (insert (i0, rid, did) A) St' Ru De rs ds"
proof -
  have none: "(i, rid, did) \<notin> A" for i using occ_mem [OF inv _ mem(1), of i did] S by auto
  have k0: "as_RuleID ms = rid" "as_DeviceID ms = did" using occ_key [OF inv S(1)] by simp_all
  obtain n0 where n0: "(rid, did, n0) \<in> St" using occ_backed [OF inv S(1)] k0 mem by auto
  have St'': "(r, d, n) \<in> St' \<longleftrightarrow> (if r = rid \<and> d = did then n else (r, d, n) \<in> St)" for r d n
  proof (cases "r = rid \<and> d = did")
    case True
    then show ?thesis using n0 by (force simp: St' split: if_splits)
  next
    case False
    then show ?thesis by (force simp: St' split: if_splits)
  qed
  show ?thesis
    unfolding occ_inv_def
  proof (intro conjI allI impI ballI)
    fix i j r d assume "(i, r, d) \<in> insert (i0, rid, did) A" "(j, r, d) \<in> insert (i0, rid, did) A"
    then show "i = j" using none occ_unique [OF inv] by auto
  next
    fix i r d assume a: "(i, r, d) \<in> insert (i0, rid, did) A"
    show "r < rs" using a occ_rule [OF inv] occ_Ru [OF inv mem(2)] by auto
    show "(r, d, True) \<in> St'" "(r, d, False) \<notin> St'" using a occ_row [OF inv] St'' by auto
    assume "r \<in> M"
    then show "\<exists>m. (S(stateKey rid did \<mapsto> ms')) (stateKey r d) = Some m \<and> as_Notified m"
      using a occ_mem [OF inv] ms'(3) by auto
  next
    fix k m assume k: "(S(stateKey rid did \<mapsto> ms')) k = Some m"
    show "k = stateKey (as_RuleID m) (as_DeviceID m)"
      using k ms' occ_key [OF inv, of k m] by (auto split: if_splits)
    show "as_RuleID m < rs" "as_DeviceID m < ds"
      using k ms' occ_bound [OF inv, of k m] occ_Ru [OF inv mem(2)] occ_De [OF inv mem(3)] by (auto split: if_splits)
    assume rd: "as_RuleID m \<in> Ru" "as_DeviceID m \<in> De"
    show "\<exists>n. (as_RuleID m, as_DeviceID m, n) \<in> St'"
    proof (cases "as_RuleID m = rid \<and> as_DeviceID m = did")
      case True
      then show ?thesis using St'' by auto
    next
      case False
      then have "S k = Some m" using k ms' by (auto split: if_splits)
      then show ?thesis using occ_backed [OF inv _ rd] St'' False by auto
    qed
  next
    fix r d n assume "(r, d, n) \<in> St'"
    then show "r < rs" "d < ds"
      using St'' occ_st_bound [OF inv] occ_Ru [OF inv mem(2)] occ_De [OF inv mem(3)] by (auto split: if_splits)
  qed (use occ_Ru [OF inv] occ_De [OF inv] in blast)+
qed

lemma map_of_update_fun: "map_of (AList.update k v m) = (map_of m)(k \<mapsto> v)"
  by (rule ext) simp

lemma map_of_delete_fun: "map_of (AList.delete k m) = (map_of m)(k := None)"
  by (rule ext) simp

definition trigger_state :: "rule \<Rightarrow> device_stats \<Rightarrow> f64 \<Rightarrow> time \<Rightarrow> sys \<Rightarrow> AlertState" where
  "trigger_state r ds value now s =
     (case map_of (mg_states (sy_mgr s)) (stateKey (r_ID r) (ds_DeviceID ds)) of Some st \<Rightarrow> st | None \<Rightarrow>
        \<lparr>as_RuleID = r_ID r, as_DeviceID = ds_DeviceID ds, as_FirstTriggeredAt = now, as_LastValue = value, as_Notified = False\<rparr>)
     \<lparr>as_LastValue := value\<rparr>"

text \<open>What a trigger can lead to: nothing durable, a persisted state, or a new occurrence.\<close>

lemma handleTriggered_cases:
  fixes r :: rule and ds :: device_stats
  defines "key \<equiv> stateKey (r_ID r) (ds_DeviceID ds)"
  defines "m1 \<equiv> \<lambda>s v now. set_states (AList.update key (trigger_state r ds v now s)) (sy_mgr s)"
  obtains (failed_new) "map_of (mg_states (sy_mgr s)) key = None"
      "handleTriggered e r ds v now s = s\<lparr>sy_mgr := set_states (AList.delete key) (m1 s v now)\<rparr>"
  | (failed_old) "map_of (mg_states (sy_mgr s)) key \<noteq> None"
      "handleTriggered e r ds v now s = s\<lparr>sy_mgr := m1 s v now\<rparr>"
  | (persisted) db1 where
      "persist_state e (map_of (mg_states (sy_mgr s)) key \<noteq> None) (r_ID r) (ds_DeviceID ds) now v (sy_db s) = Inr db1"
      "handleTriggered e r ds v now s = s\<lparr>sy_mgr := m1 s v now, sy_db := db1\<rparr>"
  | (opened) db1 db2 where
      "persist_state e (map_of (mg_states (sy_mgr s)) key \<noteq> None) (r_ID r) (ds_DeviceID ds) now v (sy_db s) = Inr db1"
      "\<not> as_Notified (trigger_state r ds v now s)" "r_DurationSeconds r * second \<le> now - as_FirstTriggeredAt (trigger_state r ds v now s)"
      "\<not> cooling (sy_mgr s) key r now" "finite_f64 v"
      "open_alert_tx e r ds v now db1 = Inr db2"
      "handleTriggered e r ds v now s = s\<lparr>sy_db := db2, sy_mgr := wakeNotificationWorker
         ((set_states (AList.update key (trigger_state r ds v now s\<lparr>as_Notified := True\<rparr>)) (m1 s v now))
            \<lparr>mg_lastNotified := AList.update key now (mg_lastNotified (m1 s v now))\<rparr>)\<rparr>"
proof (cases "persist_state e (map_of (mg_states (sy_mgr s)) key \<noteq> None) (r_ID r) (ds_DeviceID ds) now v (sy_db s)")
  case (Inl err)
  then show thesis
    using failed_new failed_old unfolding handleTriggered_def Let_def key_def m1_def trigger_state_def
    by (cases "map_of (mg_states (sy_mgr s)) (stateKey (r_ID r) (ds_DeviceID ds))") auto
next
  case (Inr db1)
  let ?st = "trigger_state r ds v now s"
  let ?s1 = "s\<lparr>sy_mgr := m1 s v now, sy_db := db1\<rparr>"
  have eq: "handleTriggered e r ds v now s =
     (if now - as_FirstTriggeredAt ?st < r_DurationSeconds r * second \<or> as_Notified ?st then ?s1
      else if cooling (sy_mgr s) key r now then ?s1 else if \<not> finite_f64 v then ?s1
      else (case open_alert_tx e r ds v now db1 of Inl _ \<Rightarrow> ?s1
            | Inr db2 \<Rightarrow> ?s1\<lparr>sy_db := db2, sy_mgr := wakeNotificationWorker
                ((set_states (AList.update key (?st\<lparr>as_Notified := True\<rparr>)) (m1 s v now))
                  \<lparr>mg_lastNotified := AList.update key now (mg_lastNotified (m1 s v now))\<rparr>)\<rparr>))"
    using Inr unfolding handleTriggered_def Let_def key_def m1_def trigger_state_def by simp
  show thesis
  proof (cases "now - as_FirstTriggeredAt ?st < r_DurationSeconds r * second \<or> as_Notified ?st
      \<or> cooling (sy_mgr s) key r now \<or> \<not> finite_f64 v")
    case True
    then show thesis by (intro persisted [OF Inr]) (auto simp: eq)
  next
    case False
    then show thesis
    proof (cases "open_alert_tx e r ds v now db1")
      case (Inl err)
      then show thesis using False by (intro persisted [OF Inr]) (simp add: eq)
    next
      case db2: (Inr db2)
      show thesis by (rule opened [OF Inr _ _ _ _ db2]) (use False db2 in \<open>auto simp: eq\<close>)
    qed
  qed
qed

lemma persist_state_good:
  assumes good: "sys_good ds s" and r: "r_ID r \<in> r_ID ` set (mg_rules (sy_mgr s))"
    and run: "persist_state e (map_of (mg_states (sy_mgr s)) (stateKey (r_ID r) (ds_DeviceID dv)) \<noteq> None) (r_ID r) (ds_DeviceID dv) now v (sy_db s) = Inr db1"
  shows "sys_good ds (s\<lparr>sy_mgr := set_states (AList.update (stateKey (r_ID r) (ds_DeviceID dv)) (trigger_state r dv v now s)) (sy_mgr s), sy_db := db1\<rparr>)
    \<and> outbox_grows (sy_db s) db1 \<and> db_devices db1 = db_devices (sy_db s) \<and> db_rules db1 = db_rules (sy_db s)"
proof -
  note inv = good [unfolded sys_good_def, THEN conjunct2] and wf = good [unfolded sys_good_def, THEN conjunct1, THEN conjunct1]
    and rd = good [unfolded sys_good_def, THEN conjunct1, THEN conjunct2]
  let ?key = "stateKey (r_ID r) (ds_DeviceID dv)"
  show ?thesis
  proof (cases "map_of (mg_states (sy_mgr s)) ?key")
    case None
    then have fk: "r_ID r \<in> rule_ids (sy_db s)" "ds_DeviceID dv \<in> device_ids (sy_db s)"
      and db1: "db1 = upsert_state (en_dbnow e) (r_ID r) (ds_DeviceID dv) now v (sy_db s)"
      using run by (auto simp: persist_state_def fk_ok_sets split: if_splits)
    show ?thesis
      using wf rd occ_start [OF inv None r fk, of "trigger_state r dv v now s" "state_set db1"]
      by (simp add: sys_good_def db1 map_of_update_fun trigger_state_def None state_set_upsert rules_distinct_def)
  next
    case (Some st)
    then have db1: "db1 = touch_state (en_dbnow e) (r_ID r) (ds_DeviceID dv) v (\<lambda>b. b) (sy_db s)"
      using run by (simp add: persist_state_def)
    have same: "state_set db1 = state_set (sy_db s)"
    proof -
      have "(\<lambda>(r', d, n). if r' = r_ID r \<and> d = ds_DeviceID dv then (r', d, n) else (r', d, n)) = (id :: int \<times> int \<times> bool \<Rightarrow> _)"
        by (auto simp: fun_eq_iff)
      then show ?thesis by (simp add: db1 state_set_touch)
    qed
    show ?thesis
      using wf rd occ_mem_update [OF inv Some, of "trigger_state r dv v now s"] same
      by (simp add: sys_good_def db1 map_of_update_fun trigger_state_def Some rules_distinct_def)
  qed
qed

lemma handleTriggered_good:
  assumes good: "sys_good ds s" and r: "r_ID r \<in> r_ID ` set (mg_rules (sy_mgr s))"
  shows "sys_good ds (handleTriggered e r dv v now s) \<and> forward s (handleTriggered e r dv v now s)
    \<and> mg_rules (sy_mgr (handleTriggered e r dv v now s)) = mg_rules (sy_mgr s)"
proof (cases rule: handleTriggered_cases [of s r dv e v now])
  case failed_new
  have "map_of (AList.delete (stateKey (r_ID r) (ds_DeviceID dv)) (AList.update (stateKey (r_ID r) (ds_DeviceID dv)) (trigger_state r dv v now s) (mg_states (sy_mgr s))))
      = map_of (mg_states (sy_mgr s))"
    using failed_new(1) by (auto simp: fun_eq_iff)
  then show ?thesis using good failed_new(2) by (simp add: sys_good_def forward_def)
next
  case failed_old
  then obtain st where st: "map_of (mg_states (sy_mgr s)) (stateKey (r_ID r) (ds_DeviceID dv)) = Some st" by auto
  show ?thesis
    using good failed_old(2) occ_mem_update [OF good [unfolded sys_good_def, THEN conjunct2] st, of "trigger_state r dv v now s"]
    by (simp add: sys_good_def forward_def map_of_update_fun trigger_state_def st)
next
  case (persisted db1)
  show ?thesis using persist_state_good [OF good r persisted(1)] persisted(2) by (simp add: forward_def)
next
  case (opened db1 db2)
  note p = persist_state_good [OF good r opened(1)]
  let ?st = "trigger_state r dv v now s" and ?key = "stateKey (r_ID r) (ds_DeviceID dv)"
  let ?s1 = "s\<lparr>sy_mgr := set_states (AList.update ?key ?st) (sy_mgr s), sy_db := db1\<rparr>"
  have wf1: "outbox_wf db1" using p by (simp add: sys_good_def)
  note o2 = open_alert_tx_Inr [OF opened(6) wf1]
  have inv1: "occ_inv (r_ID ` set (mg_rules (sy_mgr s))) ((map_of (mg_states (sy_mgr s)))(?key \<mapsto> ?st)) (open_set db1) (state_set db1)
      (rule_ids db1) (device_ids db1) (db_rule_seq db1) ds"
    using p by (simp add: sys_good_def map_of_update_fun)
  have ids: "as_RuleID ?st = r_ID r" "as_DeviceID ?st = ds_DeviceID dv"
    using occ_key [OF inv1, of ?key ?st] by simp_all
  have S: "((map_of (mg_states (sy_mgr s)))(?key \<mapsto> ?st)) ?key = Some ?st" by simp
  have fk: "r_ID r \<in> rule_ids db1" "ds_DeviceID dv \<in> device_ids db1" using o2 by blast+
  have st2: "state_set db2 = (\<lambda>(r', d, n). if r' = r_ID r \<and> d = ds_DeviceID dv then (r', d, True) else (r', d, n)) ` state_set db1"
    using o2 by blast
  have "occ_inv (r_ID ` set (mg_rules (sy_mgr s))) ((map_of (mg_states (sy_mgr s)))(?key \<mapsto> ?st, ?key \<mapsto> ?st\<lparr>as_Notified := True\<rparr>))
      (insert (db_alert_seq db1, r_ID r, ds_DeviceID dv) (open_set db1)) (state_set db2)
      (rule_ids db1) (device_ids db1) (db_rule_seq db1) ds"
    by (rule occ_open [OF inv1 S opened(2) r fk st2]) (simp_all add: ids)
  moreover have "rules_distinct db2"
    using p o2 good unfolding sys_good_def rules_distinct_def by simp
  ultimately have "sys_good ds (handleTriggered e r dv v now s)"
    using o2 opened(7) by (simp add: sys_good_def map_of_update_fun)
  moreover have "outbox_grows (sy_db s) db2" "db_devices db2 = db_devices (sy_db s)" "db_rules db2 = db_rules (sy_db s)"
    using p o2 outbox_grows_trans by auto
  ultimately show ?thesis using opened(7) by (simp add: forward_def)
qed

section \<open>Evaluation keeps the invariant\<close>

definition step_ok :: "int \<Rightarrow> sys \<Rightarrow> sys \<Rightarrow> bool" where
  "step_ok ds s s' \<longleftrightarrow> sys_good ds s' \<and> forward s s' \<and> mg_rules (sy_mgr s') = mg_rules (sy_mgr s)"

lemma step_ok_fold:
  assumes "\<And>x s. x \<in> set xs \<Longrightarrow> sys_good ds s \<Longrightarrow> mg_rules (sy_mgr s) = R \<Longrightarrow> step_ok ds s (f x s)"
    and "sys_good ds s" and "mg_rules (sy_mgr s) = R"
  shows "step_ok ds s (fold f xs s)"
  using assms
proof (induction xs arbitrary: s)
  case Nil
  then show ?case by (simp add: step_ok_def)
next
  case (Cons x xs)
  have one: "step_ok ds s (f x s)" using Cons.prems by simp
  have "step_ok ds (f x s) (fold f xs (f x s))"
    by (rule Cons.IH) (use Cons.prems one in \<open>auto simp: step_ok_def\<close>)
  then show ?case using one forward_trans by (auto simp: step_ok_def)
qed

lemma eval_device_ok:
  assumes "sys_good d s" and "r_ID r \<in> r_ID ` set (mg_rules (sy_mgr s))"
  shows "step_ok d s (eval_device x e policies now r ds s)"
  using handleResolved_good [OF assms refl, of e] handleTriggered_good [OF assms, of e] assms(1)
  by (auto simp: eval_device_def Let_def step_ok_def split: option.splits prod.splits)

lemma prune_state_ok:
  assumes "sys_good d s" and "mg_rules (sy_mgr s) = rules"
  shows "step_ok d s (prune_state es rules st s)"
proof (cases "find (\<lambda>r. r_ID r = as_RuleID st) (rev rules)")
  case None
  then show ?thesis using assms(1) by (simp add: prune_state_def step_ok_def)
next
  case (Some r)
  then have r: "r \<in> set rules" "r_ID r = as_RuleID st" using find_Some_in [OF Some] by auto
  then have "r_ID r \<in> r_ID ` set (mg_rules (sy_mgr s))" using assms(2) by blast
  from handleResolved_good [OF assms(1) this refl] show ?thesis
    using Some r by (simp add: prune_state_def step_ok_def)
qed

lemma Evaluate_ok:
  assumes "sys_good d s"
  shows "step_ok d s (Evaluate x e es allStats now s)"
proof (cases "mg_rules (sy_mgr s) = [] \<or> (\<exists>err. loadDeviceAlertPolicies e (sy_db s) = Inl err)")
  case True
  then have "Evaluate x e es allStats now s = s" by (auto simp: Evaluate_def Let_def)
  then show ?thesis using assms by (simp add: step_ok_def)
next
  case False
  then obtain policies where pol: "loadDeviceAlertPolicies e (sy_db s) = Inr policies"
    by (cases "loadDeviceAlertPolicies e (sy_db s)") auto
  let ?rules = "mg_rules (sy_mgr s)"
  let ?s1 = "fold (\<lambda>r. fold (\<lambda>ds. eval_device x (es 0 (r_ID r) (ds_DeviceID ds)) policies now r ds) allStats) ?rules s"
  have s1: "step_ok d s ?s1"
  proof (rule step_ok_fold [OF _ assms refl])
    fix r s0 assume r: "r \<in> set ?rules" and s0: "sys_good d s0" "mg_rules (sy_mgr s0) = ?rules"
    show "step_ok d s0 (fold (\<lambda>ds. eval_device x (es 0 (r_ID r) (ds_DeviceID ds)) policies now r ds) allStats s0)"
    proof (rule step_ok_fold [OF _ s0])
      fix ds s2 assume "sys_good d s2" "mg_rules (sy_mgr s2) = ?rules"
      then show "step_ok d s2 (eval_device x (es 0 (r_ID r) (ds_DeviceID ds)) policies now r ds s2)"
        using r by (intro eval_device_ok) auto
    qed
  qed
  have "step_ok d ?s1 (fold (prune_state (es 1) ?rules) (stale_states ?rules policies (sy_mgr ?s1)) ?s1)"
  proof (rule step_ok_fold [where R = ?rules])
    show "step_ok d s0 (prune_state (es 1) ?rules st s0)" if "sys_good d s0" "mg_rules (sy_mgr s0) = ?rules" for st s0
      using that by (rule prune_state_ok)
  qed (use s1 in \<open>unfold step_ok_def; blast\<close>)+
  then have "step_ok d s (fold (prune_state (es 1) ?rules) (stale_states ?rules policies (sy_mgr ?s1)) ?s1)"
    using s1 forward_trans by (auto simp: step_ok_def)
  then show ?thesis using False pol by (simp add: Evaluate_def Let_def)
qed

section \<open>Reloading keeps the invariant\<close>

lemma disable_rule_sets [simp]:
  "open_set (disable_rule t i db) = open_set db" "state_set (disable_rule t i db) = state_set db"
  "device_ids (disable_rule t i db) = device_ids db" "db_rule_seq (disable_rule t i db) = db_rule_seq db"
  "outbox_wf (disable_rule t i db) = outbox_wf db" "outbox_grows db0 (disable_rule t i db) = outbox_grows db0 db"
  "db_devices (disable_rule t i db) = db_devices db" "db_states (disable_rule t i db) = db_states db"
  by (simp_all add: disable_rule_def open_set_def state_set_def device_ids_def outbox_wf_def row_wf_def
      alert_resolved_def outbox_grows_def)

lemma disable_rule_ids [simp]: "rule_ids (disable_rule t i db) = rule_ids db"
proof -
  have "map (\<lambda>row. r_ID (rr_Rule row)) (db_rules (disable_rule t i db)) = map (\<lambda>row. r_ID (rr_Rule row)) (db_rules db)"
    by (auto simp: disable_rule_def intro!: keys_update_where)
  from arg_cong [OF this, of set] show ?thesis by (simp add: rule_ids_def)
qed

definition only_rules :: "alert_db \<Rightarrow> alert_db \<Rightarrow> bool" where
  "only_rules db db' \<longleftrightarrow> open_set db' = open_set db \<and> state_set db' = state_set db \<and> rule_ids db' = rule_ids db
     \<and> device_ids db' = device_ids db \<and> db_rule_seq db' = db_rule_seq db \<and> outbox_wf db' = outbox_wf db
     \<and> outbox_grows db db' \<and> db_devices db' = db_devices db \<and> db_states db' = db_states db
     \<and> (\<forall>i. rule_enabled db' i \<longrightarrow> rule_enabled db i)"

lemma rule_enabled_disable: "rule_enabled (disable_rule t j db) i \<longleftrightarrow> rule_enabled db i \<and> i \<noteq> j"
  unfolding rule_enabled_def disable_rule_def list_ex_iff
  by (auto simp: bex_update_where if_distrib split: if_splits)

interpretation disable_all: tx_loop "\<lambda>db. True" only_rules
  "\<lambda>r d. stmt (en_fault e) (DisableRule (r_ID r)) (Inr (disable_rule (en_dbnow e) (r_ID r) d))" for e
  by unfold_locales (auto simp: only_rules_def rule_enabled_disable intro: outbox_grows_trans)

lemma disable_loop_keeps:
  "try_fold (\<lambda>r d. stmt (en_fault e) (DisableRule (r_ID r)) (Inr (disable_rule (en_dbnow e) (r_ID r) d))) rs db = Inr db'
   \<Longrightarrow> rule_enabled db' i \<longleftrightarrow> rule_enabled db i \<and> i \<notin> r_ID ` set rs"
  by (induction rs arbitrary: db) (auto simp: rule_enabled_disable split: sum.splits)

lemma scan_rule_ID [simp]: "r_ID (scan_rule row) = r_ID (rr_Rule row)"
  by (simp add: scan_rule_def normalizeRule_def)

lemma enabled_rules_ids: "r_ID ` set (enabled_rules db) = {i. rule_enabled db i}"
  by (auto simp: enabled_rules_def rule_enabled_def list_ex_iff image_iff)

lemma enabled_rules_distinct:
  "rules_distinct db \<Longrightarrow> distinct (map r_ID (enabled_rules db))"
proof -
  assume "rules_distinct db"
  then show ?thesis
    by (auto simp: enabled_rules_def rules_distinct_def distinct_map comp_def intro: inj_on_subset)
qed

lemma loadRules_ok:
  assumes run: "loadRules x e db = Inr (rules, db')" and dist: "rules_distinct db"
  shows "only_rules db db' \<and> rules_distinct db' \<and> r_ID ` set rules \<subseteq> {i. rule_enabled db' i} \<and> (\<forall>r \<in> set rules. rule_valid x r)"
proof -
  let ?rs = "enabled_rules db"
  let ?bad = "filter (\<lambda>r. \<not> rule_valid x r) ?rs"
  have refl: "only_rules db db" by (simp add: only_rules_def)
  have rules: "rules = filter (rule_valid x) ?rs"
    using run by (auto simp: loadRules_def Let_def split: if_splits sum.splits)
  have cases: "?bad = [] \<and> db' = db
    \<or> try_fold (\<lambda>r d. stmt (en_fault e) (DisableRule (r_ID r)) (Inr (disable_rule (en_dbnow e) (r_ID r) d))) ?bad db = Inr db'"
    using run by (auto simp: loadRules_def Let_def split: if_splits sum.splits)
  then have only: "only_rules db db'" using refl disable_all.loop_ok by blast
  have ids: "map (\<lambda>row. r_ID (rr_Rule row)) (db_rules (disable_rule t j d)) = map (\<lambda>row. r_ID (rr_Rule row)) (db_rules d)" for t j d
    by (auto simp: disable_rule_def intro!: keys_update_where)
  have "rules_distinct db'"
    using cases
  proof
    assume "try_fold (\<lambda>r d. stmt (en_fault e) (DisableRule (r_ID r)) (Inr (disable_rule (en_dbnow e) (r_ID r) d))) ?bad db = Inr db'"
    then show ?thesis by (rule try_fold_invariant [where I = rules_distinct]) (use dist ids in \<open>auto simp: rules_distinct_def\<close>)
  qed (use dist in simp)
  moreover have "rule_enabled db' (r_ID r)" if "r \<in> set rules" for r
  proof -
    have r: "r \<in> set ?rs" "rule_valid x r" using that by (auto simp: rules)
    then have "rule_enabled db (r_ID r)" using enabled_rules_ids [of db] by blast
    moreover have "r_ID r \<notin> r_ID ` set ?bad"
      using distinct_map_eq [OF enabled_rules_distinct [OF dist]] r by fastforce
    ultimately show ?thesis using cases disable_loop_keeps by blast
  qed
  ultimately show ?thesis using only by (auto simp: rules)
qed

text \<open>The states loaded: for every enabled rule exactly the rows of the table.\<close>

lemma load_fold:
  "(map_of (foldl (\<lambda>m s. AList.update (f s) (g s) m) ini rows) k = Some v \<longrightarrow> map_of ini k = Some v \<or> (\<exists>st \<in> set rows. k = f st \<and> v = g st))
    \<and> (\<forall>st \<in> set rows. \<exists>st' \<in> set rows. f st' = f st \<and> map_of (foldl (\<lambda>m s. AList.update (f s) (g s) m) ini rows) (f st) = Some (g st'))
    \<and> (k \<notin> f ` set rows \<longrightarrow> map_of (foldl (\<lambda>m s. AList.update (f s) (g s) m) ini rows) k = map_of ini k)"
  by (induction rows rule: rev_induct) auto

definition loaded_states :: "alert_db \<Rightarrow> (string, AlertState) gomap" where
  "loaded_states db = foldl (\<lambda>m s. AList.update (stateKey (st_RuleID s) (st_DeviceID s)) (load_state s) m) []
     (filter (\<lambda>s. rule_enabled db (st_RuleID s)) (db_states db))"

lemma loaded_states_from:
  "map_of (loaded_states db) k = Some ms \<Longrightarrow>
     \<exists>st \<in> set (db_states db). k = stateKey (st_RuleID st) (st_DeviceID st) \<and> ms = load_state st"
  using load_fold [where f = "\<lambda>s. stateKey (st_RuleID s) (st_DeviceID s)" and g = load_state and ini = "[]"
      and rows = "filter (\<lambda>s. rule_enabled db (st_RuleID s)) (db_states db)" and k = k and v = ms]
  unfolding loaded_states_def by auto

lemma loaded_states_all:
  assumes "st \<in> set (db_states db)" and "rule_enabled db (st_RuleID st)"
  shows "\<exists>st' \<in> set (db_states db). st_RuleID st' = st_RuleID st \<and> st_DeviceID st' = st_DeviceID st
       \<and> map_of (loaded_states db) (stateKey (st_RuleID st) (st_DeviceID st)) = Some (load_state st')"
proof -
  let ?rows = "filter (\<lambda>s. rule_enabled db (st_RuleID s)) (db_states db)"
  have "st \<in> set ?rows" using assms by simp
  then obtain st' where "st' \<in> set ?rows" "stateKey (st_RuleID st') (st_DeviceID st') = stateKey (st_RuleID st) (st_DeviceID st)"
    "map_of (loaded_states db) (stateKey (st_RuleID st) (st_DeviceID st)) = Some (load_state st')"
    using load_fold [where f = "\<lambda>s. stateKey (st_RuleID s) (st_DeviceID s)" and g = load_state and ini = "[]" and rows = ?rows,
        THEN conjunct2, THEN conjunct1] unfolding loaded_states_def by blast
  then show ?thesis by auto
qed

lemma occ_reload:
  assumes inv: "occ_inv M S (open_set db) (state_set db) Ru De rs ds"
    and M': "M' \<subseteq> {i. rule_enabled db i}"
  shows "occ_inv M' (map_of (loaded_states db)) (open_set db) (state_set db) Ru De rs ds"
  unfolding occ_inv_def
proof (intro conjI allI impI ballI)
  fix i r d assume a: "(i, r, d) \<in> open_set db" "r \<in> M'"
  have "(r, d, True) \<in> state_set db" using occ_row [OF inv a(1)] by blast
  then obtain st where st: "st \<in> set (db_states db)" "st_RuleID st = r" "st_DeviceID st = d" by (auto simp: state_set_def)
  then obtain st' where st': "st' \<in> set (db_states db)" "st_RuleID st' = r" "st_DeviceID st' = d"
    "map_of (loaded_states db) (stateKey r d) = Some (load_state st')"
    using loaded_states_all [OF st(1)] a(2) M' by auto
  then have "(r, d, st_Notified st') \<in> state_set db" by (force simp: state_set_def)
  then have "st_Notified st'" using occ_row(2) [OF inv a(1)] by (cases "st_Notified st'") auto
  then show "\<exists>ms. map_of (loaded_states db) (stateKey r d) = Some ms \<and> as_Notified ms"
    using st'(4) by (auto simp: load_state_def)
next
  fix k ms assume "map_of (loaded_states db) k = Some ms"
  then obtain st where st: "st \<in> set (db_states db)" "k = stateKey (st_RuleID st) (st_DeviceID st)" "ms = load_state st"
    using loaded_states_from by blast
  then have row: "(as_RuleID ms, as_DeviceID ms, st_Notified st) \<in> state_set db"
    by (auto simp: state_set_def load_state_def)
  show "k = stateKey (as_RuleID ms) (as_DeviceID ms)" using st by (simp add: load_state_def)
  show "as_RuleID ms < rs" "as_DeviceID ms < ds" using occ_st_bound [OF inv row] by blast+
  show "\<exists>n. (as_RuleID ms, as_DeviceID ms, n) \<in> state_set db" using row by blast
qed (use occ_unique [OF inv] occ_rule [OF inv] occ_row [OF inv] occ_st_bound [OF inv] occ_Ru [OF inv] occ_De [OF inv] in blast)+

definition op_ok :: "int \<Rightarrow> sys \<Rightarrow> sys \<Rightarrow> bool" where
  "op_ok ds s s' \<longleftrightarrow> sys_good ds s' \<and> outbox_grows (sy_db s) (sy_db s') \<and> db_devices (sy_db s') = db_devices (sy_db s)"

lemma step_ok_op: "step_ok ds s s' \<Longrightarrow> op_ok ds s s'"
  by (simp add: step_ok_def op_ok_def forward_def)

lemma op_ok_refl: "sys_good ds s \<Longrightarrow> op_ok ds s s"
  by (simp add: op_ok_def)

lemma op_ok_trans: "op_ok ds a b \<Longrightarrow> op_ok ds b c \<Longrightarrow> op_ok ds a c"
  unfolding op_ok_def using outbox_grows_trans by auto

lemma Reload_load_ok:
  assumes good: "sys_good ds s"
  shows "op_ok ds s (snd (Reload_load x e s))"
    and "fst (Reload_load x e s) = Inr sn \<Longrightarrow>
      r_ID ` set (sn_rules sn) \<subseteq> {i. rule_enabled (sy_db (snd (Reload_load x e s))) i}
      \<and> sn_states sn = loaded_states (sy_db (snd (Reload_load x e s)))"
proof -
  note inv = good [unfolded sys_good_def, THEN conjunct2]
    and rd = good [unfolded sys_good_def, THEN conjunct1, THEN conjunct2]
  show "op_ok ds s (snd (Reload_load x e s))"
  proof (cases "loadRules x e (sy_db s)")
    case (Inl err)
    then show ?thesis using good by (simp add: Reload_load_def op_ok_refl)
  next
    case (Inr p)
    obtain rules db1 where p: "p = (rules, db1)" by fastforce
    note ok = loadRules_ok [OF Inr [unfolded p] rd]
    have "op_ok ds s (s\<lparr>sy_db := db1\<rparr>)"
      using good ok by (simp add: op_ok_def sys_good_def only_rules_def)
    moreover have "op_ok ds s (s\<lparr>sy_db := db1, sy_mgr := (sy_mgr s)\<lparr>mg_sysmonClient := c\<rparr>\<rparr>)" for c
      using good ok by (simp add: op_ok_def sys_good_def only_rules_def)
    ultimately show ?thesis
      using Inr p by (auto simp: Reload_load_def Let_def split: sum.splits prod.splits option.splits)
  qed
  assume "fst (Reload_load x e s) = Inr sn"
  then obtain rules db1 where l: "loadRules x e (sy_db s) = Inr (rules, db1)"
    and "sy_db (snd (Reload_load x e s)) = db1" "sn_rules sn = rules" "sn_states sn = loaded_states db1"
    by (auto simp: Reload_load_def Let_def loadStates_def loaded_states_def split: sum.splits prod.splits option.splits)
  then show "r_ID ` set (sn_rules sn) \<subseteq> {i. rule_enabled (sy_db (snd (Reload_load x e s))) i}
      \<and> sn_states sn = loaded_states (sy_db (snd (Reload_load x e s)))"
    using loadRules_ok [OF l rd] by simp
qed

lemma Reload_ok:
  assumes good: "sys_good ds s"
  shows "op_ok ds s (snd (Reload x e s))"
proof (cases "fst (Reload_load x e s)")
  case (Inl err)
  then show ?thesis using Reload_load_ok(1) [OF good, of x e] by (auto simp: Reload_def split: prod.splits)
next
  case (Inr sn)
  let ?s1 = "snd (Reload_load x e s)"
  have one: "op_ok ds s ?s1" by (rule Reload_load_ok(1) [OF good])
  then have good1: "sys_good ds ?s1" by (simp add: op_ok_def)
  have "sys_good ds (Reload_install sn ?s1)"
    using Reload_load_ok(2) [OF good Inr] good1 occ_reload [OF good1 [unfolded sys_good_def, THEN conjunct2]]
    by (simp add: sys_good_def Reload_install_def)
  then have "op_ok ds ?s1 (Reload_install sn ?s1)" by (simp add: op_ok_def Reload_install_def)
  then show ?thesis using one op_ok_trans Inr by (auto simp: Reload_def split: prod.splits)
qed

section \<open>Administration keeps the invariant\<close>

lemma occ_new_rule:
  assumes inv: "occ_inv M S A St Ru De rs ds"
  shows "occ_inv M S A St (insert rs Ru) De (rs + 1) ds"
  unfolding occ_inv_def
proof (intro conjI allI impI ballI)
  fix k ms assume S: "S k = Some ms"
  show "k = stateKey (as_RuleID ms) (as_DeviceID ms)" by (rule occ_key [OF inv S])
  have b: "as_RuleID ms < rs \<and> as_DeviceID ms < ds" by (rule occ_bound [OF inv S])
  then show "as_RuleID ms < rs + 1" "as_DeviceID ms < ds" by auto
  assume "as_RuleID ms \<in> insert rs Ru" "as_DeviceID ms \<in> De"
  then show "\<exists>n. (as_RuleID ms, as_DeviceID ms, n) \<in> St" using occ_backed [OF inv S] b by auto
next
  fix i j r d assume "(i, r, d) \<in> A" "(j, r, d) \<in> A" then show "i = j" by (rule occ_unique [OF inv])
next
  fix i r d assume a: "(i, r, d) \<in> A"
  show "r < rs + 1" using occ_rule [OF inv a] by simp
  show "(r, d, True) \<in> St" "(r, d, False) \<notin> St" using occ_row [OF inv a] by blast+
  assume "r \<in> M" then show "\<exists>ms. S (stateKey r d) = Some ms \<and> as_Notified ms" by (rule occ_mem [OF inv a])
next
  fix r d n assume "(r, d, n) \<in> St"
  from occ_st_bound [OF inv this] show "r < rs + 1" "d < ds" by auto
next
  fix r assume "r \<in> insert rs Ru" then show "r < rs + 1" using occ_Ru [OF inv] by force
next
  fix d assume "d \<in> De" then show "d < ds" by (rule occ_De [OF inv])
qed

lemma occ_shrink:
  assumes inv: "occ_inv M S A St Ru De rs ds" and "Ru' \<subseteq> Ru" "De' \<subseteq> De"
    and A': "A' \<subseteq> A" and St': "\<And>r d n. (r, d, n) \<in> St' \<longleftrightarrow> (r, d, n) \<in> St \<and> \<not> G d"
    and gone: "\<And>i r d. (i, r, d) \<in> A' \<Longrightarrow> \<not> G d" "\<And>d. d \<in> De' \<Longrightarrow> \<not> G d"
  shows "occ_inv M S A' St' Ru' De' rs ds"
  unfolding occ_inv_def
proof (intro conjI allI impI ballI)
  fix i r d assume a: "(i, r, d) \<in> A'"
  then have "(i, r, d) \<in> A" using A' by blast
  note row = occ_row [OF inv this]
  show "(r, d, True) \<in> St'" "(r, d, False) \<notin> St'" using row St' gone(1) [OF a] by blast+
next
  fix k ms assume S: "S k = Some ms" "as_RuleID ms \<in> Ru'" "as_DeviceID ms \<in> De'"
  then show "\<exists>n. (as_RuleID ms, as_DeviceID ms, n) \<in> St'"
    using occ_backed [OF inv S(1)] assms(2,3) St' gone(2) by blast
next
  fix i j r d assume "(i, r, d) \<in> A'" "(j, r, d) \<in> A'" then show "i = j" using occ_unique [OF inv] A' by blast
next
  fix i r d assume a': "(i, r, d) \<in> A'"
  then have a: "(i, r, d) \<in> A" using A' by blast
  show "r < rs" by (rule occ_rule [OF inv a])
  assume "r \<in> M" then show "\<exists>ms. S (stateKey r d) = Some ms \<and> as_Notified ms" by (rule occ_mem [OF inv a])
next
  fix k ms assume S: "S k = Some ms"
  show "k = stateKey (as_RuleID ms) (as_DeviceID ms)" by (rule occ_key [OF inv S])
  from occ_bound [OF inv S] show "as_RuleID ms < rs" "as_DeviceID ms < ds" by blast+
next
  fix r d n assume "(r, d, n) \<in> St'"
  then have "(r, d, n) \<in> St" using St' by blast
  from occ_st_bound [OF inv this] show "r < rs" "d < ds" by blast+
next
  fix r assume "r \<in> Ru'" then show "r < rs" using occ_Ru [OF inv] assms(2) by blast
next
  fix d assume "d \<in> De'" then show "d < ds" using occ_De [OF inv] assms(3) by blast
qed

lemma CreateRule_ok:
  assumes good: "sys_good ds s"
  shows "op_ok ds s (snd (snd (CreateRule x e r s)))"
proof (cases "ValidateRule (x_parse_address x) (x_validate_url x) (Some r)")
  case (Inl err)
  then show ?thesis using good by (simp add: CreateRule_def op_ok_refl)
next
  case (Inr r1)
  let ?db = "sy_db s"
  let ?row = "\<lparr>rr_Rule = r1\<lparr>r_ID := db_rule_seq ?db, r_CreatedAt := en_dbnow e\<rparr>, rr_UpdatedAt = en_dbnow e\<rparr>"
  let ?db1 = "?db\<lparr>db_rules := db_rules ?db @ [?row], db_rule_seq := db_rule_seq ?db + 1\<rparr>"
  note inv = good [unfolded sys_good_def, THEN conjunct2]
    and rd = good [unfolded sys_good_def, THEN conjunct1, THEN conjunct2]
    and wf = good [unfolded sys_good_def, THEN conjunct1, THEN conjunct1]
  have sets: "open_set ?db1 = open_set ?db" "state_set ?db1 = state_set ?db" "device_ids ?db1 = device_ids ?db"
    "rule_ids ?db1 = insert (db_rule_seq ?db) (rule_ids ?db)" "outbox_wf ?db1"
    using outbox_wf_cong [of ?db1 ?db] wf by (simp_all add: open_set_def state_set_def device_ids_def rule_ids_def)
  have "rules_distinct ?db1"
    using rd occ_Ru [OF inv] by (fastforce simp: rules_distinct_def rule_ids_def)
  then have "sys_good ds (s\<lparr>sy_db := ?db1\<rparr>)"
    using occ_new_rule [OF inv] sets by (simp add: sys_good_def)
  then have one: "op_ok ds s (s\<lparr>sy_db := ?db1\<rparr>)" by (simp add: op_ok_def outbox_grows_def) blast
  then have "op_ok ds (s\<lparr>sy_db := ?db1\<rparr>) (snd (Reload x e (s\<lparr>sy_db := ?db1\<rparr>)))"
    by (intro Reload_ok) (simp add: op_ok_def)
  then show ?thesis
    using Inr good one op_ok_trans [OF one] by (auto simp: CreateRule_def Let_def after_reload_def op_ok_refl)
qed

lemma get_rule_row_ID: "get_rule_row db i = Some row \<Longrightarrow> r_ID (rr_Rule row) = i"
  unfolding get_rule_row_def using find_Some_in by fast

lemma getRuleTx_ID: "getRuleTx db i = Some r \<Longrightarrow> r_ID r = i"
  unfolding getRuleTx_def using get_rule_row_ID by (auto simp: normalizeRule_def)

lemma resetRuleStateTx_Inr:
  assumes "resetRuleStateTx e r reason db = Inr (q, db2)" and "outbox_wf db"
  obtains db1 where "outbox_wf db1" "closes db db1" "\<And>i d. (i, r_ID r, d) \<notin> open_set db1"
    "db2 = delete_states (\<lambda>st. st_RuleID st = r_ID r) db1"
proof -
  from assms(1) obtain db1 where "resolveRuleAlertsTx (en_fault e) (en_now e) (en_dbnow e) r reason db = Inr (q, db1)"
    and "db2 = delete_states (\<lambda>st. st_RuleID st = r_ID r) db1"
    by (auto simp: resetRuleStateTx_def split: sum.splits)
  then show thesis using that rule_closed [OF _ assms(2)] by blast
qed

text \<open>What UpdateRule and DeleteRule may do to the rule's row once its occurrences are closed.\<close>

definition rule_edit :: "int \<Rightarrow> (alert_db \<Rightarrow> alert_db) \<Rightarrow> bool" where
  "rule_edit i f \<longleftrightarrow> (\<forall>db. outbox_wf db \<longrightarrow> rules_distinct db \<longrightarrow> (\<forall>j d. (j, i, d) \<notin> open_set db) \<longrightarrow> (\<forall>d n. (i, d, n) \<notin> state_set db) \<longrightarrow>
     outbox_wf (f db) \<and> rules_distinct (f db) \<and> open_set (f db) = open_set db \<and> state_set (f db) = state_set db
     \<and> rule_ids (f db) \<subseteq> rule_ids db \<and> device_ids (f db) = device_ids db \<and> db_rule_seq (f db) = db_rule_seq db
     \<and> outbox_grows db (f db) \<and> db_devices (f db) = db_devices db)"

lemma update_rule_row_edit: "rule_edit i (update_rule_row t i r)"
proof -
  have ids: "map (\<lambda>row. r_ID (rr_Rule row)) (db_rules (update_rule_row t i r db)) = map (\<lambda>row. r_ID (rr_Rule row)) (db_rules db)" for db
    by (auto simp: update_rule_row_def intro!: keys_update_where)
  have ids': "rule_ids (update_rule_row t i r db) = rule_ids db" for db
    using arg_cong [OF ids [of db], of set] by (simp add: rule_ids_def)
  have wf: "outbox_wf (update_rule_row t i r db) = outbox_wf db" for db
    by (rule outbox_wf_cong) (simp_all add: update_rule_row_def)
  show ?thesis
    unfolding rule_edit_def rules_distinct_def ids ids' wf
    by (auto simp: update_rule_row_def open_set_def state_set_def device_ids_def outbox_grows_def)
qed

lemma delete_rule_row_edit: "rule_edit i (delete_rule_row i)"
  unfolding rule_edit_def
proof (intro allI impI)
  fix db assume wf: "outbox_wf db" and rd: "rules_distinct db" and no: "\<forall>j d. (j, i, d) \<notin> open_set db"
    and ns: "\<forall>d n. (i, d, n) \<notin> state_set db"
  let ?db = "delete_rule_row i db"
  have "outbox_wf (db\<lparr>db_alerts := update_where (\<lambda>a. al_RuleID a = Some i) (\<lambda>a. a\<lparr>al_RuleID := None\<rparr>) (db_alerts db)\<rparr>)"
    by (rule outbox_wf_touch_alerts [OF wf]) simp
  then have "outbox_wf ?db"
    by (rule outbox_wf_cong [THEN iffD1, rotated -1]) (simp_all add: delete_rule_row_def)
  moreover have "rules_distinct ?db"
    using rd by (simp add: rules_distinct_def delete_rule_row_def distinct_map_delete_where)
  moreover have "open_set ?db = open_set db"
  proof -
    have closed: "\<not> open_alert a" if "a \<in> set (db_alerts db)" "al_RuleID a = Some i" for a
      using no that by (auto simp: open_set_def)
    have "(j, r, d) \<in> open_set ?db \<longleftrightarrow> (\<exists>a \<in> set (db_alerts db). al_ID a = j \<and> al_DeviceID a = d \<and> open_alert a \<and> al_RuleID a = Some r \<and> r \<noteq> i)"
      for j r d
    proof -
      have "(j, r, d) \<in> open_set ?db \<longleftrightarrow>
          (\<exists>a \<in> set (db_alerts ?db). al_ID a = j \<and> al_DeviceID a = d \<and> open_alert a \<and> al_RuleID a = Some r)"
        by (auto simp: open_set_def)
      also have "\<dots> \<longleftrightarrow> (\<exists>a \<in> set (db_alerts db). al_ID a = j \<and> al_DeviceID a = d \<and> open_alert a \<and> al_RuleID a = Some r \<and> r \<noteq> i)"
        unfolding delete_rule_row_def alert_db.select_convs alert_db.update_convs alert_db.surjective
        by (simp add: bex_update_where, rule bex_cong [OF refl], auto simp: open_alert_def)
      finally show ?thesis .
    qed
    moreover have "(j, r, d) \<in> open_set db \<longleftrightarrow> (\<exists>a \<in> set (db_alerts db). al_ID a = j \<and> al_DeviceID a = d \<and> open_alert a \<and> al_RuleID a = Some r \<and> r \<noteq> i)"
      for j r d using closed by (auto simp: open_set_def)
    ultimately show ?thesis by auto
  qed
  moreover have "state_set ?db = state_set db"
  proof -
    have "st_RuleID st \<noteq> i" if "st \<in> set (db_states db)" for st
      using ns that by (force simp: state_set_def)
    then have "delete_where (\<lambda>st. st_RuleID st = i) (db_states db) = db_states db"
      by (simp add: delete_where_def)
    then show ?thesis by (simp add: state_set_def delete_rule_row_def)
  qed
  moreover have "rule_ids ?db \<subseteq> rule_ids db" by (auto simp: delete_rule_row_def rule_ids_def)
  moreover have "outbox_grows db ?db" by (rule outbox_grows_same) (simp_all add: delete_rule_row_def)
  ultimately show "outbox_wf ?db \<and> rules_distinct ?db \<and> open_set ?db = open_set db \<and> state_set ?db = state_set db
     \<and> rule_ids ?db \<subseteq> rule_ids db \<and> device_ids ?db = device_ids db \<and> db_rule_seq ?db = db_rule_seq db
     \<and> outbox_grows db ?db \<and> db_devices ?db = db_devices db"
    by (simp add: delete_rule_row_def device_ids_def)
qed

lemma change_rule_ok:
  assumes good: "sys_good ds s" and edit: "rule_edit i f"
  shows "op_ok ds s (snd (change_rule x e i (change_rule_tx e i reason site f (sy_db s)) s))"
proof (cases "change_rule_tx e i reason site f (sy_db s)")
  case (Inl err)
  then show ?thesis using good by (simp add: change_rule_def op_ok_refl)
next
  case (Inr p)
  obtain q db3 where p: "p = (q, db3)" by fastforce
  note inv = good [unfolded sys_good_def, THEN conjunct2]
    and rd = good [unfolded sys_good_def, THEN conjunct1, THEN conjunct2]
    and wf = good [unfolded sys_good_def, THEN conjunct1, THEN conjunct1]
  from Inr p obtain r0 db2 where r0: "getRuleTx (sy_db s) i = Some r0"
    and reset: "resetRuleStateTx e r0 reason (sy_db s) = Inr (q, db2)" and db3: "db3 = f db2"
    by (auto simp: change_rule_tx_def split: option.splits sum.splits)
  have id: "r_ID r0 = i" by (rule getRuleTx_ID [OF r0])
  obtain db1 where wf1: "outbox_wf db1" and c: "closes (sy_db s) db1" and no: "\<And>j d. (j, i, d) \<notin> open_set db1"
    and db2: "db2 = delete_states (\<lambda>st. st_RuleID st = i) db1"
    by (rule resetRuleStateTx_Inr [OF reset wf, unfolded id]) blast
  let ?m = "clearRuleStateMemory i (sy_mgr s)"
  note fs = closes_frame_sets [OF c]
  have st2: "(r, d, n) \<in> state_set db2 \<longleftrightarrow> (r, d, n) \<in> state_set (sy_db s) \<and> \<not> r = i" for r d n
    unfolding db2 using fs by (subst state_set_delete [where F = "\<lambda>r d. r = i"]) auto
  have "occ_inv (r_ID ` set (mg_rules (sy_mgr s))) (map_of (mg_states ?m)) (open_set db2) (state_set db2)
      (rule_ids (sy_db s)) (device_ids (sy_db s)) (db_rule_seq (sy_db s)) ds"
    by (rule occ_close [OF inv, where F = "\<lambda>r d. r = i"])
      (use closes_open_set [OF c] no st2 in \<open>auto simp: db2 clearRuleStateMemory_def\<close>)
  moreover have rd2: "rules_distinct db2" using rd closes_forward [OF c] by (simp add: db2 rules_distinct_def)
  moreover have "outbox_wf (f db2) \<and> rules_distinct (f db2) \<and> open_set (f db2) = open_set db2 \<and> state_set (f db2) = state_set db2
     \<and> rule_ids (f db2) \<subseteq> rule_ids db2 \<and> device_ids (f db2) = device_ids db2 \<and> db_rule_seq (f db2) = db_rule_seq db2
     \<and> outbox_grows db2 (f db2) \<and> db_devices (f db2) = db_devices db2"
    by (rule edit [unfolded rule_edit_def, rule_format]) (use wf1 rd2 no st2 in \<open>simp_all add: db2\<close>)
  ultimately have ed: "occ_inv (r_ID ` set (mg_rules (sy_mgr s))) (map_of (mg_states ?m)) (open_set db3) (state_set db3)
      (rule_ids db3) (device_ids db3) (db_rule_seq db3) ds" "outbox_wf db3" "rules_distinct db3"
      "outbox_grows db2 db3" "db_devices db3 = db_devices db2"
    using occ_shrink [where G = "\<lambda>d. False" and De' = "device_ids (sy_db s)" and Ru' = "rule_ids db3"] fs
    unfolding db3 by (auto simp: db2)
  let ?s1 = "s\<lparr>sy_db := db3, sy_mgr := wake_if q ?m\<rparr>"
  have "outbox_grows (sy_db s) db2" using closes_forward [OF c] by (simp add: db2)
  then have "outbox_grows (sy_db s) db3" using ed(4) by (rule outbox_grows_trans)
  then have one: "op_ok ds s ?s1"
    using ed closes_forward [OF c] by (simp add: op_ok_def sys_good_def db2)
  then have "op_ok ds ?s1 (snd (Reload x e ?s1))" by (intro Reload_ok) (simp add: op_ok_def)
  then show ?thesis using Inr p one op_ok_trans [OF one] by (simp add: change_rule_def after_reload_def)
qed

lemma UpdateRule_ok: "sys_good ds s \<Longrightarrow> op_ok ds s (snd (UpdateRule x e i r s))"
  using change_rule_ok [OF _ update_rule_row_edit]
  by (auto simp: UpdateRule_def op_ok_refl split: sum.splits)

lemma DeleteRule_ok: "sys_good ds s \<Longrightarrow> op_ok ds s (snd (DeleteRule x e i s))"
  using change_rule_ok [OF _ delete_rule_row_edit] by (simp add: DeleteRule_def)

lemma outbox_wf_alerts:
  assumes wf: "outbox_wf db" and ids: "map al_ID as = map al_ID (db_alerts db)"
    and res: "alert_resolved (db\<lparr>db_alerts := as\<rparr>) = alert_resolved db"
  shows "outbox_wf (db\<lparr>db_alerts := as\<rparr>)"
proof -
  have ex: "(\<exists>a \<in> set as. al_ID a = i) \<longleftrightarrow> (\<exists>a \<in> set (db_alerts db). al_ID a = i)" for i
    using arg_cong [OF ids, of "\<lambda>l. \<exists>x \<in> set l. x = i"] by (auto simp: image_iff)
  have bound: "(\<forall>a \<in> set as. al_ID a < n) \<longleftrightarrow> (\<forall>a \<in> set (db_alerts db). al_ID a < n)" for n
    using arg_cong [OF ids, of "\<lambda>l. \<forall>x \<in> set l. x < n"] by simp
  show ?thesis using wf ids bound unfolding outbox_wf_def alerts_wf_def row_wf_def res by (simp add: ex)
qed

lemma AcknowledgeAlert_ok:
  assumes good: "sys_good ds s"
  shows "op_ok ds s (snd (AcknowledgeAlert e i u s))"
proof -
  let ?db = "sy_db s"
  let ?P = "\<lambda>a. al_ID a = i \<and> al_Status a = Active"
  let ?f = "\<lambda>a. a\<lparr>al_Status := Acknowledged, al_AcknowledgedAt := Some (en_dbnow e), al_AcknowledgedBy := Some u\<rparr>"
  let ?db1 = "?db\<lparr>db_alerts := update_where ?P ?f (db_alerts ?db)\<rparr>"
  have ids: "map al_ID (update_where ?P ?f (db_alerts ?db)) = map al_ID (db_alerts ?db)" by (simp add: map_update_where)
  have res: "alert_resolved ?db1 = alert_resolved ?db"
    by (rule ext) (simp add: alert_resolved_def bex_update_where, rule bex_cong [OF refl], auto)
  have wf: "outbox_wf ?db1"
    using outbox_wf_alerts [OF _ ids res] good by (simp add: sys_good_def)
  have opens: "open_set ?db1 = open_set ?db"
  proof -
    have "(j, r, d) \<in> open_set db \<longleftrightarrow> (\<exists>a \<in> set (db_alerts db). al_ID a = j \<and> al_DeviceID a = d \<and> open_alert a \<and> al_RuleID a = Some r)"
      for db j r d by (auto simp: open_set_def)
    moreover have "(\<exists>a \<in> set (db_alerts ?db1). al_ID a = j \<and> al_DeviceID a = d \<and> open_alert a \<and> al_RuleID a = Some r)
      \<longleftrightarrow> (\<exists>a \<in> set (db_alerts ?db). al_ID a = j \<and> al_DeviceID a = d \<and> open_alert a \<and> al_RuleID a = Some r)" for j r d
      by (simp add: bex_update_where) (rule bex_cong [OF refl]; auto simp: open_alert_def)
    ultimately show ?thesis by auto
  qed
  have "op_ok ds s (s\<lparr>sy_db := ?db1\<rparr>)"
    using good wf opens
    by (simp add: op_ok_def sys_good_def rules_distinct_def state_set_def rule_ids_def device_ids_def outbox_grows_def) blast
  then show ?thesis using good by (auto simp: AcknowledgeAlert_def Let_def op_ok_refl)
qed

text \<open>Closing transactions followed by the deletion of the states they cover.\<close>

lemma close_and_forget:
  assumes good: "sys_good ds s" and wf1: "outbox_wf db1" and c: "closes (sy_db s) db1"
    and no: "\<And>i r d. F r d \<Longrightarrow> (i, r, d) \<notin> open_set db1"
    and st: "\<And>r d n. (r, d, n) \<in> state_set db2 \<longleftrightarrow> (r, d, n) \<in> state_set db1 \<and> \<not> F r d"
    and db2: "db2 = delete_states P db1 \<or> db2 = db1"
    and mem: "\<And>r d. map_of (mg_states m) (stateKey r d) = (if F r d then None else map_of (mg_states (sy_mgr s)) (stateKey r d))"
      "\<And>k. map_of (mg_states m) k = map_of (mg_states (sy_mgr s)) k \<or> map_of (mg_states m) k = None"
    and rules: "mg_rules m = mg_rules (sy_mgr s)"
  shows "op_ok ds s (s\<lparr>sy_db := db2, sy_mgr := m\<rparr>)"
proof -
  note inv = good [unfolded sys_good_def, THEN conjunct2]
    and rd = good [unfolded sys_good_def, THEN conjunct1, THEN conjunct2]
  note fs = closes_frame_sets [OF c] and fw = closes_forward [OF c]
  have same: "open_set db2 = open_set db1" "rule_ids db2 = rule_ids db1" "device_ids db2 = device_ids db1"
    "db_rule_seq db2 = db_rule_seq db1" "outbox_wf db2 = outbox_wf db1" "outbox_grows (sy_db s) db2"
    "db_devices db2 = db_devices db1" "db_rules db2 = db_rules db1"
    using db2 fw by auto
  have "occ_inv (r_ID ` set (mg_rules (sy_mgr s))) (map_of (mg_states m)) (open_set db2) (state_set db2)
      (rule_ids (sy_db s)) (device_ids (sy_db s)) (db_rule_seq (sy_db s)) ds"
    by (rule occ_close [OF inv, where F = F]) (use closes_open_set [OF c] no st mem fs same in auto)
  then show ?thesis
    using same wf1 fs fw rd by (simp add: op_ok_def sys_good_def rules rules_distinct_def)
qed

lemma ResolveAlert_ok:
  assumes good: "sys_good ds s"
  shows "op_ok ds s (snd (ResolveAlert e i s))"
proof (cases "snd (ResolveAlert e i s) = s")
  case True
  then show ?thesis using good by (simp add: op_ok_refl)
next
  case False
  let ?db = "sy_db s"
  note inv = good [unfolded sys_good_def, THEN conjunct2]
    and wf = good [unfolded sys_good_def, THEN conjunct1, THEN conjunct1]
  from False obtain a q db2 where a: "get_alert ?db i = Some a" "open_alert a"
    and tx: "ResolveAlert_tx e i a ?db = Inr (q, db2)"
    and s': "snd (ResolveAlert e i s) = s\<lparr>sy_db := db2, sy_mgr := wake_if q
             (case al_RuleID a of None \<Rightarrow> sy_mgr s | Some r \<Rightarrow> set_states (AList.delete (stateKey r (al_DeviceID a))) (sy_mgr s))\<rparr>"
    by (auto simp: ResolveAlert_def stmt_def map_sum_def split: if_splits option.splits sum.splits)
  from tx obtain r db1 where run: "resolveAlertTx (en_fault e) (en_now e) (en_dbnow e) r i ''resolved manually by an operator'' ?db = Inr (q, db1)"
    and db2: "db2 = (case al_RuleID a of None \<Rightarrow> db1 | Some rid \<Rightarrow> delete_states (is_state_of rid (al_DeviceID a)) db1)"
    by (auto simp: ResolveAlert_tx_def split: sum.splits option.splits)
  note rc = resolveAlertTx_closes [OF run wf]
  have c: "closes ?db db1" and wf1: "outbox_wf db1" using rc by blast+
  have ain: "a \<in> set (db_alerts ?db)" "al_ID a = i" using get_alert_Some [OF a(1)] by auto
  show ?thesis
  proof (cases "al_RuleID a")
    case None
    show ?thesis
      unfolding s' db2 None option.case
      by (rule close_and_forget [OF good wf1 c, where F = "\<lambda>r d. False"]) simp_all
  next
    case (Some rid)
    have mine: "(i, rid, al_DeviceID a) \<in> open_set ?db" using ain a(2) Some by (auto simp: open_set_def)
    have gone: "(j, rid, al_DeviceID a) \<notin> open_set db1" for j
    proof
      assume j: "(j, rid, al_DeviceID a) \<in> open_set db1"
      then have "(j, rid, al_DeviceID a) \<in> open_set ?db" using closes_open_set [OF c] by blast
      then have "j = i" by (rule occ_unique [OF inv _ mine])
      then show False using j rc by (auto simp: open_set_def)
    qed
    show ?thesis
      unfolding s' db2 Some option.case
    proof (rule close_and_forget [OF good wf1 c, where F = "\<lambda>r d. r = rid \<and> d = al_DeviceID a"])
      show "(r, d, n) \<in> state_set (delete_states (is_state_of rid (al_DeviceID a)) db1) \<longleftrightarrow>
          (r, d, n) \<in> state_set db1 \<and> \<not> (r = rid \<and> d = al_DeviceID a)" for r d n
        by (rule state_set_delete) (simp add: is_state_of_def)
    qed (use gone in auto)
  qed
qed

lemma ResolveDeviceAlerts_ok:
  assumes good: "sys_good ds s"
  shows "op_ok ds s (snd (ResolveDeviceAlerts e did reason s))"
proof (cases "snd (ResolveDeviceAlerts e did reason s) = s")
  case True
  then show ?thesis using good by (simp add: op_ok_refl)
next
  case False
  let ?db = "sy_db s"
  note inv = good [unfolded sys_good_def, THEN conjunct2]
    and wf = good [unfolded sys_good_def, THEN conjunct1, THEN conjunct1]
  from False obtain q db2 where tx: "ResolveDeviceAlerts_tx e did reason ?db = Inr (q, db2)"
    and s': "snd (ResolveDeviceAlerts e did reason s) = s\<lparr>sy_db := db2, sy_mgr := wake_if q (ClearDeviceState did (sy_mgr s))\<rparr>"
    by (auto simp: ResolveDeviceAlerts_def split: if_splits sum.splits)
  from tx obtain db1 where run: "try_fold (resolve_each (en_fault e) (en_now e) (en_dbnow e) None reason)
      (sort (map al_ID (filter (\<lambda>a. al_DeviceID a = did \<and> open_alert a) (db_alerts ?db)))) (False, ?db) = Inr (q, db1)"
    and db2: "db2 = delete_states (\<lambda>st. st_DeviceID st = did) db1"
    by (auto simp: ResolveDeviceAlerts_tx_def split: sum.splits)
  have "outbox_wf db1 \<and> closes ?db db1 \<and> (\<forall>a \<in> set (db_alerts db1). al_DeviceID a = did \<longrightarrow> \<not> open_alert a)"
    by (rule filter_closed [OF run wf]) auto
  then have wf1: "outbox_wf db1" and c: "closes ?db db1" and gone: "(j, r, did) \<notin> open_set db1" for j r
    by (auto simp: open_set_def)
  let ?S = "map_of (mg_states (sy_mgr s))"
  have S: "?S k = Some ms \<Longrightarrow> k = stateKey r d \<Longrightarrow> as_DeviceID ms = d" for k ms r d
    using occ_key [OF inv, of k ms] by simp
  show ?thesis
    unfolding s' db2
  proof (rule close_and_forget [OF good wf1 c, where F = "\<lambda>r d. d = did"])
    show "(r, d, n) \<in> state_set (delete_states (\<lambda>st. st_DeviceID st = did) db1) \<longleftrightarrow>
        (r, d, n) \<in> state_set db1 \<and> \<not> d = did" for r d n
      by (rule state_set_delete) simp
    show "map_of (mg_states (wake_if q (ClearDeviceState did (sy_mgr s)))) (stateKey r d) = (if d = did then None else ?S (stateKey r d))" for r d
      using S [OF _ refl, of r d] by (auto simp: ClearDeviceState_def split: option.splits)
    show "map_of (mg_states (wake_if q (ClearDeviceState did (sy_mgr s)))) k = ?S k
        \<or> map_of (mg_states (wake_if q (ClearDeviceState did (sy_mgr s)))) k = None" for k
      by (simp add: ClearDeviceState_def)
  qed (use gone in auto)
qed

section \<open>The world\<close>

text \<open>
  Beside the system: the next device id of the database's sequence and the items workers hold.
  Deleting a device cascades to its alerts, their outbox rows and its states, as the schema says.
\<close>

record world =
  wd_sys :: sys
  wd_device_seq :: int
  wd_items :: "outboxItem list"

definition delete_device :: "int \<Rightarrow> alert_db \<Rightarrow> alert_db" where
  "delete_device d db =
     (let gone = (\<lambda>i. \<exists>a \<in> set (db_alerts db). al_ID a = i \<and> al_DeviceID a = d) in
      db\<lparr>db_devices := delete_where (\<lambda>v. dv_ID v = d) (db_devices db),
         db_alerts := delete_where (\<lambda>a. al_DeviceID a = d) (db_alerts db),
         db_outbox := delete_where (\<lambda>o1. gone (ob_AlertID o1)) (db_outbox db),
         db_states := delete_where (\<lambda>st. st_DeviceID st = d) (db_states db)\<rparr>)"

definition set_db :: "(alert_db \<Rightarrow> alert_db) \<Rightarrow> world \<Rightarrow> world" where
  "set_db f w = w\<lparr>wd_sys := (wd_sys w)\<lparr>sy_db := f (sy_db (wd_sys w))\<rparr>\<rparr>"

inductive world_step :: "ext \<Rightarrow> world \<Rightarrow> world \<Rightarrow> bool" for x :: ext where
  w_evaluate: "world_step x w (w\<lparr>wd_sys := Evaluate x e es stats now (wd_sys w)\<rparr>)"
| w_reload: "world_step x w (w\<lparr>wd_sys := snd (Reload x e (wd_sys w))\<rparr>)"
| w_create: "world_step x w (w\<lparr>wd_sys := snd (snd (CreateRule x e r (wd_sys w)))\<rparr>)"
| w_update: "world_step x w (w\<lparr>wd_sys := snd (UpdateRule x e i r (wd_sys w))\<rparr>)"
| w_delete: "world_step x w (w\<lparr>wd_sys := snd (DeleteRule x e i (wd_sys w))\<rparr>)"
| w_acknowledge: "world_step x w (w\<lparr>wd_sys := snd (AcknowledgeAlert e i u (wd_sys w))\<rparr>)"
| w_resolve: "world_step x w (w\<lparr>wd_sys := snd (ResolveAlert e i (wd_sys w))\<rparr>)"
| w_resolve_device: "world_step x w (w\<lparr>wd_sys := snd (ResolveDeviceAlerts e d reason (wd_sys w))\<rparr>)"
| w_settings: "world_step x w (w\<lparr>wd_sys := (wd_sys w)\<lparr>sy_settings := cfg\<rparr>\<rparr>)"
| w_claim: "claimNotification fault je dbnow locked sysmonOnly (sy_db (wd_sys w)) = Inr (Some item, db') \<Longrightarrow>
    world_step x w ((set_db (\<lambda>_. db') w)\<lparr>wd_items := item # wd_items w\<rparr>)"
| w_claim_dead: "claimNotification fault je dbnow locked sysmonOnly (sy_db (wd_sys w)) = Inr (None, db') \<Longrightarrow>
    world_step x w (set_db (\<lambda>_. db') w)"
| w_sent: "item \<in> set (wd_items w) \<Longrightarrow>
    world_step x w (set_db (\<lambda>db. keep_db db (markNotificationSent fault dbnow item db)) w)"
| w_failed: "item \<in> set (wd_items w) \<Longrightarrow>
    world_step x w (set_db (\<lambda>db. keep_db db (markNotificationFailed fault now dbnow item err db)) w)"
| w_recover: "world_step x w (set_db (\<lambda>db. keep_db db (recoverStaleNotificationClaims fault dbnow db)) w)"
| w_drop: "world_step x w (w\<lparr>wd_items := filter keep (wd_items w)\<rparr>)"
| w_device_add: "dv_ID v = wd_device_seq w \<Longrightarrow>
    world_step x w ((set_db (\<lambda>db. db\<lparr>db_devices := db_devices db @ [v]\<rparr>) w)\<lparr>wd_device_seq := wd_device_seq w + 1\<rparr>)"
| w_device_edit: "(\<And>v. dv_ID (f v) = dv_ID v) \<Longrightarrow>
    world_step x w (set_db (\<lambda>db. db\<lparr>db_devices := map f (db_devices db)\<rparr>) w)"
| w_device_delete: "world_step x w (set_db (delete_device d) w)"
| w_restart: "NewManager x e (sy_db (wd_sys w)) (sy_settings (wd_sys w)) = (None, s') \<Longrightarrow>
    world_step x w (w\<lparr>wd_sys := s', wd_items := []\<rparr>)"

inductive_simps world_step_simps: "world_step x w w'"

text \<open>The process starts on a database without alerts, whose rules and devices have used ids.\<close>

definition fresh_db :: "alert_db \<Rightarrow> int \<Rightarrow> bool" where
  "fresh_db db ds \<longleftrightarrow> db_alerts db = [] \<and> db_outbox db = [] \<and> db_states db = [] \<and> rules_distinct db
     \<and> (\<forall>r \<in> rule_ids db. r < db_rule_seq db) \<and> (\<forall>d \<in> device_ids db. d < ds)"

inductive reachable :: "ext \<Rightarrow> world \<Rightarrow> bool" for x :: ext where
  boot: "fresh_db db ds \<Longrightarrow> NewManager x e db settings = (None, s) \<Longrightarrow>
    reachable x \<lparr>wd_sys = s, wd_device_seq = ds, wd_items = []\<rparr>"
| step: "reachable x w \<Longrightarrow> world_step x w w' \<Longrightarrow> reachable x w'"

definition world_good :: "world \<Rightarrow> bool" where
  "world_good w \<longleftrightarrow> sys_good (wd_device_seq w) (wd_sys w)
     \<and> (\<forall>item \<in> set (wd_items w). item_matches (sy_db (wd_sys w)) item)"

lemma world_good_op:
  assumes "world_good w" and "op_ok (wd_device_seq w) (wd_sys w) s'"
  shows "world_good (w\<lparr>wd_sys := s'\<rparr>)"
  using assms outbox_grows_items by (auto simp: world_good_def op_ok_def)

lemma worker_frame_op:
  assumes good: "sys_good ds s" and wf: "outbox_wf db'" and fr: "worker_frame (sy_db s) db'"
  shows "op_ok ds s (s\<lparr>sy_db := db'\<rparr>)"
proof -
  let ?k = "\<lambda>a. (al_ID a, al_Status a, al_RuleID a, al_DeviceID a)"
  have k: "?k ` set (db_alerts db') = ?k ` set (db_alerts (sy_db s))"
    using arg_cong [OF fr [unfolded worker_frame_def, THEN conjunct2, THEN conjunct2, THEN conjunct1], of set] by simp
  have o1: "open_set db = (\<lambda>(i, st, r, d). (i, the r, d)) ` {p \<in> ?k ` set (db_alerts db). fst (snd p) \<noteq> Resolved \<and> fst (snd (snd p)) \<noteq> None}" for db
  proof -
    have st: "open_alert a \<longleftrightarrow> al_Status a \<noteq> Resolved" for a by (cases "al_Status a") (simp_all add: open_alert_def)
    show ?thesis unfolding open_set_def st by (force simp: image_iff)
  qed
  have "open_set db' = open_set (sy_db s)" unfolding o1 k ..
  moreover have "same_frame (sy_db s) db'" using fr by (simp add: worker_frame_def)
  ultimately show ?thesis
    using good wf worker_frame_grows [OF fr]
    by (simp add: op_ok_def sys_good_def same_frame_def state_set_def rule_ids_def device_ids_def rules_distinct_def)
qed

lemma delete_device_ok:
  assumes good: "sys_good ds s"
  shows "sys_good ds (s\<lparr>sy_db := delete_device d (sy_db s)\<rparr>) \<and> outbox_grows (sy_db s) (delete_device d (sy_db s))"
proof -
  let ?db = "sy_db s" and ?db' = "delete_device d (sy_db s)"
  note inv = good [unfolded sys_good_def, THEN conjunct2]
    and wf = good [unfolded sys_good_def, THEN conjunct1, THEN conjunct1]
  have sel: "db_alerts ?db' = delete_where (\<lambda>a. al_DeviceID a = d) (db_alerts ?db)"
    "db_outbox ?db' = delete_where (\<lambda>o1. \<exists>a \<in> set (db_alerts ?db). al_ID a = ob_AlertID o1 \<and> al_DeviceID a = d) (db_outbox ?db)"
    "db_states ?db' = delete_where (\<lambda>st. st_DeviceID st = d) (db_states ?db)"
    "db_devices ?db' = delete_where (\<lambda>v. dv_ID v = d) (db_devices ?db)"
    "db_rules ?db' = db_rules ?db" "db_rule_seq ?db' = db_rule_seq ?db" "db_outbox_seq ?db' = db_outbox_seq ?db"
    "db_alert_seq ?db' = db_alert_seq ?db"
    by (simp_all add: delete_device_def Let_def)
  have row: "row_wf ?db' o1" if o1: "o1 \<in> set (db_outbox ?db')" for o1
  proof -
    have mem: "o1 \<in> set (db_outbox ?db)" and nd: "\<forall>a \<in> set (db_alerts ?db). al_ID a = ob_AlertID o1 \<longrightarrow> al_DeviceID a \<noteq> d"
      using o1 by (auto simp: sel)
    note w = row_wfD [OF wf mem, unfolded row_wf_def]
    have res: "alert_resolved ?db' (ob_AlertID o1) = alert_resolved ?db (ob_AlertID o1)"
      using nd by (auto simp: alert_resolved_def sel)
    have "(ob_AlertID o1, ob_Channel o1, EvTriggered) \<in> outbox_key ` set (db_outbox ?db')"
      if "(ob_AlertID o1, ob_Channel o1, EvTriggered) \<in> outbox_key ` set (db_outbox ?db)"
      using that nd by (auto simp: sel outbox_key_def image_iff)
    then show ?thesis unfolding row_wf_def res using w nd by (auto simp: sel)
  qed
  have wf': "outbox_wf ?db'"
    unfolding outbox_wf_def
  proof (intro conjI ballI)
    show "alerts_wf (db_alerts ?db') (db_alert_seq ?db')"
      using wf by (auto simp: outbox_wf_def alerts_wf_def sel distinct_map_delete_where)
    show "distinct (map ob_ID (db_outbox ?db'))" "distinct (map outbox_key (db_outbox ?db'))"
      using wf by (simp_all add: outbox_wf_def sel distinct_map_delete_where)
  qed (rule row)
  have "occ_inv (r_ID ` set (mg_rules (sy_mgr s))) (map_of (mg_states (sy_mgr s))) (open_set ?db') (state_set ?db')
      (rule_ids ?db') (device_ids ?db') (db_rule_seq ?db) ds"
    by (rule occ_shrink [OF inv, where G = "\<lambda>d'. d' = d"])
      (auto simp: sel rule_ids_def device_ids_def open_set_def state_set_def)
  moreover have "outbox_grows ?db ?db'" by (auto simp: outbox_grows_def sel)
  ultimately show ?thesis using good wf' by (simp add: sys_good_def sel rules_distinct_def)
qed

lemma occ_new_device:
  assumes inv: "occ_inv M S A St Ru De rs ds"
  shows "occ_inv M S A St Ru (insert ds De) rs (ds + 1)"
  unfolding occ_inv_def
proof (intro conjI allI impI ballI)
  fix i j r d assume "(i, r, d) \<in> A" "(j, r, d) \<in> A" then show "i = j" by (rule occ_unique [OF inv])
next
  fix i r d assume a: "(i, r, d) \<in> A"
  show "r < rs" using occ_rule [OF inv a] by simp
  show "(r, d, True) \<in> St" "(r, d, False) \<notin> St" using occ_row [OF inv a] by blast+
  assume "r \<in> M" then show "\<exists>ms. S (stateKey r d) = Some ms \<and> as_Notified ms" by (rule occ_mem [OF inv a])
next
  fix k ms assume S: "S k = Some ms"
  show "k = stateKey (as_RuleID ms) (as_DeviceID ms)" by (rule occ_key [OF inv S])
  have b: "as_RuleID ms < rs \<and> as_DeviceID ms < ds" by (rule occ_bound [OF inv S])
  then show "as_RuleID ms < rs" "as_DeviceID ms < ds + 1" by auto
  assume "as_RuleID ms \<in> Ru" "as_DeviceID ms \<in> insert ds De"
  then show "\<exists>n. (as_RuleID ms, as_DeviceID ms, n) \<in> St" using occ_backed [OF inv S] b by auto
next
  fix r d n assume "(r, d, n) \<in> St"
  from occ_st_bound [OF inv this] show "r < rs" "d < ds + 1" by auto
next
  fix r assume "r \<in> Ru" then show "r < rs" by (rule occ_Ru [OF inv])
next
  fix d assume "d \<in> insert ds De" then show "d < ds + 1" using occ_De [OF inv] by force
qed

lemma occ_no_memory:
  "occ_inv M S A St Ru De rs ds \<Longrightarrow> occ_inv {} (\<lambda>k. None) A St Ru De rs ds"
  unfolding occ_inv_def by simp

lemma NewManager_good:
  assumes "outbox_wf db" and "rules_distinct db"
    and "occ_inv M S (open_set db) (state_set db) (rule_ids db) (device_ids db) (db_rule_seq db) ds"
  shows "sys_good ds (snd (NewManager x e db settings))
    \<and> outbox_grows db (sy_db (snd (NewManager x e db settings)))"
proof -
  let ?s0 = "\<lparr>sy_mgr = emptyManager, sy_db = db, sy_settings = settings\<rparr>"
  have "map_of [] = (\<lambda>k. None :: AlertState option)" by auto
  then have "sys_good ds ?s0" using assms(1,2) occ_no_memory [OF assms(3)] by (simp add: sys_good_def emptyManager_def)
  from Reload_ok [OF this, of x e] show ?thesis by (simp add: NewManager_def op_ok_def)
qed

lemma world_good_run:
  assumes "world_good w" and "sys_good (wd_device_seq w) (wd_sys w) \<Longrightarrow> op_ok (wd_device_seq w) (wd_sys w) s'"
  shows "world_good (w\<lparr>wd_sys := s'\<rparr>)"
  by (rule world_good_op [OF assms(1) assms(2)]) (use assms(1) in \<open>simp add: world_good_def\<close>)

lemma world_step_good: "world_step x w w' \<Longrightarrow> world_good w \<Longrightarrow> world_good w'"
proof (induction rule: world_step.induct)
  case (w_evaluate w e es stats now)
  show ?case by (rule world_good_run [OF w_evaluate]) (rule step_ok_op [OF Evaluate_ok])
next
  case (w_reload w e) show ?case by (rule world_good_run [OF w_reload]) (rule Reload_ok)
next
  case (w_create w e r) show ?case by (rule world_good_run [OF w_create]) (rule CreateRule_ok)
next
  case (w_update w e i r) show ?case by (rule world_good_run [OF w_update]) (rule UpdateRule_ok)
next
  case (w_delete w e i) show ?case by (rule world_good_run [OF w_delete]) (rule DeleteRule_ok)
next
  case (w_acknowledge w e i u) show ?case by (rule world_good_run [OF w_acknowledge]) (rule AcknowledgeAlert_ok)
next
  case (w_resolve w e i) show ?case by (rule world_good_run [OF w_resolve]) (rule ResolveAlert_ok)
next
  case (w_resolve_device w e d reason) show ?case by (rule world_good_run [OF w_resolve_device]) (rule ResolveDeviceAlerts_ok)
next
  case (w_settings w cfg)
  then show ?case by (simp add: world_good_def sys_good_def)
next
  case (w_claim fault je dbnow locked sysmonOnly w item db')
  then have wf: "outbox_wf (sy_db (wd_sys w))" by (simp add: world_good_def sys_good_def)
  have op: "op_ok (wd_device_seq w) (wd_sys w) ((wd_sys w)\<lparr>sy_db := db'\<rparr>)"
    using worker_frame_op claimNotification_wf [OF wf w_claim.hyps] claimNotification_frame [OF w_claim.hyps] w_claim.prems
    by (simp add: world_good_def)
  have "item_matches db' item" by (rule claimNotification_item [OF wf w_claim.hyps])
  then show ?case using world_good_op [OF w_claim.prems op] by (simp add: set_db_def world_good_def)
next
  case (w_claim_dead fault je dbnow locked sysmonOnly w db')
  then have wf: "outbox_wf (sy_db (wd_sys w))" by (simp add: world_good_def sys_good_def)
  have op: "op_ok (wd_device_seq w) (wd_sys w) ((wd_sys w)\<lparr>sy_db := db'\<rparr>)"
    using worker_frame_op claimNotification_wf [OF wf w_claim_dead.hyps] claimNotification_frame [OF w_claim_dead.hyps] w_claim_dead.prems
    by (simp add: world_good_def)
  then show ?case using world_good_op [OF w_claim_dead.prems op] by (simp add: set_db_def)
next
  case (w_sent item w fault dbnow)
  then have good: "sys_good (wd_device_seq w) (wd_sys w)" and wf: "outbox_wf (sy_db (wd_sys w))"
    by (simp_all add: world_good_def sys_good_def)
  have "op_ok (wd_device_seq w) (wd_sys w) ((wd_sys w)\<lparr>sy_db := keep_db (sy_db (wd_sys w)) (markNotificationSent fault dbnow item (sy_db (wd_sys w)))\<rparr>)"
    using worker_frame_op [OF good] markNotificationSent_wf [OF wf] op_ok_refl [OF good]
    by (auto simp: keep_db_def split: sum.splits)
  then show ?case using world_good_op [OF w_sent.prems] by (simp add: set_db_def)
next
  case (w_failed item w fault now dbnow err)
  then have good: "sys_good (wd_device_seq w) (wd_sys w)" and wf: "outbox_wf (sy_db (wd_sys w))"
    and match: "item_matches (sy_db (wd_sys w)) item"
    by (simp_all add: world_good_def sys_good_def)
  have "op_ok (wd_device_seq w) (wd_sys w) ((wd_sys w)\<lparr>sy_db := keep_db (sy_db (wd_sys w)) (markNotificationFailed fault now dbnow item err (sy_db (wd_sys w)))\<rparr>)"
    using worker_frame_op [OF good] markNotificationFailed_wf [OF wf match] op_ok_refl [OF good]
    by (auto simp: keep_db_def split: sum.splits)
  then show ?case using world_good_op [OF w_failed.prems] by (simp add: set_db_def)
next
  case (w_recover w fault dbnow)
  then have good: "sys_good (wd_device_seq w) (wd_sys w)" and wf: "outbox_wf (sy_db (wd_sys w))"
    by (simp_all add: world_good_def sys_good_def)
  have "op_ok (wd_device_seq w) (wd_sys w) ((wd_sys w)\<lparr>sy_db := keep_db (sy_db (wd_sys w)) (recoverStaleNotificationClaims fault dbnow (sy_db (wd_sys w)))\<rparr>)"
    using worker_frame_op [OF good] recoverStale_wf [OF wf] op_ok_refl [OF good]
    by (auto simp: keep_db_def split: sum.splits)
  then show ?case using world_good_op [OF w_recover.prems] by (simp add: set_db_def)
next
  case (w_drop w keep) then show ?case by (simp add: world_good_def)
next
  case (w_device_add v w)
  then have good: "sys_good (wd_device_seq w) (wd_sys w)" by (simp add: world_good_def)
  let ?db = "sy_db (wd_sys w)" and ?db' = "sy_db (wd_sys w)\<lparr>db_devices := db_devices (sy_db (wd_sys w)) @ [v]\<rparr>"
  have "outbox_wf ?db' = outbox_wf ?db" by (rule outbox_wf_cong) simp_all
  moreover have "device_ids ?db' = insert (wd_device_seq w) (device_ids ?db)"
    using w_device_add.hyps by (simp add: device_ids_def)
  ultimately have "sys_good (wd_device_seq w + 1) ((wd_sys w)\<lparr>sy_db := ?db'\<rparr>)"
    using good occ_new_device [OF good [unfolded sys_good_def, THEN conjunct2]]
    by (simp add: sys_good_def open_set_def state_set_def rule_ids_def rules_distinct_def)
  then show ?case using w_device_add.prems by (simp add: world_good_def set_db_def item_matches_def)
next
  case (w_device_edit f w)
  let ?db = "sy_db (wd_sys w)" and ?db' = "sy_db (wd_sys w)\<lparr>db_devices := map f (db_devices (sy_db (wd_sys w)))\<rparr>"
  have "outbox_wf ?db' = outbox_wf ?db" by (rule outbox_wf_cong) simp_all
  moreover have "device_ids ?db' = device_ids ?db"
    using w_device_edit.hyps by (simp add: device_ids_def image_image)
  ultimately show ?case using w_device_edit.prems
    by (simp add: world_good_def sys_good_def set_db_def item_matches_def open_set_def state_set_def rule_ids_def rules_distinct_def)
next
  case (w_device_delete w d)
  then have "sys_good (wd_device_seq w) (wd_sys w)" by (simp add: world_good_def)
  from delete_device_ok [OF this, of d] show ?case
    using w_device_delete outbox_grows_items by (auto simp: world_good_def set_db_def)
next
  case (w_restart e w s')
  then have good: "sys_good (wd_device_seq w) (wd_sys w)" by (simp add: world_good_def)
  from NewManager_good [OF _ _ good [unfolded sys_good_def, THEN conjunct2], of x e "sy_settings (wd_sys w)"] good
  show ?case using w_restart.hyps by (simp add: world_good_def sys_good_def)
qed

lemma reachable_good: "reachable x w \<Longrightarrow> world_good w"
proof (induction rule: reachable.induct)
  case (boot db ds e settings s)
  have empty: "open_set db = {}" "state_set db = {}" "outbox_wf db"
    using boot(1) by (simp_all add: fresh_db_def open_set_def state_set_def outbox_wf_def alerts_wf_def)
  have "occ_inv {} (\<lambda>k. None) (open_set db) (state_set db) (rule_ids db) (device_ids db) (db_rule_seq db) ds"
    using boot(1) by (simp add: occ_inv_def empty fresh_db_def)
  from NewManager_good [OF empty(3) _ this, of x e settings] boot show ?case
    by (simp add: world_good_def fresh_db_def)
next
  case (step w w') then show ?case using world_step_good by blast
qed

end
