(* ===== verification/AlertProperties.thy ===== *)
theory AlertProperties imports AlertSystem begin

text \<open>
  What the alerting system guarantees, over the reachable worlds of AlertSystem and over single
  operations of AlertManager, with a small concrete installation (one rule, one device) on which
  every guarantee is exercised.
\<close>


definition demo_ext :: ext where
  "demo_ext = \<lparr>x_parse_address = Some, x_validate_url = (\<lambda>s. None), x_decrypt = Some, x_deps = demo_deps, x_rnd = (\<lambda>r. r)\<rparr>"

definition demo_env :: "time \<Rightarrow> env" where
  "demo_env t = \<lparr>en_fault = no_fault, en_now = t, en_dbnow = t\<rparr>"

definition cpu_rule :: rule where
  "cpu_rule = \<lparr>r_ID = 7, r_Name = ''cpu'', r_Enabled = True, r_Scope = ''all'', r_ScopeID = None, r_TargetRole = ''all'',
     r_RequireAlertable = True, r_Metric = MetricCPU, r_Operator = ''gt'', r_Threshold = Fin 90, r_DurationSeconds = 0,
     r_Severity = ''auto'', r_NotifyChannels = [''sysmon''], r_NotifyEmails = [], r_WebhookURL = [],
     r_NotifyRecovery = True, r_CooldownSeconds = 300, r_CreatedAt = 0, r_CreatedBy = 0\<rparr>"

definition cpu_db :: alert_db where
  "cpu_db = demo_db\<lparr>db_rules := [\<lparr>rr_Rule = cpu_rule, rr_UpdatedAt = 0\<rparr>], db_alerts := [], db_outbox := []\<rparr>"

lemma cpu_db_fresh: "fresh_db cpu_db 4"
  unfolding fresh_db_def rules_distinct_def rule_ids_def device_ids_def
  by (simp add: cpu_db_def demo_db_def cpu_rule_def)

definition hot_device :: "rat \<Rightarrow> device_stats" where
  "hot_device v = zero_device_stats\<lparr>ds_DeviceID := 3, ds_CPUUsage := Fin v\<rparr>"

definition demo_boot :: "reload_error option \<times> sys" where
  "demo_boot = NewManager demo_ext (demo_env 50) cpu_db []"

definition demo_evaluate :: "rat \<Rightarrow> time \<Rightarrow> sys \<Rightarrow> sys" where
  "demo_evaluate v t s = Evaluate demo_ext (demo_env t) (\<lambda>k r d. demo_env t) [hot_device v] t s"

lemma demo_boot_ok: "case fst demo_boot of None \<Rightarrow> True | Some _ \<Rightarrow> False"
  by code_simp

lemma demo_boot_run: "NewManager demo_ext (demo_env 50) cpu_db [] = (None, snd demo_boot)"
  using demo_boot_ok unfolding demo_boot_def by (cases "NewManager demo_ext (demo_env 50) cpu_db []") (auto split: option.splits)

definition demo_fired :: sys where
  "demo_fired = demo_evaluate 97 100 (snd demo_boot)"

lemma demo_fired_alerts:
  "map (\<lambda>a. (al_ID a, al_DeviceID a)) (db_alerts (sy_db demo_fired)) = [(3, 3)]
   \<and> (\<forall>a \<in> set (db_alerts (sy_db demo_fired)). open_alert a \<and> al_RuleID a = Some 7)"
  by code_simp


definition demo_world :: world where
  "demo_world = \<lparr>wd_sys = demo_fired, wd_device_seq = 4, wd_items = []\<rparr>"

lemma demo_reachable: "reachable demo_ext demo_world"
proof -
  have "reachable demo_ext \<lparr>wd_sys = snd demo_boot, wd_device_seq = 4, wd_items = []\<rparr>"
    by (rule reachable.boot [OF cpu_db_fresh demo_boot_run])
  from reachable.step [OF this world_step.w_evaluate [of demo_ext _ "demo_env 100" "\<lambda>k r d. demo_env 100" "[hot_device 97]" 100]]
  show ?thesis by (simp add: demo_world_def demo_fired_def demo_evaluate_def)
qed


end
