(* ===== verification/StatsStore.thy ===== *)
theory StatsStore imports StatsTypes "HOL-Library.Product_Lexorder" begin

text \<open>
  The live statistics store (src/internal/stats/store.go, role_infer.go): device entries keyed by
  MAC, or by "ip:" and the address while no MAC is known, with the MAC to IP and IP to MAC lookups
  that every operation relinks, and the status, counting and clean-up operations. Go maps are
  association lists: where the code ranges over a map, the list order stands for one iteration
  order. The ring of throughput samples and the stability windows are in StatsHistory.
\<close>

section \<open>State\<close>

definition NormalizeMAC :: "string \<Rightarrow> string" where
  "NormalizeMAC mac = to_lower mac"

definition ipKey :: "string \<Rightarrow> string" where
  "ipKey ip = ''ip:'' @ ip"

record store =
  so_devices :: "(string, device_stats) gomap"
  so_byMAC :: "(string, string) gomap"
  so_byIP :: "(string, string) gomap"
  so_lastPoll :: time
  so_staleTimeout :: duration
  so_ipFilter :: "(string \<Rightarrow> bool) option"
  so_throughputHistory :: "throughput_sample list"
  so_throughputIndex :: nat
  so_throughputCount :: nat
  so_stability :: "(string, stability_stats) gomap"

definition throughputHistorySize :: nat where "throughputHistorySize = 60"

definition NewStore :: store where
  "NewStore = \<lparr>so_devices = [], so_byMAC = [], so_byIP = [], so_lastPoll = 0, so_staleTimeout = 5 * minute,
     so_ipFilter = None, so_throughputHistory = replicate throughputHistorySize zero_throughput_sample,
     so_throughputIndex = 0, so_throughputCount = 0, so_stability = []\<rparr>"

definition SetIPFilter :: "(string \<Rightarrow> bool) option \<Rightarrow> store \<Rightarrow> store" where
  "SetIPFilter f s = s\<lparr>so_ipFilter := f\<rparr>"

definition isIPAllowed :: "store \<Rightarrow> string \<Rightarrow> bool" where
  "isIPAllowed s ip = (case so_ipFilter s of None \<Rightarrow> True | Some f \<Rightarrow> ip \<noteq> [] \<and> f ip)"

definition GetIPByMAC :: "store \<Rightarrow> string \<Rightarrow> string" where
  "GetIPByMAC s mac = get_str (so_byMAC s) (NormalizeMAC mac)"

section \<open>Relinking a MAC and an address\<close>

text \<open>Forget who owned the address, if that owner still points at it.\<close>

definition evict_ip :: "string \<Rightarrow> string \<Rightarrow> store \<Rightarrow> store" where
  "evict_ip mac ip s =
     (case map_of (so_byIP s) ip of
        None \<Rightarrow> s
      | Some other \<Rightarrow> if other \<noteq> [] \<and> other \<noteq> mac \<and> map_of (so_byMAC s) other = Some ip
                      then s\<lparr>so_byMAC := AList.update other [] (so_byMAC s)\<rparr> else s)"

text \<open>Drop the reverse lookup of an address, if it still names this MAC.\<close>

definition drop_reverse :: "string \<Rightarrow> string \<Rightarrow> store \<Rightarrow> store" where
  "drop_reverse mac ip s =
     (if map_of (so_byIP s) ip = Some mac then s\<lparr>so_byIP := AList.delete ip (so_byIP s)\<rparr> else s)"

definition leave_ip :: "string \<Rightarrow> string \<Rightarrow> store \<Rightarrow> store" where
  "leave_ip mac ip s =
     (let old = get_str (so_byMAC s) mac in if old \<noteq> [] \<and> old \<noteq> ip then drop_reverse mac old s else s)"

definition set_link :: "string \<Rightarrow> string \<Rightarrow> store \<Rightarrow> store" where
  "set_link mac ip s = s\<lparr>so_byMAC := AList.update mac ip (so_byMAC s),
     so_byIP := (if ip \<noteq> [] then AList.update ip mac (so_byIP s) else so_byIP s)\<rparr>"

definition relink :: "string \<Rightarrow> string \<Rightarrow> store \<Rightarrow> store" where
  "relink mac ip s = set_link mac ip (leave_ip mac ip (evict_ip mac ip s))"

definition set_devices :: "((string, device_stats) gomap \<Rightarrow> (string, device_stats) gomap) \<Rightarrow> store \<Rightarrow> store" where
  "set_devices f s = s\<lparr>so_devices := f (so_devices s)\<rparr>"

definition on_device :: "string \<Rightarrow> (device_stats \<Rightarrow> device_stats) \<Rightarrow> store \<Rightarrow> store" where
  "on_device key f s =
     (case map_of (so_devices s) key of None \<Rightarrow> s | Some ds \<Rightarrow> set_devices (AList.update key (f ds)) s)"

section \<open>Updates\<close>

definition SetIPForMAC :: "string \<Rightarrow> string \<Rightarrow> store \<Rightarrow> bool \<times> store" where
  "SetIPForMAC mac0 ip s =
     (let mac = NormalizeMAC mac0; oldIP = get_str (so_byMAC s) mac in
      if mac = [] then (False, s)
      else if (case so_ipFilter s of None \<Rightarrow> False | Some f \<Rightarrow> ip \<noteq> [] \<and> \<not> f ip) then (False, s)
      else if oldIP = ip then (False, s)
      else
        (let s1 = (if oldIP \<noteq> [] then drop_reverse mac oldIP s else s);
             s2 = set_link mac ip (if ip \<noteq> [] then evict_ip mac ip s1 else s1);
             s3 = on_device mac (\<lambda>ds. ds\<lparr>ds_IP := ip\<rparr>) s2
         in (True, if ip \<noteq> [] then set_devices (AList.delete (ipKey ip)) s3 else s3)))"

text \<open>The interface order: lower-cased id, or name when the id is empty, then the name.\<close>

definition iface_key :: "interface_stats \<Rightarrow> string \<times> string" where
  "iface_key i = (let k = to_lower (ifc_ID i); n = to_lower (ifc_Name i) in (if k = [] then n else k, n))"

definition sort_interfaces :: "device_stats \<Rightarrow> device_stats" where
  "sort_interfaces ds = (if length (ds_Interfaces ds) > 1 then ds\<lparr>ds_Interfaces := sort_key iface_key (ds_Interfaces ds)\<rparr> else ds)"

definition was_online :: "device_stats option \<Rightarrow> bool" where
  "was_online existing =
     (case existing of None \<Rightarrow> False
      | Some e \<Rightarrow> if ds_Status e \<noteq> [] then ds_Status e = StatusOnline else ds_Online e)"

text \<open>What a fresh poll inherits from the entry it replaces: inventory ids and parsed config.\<close>

definition inherit :: "device_stats option \<Rightarrow> device_stats \<Rightarrow> device_stats" where
  "inherit existing ds =
     (case existing of None \<Rightarrow> ds
      | Some e \<Rightarrow> ds\<lparr>ds_DeviceID := (if ds_DeviceID ds = 0 \<and> ds_DeviceID e \<noteq> 0 then ds_DeviceID e else ds_DeviceID ds),
                     ds_SiteID := (if ds_SiteID ds = 0 \<and> ds_SiteID e \<noteq> 0 then ds_SiteID e else ds_SiteID ds),
                     ds_Config := (if ds_Config ds = None \<and> ds_Config e \<noteq> None then ds_Config e else ds_Config ds)\<rparr>)"

definition mark_online :: "time \<Rightarrow> string \<Rightarrow> device_stats \<Rightarrow> device_stats" where
  "mark_online now ip ds = ds\<lparr>ds_IP := ip, ds_Status := StatusOnline, ds_DBStatus := StatusOnline, ds_StatusReason := [],
     ds_Online := True, ds_LastSeen := now, ds_LastError := []\<rparr>"

definition device_key :: "string \<Rightarrow> string \<Rightarrow> string" where
  "device_key mac ip = (if mac \<noteq> [] then mac else ipKey ip)"

definition Update :: "time \<Rightarrow> string \<Rightarrow> device_stats \<Rightarrow> store \<Rightarrow> bool \<times> store" where
  "Update now ip stats0 s =
     (let mac = NormalizeMAC (ds_MAC stats0);
          stats = (mark_online now ip stats0)\<lparr>ds_MAC := mac\<rparr>;
          key = device_key mac ip;
          existing = (case map_of (so_devices s) key of
                        Some e \<Rightarrow> Some e
                      | None \<Rightarrow> if mac \<noteq> [] \<and> ip \<noteq> [] then map_of (so_devices s) (ipKey ip) else None);
          s1 = (if mac \<noteq> [] then relink mac ip (set_devices (AList.delete (ipKey ip)) s) else s)
      in (\<not> was_online existing, set_devices (AList.update key (sort_interfaces (inherit existing stats))) s1))"

definition peerRadioToRadioStats :: "peer_radio_stats option \<Rightarrow> radio_stats option" where
  "peerRadioToRadioStats pr =
     (case pr of None \<Rightarrow> None
      | Some p \<Rightarrow> Some (zero_radio_stats\<lparr>radio_ID := pr_ID p, radio_LinkState := pr_LinkState p, radio_Signal := pr_Signal p,
          radio_NoiseFloor := pr_NoiseFloor p, radio_SignalPerChain := pr_SignalPerChain p, radio_Capacity := pr_Capacity p\<rparr>))"

definition active_radio :: "peer_radio_stats option \<Rightarrow> radio_stats option \<Rightarrow> radio_stats option" where
  "active_radio pr old = (case pr of None \<Rightarrow> old | Some p \<Rightarrow> if pr_Active p then peerRadioToRadioStats pr else old)"

definition norm_peer :: "peer_stats \<Rightarrow> peer_stats" where
  "norm_peer p = p\<lparr>peer_MAC := NormalizeMAC (peer_MAC p)\<rparr>"

definition sta_entry :: "time \<Rightarrow> string \<Rightarrow> string \<Rightarrow> string \<Rightarrow> peer_stats \<Rightarrow> device_stats \<Rightarrow> device_stats" where
  "sta_entry now apMAC apIP effectiveIP p sta = (mark_online now effectiveIP sta)\<lparr>
     ds_MAC := peer_MAC p, ds_Hostname := peer_Hostname p,
     ds_ParentIP := apIP, ds_ParentMAC := apMAC, ds_Uptime := peer_Uptime p,
     ds_GPS := (if gps_Fix (peer_GPS p) \<and> \<not> feq (gps_Lat (peer_GPS p)) (Fin 0) \<and> \<not> feq (gps_Lon (peer_GPS p)) (Fin 0)
                then peer_GPS p else ds_GPS sta),
     ds_Wireless := (ds_Wireless sta)\<lparr>wl_TxRate := peer_TxRate p, wl_RxRate := peer_RxRate p,
       wl_Radio60GHz := active_radio (peer_Radio60GHz p) (wl_Radio60GHz (ds_Wireless sta)),
       wl_Radio5GHz := active_radio (peer_Radio5GHz p) (wl_Radio5GHz (ds_Wireless sta)),
       wl_Radio6GHz := active_radio (peer_Radio6GHz p) (wl_Radio6GHz (ds_Wireless sta)),
       wl_RadioLTU := (if peer_RadioLTU p \<noteq> None then peerRadioToRadioStats (peer_RadioLTU p)
                       else wl_RadioLTU (ds_Wireless sta))\<rparr>\<rparr>"

text \<open>One peer of the list; the second component collects the address changes.\<close>

definition update_peer ::
  "time \<Rightarrow> string \<Rightarrow> string \<Rightarrow> peer_stats option \<Rightarrow> store \<times> (string, string) gomap \<Rightarrow> store \<times> (string, string) gomap" where
  "update_peer now apMAC apIP po acc =
     (case po of None \<Rightarrow> acc | Some p0 \<Rightarrow>
      if peer_MAC p0 = [] then acc
      else (case acc of (s, changes) \<Rightarrow>
        (let p = norm_peer p0; mac = peer_MAC p;
             sta = (case map_of (so_devices s) mac of Some d \<Rightarrow> d
                    | None \<Rightarrow> zero_device_stats\<lparr>ds_MAC := mac, ds_Status := StatusUnknown\<rparr>);
             currentIP = get_str (so_byMAC s) mac;
             effectiveIP = (if isIPAllowed s (peer_IP p) \<and> peer_IP p \<noteq> [] then peer_IP p else currentIP);
             moved = (effectiveIP \<noteq> [] \<and> effectiveIP \<noteq> currentIP);
             s1 = (if moved
                   then set_link mac effectiveIP (evict_ip mac effectiveIP
                          (if currentIP \<noteq> [] then drop_reverse mac currentIP s else s))
                   else if \<not> has_key (so_byMAC s) mac then s\<lparr>so_byMAC := AList.update mac effectiveIP (so_byMAC s)\<rparr>
                   else s)
         in (set_devices (AList.update mac (sta_entry now apMAC apIP effectiveIP p sta)) s1,
             if moved then AList.update mac effectiveIP changes else changes))))"

text \<open>The peer list of an access point is shared with the loop, which normalises its MACs.\<close>

definition set_peers :: "string \<Rightarrow> peer_stats option list \<Rightarrow> store \<Rightarrow> store" where
  "set_peers key peers = on_device key (\<lambda>ap. ap\<lparr>ds_PeerCount := int (length peers), ds_Peers := map (map_option norm_peer) peers\<rparr>)"

definition UpdatePeers ::
  "time \<Rightarrow> string \<Rightarrow> string \<Rightarrow> peer_stats option list \<Rightarrow> store \<Rightarrow> (string, string) gomap \<times> store" where
  "UpdatePeers now apMAC0 apIP peers s =
     (let mac0 = NormalizeMAC apMAC0;
          mapped = get_str (so_byIP s) apIP;
          apMAC = (if mac0 = [] \<and> apIP \<noteq> [] then mapped else mac0);
          s1 = (if mac0 \<noteq> []
                then (if apIP \<noteq> [] then relink mac0 apIP (set_peers mac0 peers s) else set_peers mac0 peers s)
                else if apIP \<noteq> [] then (if mapped \<noteq> [] then set_peers mapped peers s else set_peers (ipKey apIP) peers s)
                else s)
      in case fold (update_peer now apMAC apIP) peers (s1, []) of (s2, changes) \<Rightarrow> (changes, s2))"

text \<open>The key an identity resolves to: the MAC, the MAC its address maps to, or the address.\<close>

definition resolve_mac :: "store \<Rightarrow> string \<Rightarrow> string \<Rightarrow> string" where
  "resolve_mac s mac0 ip =
     (let mac = NormalizeMAC mac0 in if mac \<noteq> [] then mac else if ip \<noteq> [] then get_str (so_byIP s) ip else [])"

definition BindIdentityByMAC :: "string \<Rightarrow> string \<Rightarrow> int \<Rightarrow> int \<Rightarrow> store \<Rightarrow> store" where
  "BindIdentityByMAC mac0 ip deviceID siteID s =
     (let mac = resolve_mac s mac0 ip; key = device_key mac ip in
      if mac = [] \<and> ip = [] then s
      else
        (let ds0 = (case map_of (so_devices s) key of Some d \<Rightarrow> d | None \<Rightarrow> zero_device_stats);
             ds1 = (if deviceID > 0 then ds0\<lparr>ds_DeviceID := deviceID, ds_SiteID := siteID\<rparr> else ds0);
             ds2 = (if mac \<noteq> [] then ds1\<lparr>ds_MAC := mac\<rparr> else ds1);
             ds3 = (if ip \<noteq> [] then ds2\<lparr>ds_IP := ip\<rparr> else ds2);
             s1 = set_devices (AList.update key ds3) s
         in if mac \<noteq> [] \<and> ip \<noteq> [] then set_devices (AList.delete (ipKey ip)) (relink mac ip s1) else s1))"

definition effective_status :: "device_stats \<Rightarrow> device_status" where
  "effective_status ds = (if ds_Status ds = [] then (if ds_Online ds then StatusOnline else StatusUnknown) else ds_Status ds)"

definition SetStatusByMACChanged ::
  "time \<Rightarrow> string \<Rightarrow> string \<Rightarrow> device_status \<Rightarrow> string \<Rightarrow> string \<Rightarrow> bool \<Rightarrow> store \<Rightarrow> (bool \<times> bool) \<times> store" where
  "SetStatusByMACChanged now mac0 ip status0 reason errMsg markSeen s =
     (let status = normalizeStatus status0; mac = resolve_mac s mac0 ip; key = device_key mac ip in
      if mac = [] \<and> ip = [] then ((False, False), s)
      else
        (let found = map_of (so_devices s) key;
             ds0 = (case found of Some d \<Rightarrow> d | None \<Rightarrow> zero_device_stats);
             s1 = (if mac \<noteq> [] \<and> ip \<noteq> [] then relink mac ip s else s);
             ds1 = (if mac \<noteq> [] then ds0\<lparr>ds_MAC := mac\<rparr> else ds0);
             ds2 = (if ip \<noteq> [] then ds1\<lparr>ds_IP := ip\<rparr> else ds1);
             prev = effective_status ds2;
             changed = (found = None \<or> prev \<noteq> status \<or> ds_StatusReason ds2 \<noteq> reason);
             ds3 = ds2\<lparr>ds_Status := status, ds_DBStatus := status, ds_StatusReason := reason, ds_Online := (status = StatusOnline),
                       ds_LastError := (if errMsg \<noteq> [] then errMsg else if status = StatusOnline then [] else ds_LastError ds2),
                       ds_LastSeen := (if markSeen then now else ds_LastSeen ds2)\<rparr>
         in ((prev = StatusOnline \<and> status \<noteq> StatusOnline, changed), set_devices (AList.update key ds3) s1)))"

definition SetStatusByMAC :: "time \<Rightarrow> string \<Rightarrow> string \<Rightarrow> device_status \<Rightarrow> string \<Rightarrow> string \<Rightarrow> bool \<Rightarrow> store \<Rightarrow> bool \<times> store" where
  "SetStatusByMAC now mac ip status reason errMsg markSeen s =
     (case SetStatusByMACChanged now mac ip status reason errMsg markSeen s of ((leftOnline, _), s') \<Rightarrow> (leftOnline, s'))"

definition SetStatus :: "time \<Rightarrow> string \<Rightarrow> device_status \<Rightarrow> string \<Rightarrow> string \<Rightarrow> bool \<Rightarrow> store \<Rightarrow> bool \<times> store" where
  "SetStatus now ip = SetStatusByMAC now [] ip"

definition SetUnknownByMAC :: "time \<Rightarrow> string \<Rightarrow> string \<Rightarrow> string \<Rightarrow> string \<Rightarrow> store \<Rightarrow> bool \<times> store" where
  "SetUnknownByMAC now mac ip reason errMsg = SetStatusByMAC now mac ip StatusUnknown reason errMsg True"

definition SetOfflineWithReasonByMAC :: "time \<Rightarrow> string \<Rightarrow> string \<Rightarrow> string \<Rightarrow> string \<Rightarrow> store \<Rightarrow> bool \<times> store" where
  "SetOfflineWithReasonByMAC now mac ip reason errMsg = SetStatusByMAC now mac ip StatusOffline reason errMsg False"

definition SetUnknown :: "time \<Rightarrow> string \<Rightarrow> string \<Rightarrow> string \<Rightarrow> store \<Rightarrow> bool \<times> store" where
  "SetUnknown now ip reason errMsg = SetStatus now ip StatusUnknown reason errMsg True"

definition SetOfflineWithReason :: "time \<Rightarrow> string \<Rightarrow> string \<Rightarrow> string \<Rightarrow> store \<Rightarrow> bool \<times> store" where
  "SetOfflineWithReason now ip reason errMsg = SetStatus now ip StatusOffline reason errMsg False"

definition SetOffline :: "time \<Rightarrow> string \<Rightarrow> string \<Rightarrow> store \<Rightarrow> bool \<times> store" where
  "SetOffline now ip errMsg = SetOfflineWithReason now ip [] errMsg"

definition SetOfflineByMAC :: "time \<Rightarrow> string \<Rightarrow> string \<Rightarrow> string \<Rightarrow> store \<Rightarrow> bool \<times> store" where
  "SetOfflineByMAC now mac ip errMsg = SetOfflineWithReasonByMAC now mac ip [] errMsg"

definition SetStaleTimeout :: "duration \<Rightarrow> store \<Rightarrow> store" where
  "SetStaleTimeout d s = s\<lparr>so_staleTimeout := d\<rparr>"

definition SetLastPoll :: "time \<Rightarrow> store \<Rightarrow> store" where
  "SetLastPoll t s = s\<lparr>so_lastPoll := t\<rparr>"

definition GetLastPoll :: "store \<Rightarrow> time" where
  "GetLastPoll s = so_lastPoll s"

section \<open>Lookups, removal and counts\<close>

definition Get :: "store \<Rightarrow> string \<Rightarrow> device_stats option" where
  "Get s ip =
     (if ip = [] then None
      else (let mac = get_str (so_byIP s) ip; fallback = map_of (so_devices s) (ipKey ip) in
            if mac \<noteq> [] then (case map_of (so_devices s) mac of Some ds \<Rightarrow> Some ds | None \<Rightarrow> fallback) else fallback))"

definition GetByMAC :: "store \<Rightarrow> string \<Rightarrow> device_stats option" where
  "GetByMAC s mac0 = (let mac = NormalizeMAC mac0 in if mac = [] then None else map_of (so_devices s) mac)"

definition ListAll :: "store \<Rightarrow> device_stats list" where
  "ListAll s = map snd (so_devices s)"

definition ListAPs :: "store \<Rightarrow> device_stats list" where
  "ListAPs s = filter (\<lambda>d. ds_ParentIP d = []) (ListAll s)"

definition ListSTAs :: "store \<Rightarrow> string \<Rightarrow> device_stats list" where
  "ListSTAs s apIP = filter (\<lambda>d. ds_ParentIP d = apIP) (ListAll s)"

definition RemoveByMAC :: "string \<Rightarrow> store \<Rightarrow> store" where
  "RemoveByMAC mac0 s =
     (let mac = NormalizeMAC mac0; ip = get_str (so_byMAC s) mac in
      if mac = [] then s
      else (let s1 = (if ip \<noteq> [] then drop_reverse mac ip s else s)
            in set_devices (AList.delete mac) (s1\<lparr>so_byMAC := AList.delete mac (so_byMAC s1)\<rparr>)))"

definition Remove :: "string \<Rightarrow> store \<Rightarrow> store" where
  "Remove ip s =
     (if ip = [] then s
      else (let mac = get_str (so_byIP s) ip in
            if mac \<noteq> []
            then set_devices (AList.delete mac) (s\<lparr>so_byIP := AList.delete ip (so_byIP s),
                   so_byMAC := (if map_of (so_byMAC s) mac = Some ip then AList.delete mac (so_byMAC s) else so_byMAC s)\<rparr>)
            else set_devices (AList.delete (ipKey ip)) s))"

definition Counts :: "store \<Rightarrow> nat \<times> nat \<times> nat" where
  "Counts s = (let on = length (filter ds_Online (ListAll s)); total = length (ListAll s) in (on, total - on, total))"

definition status_class :: "device_stats \<Rightarrow> device_status" where
  "status_class d =
     (if ds_Status d = StatusOnline \<or> ds_Status d = StatusOffline \<or> ds_Status d = StatusUnknown then ds_Status d
      else if ds_Online d then StatusOnline else StatusUnknown)"

definition CountsByStatus :: "store \<Rightarrow> nat \<times> nat \<times> nat \<times> nat" where
  "CountsByStatus s =
     (let n = (\<lambda>c. length (filter (\<lambda>d. status_class d = c) (ListAll s)))
      in (n StatusOnline, n StatusOffline, n StatusUnknown, length (ListAll s)))"

definition OfflineDevices :: "store \<Rightarrow> device_stats list" where
  "OfflineDevices s = filter (\<lambda>d. ds_Status d = StatusOffline) (ListAll s)"

definition UnknownDevices :: "store \<Rightarrow> device_stats list" where
  "UnknownDevices s = filter (\<lambda>d. ds_Status d = StatusUnknown \<or> (ds_Status d = [] \<and> \<not> ds_Online d)) (ListAll s)"

definition LastSeenBatch :: "store \<Rightarrow> (string, time) gomap" where
  "LastSeenBatch s = foldl (\<lambda>m d. if ds_MAC d \<noteq> [] then AList.update (ds_MAC d) (ds_LastSeen d) m else m) [] (ListAll s)"

text \<open>Stale stations: entries with a parent last seen before the cutoff.\<close>

definition stale_sta :: "time \<Rightarrow> device_stats \<Rightarrow> bool" where
  "stale_sta cutoff d \<longleftrightarrow> (ds_ParentMAC d \<noteq> [] \<or> ds_ParentIP d \<noteq> []) \<and> ds_LastSeen d < cutoff"

definition clean_entry :: "time \<Rightarrow> string \<times> device_stats \<Rightarrow> nat \<times> store \<Rightarrow> nat \<times> store" where
  "clean_entry cutoff kd acc =
     (case kd of (key, d) \<Rightarrow> case acc of (removed, s) \<Rightarrow>
      if \<not> stale_sta cutoff d then acc
      else (let mac = NormalizeMAC (ds_MAC d);
                s1 = (if mac \<noteq> [] then
                        (let s0 = s\<lparr>so_byMAC := AList.delete mac (so_byMAC s)\<rparr>
                         in if ds_IP d \<noteq> [] then drop_reverse mac (ds_IP d) s0 else s0)
                      else s)
            in (removed + 1, set_devices (AList.delete key) s1)))"

definition CleanStale :: "time \<Rightarrow> store \<Rightarrow> nat \<times> store" where
  "CleanStale now s = fold (clean_entry (now - so_staleTimeout s)) (so_devices s) (0, s)"

end
