(* ===== verification/StatsInvariant.thy ===== *)
theory StatsInvariant imports StatsStore begin

text \<open>
  What every operation of the live store keeps: the two lookups are inverse to each other, every
  entry sits under its MAC (or under its address while it has none) and mirrors its status in the
  compatibility fields, and a station with a parent carries the address its MAC maps to.
\<close>

section \<open>The invariant\<close>

lemma NormalizeMAC_idem [simp]: "NormalizeMAC (NormalizeMAC mac) = NormalizeMAC mac"
  by (simp add: NormalizeMAC_def)

definition mac_ok :: "string \<Rightarrow> bool" where
  "mac_ok mac \<longleftrightarrow> mac \<noteq> [] \<and> \<not> prefix ''ip:'' mac \<and> NormalizeMAC mac = mac"

definition links_ok :: "store \<Rightarrow> bool" where
  "links_ok s \<longleftrightarrow>
     (\<forall>ip mac. map_of (so_byIP s) ip = Some mac \<longleftrightarrow> ip \<noteq> [] \<and> map_of (so_byMAC s) mac = Some ip)
     \<and> (\<forall>mac. map_of (so_byMAC s) mac \<noteq> None \<longrightarrow> mac_ok mac)"

definition entry_ok :: "string \<Rightarrow> device_stats \<Rightarrow> bool" where
  "entry_ok k d \<longleftrightarrow> (if ds_MAC d = [] then prefix ''ip:'' k else k = ds_MAC d \<and> \<not> prefix ''ip:'' k)
     \<and> NormalizeMAC (ds_MAC d) = ds_MAC d
     \<and> ds_DBStatus d = ds_Status d \<and> (ds_Online d \<longleftrightarrow> ds_Status d = StatusOnline)"

definition has_parent :: "device_stats \<Rightarrow> bool" where
  "has_parent d \<longleftrightarrow> ds_ParentMAC d \<noteq> [] \<or> ds_ParentIP d \<noteq> []"

definition synced :: "(string \<Rightarrow> string option) \<Rightarrow> device_stats \<Rightarrow> bool" where
  "synced F d \<longleftrightarrow> (\<forall>a. has_parent d \<longrightarrow> ds_MAC d \<noteq> [] \<longrightarrow> F (ds_MAC d) = Some a \<longrightarrow> a \<noteq> [] \<longrightarrow> ds_IP d = a)"

definition devices_ok :: "(string \<Rightarrow> string option) \<Rightarrow> (string, device_stats) gomap \<Rightarrow> bool" where
  "devices_ok F m \<longleftrightarrow> distinct (map fst m) \<and> (\<forall>k d. map_of m k = Some d \<longrightarrow> entry_ok k d \<and> synced F d)"

definition store_ok :: "store \<Rightarrow> bool" where
  "store_ok s \<longleftrightarrow> links_ok s \<and> devices_ok (map_of (so_byMAC s)) (so_devices s)"

section \<open>Relinking\<close>

lemma set_devices_sel [simp]:
  "so_devices (set_devices f s) = f (so_devices s)" "so_byMAC (set_devices f s) = so_byMAC s"
  "so_byIP (set_devices f s) = so_byIP s"
  by (simp_all add: set_devices_def)

lemma evict_devices [simp]: "so_devices (evict_ip mac ip s) = so_devices s"
  by (simp add: evict_ip_def split: option.split)

lemma drop_devices [simp]: "so_devices (drop_reverse mac ip s) = so_devices s"
  by (simp add: drop_reverse_def)

lemma leave_devices [simp]: "so_devices (leave_ip mac ip s) = so_devices s"
  by (simp add: leave_ip_def Let_def)

lemma link_devices [simp]: "so_devices (set_link mac ip s) = so_devices s"
  by (simp add: set_link_def)

lemma relink_devices [simp]: "so_devices (relink mac ip s) = so_devices s"
  by (simp add: relink_def)

lemma links_cong: "so_byMAC s' = so_byMAC s \<Longrightarrow> so_byIP s' = so_byIP s \<Longrightarrow> links_ok s' = links_ok s"
  by (simp add: links_ok_def)

lemma links_set_devices [simp]: "links_ok (set_devices f s) = links_ok s"
  by (rule links_cong) simp_all

lemma evict_leave: "evict_ip mac ip (leave_ip mac ip s) = leave_ip mac ip (evict_ip mac ip s)"
proof (cases "get_str (so_byMAC s) mac \<noteq> [] \<and> get_str (so_byMAC s) mac \<noteq> ip \<and> map_of (so_byIP s) (get_str (so_byMAC s) mac) = Some mac")
  case True
  then have l: "leave_ip mac ip s = s\<lparr>so_byIP := AList.delete (get_str (so_byMAC s) mac) (so_byIP s)\<rparr>"
    by (simp add: leave_ip_def drop_reverse_def)
  show ?thesis
  proof (cases "map_of (so_byIP s) ip")
    case None
    then show ?thesis using True l by (simp add: evict_ip_def)
  next
    case (Some other)
    have e: "evict_ip mac ip s' = (if other \<noteq> [] \<and> other \<noteq> mac \<and> map_of (so_byMAC s) other = Some ip
        then s'\<lparr>so_byMAC := AList.update other [] (so_byMAC s)\<rparr> else s')"
      if "map_of (so_byIP s') ip = Some other" "so_byMAC s' = so_byMAC s" for s'
      using that by (simp add: evict_ip_def)
    have "map_of (AList.delete (get_str (so_byMAC s) mac) (so_byIP s)) ip = Some other" using Some True by auto
    then show ?thesis using True Some by (simp add: l e leave_ip_def drop_reverse_def get_str_def)
  qed
next
  case False
  then have l: "leave_ip mac ip s = s" by (auto simp: leave_ip_def drop_reverse_def Let_def)
  have g: "get_str (so_byMAC (evict_ip mac ip s)) mac = get_str (so_byMAC s) mac" "so_byIP (evict_ip mac ip s) = so_byIP s"
    by (simp_all add: evict_ip_def get_str_def split: option.split)
  have "leave_ip mac ip (evict_ip mac ip s) = evict_ip mac ip s"
    using False by (auto simp: leave_ip_def drop_reverse_def Let_def g)
  then show ?thesis by (simp add: l)
qed

lemma links_D:
  assumes "links_ok s"
  shows links_iff: "map_of (so_byIP s) ip = Some mac \<longleftrightarrow> ip \<noteq> [] \<and> map_of (so_byMAC s) mac = Some ip"
    and links_key: "map_of (so_byMAC s) mac = Some a \<Longrightarrow> mac_ok mac"
    and links_no_empty: "map_of (so_byIP s) [] = None"
proof -
  show iff: "map_of (so_byIP s) ip = Some mac \<longleftrightarrow> ip \<noteq> [] \<and> map_of (so_byMAC s) mac = Some ip" for ip mac
    using assms unfolding links_ok_def by blast
  show "map_of (so_byMAC s) mac = Some a \<Longrightarrow> mac_ok mac" using assms unfolding links_ok_def by blast
  show "map_of (so_byIP s) [] = None" using iff [of "[]"] by (cases "map_of (so_byIP s) []") auto
qed

lemma evict_byMAC:
  assumes "links_ok s" and "ip \<noteq> []"
  shows "map_of (so_byMAC (evict_ip mac ip s)) m =
    (if m \<noteq> mac \<and> map_of (so_byMAC s) m = Some ip then Some [] else map_of (so_byMAC s) m)"
    and "so_byIP (evict_ip mac ip s) = so_byIP s"
proof -
  show "so_byIP (evict_ip mac ip s) = so_byIP s" by (simp add: evict_ip_def split: option.splits)
  show "map_of (so_byMAC (evict_ip mac ip s)) m =
    (if m \<noteq> mac \<and> map_of (so_byMAC s) m = Some ip then Some [] else map_of (so_byMAC s) m)"
  proof (cases "map_of (so_byIP s) ip")
    case None
    then have "map_of (so_byMAC s) m \<noteq> Some ip" using links_iff [OF assms(1), of ip m] assms(2) by auto
    then show ?thesis using None by (simp add: evict_ip_def)
  next
    case (Some other)
    then have o1: "map_of (so_byMAC s) other = Some ip" "other \<noteq> []"
      using links_iff [OF assms(1), of ip other] links_key [OF assms(1)] by (auto simp: mac_ok_def)
    have owner: "map_of (so_byMAC s) m = Some ip \<longleftrightarrow> other = m"
    proof
      assume "map_of (so_byMAC s) m = Some ip"
      then have "map_of (so_byIP s) ip = Some m" using links_iff [OF assms(1)] assms(2) by blast
      then show "other = m" using Some by simp
    qed (use o1 in blast)
    have "evict_ip mac ip s = (if other \<noteq> mac then s\<lparr>so_byMAC := AList.update other [] (so_byMAC s)\<rparr> else s)"
      using Some o1 by (simp add: evict_ip_def)
    then show ?thesis unfolding owner by auto
  qed
qed

lemma evict_empty: "links_ok s \<Longrightarrow> evict_ip mac [] s = s"
  using links_no_empty by (simp add: evict_ip_def)

lemma leave_links:
  "so_byMAC (leave_ip mac ip s) = so_byMAC s"
  "map_of (so_byIP (leave_ip mac ip s)) i =
     (if i \<noteq> [] \<and> i \<noteq> ip \<and> map_of (so_byMAC s) mac = Some i \<and> map_of (so_byIP s) i = Some mac then None else map_of (so_byIP s) i)"
  by (auto simp: leave_ip_def drop_reverse_def get_str_def Let_def split: option.splits)

text \<open>What relinking does to the forward lookup: the MAC gets the address, its former owner none.\<close>

lemma relink_byMAC:
  assumes "links_ok s"
  shows "map_of (so_byMAC (relink mac ip s)) m =
    (if m = mac then Some ip else if ip \<noteq> [] \<and> map_of (so_byMAC s) m = Some ip then Some [] else map_of (so_byMAC s) m)"
  by (cases "ip = []") (simp_all add: relink_def set_link_def leave_links evict_byMAC [OF assms] evict_empty [OF assms])

lemma relink_byIP:
  assumes "links_ok s"
  shows "map_of (so_byIP (relink mac ip s)) i =
    (if i \<noteq> [] \<and> i = ip then Some mac
     else if map_of (so_byMAC s) mac = Some i then None else map_of (so_byIP s) i)"
proof -
  have f: "map_of (so_byMAC (evict_ip mac ip s)) mac = map_of (so_byMAC s) mac"
    by (cases "ip = []") (simp_all add: evict_byMAC [OF assms] evict_empty [OF assms])
  have g: "so_byIP (evict_ip mac ip s) = so_byIP s"
    by (cases "ip = []") (simp_all add: evict_byMAC [OF assms] evict_empty [OF assms])
  show ?thesis
    using links_iff [OF assms, of i mac] links_no_empty [OF assms]
    by (auto simp: relink_def set_link_def leave_links f g evict_empty [OF assms])
qed

lemma relink_links:
  assumes ok: "links_ok s" and mac: "mac_ok mac"
  shows "links_ok (relink mac ip s)"
  unfolding links_ok_def
proof (intro conjI allI impI)
  fix i m
  show "map_of (so_byIP (relink mac ip s)) i = Some m \<longleftrightarrow> i \<noteq> [] \<and> map_of (so_byMAC (relink mac ip s)) m = Some i"
    unfolding relink_byIP [OF ok] relink_byMAC [OF ok]
    using links_iff [OF ok, of i m] links_iff [OF ok, of i mac] by auto
next
  fix m assume "map_of (so_byMAC (relink mac ip s)) m \<noteq> None"
  then show "mac_ok m" using links_key [OF ok, of m] mac unfolding relink_byMAC [OF ok] by (auto split: if_splits)
qed

text \<open>The moves of \<open>SetIPForMAC\<close> and of a peer, which drop the old address first.\<close>

lemma move_is_relink:
  assumes "links_ok s" and "ip \<noteq> get_str (so_byMAC s) mac"
  shows "set_link mac ip (if ip \<noteq> [] then evict_ip mac ip (if get_str (so_byMAC s) mac \<noteq> [] then drop_reverse mac (get_str (so_byMAC s) mac) s else s)
           else (if get_str (so_byMAC s) mac \<noteq> [] then drop_reverse mac (get_str (so_byMAC s) mac) s else s)) = relink mac ip s"
proof -
  have l: "(if get_str (so_byMAC s) mac \<noteq> [] then drop_reverse mac (get_str (so_byMAC s) mac) s else s) = leave_ip mac ip s"
    using assms(2) by (simp add: leave_ip_def Let_def)
  show ?thesis unfolding l using evict_empty [OF assms(1)] by (cases "ip = []") (simp_all add: relink_def evict_leave)
qed


section \<open>Entries under a changed lookup\<close>

lemma devices_okD: "devices_ok F m \<Longrightarrow> map_of m k = Some d \<Longrightarrow> entry_ok k d \<and> synced F d"
  by (simp add: devices_ok_def)

lemma devices_ok_gen:
  assumes ok: "devices_ok F m" and dist: "distinct (map fst m')"
    and new: "\<And>k d. map_of m' k = Some d \<Longrightarrow>
      (map_of m k = Some d \<and> (F' k = F k \<or> F' k = None \<or> F' k = Some [])) \<or> (entry_ok k d \<and> synced F' d)"
  shows "devices_ok F' m'"
  unfolding devices_ok_def
proof (intro conjI dist allI impI)
  fix k d assume d: "map_of m' k = Some d"
  consider "map_of m k = Some d" "F' k = F k \<or> F' k = None \<or> F' k = Some []" | "entry_ok k d" "synced F' d"
    using new [OF d] by blast
  then have "entry_ok k d \<and> synced F' d"
  proof cases
    case 1
    note old = devices_okD [OF ok 1(1)]
    have "ds_MAC d = [] \<or> ds_MAC d = k" using old by (auto simp: entry_ok_def split: if_splits)
    then have "synced F' d" using old 1(2) by (auto simp: synced_def)
    then show ?thesis using old by simp
  qed simp
  then show "entry_ok k d" and "synced F' d" by simp_all
qed

lemma devices_ok_update:
  assumes "devices_ok F m" and "entry_ok k d" and "synced F d"
  shows "devices_ok F (AList.update k d m)"
  by (rule devices_ok_gen [OF assms(1)]) (use assms in \<open>auto simp: devices_ok_def distinct_update split: if_splits\<close>)

lemma devices_ok_delete: "devices_ok F m \<Longrightarrow> devices_ok F (AList.delete k m)"
  by (rule devices_ok_gen [of F m]) (auto simp: devices_ok_def distinct_delete split: if_splits)

text \<open>After a relink: the entry under the MAC is replaced by one with the address, or absent.\<close>

lemma relink_others:
  assumes "links_ok s" and "k \<noteq> mac"
  shows "map_of (so_byMAC (relink mac ip s)) k = map_of (so_byMAC s) k \<or> map_of (so_byMAC (relink mac ip s)) k = Some []"
  using assms by (simp add: relink_byMAC)

lemma put_relinked:
  assumes s: "store_ok s" and mac: "mac_ok mac" and d: "entry_ok mac d" "ds_IP d = ip" "ds_MAC d = mac"
  shows "store_ok (set_devices (AList.update mac d) (relink mac ip s))"
proof -
  have l: "links_ok s" and dv: "devices_ok (map_of (so_byMAC s)) (so_devices s)" using s by (simp_all add: store_ok_def)
  have "devices_ok (map_of (so_byMAC (relink mac ip s))) (AList.update mac d (so_devices s))"
  proof (rule devices_ok_gen [OF dv])
    show "distinct (map fst (AList.update mac d (so_devices s)))" using dv by (simp add: devices_ok_def distinct_update)
    fix k d' assume "map_of (AList.update mac d (so_devices s)) k = Some d'"
    then show "(map_of (so_devices s) k = Some d' \<and>
         (map_of (so_byMAC (relink mac ip s)) k = map_of (so_byMAC s) k \<or> map_of (so_byMAC (relink mac ip s)) k = None
          \<or> map_of (so_byMAC (relink mac ip s)) k = Some [])) \<or>
        (entry_ok k d' \<and> synced (map_of (so_byMAC (relink mac ip s))) d')"
      using relink_others [OF l, of k mac ip] d by (cases "k = mac") (auto simp: synced_def relink_byMAC [OF l])
  qed
  then show ?thesis using relink_links [OF l mac] by (simp add: store_ok_def)
qed

lemma relink_absent:
  assumes s: "store_ok s" and mac: "mac_ok mac" and none: "map_of (so_devices s) mac = None"
  shows "store_ok (relink mac ip s)"
proof -
  have l: "links_ok s" and dv: "devices_ok (map_of (so_byMAC s)) (so_devices s)" using s by (simp_all add: store_ok_def)
  have "devices_ok (map_of (so_byMAC (relink mac ip s))) (so_devices s)"
  proof (rule devices_ok_gen [OF dv])
    show "distinct (map fst (so_devices s))" using dv by (simp add: devices_ok_def)
    fix k d' assume k: "map_of (so_devices s) k = Some d'"
    then have "k \<noteq> mac" using none by auto
    then show "(map_of (so_devices s) k = Some d' \<and>
         (map_of (so_byMAC (relink mac ip s)) k = map_of (so_byMAC s) k \<or> map_of (so_byMAC (relink mac ip s)) k = None
          \<or> map_of (so_byMAC (relink mac ip s)) k = Some [])) \<or>
        (entry_ok k d' \<and> synced (map_of (so_byMAC (relink mac ip s))) d')"
      using k relink_others [OF l] by blast
  qed
  then show ?thesis using relink_links [OF l mac] by (simp add: store_ok_def)
qed

lemma store_ok_put:
  "store_ok s \<Longrightarrow> entry_ok k d \<Longrightarrow> synced (map_of (so_byMAC s)) d \<Longrightarrow> store_ok (set_devices (AList.update k d) s)"
  by (simp add: store_ok_def devices_ok_update)

lemma store_ok_drop: "store_ok s \<Longrightarrow> store_ok (set_devices (AList.delete k) s)"
  by (simp add: store_ok_def devices_ok_delete)

lemma store_ok_cong:
  "so_byMAC s' = so_byMAC s \<Longrightarrow> so_byIP s' = so_byIP s \<Longrightarrow> so_devices s' = so_devices s \<Longrightarrow> store_ok s' = store_ok s"
  by (simp add: store_ok_def links_ok_def)

lemma relink_set_devices: "relink mac ip (set_devices f s) = set_devices f (relink mac ip s)"
proof -
  have e: "evict_ip mac ip (set_devices f s) = set_devices f (evict_ip mac ip s)" for s
    by (simp add: evict_ip_def set_devices_def split: option.split)
  have l: "leave_ip mac ip (set_devices f s) = set_devices f (leave_ip mac ip s)" for s
    by (simp add: leave_ip_def drop_reverse_def set_devices_def Let_def)
  show ?thesis unfolding relink_def e l by (simp add: set_link_def set_devices_def)
qed

lemma set_devices_comp [simp]: "set_devices f (set_devices g s) = set_devices (\<lambda>m. f (g m)) s"
  by (simp add: set_devices_def)


section \<open>Operations\<close>

lemma prefix_ipKey [simp]: "prefix ''ip:'' (ipKey ip)"
  by (simp add: ipKey_def)

text \<open>The MAC an operation is given names a device: it is empty or not of the form "ip:...".\<close>

definition mac_arg :: "string \<Rightarrow> bool" where
  "mac_arg mac \<longleftrightarrow> \<not> prefix ''ip:'' (NormalizeMAC mac)"

lemma store_ok_parts:
  "store_ok s \<Longrightarrow> links_ok s" "store_ok s \<Longrightarrow> devices_ok (map_of (so_byMAC s)) (so_devices s)"
  by (simp_all add: store_ok_def)

lemma store_ok_entry: "store_ok s \<Longrightarrow> map_of (so_devices s) k = Some d \<Longrightarrow> entry_ok k d \<and> synced (map_of (so_byMAC s)) d"
  using devices_okD store_ok_parts(2) by blast

lemma entry_mac: "entry_ok k d \<Longrightarrow> mac_ok k \<Longrightarrow> ds_MAC d = k"
  by (auto simp: entry_ok_def mac_ok_def split: if_splits)

lemma entry_ok_IP [simp]: "entry_ok k (d\<lparr>ds_IP := ip\<rparr>) = entry_ok k d"
  by (simp add: entry_ok_def)

lemma norm_peer_sel [simp]:
  "peer_MAC (norm_peer p) = NormalizeMAC (peer_MAC p)" "peer_IP (norm_peer p) = peer_IP p"
  by (simp_all add: norm_peer_def)

lemma NewStore_ok: "store_ok NewStore"
  by (simp add: NewStore_def store_ok_def links_ok_def devices_ok_def)

lemma SetIPForMAC_ok:
  assumes s: "store_ok s" and arg: "mac_arg mac0"
  shows "store_ok (snd (SetIPForMAC mac0 ip s))"
proof -
  let ?mac = "NormalizeMAC mac0"
  show ?thesis
  proof (cases "?mac = [] \<or> (case so_ipFilter s of None \<Rightarrow> False | Some f \<Rightarrow> ip \<noteq> [] \<and> \<not> f ip) \<or> get_str (so_byMAC s) ?mac = ip")
    case True
    then show ?thesis using s by (auto simp: SetIPForMAC_def Let_def)
  next
    case False
    then have mac: "mac_ok ?mac" using arg by (simp add: mac_ok_def mac_arg_def)
    let ?s2 = "relink ?mac ip s"
    let ?f = "\<lambda>m. if ip \<noteq> [] then AList.delete (ipKey ip) m else m"
    have ne: "ip \<noteq> get_str (so_byMAC s) ?mac" using False by auto
    note r = move_is_relink [OF store_ok_parts(1) [OF s] ne]
    have eq: "snd (SetIPForMAC mac0 ip s) = set_devices ?f (on_device ?mac (\<lambda>ds. ds\<lparr>ds_IP := ip\<rparr>) ?s2)"
      unfolding SetIPForMAC_def Let_def r using False by (auto simp: set_devices_def split: option.splits)
    have "store_ok (on_device ?mac (\<lambda>ds. ds\<lparr>ds_IP := ip\<rparr>) ?s2)"
    proof (cases "map_of (so_devices s) ?mac")
      case None
      then show ?thesis using relink_absent [OF s mac None, of ip] by (simp add: on_device_def)
    next
      case (Some d)
      then have e: "entry_ok ?mac d" using store_ok_entry [OF s] by blast
      then have "entry_ok ?mac (d\<lparr>ds_IP := ip\<rparr>)" by simp
      then show ?thesis using put_relinked [OF s mac, of "d\<lparr>ds_IP := ip\<rparr>" ip] entry_mac [OF e mac] Some
        by (simp add: on_device_def)
    qed
    then show ?thesis unfolding eq using store_ok_drop by (cases "ip = []") (simp_all add: set_devices_def)
  qed
qed

lemma sort_interfaces_sel [simp]:
  "ds_MAC (sort_interfaces d) = ds_MAC d" "ds_IP (sort_interfaces d) = ds_IP d" "ds_Status (sort_interfaces d) = ds_Status d"
  "ds_DBStatus (sort_interfaces d) = ds_DBStatus d" "ds_Online (sort_interfaces d) = ds_Online d"
  "ds_DeviceID (sort_interfaces d) = ds_DeviceID d" "ds_SiteID (sort_interfaces d) = ds_SiteID d"
  "ds_Config (sort_interfaces d) = ds_Config d"
  by (simp_all add: sort_interfaces_def)

lemma inherit_sel [simp]:
  "ds_MAC (inherit e d) = ds_MAC d" "ds_IP (inherit e d) = ds_IP d" "ds_Status (inherit e d) = ds_Status d"
  "ds_DBStatus (inherit e d) = ds_DBStatus d" "ds_Online (inherit e d) = ds_Online d"
  by (simp_all add: inherit_def split: option.split)

lemma mark_online_sel [simp]:
  "ds_MAC (mark_online now ip d) = ds_MAC d" "ds_IP (mark_online now ip d) = ip" "ds_Status (mark_online now ip d) = StatusOnline"
  "ds_DBStatus (mark_online now ip d) = StatusOnline" "ds_Online (mark_online now ip d)"
  by (simp_all add: mark_online_def)

lemma entry_ok_online: "mac_ok mac \<Longrightarrow> ds_MAC d = mac \<Longrightarrow> ds_Status d = StatusOnline \<Longrightarrow>
    ds_DBStatus d = StatusOnline \<Longrightarrow> ds_Online d \<Longrightarrow> entry_ok mac d"
  by (simp add: entry_ok_def mac_ok_def)

lemma Update_ok:
  assumes s: "store_ok s" and arg: "mac_arg (ds_MAC stats)"
  shows "store_ok (snd (Update now ip stats s))"
proof (cases "NormalizeMAC (ds_MAC stats) = []")
  case True
  let ?d = "\<lambda>e. sort_interfaces (inherit e ((mark_online now ip stats)\<lparr>ds_MAC := []\<rparr>))"
  have "store_ok (set_devices (AList.update (ipKey ip) (?d e)) s)" for e
    by (rule store_ok_put [OF s]) (simp_all add: entry_ok_def synced_def NormalizeMAC_def)
  then show ?thesis by (simp add: Update_def Let_def device_key_def True)
next
  case False
  let ?mac = "NormalizeMAC (ds_MAC stats)"
  have mac: "mac_ok ?mac" using arg False by (simp add: mac_ok_def mac_arg_def)
  let ?d = "\<lambda>e. sort_interfaces (inherit e ((mark_online now ip stats)\<lparr>ds_MAC := ?mac\<rparr>))"
  have "store_ok (set_devices (AList.update ?mac (?d e)) (relink ?mac ip (set_devices (AList.delete (ipKey ip)) s)))" for e
    by (rule put_relinked [OF store_ok_drop [OF s] mac]) (simp_all add: entry_ok_online mac)
  then show ?thesis by (simp add: Update_def Let_def device_key_def False del: set_devices_comp)
qed

lemma sta_entry_sel [simp]:
  "ds_MAC (sta_entry now a i e p d) = peer_MAC p" "ds_IP (sta_entry now a i e p d) = e" "ds_Status (sta_entry now a i e p d) = StatusOnline"
  "ds_DBStatus (sta_entry now a i e p d) = StatusOnline" "ds_Online (sta_entry now a i e p d)"
  by (simp_all add: sta_entry_def)

lemma update_peer_ok:
  assumes s: "store_ok (fst acc)" and arg: "\<And>p. po = Some p \<Longrightarrow> mac_arg (peer_MAC p)"
  shows "store_ok (fst (update_peer now apMAC apIP po acc))"
proof (cases "\<exists>p. po = Some p \<and> peer_MAC p \<noteq> []")
  case False
  then show ?thesis using s by (cases po) (auto simp: update_peer_def)
next
  case True
  then obtain p0 where p0: "po = Some p0" "peer_MAC p0 \<noteq> []" by blast
  obtain s ch where acc: "acc = (s, ch)" by fastforce
  have s: "store_ok s" using s acc by simp
  let ?mac = "NormalizeMAC (peer_MAC p0)"
  have mac: "mac_ok ?mac" using arg [OF p0(1)] p0(2) by (simp add: mac_ok_def mac_arg_def NormalizeMAC_def)
  let ?cur = "get_str (so_byMAC s) ?mac"
  let ?eff = "if isIPAllowed s (peer_IP p0) \<and> peer_IP p0 \<noteq> [] then peer_IP p0 else ?cur"
  define sta where "sta = (case map_of (so_devices s) ?mac of Some d \<Rightarrow> d
                    | None \<Rightarrow> zero_device_stats\<lparr>ds_MAC := ?mac, ds_Status := StatusUnknown\<rparr>)"
  define eff where "eff = ?eff"
  define d where "d = sta_entry now apMAC apIP eff (norm_peer p0) sta"
  have d: "ds_MAC d = ?mac" "ds_IP d = eff" "entry_ok ?mac d"
    by (simp_all add: d_def entry_ok_online mac)
  let ?s1 = "if eff \<noteq> [] \<and> eff \<noteq> ?cur
             then set_link ?mac eff (evict_ip ?mac eff (if ?cur \<noteq> [] then drop_reverse ?mac ?cur s else s))
             else if \<not> has_key (so_byMAC s) ?mac then s\<lparr>so_byMAC := AList.update ?mac eff (so_byMAC s)\<rparr> else s"
  have eq: "fst (update_peer now apMAC apIP po acc) = set_devices (AList.update ?mac d) ?s1"
    unfolding update_peer_def p0 acc Let_def d_def eff_def sta_def option.case prod.case norm_peer_sel
    using p0(2) by (simp only: if_False fst_conv)
  show ?thesis
  proof (cases "eff \<noteq> [] \<and> eff \<noteq> ?cur")
    case True
    then have "?s1 = relink ?mac eff s" using move_is_relink [OF store_ok_parts(1) [OF s], of eff ?mac] by simp
    then show ?thesis unfolding eq using put_relinked [OF s mac d(3) d(2) d(1)] by simp
  next
    case stay: False
    show ?thesis
    proof (cases "map_of (so_byMAC s) ?mac")
      case None
      then have e: "eff = []" using stay by (auto simp: eff_def get_str_def split: if_splits)
      let ?s' = "s\<lparr>so_byMAC := AList.update ?mac [] (so_byMAC s)\<rparr>"
      have "links_ok ?s'"
        using store_ok_parts(1) [OF s] mac None unfolding links_ok_def by auto
      moreover have "devices_ok (map_of (so_byMAC ?s')) (so_devices ?s')"
        using store_ok_parts(2) [OF s]
        by (rule devices_ok_gen) (use store_ok_parts(2) [OF s] in \<open>auto simp: devices_ok_def\<close>)
      ultimately have "store_ok ?s'" by (simp add: store_ok_def)
      then have "store_ok (set_devices (AList.update ?mac d) ?s')"
        by (rule store_ok_put) (use d in \<open>simp_all add: synced_def\<close>)
      then show ?thesis unfolding eq using stay e None by (simp add: has_key_def)
    next
      case (Some a)
      then have "eff = a" using stay by (auto simp: eff_def get_str_def split: if_splits)
      then have "store_ok (set_devices (AList.update ?mac d) s)"
        by (intro store_ok_put [OF s]) (use d Some in \<open>simp_all add: synced_def\<close>)
      then show ?thesis unfolding eq using stay Some by (auto simp: has_key_def)
    qed
  qed
qed


lemma on_device_ok:
  assumes s: "store_ok s"
    and f: "\<And>d. ds_MAC (f d) = ds_MAC d \<and> ds_IP (f d) = ds_IP d \<and> ds_Status (f d) = ds_Status d \<and> ds_DBStatus (f d) = ds_DBStatus d
      \<and> ds_Online (f d) = ds_Online d \<and> ds_ParentMAC (f d) = ds_ParentMAC d \<and> ds_ParentIP (f d) = ds_ParentIP d"
  shows "store_ok (on_device k f s)"
proof (cases "map_of (so_devices s) k")
  case (Some d)
  have "entry_ok k (f d) = entry_ok k d" "synced F (f d) = synced F d" for F
    using f [of d] by (simp_all add: entry_ok_def synced_def has_parent_def)
  then have "entry_ok k (f d)" "synced (map_of (so_byMAC s)) (f d)"
    using store_ok_entry [OF s Some] by simp_all
  then show ?thesis using store_ok_put [OF s] Some by (simp add: on_device_def)
qed (simp add: on_device_def s)

text \<open>An entry that already carries the address, or has no parent, may be relinked as it is.\<close>

lemma relink_same:
  assumes s: "store_ok s" and mac: "mac_ok mac"
    and at: "\<And>d. map_of (so_devices s) mac = Some d \<Longrightarrow> has_parent d \<Longrightarrow> ds_IP d = ip"
  shows "store_ok (relink mac ip s)"
proof -
  have l: "links_ok s" and dv: "devices_ok (map_of (so_byMAC s)) (so_devices s)" using s by (simp_all add: store_ok_def)
  have "devices_ok (map_of (so_byMAC (relink mac ip s))) (so_devices s)"
  proof (rule devices_ok_gen [OF dv])
    show "distinct (map fst (so_devices s))" using dv by (simp add: devices_ok_def)
    fix k d assume k: "map_of (so_devices s) k = Some d"
    show "(map_of (so_devices s) k = Some d \<and>
         (map_of (so_byMAC (relink mac ip s)) k = map_of (so_byMAC s) k \<or> map_of (so_byMAC (relink mac ip s)) k = None
          \<or> map_of (so_byMAC (relink mac ip s)) k = Some [])) \<or>
        (entry_ok k d \<and> synced (map_of (so_byMAC (relink mac ip s))) d)"
    proof (cases "k = mac")
      case True
      note e = store_ok_entry [OF s k]
      have "synced (map_of (so_byMAC (relink mac ip s))) d"
        using at [of d] k True entry_mac [of k d] e mac by (simp add: synced_def relink_byMAC [OF l])
      then show ?thesis using e by simp
    qed (use k relink_others [OF l, of k mac ip] in blast)
  qed
  then show ?thesis using relink_links [OF l mac] by (simp add: store_ok_def)
qed

text \<open>The call sites update the access point's own entry with its address first.\<close>

definition ap_at :: "store \<Rightarrow> string \<Rightarrow> string \<Rightarrow> bool" where
  "ap_at s mac ip = (case map_of (so_devices s) mac of None \<Rightarrow> True | Some d \<Rightarrow> has_parent d \<longrightarrow> ds_IP d = ip)"

lemma UpdatePeers_ok:
  assumes s: "store_ok s" and arg: "mac_arg apMAC0" and peers: "\<And>p. Some p \<in> set peers \<Longrightarrow> mac_arg (peer_MAC p)"
    and at: "NormalizeMAC apMAC0 \<noteq> [] \<Longrightarrow> apIP \<noteq> [] \<Longrightarrow> ap_at s (NormalizeMAC apMAC0) apIP"
  shows "store_ok (snd (UpdatePeers now apMAC0 apIP peers s))"
proof -
  let ?mac = "NormalizeMAC apMAC0"
  have sp: "store_ok (set_peers k peers s)" for k
    unfolding set_peers_def by (rule on_device_ok [OF s]) simp
  have r: "store_ok (relink ?mac apIP (set_peers ?mac peers s))" if "?mac \<noteq> []" "apIP \<noteq> []"
  proof (rule relink_same [OF sp])
    show "mac_ok ?mac" using arg that by (simp add: mac_ok_def mac_arg_def)
    show "ds_IP d = apIP" if "map_of (so_devices (set_peers ?mac peers s)) ?mac = Some d" "has_parent d" for d
      using that at \<open>?mac \<noteq> []\<close> \<open>apIP \<noteq> []\<close>
      by (auto simp: set_peers_def on_device_def ap_at_def has_parent_def split: option.splits)
  qed
  have fold: "store_ok (fst (fold (update_peer now m apIP) ps acc))"
    if "store_ok (fst acc)" "set ps \<subseteq> set peers" for ps acc m
    using that
  proof (induction ps arbitrary: acc)
    case (Cons po ps)
    then have "store_ok (fst (update_peer now m apIP po acc))"
      by (intro update_peer_ok) (use peers in auto)
    then show ?case using Cons by simp
  qed simp
  let ?s1 = "if ?mac \<noteq> []
                then (if apIP \<noteq> [] then relink ?mac apIP (set_peers ?mac peers s) else set_peers ?mac peers s)
                else if apIP \<noteq> [] then (if get_str (so_byIP s) apIP \<noteq> [] then set_peers (get_str (so_byIP s) apIP) peers s else set_peers (ipKey apIP) peers s)
                else s"
  have "store_ok ?s1" using s sp r by simp
  then have "store_ok (fst (fold (update_peer now m apIP) peers (?s1, [])))" for m by (intro fold) simp_all
  then show ?thesis unfolding UpdatePeers_def Let_def by (simp only: split_beta snd_conv)
qed

text \<open>The entry an identity resolves to, found or fresh.\<close>

lemma resolve_mac_ok:
  assumes "store_ok s" and "mac_arg mac0"
  shows "resolve_mac s mac0 ip = [] \<or> mac_ok (resolve_mac s mac0 ip)"
proof (cases "NormalizeMAC mac0 = []")
  case True
  show ?thesis
  proof (cases "map_of (so_byIP s) ip")
    case (Some m)
    then have "mac_ok m" using links_iff links_key store_ok_parts(1) [OF assms(1)] by blast
    then show ?thesis using True Some by (simp add: resolve_mac_def get_str_def Let_def)
  qed (use True in \<open>simp add: resolve_mac_def get_str_def Let_def\<close>)
next
  case False
  then show ?thesis using assms(2) by (simp add: resolve_mac_def mac_ok_def mac_arg_def Let_def)
qed

definition entry_for :: "store \<Rightarrow> string \<Rightarrow> string \<Rightarrow> device_stats" where
  "entry_for s mac ip =
     (let d = (case map_of (so_devices s) (device_key mac ip) of Some d \<Rightarrow> d | None \<Rightarrow> zero_device_stats)
      in if mac \<noteq> [] then d\<lparr>ds_MAC := mac\<rparr> else d)"

lemma entry_for_ok:
  assumes s: "store_ok s" and mac: "mac = [] \<or> mac_ok mac"
  shows "entry_ok (device_key mac ip) (entry_for s mac ip) \<and> ds_MAC (entry_for s mac ip) = mac
    \<and> synced (map_of (so_byMAC s)) (entry_for s mac ip)"
proof (cases "map_of (so_devices s) (device_key mac ip)")
  case None
  then show ?thesis using mac
    by (auto simp: entry_for_def Let_def entry_ok_def synced_def has_parent_def device_key_def mac_ok_def zero_device_stats_def NormalizeMAC_def)
next
  case (Some d)
  note e = store_ok_entry [OF s Some]
  have m: "ds_MAC d = mac"
  proof (cases "mac = []")
    case True
    then show ?thesis using e by (auto simp: entry_ok_def device_key_def split: if_splits)
  next
    case False
    then show ?thesis using e mac entry_mac [of mac d] by (simp add: device_key_def)
  qed
  then have "entry_for s mac ip = d" using Some by (simp add: entry_for_def Let_def)
  then show ?thesis using e m by simp
qed

text \<open>Writing the entry back, and relinking when both the MAC and an address are known.\<close>

lemma write_entry_ok:
  assumes s: "store_ok s" and mac: "mac = [] \<or> mac_ok mac"
    and e: "entry_ok (device_key mac ip) d" and d: "ds_MAC d = mac"
    and ip: "ip \<noteq> [] \<Longrightarrow> ds_IP d = ip" and sy: "ip = [] \<Longrightarrow> synced (map_of (so_byMAC s)) d"
  shows "store_ok (set_devices (AList.update (device_key mac ip) d) (if mac \<noteq> [] \<and> ip \<noteq> [] then relink mac ip s else s))"
proof (cases "mac \<noteq> [] \<and> ip \<noteq> []")
  case True
  then have "device_key mac ip = mac" by (simp add: device_key_def)
  then show ?thesis using put_relinked [OF s, of mac d ip] True mac e d ip by simp
next
  case False
  then have "synced (map_of (so_byMAC s)) d" using sy d by (auto simp: synced_def)
  then have "store_ok (set_devices (AList.update (device_key mac ip) d) s)" by (rule store_ok_put [OF s e])
  then show ?thesis using False by auto
qed


lemma entry_ok_status:
  "entry_ok k e \<Longrightarrow> ds_MAC d = ds_MAC e \<Longrightarrow> ds_DBStatus d = ds_Status d \<Longrightarrow> ds_Online d = (ds_Status d = StatusOnline) \<Longrightarrow> entry_ok k d"
  by (auto simp: entry_ok_def)

lemma BindIdentityByMAC_ok:
  assumes s: "store_ok s" and arg: "mac_arg mac0"
  shows "store_ok (BindIdentityByMAC mac0 ip deviceID siteID s)"
proof (cases "resolve_mac s mac0 ip = [] \<and> ip = []")
  case True
  show ?thesis unfolding BindIdentityByMAC_def Let_def if_P [OF True] by (rule s)
next
  case False
  let ?mac = "resolve_mac s mac0 ip"
  define e where "e = entry_for s ?mac ip"
  define old where "old = (case map_of (so_devices s) (device_key ?mac ip) of Some d \<Rightarrow> d | None \<Rightarrow> zero_device_stats)"
  define d where "d =
    (let d1 = (if deviceID > 0 then old\<lparr>ds_DeviceID := deviceID, ds_SiteID := siteID\<rparr> else old);
         d2 = (if ?mac \<noteq> [] then d1\<lparr>ds_MAC := ?mac\<rparr> else d1)
     in if ip \<noteq> [] then d2\<lparr>ds_IP := ip\<rparr> else d2)"
  have same: "ds_MAC d = ds_MAC e" "ds_Status d = ds_Status e" "ds_DBStatus d = ds_DBStatus e" "ds_Online d = ds_Online e"
    "ds_ParentMAC d = ds_ParentMAC e" "ds_ParentIP d = ds_ParentIP e" "ip = [] \<Longrightarrow> ds_IP d = ds_IP e" "ip \<noteq> [] \<Longrightarrow> ds_IP d = ip"
    by (simp_all add: d_def e_def old_def entry_for_def Let_def)
  note mac = resolve_mac_ok [OF s arg, of ip]
  note ok = entry_for_ok [OF s mac, of ip, folded e_def]
  have dm: "ds_MAC d = ?mac" "ip \<noteq> [] \<Longrightarrow> ds_IP d = ip" using ok same by simp_all
  have "entry_ok k d = entry_ok k e" for k by (simp add: same entry_ok_def)
  then have de: "entry_ok (device_key ?mac ip) d" using ok by simp
  have ds: "synced (map_of (so_byMAC s)) d" if "ip = []"
  proof -
    have "synced F d = synced F e" for F using that by (simp add: same synced_def has_parent_def)
    then show ?thesis using ok by simp
  qed
  let ?s1 = "set_devices (AList.update (device_key ?mac ip) d) (if ?mac \<noteq> [] \<and> ip \<noteq> [] then relink ?mac ip s else s)"
  have w: "store_ok ?s1" by (rule write_entry_ok [OF s mac de dm ds])
  let ?key = "device_key ?mac ip"
  have "BindIdentityByMAC mac0 ip deviceID siteID s =
      (if ?mac \<noteq> [] \<and> ip \<noteq> [] then set_devices (AList.delete (ipKey ip)) (relink ?mac ip (set_devices (AList.update ?key d) s))
       else set_devices (AList.update ?key d) s)"
    unfolding BindIdentityByMAC_def Let_def if_not_P [OF False] d_def old_def by (rule refl)
  then have "BindIdentityByMAC mac0 ip deviceID siteID s =
      (if ?mac \<noteq> [] \<and> ip \<noteq> [] then set_devices (AList.delete (ipKey ip)) ?s1 else ?s1)"
    unfolding relink_set_devices by simp
  moreover note w store_ok_drop [OF w, of "ipKey ip"]
  ultimately show ?thesis by presburger
qed

lemma SetStatusByMACChanged_ok:
  assumes s: "store_ok s" and arg: "mac_arg mac0"
  shows "store_ok (snd (SetStatusByMACChanged now mac0 ip status reason err seen s))"
proof (cases "resolve_mac s mac0 ip = [] \<and> ip = []")
  case True
  show ?thesis unfolding SetStatusByMACChanged_def Let_def if_P [OF True] snd_conv by (rule s)
next
  case False
  let ?mac = "resolve_mac s mac0 ip"
  define e where "e = entry_for s ?mac ip"
  define st where "st = normalizeStatus status"
  define d where "d = (if ip \<noteq> [] then e\<lparr>ds_IP := ip\<rparr> else e)\<lparr>ds_Status := st, ds_DBStatus := st, ds_StatusReason := reason,
     ds_Online := (st = StatusOnline),
     ds_LastError := (if err \<noteq> [] then err else if st = StatusOnline then [] else ds_LastError e),
     ds_LastSeen := (if seen then now else ds_LastSeen e)\<rparr>"
  note mac = resolve_mac_ok [OF s arg, of ip]
  note ok = entry_for_ok [OF s mac, of ip, folded e_def]
  have dm: "ds_MAC d = ?mac" "ip \<noteq> [] \<Longrightarrow> ds_IP d = ip" using ok by (simp_all add: d_def)
  have de: "entry_ok (device_key ?mac ip) d"
    by (rule entry_ok_status [OF ok [THEN conjunct1]]) (simp_all add: d_def)
  have ds: "synced (map_of (so_byMAC s)) d" if "ip = []"
  proof -
    have "synced F d = synced F e" for F using that by (simp add: d_def synced_def has_parent_def)
    then show ?thesis using ok by simp
  qed
  have w: "store_ok (set_devices (AList.update (device_key ?mac ip) d) (if ?mac \<noteq> [] \<and> ip \<noteq> [] then relink ?mac ip s else s))"
    by (rule write_entry_ok [OF s mac de dm ds])
  have "snd (SetStatusByMACChanged now mac0 ip status reason err seen s) =
      set_devices (AList.update (device_key ?mac ip) d) (if ?mac \<noteq> [] \<and> ip \<noteq> [] then relink ?mac ip s else s)"
    unfolding SetStatusByMACChanged_def Let_def if_not_P [OF False]
    by (cases "map_of (so_devices s) (device_key ?mac ip)") (simp_all add: d_def e_def st_def entry_for_def Let_def)
  then show ?thesis using w by simp
qed

lemma SetStatusByMAC_ok:
  "store_ok s \<Longrightarrow> mac_arg mac0 \<Longrightarrow> store_ok (snd (SetStatusByMAC now mac0 ip status reason err seen s))"
  using SetStatusByMACChanged_ok [of s mac0 now ip status reason err seen]
  by (cases "SetStatusByMACChanged now mac0 ip status reason err seen s") (auto simp: SetStatusByMAC_def split: prod.split)

text \<open>Forgetting a MAC: its forward entry, the reverse entry of its address, its device.\<close>

lemma forget_ok:
  assumes s: "store_ok s"
    and F: "\<And>m. map_of (so_byMAC s') m = (if m = mac then None else map_of (so_byMAC s) m)"
    and R: "\<And>i. map_of (so_byIP s') i = (if map_of (so_byIP s) i = Some mac then None else map_of (so_byIP s) i)"
    and D: "so_devices s' = so_devices s"
  shows "store_ok s'"
proof -
  note l = store_ok_parts(1) [OF s] and dv = store_ok_parts(2) [OF s]
  have "links_ok s'"
    unfolding links_ok_def
  proof (intro conjI allI impI)
    fix i m
    have "map_of (so_byMAC s) mac = Some i \<Longrightarrow> map_of (so_byMAC s) m = Some i \<Longrightarrow> i \<noteq> [] \<Longrightarrow> m = mac"
      using links_iff [OF l, of i m] links_iff [OF l, of i mac] by simp
    then show "map_of (so_byIP s') i = Some m \<longleftrightarrow> i \<noteq> [] \<and> map_of (so_byMAC s') m = Some i"
      unfolding F R using links_iff [OF l, of i m] links_iff [OF l, of i mac] by auto
  next
    fix m assume "map_of (so_byMAC s') m \<noteq> None"
    then show "mac_ok m" unfolding F using links_key [OF l] by (auto split: if_splits)
  qed
  moreover have "devices_ok (map_of (so_byMAC s')) (so_devices s')"
    unfolding D by (rule devices_ok_gen [OF dv]) (use dv in \<open>auto simp: devices_ok_def F\<close>)
  ultimately show ?thesis by (simp add: store_ok_def)
qed

lemma RemoveByMAC_ok:
  assumes s: "store_ok s"
  shows "store_ok (RemoveByMAC mac0 s)"
proof (cases "NormalizeMAC mac0 = []")
  case False
  let ?mac = "NormalizeMAC mac0" and ?ip = "get_str (so_byMAC s) (NormalizeMAC mac0)"
  note l = store_ok_parts(1) [OF s]
  let ?s1 = "if ?ip \<noteq> [] then drop_reverse ?mac ?ip s else s"
  have "store_ok (?s1\<lparr>so_byMAC := AList.delete ?mac (so_byMAC ?s1)\<rparr>)"
  proof (rule forget_ok [OF s])
    show "map_of (so_byIP (?s1\<lparr>so_byMAC := AList.delete ?mac (so_byMAC ?s1)\<rparr>)) i =
        (if map_of (so_byIP s) i = Some ?mac then None else map_of (so_byIP s) i)" for i
      using links_iff [OF l, of i ?mac] links_iff [OF l, of ?ip ?mac] by (auto simp: drop_reverse_def get_str_def)
  qed (simp_all add: drop_reverse_def)
  then show ?thesis using False store_ok_drop by (simp add: RemoveByMAC_def Let_def)
qed (simp add: RemoveByMAC_def s)

lemma Remove_ok:
  assumes s: "store_ok s"
  shows "store_ok (Remove ip s)"
proof (cases "ip = [] \<or> get_str (so_byIP s) ip = []")
  case True
  then show ?thesis using s store_ok_drop [OF s, of "ipKey ip"] by (cases "ip = []") (simp_all add: Remove_def)
next
  case False
  then obtain mac where mac: "map_of (so_byIP s) ip = Some mac" "mac \<noteq> []" by (auto simp: get_str_def split: option.splits)
  note l = store_ok_parts(1) [OF s]
  have f: "map_of (so_byMAC s) mac = Some ip" using links_iff [OF l] mac by blast
  have "store_ok (s\<lparr>so_byIP := AList.delete ip (so_byIP s), so_byMAC := AList.delete mac (so_byMAC s)\<rparr>)"
  proof (rule forget_ok [OF s])
    show "map_of (so_byIP (s\<lparr>so_byIP := AList.delete ip (so_byIP s), so_byMAC := AList.delete mac (so_byMAC s)\<rparr>)) i =
        (if map_of (so_byIP s) i = Some mac then None else map_of (so_byIP s) i)" for i
      using links_iff [OF l, of i mac] f mac by auto
  qed simp_all
  then show ?thesis using False mac f store_ok_drop by (simp add: Remove_def get_str_def)
qed


section \<open>Clean-up\<close>

lemma stale_has_parent: "stale_sta c d \<Longrightarrow> has_parent d"
  by (simp add: stale_sta_def has_parent_def)

lemma clean_entry_ok:
  assumes s: "store_ok (snd acc)" and d: "map_of (so_devices (snd acc)) k = Some d"
  shows "store_ok (snd (clean_entry c (k, d) acc))
    \<and> so_devices (snd (clean_entry c (k, d) acc)) = (if stale_sta c d then AList.delete k (so_devices (snd acc)) else so_devices (snd acc))
    \<and> fst (clean_entry c (k, d) acc) = fst acc + (if stale_sta c d then 1 else 0)"
proof (cases "stale_sta c d")
  case False
  then show ?thesis using s by (cases acc) (simp add: clean_entry_def)
next
  case True
  obtain n s0 where acc: "acc = (n, s0)" by fastforce
  have s0: "store_ok s0" and e: "entry_ok k d" "synced (map_of (so_byMAC s0)) d"
    using s d store_ok_entry [of s0 k d] by (simp_all add: acc)
  note l = store_ok_parts(1) [OF s0]
  let ?mac = "ds_MAC d"
  have n: "NormalizeMAC ?mac = ?mac" using e by (simp add: entry_ok_def)
  let ?s1 = "if ?mac \<noteq> [] then
      (let s1 = s0\<lparr>so_byMAC := AList.delete ?mac (so_byMAC s0)\<rparr> in if ds_IP d \<noteq> [] then drop_reverse ?mac (ds_IP d) s1 else s1) else s0"
  have "store_ok ?s1"
  proof (cases "?mac = []")
    case False
    have "store_ok (let s1 = s0\<lparr>so_byMAC := AList.delete ?mac (so_byMAC s0)\<rparr> in if ds_IP d \<noteq> [] then drop_reverse ?mac (ds_IP d) s1 else s1)"
    proof (rule forget_ok [OF s0, where mac = ?mac])
      fix i
      have at: "ds_IP d = i" if "map_of (so_byIP s0) i = Some ?mac"
        using that links_iff [OF l, of i ?mac] e(2) stale_has_parent [OF True] False by (auto simp: synced_def)
      have ne: "i \<noteq> []" if "map_of (so_byIP s0) i = Some ?mac" using that links_iff [OF l, of i ?mac] by blast
      show "map_of (so_byIP (let s1 = s0\<lparr>so_byMAC := AList.delete ?mac (so_byMAC s0)\<rparr> in if ds_IP d \<noteq> [] then drop_reverse ?mac (ds_IP d) s1 else s1)) i =
          (if map_of (so_byIP s0) i = Some ?mac then None else map_of (so_byIP s0) i)"
      proof (cases "map_of (so_byIP s0) i = Some ?mac")
        case True
        then show ?thesis using at [OF True] ne [OF True] by (simp add: drop_reverse_def Let_def)
      next
        case False
        then show ?thesis by (auto simp: drop_reverse_def Let_def)
      qed
    qed (simp_all add: drop_reverse_def Let_def)
    then show ?thesis using False by simp
  qed (simp add: s0)
  then have drop: "store_ok (set_devices (AList.delete k) ?s1)" by (rule store_ok_drop)
  have dev: "so_devices ?s1 = so_devices s0" by (simp add: Let_def)
  have eq: "clean_entry c (k, d) acc = (n + 1, set_devices (AList.delete k) ?s1)"
    unfolding clean_entry_def acc prod.case Let_def n using True by (simp only: not_True_eq_False if_False)
  show ?thesis unfolding eq using drop True dev by (simp only: snd_conv fst_conv acc set_devices_sel if_True simp_thms)
qed

lemma clean_loop:
  assumes "store_ok (snd acc)" and "distinct (map fst xs)"
    and "\<forall>kd \<in> set xs. map_of (so_devices (snd acc)) (fst kd) = Some (snd kd)"
  shows "store_ok (snd (fold (clean_entry c) xs acc))
    \<and> fst (fold (clean_entry c) xs acc) = fst acc + length (filter (\<lambda>kd. stale_sta c (snd kd)) xs)
    \<and> (\<forall>k. map_of (so_devices (snd (fold (clean_entry c) xs acc))) k =
          (if \<exists>d. (k, d) \<in> set xs \<and> stale_sta c d then None else map_of (so_devices (snd acc)) k))"
  using assms
proof (induction xs arbitrary: acc)
  case (Cons kd xs)
  obtain k d where kd: "kd = (k, d)" by fastforce
  let ?a = "clean_entry c (k, d) acc"
  have d: "map_of (so_devices (snd acc)) k = Some d" using Cons.prems(3) by (simp add: kd)
  note one = clean_entry_ok [OF Cons.prems(1) d, of c]
  have fresh: "k \<notin> fst ` set xs" and dist: "distinct (map fst xs)" using Cons.prems(2) by (simp_all add: kd)
  have rest: "\<forall>kd' \<in> set xs. map_of (so_devices (snd ?a)) (fst kd') = Some (snd kd')"
    using Cons.prems(3) fresh one by force
  have IH: "store_ok (snd (fold (clean_entry c) xs ?a))
    \<and> fst (fold (clean_entry c) xs ?a) = fst ?a + length (filter (\<lambda>kd. stale_sta c (snd kd)) xs)
    \<and> (\<forall>k'. map_of (so_devices (snd (fold (clean_entry c) xs ?a))) k' =
          (if \<exists>d. (k', d) \<in> set xs \<and> stale_sta c d then None else map_of (so_devices (snd ?a)) k'))"
    by (rule Cons.IH) (use one dist rest in simp_all)
  have "map_of (so_devices (snd ?a)) k' = (if k' = k \<and> stale_sta c d then None else map_of (so_devices (snd acc)) k')" for k'
    using one by simp
  then show ?case using IH one by (auto simp: kd)
qed simp

lemma CleanStale_effect:
  assumes s: "store_ok s"
  shows "store_ok (snd (CleanStale now s))
    \<and> fst (CleanStale now s) = length (filter (stale_sta (now - so_staleTimeout s)) (ListAll s))
    \<and> (\<forall>k. map_of (so_devices (snd (CleanStale now s))) k =
          (case map_of (so_devices s) k of None \<Rightarrow> None
           | Some d \<Rightarrow> if stale_sta (now - so_staleTimeout s) d then None else Some d))"
proof -
  let ?c = "now - so_staleTimeout s"
  have dist: "distinct (map fst (so_devices s))" using store_ok_parts(2) [OF s] by (simp add: devices_ok_def)
  have mem: "(k, d) \<in> set (so_devices s) \<longleftrightarrow> map_of (so_devices s) k = Some d" for k d
    using dist by simp
  have "\<forall>kd \<in> set (so_devices s). map_of (so_devices (snd (0 :: nat, s))) (fst kd) = Some (snd kd)" using mem by (metis prod.collapse snd_conv)
  note loop = clean_loop [OF _ dist this, of ?c]
  have "filter (\<lambda>kd. stale_sta ?c (snd kd)) xs = filter (stale_sta ?c \<circ> snd) xs" for xs :: "(string \<times> device_stats) list"
    by (simp add: comp_def)
  then have "length (filter (\<lambda>kd. stale_sta ?c (snd kd)) (so_devices s)) = length (filter (stale_sta ?c) (ListAll s))"
    by (simp add: ListAll_def filter_map)
  then show ?thesis using loop s unfolding CleanStale_def mem by (auto split: option.split)
qed

section \<open>Reachable stores\<close>

inductive store_step :: "store \<Rightarrow> store \<Rightarrow> bool" where
  s_filter: "store_step s (SetIPFilter f s)"
| s_timeout: "store_step s (SetStaleTimeout t s)"
| s_last_poll: "store_step s (SetLastPoll t s)"
| s_seed: "mac_arg mac \<Longrightarrow> store_step s (snd (SetIPForMAC mac ip s))"
| s_update: "mac_arg (ds_MAC stats) \<Longrightarrow> store_step s (snd (Update now ip stats s))"
| s_peers: "mac_arg mac \<Longrightarrow> (\<And>p. Some p \<in> set peers \<Longrightarrow> mac_arg (peer_MAC p)) \<Longrightarrow>
    (NormalizeMAC mac \<noteq> [] \<Longrightarrow> ip \<noteq> [] \<Longrightarrow> ap_at s (NormalizeMAC mac) ip) \<Longrightarrow>
    store_step s (snd (UpdatePeers now mac ip peers s))"
| s_bind: "mac_arg mac \<Longrightarrow> store_step s (BindIdentityByMAC mac ip deviceID siteID s)"
| s_status: "mac_arg mac \<Longrightarrow> store_step s (snd (SetStatusByMACChanged now mac ip status reason err seen s))"
| s_remove_mac: "store_step s (RemoveByMAC mac s)"
| s_remove: "store_step s (Remove ip s)"
| s_clean: "store_step s (snd (CleanStale now s))"

inductive_cases store_stepE: "store_step s s'"

inductive reachable_store :: "store \<Rightarrow> bool" where
  new: "reachable_store NewStore"
| step: "reachable_store s \<Longrightarrow> store_step s s' \<Longrightarrow> reachable_store s'"

lemma store_step_ok: "store_step s s' \<Longrightarrow> store_ok s \<Longrightarrow> store_ok s'"
proof (induction rule: store_step.induct)
  case (s_filter s f)
  then show ?case using store_ok_cong [of "SetIPFilter f s" s] by (simp add: SetIPFilter_def)
next
  case (s_timeout s t)
  then show ?case using store_ok_cong [of "SetStaleTimeout t s" s] by (simp add: SetStaleTimeout_def)
next
  case (s_last_poll s t)
  then show ?case using store_ok_cong [of "SetLastPoll t s" s] by (simp add: SetLastPoll_def)
next
  case (s_peers mac peers ip s now)
  show ?case by (rule UpdatePeers_ok [OF s_peers.prems s_peers.hyps])
qed (simp_all add: SetIPForMAC_ok Update_ok BindIdentityByMAC_ok SetStatusByMACChanged_ok RemoveByMAC_ok Remove_ok CleanStale_effect)

lemma reachable_store_ok: "reachable_store s \<Longrightarrow> store_ok s"
  by (induction rule: reachable_store.induct) (auto intro: NewStore_ok store_step_ok)

end
