(* ===== verification/StatsProperties.thy ===== *)
theory StatsProperties imports StatsInvariant begin

text \<open>
  What the live store guarantees to the poller, the alert evaluation and the API, on a small
  concrete network: two access points, a station, an address that moves between MACs.
\<close>

section \<open>A concrete store\<close>

definition demo_stats :: "string \<Rightarrow> device_stats" where
  "demo_stats mac = zero_device_stats\<lparr>ds_MAC := mac\<rparr>"

definition demo_store :: store where
  "demo_store = snd (Update 100 ''10.0.0.1'' (demo_stats ''AA'')
     (BindIdentityByMAC ''aa'' ''10.0.0.9'' 7 2 NewStore))"

definition demo_peer :: peer_stats where
  "demo_peer = zero_peer_stats\<lparr>peer_MAC := ''BB'', peer_IP := ''10.0.0.2''\<rparr>"

definition demo_peered :: store where
  "demo_peered = snd (UpdatePeers 100 (ds_MAC (demo_stats ''AA'')) ''10.0.0.1'' [Some demo_peer, None] demo_store)"

lemma not_ip [simp]: "mac_arg ''AA''" "mac_arg ''BB''" "mac_arg ''aa''"
  by code_simp+

lemma demo_store_reachable: "reachable_store demo_store"
proof -
  have "reachable_store (BindIdentityByMAC ''aa'' ''10.0.0.9'' 7 2 NewStore)"
    by (rule reachable_store.step [OF reachable_store.new store_step.s_bind]) simp
  from reachable_store.step [OF this store_step.s_update [of "demo_stats ''AA''" _ 100 "''10.0.0.1''"]]
  show ?thesis by (simp add: demo_store_def demo_stats_def)
qed

section \<open>Identity\<close>



text \<open>A successful poll. After an update with a MAC and an address, both lookups return the same
  entry, online and at that address; no other MAC keeps the address; inventory ids a poll does not
  know are taken from the entry it replaces, or from the placeholder bound by address; and the call
  reports a transition exactly when that entry was not online.
\<close>

theorem Update_spec:
  fixes now :: time
  assumes "reachable_store s" and "mac_arg (ds_MAC stats)" and "ds_MAC stats \<noteq> []" and "ip \<noteq> []"
  defines "s' \<equiv> snd (Update now ip stats s)" and "mac \<equiv> NormalizeMAC (ds_MAC stats)"
    and "old \<equiv> case GetByMAC s (ds_MAC stats) of Some e \<Rightarrow> Some e | None \<Rightarrow> map_of (so_devices s) (ipKey ip)"
  shows "(\<exists>d. Get s' ip = Some d \<and> GetByMAC s' (ds_MAC stats) = Some d \<and> ds_Status d = StatusOnline \<and> ds_IP d = ip
        \<and> ds_LastSeen d = now
        \<and> ds_DeviceID d = (if ds_DeviceID stats \<noteq> 0 then ds_DeviceID stats else case old of None \<Rightarrow> 0 | Some e \<Rightarrow> ds_DeviceID e))
    \<and> (\<forall>m. GetIPByMAC s' m = ip \<longrightarrow> NormalizeMAC m = mac)
    \<and> map_of (so_devices s') (ipKey ip) = None
    \<and> (fst (Update now ip stats s) \<longleftrightarrow> (case old of None \<Rightarrow> True | Some e \<Rightarrow> ds_Status e \<noteq> StatusOnline))"
proof -
  note ok = reachable_store_ok [OF assms(1)]
  have ne: "mac \<noteq> []" using assms(3) by (simp add: mac_def NormalizeMAC_def)
  then have mac: "mac_ok mac" using assms(2) by (simp add: mac_def mac_ok_def mac_arg_def)
  have key: "mac \<noteq> ipKey ip" using mac by (auto simp: mac_ok_def)
  have old: "old = (case map_of (so_devices s) mac of Some e \<Rightarrow> Some e | None \<Rightarrow> map_of (so_devices s) (ipKey ip))"
    using ne by (simp add: old_def GetByMAC_def mac_def Let_def)
  define d where "d = sort_interfaces (inherit old ((mark_online now ip stats)\<lparr>ds_MAC := mac\<rparr>))"
  have s': "s' = set_devices (AList.update mac d) (relink mac ip (set_devices (AList.delete (ipKey ip)) s))"
    and fst: "fst (Update now ip stats s) = (\<not> was_online old)"
    using ne assms(4) unfolding s'_def Update_def Let_def mac_def [symmetric] old d_def
    by (simp_all add: device_key_def del: set_devices_comp)
  have l: "links_ok (set_devices (AList.delete (ipKey ip)) s)" using store_ok_parts(1) [OF ok] by simp
  have byIP: "map_of (so_byIP s') ip = Some mac" using assms(4) by (simp add: s' relink_byIP [OF l])
  have dev: "map_of (so_devices s') mac = Some d" "map_of (so_devices s') (ipKey ip) = None" using key by (simp_all add: s')
  have got: "Get s' ip = Some d" "GetByMAC s' (ds_MAC stats) = Some d"
    using assms(4) ne byIP dev by (simp_all add: Get_def GetByMAC_def get_str_def Let_def mac_def [symmetric])
  have d: "ds_Status d = StatusOnline" "ds_IP d = ip" "ds_LastSeen d = now"
    by (simp_all add: d_def sort_interfaces_def inherit_def mark_online_def split: option.split)
  have id: "ds_DeviceID d = (if ds_DeviceID stats \<noteq> 0 then ds_DeviceID stats else case old of None \<Rightarrow> 0 | Some e \<Rightarrow> ds_DeviceID e)"
    by (cases old) (simp_all add: d_def inherit_def mark_online_def)
  have reach: "reachable_store s'"
    unfolding s'_def by (rule reachable_store.step [OF assms(1) store_step.s_update [OF assms(2)]])
  have own: "NormalizeMAC m = mac" if "GetIPByMAC s' m = ip" for m
  proof -
    have "map_of (so_byMAC s') (NormalizeMAC m) = Some ip"
      using that assms(4) by (auto simp: GetIPByMAC_def get_str_def split: option.splits)
    then have "map_of (so_byIP s') ip = Some (NormalizeMAC m)"
      using links_iff [OF store_ok_parts(1) [OF reachable_store_ok [OF reach]]] assms(4) by blast
    then show ?thesis using byIP by simp
  qed
  have tr: "was_online old \<longleftrightarrow> (case old of None \<Rightarrow> False | Some e \<Rightarrow> ds_Status e = StatusOnline)"
  proof (cases old)
    case (Some e)
    then have "ds_Online e \<longleftrightarrow> ds_Status e = StatusOnline"
      using store_ok_entry [OF ok] by (auto simp: old entry_ok_def split: option.splits)
    then show ?thesis using Some by (simp add: was_online_def)
  qed (simp add: was_online_def)
  show ?thesis using got d id own dev(2) tr fst by (auto split: option.splits)
qed

lemma Update_spec_witness:
  "\<exists>d. Get (snd (Update 200 ''10.0.0.1'' (demo_stats ''AA'') demo_store)) ''10.0.0.1'' = Some d \<and> ds_DeviceID d = 7"
proof -
  have a: "mac_arg (ds_MAC (demo_stats ''AA''))" "ds_MAC (demo_stats ''AA'') \<noteq> []" by (simp_all add: demo_stats_def)
  have id: "map_option ds_DeviceID (GetByMAC demo_store (ds_MAC (demo_stats ''AA''))) = Some 7" by code_simp
  then obtain e where e: "GetByMAC demo_store (ds_MAC (demo_stats ''AA'')) = Some e" "ds_DeviceID e = 7" by auto
  have z: "ds_DeviceID (demo_stats ''AA'') = 0" by code_simp
  from Update_spec [OF demo_store_reachable a, of "''10.0.0.1''" 200] e z show ?thesis by auto
qed


text \<open>Clean-up. It removes exactly the entries that have a parent and were last seen before the
  cutoff, counts them, never touches an access point, and the store stays reachable (so no lookup
  of a removed station survives).
\<close>

theorem CleanStale_exact:
  assumes "reachable_store s"
  shows "reachable_store (snd (CleanStale now s))
    \<and> fst (CleanStale now s) = length (filter (stale_sta (now - so_staleTimeout s)) (ListAll s))
    \<and> (\<forall>k. map_of (so_devices (snd (CleanStale now s))) k =
          (case map_of (so_devices s) k of None \<Rightarrow> None
           | Some d \<Rightarrow> if (ds_ParentMAC d \<noteq> [] \<or> ds_ParentIP d \<noteq> []) \<and> ds_LastSeen d < now - so_staleTimeout s then None else Some d))"
  using CleanStale_effect [OF reachable_store_ok [OF assms], of now]
    reachable_store.step [OF assms store_step.s_clean [of s now]] unfolding stale_sta_def [symmetric] by blast

lemma Update_ap_at:
  assumes "NormalizeMAC (ds_MAC stats) \<noteq> []" and "mac_arg (ds_MAC stats)"
  shows "ap_at (snd (Update now ip stats s)) (NormalizeMAC (ds_MAC stats)) ip"
  using assms by (simp add: ap_at_def Update_def Let_def device_key_def del: set_devices_comp)

lemma peer_step_entry:
  assumes "po = Some p" and "peer_MAC p \<noteq> []" and "store_ok (fst acc)" and "mac_arg (peer_MAC p)"
  shows "\<exists>d. map_of (so_devices (fst (update_peer now apMAC apIP po acc))) (NormalizeMAC (peer_MAC p)) = Some d
    \<and> ds_Status d = StatusOnline \<and> ds_ParentIP d = apIP \<and> ds_ParentMAC d = apMAC"
  using assms(1,2) by (cases acc) (simp add: update_peer_def Let_def sta_entry_def mark_online_def)

lemma peer_step_keeps:
  assumes "\<exists>d. map_of (so_devices (fst acc)) mac = Some d \<and> ds_Status d = StatusOnline \<and> ds_ParentIP d = apIP \<and> ds_ParentMAC d = apMAC"
  shows "\<exists>d. map_of (so_devices (fst (update_peer now apMAC apIP po acc))) mac = Some d
    \<and> ds_Status d = StatusOnline \<and> ds_ParentIP d = apIP \<and> ds_ParentMAC d = apMAC"
proof (cases "\<exists>p. po = Some p \<and> peer_MAC p \<noteq> []")
  case False
  then show ?thesis using assms by (cases po) (auto simp: update_peer_def)
next
  case True
  then obtain p where p: "po = Some p" "peer_MAC p \<noteq> []" by blast
  obtain s ch where acc: "acc = (s, ch)" by fastforce
  have dev: "\<exists>e sta. so_devices (fst (update_peer now apMAC apIP po acc)) =
      AList.update (NormalizeMAC (peer_MAC p)) (sta_entry now apMAC apIP e (norm_peer p) sta) (so_devices s)"
    using p by (simp add: update_peer_def acc Let_def) blast
  then show ?thesis using assms
    by (cases "mac = NormalizeMAC (peer_MAC p)") (auto simp: acc sta_entry_def mark_online_def)
qed

lemma peer_loop_entry:
  assumes "Some p \<in> set ps" and "peer_MAC p \<noteq> []" and "store_ok (fst acc)" and "\<And>q. Some q \<in> set ps \<Longrightarrow> mac_arg (peer_MAC q)"
  shows "\<exists>d. map_of (so_devices (fst (fold (update_peer now apMAC apIP) ps acc))) (NormalizeMAC (peer_MAC p)) = Some d
    \<and> ds_Status d = StatusOnline \<and> ds_ParentIP d = apIP \<and> ds_ParentMAC d = apMAC"
proof -
  have keep: "\<exists>d. map_of (so_devices (fst (fold (update_peer now apMAC apIP) qs a))) mac = Some d
      \<and> ds_Status d = StatusOnline \<and> ds_ParentIP d = apIP \<and> ds_ParentMAC d = apMAC"
    if "\<exists>d. map_of (so_devices (fst a)) mac = Some d \<and> ds_Status d = StatusOnline \<and> ds_ParentIP d = apIP \<and> ds_ParentMAC d = apMAC" for a mac qs
    using that by (induction qs arbitrary: a) (simp_all add: peer_step_keeps)
  show ?thesis using assms
  proof (induction ps arbitrary: acc)
    case (Cons po ps)
    show ?case
    proof (cases "po = Some p")
      case True
      have "mac_arg (peer_MAC p)" using Cons.prems(1,4) by blast
      from keep [OF peer_step_entry [OF True Cons.prems(2,3) this]] show ?thesis by simp
    next
      case False
      have "store_ok (fst (update_peer now apMAC apIP po acc))"
        by (rule update_peer_ok) (use Cons.prems in auto)
      then have "\<exists>d. map_of (so_devices (fst (fold (update_peer now apMAC apIP) ps (update_peer now apMAC apIP po acc)))) (NormalizeMAC (peer_MAC p)) = Some d
        \<and> ds_Status d = StatusOnline \<and> ds_ParentIP d = apIP \<and> ds_ParentMAC d = apMAC"
        by (intro Cons.IH) (use Cons.prems False in auto)
      then show ?thesis by simp
    qed
  qed simp
qed

lemma UpdatePeers_reach:
  assumes "reachable_store s" and "mac_arg (ds_MAC stats)" and "NormalizeMAC (ds_MAC stats) \<noteq> []"
    and "\<And>q. Some q \<in> set peers \<Longrightarrow> mac_arg (peer_MAC q)"
  shows "reachable_store (snd (UpdatePeers then_at (ds_MAC stats) ip peers (snd (Update now ip stats s))))"
  by (rule reachable_store.step [OF reachable_store.step [OF assms(1) store_step.s_update [OF assms(2), of _ now ip]] store_step.s_peers [OF assms(2)]])
    (use assms Update_ap_at in auto)

text \<open>C23. The poller's two calls. Updating an access point and then its peers with the same MAC and
  address keeps the store reachable, whatever the peers are; each peer with a MAC is then stored
  as an online station whose parent is the access point, at the address its MAC maps to.
\<close>

theorem poll_cycle:
  assumes "reachable_store s" and "mac_arg (ds_MAC stats)" and "ds_MAC stats \<noteq> []"
    and "\<And>q. Some q \<in> set peers \<Longrightarrow> mac_arg (peer_MAC q)"
  shows "reachable_store (snd (UpdatePeers then_at (ds_MAC stats) ip peers (snd (Update now ip stats s))))
    \<and> (\<forall>p. Some p \<in> set peers \<and> peer_MAC p \<noteq> [] \<longrightarrow>
        (\<exists>d. GetByMAC (snd (UpdatePeers then_at (ds_MAC stats) ip peers (snd (Update now ip stats s)))) (peer_MAC p) = Some d
          \<and> ds_Status d = StatusOnline \<and> ds_ParentIP d = ip \<and> ds_ParentMAC d = NormalizeMAC (ds_MAC stats)))"
proof (intro conjI allI impI)
  have ne: "NormalizeMAC (ds_MAC stats) \<noteq> []" using assms(3) by (simp add: NormalizeMAC_def)
  show "reachable_store (snd (UpdatePeers then_at (ds_MAC stats) ip peers (snd (Update now ip stats s))))"
    by (rule UpdatePeers_reach [OF assms(1,2) ne assms(4)])
  fix p assume p: "Some p \<in> set peers \<and> peer_MAC p \<noteq> []"
  let ?s = "snd (Update now ip stats s)" and ?mac = "NormalizeMAC (ds_MAC stats)"
  let ?s1 = "if ip \<noteq> [] then relink ?mac ip (set_peers ?mac peers ?s) else set_peers ?mac peers ?s"
  have s: "store_ok ?s" by (rule Update_ok [OF reachable_store_ok [OF assms(1)] assms(2)])
  have sp: "store_ok (set_peers ?mac peers ?s)" unfolding set_peers_def by (rule on_device_ok [OF s]) simp
  have mac: "mac_ok ?mac" using assms(2) ne by (simp add: mac_ok_def mac_arg_def)
  have at: "ds_IP d = ip" if "map_of (so_devices (set_peers ?mac peers ?s)) ?mac = Some d" "has_parent d" for d
    using that Update_ap_at [OF ne assms(2), of now ip s]
    by (auto simp: set_peers_def on_device_def ap_at_def has_parent_def split: option.splits)
  have r: "store_ok (relink ?mac ip (set_peers ?mac peers ?s))" by (rule relink_same [OF sp mac at]) assumption+
  have "store_ok ?s1" using sp r by presburger
  then have ok: "store_ok (fst (?s1, [] :: (string, string) gomap))" by simp
  have eq: "so_devices (snd (UpdatePeers then_at (ds_MAC stats) ip peers ?s)) =
      so_devices (fst (fold (update_peer then_at ?mac ip) peers (?s1, [])))"
    using ne by (simp add: UpdatePeers_def Let_def split_beta)
  show "\<exists>d. GetByMAC (snd (UpdatePeers then_at (ds_MAC stats) ip peers ?s)) (peer_MAC p) = Some d
          \<and> ds_Status d = StatusOnline \<and> ds_ParentIP d = ip \<and> ds_ParentMAC d = ?mac"
    using peer_loop_entry [of p peers "(?s1, [])", OF _ _ ok assms(4)] p
    by (simp add: GetByMAC_def Let_def eq NormalizeMAC_def)
qed


lemma poll_cycle_witness:
  "\<exists>d. GetByMAC demo_peered ''BB'' = Some d \<and> ds_ParentMAC d = ''aa'' \<and> ds_ParentIP d = ''10.0.0.1''"
proof -
  let ?s = "BindIdentityByMAC ''aa'' ''10.0.0.9'' 7 2 NewStore"
  have s: "reachable_store ?s" by (rule reachable_store.step [OF reachable_store.new store_step.s_bind]) simp
  have a: "mac_arg (ds_MAC (demo_stats ''AA''))" "ds_MAC (demo_stats ''AA'') \<noteq> []" by (simp_all add: demo_stats_def)
  have q: "mac_arg (peer_MAC q)" if "Some q \<in> set [Some demo_peer, None]" for q using that by (simp add: demo_peer_def)
  have n: "NormalizeMAC ''AA'' = ''aa''" "ds_MAC (demo_stats ''AA'') = ''AA''" "peer_MAC demo_peer = ''BB''" by code_simp+
  have "\<forall>p. Some p \<in> set [Some demo_peer, None] \<and> peer_MAC p \<noteq> [] \<longrightarrow>
        (\<exists>d. GetByMAC demo_peered (peer_MAC p) = Some d \<and> ds_Status d = StatusOnline \<and> ds_ParentIP d = ''10.0.0.1''
          \<and> ds_ParentMAC d = NormalizeMAC (ds_MAC (demo_stats ''AA'')))"
    unfolding demo_peered_def demo_store_def by (rule conjunct2 [OF poll_cycle [OF s a q]])
  from spec [OF this, of demo_peer] show ?thesis unfolding n by auto
qed

lemma CleanStale_exact_witness:
  "fst (CleanStale (100 + 6 * minute) demo_peered) = 1"
proof -
  have s: "reachable_store (BindIdentityByMAC ''aa'' ''10.0.0.9'' 7 2 NewStore)"
    by (rule reachable_store.step [OF reachable_store.new store_step.s_bind]) simp
  have "reachable_store demo_peered"
    unfolding demo_peered_def demo_store_def
    by (rule UpdatePeers_reach [OF s]) (auto simp: demo_stats_def demo_peer_def NormalizeMAC_def)
  from CleanStale_exact [OF this, of "100 + 6 * minute"]
  have "fst (CleanStale (100 + 6 * minute) demo_peered) =
    length (filter (stale_sta (100 + 6 * minute - so_staleTimeout demo_peered)) (ListAll demo_peered))" by blast
  also have "\<dots> = 1" by code_simp
  finally show ?thesis .
qed

text \<open>Status reports. In a reachable store the call says that a device left the online state
  exactly when its entry was online and the new status is not; it says something changed exactly
  when the entry is new or its status or reason differs; afterwards the entry has the status.
\<close>

theorem SetStatus_reports:
  assumes "reachable_store s" and "mac_arg mac0" and "mac0 \<noteq> []"
  shows "\<exists>d. GetByMAC (snd (SetStatusByMACChanged now mac0 ip status reason err seen s)) mac0 = Some d
      \<and> ds_Status d = normalizeStatus status \<and> ds_StatusReason d = reason
      \<and> (fst (fst (SetStatusByMACChanged now mac0 ip status reason err seen s)) \<longleftrightarrow>
           (\<exists>e. GetByMAC s mac0 = Some e \<and> ds_Status e = StatusOnline) \<and> normalizeStatus status \<noteq> StatusOnline)
      \<and> (snd (fst (SetStatusByMACChanged now mac0 ip status reason err seen s)) \<longleftrightarrow>
           (\<forall>e. GetByMAC s mac0 = Some e \<longrightarrow> effective_status e \<noteq> normalizeStatus status \<or> ds_StatusReason e \<noteq> reason))"
proof -
  have ne: "NormalizeMAC mac0 \<noteq> []" using assms(3) by (simp add: NormalizeMAC_def)
  then have r: "resolve_mac s mac0 ip = NormalizeMAC mac0" by (simp add: resolve_mac_def Let_def)
  have go: "\<not> (NormalizeMAC mac0 = [] \<and> ip = [])" using ne by simp
  show ?thesis
  proof (cases "map_of (so_devices s) (NormalizeMAC mac0)")
    case None
    then show ?thesis
      unfolding SetStatusByMACChanged_def Let_def r if_not_P [OF go]
      using ne by (simp add: GetByMAC_def device_key_def Let_def effective_status_def zero_device_stats_def)
  next
    case (Some e)
    have "ds_Online e \<longleftrightarrow> ds_Status e = StatusOnline"
      using store_ok_entry [OF reachable_store_ok [OF assms(1)] Some] by (simp add: entry_ok_def)
    then show ?thesis
      unfolding SetStatusByMACChanged_def Let_def r if_not_P [OF go]
      using ne Some by (simp add: GetByMAC_def device_key_def Let_def effective_status_def)
  qed
qed

lemma SetStatus_reports_witness:
  "fst (fst (SetStatusByMACChanged 300 ''AA'' [] StatusOffline ''timeout'' [] False demo_store))"
proof -
  have "map_option ds_Status (GetByMAC demo_store ''AA'') = Some StatusOnline" by code_simp
  then have "\<exists>e. GetByMAC demo_store ''AA'' = Some e \<and> ds_Status e = StatusOnline" by auto
  moreover have "normalizeStatus StatusOffline \<noteq> StatusOnline" by code_simp
  ultimately show ?thesis
    using SetStatus_reports [OF demo_store_reachable, of "''AA''" 300 "[]" StatusOffline "''timeout''" "[]" False] by auto
qed

end
