(* ===== verification/BoundedLog.thy ===== *)
theory BoundedLog imports Prelude begin

text \<open>
  Logs that keep the newest entries: the interface of the program's bounded buffers. It is met by
  the throughput ring of the live store, the send queues of the WebSocket hub and the debug buffers.
\<close>

definition last_n :: "nat \<Rightarrow> 'a list \<Rightarrow> 'a list" where
  "last_n n xs = drop (length xs - n) xs"

lemma last_n_snoc: "last_n n (last_n n xs @ [x]) = last_n n (xs @ [x])"
  by (cases "n \<le> length xs") (simp_all add: last_n_def Suc_diff_le)

text \<open>A log that keeps the newest entries: what a reader may rely on, whatever stores it.\<close>

locale bounded_log =
  fixes push :: "'a \<Rightarrow> 's \<Rightarrow> 's" and view :: "'s \<Rightarrow> 'a list" and cap :: nat and wf :: "'s \<Rightarrow> bool"
  assumes push_wf: "wf s \<Longrightarrow> wf (push x s)"
    and push_view: "wf s \<Longrightarrow> view (push x s) = last_n cap (view s @ [x])"
begin

lemma pushes_wf: "wf s \<Longrightarrow> wf (fold push xs s)"
  by (induction xs arbitrary: s) (simp_all add: push_wf)

lemma pushes_view: "wf s \<Longrightarrow> view s = last_n cap ys \<Longrightarrow> view (fold push xs s) = last_n cap (ys @ xs)"
proof (induction xs arbitrary: s ys)
  case (Cons x xs)
  have "view (push x s) = last_n cap (ys @ [x])" using Cons.prems by (simp add: push_view last_n_snoc)
  then show ?case using Cons.IH [of "push x s" "ys @ [x]"] push_wf Cons.prems(1) by simp
qed simp

end

end
