(* ===== verification/StatsHistory.thy ===== *)
theory StatsHistory imports StatsStore BoundedLog begin

text \<open>
  The histories of the live store (src/internal/stats/store.go): the ring of the last sixty
  throughput samples, the rolling flap and reboot windows per device; and the pure classifiers of
  the package, signal quality and the role inference of role_infer.go.
\<close>

section \<open>The throughput ring\<close>

definition push_sample :: "throughput_sample \<Rightarrow> store \<Rightarrow> store" where
  "push_sample x s = s\<lparr>so_throughputHistory := (so_throughputHistory s)[so_throughputIndex s := x],
     so_throughputIndex := (so_throughputIndex s + 1) mod throughputHistorySize,
     so_throughputCount := (if so_throughputCount s < throughputHistorySize then so_throughputCount s + 1 else so_throughputCount s)\<rparr>"

definition throughput_now :: "time \<Rightarrow> store \<Rightarrow> throughput_sample" where
  "throughput_now now s =
     (let on = filter ds_Online (ListAll s) in
      \<lparr>tp_Timestamp = now, tp_TxRate = sum_list (map (\<lambda>d. wl_TxRate (ds_Wireless d)) on),
       tp_RxRate = sum_list (map (\<lambda>d. wl_RxRate (ds_Wireless d)) on),
       tp_Online = int (length on), tp_Offline = int (length (filter (\<lambda>d. \<not> ds_Online d) (ListAll s)))\<rparr>)"

definition RecordThroughputSample :: "time \<Rightarrow> store \<Rightarrow> store" where
  "RecordThroughputSample now s = push_sample (throughput_now now s) s"

definition GetThroughputHistory :: "store \<Rightarrow> throughput_sample list" where
  "GetThroughputHistory s =
     (if so_throughputCount s = 0 then []
      else if so_throughputCount s < throughputHistorySize then take (so_throughputCount s) (so_throughputHistory s)
      else map (\<lambda>i. so_throughputHistory s ! ((so_throughputIndex s + i) mod throughputHistorySize)) [0..<throughputHistorySize])"

definition ring_ok :: "store \<Rightarrow> bool" where
  "ring_ok s \<longleftrightarrow> length (so_throughputHistory s) = throughputHistorySize \<and> so_throughputIndex s < throughputHistorySize
     \<and> so_throughputCount s \<le> throughputHistorySize
     \<and> (so_throughputCount s < throughputHistorySize \<longrightarrow> so_throughputIndex s = so_throughputCount s)"

text \<open>The ring itself, for any positive size.\<close>

lemma ring_rotate:
  assumes "length h = n" and "i < n" and "0 < n"
  shows "map (\<lambda>j. h[i := x] ! (((i + 1) mod n + j) mod n)) [0..<n]
    = tl (map (\<lambda>j. h ! ((i + j) mod n)) [0..<n]) @ [x]"
proof (rule nth_equalityI)
  show "length (map (\<lambda>j. h[i := x] ! (((i + 1) mod n + j) mod n)) [0..<n])
      = length (tl (map (\<lambda>j. h ! ((i + j) mod n)) [0..<n]) @ [x])" using assms by simp
  fix j assume "j < length (map (\<lambda>j. h[i := x] ! (((i + 1) mod n + j) mod n)) [0..<n])"
  then have j: "j < n" by simp
  have m: "((i + 1) mod n + j) mod n = (i + (j + 1)) mod n" by (simp add: mod_simps)
  show "map (\<lambda>j. h[i := x] ! (((i + 1) mod n + j) mod n)) [0..<n] ! j
      = (tl (map (\<lambda>j. h ! ((i + j) mod n)) [0..<n]) @ [x]) ! j"
  proof (cases "j + 1 = n")
    case True
    then show ?thesis using assms j m by (auto simp: nth_append)
  next
    case False
    then have "(i + (j + 1)) mod n \<noteq> i" using assms(2) j by (auto simp: mod_if not_less split: if_splits)
    moreover have "(i + (j + 1)) mod n < n" using assms(3) by simp
    ultimately show ?thesis using assms j m False by (auto simp: nth_append nth_tl)
  qed
qed

lemma push_ring_ok: "ring_ok s \<Longrightarrow> ring_ok (push_sample x s)"
  by (auto simp: ring_ok_def push_sample_def throughputHistorySize_def)

lemma push_history:
  assumes "ring_ok s"
  shows "GetThroughputHistory (push_sample x s) = last_n throughputHistorySize (GetThroughputHistory s @ [x])"
proof (cases "so_throughputCount s < throughputHistorySize")
  case True
  let ?c = "so_throughputCount s" and ?h = "so_throughputHistory s" and ?n = throughputHistorySize
  have i: "so_throughputIndex s = ?c" and h: "length ?h = ?n" using assms True by (simp_all add: ring_ok_def)
  have old: "GetThroughputHistory s = take ?c ?h" using True by (simp add: GetThroughputHistory_def)
  have t: "take (?c + 1) (?h[?c := x]) = take ?c ?h @ [x]" using True h by (simp add: take_Suc_conv_app_nth)
  have r: "last_n ?n (GetThroughputHistory s @ [x]) = take ?c ?h @ [x]" using True h by (simp add: old last_n_def)
  show ?thesis
  proof (cases "?c + 1 < ?n")
    case True
    then show ?thesis using i t r by (simp add: GetThroughputHistory_def push_sample_def)
  next
    case False
    then have c: "?c + 1 = ?n" using \<open>?c < ?n\<close> by simp
    have "map (\<lambda>j. ?h[?c := x] ! ((0 + j) mod ?n)) [0..<?n] = ?h[?c := x]"
      by (rule nth_equalityI) (simp_all add: h)
    moreover have "?h[?c := x] = take ?c ?h @ [x]" using t c h by (simp add: take_all)
    ultimately show ?thesis using i c r by (simp add: GetThroughputHistory_def push_sample_def)
  qed
next
  case False
  let ?n = throughputHistorySize and ?h = "so_throughputHistory s" and ?i = "so_throughputIndex s"
  have c: "so_throughputCount s = ?n" and h: "length ?h = ?n" and i: "?i < ?n" and n: "0 < ?n"
    using assms False by (auto simp: ring_ok_def throughputHistorySize_def)
  have old: "GetThroughputHistory s = map (\<lambda>j. ?h ! ((?i + j) mod ?n)) [0..<?n]" using c n by (simp add: GetThroughputHistory_def)
  have "last_n ?n (GetThroughputHistory s @ [x]) = tl (GetThroughputHistory s) @ [x]"
    using n by (simp add: old last_n_def drop_Suc Suc_diff_le)
  moreover have "GetThroughputHistory (push_sample x s) = map (\<lambda>j. ?h[?i := x] ! (((?i + 1) mod ?n + j) mod ?n)) [0..<?n]"
    using c n by (simp add: GetThroughputHistory_def push_sample_def)
  ultimately show ?thesis using ring_rotate [OF h i n] old by simp
qed

interpretation ring: bounded_log push_sample GetThroughputHistory throughputHistorySize ring_ok
  by unfold_locales (simp_all add: push_ring_ok push_history)

lemma NewStore_ring: "ring_ok NewStore"
  by (simp add: ring_ok_def NewStore_def throughputHistorySize_def)

text \<open>The throughput history is the last sixty samples. Whatever samples are pushed into a new
  store, in order, the history read back is the newest sixty of them, oldest first.
\<close>

theorem throughput_history_refines_log:
  "GetThroughputHistory (fold push_sample xs NewStore) = drop (length xs - 60) xs"
proof -
  have "GetThroughputHistory NewStore = last_n throughputHistorySize []"
    by (simp add: GetThroughputHistory_def NewStore_def last_n_def)
  from ring.pushes_view [OF NewStore_ring this, of xs]
  show ?thesis by (simp add: last_n_def throughputHistorySize_def)
qed

section \<open>Stability\<close>

definition day :: duration where "day = 24 * hour"

definition recent :: "time \<Rightarrow> duration \<Rightarrow> time list \<Rightarrow> time list" where
  "recent now window ts = filter (\<lambda>t. now - window < t) ts"

definition track_entry :: "time \<Rightarrow> string \<Rightarrow> string \<Rightarrow> bool \<Rightarrow> int \<Rightarrow> stability_stats \<Rightarrow> stability_stats" where
  "track_entry now ip hostname online uptime st =
     (let flaps = recent now day (stab_FlapTimes st @ (if stab_LastOnline st \<and> \<not> online then [now] else []));
          reboots = recent now day (stab_RebootTimes st @
            (if online \<and> stab_LastOnline st \<and> uptime > 0 \<and> stab_LastUptime st > 0 \<and> uptime < stab_LastUptime st then [now] else []))
      in st\<lparr>stab_IP := ip, stab_Hostname := hostname, stab_LastSeen := now, stab_LastOnline := online, stab_LastUptime := uptime,
            stab_FlapTimes := flaps, stab_RebootTimes := reboots,
            stab_Flaps1h := int (length (recent now hour flaps)), stab_Flaps24h := int (length flaps),
            stab_Reboots1h := int (length (recent now hour reboots)), stab_Reboots24h := int (length reboots)\<rparr>)"

lemma track_entry_sel:
  "stab_FlapTimes (track_entry now ip hostname online uptime st) =
     recent now day (stab_FlapTimes st @ (if stab_LastOnline st \<and> \<not> online then [now] else []))"
  "stab_RebootTimes (track_entry now ip hostname online uptime st) = recent now day (stab_RebootTimes st @
     (if online \<and> stab_LastOnline st \<and> uptime > 0 \<and> stab_LastUptime st > 0 \<and> uptime < stab_LastUptime st then [now] else []))"
  "stab_LastOnline (track_entry now ip hostname online uptime st) = online"
  "stab_LastUptime (track_entry now ip hostname online uptime st) = uptime"
  by (simp_all add: track_entry_def Let_def)

definition new_track :: "time \<Rightarrow> string \<Rightarrow> string \<Rightarrow> bool \<Rightarrow> int \<Rightarrow> stability_stats" where
  "new_track now ip hostname online uptime = zero_stability_stats\<lparr>stab_IP := ip, stab_Hostname := hostname,
     stab_LastOnline := online, stab_LastUptime := uptime, stab_LastSeen := now\<rparr>"

definition stability_key :: "store \<Rightarrow> string \<Rightarrow> string" where
  "stability_key s ip = (let mac = get_str (so_byIP s) ip in if ip \<noteq> [] \<and> mac \<noteq> [] then mac else ip)"

definition TrackStabilityStatus :: "time \<Rightarrow> string \<Rightarrow> string \<Rightarrow> device_status \<Rightarrow> int \<Rightarrow> store \<Rightarrow> store" where
  "TrackStabilityStatus now ip hostname status uptime s =
     (let online = (normalizeStatus status = StatusOnline); key = stability_key s ip
      in s\<lparr>so_stability := AList.update key
           (case map_of (so_stability s) key of
              None \<Rightarrow> new_track now ip hostname online uptime
            | Some st \<Rightarrow> track_entry now ip hostname online uptime st) (so_stability s)\<rparr>)"

definition TrackStability :: "time \<Rightarrow> string \<Rightarrow> string \<Rightarrow> bool \<Rightarrow> int \<Rightarrow> store \<Rightarrow> store" where
  "TrackStability now ip hostname online uptime s =
     TrackStabilityStatus now ip hostname (if online then StatusOnline else StatusOffline) uptime s"

definition GetStabilityStats :: "store \<Rightarrow> stability_stats list" where
  "GetStabilityStats s = map snd (so_stability s)"

definition GetFlappingDevices :: "store \<Rightarrow> int \<Rightarrow> stability_stats list" where
  "GetFlappingDevices s minFlaps = filter (\<lambda>st. minFlaps \<le> stab_Flaps1h st \<or> stab_Reboots1h st > 0) (map snd (so_stability s))"

text \<open>The abstract log of one device: every observation, never pruned.\<close>

record observation =
  obs_time :: time
  obs_online :: bool
  obs_uptime :: int

definition is_flap :: "observation \<Rightarrow> observation \<Rightarrow> bool" where
  "is_flap a b \<longleftrightarrow> obs_online a \<and> \<not> obs_online b"

definition is_reboot :: "observation \<Rightarrow> observation \<Rightarrow> bool" where
  "is_reboot a b \<longleftrightarrow> obs_online a \<and> obs_online b \<and> obs_uptime b > 0 \<and> obs_uptime a > 0 \<and> obs_uptime b < obs_uptime a"

fun event_times :: "(observation \<Rightarrow> observation \<Rightarrow> bool) \<Rightarrow> observation list \<Rightarrow> time list" where
  "event_times P (a # b # xs) = (if P a b then [obs_time b] else []) @ event_times P (b # xs)"
| "event_times P xs = []"

fun observe :: "string \<Rightarrow> string \<Rightarrow> observation \<Rightarrow> stability_stats option \<Rightarrow> stability_stats option" where
  "observe ip host x None = Some (new_track (obs_time x) ip host (obs_online x) (obs_uptime x))"
| "observe ip host x (Some st) = Some (track_entry (obs_time x) ip host (obs_online x) (obs_uptime x) st)"

lemma event_times_snoc:
  "event_times P (xs @ [a, b]) = event_times P (xs @ [a]) @ (if P a b then [obs_time b] else [])"
  by (induction P xs rule: event_times.induct) simp_all

lemma recent_recent:
  "then_at \<le> now \<Longrightarrow> recent now w (recent then_at w ts @ us) = recent now w (ts @ us)"
  by (induction ts) (auto simp: recent_def)

lemma recent_shorter: "v \<le> w \<Longrightarrow> recent now v (recent now w ts) = recent now v ts"
  by (induction ts) (auto simp: recent_def)

lemma hour_le_day: "hour \<le> day"
  by (simp add: day_def hour_def minute_def second_def)



definition demo_log :: "observation list" where
  "demo_log = [\<lparr>obs_time = 0, obs_online = True, obs_uptime = 500\<rparr>, \<lparr>obs_time = minute, obs_online = True, obs_uptime = 20\<rparr>,
     \<lparr>obs_time = 2 * minute, obs_online = False, obs_uptime = 0\<rparr>]"


text \<open>Losing sight of a device counts as a flap. A device last seen online whose next status is
  "unknown" (reachable but not pollable) gets a flap in the window, exactly like an offline one.
\<close>

theorem unknown_counts_as_flap:
  assumes "map_of (so_stability s) (stability_key s ip) = Some st" and "stab_LastOnline st"
    and "normalizeStatus status = StatusUnknown"
  shows "\<exists>st'. map_of (so_stability (TrackStabilityStatus now ip host status uptime s)) (stability_key s ip) = Some st'
    \<and> now \<in> set (stab_FlapTimes st') \<and> 0 < stab_Flaps1h st'"
  using assms by (simp add: TrackStabilityStatus_def Let_def track_entry_def recent_def hour_def minute_def second_def day_def)

lemma unknown_counts_as_flap_witness:
  "\<exists>st. map_of (so_stability (TrackStabilityStatus 60 ''10.0.0.1'' ''ap'' ''unknown'' 0
      (TrackStabilityStatus 0 ''10.0.0.1'' ''ap'' StatusOnline 5 NewStore))) ''10.0.0.1'' = Some st
    \<and> 60 \<in> set (stab_FlapTimes st) \<and> 0 < stab_Flaps1h st"
proof -
  let ?s = "TrackStabilityStatus 0 ''10.0.0.1'' ''ap'' StatusOnline 5 NewStore"
  have k: "stability_key ?s ''10.0.0.1'' = ''10.0.0.1''" by code_simp
  have l: "map_option stab_LastOnline (map_of (so_stability ?s) (stability_key ?s ''10.0.0.1'')) = Some True" by code_simp
  then obtain st where st: "map_of (so_stability ?s) (stability_key ?s ''10.0.0.1'') = Some st" "stab_LastOnline st" by auto
  have n: "normalizeStatus ''unknown'' = StatusUnknown" by code_simp
  from unknown_counts_as_flap [OF st n, of 60 "''ap''" 0] show ?thesis unfolding k .
qed

section \<open>Classifiers\<close>

text \<open>Signal thresholds of the 5 GHz and 60 GHz bands, in dBm.\<close>

definition signal_quality :: "int \<Rightarrow> int \<Rightarrow> int \<Rightarrow> string" where
  "signal_quality good fair signal =
     (if signal = 0 then [] else if signal \<ge> good + 5 then ''excellent'' else if signal > good then ''good''
      else if signal > fair then ''fair'' else ''poor'')"

definition SignalQuality5GHz :: "int \<Rightarrow> string" where
  "SignalQuality5GHz = signal_quality (- 62) (- 70)"

definition SignalQuality60GHz :: "int \<Rightarrow> string" where
  "SignalQuality60GHz = signal_quality (- 55) (- 65)"

definition NormalizeRole :: "string \<Rightarrow> string" where
  "NormalizeRole s =
     (let v = to_lower (trim_space s) in
      if v \<in> {''ap'', ''accesspoint'', ''access_point'', ''access-point''} then ''ap''
      else if v \<in> {''sta'', ''station'', ''client'', ''cpe''} then ''sta''
      else if prefix ''ap'' v then ''ap'' else if prefix ''sta'' v then ''sta'' else [])"

record RoleInference =
  ri_Role :: string
  ri_Source :: string

definition InferRoleFromIdentity :: "string \<Rightarrow> string \<Rightarrow> string \<Rightarrow> RoleInference" where
  "InferRoleFromIdentity platform product flavor =
     (let p = to_lower (trim_space platform); prod = to_lower (trim_space product); flav = to_lower (trim_space flavor);
          unknown = \<lparr>ri_Role = [], ri_Source = []\<rparr>
      in if p = ''ltu'' then
           (if contains_str prod ''rocket'' \<or> contains_str flav ''rocket'' then \<lparr>ri_Role = ''ap'', ri_Source = ''ltu-product''\<rparr>
            else if contains_str prod ''xr'' \<or> contains_str prod ''lr'' \<or> contains_str prod ''lite''
            then \<lparr>ri_Role = ''sta'', ri_Source = ''ltu-product''\<rparr> else unknown)
         else if p = ''wave'' then
           (if contains_str prod ''wave ap'' \<or> contains_str prod ''waveap'' \<or> contains_str flav ''waveap''
            then \<lparr>ri_Role = ''ap'', ri_Source = ''wave-product''\<rparr>
            else if contains_str prod ''wave'' \<or> contains_str flav ''wave'' then \<lparr>ri_Role = ''sta'', ri_Source = ''wave-product''\<rparr>
            else unknown)
         else unknown)"

lemma NormalizeRole_range: "NormalizeRole s \<in> {''ap'', ''sta'', []}"
  by (simp add: NormalizeRole_def Let_def)

lemma NormalizeRole_idem: "NormalizeRole (NormalizeRole s) = NormalizeRole s"
proof -
  have "NormalizeRole ''ap'' = ''ap''" "NormalizeRole ''sta'' = ''sta''" "NormalizeRole [] = []" by code_simp+
  then show ?thesis using NormalizeRole_range [of s] by auto
qed

end
