(* ===== verification/BulkOps.thy ===== *)
theory BulkOps imports Prelude begin

text \<open>
  Bulk operations (src/internal/bulkops/controller.go), sequential part: the configuration, the
  classification of errors, one device operation with its retries and back-off, and the dry run.
  The device operation is a parameter: the error of each attempt, and whether the job's context is
  found cancelled after it or during the wait. Floats are exact rationals; a duration that leaves
  the range of int64 is not modelled.
\<close>

section \<open>Configuration\<close>

record bulk_config =
  bc_MaxGlobalConcurrent :: nat
  bc_MaxPerJob :: nat
  bc_MaxPerAP :: nat
  bc_MaxRetries :: int
  bc_InitialBackoff :: duration
  bc_MaxBackoff :: duration
  bc_BackoffMultiplier :: rat
  bc_OperationTimeout :: duration
  bc_MinDelayBetweenOps :: duration

definition DefaultConfig :: bulk_config where
  "DefaultConfig = \<lparr>bc_MaxGlobalConcurrent = 10, bc_MaxPerJob = 5, bc_MaxPerAP = 3, bc_MaxRetries = 3,
     bc_InitialBackoff = 2 * second, bc_MaxBackoff = 60 * second, bc_BackoffMultiplier = 2,
     bc_OperationTimeout = 5 * minute, bc_MinDelayBetweenOps = 500 * 1000000\<rparr>"

text \<open>\<open>stored\<close>: the decoded setting, None when it is missing, empty or does not decode.\<close>

definition loadConfig :: "bulk_config option \<Rightarrow> bulk_config" where
  "loadConfig stored = (case stored of None \<Rightarrow> DefaultConfig | Some cfg \<Rightarrow> cfg)"

section \<open>Retryable errors\<close>

fun matchesLower :: "string \<Rightarrow> string \<Rightarrow> bool" where
  "matchesLower [] [] = True"
| "matchesLower (a # as) (b # bs) = (lower_char a = lower_char b \<and> matchesLower as bs)"
| "matchesLower as bs = False"

definition containsLower :: "string \<Rightarrow> string \<Rightarrow> bool" where
  "containsLower s sub = list_ex (\<lambda>i. matchesLower (take (length sub) (drop i s)) sub) [0 ..< length s - length sub + 1]"

definition contains_fold :: "string \<Rightarrow> string \<Rightarrow> bool" where
  "contains_fold s sub \<longleftrightarrow> length sub \<le> length s \<and> (s = sub \<or> length s > 0 \<and> containsLower s sub)"

definition retryablePatterns :: "string list" where
  "retryablePatterns = [''timeout'', ''connection refused'', ''connection reset'', ''no such host'', ''temporary failure'',
     ''network is unreachable'', ''i/o timeout'', ''EOF'', ''broken pipe'', ''503'', ''502'', ''504'']"

definition isRetryable :: "string \<Rightarrow> bool" where
  "isRetryable err = list_ex (contains_fold err) retryablePatterns"

lemma matchesLower_iff: "matchesLower a b \<longleftrightarrow> to_lower a = to_lower b"
  unfolding to_lower_def by (induction a b rule: matchesLower.induct) auto

lemma contains_str_iff: "contains_str s sub \<longleftrightarrow> (\<exists>p q. s = p @ sub @ q)"
proof
  assume "contains_str s sub"
  then show "\<exists>p q. s = p @ sub @ q" by (auto simp: contains_str_def list_ex_iff set_suffixes_eq suffix_def prefix_def) blast?
next
  assume "\<exists>p q. s = p @ sub @ q"
  then obtain p q where "s = p @ sub @ q" by blast
  then have "suffix (sub @ q) s" "prefix sub (sub @ q)" by (auto simp: suffix_def)
  then show "contains_str s sub" unfolding contains_str_def list_ex_iff set_suffixes_eq by blast
qed

text \<open>The hand-written search is the case-insensitive substring test.\<close>

lemma contains_fold_iff: "contains_fold s sub \<longleftrightarrow> contains_str (to_lower s) (to_lower sub)"
proof
  assume c: "contains_fold s sub"
  show "contains_str (to_lower s) (to_lower sub)"
  proof (cases "s = sub")
    case False
    with c have "\<exists>i. matchesLower (take (length sub) (drop i s)) sub"
      unfolding contains_fold_def containsLower_def list_ex_iff by blast
    then obtain i where "matchesLower (take (length sub) (drop i s)) sub" ..
    then have "to_lower sub = take (length sub) (drop i (to_lower s))"
      by (simp add: matchesLower_iff to_lower_def take_map drop_map)
    moreover have "to_lower s = take i (to_lower s) @ take (length sub) (drop i (to_lower s)) @ drop (length sub) (drop i (to_lower s))"
      by (simp del: drop_drop)
    ultimately show ?thesis unfolding contains_str_iff by metis
  next
    case True
    then have "to_lower s = [] @ to_lower sub @ []" by simp
    then show ?thesis unfolding contains_str_iff by blast
  qed
next
  assume "contains_str (to_lower s) (to_lower sub)"
  then obtain pre post where s: "to_lower s = pre @ to_lower sub @ post" unfolding contains_str_iff by blast
  have len: "length s = length pre + length sub + length post"
    using arg_cong [OF s, of length] by (simp add: to_lower_def)
  have "to_lower (take (length sub) (drop (length pre) s)) = take (length sub) (drop (length pre) (to_lower s))"
    by (simp add: to_lower_def take_map drop_map)
  also have "\<dots> = to_lower sub" unfolding s by (simp add: to_lower_def)
  finally have m: "matchesLower (take (length sub) (drop (length pre) s)) sub" by (simp add: matchesLower_iff)
  moreover have "length pre \<in> set [0 ..< length s - length sub + 1]" using len by simp
  ultimately have "containsLower s sub" unfolding containsLower_def list_ex_iff by blast
  then show "contains_fold s sub" using len by (cases "s = []") (auto simp: contains_fold_def)
qed

lemma isRetryable_fold: "to_lower a = to_lower b \<Longrightarrow> isRetryable a = isRetryable b"
  unfolding isRetryable_def list_ex_iff contains_fold_iff by simp

section \<open>One operation with retries\<close>

record OpResult =
  or_DeviceID :: int
  or_Status :: string
  or_Message :: string
  or_Error :: string
  or_Attempts :: nat

text \<open>Conversion of a float to an integer drops the fraction.\<close>

definition to_duration :: "rat \<Rightarrow> duration" where
  "to_duration r = (if r < 0 then - \<lfloor>- r\<rfloor> else \<lfloor>r\<rfloor>)"

text \<open>\<open>j\<close>: the nanoseconds of the clock modulo 100.\<close>

definition next_backoff :: "bulk_config \<Rightarrow> nat \<Rightarrow> duration \<Rightarrow> duration" where
  "next_backoff cfg j backoff =
     (let b0 = to_duration (of_int backoff * bc_BackoffMultiplier cfg);
          b = (if b0 > bc_MaxBackoff cfg then bc_MaxBackoff cfg else b0)
      in b + to_duration (of_int b * (1 / 10) * (1 / 2 - of_nat (j mod 100) / 100)))"

definition CalculateBackoff :: "nat \<Rightarrow> int \<Rightarrow> duration \<Rightarrow> duration \<Rightarrow> rat \<Rightarrow> duration" where
  "CalculateBackoff j attempt initial limit multiplier =
     (let b0 = of_int initial * power_int multiplier (attempt - 1);
          b = (if b0 > of_int limit then of_int limit else b0)
      in to_duration (b + b * (1 / 5) * (1 / 2 - of_nat (j mod 100) / 100)))"

record op_env =
  oe_error :: "nat \<Rightarrow> string option"
  oe_cancelled :: "nat \<Rightarrow> bool"
  oe_cancelled_wait :: "nat \<Rightarrow> bool"
  oe_nanos :: "nat \<Rightarrow> nat"

text \<open>
  \<open>left\<close> counts the attempts from this one to the last. The second component lists the back-off
  waits, one per counted retry.
\<close>

fun retry_loop :: "bulk_config \<Rightarrow> op_env \<Rightarrow> nat \<Rightarrow> nat \<Rightarrow> duration \<Rightarrow> OpResult \<Rightarrow> OpResult \<times> duration list" where
  "retry_loop cfg env attempt 0 backoff r = (r, [])"
| "retry_loop cfg env attempt (Suc left) backoff r =
     (let r1 = r\<lparr>or_Attempts := attempt\<rparr> in
      case oe_error env attempt of
        None \<Rightarrow> (r1\<lparr>or_Status := ''success''\<rparr>, [])
      | Some err \<Rightarrow>
          (let r2 = r1\<lparr>or_Error := err\<rparr> in
           if oe_cancelled env attempt then (r2\<lparr>or_Status := ''skipped'', or_Message := ''Job cancelled''\<rparr>, [])
           else if left > 0 \<and> isRetryable err then
             (if oe_cancelled_wait env attempt
              then (r2\<lparr>or_Status := ''skipped'', or_Message := ''Job cancelled during backoff''\<rparr>, [backoff])
              else (case retry_loop cfg env (attempt + 1) left (next_backoff cfg (oe_nanos env attempt) backoff) r2 of
                      (res, waits) \<Rightarrow> (res, backoff # waits)))
           else (r2\<lparr>or_Status := ''failed'', or_Message := ''Failed after '' @ nat_str attempt @ '' attempts''\<rparr>, [])))"

definition executeWithRetry :: "bulk_config \<Rightarrow> op_env \<Rightarrow> int \<Rightarrow> OpResult \<times> duration list" where
  "executeWithRetry cfg env deviceID =
     retry_loop cfg env 1 (nat (bc_MaxRetries cfg)) (bc_InitialBackoff cfg)
       \<lparr>or_DeviceID = deviceID, or_Status = [], or_Message = [], or_Error = [], or_Attempts = 0\<rparr>"

section \<open>Dry run\<close>

record DryRunResult =
  dr_DeviceID :: int
  dr_Compatible :: bool
  dr_Issues :: "string list"
  dr_Warnings :: "string list"

text \<open>\<open>finished\<close>: the devices in the order in which their checks end.\<close>

definition DryRun :: "(int \<Rightarrow> string + DryRunResult) \<Rightarrow> int list \<Rightarrow> DryRunResult list" where
  "DryRun checkFn finished =
     map (\<lambda>i. case checkFn i of
        Inl err \<Rightarrow> \<lparr>dr_DeviceID = i, dr_Compatible = False, dr_Issues = [err], dr_Warnings = []\<rparr>
      | Inr res \<Rightarrow> res) finished"

section \<open>What a retried operation returns\<close>

text \<open>The attempts from \<open>a\<close> up to before \<open>b\<close> failed with errors worth a retry.\<close>

definition retried :: "op_env \<Rightarrow> nat \<Rightarrow> nat \<Rightarrow> bool" where
  "retried env a b = list_all (\<lambda>k. case oe_error env k of None \<Rightarrow> False | Some e \<Rightarrow> isRetryable e) [a ..< b]"

definition verdict :: "op_env \<Rightarrow> nat \<Rightarrow> OpResult \<Rightarrow> bool" where
  "verdict env limit r =
     (case oe_error env (or_Attempts r) of
        None \<Rightarrow> or_Status r = ''success''
      | Some e \<Rightarrow> or_Error r = e \<and>
          (if oe_cancelled env (or_Attempts r) then or_Status r = ''skipped''
           else if or_Attempts r < limit \<and> isRetryable e then or_Status r = ''skipped'' \<and> oe_cancelled_wait env (or_Attempts r)
           else or_Status r = ''failed''))"

lemma retried_step: "retried env a b \<longleftrightarrow> a \<ge> b \<or> (case oe_error env a of None \<Rightarrow> False | Some e \<Rightarrow> isRetryable e) \<and> retried env (Suc a) b"
  unfolding retried_def by (cases "a < b") (simp_all add: upt_rec [of a])

lemma retry_loop_spec:
  assumes "retry_loop cfg env attempt (Suc left) backoff r = (res, waits)" and "or_Message r = []"
  shows "or_DeviceID res = or_DeviceID r \<and> attempt \<le> or_Attempts res \<and> or_Attempts res \<le> attempt + left
    \<and> retried env attempt (or_Attempts res) \<and> verdict env (attempt + left) res
    \<and> length waits = or_Attempts res - attempt + (if or_Message res = ''Job cancelled during backoff'' then 1 else 0)"
  using assms
proof (induction left arbitrary: attempt backoff r res waits)
  case 0
  then show ?case
    by (cases "oe_error env attempt") (auto simp: Let_def retried_def verdict_def split: if_splits)
next
  case (Suc left)
  show ?case
  proof (cases "oe_error env attempt")
    case None
    then show ?thesis using Suc.prems by (auto simp: retried_def verdict_def)
  next
    case (Some err)
    show ?thesis
    proof (cases "\<not> oe_cancelled env attempt \<and> isRetryable err \<and> \<not> oe_cancelled_wait env attempt")
      case True
      obtain res' waits' where rec: "retry_loop cfg env (attempt + 1) (Suc left) (next_backoff cfg (oe_nanos env attempt) backoff)
          (r\<lparr>or_Attempts := attempt, or_Error := err\<rparr>) = (res', waits')" by fastforce
      have eq: "res = res'" "waits = backoff # waits'" using Suc.prems Some True rec by (auto simp del: retry_loop.simps(2) simp: retry_loop.simps(2) [of cfg env attempt])
      have "retried env attempt (or_Attempts res')" if "retried env (Suc attempt) (or_Attempts res')"
        using that Some True retried_step [of env attempt "or_Attempts res'"] by simp
      then show ?thesis using Suc.IH [OF rec] Suc.prems(2) unfolding eq by (simp add: Suc_diff_le) linarith
    next
      case False
      then show ?thesis using Suc.prems Some by (auto simp: Let_def retried_def verdict_def split: if_splits)
    qed
  qed
qed

text \<open>The result of a retried operation. With a positive number of retries the operation is tried
  at least once and at most that often; every attempt before the last one failed with an error
  worth a retry; the status says success exactly when the last attempt succeeded, skipped when the
  job was cancelled, and failed when the attempts are used up or the last error is not worth a retry.
\<close>

theorem retry_result:
  assumes "bc_MaxRetries cfg > 0"
  shows "(case executeWithRetry cfg env deviceID of (r, waits) \<Rightarrow>
     or_DeviceID r = deviceID \<and> 1 \<le> or_Attempts r \<and> int (or_Attempts r) \<le> bc_MaxRetries cfg
     \<and> list_all (\<lambda>k. case oe_error env k of None \<Rightarrow> False | Some e \<Rightarrow> isRetryable e) [1 ..< or_Attempts r]
     \<and> (or_Status r = ''success'') = (oe_error env (or_Attempts r) = None)
     \<and> (or_Status r = ''failed'') =
         (case oe_error env (or_Attempts r) of None \<Rightarrow> False
          | Some e \<Rightarrow> \<not> oe_cancelled env (or_Attempts r) \<and> (int (or_Attempts r) = bc_MaxRetries cfg \<or> \<not> isRetryable e))
     \<and> or_Status r \<in> {''success'', ''failed'', ''skipped''})"
proof -
  obtain left where left: "nat (bc_MaxRetries cfg) = Suc left" using assms by (cases "nat (bc_MaxRetries cfg)") auto
  obtain r waits where ex: "executeWithRetry cfg env deviceID = (r, waits)" by fastforce
  note s = retry_loop_spec [OF ex [unfolded executeWithRetry_def left], simplified]
  have lim: "int (or_Attempts r) \<le> bc_MaxRetries cfg" "or_Attempts r < Suc left \<longleftrightarrow> int (or_Attempts r) \<noteq> bc_MaxRetries cfg"
    using s left by linarith+
  have v: "verdict env (Suc left) r" using s by simp
  have "or_Status r \<in> {''success'', ''failed'', ''skipped''} \<and> (or_Status r = ''success'') = (oe_error env (or_Attempts r) = None)
     \<and> (or_Status r = ''failed'') =
         (case oe_error env (or_Attempts r) of None \<Rightarrow> False
          | Some e \<Rightarrow> \<not> oe_cancelled env (or_Attempts r) \<and> (int (or_Attempts r) = bc_MaxRetries cfg \<or> \<not> isRetryable e))"
    using v unfolding verdict_def lim(2) by (cases "oe_error env (or_Attempts r)") (simp_all split: if_splits)
  moreover have "list_all (\<lambda>k. case oe_error env k of None \<Rightarrow> False | Some e \<Rightarrow> isRetryable e) [1 ..< or_Attempts r]"
    using s unfolding retried_def by simp
  moreover have "or_DeviceID r = deviceID" "1 \<le> or_Attempts r" using s by simp_all
  ultimately show ?thesis unfolding ex prod.case using lim(1) by blast
qed

lemma retry_result_witness:
  defines "env \<equiv> \<lparr>oe_error = (\<lambda>k. if k < 3 then Some ''i/o Timeout'' else None), oe_cancelled = (\<lambda>k. False),
    oe_cancelled_wait = (\<lambda>k. False), oe_nanos = (\<lambda>k. 0)\<rparr>"
  shows "or_Status (fst (executeWithRetry DefaultConfig env 7)) = ''success'' \<and> or_Attempts (fst (executeWithRetry DefaultConfig env 7)) = 3"
proof -
  have a: "or_Attempts (fst (executeWithRetry DefaultConfig env 7)) = 3" unfolding env_def by code_simp
  have "bc_MaxRetries DefaultConfig > 0" by (simp add: DefaultConfig_def)
  from retry_result [OF this, where env = env and deviceID = 7] a show ?thesis by (simp add: split_beta env_def)
qed

section \<open>Bounds of the waits\<close>

lemma to_duration_mono: "r \<le> s \<Longrightarrow> to_duration r \<le> to_duration s"
proof -
  assume le: "r \<le> s"
  consider "s < 0" | "r < 0" "0 \<le> s" | "0 \<le> r" "0 \<le> s" using le by linarith
  then show ?thesis
  proof cases
    case 1
    then show ?thesis using le floor_mono [of "- s" "- r"] by (simp add: to_duration_def)
  next
    case 2
    then have "0 \<le> \<lfloor>- r\<rfloor>" "0 \<le> \<lfloor>s\<rfloor>" unfolding zero_le_floor by linarith+
    then have "- \<lfloor>- r\<rfloor> \<le> \<lfloor>s\<rfloor>" by presburger
    then show ?thesis using 2 by (simp add: to_duration_def)
  next
    case 3
    then show ?thesis using le floor_mono [of r s] by (simp add: to_duration_def)
  qed
qed

lemma to_duration_of_int [simp]: "to_duration (of_int i) = i"
  by (simp add: to_duration_def flip: of_int_minus)

lemma jitter_bounds:
  fixes j :: nat
  defines "x \<equiv> 1 / 2 - of_nat (j mod 100) / 100 :: rat"
  shows "- (1 / 2) \<le> x" and "x \<le> 1 / 2"
proof -
  have "(of_nat (j mod 100) :: rat) \<le> of_nat 100" by (rule of_nat_mono) simp
  then show "- (1 / 2) \<le> x" unfolding x_def by simp
  show "x \<le> 1 / 2" unfolding x_def by simp
qed

text \<open>A jitter of c times a factor in [-1/2, 1/2] moves a value by at most half of its share.\<close>

lemma jittered_bounds:
  assumes "0 \<le> (b :: rat)" and "0 \<le> c"
  shows "b * c * (1 / 2 - of_nat (j mod 100) / 100) \<le> b * c / 2" and "- (b * c / 2) \<le> b * c * (1 / 2 - of_nat (j mod 100) / 100)"
proof -
  have bc: "0 \<le> b * c" using assms by simp
  show "b * c * (1 / 2 - of_nat (j mod 100) / 100) \<le> b * c / 2"
    using mult_left_mono [OF jitter_bounds(2) [of j] bc] by simp
  show "- (b * c / 2) \<le> b * c * (1 / 2 - of_nat (j mod 100) / 100)"
    using mult_left_mono [OF jitter_bounds(1) [of j] bc] by simp
qed

lemma next_backoff_bounds:
  assumes "0 \<le> backoff" and "0 \<le> bc_BackoffMultiplier cfg" and "0 \<le> bc_MaxBackoff cfg"
  shows "0 \<le> next_backoff cfg j backoff" and "of_int (next_backoff cfg j backoff) \<le> (of_int (bc_MaxBackoff cfg) * (105 / 100) :: rat)"
proof -
  define b where "b = (let b0 = to_duration (of_int backoff * bc_BackoffMultiplier cfg)
    in if b0 > bc_MaxBackoff cfg then bc_MaxBackoff cfg else b0)"
  define x :: rat where "x = of_int b * (1 / 10) * (1 / 2 - of_nat (j mod 100) / 100)"
  have eq: "next_backoff cfg j backoff = b + to_duration x" by (simp add: next_backoff_def b_def x_def Let_def)
  have "0 \<le> to_duration (of_int backoff * bc_BackoffMultiplier cfg)"
    using to_duration_mono [of 0 "of_int backoff * bc_BackoffMultiplier cfg"] assms by (simp add: to_duration_def)
  then have b: "0 \<le> b" "b \<le> bc_MaxBackoff cfg" using assms(3) by (simp_all add: b_def Let_def)
  have x: "x \<le> of_int b / 20" "- (of_int b / 20) \<le> x"
    unfolding x_def using jittered_bounds [of "of_int b" "1 / 10" j] b(1) by simp_all
  have up: "of_int (to_duration x) \<le> (of_int b / 20 :: rat)"
  proof (cases "x < 0")
    case True
    then have "to_duration x \<le> 0" by (simp add: to_duration_def)
    then show ?thesis using b(1) by (meson divide_nonneg_nonneg of_int_0_le_iff of_int_le_0_iff order_trans zero_le_numeral)
  next
    case False
    then have "of_int (to_duration x) \<le> x" by (simp add: to_duration_def)
    then show ?thesis using x(1) by linarith
  qed
  have "- b \<le> to_duration x"
  proof -
    have "0 \<le> (of_int b :: rat)" using b(1) by simp
    then have "of_int (- b) \<le> x" using x(2) unfolding of_int_minus by linarith
    from to_duration_mono [OF this] show ?thesis unfolding to_duration_of_int .
  qed
  then show "0 \<le> next_backoff cfg j backoff" using eq by linarith
  have "(of_int b :: rat) \<le> of_int (bc_MaxBackoff cfg)" using b(2) by simp
  then show "of_int (next_backoff cfg j backoff) \<le> (of_int (bc_MaxBackoff cfg) * (105 / 100) :: rat)"
    unfolding eq using up by simp
qed

lemma retry_loop_waits:
  assumes "0 \<le> bc_BackoffMultiplier cfg" and "0 \<le> bc_MaxBackoff cfg" and "0 \<le> backoff"
  shows "case snd (retry_loop cfg env attempt left backoff r) of [] \<Rightarrow> True
    | w # ws \<Rightarrow> w = backoff \<and> list_all (\<lambda>v. 0 \<le> v \<and> of_int v \<le> (of_int (bc_MaxBackoff cfg) * (105 / 100) :: rat)) ws"
  using assms(3)
proof (induction left arbitrary: attempt backoff r)
  case (Suc left)
  let ?b = "next_backoff cfg (oe_nanos env attempt) backoff"
  note bound = next_backoff_bounds [OF Suc.prems assms(1,2), of "oe_nanos env attempt"]
  note IH = Suc.IH [OF bound(1), of "attempt + 1"]
  show ?case
  proof (cases "oe_error env attempt")
    case (Some err)
    let ?r = "r\<lparr>or_Attempts := attempt, or_Error := err\<rparr>"
    show ?thesis using Some IH [of ?r] bound by (auto simp: Let_def split_beta split: list.splits)
  qed (simp add: Let_def)
qed simp

text \<open>The waits between attempts. The first wait is the initial back-off as configured, whatever
  the maximum is; every later one is not negative and at most the maximum and its twentieth part.
\<close>

theorem retry_waits:
  assumes "0 \<le> bc_BackoffMultiplier cfg" and "0 \<le> bc_MaxBackoff cfg" and "0 \<le> bc_InitialBackoff cfg"
  shows "case snd (executeWithRetry cfg env deviceID) of [] \<Rightarrow> True
    | w # ws \<Rightarrow> w = bc_InitialBackoff cfg \<and> list_all (\<lambda>v. 0 \<le> v \<and> of_int v \<le> (of_int (bc_MaxBackoff cfg) * (105 / 100) :: rat)) ws"
  unfolding executeWithRetry_def by (rule retry_loop_waits [OF assms])

lemma retry_waits_witness:
  defines "env \<equiv> \<lparr>oe_error = (\<lambda>k. Some ''EOF''), oe_cancelled = (\<lambda>k. False), oe_cancelled_wait = (\<lambda>k. False), oe_nanos = (\<lambda>k. 0)\<rparr>"
  shows "snd (executeWithRetry DefaultConfig env 7) = [2000000000, 4200000000] \<and> hd (snd (executeWithRetry DefaultConfig env 7)) = 2 * second"
proof -
  have "snd (executeWithRetry DefaultConfig env 7) = [2000000000, 4200000000]" unfolding env_def by code_simp
  moreover have "0 \<le> bc_BackoffMultiplier DefaultConfig" "0 \<le> bc_MaxBackoff DefaultConfig" "0 \<le> bc_InitialBackoff DefaultConfig"
    by (simp_all add: DefaultConfig_def second_def)
  ultimately show ?thesis using retry_waits [of DefaultConfig env 7] by (simp add: DefaultConfig_def)
qed

end
