(* ===== verification/BulkJobs.thy ===== *)
theory BulkJobs imports BulkOps "HOL-Library.Multiset" begin

text \<open>
  Running bulk jobs (src/internal/bulkops/controller.go): Execute with runJob, ExecuteFanout with
  runFanoutJob, cancellation and clean-up, as steps of the goroutines of all jobs over the shared
  semaphores. The delay between operations and the clock readings of a result are not modelled.
\<close>

section \<open>State\<close>

text \<open>
  A job is the object the goroutines share. \<open>bj_next\<close> are the devices its loop has still to
  spawn; \<open>bj_ap_due\<close> says that the access point of a fan-out job is still to come; \<open>bj_ctx_done\<close>
  that the job's context is cancelled. \<open>bj_Total\<close> is the length of \<open>bj_DeviceIDs\<close>.
\<close>

record bulk_job =
  bj_ID :: string
  bj_DeviceIDs :: "int list"
  bj_ap :: "int option"
  bj_Completed :: nat
  bj_Succeeded :: nat
  bj_Failed :: nat
  bj_Skipped :: nat
  bj_Results :: "OpResult list"
  bj_CompletedAt :: "time option"
  bj_ctx_done :: bool
  bj_next :: "int list"
  bj_ap_due :: bool

text \<open>The semaphore a goroutine captures: its job's own, or the one kept for the access point.\<close>

datatype sem_key = JobSem nat | ApSem int

datatype phase = WaitSem | WaitGlobal | Running

record worker =
  wk_job :: nat
  wk_dev :: int
  wk_sem :: sem_key
  wk_phase :: phase
  wk_ap :: bool

text \<open>\<open>bs_jobs\<close> is the heap of jobs, \<open>bs_names\<close> the controller's map from names to them.\<close>

record bulk_sys =
  bs_config :: bulk_config
  bs_jobs :: "bulk_job list"
  bs_names :: "(string, nat) gomap"
  bs_workers :: "worker multiset"
  bs_totalOps :: nat
  bs_successOps :: nat
  bs_failedOps :: nat
  bs_retriedOps :: nat

definition NewController :: "bulk_config option \<Rightarrow> bulk_sys" where
  "NewController stored = \<lparr>bs_config = loadConfig stored, bs_jobs = [], bs_names = [], bs_workers = {#},
     bs_totalOps = 0, bs_successOps = 0, bs_failedOps = 0, bs_retriedOps = 0\<rparr>"

section \<open>Operations of the controller\<close>

definition Execute :: "string \<Rightarrow> int list \<Rightarrow> bulk_sys \<Rightarrow> bulk_sys" where
  "Execute jobID deviceIDs s =
     s\<lparr>bs_jobs := bs_jobs s @ [\<lparr>bj_ID = jobID, bj_DeviceIDs = deviceIDs, bj_ap = None, bj_Completed = 0, bj_Succeeded = 0, bj_Failed = 0,
         bj_Skipped = 0, bj_Results = [], bj_CompletedAt = None, bj_ctx_done = False, bj_next = deviceIDs, bj_ap_due = False\<rparr>],
       bs_names := AList.update jobID (length (bs_jobs s)) (bs_names s)\<rparr>"

definition ExecuteFanout :: "string \<Rightarrow> int \<Rightarrow> int list \<Rightarrow> bulk_sys \<Rightarrow> bulk_sys" where
  "ExecuteFanout jobID apID staIDs s =
     s\<lparr>bs_jobs := bs_jobs s @ [\<lparr>bj_ID = jobID, bj_DeviceIDs = staIDs @ [apID], bj_ap = Some apID, bj_Completed = 0, bj_Succeeded = 0,
         bj_Failed = 0, bj_Skipped = 0, bj_Results = [], bj_CompletedAt = None, bj_ctx_done = False, bj_next = staIDs, bj_ap_due = True\<rparr>],
       bs_names := AList.update jobID (length (bs_jobs s)) (bs_names s)\<rparr>"

definition GetJob :: "string \<Rightarrow> bulk_sys \<Rightarrow> bulk_job option" where
  "GetJob jobID s = map_option (\<lambda>p. bs_jobs s ! p) (map_of (bs_names s) jobID)"

definition on_bulk :: "nat \<Rightarrow> (bulk_job \<Rightarrow> bulk_job) \<Rightarrow> bulk_sys \<Rightarrow> bulk_sys" where
  "on_bulk p f s = s\<lparr>bs_jobs := (bs_jobs s)[p := f (bs_jobs s ! p)]\<rparr>"

definition cancel_ctx :: "bulk_job \<Rightarrow> bulk_job" where
  "cancel_ctx J = J\<lparr>bj_ctx_done := True\<rparr>"

definition CancelBulkJob :: "string \<Rightarrow> bulk_sys \<Rightarrow> bool \<times> bulk_sys" where
  "CancelBulkJob jobID s = (case map_of (bs_names s) jobID of None \<Rightarrow> (False, s) | Some p \<Rightarrow> (True, on_bulk p cancel_ctx s))"

definition is_old :: "time \<Rightarrow> bulk_job \<Rightarrow> bool" where
  "is_old cutoff J = (case bj_CompletedAt J of None \<Rightarrow> False | Some t \<Rightarrow> t < cutoff)"

definition CleanupOldJobs :: "time \<Rightarrow> duration \<Rightarrow> bulk_sys \<Rightarrow> nat \<times> bulk_sys" where
  "CleanupOldJobs now maxAge s =
     (let old = (\<lambda>k. case map_of (bs_names s) k of None \<Rightarrow> False | Some p \<Rightarrow> is_old (now - maxAge) (bs_jobs s ! p))
      in (length (filter old (map fst (bs_names s))), s\<lparr>bs_names := map_del_if old (bs_names s)\<rparr>))"

definition active_global :: "worker multiset \<Rightarrow> nat" where
  "active_global ws = size (filter_mset (\<lambda>w. wk_phase w = Running) ws)"

definition BulkStats :: "bulk_sys \<Rightarrow> nat \<times> nat \<times> nat \<times> nat \<times> nat" where
  "BulkStats s = (bs_totalOps s, bs_successOps s, bs_failedOps s, bs_retriedOps s, active_global (bs_workers s))"

section \<open>Steps of a job\<close>

text \<open>The deferred calls: the completion time is set and the context cancelled.\<close>

definition complete_job :: "time \<Rightarrow> bulk_job \<Rightarrow> bulk_job" where
  "complete_job now J = J\<lparr>bj_CompletedAt := Some now, bj_ctx_done := True, bj_next := [], bj_ap_due := False\<rparr>"

definition sem_of :: "nat \<Rightarrow> bulk_job \<Rightarrow> sem_key" where
  "sem_of p J = (case bj_ap J of None \<Rightarrow> JobSem p | Some a \<Rightarrow> ApSem a)"

definition sem_cap :: "bulk_config \<Rightarrow> sem_key \<Rightarrow> nat" where
  "sem_cap cfg k = (case k of JobSem p \<Rightarrow> bc_MaxPerJob cfg | ApSem a \<Rightarrow> bc_MaxPerAP cfg)"

definition sem_held :: "worker multiset \<Rightarrow> sem_key \<Rightarrow> nat" where
  "sem_held ws k = size (filter_mset (\<lambda>w. wk_sem w = k \<and> wk_phase w \<noteq> WaitSem \<and> \<not> wk_ap w) ws)"

definition spawn :: "nat \<Rightarrow> bulk_sys \<Rightarrow> bulk_sys" where
  "spawn p s =
     (let J = bs_jobs s ! p; w = \<lparr>wk_job = p, wk_dev = hd (bj_next J), wk_sem = sem_of p J, wk_phase = WaitSem, wk_ap = False\<rparr>
      in (on_bulk p (\<lambda>J. J\<lparr>bj_next := tl (bj_next J)\<rparr>) s)\<lparr>bs_workers := add_mset w (bs_workers s)\<rparr>)"

definition move :: "worker \<Rightarrow> phase \<Rightarrow> bulk_sys \<Rightarrow> bulk_sys" where
  "move w ph s = s\<lparr>bs_workers := add_mset (w\<lparr>wk_phase := ph\<rparr>) (bs_workers s - {#w#})\<rparr>"

text \<open>A result is counted by its status in a plain job, as success or failure in a fan-out job.\<close>

definition record_result :: "OpResult \<Rightarrow> bulk_job \<Rightarrow> bulk_job" where
  "record_result r J =
     (let J1 = J\<lparr>bj_Results := bj_Results J @ [r], bj_Completed := bj_Completed J + 1\<rparr> in
      if or_Status r = ''success'' then J1\<lparr>bj_Succeeded := bj_Succeeded J + 1\<rparr>
      else if bj_ap J \<noteq> None \<or> or_Status r = ''failed'' then J1\<lparr>bj_Failed := bj_Failed J + 1\<rparr>
      else if or_Status r = ''skipped'' then J1\<lparr>bj_Skipped := bj_Skipped J + 1\<rparr>
      else J1)"

definition finish_op :: "time \<Rightarrow> op_env \<Rightarrow> worker \<Rightarrow> bulk_sys \<Rightarrow> bulk_sys" where
  "finish_op now env w s =
     (case executeWithRetry (bs_config s) env (wk_dev w) of (r, waits) \<Rightarrow>
       (let s1 = (on_bulk (wk_job w) (\<lambda>J. (if wk_ap w then complete_job now else (\<lambda>J. J)) (record_result r J)) s)
                  \<lparr>bs_workers := bs_workers s - {#w#}, bs_retriedOps := bs_retriedOps s + length waits\<rparr>
        in if bj_ap (bs_jobs s ! wk_job w) = None
           then s1\<lparr>bs_totalOps := bs_totalOps s + 1,
                   bs_successOps := (if or_Status r = ''success'' then bs_successOps s + 1 else bs_successOps s),
                   bs_failedOps := (if or_Status r = ''failed'' then bs_failedOps s + 1 else bs_failedOps s)\<rparr>
           else s1))"

definition give_up :: "time \<Rightarrow> worker \<Rightarrow> bulk_sys \<Rightarrow> bulk_sys" where
  "give_up now w s =
     (on_bulk (wk_job w) (if wk_ap w then complete_job now else (\<lambda>J. J)) s)\<lparr>bs_workers := bs_workers s - {#w#}\<rparr>"

definition skip_ap :: "int \<Rightarrow> bulk_job \<Rightarrow> bulk_job" where
  "skip_ap ap J = J\<lparr>bj_Results := bj_Results J @ [\<lparr>or_DeviceID = ap, or_Status = ''skipped'',
       or_Message = ''Skipped AP upgrade: only ''
         @ int_str (round_half_even (of_nat (100 * bj_Succeeded J) / of_nat (length (bj_DeviceIDs J) - 1))) @ ''% of STAs succeeded'', or_Error = [], or_Attempts = 0\<rparr>],
     bj_Completed := bj_Completed J + 1, bj_Skipped := bj_Skipped J + 1\<rparr>"

text \<open>After the wait for the stations: stop, skip the access point, or go on with it.\<close>

definition after_stations :: "time \<Rightarrow> nat \<Rightarrow> int \<Rightarrow> bulk_sys \<Rightarrow> bulk_sys" where
  "after_stations now p ap s =
     (let J = bs_jobs s ! p; stas = length (bj_DeviceIDs J) - 1 in
      if bj_ctx_done J then on_bulk p (complete_job now) s
      else if stas > 0 \<and> 2 * bj_Succeeded J < stas then on_bulk p (complete_job now \<circ> skip_ap ap) s
      else (on_bulk p (\<lambda>J. J\<lparr>bj_ap_due := False\<rparr>) s)
        \<lparr>bs_workers := add_mset \<lparr>wk_job = p, wk_dev = ap, wk_sem = ApSem ap, wk_phase = WaitGlobal, wk_ap = True\<rparr> (bs_workers s)\<rparr>)"

definition workers_of :: "nat \<Rightarrow> worker multiset \<Rightarrow> worker multiset" where
  "workers_of p ws = filter_mset (\<lambda>w. wk_job w = p) ws"

inductive bulk_step :: "bulk_sys \<Rightarrow> bulk_sys \<Rightarrow> bool" where
  b_execute: "bulk_step s (Execute jobID ids s)"
| b_fanout: "bulk_step s (ExecuteFanout jobID ap stas s)"
| b_cancel: "bulk_step s (snd (CancelBulkJob jobID s))"
| b_cleanup: "bulk_step s (snd (CleanupOldJobs now age s))"
| b_spawn: "p < length (bs_jobs s) \<Longrightarrow> bj_next (bs_jobs s ! p) \<noteq> [] \<Longrightarrow> \<not> bj_ctx_done (bs_jobs s ! p) \<Longrightarrow> bulk_step s (spawn p s)"
| b_stop: "p < length (bs_jobs s) \<Longrightarrow> bj_next (bs_jobs s ! p) \<noteq> [] \<Longrightarrow> bj_ctx_done (bs_jobs s ! p) \<Longrightarrow>
    bulk_step s (on_bulk p (complete_job now) s)"
| b_sem: "w \<in># bs_workers s \<Longrightarrow> wk_phase w = WaitSem \<Longrightarrow> sem_held (bs_workers s) (wk_sem w) < sem_cap (bs_config s) (wk_sem w) \<Longrightarrow>
    bulk_step s (move w WaitGlobal s)"
| b_global: "w \<in># bs_workers s \<Longrightarrow> wk_phase w = WaitGlobal \<Longrightarrow> active_global (bs_workers s) < bc_MaxGlobalConcurrent (bs_config s) \<Longrightarrow>
    bulk_step s (move w Running s)"
| b_give_up: "w \<in># bs_workers s \<Longrightarrow> wk_phase w \<noteq> Running \<Longrightarrow> bj_ctx_done (bs_jobs s ! wk_job w) \<Longrightarrow> bulk_step s (give_up now w s)"
| b_finish: "w \<in># bs_workers s \<Longrightarrow> wk_phase w = Running \<Longrightarrow>
    bj_ctx_done (bs_jobs s ! wk_job w) \<or> (\<forall>k. \<not> oe_cancelled env k \<and> \<not> oe_cancelled_wait env k) \<Longrightarrow> bulk_step s (finish_op now env w s)"
| b_join: "p < length (bs_jobs s) \<Longrightarrow> bj_next (bs_jobs s ! p) = [] \<Longrightarrow> workers_of p (bs_workers s) = {#} \<Longrightarrow>
    bj_CompletedAt (bs_jobs s ! p) = None \<Longrightarrow> bj_ap (bs_jobs s ! p) = None \<Longrightarrow> bulk_step s (on_bulk p (complete_job now) s)"
| b_join_stations: "p < length (bs_jobs s) \<Longrightarrow> bj_next (bs_jobs s ! p) = [] \<Longrightarrow> workers_of p (bs_workers s) = {#} \<Longrightarrow>
    bj_ap_due (bs_jobs s ! p) \<Longrightarrow> bj_ap (bs_jobs s ! p) = Some ap \<Longrightarrow> bulk_step s (after_stations now p ap s)"

inductive bulk_reachable :: "bulk_sys \<Rightarrow> bool" where
  start: "bulk_reachable (NewController stored)"
| step: "bulk_reachable s \<Longrightarrow> bulk_step s s' \<Longrightarrow> bulk_reachable s'"

section \<open>Invariant\<close>

abbreviation devs :: "OpResult list \<Rightarrow> int multiset" where
  "devs rs \<equiv> mset (map or_DeviceID rs)"

definition outstanding :: "bulk_job \<Rightarrow> worker multiset \<Rightarrow> int multiset" where
  "outstanding J W = devs (bj_Results J) + image_mset wk_dev W + mset (bj_next J)
     + (if bj_ap_due J then {# the (bj_ap J) #} else {#})"

definition successes :: "bulk_job \<Rightarrow> nat" where
  "successes J = length (filter (\<lambda>r. or_Status r = ''success'') (bj_Results J))"

text \<open>
  Every device is in one place: reported, with a goroutine, or still to come; nothing is lost
  while the job is not cancelled. The goroutine of an access point is alone.
\<close>

definition ap_alone :: "bulk_job \<Rightarrow> worker multiset \<Rightarrow> bool" where
  "ap_alone J W \<longleftrightarrow> (\<forall>w \<in># W. wk_ap w \<longrightarrow> W = {#w#} \<and> bj_next J = [] \<and> \<not> bj_ap_due J \<and> bj_ap J = Some (wk_dev w)
     \<and> length (bj_DeviceIDs J) - 1 \<le> 2 * bj_Succeeded J)"

definition job_ok :: "bulk_job \<Rightarrow> worker multiset \<Rightarrow> bool" where
  "job_ok J W \<longleftrightarrow> length (bj_Results J) = bj_Completed J \<and> bj_Succeeded J = successes J
     \<and> outstanding J W \<subseteq># mset (bj_DeviceIDs J)
     \<and> (\<not> bj_ctx_done J \<longrightarrow> outstanding J W = mset (bj_DeviceIDs J))
     \<and> (bj_ap_due J \<longrightarrow> bj_ap J \<noteq> None) \<and> (bj_CompletedAt J \<noteq> None \<longrightarrow> bj_ctx_done J) \<and> ap_alone J W"

definition limits_ok :: "bulk_config \<Rightarrow> worker multiset \<Rightarrow> bool" where
  "limits_ok cfg ws \<longleftrightarrow> active_global ws \<le> bc_MaxGlobalConcurrent cfg \<and> (\<forall>k. sem_held ws k \<le> sem_cap cfg k)"

definition bulk_ok :: "bulk_sys \<Rightarrow> bool" where
  "bulk_ok s \<longleftrightarrow> limits_ok (bs_config s) (bs_workers s)
     \<and> (\<forall>w \<in># bs_workers s. wk_job w < length (bs_jobs s))
     \<and> (\<forall>p < length (bs_jobs s). job_ok (bs_jobs s ! p) (workers_of p (bs_workers s)))"

lemma in_workers_of [simp]: "w \<in># workers_of p ws \<longleftrightarrow> w \<in># ws \<and> wk_job w = p"
  by (simp add: workers_of_def)

lemma workers_of_add [simp]: "workers_of p (add_mset w ws) = (if wk_job w = p then add_mset w (workers_of p ws) else workers_of p ws)"
  by (simp add: workers_of_def)

lemma workers_of_remove: "workers_of p (ws - {#w#}) = (if wk_job w = p then workers_of p ws - {#w#} else workers_of p ws)"
  by (simp add: workers_of_def)

lemma bulk_okD: "bulk_ok s \<Longrightarrow> p < length (bs_jobs s) \<Longrightarrow> job_ok (bs_jobs s ! p) (workers_of p (bs_workers s))"
  by (simp add: bulk_ok_def)

lemma bulk_ok_update:
  assumes "bulk_ok s" and "p < length (bs_jobs s)" and "job_ok J (workers_of p (bs_workers s'))"
    and "\<And>q. q \<noteq> p \<Longrightarrow> workers_of q (bs_workers s') = workers_of q (bs_workers s)"
    and "limits_ok (bs_config s) (bs_workers s')"
    and "bs_jobs s' = (bs_jobs s)[p := J]" and "bs_config s' = bs_config s"
  shows "bulk_ok s'"
proof -
  have "wk_job w < length (bs_jobs s)" if "w \<in># bs_workers s'" for w
  proof (cases "wk_job w = p")
    case False
    have "w \<in># workers_of (wk_job w) (bs_workers s')" using that by simp
    then have "w \<in># bs_workers s" unfolding assms(4) [OF False] by simp
    then show ?thesis using assms(1) by (simp add: bulk_ok_def)
  qed (use assms(2) in simp)
  moreover have "job_ok (bs_jobs s' ! q) (workers_of q (bs_workers s'))" if "q < length (bs_jobs s)" for q
    using that assms(2,3,4) bulk_okD [OF assms(1) that] unfolding assms(6) by (cases "q = p") simp_all
  ultimately show ?thesis using assms(5,6,7) by (simp add: bulk_ok_def)
qed

lemma limits_smaller: "limits_ok cfg ws \<Longrightarrow> limits_ok cfg (ws - {#w#})"
  unfolding limits_ok_def active_global_def sem_held_def
  by (meson diff_subset_eq_self multiset_filter_mono order_trans size_mset_mono)

lemma limits_new:
  "limits_ok cfg ws \<Longrightarrow> wk_phase w \<noteq> Running \<Longrightarrow> wk_phase w = WaitSem \<or> wk_ap w \<Longrightarrow> limits_ok cfg (add_mset w ws)"
  by (auto simp: limits_ok_def active_global_def sem_held_def)

section \<open>Jobs\<close>

lemma rest_not_ap:
  assumes "ap_alone J W" and "w \<in># W" and "x \<in># W - {#w#}"
  shows "\<not> wk_ap x"
proof
  assume "wk_ap x"
  moreover have "x \<in># W" using assms(3) by (rule in_diffD)
  ultimately have "W = {#x#}" using assms(1) unfolding ap_alone_def by blast
  then show False using assms(2,3) by auto
qed

lemma no_ap_alone: "(\<And>x. x \<in># W \<Longrightarrow> \<not> wk_ap x) \<Longrightarrow> ap_alone J W"
  by (auto simp: ap_alone_def)

lemma record_result_sel:
  "bj_Results (record_result r J) = bj_Results J @ [r]" "bj_Completed (record_result r J) = bj_Completed J + 1"
  "bj_next (record_result r J) = bj_next J" "bj_ap_due (record_result r J) = bj_ap_due J" "bj_ap (record_result r J) = bj_ap J"
  "bj_DeviceIDs (record_result r J) = bj_DeviceIDs J" "bj_ctx_done (record_result r J) = bj_ctx_done J"
  "bj_CompletedAt (record_result r J) = bj_CompletedAt J"
  "bj_Succeeded (record_result r J) = (if or_Status r = ''success'' then bj_Succeeded J + 1 else bj_Succeeded J)"
  by (simp_all add: record_result_def Let_def)

lemma job_ok_record:
  assumes ok: "job_ok J W" and w: "w \<in># W" and r: "or_DeviceID r = wk_dev w"
  shows "job_ok (record_result r J) (W - {#w#})"
proof -
  obtain W' where W: "W = add_mset w W'" using w by (meson multi_member_split)
  note sel = record_result_sel
  have out: "outstanding (record_result r J) (W - {#w#}) = outstanding J W"
    by (simp add: outstanding_def sel W r)
  have "ap_alone (record_result r J) (W - {#w#})"
    by (rule no_ap_alone) (use ok w rest_not_ap in \<open>auto simp: job_ok_def\<close>)
  moreover have "bj_Succeeded (record_result r J) = successes (record_result r J)"
    using ok by (simp add: job_ok_def sel successes_def)
  ultimately show ?thesis using ok unfolding job_ok_def out by (simp add: sel)
qed

lemma job_ok_complete: "job_ok J W \<Longrightarrow> (\<forall>w \<in># W. \<not> wk_ap w) \<Longrightarrow> job_ok (complete_job now J) W"
proof -
  assume ok: "job_ok J W" and no: "\<forall>w \<in># W. \<not> wk_ap w"
  have "outstanding (complete_job now J) W \<subseteq># outstanding J W" by (simp add: outstanding_def complete_job_def)
  then have "outstanding (complete_job now J) W \<subseteq># mset (bj_DeviceIDs J)" using ok subset_mset.order_trans by (auto simp: job_ok_def)
  then show ?thesis using ok no by (simp add: job_ok_def ap_alone_def complete_job_def successes_def)
qed

lemma job_ok_cancel: "job_ok J W \<Longrightarrow> job_ok (cancel_ctx J) W"
proof -
  assume ok: "job_ok J W"
  have same: "outstanding (cancel_ctx J) W = outstanding J W" "successes (cancel_ctx J) = successes J"
    "ap_alone (cancel_ctx J) W = ap_alone J W" "bj_ctx_done (cancel_ctx J)"
    by (simp_all add: cancel_ctx_def outstanding_def successes_def ap_alone_def)
  show ?thesis using ok unfolding job_ok_def same by (simp add: cancel_ctx_def)
qed

lemma job_ok_drop:
  assumes ok: "job_ok J W" and w: "w \<in># W" and ctx: "bj_ctx_done J"
  shows "job_ok J (W - {#w#})"
proof -
  obtain W' where W: "W = add_mset w W'" using w by (meson multi_member_split)
  have "outstanding J (W - {#w#}) \<subseteq># outstanding J W" by (simp add: outstanding_def W)
  then have "outstanding J (W - {#w#}) \<subseteq># mset (bj_DeviceIDs J)" using ok subset_mset.order_trans by (auto simp: job_ok_def)
  moreover have "ap_alone J (W - {#w#})"
    by (rule no_ap_alone) (use ok w rest_not_ap in \<open>auto simp: job_ok_def\<close>)
  ultimately show ?thesis using ok ctx by (simp add: job_ok_def)
qed

lemma alone_removed: "job_ok J W \<Longrightarrow> w \<in># W \<Longrightarrow> wk_ap w \<Longrightarrow> W - {#w#} = {#}"
  by (auto simp: job_ok_def ap_alone_def)

lemma job_ok_skip_ap:
  assumes ok: "job_ok J {#}" and due: "bj_ap_due J" "bj_ap J = Some ap" "bj_next J = []"
  shows "job_ok (complete_job now (skip_ap ap J)) {#}"
    and "\<not> bj_ctx_done J \<Longrightarrow> devs (bj_Results (skip_ap ap J)) = mset (bj_DeviceIDs J)"
proof -
  have out: "devs (bj_Results (skip_ap ap J)) = outstanding J {#}" using due by (simp add: outstanding_def skip_ap_def)
  show "\<not> bj_ctx_done J \<Longrightarrow> devs (bj_Results (skip_ap ap J)) = mset (bj_DeviceIDs J)" using ok unfolding out by (simp add: job_ok_def)
  have "outstanding (complete_job now (skip_ap ap J)) {#} = outstanding J {#}"
    using out by (simp add: outstanding_def complete_job_def skip_ap_def)
  then show "job_ok (complete_job now (skip_ap ap J)) {#}"
    using ok by (simp add: job_ok_def ap_alone_def complete_job_def skip_ap_def successes_def)
qed

lemma job_ok_spawn:
  assumes ok: "job_ok J W" and nxt: "bj_next J \<noteq> []" and w: "wk_dev w = hd (bj_next J)" "\<not> wk_ap w"
  shows "job_ok (J\<lparr>bj_next := tl (bj_next J)\<rparr>) (add_mset w W)"
proof -
  let ?J = "J\<lparr>bj_next := tl (bj_next J)\<rparr>"
  obtain d ds where ds: "bj_next J = d # ds" using nxt by (cases "bj_next J") auto
  have "outstanding ?J (add_mset w W) = outstanding J W" by (simp add: outstanding_def ds w)
  moreover have "successes ?J = successes J" by (simp add: successes_def)
  moreover have "ap_alone ?J (add_mset w W)"
    by (rule no_ap_alone) (use ok nxt w in \<open>auto simp: job_ok_def ap_alone_def\<close>)
  ultimately show ?thesis using ok unfolding job_ok_def by simp
qed

lemma job_ok_move:
  assumes ok: "job_ok J W" and w: "w \<in># W"
  shows "job_ok J (add_mset (w\<lparr>wk_phase := ph\<rparr>) (W - {#w#}))"
proof -
  obtain W' where W: "W = add_mset w W'" using w by (meson multi_member_split)
  have "outstanding J (add_mset (w\<lparr>wk_phase := ph\<rparr>) (W - {#w#})) = outstanding J W" by (simp add: outstanding_def W)
  moreover have "ap_alone J (add_mset (w\<lparr>wk_phase := ph\<rparr>) (W - {#w#}))"
  proof (cases "wk_ap w")
    case True
    then have "W = {#w#}" and "bj_next J = [] \<and> \<not> bj_ap_due J \<and> bj_ap J = Some (wk_dev w) \<and> length (bj_DeviceIDs J) - 1 \<le> 2 * bj_Succeeded J"
      using ok w by (auto simp: job_ok_def ap_alone_def)
    then show ?thesis by (simp add: ap_alone_def)
  next
    case False
    show ?thesis by (rule no_ap_alone) (use ok w False rest_not_ap in \<open>auto simp: job_ok_def\<close>)
  qed
  ultimately show ?thesis using ok unfolding job_ok_def by simp
qed

lemma on_bulk_sel [simp]:
  "bs_jobs (on_bulk p f s) = (bs_jobs s)[p := f (bs_jobs s ! p)]" "bs_workers (on_bulk p f s) = bs_workers s"
  "bs_config (on_bulk p f s) = bs_config s"
  by (simp_all add: on_bulk_def)

lemma nth_upd: "p < length xs \<Longrightarrow> xs[i := y] ! p = (if p = i then y else xs ! p)"
  by (cases "p = i") simp_all

lemma nth_on_bulk:
  "p < length (bs_jobs s) \<Longrightarrow> bs_jobs (on_bulk q f s) ! p = (if p = q then f (bs_jobs s ! p) else bs_jobs s ! p)"
  by (cases "p = q") simp_all

lemma bulk_ok_on_bulk:
  assumes "bulk_ok s" and "p < length (bs_jobs s) \<Longrightarrow> job_ok (f (bs_jobs s ! p)) (workers_of p (bs_workers s))"
  shows "bulk_ok (on_bulk p f s)"
proof (cases "p < length (bs_jobs s)")
  case True
  show ?thesis
    by (rule bulk_ok_update [OF assms(1) True, where J = "f (bs_jobs s ! p)"])
      (use assms(1) assms(2) [OF True] in \<open>simp_all add: bulk_ok_def\<close>)
next
  case False
  then show ?thesis using assms(1) by (simp add: bulk_ok_def)
qed

lemma bulk_ok_add_job:
  assumes ok: "bulk_ok s" and new: "job_ok J {#}"
    and s': "bs_jobs s' = bs_jobs s @ [J]" "bs_workers s' = bs_workers s" "bs_config s' = bs_config s"
  shows "bulk_ok s'"
proof -
  have "workers_of (length (bs_jobs s)) (bs_workers s) = {#}"
    unfolding set_mset_eq_empty_iff [symmetric] using ok by (auto simp: bulk_ok_def workers_of_def)
  then show ?thesis using ok new by (auto simp: bulk_ok_def s' nth_append less_Suc_eq)
qed

lemma finish_op_sel:
  "bs_jobs (finish_op now env w s) = (bs_jobs s)[wk_job w := (if wk_ap w then complete_job now else (\<lambda>J. J))
     (record_result (fst (executeWithRetry (bs_config s) env (wk_dev w))) (bs_jobs s ! wk_job w))]"
  "bs_workers (finish_op now env w s) = bs_workers s - {#w#}" "bs_config (finish_op now env w s) = bs_config s"
  by (simp_all add: finish_op_def Let_def on_bulk_def split: prod.split)

lemma executeWithRetry_device: "or_DeviceID (fst (executeWithRetry cfg env d)) = d"
proof (cases "nat (bc_MaxRetries cfg)")
  case (Suc left)
  obtain r waits where ex: "executeWithRetry cfg env d = (r, waits)" by fastforce
  show ?thesis using retry_loop_spec [OF ex [unfolded executeWithRetry_def Suc]] ex by simp
qed (simp add: executeWithRetry_def)

lemma move_ok:
  assumes ok: "bulk_ok s" and w: "w \<in># bs_workers s"
    and lim: "limits_ok (bs_config s) (add_mset (w\<lparr>wk_phase := ph\<rparr>) (bs_workers s - {#w#}))"
  shows "bulk_ok (move w ph s)"
proof (rule bulk_ok_update [OF ok])
  have p: "wk_job w < length (bs_jobs s)" using ok w by (simp add: bulk_ok_def)
  then show "wk_job w < length (bs_jobs s)" .
  show "job_ok (bs_jobs s ! wk_job w) (workers_of (wk_job w) (bs_workers (move w ph s)))"
    using job_ok_move [OF bulk_okD [OF ok p], of w ph] w by (simp add: move_def workers_of_remove)
  show "limits_ok (bs_config s) (bs_workers (move w ph s))" using lim by (simp add: move_def)
qed (simp_all add: move_def workers_of_remove)

lemma remove_ok:
  assumes ok: "bulk_ok s" and w: "w \<in># bs_workers s" and J: "job_ok J (workers_of (wk_job w) (bs_workers s) - {#w#})"
    and s': "bs_jobs s' = (bs_jobs s)[wk_job w := J]" "bs_workers s' = bs_workers s - {#w#}" "bs_config s' = bs_config s"
  shows "bulk_ok s'"
proof (rule bulk_ok_update [OF ok])
  show "wk_job w < length (bs_jobs s)" using ok w by (simp add: bulk_ok_def)
  show "job_ok J (workers_of (wk_job w) (bs_workers s'))" using J by (simp add: s' workers_of_remove)
  show "limits_ok (bs_config s) (bs_workers s')" unfolding s' by (rule limits_smaller) (use ok in \<open>simp add: bulk_ok_def\<close>)
qed (simp_all add: s' workers_of_remove)

lemma sem_held_move:
  assumes "w \<in># ws" and "wk_phase w = WaitSem" and "sem_held ws (wk_sem w) < sem_cap cfg (wk_sem w)" and "limits_ok cfg ws"
  shows "limits_ok cfg (add_mset (w\<lparr>wk_phase := WaitGlobal\<rparr>) (ws - {#w#}))"
proof -
  obtain ws' where ws: "ws = add_mset w ws'" using assms(1) by (meson multi_member_split)
  show ?thesis using assms(2-4) by (auto simp: limits_ok_def active_global_def sem_held_def ws)
qed

lemma active_move:
  assumes "w \<in># ws" and "wk_phase w = WaitGlobal" and "active_global ws < bc_MaxGlobalConcurrent cfg" and "limits_ok cfg ws"
  shows "limits_ok cfg (add_mset (w\<lparr>wk_phase := Running\<rparr>) (ws - {#w#}))"
proof -
  obtain ws' where ws: "ws = add_mset w ws'" using assms(1) by (meson multi_member_split)
  let ?ws = "add_mset (w\<lparr>wk_phase := Running\<rparr>) (ws - {#w#})"
  have "sem_held ?ws k = sem_held ws k" for k using assms(2) by (simp add: sem_held_def ws)
  moreover have "active_global ?ws = Suc (active_global ws)" using assms(2) by (simp add: active_global_def ws)
  ultimately show ?thesis using assms(3,4) by (simp add: limits_ok_def)
qed

lemma after_stations_ok:
  assumes ok: "bulk_ok s" and p: "p < length (bs_jobs s)" and J: "bj_next (bs_jobs s ! p) = []" "bj_ap_due (bs_jobs s ! p)"
      "bj_ap (bs_jobs s ! p) = Some ap" and W: "workers_of p (bs_workers s) = {#}"
  shows "bulk_ok (after_stations now p ap s)"
proof -
  let ?J = "bs_jobs s ! p" and ?stas = "length (bj_DeviceIDs (bs_jobs s ! p)) - 1"
  note jok = bulk_okD [OF ok p, unfolded W]
  consider "bj_ctx_done ?J" | "\<not> bj_ctx_done ?J" "?stas > 0 \<and> 2 * bj_Succeeded ?J < ?stas"
    | "\<not> bj_ctx_done ?J" "\<not> (?stas > 0 \<and> 2 * bj_Succeeded ?J < ?stas)" by blast
  then show ?thesis
  proof cases
    case 1
    have "bulk_ok (on_bulk p (complete_job now) s)"
      by (rule bulk_ok_on_bulk [OF ok]) (use jok W in \<open>simp add: job_ok_complete\<close>)
    then show ?thesis using 1 by (simp add: after_stations_def Let_def)
  next
    case 2
    have "bulk_ok (on_bulk p (complete_job now \<circ> skip_ap ap) s)"
      by (rule bulk_ok_on_bulk [OF ok]) (use job_ok_skip_ap(1) [OF jok J(2,3,1)] W in simp)
    then show ?thesis using 2 unfolding after_stations_def Let_def by simp
  next
    case 3
    let ?w = "\<lparr>wk_job = p, wk_dev = ap, wk_sem = ApSem ap, wk_phase = WaitGlobal, wk_ap = True\<rparr>"
    have eq: "after_stations now p ap s = (on_bulk p (\<lambda>J. J\<lparr>bj_ap_due := False\<rparr>) s)\<lparr>bs_workers := add_mset ?w (bs_workers s)\<rparr>"
      unfolding after_stations_def Let_def if_not_P [OF 3(1)] if_not_P [OF 3(2)] ..
    have "outstanding (?J\<lparr>bj_ap_due := False\<rparr>) {#?w#} = outstanding ?J {#}" using J by (simp add: outstanding_def)
    moreover have gen: "\<not> (0 < x \<and> y < x) \<Longrightarrow> x \<le> y" for x y :: nat by auto
    have "ap_alone (?J\<lparr>bj_ap_due := False\<rparr>) {#?w#}" using gen [OF 3(2)] J by (simp add: ap_alone_def)
    ultimately have "job_ok (?J\<lparr>bj_ap_due := False\<rparr>) {#?w#}" using jok by (simp add: job_ok_def successes_def)
    then show ?thesis unfolding eq
      by (intro bulk_ok_update [OF ok p]) (use ok W in \<open>auto simp: bulk_ok_def limits_new\<close>)
  qed
qed

lemma bulk_step_ok: "bulk_step s s' \<Longrightarrow> bulk_ok s \<Longrightarrow> bulk_ok s'"
proof (induction rule: bulk_step.induct)
  case (b_execute s jobID ids)
  show ?case
    by (rule bulk_ok_add_job [OF b_execute]) (simp_all add: Execute_def job_ok_def outstanding_def successes_def ap_alone_def)
next
  case (b_fanout s jobID ap stas)
  show ?case
    by (rule bulk_ok_add_job [OF b_fanout]) (simp_all add: ExecuteFanout_def job_ok_def outstanding_def successes_def ap_alone_def)
next
  case (b_cancel s jobID)
  show ?case
  proof (cases "map_of (bs_names s) jobID")
    case (Some p)
    have "bulk_ok (on_bulk p cancel_ctx s)" by (rule bulk_ok_on_bulk [OF b_cancel]) (rule job_ok_cancel, rule bulk_okD [OF b_cancel])
    then show ?thesis using Some by (simp add: CancelBulkJob_def)
  qed (simp add: CancelBulkJob_def b_cancel)
next
  case (b_cleanup s now age)
  then show ?case by (simp add: CleanupOldJobs_def bulk_ok_def Let_def)
next
  case (b_spawn p s)
  let ?w = "\<lparr>wk_job = p, wk_dev = hd (bj_next (bs_jobs s ! p)), wk_sem = sem_of p (bs_jobs s ! p), wk_phase = WaitSem, wk_ap = False\<rparr>"
  have "job_ok ((bs_jobs s ! p)\<lparr>bj_next := tl (bj_next (bs_jobs s ! p))\<rparr>) (add_mset ?w (workers_of p (bs_workers s)))"
    by (rule job_ok_spawn [OF bulk_okD [OF b_spawn.prems b_spawn.hyps(1)] b_spawn.hyps(2)]) simp_all
  then show ?case
    by (intro bulk_ok_update [OF b_spawn.prems b_spawn.hyps(1)])
      (use b_spawn.prems in \<open>auto simp: spawn_def Let_def bulk_ok_def limits_new\<close>)
next
  case (b_stop p s now)
  have ok: "job_ok (bs_jobs s ! p) (workers_of p (bs_workers s))" by (rule bulk_okD [OF b_stop.prems b_stop.hyps(1)])
  then have "\<forall>w \<in># workers_of p (bs_workers s). \<not> wk_ap w" using b_stop.hyps(2) unfolding job_ok_def ap_alone_def by blast
  then show ?case using bulk_ok_on_bulk [OF b_stop.prems] job_ok_complete [OF ok] by blast
next
  case (b_sem w s)
  then show ?case using move_ok sem_held_move by (simp add: bulk_ok_def)
next
  case (b_global w s)
  then show ?case using move_ok active_move by (simp add: bulk_ok_def)
next
  case (b_give_up w s now)
  have p: "wk_job w < length (bs_jobs s)" using b_give_up by (simp add: bulk_ok_def)
  note ok = bulk_okD [OF b_give_up.prems p]
  have w: "w \<in># workers_of (wk_job w) (bs_workers s)" using b_give_up.hyps(1) by simp
  note drop = job_ok_drop [OF ok w b_give_up.hyps(3)]
  have "job_ok ((if wk_ap w then complete_job now else (\<lambda>J. J)) (bs_jobs s ! wk_job w)) (workers_of (wk_job w) (bs_workers s) - {#w#})"
    using drop alone_removed [OF ok w] job_ok_complete [OF drop, of now] by (cases "wk_ap w") simp_all
  from remove_ok [OF b_give_up.prems b_give_up.hyps(1) this] show ?case by (simp add: give_up_def)
next
  case (b_finish w s env now)
  have p: "wk_job w < length (bs_jobs s)" using b_finish by (simp add: bulk_ok_def)
  note ok = bulk_okD [OF b_finish.prems p]
  have w: "w \<in># workers_of (wk_job w) (bs_workers s)" using b_finish.hyps(1) by simp
  let ?r = "fst (executeWithRetry (bs_config s) env (wk_dev w))"
  note rec = job_ok_record [OF ok w executeWithRetry_device [of "bs_config s" env]]
  have "job_ok ((if wk_ap w then complete_job now else (\<lambda>J. J)) (record_result ?r (bs_jobs s ! wk_job w))) (workers_of (wk_job w) (bs_workers s) - {#w#})"
    using rec alone_removed [OF ok w] job_ok_complete [OF rec, of now] by (cases "wk_ap w") simp_all
  from remove_ok [OF b_finish.prems b_finish.hyps(1) this] show ?case by (simp add: finish_op_sel)
next
  case (b_join p s now)
  then have "job_ok (complete_job now (bs_jobs s ! p)) (workers_of p (bs_workers s))"
    using job_ok_complete [OF bulk_okD [OF b_join.prems b_join.hyps(1)], of now] by simp
  then show ?case using bulk_ok_on_bulk [OF b_join.prems] by blast
next
  case (b_join_stations p s ap now)
  then show ?case by (intro after_stations_ok)
qed

lemma bulk_reachable_ok: "bulk_reachable s \<Longrightarrow> bulk_ok s"
proof (induction rule: bulk_reachable.induct)
  case (start stored)
  then show ?case by (simp add: NewController_def bulk_ok_def limits_ok_def active_global_def sem_held_def)
qed (rule bulk_step_ok)

section \<open>What bulk jobs promise\<close>


text \<open>A fan-out over one station whose only goroutine waits for the access point's semaphore.\<close>

definition demo_fanout :: bulk_sys where
  "demo_fanout = spawn 0 (ExecuteFanout ''job'' 9 [4] (NewController None))"

lemma demo_fanout_reachable: "bulk_reachable demo_fanout"
proof -
  have "bulk_step (NewController None) (ExecuteFanout ''job'' 9 [4] (NewController None))" by (rule b_fanout)
  moreover have "bulk_step (ExecuteFanout ''job'' 9 [4] (NewController None)) demo_fanout"
    unfolding demo_fanout_def by (rule b_spawn) (simp_all add: ExecuteFanout_def NewController_def)
  ultimately show ?thesis by (meson bulk_reachable.intros)
qed


lemma results_complete:
  assumes "job_ok J {#}" and "\<not> bj_ctx_done J" and "bj_next J = []" and "\<not> bj_ap_due J"
  shows "devs (bj_Results J) = mset (bj_DeviceIDs J)"
  using assms by (simp add: job_ok_def outstanding_def)

lemma complete_sel [simp]:
  "bj_Results (complete_job now J) = bj_Results J" "bj_DeviceIDs (complete_job now J) = bj_DeviceIDs J"
  "bj_CompletedAt (complete_job now J) = Some now"
  by (simp_all add: complete_job_def)

text \<open>C12. A job that ends by itself has a result for every device. When a step sets the completion
  time of a job that was not cancelled, the devices of its results are its devices, each as often
  as it was asked for: no device is lost and none is operated twice.
\<close>

theorem bulk_job_complete:
  assumes "bulk_reachable s" and "bulk_step s s'" and "p < length (bs_jobs s)"
    and "bj_CompletedAt (bs_jobs s ! p) = None" and "\<not> bj_ctx_done (bs_jobs s ! p)" and "bj_CompletedAt (bs_jobs s' ! p) \<noteq> None"
  shows "mset (map or_DeviceID (bj_Results (bs_jobs s' ! p))) = mset (bj_DeviceIDs (bs_jobs s ! p))"
proof -
  have ok: "bulk_ok s" by (rule bulk_reachable_ok [OF assms(1)])
  note jok = bulk_okD [OF ok assms(3)]
  from assms(2) show ?thesis
  proof cases
    case (b_cancel jobID)
    then have "bj_CompletedAt (bs_jobs s' ! p) = bj_CompletedAt (bs_jobs s ! p)"
      using nth_on_bulk [OF assms(3)] by (simp add: CancelBulkJob_def cancel_ctx_def del: on_bulk_sel split: option.split)
    then show ?thesis using assms(4,6) by simp
  next
    case (b_finish w env now)
    let ?r = "fst (executeWithRetry (bs_config s) env (wk_dev w))"
    have w: "wk_job w = p" "wk_ap w"
      using assms(3-6) unfolding b_finish finish_op_sel by (auto simp: nth_upd record_result_sel split: if_splits)
    then have win: "w \<in># workers_of p (bs_workers s)" using b_finish by simp
    note rec = job_ok_record [OF jok win executeWithRetry_device [of "bs_config s" env], unfolded alone_removed [OF jok win w(2)]]
    have sel: "bj_next (record_result ?r (bs_jobs s ! p)) = []" "\<not> bj_ap_due (record_result ?r (bs_jobs s ! p))"
      "\<not> bj_ctx_done (record_result ?r (bs_jobs s ! p))" "bj_DeviceIDs (record_result ?r (bs_jobs s ! p)) = bj_DeviceIDs (bs_jobs s ! p)"
      using jok win w assms(5) by (auto simp: job_ok_def ap_alone_def record_result_sel)
    show ?thesis
      using results_complete [OF rec sel(3,1,2)] w assms(3) unfolding b_finish finish_op_sel sel(4) by simp
  next
    case (b_join q now)
    then have "p = q" using assms(3-6) by (auto simp: nth_upd split: if_splits)
    moreover have "\<not> bj_ap_due (bs_jobs s ! p)" using b_join jok \<open>p = q\<close> by (auto simp: job_ok_def)
    ultimately show ?thesis
      using results_complete [OF jok [unfolded \<open>p = q\<close> b_join(4)]] assms(5) b_join by simp
  next
    case (b_join_stations q ap now)
    have q: "p = q"
      using assms(3-6) b_join_stations by (auto simp: after_stations_def Let_def nth_upd split: if_splits)
    have "bj_CompletedAt ((bs_jobs s ! p)\<lparr>bj_ap_due := False\<rparr>) = None" using assms(4) by simp
    then show ?thesis
      using assms(3,5,6) b_join_stations q job_ok_skip_ap(2) [OF jok [unfolded q b_join_stations(4)], of ap]
      by (auto simp: after_stations_def Let_def split: if_splits)
  qed (use assms(3-6) in \<open>auto simp: Execute_def ExecuteFanout_def nth_append CleanupOldJobs_def spawn_def Let_def move_def
        give_up_def nth_upd split: if_splits\<close>)
qed


definition demo_ok_env :: op_env where
  "demo_ok_env = \<lparr>oe_error = (\<lambda>k. None), oe_cancelled = (\<lambda>k. False), oe_cancelled_wait = (\<lambda>k. False), oe_nanos = (\<lambda>k. 0)\<rparr>"

definition demo_station :: worker where
  "demo_station = \<lparr>wk_job = 0, wk_dev = 4, wk_sem = ApSem 9, wk_phase = WaitSem, wk_ap = False\<rparr>"

definition demo_done_station :: bulk_sys where
  "demo_done_station = finish_op 5 demo_ok_env (demo_station\<lparr>wk_phase := Running\<rparr>)
     (move (demo_station\<lparr>wk_phase := WaitGlobal\<rparr>) Running (move demo_station WaitGlobal demo_fanout))"

lemma demo_station_sel [simp]:
  "wk_job demo_station = 0" "wk_dev demo_station = 4" "wk_sem demo_station = ApSem 9" "wk_phase demo_station = WaitSem" "\<not> wk_ap demo_station"
  by (simp_all add: demo_station_def)

lemma demo_fanout_workers: "bs_workers demo_fanout = {#demo_station#}" "bs_config demo_fanout = DefaultConfig"
  by (simp_all add: demo_fanout_def spawn_def Let_def ExecuteFanout_def NewController_def loadConfig_def demo_station_def sem_of_def)

lemma demo_done_station_reachable: "bulk_reachable demo_done_station"
proof -
  let ?s1 = "move demo_station WaitGlobal demo_fanout"
  let ?s2 = "move (demo_station\<lparr>wk_phase := WaitGlobal\<rparr>) Running ?s1"
  have w1: "bs_workers ?s1 = {#demo_station\<lparr>wk_phase := WaitGlobal\<rparr>#}" "bs_config ?s1 = DefaultConfig"
    by (simp_all add: move_def demo_fanout_workers)
  have w2: "bs_workers ?s2 = {#demo_station\<lparr>wk_phase := Running\<rparr>#}" "bs_config ?s2 = DefaultConfig"
    using w1 by (simp_all add: move_def [of "demo_station\<lparr>wk_phase := WaitGlobal\<rparr>"])
  have "bulk_step demo_fanout ?s1"
    by (rule b_sem) (simp_all add: demo_fanout_workers sem_held_def sem_cap_def DefaultConfig_def)
  moreover have "bulk_step ?s1 ?s2"
    by (rule b_global) (simp_all add: w1 active_global_def DefaultConfig_def)
  moreover have "bulk_step ?s2 demo_done_station"
    unfolding demo_done_station_def by (rule b_finish) (simp_all add: w2 demo_ok_env_def)
  ultimately show ?thesis using demo_fanout_reachable by (meson bulk_reachable.step)
qed

lemma demo_fanout_jobs: "bs_jobs demo_fanout = [\<lparr>bj_ID = ''job'', bj_DeviceIDs = [4, 9], bj_ap = Some 9, bj_Completed = 0, bj_Succeeded = 0,
         bj_Failed = 0, bj_Skipped = 0, bj_Results = [], bj_CompletedAt = None, bj_ctx_done = False, bj_next = [], bj_ap_due = True\<rparr>]"
  by (simp add: demo_fanout_def spawn_def Let_def ExecuteFanout_def NewController_def)

lemma demo_done_station_job:
  "bs_workers demo_done_station = {#}" "bs_config demo_done_station = DefaultConfig"
  "map or_DeviceID (bj_Results (bs_jobs demo_done_station ! 0)) = [4]" "length (bs_jobs demo_done_station) = 1"
  "bj_next (bs_jobs demo_done_station ! 0) = []" "bj_ap_due (bs_jobs demo_done_station ! 0)"
  "bj_ap (bs_jobs demo_done_station ! 0) = Some 9" "\<not> bj_ctx_done (bs_jobs demo_done_station ! 0)"
  "bj_DeviceIDs (bs_jobs demo_done_station ! 0) = [4, 9]" "bj_Succeeded (bs_jobs demo_done_station ! 0) = 1"
  "bj_CompletedAt (bs_jobs demo_done_station ! 0) = None"
  by (simp_all add: demo_done_station_def finish_op_sel move_def demo_fanout_workers demo_fanout_jobs on_bulk_def
      record_result_def Let_def executeWithRetry_def DefaultConfig_def demo_ok_env_def numeral_3_eq_3)

definition demo_ap :: worker where
  "demo_ap = \<lparr>wk_job = 0, wk_dev = 9, wk_sem = ApSem 9, wk_phase = WaitGlobal, wk_ap = True\<rparr>"

lemma demo_ap_state: "after_stations 6 0 9 demo_done_station
    = (on_bulk 0 (\<lambda>J. J\<lparr>bj_ap_due := False\<rparr>) demo_done_station)\<lparr>bs_workers := {#demo_ap#}\<rparr>"
  by (simp add: after_stations_def Let_def demo_done_station_job demo_ap_def)

lemma demo_ap_reachable: "bulk_reachable (after_stations 6 0 9 demo_done_station)"
proof -
  have "bulk_step demo_done_station (after_stations 6 0 9 demo_done_station)"
    by (rule b_join_stations) (simp_all add: demo_done_station_job workers_of_def)
  then show ?thesis using demo_done_station_reachable by (meson bulk_reachable.step)
qed


text \<open>An empty job: its only step is the join that completes it.\<close>

lemma bulk_job_complete_witness:
  "\<exists>s'. bulk_step (Execute ''e'' [] (NewController None)) s'
     \<and> mset (map or_DeviceID (bj_Results (bs_jobs s' ! 0))) = {#}"
proof -
  let ?s = "Execute ''e'' [] (NewController None)"
  have r: "bulk_reachable ?s" by (meson b_execute bulk_reachable.intros)
  have st: "bulk_step ?s (on_bulk 0 (complete_job 3) ?s)" by (rule b_join) (simp_all add: Execute_def NewController_def workers_of_def)
  have "mset (map or_DeviceID (bj_Results (bs_jobs (on_bulk 0 (complete_job 3) ?s) ! 0))) = mset (bj_DeviceIDs (bs_jobs ?s ! 0))"
    by (rule bulk_job_complete [OF r st]) (simp_all add: Execute_def NewController_def)
  then show ?thesis using st by (auto simp: Execute_def NewController_def)
qed

end
