(* ===== verification/Scheduler.thy ===== *)
theory Scheduler imports Prelude begin

text \<open>
  The job scheduler (src/internal/scheduler/scheduler.go): the scheduled_jobs table and its status
  machine, maintenance windows, the concurrency semaphore, the three job types, and cancellation.
  Firmware operations, the refresher and device lookups are parameters; time zones are fixed
  offsets from UTC (a day with a daylight-saving change is not modelled); progress broadcasts are
  not modelled.
\<close>

section \<open>Jobs\<close>

abbreviation JobUpgrade :: string where "JobUpgrade \<equiv> ''upgrade''"
abbreviation JobReboot :: string where "JobReboot \<equiv> ''reboot''"
abbreviation JobRefresh :: string where "JobRefresh \<equiv> ''refresh''"

datatype JobStatus = StatusPending | StatusRunning | StatusCompleted | StatusFailed | StatusCancelled | StatusBlocked

record UpgradeParams =
  up_FirmwareFile :: string
  up_FirmwareVersion :: string
  up_Force :: bool
  up_Fanout :: bool

text \<open>\<open>jb_Parameters\<close> is the decoded JSON of an upgrade job, None when it does not decode.\<close>

record ScheduledJob =
  jb_ID :: int
  jb_JobType :: string
  jb_DeviceIDs :: "int list"
  jb_Parameters :: "UpgradeParams option"
  jb_ScheduledAt :: time
  jb_RepeatCron :: string
  jb_LastRun :: "time option"
  jb_NextRun :: "time option"
  jb_Status :: JobStatus
  jb_Progress :: int
  jb_TotalDevices :: int
  jb_CompletedDevices :: int
  jb_ErrorMessage :: string
  jb_CreatedBy :: int
  jb_CreatedAt :: time

type_synonym jobs = "ScheduledJob list"

definition claimable_status :: "JobStatus \<Rightarrow> bool" where
  "claimable_status st \<longleftrightarrow> st = StatusPending \<or> st = StatusBlocked"

definition get_job :: "jobs \<Rightarrow> int \<Rightarrow> ScheduledJob option" where
  "get_job js i = find (\<lambda>j. jb_ID j = i) js"

definition on_job :: "int \<Rightarrow> (ScheduledJob \<Rightarrow> ScheduledJob) \<Rightarrow> jobs \<Rightarrow> jobs" where
  "on_job i f js = update_where (\<lambda>j. jb_ID j = i) f js"

definition due_at :: "ScheduledJob \<Rightarrow> time" where
  "due_at j = (case jb_NextRun j of None \<Rightarrow> jb_ScheduledAt j | Some t \<Rightarrow> t)"

text \<open>The query of checkAndRunJobs: due jobs in order, at most twice the concurrency limit.\<close>

definition due_jobs :: "time \<Rightarrow> nat \<Rightarrow> jobs \<Rightarrow> ScheduledJob list" where
  "due_jobs now maxConcurrent js =
     take (maxConcurrent * 2) (sort_key due_at (filter (\<lambda>j. claimable_status (jb_Status j) \<and> due_at j \<le> now) js))"

definition claimJob :: "int \<Rightarrow> jobs \<Rightarrow> ScheduledJob option \<times> jobs" where
  "claimJob i js =
     (case get_job js i of
        None \<Rightarrow> (None, js)
      | Some j \<Rightarrow> if \<not> claimable_status (jb_Status j) then (None, js)
                  else (let run = (\<lambda>j. j\<lparr>jb_Status := StatusRunning, jb_ErrorMessage := []\<rparr>) in (Some (run j), on_job i run js)))"

definition blockJobForMaintenance :: "int \<Rightarrow> time option \<Rightarrow> jobs \<Rightarrow> jobs" where
  "blockJobForMaintenance i nextWindow js =
     on_job i (\<lambda>j. case nextWindow of
         Some t \<Rightarrow> j\<lparr>jb_Status := StatusBlocked, jb_NextRun := Some t, jb_ErrorMessage := ''Waiting for maintenance window''\<rparr>
       | None \<Rightarrow> j\<lparr>jb_Status := StatusBlocked, jb_ErrorMessage := ''No applicable maintenance window''\<rparr>) js"

definition updateJobProgress :: "int \<Rightarrow> int \<Rightarrow> int \<Rightarrow> int \<Rightarrow> string \<Rightarrow> jobs \<Rightarrow> jobs" where
  "updateJobProgress i progress totalDevices completed err js =
     on_job i (\<lambda>j. j\<lparr>jb_Progress := progress, jb_TotalDevices := totalDevices, jb_CompletedDevices := completed, jb_ErrorMessage := err\<rparr>) js"

definition updateJobStatus :: "time \<Rightarrow> int \<Rightarrow> JobStatus \<Rightarrow> string \<Rightarrow> jobs \<Rightarrow> jobs" where
  "updateJobStatus dbnow i status err js =
     on_job i (\<lambda>j. if status = StatusCompleted \<or> status = StatusFailed
                    then j\<lparr>jb_Status := status, jb_LastRun := Some dbnow, jb_ErrorMessage := err\<rparr>
                    else j\<lparr>jb_Status := status, jb_ErrorMessage := err\<rparr>) js"

definition scheduleNextRun :: "int \<Rightarrow> time \<Rightarrow> jobs \<Rightarrow> jobs" where
  "scheduleNextRun i nextRun js = on_job i (\<lambda>j. j\<lparr>jb_Status := StatusPending, jb_NextRun := Some nextRun\<rparr>) js"

section \<open>Recurrence\<close>

text \<open>\<open>time.ParseDuration\<close> on exact rationals: a sign, then numbers each with a unit.\<close>

definition duration_unit :: "string \<Rightarrow> duration option" where
  "duration_unit u =
     map_of [(''ns'', 1), (''us'', 1000), (''ms'', 1000000), (''s'', second), (''m'', minute), (''h'', hour)] u"

definition scaled :: "string \<Rightarrow> duration \<Rightarrow> duration" where
  "scaled fraction u = int (dec_val fraction) * u div 10 ^ length fraction"

fun duration_terms :: "nat \<Rightarrow> string \<Rightarrow> duration option" where
  "duration_terms fuel [] = Some 0"
| "duration_terms 0 s = None"
| "duration_terms (Suc fuel) s =
     (let whole = takeWhile is_digit s; s1 = dropWhile is_digit s;
          dot = prefix ''.'' s1;
          fraction = (if dot then takeWhile is_digit (tl s1) else []);
          s2 = (if dot then dropWhile is_digit (tl s1) else s1);
          u = takeWhile (\<lambda>c. c \<noteq> CHR ''.'' \<and> \<not> is_digit c) s2; s3 = dropWhile (\<lambda>c. c \<noteq> CHR ''.'' \<and> \<not> is_digit c) s2
      in if whole = [] \<and> fraction = [] then None
         else (case duration_unit u of None \<Rightarrow> None
               | Some d \<Rightarrow> (case duration_terms fuel s3 of None \<Rightarrow> None
                  | Some rest \<Rightarrow> Some (int (dec_val whole) * d + scaled fraction d + rest))))"

definition parse_duration :: "string \<Rightarrow> duration option" where
  "parse_duration s0 =
     (let neg = prefix ''-'' s0; s = (if neg \<or> prefix ''+'' s0 then tl s0 else s0) in
      if s = ''0'' then Some 0
      else if s = [] then None
      else (case duration_terms (length s) s of None \<Rightarrow> None
            | Some d \<Rightarrow> if d \<ge> 2 ^ 63 then None else Some (if neg then - d else d)))"

definition calculateNextRun :: "time \<Rightarrow> string \<Rightarrow> time option" where
  "calculateNextRun now cron =
     (if cron = ''@hourly'' then Some (now + hour)
      else if cron = ''@daily'' then Some (now + 24 * hour)
      else if cron = ''@weekly'' then Some (now + 7 * 24 * hour)
      else map_option (\<lambda>d. now + d) (parse_duration cron))"

section \<open>Maintenance windows\<close>

text \<open>\<open>mw_StartTime\<close> and \<open>mw_EndTime\<close> are the texts the row of the window is scanned into.\<close>

record MaintenanceWindow =
  mw_ID :: int
  mw_Name :: string
  mw_Scope :: string
  mw_RegionID :: "int option"
  mw_SiteID :: "int option"
  mw_DayOfWeek :: "int list"
  mw_StartTime :: string
  mw_EndTime :: string
  mw_Timezone :: string
  mw_AllowJobs :: "string list"
  mw_Enabled :: bool

definition one_day :: duration where "one_day = 24 * hour"

text \<open>Layout 15:04:05: one or two hour digits, two of each else, an optional fraction.\<close>

definition digits_upto :: "nat \<Rightarrow> nat \<Rightarrow> string \<Rightarrow> bool" where
  "digits_upto lo hi s \<longleftrightarrow> lo \<le> length s \<and> length s \<le> hi \<and> list_all is_digit s"

definition seconds_ok :: "string \<Rightarrow> bool" where
  "seconds_ok s \<longleftrightarrow> digits_upto 2 2 (take 2 s) \<and> dec_val (take 2 s) < 60
     \<and> (let rest = drop 2 s in rest = [] \<or> ((hd rest = CHR ''.'' \<or> hd rest = CHR '','') \<and> tl rest \<noteq> [] \<and> list_all is_digit (tl rest)))"

definition parse_clock :: "string \<Rightarrow> (int \<times> int) option" where
  "parse_clock s =
     (case split_on (\<lambda>c. c = CHR '':'') s of
        [h, m, sec] \<Rightarrow> if digits_upto 1 2 h \<and> dec_val h < 24 \<and> digits_upto 2 2 m \<and> dec_val m < 60 \<and> seconds_ok sec
                        then Some (int (dec_val h), int (dec_val m)) else None
      | _ \<Rightarrow> None)"

text \<open>A parse error is ignored by the code: the zero time is midnight.\<close>

definition clock_offset :: "string \<Rightarrow> duration" where
  "clock_offset s = (case parse_clock s of None \<Rightarrow> 0 | Some (h, m) \<Rightarrow> h * hour + m * minute)"

definition weekday :: "time \<Rightarrow> int" where
  "weekday t = (t div one_day + 4) mod 7"

text \<open>One window: whether it is open, and the next start the code computes, in UTC.\<close>

definition window_start :: "MaintenanceWindow \<Rightarrow> time \<Rightarrow> time" where
  "window_start mw local = local - local mod one_day + clock_offset (mw_StartTime mw)"

definition window_end :: "MaintenanceWindow \<Rightarrow> time \<Rightarrow> time" where
  "window_end mw local =
     (let e = local - local mod one_day + clock_offset (mw_EndTime mw) in if e < window_start mw local then e + one_day else e)"

definition day_match :: "MaintenanceWindow \<Rightarrow> int \<Rightarrow> bool" where
  "day_match mw dow \<longleftrightarrow> mw_DayOfWeek mw = [] \<or> dow \<in> set (mw_DayOfWeek mw)"

definition window_open :: "MaintenanceWindow \<Rightarrow> int \<Rightarrow> time \<Rightarrow> bool" where
  "window_open mw dow local \<longleftrightarrow> day_match mw dow \<and> window_start mw local < local \<and> local < window_end mw local"

definition skipped_days :: "MaintenanceWindow \<Rightarrow> int \<Rightarrow> int" where
  "skipped_days mw dow = sum_list (map (\<lambda>i. if (dow + i) mod 7 \<in> set (mw_DayOfWeek mw) then i else 0) [1..7])"

definition next_start :: "MaintenanceWindow \<Rightarrow> int \<Rightarrow> time \<Rightarrow> time" where
  "next_start mw dow local =
     window_start mw local + (if window_start mw local < local then one_day else 0)
     + (if mw_DayOfWeek mw \<noteq> [] \<and> \<not> day_match mw dow then skipped_days mw dow * one_day else 0)"

fun scan_windows ::
  "(string \<Rightarrow> duration) \<Rightarrow> string \<Rightarrow> int \<Rightarrow> time \<Rightarrow> MaintenanceWindow list \<Rightarrow> time option \<Rightarrow> bool \<times> time option" where
  "scan_windows tz jt dow now [] earliest = (False, earliest)"
| "scan_windows tz jt dow now (mw # mws) earliest =
     (if jt \<notin> set (mw_AllowJobs mw) then scan_windows tz jt dow now mws earliest
      else
        (let off = tz (mw_Timezone mw); local = now + off in
         if window_open mw dow local then (True, None)
         else (let n = next_start mw dow local - off in
               scan_windows tz jt dow now mws
                 (case earliest of None \<Rightarrow> Some n | Some e \<Rightarrow> if n < e then Some n else Some e))))"

definition applies_to :: "int option \<Rightarrow> int option \<Rightarrow> MaintenanceWindow \<Rightarrow> bool" where
  "applies_to site region mw \<longleftrightarrow> mw_Enabled mw \<and>
     (mw_Scope mw = ''global''
      \<or> (mw_Scope mw = ''region'' \<and> region \<noteq> None \<and> mw_RegionID mw = region)
      \<or> (mw_Scope mw = ''site'' \<and> site \<noteq> None \<and> mw_SiteID mw = site))"

definition scope_rank :: "MaintenanceWindow \<Rightarrow> nat" where
  "scope_rank mw = (if mw_Scope mw = ''site'' then 1 else if mw_Scope mw = ''region'' then 2 else 3)"

text \<open>
  \<open>place\<close> is the site and region of a device; \<open>tz\<close> the offset of a zone (0 when it is unknown),
  \<open>server\<close> the offset of the process's own zone; \<open>failed\<close> says that the window query fails.
\<close>

definition checkMaintenanceWindow ::
  "(int \<Rightarrow> int option \<times> int option) \<Rightarrow> (string \<Rightarrow> duration) \<Rightarrow> duration \<Rightarrow> bool \<Rightarrow> time
   \<Rightarrow> MaintenanceWindow list \<Rightarrow> ScheduledJob \<Rightarrow> bool \<times> time option" where
  "checkMaintenanceWindow place tz server failed now mws job =
     (case jb_DeviceIDs job of
        [] \<Rightarrow> (True, None)
      | d # _ \<Rightarrow>
          if failed then (True, None)
          else (case place d of (site, region) \<Rightarrow>
            (case scan_windows tz (jb_JobType job) (weekday (now + server)) now (sort_key scope_rank (filter (applies_to site region) mws)) None of
               (True, _) \<Rightarrow> (True, None)
             | (False, earliest) \<Rightarrow> if filter mw_Enabled mws = [] then (True, None) else (False, earliest))))"

section \<open>Windows: what they do\<close>

lemma one_day_pos: "0 < one_day"
  by (simp add: one_day_def hour_def minute_def second_def)

lemma clock_offset_bounds: "0 \<le> clock_offset s \<and> clock_offset s < one_day"
proof (cases "parse_clock s")
  case (Some hm)
  then have "fst hm \<le> 23 \<and> snd hm \<le> 59 \<and> 0 \<le> fst hm \<and> 0 \<le> snd hm"
    by (auto simp: parse_clock_def split: list.splits if_splits)
  moreover have "fst hm * hour + snd hm * minute \<le> 23 * hour + 59 * minute" if "fst hm \<le> 23" "snd hm \<le> 59"
    using that by (intro add_mono mult_right_mono) (simp_all add: hour_def minute_def second_def)
  ultimately show ?thesis
    using Some by (auto simp: clock_offset_def split_beta one_day_def hour_def minute_def second_def)
qed (simp add: clock_offset_def one_day_pos)

definition clock :: "time \<Rightarrow> duration" where
  "clock local = local mod one_day"

lemma window_start_clock: "window_start mw local < local \<longleftrightarrow> clock_offset (mw_StartTime mw) < clock local"
  by (simp add: window_start_def clock_def)

text \<open>Opening hours. On a matching day a same-day window (start before end) is open exactly
  strictly between its two clock times; an overnight window (end before start) is open exactly
  after its start and never after midnight, and a window with equal times never opens.
\<close>

theorem window_hours:
  assumes "day_match mw dow"
  shows "window_open mw dow local \<longleftrightarrow>
    (if clock_offset (mw_StartTime mw) \<le> clock_offset (mw_EndTime mw)
     then clock_offset (mw_StartTime mw) < clock local \<and> clock local < clock_offset (mw_EndTime mw)
     else clock_offset (mw_StartTime mw) < clock local)"
proof -
  let ?m = "local - local mod one_day" and ?s = "clock_offset (mw_StartTime mw)" and ?e = "clock_offset (mw_EndTime mw)"
  have m: "local = ?m + clock local" by (simp add: clock_def)
  have c: "0 \<le> clock local" "clock local < one_day" using one_day_pos by (simp_all add: clock_def)
  note b = clock_offset_bounds [of "mw_StartTime mw"] clock_offset_bounds [of "mw_EndTime mw"]
  have e: "window_end mw local = ?m + (if ?e < ?s then ?e + one_day else ?e)"
    by (simp add: window_end_def window_start_def Let_def)
  have "local < window_end mw local \<longleftrightarrow> clock local < (if ?e < ?s then ?e + one_day else ?e)"
    unfolding e using m by linarith
  then show ?thesis
    using assms b c by (auto simp: window_open_def window_start_clock)
qed

lemma window_hours_witness:
  "\<not> window_open \<lparr>mw_ID = 1, mw_Name = ''night'', mw_Scope = ''global'', mw_RegionID = None, mw_SiteID = None, mw_DayOfWeek = [],
      mw_StartTime = ''22:00:00'', mw_EndTime = ''06:00:00'', mw_Timezone = ''UTC'', mw_AllowJobs = [''upgrade''], mw_Enabled = True\<rparr> 4 (2 * hour)"
  (is "\<not> window_open ?mw 4 (2 * hour)")
proof -
  have "day_match ?mw 4" by (simp add: day_match_def)
  moreover have "\<not> clock_offset (mw_StartTime ?mw) \<le> clock_offset (mw_EndTime ?mw)" by code_simp
  moreover have "\<not> clock_offset (mw_StartTime ?mw) < clock (2 * hour)" by code_simp
  ultimately show ?thesis using window_hours [of ?mw 4 "2 * hour"] by simp
qed


text \<open>With one day configured, the skipped days are the distance to it.\<close>

lemma skipped_one_day:
  assumes "mw_DayOfWeek mw = [d]" and "0 \<le> d" and "d < 7" and "0 \<le> w" and "w < 7" and "w \<noteq> d"
  shows "(w + skipped_days mw w) mod 7 = d"
proof -
  have days: "[1..7 :: int] = [1, 2, 3, 4, 5, 6, 7]" by code_simp
  have "d \<in> {0, 1, 2, 3, 4, 5, 6}" "w \<in> {0, 1, 2, 3, 4, 5, 6}" using assms by auto
  then show ?thesis using assms(6) unfolding skipped_days_def assms(1) days by (elim insertE emptyE) simp_all
qed

lemma weekday_range: "0 \<le> weekday t \<and> weekday t < 7"
  by (simp add: weekday_def)

lemma next_start_aligned: "\<exists>q. next_start mw dow local = one_day * q + clock_offset (mw_StartTime mw)"
proof
  let ?a = "if window_start mw local < local then 1 else 0"
    and ?b = "if mw_DayOfWeek mw \<noteq> [] \<and> \<not> day_match mw dow then skipped_days mw dow else 0"
  have m: "local - local mod one_day = one_day * (local div one_day)" by (simp add: minus_mod_eq_mult_div)
  have d: "(if A then one_day else 0) = one_day * (if A then 1 else 0)" "(if A then k * one_day else 0) = one_day * (if A then k else 0)" for A k
    by simp_all
  show "next_start mw dow local = one_day * (local div one_day + ?a + ?b) + clock_offset (mw_StartTime mw)"
    unfolding next_start_def d window_start_def [of mw local, unfolded m] distrib_left by simp
qed

lemma mod_less_of_div: "a div m = b div m \<Longrightarrow> a < b \<Longrightarrow> a mod m < b mod (m :: int)"
  unfolding minus_div_mult_eq_mod [symmetric] by simp

lemma next_start_one_day:
  assumes days: "mw_DayOfWeek mw = [d]" "0 \<le> d" "d < 7" and other: "weekday local \<noteq> d"
    and late: "clock_offset (mw_StartTime mw) < clock local"
  shows "weekday (next_start mw (weekday local) local) = (d + 1) mod 7"
    and "clock (next_start mw (weekday local) local) = clock_offset (mw_StartTime mw)"
proof -
  let ?q = "local div one_day" and ?s = "clock_offset (mw_StartTime mw)" and ?k = "skipped_days mw (weekday local)"
  have m: "local - local mod one_day = one_day * ?q" by (simp add: minus_mod_eq_mult_div)
  have "next_start mw (weekday local) local = one_day * ?q + ?s + one_day + ?k * one_day"
    using late days other window_start_clock [of mw local] by (simp add: next_start_def day_match_def window_start_def m)
  then have n: "next_start mw (weekday local) local = ?s + one_day * (?q + 1 + ?k)" by (simp add: algebra_simps)
  note b = clock_offset_bounds [of "mw_StartTime mw"]
  show "clock (next_start mw (weekday local) local) = ?s" unfolding n clock_def using b by simp
  have "next_start mw (weekday local) local div one_day = ?q + 1 + ?k" unfolding n using b one_day_pos by simp
  then have "weekday (next_start mw (weekday local) local) = (?q + 1 + ?k + 4) mod 7" by (simp add: weekday_def)
  also have "\<dots> = ((weekday local + ?k) mod 7 + 1) mod 7" by (simp add: weekday_def mod_simps algebra_simps)
  also have "\<dots> = (d + 1) mod 7" using skipped_one_day [OF days, of "weekday local"] weekday_range other by simp
  finally show "weekday (next_start mw (weekday local) local) = (d + 1) mod 7" .
qed

text \<open>A weekly window can starve a job. Take a window on one day of the week and a job first checked
  on another day at a later clock time than the window's start. The start the code computes falls
  on the day after the window, so a job that is checked again later on that day (the next tick
  after its next_run) finds the window closed again, and so on at every check, for ever.
\<close>

theorem weekly_window_starves:
  assumes "mw_DayOfWeek mw = [d]" and "0 \<le> d" and "d < 7"
    and "weekday (check 0) \<noteq> d" and "clock_offset (mw_StartTime mw) < clock (check 0)"
    and "\<And>k. next_start mw (weekday (check k)) (check k) < check (Suc k)
      \<and> check (Suc k) div one_day = next_start mw (weekday (check k)) (check k) div one_day"
  shows "\<not> window_open mw (weekday (check k)) (check k)"
proof -
  have "weekday (check k) \<noteq> d \<and> clock_offset (mw_StartTime mw) < clock (check k)"
  proof (induction k)
    case (Suc k)
    let ?n = "next_start mw (weekday (check k)) (check k)"
    note n = next_start_one_day [OF assms(1-3) conjunct1 [OF Suc] conjunct2 [OF Suc]]
    have day: "check (Suc k) div one_day = ?n div one_day" and gt: "?n < check (Suc k)" using assms(6) by blast+
    then have "weekday (check (Suc k)) = (d + 1) mod 7" using n(1) by (simp add: weekday_def)
    moreover have "(d + 1) mod 7 \<noteq> d" using assms(2,3) by presburger
    moreover have "clock ?n < clock (check (Suc k))"
      unfolding clock_def by (rule mod_less_of_div [OF day [symmetric] gt])
    ultimately show ?case using n(2) by simp
  qed (use assms in simp)
  then show ?thesis using assms(1) by (simp add: window_open_def day_match_def)
qed

definition sunday_window :: MaintenanceWindow where
  "sunday_window = \<lparr>mw_ID = 1, mw_Name = ''sunday'', mw_Scope = ''global'', mw_RegionID = None, mw_SiteID = None, mw_DayOfWeek = [0],
     mw_StartTime = ''02:00:00'', mw_EndTime = ''05:00:00'', mw_Timezone = ''UTC'', mw_AllowJobs = [''upgrade''], mw_Enabled = True\<rparr>"

text \<open>Monday the 5th of January 1970, ten in the morning; then ten seconds after each computed start.\<close>

fun demo_check :: "nat \<Rightarrow> time" where
  "demo_check 0 = 4 * one_day + 10 * hour"
| "demo_check (Suc k) = next_start sunday_window (weekday (demo_check k)) (demo_check k) + 10 * second"

lemma weekly_window_starves_witness:
  "\<not> window_open sunday_window (weekday (demo_check 3)) (demo_check 3)"
proof (rule weekly_window_starves [where d = 0 and check = demo_check])
  show "mw_DayOfWeek sunday_window = [0]" by (simp add: sunday_window_def)
  show "weekday (demo_check 0) \<noteq> 0" by code_simp
  show "clock_offset (mw_StartTime sunday_window) < clock (demo_check 0)" by code_simp
  fix k
  let ?n = "next_start sunday_window (weekday (demo_check k)) (demo_check k)"
  have two: "clock_offset (mw_StartTime sunday_window) = 2 * hour" by code_simp
  obtain q where q: "?n = one_day * q + 2 * hour" using next_start_aligned two by metis
  have "?n div one_day = q" "(?n + 10 * second) div one_day = q"
    unfolding q by (simp_all add: one_day_def hour_def minute_def second_def)
  then show "?n < demo_check (Suc k) \<and> demo_check (Suc k) div one_day = ?n div one_day" by (simp add: second_def)
qed simp_all

section \<open>Window administration\<close>

text \<open>
  The times are checked by the cast to the column type: \<open>bad_time\<close> says that it refuses them.
  The listing's order is byte order (the database's collation may order text differently).
\<close>

type_synonym windows = "MaintenanceWindow list"

definition ListMaintenanceWindows :: "windows \<Rightarrow> windows" where
  "ListMaintenanceWindows mws = sort_key mw_Scope (sort_key mw_Name mws)"

definition CreateMaintenanceWindow :: "(string \<Rightarrow> bool) \<Rightarrow> int \<Rightarrow> MaintenanceWindow \<Rightarrow> windows \<Rightarrow> int option \<times> windows" where
  "CreateMaintenanceWindow bad_time newid mw mws =
     (if bad_time (mw_StartTime mw) \<or> bad_time (mw_EndTime mw) then (None, mws) else (Some newid, mws @ [mw\<lparr>mw_ID := newid\<rparr>]))"

definition UpdateMaintenanceWindow :: "(string \<Rightarrow> bool) \<Rightarrow> int \<Rightarrow> MaintenanceWindow \<Rightarrow> windows \<Rightarrow> bool \<times> windows" where
  "UpdateMaintenanceWindow bad_time i mw mws =
     (if filter (\<lambda>w. mw_ID w = i) mws \<noteq> [] \<and> (bad_time (mw_StartTime mw) \<or> bad_time (mw_EndTime mw)) then (False, mws)
      else (True, update_where (\<lambda>w. mw_ID w = i) (\<lambda>w. mw\<lparr>mw_ID := i\<rparr>) mws))"

definition DeleteMaintenanceWindow :: "int \<Rightarrow> windows \<Rightarrow> bool \<times> windows" where
  "DeleteMaintenanceWindow i mws =
     (if filter (\<lambda>w. mw_ID w = i) mws = [] then (False, mws) else (True, delete_where (\<lambda>w. mw_ID w = i) mws))"

section \<open>The scheduler\<close>

text \<open>
  \<open>sd_tokens\<close> counts the tokens in the current semaphore channel, whose capacity is \<open>sd_capacity\<close>;
  \<open>sd_cancels\<close> are the jobs whose cancel function is registered.
\<close>

record scheduler =
  sd_maxConcurrentJobs :: nat
  sd_checkInterval :: duration
  sd_respectMaintenance :: bool
  sd_capacity :: nat
  sd_tokens :: nat
  sd_cancels :: "int list"

definition loadSettings :: "(string \<Rightarrow> string option) \<Rightarrow> scheduler \<Rightarrow> scheduler" where
  "loadSettings setting s =
     (let n = (case setting ''scheduler_max_concurrent'' of None \<Rightarrow> None | Some v \<Rightarrow> atoi v);
          c = (case setting ''scheduler_check_interval'' of None \<Rightarrow> None | Some v \<Rightarrow> atoi v)
      in s\<lparr>sd_maxConcurrentJobs := (case n of Some k \<Rightarrow> if k > 0 \<and> k \<le> 50 then nat k else sd_maxConcurrentJobs s | None \<Rightarrow> sd_maxConcurrentJobs s),
           sd_checkInterval := (case c of Some k \<Rightarrow> if k \<ge> 5 \<and> k \<le> 300 then k * second else sd_checkInterval s | None \<Rightarrow> sd_checkInterval s),
           sd_respectMaintenance := (case setting ''scheduler_respect_maintenance'' of None \<Rightarrow> sd_respectMaintenance s | Some v \<Rightarrow> v = ''true'')\<rparr>)"

definition NewScheduler :: "(string \<Rightarrow> string option) \<Rightarrow> scheduler" where
  "NewScheduler setting =
     (let s = loadSettings setting \<lparr>sd_maxConcurrentJobs = 5, sd_checkInterval = 10 * second, sd_respectMaintenance = True,
                sd_capacity = 0, sd_tokens = 0, sd_cancels = []\<rparr>
      in s\<lparr>sd_capacity := sd_maxConcurrentJobs s\<rparr>)"

text \<open>A changed limit replaces the channel by an empty one of the new capacity.\<close>

definition ReloadSettings :: "(string \<Rightarrow> string option) \<Rightarrow> scheduler \<Rightarrow> scheduler" where
  "ReloadSettings setting s =
     (let s1 = loadSettings setting s in
      if sd_maxConcurrentJobs s1 \<noteq> sd_maxConcurrentJobs s then s1\<lparr>sd_capacity := sd_maxConcurrentJobs s1, sd_tokens := 0\<rparr> else s1)"

definition try_acquire :: "scheduler \<Rightarrow> scheduler option" where
  "try_acquire s = (if sd_tokens s < sd_capacity s then Some (s\<lparr>sd_tokens := sd_tokens s + 1\<rparr>) else None)"

text \<open>Receiving from an empty channel blocks: None.\<close>

definition release_slot :: "scheduler \<Rightarrow> scheduler option" where
  "release_slot s = (if sd_tokens s = 0 then None else Some (s\<lparr>sd_tokens := sd_tokens s - 1\<rparr>))"

definition settings_ok :: "scheduler \<Rightarrow> bool" where
  "settings_ok s \<longleftrightarrow> 1 \<le> sd_maxConcurrentJobs s \<and> sd_maxConcurrentJobs s \<le> 50
     \<and> 5 * second \<le> sd_checkInterval s \<and> sd_checkInterval s \<le> 300 * second \<and> sd_capacity s = sd_maxConcurrentJobs s"

lemma loadSettings_bounds:
  assumes "1 \<le> sd_maxConcurrentJobs s" "sd_maxConcurrentJobs s \<le> 50" "5 * second \<le> sd_checkInterval s" "sd_checkInterval s \<le> 300 * second"
  shows "1 \<le> sd_maxConcurrentJobs (loadSettings setting s) \<and> sd_maxConcurrentJobs (loadSettings setting s) \<le> 50
    \<and> 5 * second \<le> sd_checkInterval (loadSettings setting s) \<and> sd_checkInterval (loadSettings setting s) \<le> 300 * second"
  using assms by (auto simp: loadSettings_def Let_def second_def split: option.splits)

text \<open>Settings stay in range. Whatever strings the settings table holds, at start and after any
  reloads, the concurrency limit is between 1 and 50, the check interval between 5 and 300
  seconds, and the semaphore has the capacity of the limit.
\<close>

theorem settings_in_range:
  "settings_ok (fold ReloadSettings tables (NewScheduler table))"
proof -
  have start: "settings_ok (NewScheduler table)"
    using loadSettings_bounds [of "\<lparr>sd_maxConcurrentJobs = 5, sd_checkInterval = 10 * second, sd_respectMaintenance = True,
                sd_capacity = 0, sd_tokens = 0, sd_cancels = []\<rparr>" table]
    by (simp add: settings_ok_def NewScheduler_def Let_def second_def)
  have cap: "sd_capacity (loadSettings t s) = sd_capacity s" for t s by (simp add: loadSettings_def Let_def)
  have "settings_ok (ReloadSettings t s)" if "settings_ok s" for t s
    using that loadSettings_bounds [of s t] by (simp add: settings_ok_def ReloadSettings_def Let_def cap)
  then have "settings_ok (fold ReloadSettings tables s)" if "settings_ok s" for s
    using that by (induction tables arbitrary: s) simp_all
  then show ?thesis using start by blast
qed

end
