(* ===== verification/SchedulerRuns.thy ===== *)
theory SchedulerRuns imports Scheduler begin

text \<open>
  Running jobs (src/internal/scheduler/scheduler.go): the pass of checkAndRunJobs over the jobs it
  fetched, the goroutine of a claimed job with its final status, the three job types, cancellation,
  schedule edits and creation, and how they interleave.
\<close>

section \<open>Job bodies\<close>

datatype outcome = Done | Err string | Canceled

text \<open>\<open>cancelled k\<close>: the job's context is cancelled when the k-th device is reached.\<close>

record UpgradeResult =
  ur_DeviceID :: int
  ur_Status :: string
  ur_Message :: string

record upgrade_env =
  ue_parent :: "int \<Rightarrow> int option"
  ue_stas :: "int \<Rightarrow> int list option"
  ue_flavor :: "int \<Rightarrow> string option"
  ue_find_by_flavor :: "string \<Rightarrow> string option"
  ue_upgrade :: "int \<Rightarrow> string \<Rightarrow> bool \<Rightarrow> string + UpgradeResult"

definition fanout_one :: "upgrade_env \<Rightarrow> bool \<Rightarrow> int \<Rightarrow> int list" where
  "fanout_one e fanout d =
     (if fanout \<and> ue_parent e d = None then (case ue_stas e d of None \<Rightarrow> [] | Some ids \<Rightarrow> ids) else []) @ [d]"

definition all_devices :: "upgrade_env \<Rightarrow> bool \<Rightarrow> int list \<Rightarrow> int list" where
  "all_devices e fanout ids = concat (map (fanout_one e fanout) ids)"

definition firmware_ref :: "upgrade_env \<Rightarrow> UpgradeParams \<Rightarrow> string \<Rightarrow> string" where
  "firmware_ref e p flavor =
     (let r0 = (if up_FirmwareVersion p = [] then up_FirmwareFile p else up_FirmwareVersion p)
      in if r0 = [] \<and> flavor \<noteq> [] then (case ue_find_by_flavor e flavor of None \<Rightarrow> [] | Some n \<Rightarrow> n) else r0)"

definition upgradeDevice :: "upgrade_env \<Rightarrow> UpgradeParams \<Rightarrow> int \<Rightarrow> UpgradeResult" where
  "upgradeDevice e p d =
     (case ue_flavor e d of
        None \<Rightarrow> \<lparr>ur_DeviceID = d, ur_Status = ''failed'', ur_Message = ''device lookup failed''\<rparr>
      | Some flavor \<Rightarrow>
          (let r = firmware_ref e p flavor in
           if r = [] then \<lparr>ur_DeviceID = d, ur_Status = ''skipped'', ur_Message = ''no matching firmware found''\<rparr>
           else (case ue_upgrade e d r (up_Force p) of
                   Inl err \<Rightarrow> \<lparr>ur_DeviceID = d, ur_Status = ''failed'', ur_Message = err\<rparr>
                 | Inr res \<Rightarrow> res)))"

fun upgrade_loop :: "upgrade_env \<Rightarrow> UpgradeParams \<Rightarrow> (nat \<Rightarrow> bool) \<Rightarrow> nat \<Rightarrow> int list \<Rightarrow> outcome \<times> UpgradeResult list" where
  "upgrade_loop e p cancelled k [] = (Done, [])"
| "upgrade_loop e p cancelled k (d # ds) =
     (if cancelled k then (Canceled, [])
      else (case upgrade_loop e p cancelled (k + 1) ds of (out, rs) \<Rightarrow> (out, upgradeDevice e p d # rs)))"

definition runUpgradeJob :: "upgrade_env \<Rightarrow> (nat \<Rightarrow> bool) \<Rightarrow> ScheduledJob \<Rightarrow> outcome \<times> UpgradeResult list" where
  "runUpgradeJob e cancelled job =
     (case jb_Parameters job of
        None \<Rightarrow> (Err ''invalid upgrade params'', [])
      | Some p \<Rightarrow> upgrade_loop e p cancelled 0 (all_devices e (up_Fanout p) (jb_DeviceIDs job)))"

text \<open>Reboots: every device is attempted, failures are only logged; the attempts are returned.\<close>

fun runRebootJob :: "(nat \<Rightarrow> bool) \<Rightarrow> nat \<Rightarrow> int list \<Rightarrow> outcome \<times> int list" where
  "runRebootJob cancelled k [] = (Done, [])"
| "runRebootJob cancelled k (d # ds) =
     (if cancelled k then (Canceled, [])
      else (case runRebootJob cancelled (k + 1) ds of (out, rs) \<Rightarrow> (out, d # rs)))"

fun refresh_loop :: "(int \<Rightarrow> bool) \<Rightarrow> (nat \<Rightarrow> bool) \<Rightarrow> nat \<Rightarrow> int list \<Rightarrow> nat \<Rightarrow> outcome + nat" where
  "refresh_loop refresh cancelled k [] failed = Inr failed"
| "refresh_loop refresh cancelled k (d # ds) failed =
     (if cancelled k then Inl Canceled else refresh_loop refresh cancelled (k + 1) ds (if refresh d then failed else failed + 1))"

text \<open>\<open>refresher = None\<close>: no refresher is configured; otherwise whether a refresh could be queued.\<close>

definition runRefreshJob :: "(int \<Rightarrow> bool) option \<Rightarrow> (nat \<Rightarrow> bool) \<Rightarrow> ScheduledJob \<Rightarrow> outcome" where
  "runRefreshJob refresher cancelled job =
     (case refresher of
        None \<Rightarrow> Err ''device refresher is unavailable''
      | Some refresh \<Rightarrow>
          (case refresh_loop refresh cancelled 0 (jb_DeviceIDs job) 0 of
             Inl out \<Rightarrow> out
           | Inr failed \<Rightarrow> if failed > 0
               then Err (int_str (int failed) @ '' of '' @ int_str (int (length (jb_DeviceIDs job))) @ '' device refreshes failed to queue'')
               else Done))"

section \<open>The life of a run\<close>

text \<open>A run knows its job as claimed, whether its cancel function is registered, and whether it was called.\<close>

record run =
  rn_job :: ScheduledJob
  rn_registered :: bool
  rn_cancelled :: bool

definition rn_ID :: "run \<Rightarrow> int" where
  "rn_ID r = jb_ID (rn_job r)"

record sched_sys =
  ss_jobs :: jobs
  ss_sched :: scheduler
  ss_fetched :: "ScheduledJob list"
  ss_runs :: "run list"

text \<open>One job of the fetched list: block it, stop the pass, skip it, or claim it and start its goroutine.\<close>

definition process_job :: "(ScheduledJob \<Rightarrow> bool \<times> time option) \<Rightarrow> ScheduledJob \<Rightarrow> ScheduledJob list \<Rightarrow> sched_sys \<Rightarrow> sched_sys" where
  "process_job window job rest s =
     (let s0 = s\<lparr>ss_fetched := rest\<rparr>; w = window job in
      if sd_respectMaintenance (ss_sched s) \<and> \<not> fst w
      then s0\<lparr>ss_jobs := blockJobForMaintenance (jb_ID job) (snd w) (ss_jobs s)\<rparr>
      else (case try_acquire (ss_sched s) of
              None \<Rightarrow> s0\<lparr>ss_fetched := []\<rparr>
            | Some sched \<Rightarrow>
                (case claimJob (jb_ID job) (ss_jobs s) of
                   (None, js) \<Rightarrow> s0\<lparr>ss_jobs := js\<rparr>
                 | (Some j, js) \<Rightarrow> s0\<lparr>ss_jobs := js, ss_sched := sched,
                     ss_runs := \<lparr>rn_job = j, rn_registered = False, rn_cancelled = False\<rparr> # ss_runs s\<rparr>)))"

text \<open>The goroutine starts: the cancel function is registered and the progress reset.\<close>

definition start_run :: "run \<Rightarrow> sched_sys \<Rightarrow> sched_sys" where
  "start_run r s = s\<lparr>ss_sched := (ss_sched s)\<lparr>sd_cancels := rn_ID r # sd_cancels (ss_sched s)\<rparr>,
     ss_jobs := updateJobProgress (rn_ID r) 0 (int (length (jb_DeviceIDs (rn_job r)))) 0 [] (ss_jobs s),
     ss_runs := map (\<lambda>q. if q = r then q\<lparr>rn_registered := True\<rparr> else q) (ss_runs s)\<rparr>"

definition final_status :: "outcome \<Rightarrow> JobStatus \<Rightarrow> JobStatus \<times> string" where
  "final_status out dbStatus =
     (case out of
        Done \<Rightarrow> (StatusCompleted, [])
      | Err e \<Rightarrow> (StatusFailed, e)
      | Canceled \<Rightarrow> if dbStatus = StatusCancelled then (StatusCancelled, ''Cancelled'') else (StatusFailed, ''context canceled''))"

definition db_status :: "jobs \<Rightarrow> int \<Rightarrow> JobStatus" where
  "db_status js i = (case get_job js i of None \<Rightarrow> StatusFailed | Some j \<Rightarrow> jb_Status j)"

text \<open>What runJob does after the body: the final status and, for a repeating job, the next run.\<close>

definition finish_jobs :: "time \<Rightarrow> time \<Rightarrow> ScheduledJob \<Rightarrow> outcome \<Rightarrow> jobs \<Rightarrow> jobs" where
  "finish_jobs now dbnow job out js =
     (case final_status out (db_status js (jb_ID job)) of (status, err) \<Rightarrow>
       (let js1 = updateJobStatus dbnow (jb_ID job) status err js in
        if jb_RepeatCron job \<noteq> [] \<and> status = StatusCompleted
        then (case calculateNextRun now (jb_RepeatCron job) of None \<Rightarrow> js1 | Some t \<Rightarrow> scheduleNextRun (jb_ID job) t js1)
        else js1))"

text \<open>
  The deferred calls: the cancel function is deleted, then the slot released. False: the channel
  is empty, the goroutine has done its work and waits for a token.
\<close>

definition finish_run :: "time \<Rightarrow> time \<Rightarrow> run \<Rightarrow> outcome \<Rightarrow> sched_sys \<Rightarrow> bool \<times> sched_sys" where
  "finish_run now dbnow r out s =
     (let s1 = s\<lparr>ss_jobs := finish_jobs now dbnow (rn_job r) out (ss_jobs s),
        ss_sched := (ss_sched s)\<lparr>sd_cancels := filter (\<lambda>i. i \<noteq> rn_ID r) (sd_cancels (ss_sched s))\<rparr>,
        ss_runs := filter (\<lambda>q. q \<noteq> r) (ss_runs s)\<rparr>
      in (case release_slot (ss_sched s1) of None \<Rightarrow> (False, s1) | Some sched \<Rightarrow> (True, s1\<lparr>ss_sched := sched\<rparr>)))"

definition CancelJob :: "int \<Rightarrow> sched_sys \<Rightarrow> bool \<times> sched_sys" where
  "CancelJob i s =
     (case get_job (ss_jobs s) i of
        None \<Rightarrow> (False, s)
      | Some j \<Rightarrow>
          if jb_Status j \<noteq> StatusPending \<and> jb_Status j \<noteq> StatusBlocked \<and> jb_Status j \<noteq> StatusRunning then (False, s)
          else (True, s\<lparr>ss_jobs := on_job i (\<lambda>j. j\<lparr>jb_Status := StatusCancelled,
                   jb_ErrorMessage := (if jb_ErrorMessage j = [] then ''Cancelled by user'' else jb_ErrorMessage j)\<rparr>) (ss_jobs s),
                 ss_runs := map (\<lambda>q. if rn_ID q = i \<and> i \<in> set (sd_cancels (ss_sched s)) then q\<lparr>rn_cancelled := True\<rparr> else q) (ss_runs s)\<rparr>))"

datatype edit_error = JobNotFound | NotEditable

definition UpdateJobSchedule :: "int \<Rightarrow> time option \<Rightarrow> string option \<Rightarrow> sched_sys \<Rightarrow> (edit_error + ScheduledJob) \<times> sched_sys" where
  "UpdateJobSchedule i scheduledAt repeatCron s =
     (case get_job (ss_jobs s) i of
        None \<Rightarrow> (Inl JobNotFound, s)
      | Some cur \<Rightarrow>
          if \<not> claimable_status (jb_Status cur) then (Inl NotEditable, s)
          else (let edit = (\<lambda>j. j\<lparr>jb_ScheduledAt := (case scheduledAt of None \<Rightarrow> jb_ScheduledAt cur | Some t \<Rightarrow> t),
                         jb_RepeatCron := (case repeatCron of None \<Rightarrow> jb_RepeatCron cur | Some c \<Rightarrow> c),
                         jb_NextRun := None, jb_Status := StatusPending, jb_ErrorMessage := []\<rparr>)
                in (Inr (edit cur), s\<lparr>ss_jobs := on_job i edit (ss_jobs s)\<rparr>)))"

definition CreateJob :: "time \<Rightarrow> int \<Rightarrow> string \<Rightarrow> int list \<Rightarrow> UpgradeParams option \<Rightarrow> time \<Rightarrow> string \<Rightarrow> int \<Rightarrow> sched_sys \<Rightarrow> sched_sys" where
  "CreateJob dbnow i jobType deviceIDs params scheduledAt repeatCron userID s =
     s\<lparr>ss_jobs := ss_jobs s @ [\<lparr>jb_ID = i, jb_JobType = jobType, jb_DeviceIDs = deviceIDs, jb_Parameters = params,
        jb_ScheduledAt = scheduledAt, jb_RepeatCron = repeatCron, jb_LastRun = None, jb_NextRun = None, jb_Status = StatusPending,
        jb_Progress = 0, jb_TotalDevices = 0, jb_CompletedDevices = 0, jb_ErrorMessage = [], jb_CreatedBy = userID, jb_CreatedAt = dbnow\<rparr>]\<rparr>"

definition ListJobs :: "JobStatus option \<Rightarrow> nat \<Rightarrow> jobs \<Rightarrow> ScheduledJob list" where
  "ListJobs status limit js =
     take limit (sort_key (\<lambda>j. - due_at j) (case status of None \<Rightarrow> js | Some st \<Rightarrow> filter (\<lambda>j. jb_Status j = st) js))"

section \<open>Interleavings\<close>

text \<open>
  One process. The pass works on the list it fetched; between two of its jobs, goroutines start and
  finish and users create, edit and cancel.
\<close>

inductive sched_step :: "sched_sys \<Rightarrow> sched_sys \<Rightarrow> bool" where
  p_fetch: "ss_fetched s = [] \<Longrightarrow>
    sched_step s (s\<lparr>ss_fetched := due_jobs now (sd_maxConcurrentJobs (ss_sched s)) (ss_jobs s)\<rparr>)"
| p_process: "ss_fetched s = job # rest \<Longrightarrow> sched_step s (process_job window job rest s)"
| p_start: "r \<in> set (ss_runs s) \<Longrightarrow> \<not> rn_registered r \<Longrightarrow> sched_step s (start_run r s)"
| p_finish: "r \<in> set (ss_runs s) \<Longrightarrow> rn_registered r \<Longrightarrow> (out = Canceled \<Longrightarrow> rn_cancelled r) \<Longrightarrow>
    finish_run now dbnow r out s = (True, s') \<Longrightarrow> sched_step s s'"
| p_cancel: "sched_step s (snd (CancelJob i s))"
| p_edit: "sched_step s (snd (UpdateJobSchedule i at_time cron s))"
| p_create: "i \<notin> jb_ID ` set (ss_jobs s) \<Longrightarrow> sched_step s (CreateJob dbnow i jt ids params at_time cron user s)"

inductive_cases sched_stepE: "sched_step s s'"

inductive sched_reachable :: "sched_sys \<Rightarrow> bool" where
  boot: "distinct (map jb_ID js) \<Longrightarrow> (\<forall>j \<in> set js. jb_Status j \<noteq> StatusRunning) \<Longrightarrow>
    sched_reachable \<lparr>ss_jobs = js, ss_sched = NewScheduler table, ss_fetched = [], ss_runs = []\<rparr>"
| step: "sched_reachable s \<Longrightarrow> sched_step s s' \<Longrightarrow> sched_reachable s'"

text \<open>A running job is in one goroutine, its row is not claimable, and each goroutine holds a token.\<close>

definition runs_ok :: "sched_sys \<Rightarrow> bool" where
  "runs_ok s \<longleftrightarrow> distinct (map jb_ID (ss_jobs s)) \<and> distinct (map rn_ID (ss_runs s)) \<and> distinct (map jb_ID (ss_fetched s))
     \<and> (\<forall>r \<in> set (ss_runs s). \<forall>j \<in> set (ss_jobs s). jb_ID j = rn_ID r \<longrightarrow> \<not> claimable_status (jb_Status j))
     \<and> jb_ID ` set (ss_fetched s) \<inter> rn_ID ` set (ss_runs s) = {}
     \<and> rn_ID ` set (ss_runs s) \<subseteq> jb_ID ` set (ss_jobs s)
     \<and> sd_tokens (ss_sched s) = length (ss_runs s) \<and> length (ss_runs s) \<le> sd_capacity (ss_sched s)"

lemma set_on_job: "j \<in> set (on_job i f js) \<longleftrightarrow> (\<exists>k \<in> set js. j = (if jb_ID k = i then f k else k))"
  by (simp add: on_job_def in_update_where)

lemma ids_on_job: "(\<And>j. jb_ID (f j) = jb_ID j) \<Longrightarrow> map jb_ID (on_job i f js) = map jb_ID js"
  by (simp add: on_job_def map_update_where)

lemma get_job_Some: "get_job js i = Some j \<Longrightarrow> j \<in> set js \<and> jb_ID j = i"
  unfolding get_job_def by (rule find_Some_in)


definition busy :: "int \<Rightarrow> jobs \<Rightarrow> bool" where
  "busy i js \<longleftrightarrow> (\<forall>j \<in> set js. jb_ID j = i \<longrightarrow> \<not> claimable_status (jb_Status j))"

lemma busyI: "(\<And>j. j \<in> set js \<Longrightarrow> jb_ID j = i \<Longrightarrow> \<not> claimable_status (jb_Status j)) \<Longrightarrow> busy i js"
  by (simp add: busy_def)

lemma busyD: "busy i js \<Longrightarrow> j \<in> set js \<Longrightarrow> jb_ID j = i \<Longrightarrow> \<not> claimable_status (jb_Status j)"
  by (simp add: busy_def)

lemma on_jobE:
  assumes "j \<in> set (on_job i f js)"
  obtains (hit) k where "k \<in> set js" "jb_ID k = i" "j = f k" | (miss) "j \<in> set js" "jb_ID j \<noteq> i"
  using assms unfolding set_on_job by (auto split: if_splits)

lemma busy_on_other:
  assumes "busy i js" and "i \<noteq> k" and "\<And>j. jb_ID (f j) = jb_ID j"
  shows "busy i (on_job k f js)"
proof (rule busyI)
  fix j assume "j \<in> set (on_job k f js)" and i: "jb_ID j = i"
  then show "\<not> claimable_status (jb_Status j)" using assms busyD [OF assms(1)] by (cases rule: on_jobE) auto
qed

lemma busy_on_job:
  assumes "busy i js" and "\<And>j. jb_ID (f j) = jb_ID j"
    and "\<And>j. \<not> claimable_status (jb_Status j) \<Longrightarrow> \<not> claimable_status (jb_Status (f j))"
  shows "busy i (on_job k f js)"
proof (rule busyI)
  fix j assume "j \<in> set (on_job k f js)" and i: "jb_ID j = i"
  then show "\<not> claimable_status (jb_Status j)"
  proof (cases rule: on_jobE)
    case (hit k)
    then show ?thesis using assms(2) assms(3) busyD [OF assms(1)] i by metis
  qed (use busyD [OF assms(1)] i in blast)
qed

lemma busy_set:
  assumes "\<And>j. \<not> claimable_status (jb_Status (f j))"
  shows "busy i (on_job i f js)"
proof (rule busyI)
  fix j assume "j \<in> set (on_job i f js)" and "jb_ID j = i"
  then show "\<not> claimable_status (jb_Status j)" using assms by (cases rule: on_jobE) auto
qed

lemma runs_ok_iff:
  "runs_ok s \<longleftrightarrow> distinct (map jb_ID (ss_jobs s)) \<and> distinct (map rn_ID (ss_runs s)) \<and> distinct (map jb_ID (ss_fetched s))
     \<and> (\<forall>r \<in> set (ss_runs s). busy (rn_ID r) (ss_jobs s))
     \<and> jb_ID ` set (ss_fetched s) \<inter> rn_ID ` set (ss_runs s) = {}
     \<and> rn_ID ` set (ss_runs s) \<subseteq> jb_ID ` set (ss_jobs s)
     \<and> sd_tokens (ss_sched s) = length (ss_runs s) \<and> length (ss_runs s) \<le> sd_capacity (ss_sched s)"
  by (simp add: runs_ok_def busy_def)

text \<open>An update of the table that keeps ids and leaves the rows of running jobs unclaimable.\<close>

lemma runs_ok_jobs:
  assumes "runs_ok s" and "map jb_ID js = map jb_ID (ss_jobs s)" and "\<forall>r \<in> set (ss_runs s). busy (rn_ID r) js"
  shows "runs_ok (s\<lparr>ss_jobs := js\<rparr>)"
proof -
  have "jb_ID ` set js = jb_ID ` set (ss_jobs s)" using arg_cong [OF assms(2), of set] by simp
  then show ?thesis using assms by (simp add: runs_ok_iff)
qed

lemma runs_ok_fetched: "runs_ok s \<Longrightarrow> distinct (map jb_ID fs) \<Longrightarrow> set fs \<subseteq> set (ss_fetched s) \<Longrightarrow> runs_ok (s\<lparr>ss_fetched := fs\<rparr>)"
  by (auto simp: runs_ok_iff)

lemma ids_runs_map: "(\<And>q. rn_ID (f q) = rn_ID q) \<Longrightarrow> map rn_ID (map f qs) = map rn_ID qs"
  by simp

lemma runs_ok_marks:
  assumes "runs_ok s" and "\<And>q. rn_ID (f q) = rn_ID q"
  shows "runs_ok (s\<lparr>ss_runs := map f (ss_runs s)\<rparr>)"
proof -
  have "rn_ID ` set (map f (ss_runs s)) = rn_ID ` set (ss_runs s)" using assms(2) by (force simp: image_iff)
  moreover have "map rn_ID (map f (ss_runs s)) = map rn_ID (ss_runs s)" unfolding map_map using assms(2) by simp
  moreover have "\<forall>r \<in> set (map f (ss_runs s)). busy (rn_ID r) (ss_jobs s)" using assms by (simp add: runs_ok_iff)
  ultimately show ?thesis using assms(1) unfolding runs_ok_iff by (simp del: map_map)
qed

lemma due_jobs_ok: "j \<in> set (due_jobs now n js) \<Longrightarrow> j \<in> set js \<and> claimable_status (jb_Status j)"
  unfolding due_jobs_def by (drule in_set_takeD) simp

lemma distinct_due_jobs: "distinct (map jb_ID js) \<Longrightarrow> distinct (map jb_ID (due_jobs now n js))"
proof -
  assume "distinct (map jb_ID js)"
  then have "distinct (map jb_ID (filter (\<lambda>j. claimable_status (jb_Status j) \<and> due_at j \<le> now) js))"
    by (rule distinct_map_filter)
  then have "distinct (map jb_ID (sort_key due_at (filter (\<lambda>j. claimable_status (jb_Status j) \<and> due_at j \<le> now) js)))"
    by (simp add: distinct_map)
  then show ?thesis unfolding due_jobs_def take_map [symmetric] by (rule distinct_take)
qed

lemma fetch_ok:
  assumes "runs_ok s"
  shows "runs_ok (s\<lparr>ss_fetched := due_jobs now n (ss_jobs s)\<rparr>)"
proof -
  have ne: "jb_ID j \<noteq> rn_ID r" if "j \<in> set (due_jobs now n (ss_jobs s))" "r \<in> set (ss_runs s)" for j r
  proof -
    have "busy (rn_ID r) (ss_jobs s)" using that(2) assms by (simp add: runs_ok_iff)
    then show ?thesis using due_jobs_ok [OF that(1)] busyD by metis
  qed
  have "jb_ID ` set (due_jobs now n (ss_jobs s)) \<inter> rn_ID ` set (ss_runs s) = {}"
    using ne by blast
  moreover have "distinct (map jb_ID (due_jobs now n (ss_jobs s)))" using assms distinct_due_jobs by (simp add: runs_ok_iff)
  ultimately show ?thesis using assms unfolding runs_ok_iff by simp
qed

lemma claimJob_cases:
  obtains (none) "claimJob i js = (None, js)"
  | (some) j where "get_job js i = Some j" "claimable_status (jb_Status j)"
      "claimJob i js = (Some (j\<lparr>jb_Status := StatusRunning, jb_ErrorMessage := []\<rparr>),
         on_job i (\<lambda>j. j\<lparr>jb_Status := StatusRunning, jb_ErrorMessage := []\<rparr>) js)"
proof (cases "get_job js i")
  case (Some j)
  show ?thesis
  proof (cases "claimable_status (jb_Status j)")
    case True
    with Some show ?thesis by (intro some) (simp_all add: claimJob_def)
  next
    case False
    with Some show ?thesis by (intro none) (simp add: claimJob_def)
  qed
qed (intro none, simp add: claimJob_def)

lemma process_ok:
  assumes ok: "runs_ok s" and f: "ss_fetched s = job # rest"
  shows "runs_ok (process_job window job rest s)"
proof -
  let ?s0 = "s\<lparr>ss_fetched := rest\<rparr>"
  have s0: "runs_ok ?s0" by (rule runs_ok_fetched [OF ok]) (use ok f in \<open>auto simp: runs_ok_iff\<close>)
  have free: "jb_ID job \<notin> rn_ID ` set (ss_runs s)" "jb_ID job \<notin> jb_ID ` set rest" using ok f by (auto simp: runs_ok_iff)
  show ?thesis
  proof (cases "sd_respectMaintenance (ss_sched s) \<and> \<not> fst (window job)")
    case True
    have "runs_ok (?s0\<lparr>ss_jobs := blockJobForMaintenance (jb_ID job) (snd (window job)) (ss_jobs s)\<rparr>)"
    proof (rule runs_ok_jobs [OF s0])
      show "map jb_ID (blockJobForMaintenance (jb_ID job) (snd (window job)) (ss_jobs s)) = map jb_ID (ss_jobs ?s0)"
        unfolding blockJobForMaintenance_def by (subst ids_on_job) (simp_all split: option.split)
      show "\<forall>r \<in> set (ss_runs ?s0). busy (rn_ID r) (blockJobForMaintenance (jb_ID job) (snd (window job)) (ss_jobs s))"
        unfolding blockJobForMaintenance_def
        by (intro ballI busy_on_other) (use ok free(1) in \<open>auto simp: runs_ok_iff image_iff split: option.split\<close>)
    qed
    then show ?thesis using True by (simp add: process_job_def Let_def)
  next
    case go: False
    show ?thesis
    proof (cases "try_acquire (ss_sched s)")
      case None
      have "runs_ok (?s0\<lparr>ss_fetched := []\<rparr>)" by (rule runs_ok_fetched [OF s0]) simp_all
      moreover have "process_job window job rest s = ?s0\<lparr>ss_fetched := []\<rparr>"
        unfolding process_job_def Let_def if_not_P [OF go] None by simp
      ultimately show ?thesis by simp
    next
      case (Some sched)
      then have sched: "sd_tokens (ss_sched s) < sd_capacity (ss_sched s)" "sched = (ss_sched s)\<lparr>sd_tokens := sd_tokens (ss_sched s) + 1\<rparr>"
        by (auto simp: try_acquire_def split: if_splits)
      show ?thesis
      proof (cases rule: claimJob_cases [of "jb_ID job" "ss_jobs s"])
        case none
        have "process_job window job rest s = ?s0"
          unfolding process_job_def Let_def if_not_P [OF go] Some none by simp
        then show ?thesis using s0 by simp
      next
        case (some j)
        let ?run = "\<lambda>j. j\<lparr>jb_Status := StatusRunning, jb_ErrorMessage := []\<rparr>"
        let ?js = "on_job (jb_ID job) ?run (ss_jobs s)"
        have ids: "map jb_ID ?js = map jb_ID (ss_jobs s)" by (rule ids_on_job) simp
        note mem = get_job_Some [OF some(1)]
        have new: "rn_ID \<lparr>rn_job = ?run j, rn_registered = False, rn_cancelled = False\<rparr> = jb_ID job"
          using mem by (simp add: rn_ID_def)
        have eq: "process_job window job rest s = ?s0\<lparr>ss_jobs := ?js, ss_sched := sched,
            ss_runs := \<lparr>rn_job = ?run j, rn_registered = False, rn_cancelled = False\<rparr> # ss_runs s\<rparr>"
          unfolding process_job_def Let_def if_not_P [OF go] Some some(3) by simp
        have "busy (rn_ID r) ?js" if "r \<in> set (ss_runs s)" for r
          by (rule busy_on_job) (use ok that in \<open>auto simp: runs_ok_iff claimable_status_def\<close>)
        moreover have "busy (jb_ID job) ?js" by (rule busy_set) (simp add: claimable_status_def)
        moreover have "jb_ID ` set ?js = jb_ID ` set (ss_jobs s)" using arg_cong [OF ids, of set] by simp
        moreover have "jb_ID job \<in> jb_ID ` set (ss_jobs s)" using mem by (metis imageI)
        ultimately show ?thesis
          unfolding eq using s0 free sched ids new unfolding runs_ok_iff by simp
      qed
    qed
  qed
qed

lemma length_filter_neq: "distinct xs \<Longrightarrow> x \<in> set xs \<Longrightarrow> length (filter (\<lambda>y. y \<noteq> x) xs) = length xs - 1"
proof (induction xs)
  case (Cons y ys)
  show ?case
  proof (cases "y = x")
    case True
    then have "filter (\<lambda>z. z \<noteq> x) ys = ys" using Cons.prems by (auto intro: filter_True)
    then show ?thesis using True by simp
  next
    case False
    then have "length ys \<noteq> 0" using Cons.prems by auto
    then show ?thesis using False Cons by simp
  qed
qed simp

lemma db_status_busy: "busy i js \<Longrightarrow> i \<in> jb_ID ` set js \<Longrightarrow> \<not> claimable_status (db_status js i)"
  unfolding db_status_def by (auto simp: busy_def claimable_status_def split: option.splits dest: get_job_Some)

lemma finish_ids: "map jb_ID (finish_jobs now dbnow job out js) = map jb_ID js"
proof -
  have u: "map jb_ID (updateJobStatus t i st e js) = map jb_ID js" for t i st e js
    unfolding updateJobStatus_def by (rule ids_on_job) simp
  have n: "map jb_ID (scheduleNextRun i t js) = map jb_ID js" for t i js
    unfolding scheduleNextRun_def by (rule ids_on_job) simp
  show ?thesis unfolding finish_jobs_def Let_def by (simp add: u n split: prod.split option.split)
qed

lemma finish_busy: "busy i js \<Longrightarrow> i \<noteq> jb_ID job \<Longrightarrow> busy i (finish_jobs now dbnow job out js)"
proof -
  assume b: "busy i js" and ne: "i \<noteq> jb_ID job"
  have u: "busy i (updateJobStatus t (jb_ID job) st e js)" for t st e
    unfolding updateJobStatus_def by (rule busy_on_other [OF b ne]) simp
  have n: "busy i (scheduleNextRun (jb_ID job) t js')" if "busy i js'" for t js'
    unfolding scheduleNextRun_def by (rule busy_on_other [OF that ne]) simp
  show ?thesis unfolding finish_jobs_def Let_def using u n by (simp split: prod.split option.split)
qed

lemma sched_step_ok: "sched_step s s' \<Longrightarrow> runs_ok s \<Longrightarrow> runs_ok s'"
proof (induction rule: sched_step.induct)
  case (p_fetch s now)
  then show ?case using fetch_ok by blast
next
  case (p_process s job rest window)
  then show ?case using process_ok by blast
next
  case (p_start r s)
  let ?js = "updateJobProgress (rn_ID r) 0 (int (length (jb_DeviceIDs (rn_job r)))) 0 [] (ss_jobs s)"
  have "runs_ok (s\<lparr>ss_jobs := ?js\<rparr>)"
  proof (rule runs_ok_jobs [OF p_start.prems])
    show "map jb_ID ?js = map jb_ID (ss_jobs s)" unfolding updateJobProgress_def by (rule ids_on_job) simp
    show "\<forall>q \<in> set (ss_runs s). busy (rn_ID q) ?js"
      unfolding updateJobProgress_def by (intro ballI busy_on_job) (use p_start.prems in \<open>auto simp: runs_ok_iff\<close>)
  qed
  from runs_ok_marks [OF this, of "\<lambda>q. if q = r then q\<lparr>rn_registered := True\<rparr> else q"]
  show ?case by (simp add: start_run_def runs_ok_iff rn_ID_def)
next
  case (p_finish r s out now dbnow s')
  let ?js = "finish_jobs now dbnow (rn_job r) out (ss_jobs s)"
  from p_finish.hyps(4) obtain sched where sched: "release_slot ((ss_sched s)\<lparr>sd_cancels := filter (\<lambda>i. i \<noteq> rn_ID r) (sd_cancels (ss_sched s))\<rparr>) = Some sched"
    and s': "s' = s\<lparr>ss_jobs := ?js, ss_sched := sched, ss_runs := filter (\<lambda>q. q \<noteq> r) (ss_runs s)\<rparr>"
    by (auto simp: finish_run_def Let_def split: option.splits)
  have tok: "sd_tokens sched = sd_tokens (ss_sched s) - 1" "sd_capacity sched = sd_capacity (ss_sched s)"
    using sched by (auto simp: release_slot_def split: if_splits)
  have dist: "distinct (ss_runs s)" "distinct (map rn_ID (ss_runs s))"
    using p_finish.prems by (auto simp: runs_ok_iff distinct_map)
  have len: "length (filter (\<lambda>q. q \<noteq> r) (ss_runs s)) = length (ss_runs s) - 1"
    by (rule length_filter_neq [OF dist(1) p_finish.hyps(1)])
  have other: "rn_ID q \<noteq> rn_ID r" if "q \<in> set (ss_runs s)" "q \<noteq> r" for q
    using distinct_map_eq [OF dist(2) that(1) p_finish.hyps(1)] that(2) by blast
  have "busy (rn_ID q) ?js" if "q \<in> set (ss_runs s)" "q \<noteq> r" for q
    by (rule finish_busy) (use p_finish.prems that other in \<open>auto simp: runs_ok_iff rn_ID_def\<close>)
  moreover have "distinct (map rn_ID (filter (\<lambda>q. q \<noteq> r) (ss_runs s)))" by (rule distinct_map_filter [OF dist(2)])
  moreover have "jb_ID ` set ?js = jb_ID ` set (ss_jobs s)"
    using arg_cong [OF finish_ids [of now dbnow "rn_job r" out "ss_jobs s"], of set] by simp
  ultimately show ?case
    using p_finish.prems tok len by (auto simp: s' runs_ok_iff finish_ids)
next
  case (p_cancel s i)
  show ?case
  proof (cases "snd (CancelJob i s) = s")
    case False
    let ?f = "\<lambda>j. j\<lparr>jb_Status := StatusCancelled, jb_ErrorMessage := (if jb_ErrorMessage j = [] then ''Cancelled by user'' else jb_ErrorMessage j)\<rparr>"
    let ?g = "\<lambda>q. if rn_ID q = i \<and> i \<in> set (sd_cancels (ss_sched s)) then q\<lparr>rn_cancelled := True\<rparr> else q"
    from False have eq: "snd (CancelJob i s) = s\<lparr>ss_jobs := on_job i ?f (ss_jobs s), ss_runs := map ?g (ss_runs s)\<rparr>"
      by (auto simp: CancelJob_def split: option.splits if_splits)
    have "runs_ok (s\<lparr>ss_jobs := on_job i ?f (ss_jobs s)\<rparr>)"
    proof (rule runs_ok_jobs [OF p_cancel])
      show "map jb_ID (on_job i ?f (ss_jobs s)) = map jb_ID (ss_jobs s)" by (rule ids_on_job) simp
      show "\<forall>r \<in> set (ss_runs s). busy (rn_ID r) (on_job i ?f (ss_jobs s))"
        by (intro ballI busy_on_job) (use p_cancel in \<open>auto simp: runs_ok_iff claimable_status_def\<close>)
    qed
    from runs_ok_marks [OF this, of ?g] show ?thesis unfolding eq by (simp add: rn_ID_def)
  qed (simp add: p_cancel)
next
  case (p_edit s i at_time cron)
  show ?case
  proof (cases "snd (UpdateJobSchedule i at_time cron s) = s")
    case False
    then obtain cur where cur: "get_job (ss_jobs s) i = Some cur" "claimable_status (jb_Status cur)"
      by (auto simp: UpdateJobSchedule_def split: option.splits if_splits)
    define f where "f = (\<lambda>j. j\<lparr>jb_ScheduledAt := (case at_time of None \<Rightarrow> jb_ScheduledAt cur | Some t \<Rightarrow> t),
                         jb_RepeatCron := (case cron of None \<Rightarrow> jb_RepeatCron cur | Some c \<Rightarrow> c),
                         jb_NextRun := None, jb_Status := StatusPending, jb_ErrorMessage := []\<rparr> :: ScheduledJob)"
    have eq: "snd (UpdateJobSchedule i at_time cron s) = s\<lparr>ss_jobs := on_job i f (ss_jobs s)\<rparr>"
      using cur by (simp add: UpdateJobSchedule_def Let_def f_def)
    have ne: "rn_ID r \<noteq> i" if "r \<in> set (ss_runs s)" for r
      using that p_edit cur get_job_Some [OF cur(1)] by (auto simp: runs_ok_iff busy_def)
    have "runs_ok (s\<lparr>ss_jobs := on_job i f (ss_jobs s)\<rparr>)"
    proof (rule runs_ok_jobs [OF p_edit])
      show "map jb_ID (on_job i f (ss_jobs s)) = map jb_ID (ss_jobs s)" by (rule ids_on_job) (simp add: f_def)
      show "\<forall>r \<in> set (ss_runs s). busy (rn_ID r) (on_job i f (ss_jobs s))"
        by (intro ballI busy_on_other) (use p_edit ne in \<open>auto simp: runs_ok_iff f_def\<close>)
    qed
    then show ?thesis unfolding eq .
  qed (simp add: p_edit)
next
  case (p_create i s dbnow jt ids params at_time cron user)
  then show ?case by (auto simp: CreateJob_def runs_ok_iff busy_def)
qed

lemma sched_reachable_ok: "sched_reachable s \<Longrightarrow> runs_ok s"
proof (induction rule: sched_reachable.induct)
  case (boot js table)
  then show ?case by (simp add: runs_ok_iff NewScheduler_def Let_def loadSettings_def)
qed (rule sched_step_ok)

section \<open>What the scheduler promises\<close>

lemmas job_row_defs = on_job_def updateJobStatus_def scheduleNextRun_def finish_jobs_def db_status_def


definition demo_job :: "int \<Rightarrow> string \<Rightarrow> ScheduledJob" where
  "demo_job i cron = \<lparr>jb_ID = i, jb_JobType = ''reboot'', jb_DeviceIDs = [7, 8], jb_Parameters = None, jb_ScheduledAt = 0,
     jb_RepeatCron = cron, jb_LastRun = None, jb_NextRun = None, jb_Status = StatusPending, jb_Progress = 0, jb_TotalDevices = 0,
     jb_CompletedDevices = 0, jb_ErrorMessage = [], jb_CreatedBy = 1, jb_CreatedAt = 0\<rparr>"

text \<open>Two pending jobs, fetched; the first is claimed and its goroutine started.\<close>

definition demo_boot :: sched_sys where
  "demo_boot = \<lparr>ss_jobs = [demo_job 1 [], demo_job 2 ''@daily''], ss_sched = NewScheduler (\<lambda>k. None), ss_fetched = [], ss_runs = []\<rparr>"

definition demo_fetched :: sched_sys where
  "demo_fetched = demo_boot\<lparr>ss_fetched := due_jobs 5 (sd_maxConcurrentJobs (ss_sched demo_boot)) (ss_jobs demo_boot)\<rparr>"

definition demo_claimed :: sched_sys where
  "demo_claimed = process_job (\<lambda>j. (True, None)) (demo_job 1 []) [demo_job 2 ''@daily''] demo_fetched"

lemma demo_claimed_reachable: "sched_reachable demo_claimed"
proof -
  have "sched_reachable demo_boot"
    unfolding demo_boot_def by (rule boot) (simp_all add: demo_job_def)
  moreover have "sched_step demo_boot demo_fetched"
    unfolding demo_fetched_def by (rule p_fetch) (simp add: demo_boot_def)
  moreover have "sched_step demo_fetched demo_claimed"
    unfolding demo_claimed_def by (rule p_process) code_simp
  ultimately show ?thesis by (meson sched_reachable.step)
qed


text \<open>Claiming is atomic. A successful claim takes a job that was pending or blocked, marks that
  row running, clears its error, changes no other row, and no second claim of it succeeds.
\<close>

theorem claimJob_once:
  assumes "claimJob i js = (Some j, js')"
  shows "\<exists>old. get_job js i = Some old \<and> claimable_status (jb_Status old)
    \<and> j = old\<lparr>jb_Status := StatusRunning, jb_ErrorMessage := []\<rparr>
    \<and> fst (claimJob i js') = None
    \<and> filter (\<lambda>k. jb_ID k \<noteq> i) js' = filter (\<lambda>k. jb_ID k \<noteq> i) js
    \<and> map jb_ID js' = map jb_ID js"
proof (cases rule: claimJob_cases [of i js])
  case (some old)
  let ?run = "\<lambda>j. j\<lparr>jb_Status := StatusRunning, jb_ErrorMessage := []\<rparr>"
  have js': "js' = on_job i ?run js" "j = ?run old" using some(3) assms by simp_all
  have "busy i js'" unfolding js' by (rule busy_set) (simp add: claimable_status_def)
  then have "fst (claimJob i js') = None"
    by (cases rule: claimJob_cases [of i js']) (use get_job_Some busyD in force)+
  moreover have "filter (\<lambda>k. jb_ID k \<noteq> i) js' = filter (\<lambda>k. jb_ID k \<noteq> i) js"
    unfolding js' on_job_def update_where_def by (induction js) auto
  ultimately show ?thesis using some js' by (simp add: ids_on_job)
qed (use assms in simp)

lemma claimJob_once_witness:
  "\<exists>old. get_job [demo_job 1 [], demo_job 2 []] 2 = Some old \<and> jb_Status old = StatusPending"
proof -
  have "claimJob 2 [demo_job 1 [], demo_job 2 []]
      = (Some ((demo_job 2 [])\<lparr>jb_Status := StatusRunning, jb_ErrorMessage := []\<rparr>),
         [demo_job 1 [], (demo_job 2 [])\<lparr>jb_Status := StatusRunning, jb_ErrorMessage := []\<rparr>])"
    by (simp add: claimJob_def get_job_def on_job_def update_where_def demo_job_def claimable_status_def)
  from claimJob_once [OF this] show ?thesis by (auto simp: get_job_def demo_job_def)
qed

lemma get_on_job: "(\<And>j. jb_ID (f j) = jb_ID j) \<Longrightarrow> get_job (on_job i f js) k = map_option (if k = i then f else id) (get_job js k)"
proof (induction js)
  case (Cons j js)
  then show ?case by (auto simp: get_job_def on_job_def update_where_def)
qed (simp add: get_job_def on_job_def update_where_def)

lemma row_updateJobStatus:
  "get_job (updateJobStatus t i st e js) k = map_option (if k = i then (\<lambda>j. if st = StatusCompleted \<or> st = StatusFailed
     then j\<lparr>jb_Status := st, jb_LastRun := Some t, jb_ErrorMessage := e\<rparr> else j\<lparr>jb_Status := st, jb_ErrorMessage := e\<rparr>) else id) (get_job js k)"
  unfolding updateJobStatus_def by (rule get_on_job) simp

lemma row_scheduleNextRun:
  "get_job (scheduleNextRun i t js) k
     = map_option (if k = i then (\<lambda>j. j\<lparr>jb_Status := StatusPending, jb_NextRun := Some t\<rparr>) else id) (get_job js k)"
  unfolding scheduleNextRun_def by (rule get_on_job) simp

lemma cancelled_row:
  assumes "CancelJob i s = (True, s1)"
  shows "\<exists>j. get_job (ss_jobs s1) i = Some j \<and> jb_Status j = StatusCancelled"
proof -
  from assms obtain old where "get_job (ss_jobs s) i = Some old" by (auto simp: CancelJob_def split: option.splits)
  then show ?thesis using assms by (auto simp: CancelJob_def get_on_job split: if_splits)
qed

text \<open>C29. How a cancelled run ends. After a successful cancellation the row says cancelled; it keeps
  saying so when the goroutine's body notices the cancelled context. When the body ends by itself
  instead (it was past its last check, or the cancel function was not registered yet), the
  cancellation is overwritten: the row becomes completed, failed, or, for a repeating job, pending
  with a next run, so that the cancelled job runs again.
\<close>

theorem cancelled_run_ends:
  assumes "CancelJob (jb_ID job) s = (True, s1)"
  shows "db_status (ss_jobs s1) (jb_ID job) = StatusCancelled
    \<and> db_status (finish_jobs now dbnow job Canceled (ss_jobs s1)) (jb_ID job) = StatusCancelled
    \<and> db_status (finish_jobs now dbnow job (Err e) (ss_jobs s1)) (jb_ID job) = StatusFailed
    \<and> db_status (finish_jobs now dbnow job Done (ss_jobs s1)) (jb_ID job)
        = (if jb_RepeatCron job \<noteq> [] \<and> calculateNextRun now (jb_RepeatCron job) \<noteq> None then StatusPending else StatusCompleted)"
proof -
  from cancelled_row [OF assms] obtain j where j: "get_job (ss_jobs s1) (jb_ID job) = Some j" "jb_Status j = StatusCancelled" by blast
  then have d: "db_status (ss_jobs s1) (jb_ID job) = StatusCancelled" by (simp add: db_status_def)
  have "db_status (finish_jobs now dbnow job Canceled (ss_jobs s1)) (jb_ID job) = StatusCancelled"
    using j by (simp add: finish_jobs_def final_status_def Let_def d) (simp add: db_status_def row_updateJobStatus)
  moreover have "db_status (finish_jobs now dbnow job (Err e) (ss_jobs s1)) (jb_ID job) = StatusFailed"
    using j by (simp add: finish_jobs_def final_status_def Let_def db_status_def row_updateJobStatus)
  moreover have "db_status (finish_jobs now dbnow job Done (ss_jobs s1)) (jb_ID job)
        = (if jb_RepeatCron job \<noteq> [] \<and> calculateNextRun now (jb_RepeatCron job) \<noteq> None then StatusPending else StatusCompleted)"
    using j by (auto simp: finish_jobs_def final_status_def Let_def db_status_def row_updateJobStatus row_scheduleNextRun split: option.split)
  ultimately show ?thesis using d by blast
qed

lemma cancelled_run_ends_witness:
  defines "s \<equiv> demo_claimed\<lparr>ss_jobs := map (\<lambda>j. j\<lparr>jb_RepeatCron := ''@daily''\<rparr>) (ss_jobs demo_claimed)\<rparr>"
  shows "db_status (finish_jobs 9 9 (demo_job 1 ''@daily'') Done (ss_jobs (snd (CancelJob 1 s)))) 1 = StatusPending"
proof -
  have "fst (CancelJob 1 s)" unfolding s_def by code_simp
  then have "CancelJob (jb_ID (demo_job 1 ''@daily'')) s = (True, snd (CancelJob 1 s))"
    by (simp add: demo_job_def prod_eq_iff)
  from cancelled_run_ends [OF this, of 9 9 "[]"] show ?thesis by (simp add: demo_job_def calculateNextRun_def)
qed

text \<open>Taking k slots one after the other.\<close>

fun acquire_slots :: "nat \<Rightarrow> scheduler \<Rightarrow> scheduler option" where
  "acquire_slots 0 s = Some s"
| "acquire_slots (Suc k) s = (case try_acquire s of None \<Rightarrow> None | Some s1 \<Rightarrow> acquire_slots k s1)"

lemma acquire_slots_eq:
  "acquire_slots k s = (if k = 0 \<or> sd_tokens s + k \<le> sd_capacity s then Some (s\<lparr>sd_tokens := sd_tokens s + k\<rparr>) else None)"
  by (induction k arbitrary: s) (auto simp: try_acquire_def)

text \<open>C30. A changed limit forgets the running jobs. With n jobs running, a reload that changes the
  limit to m leaves an empty semaphore: m further jobs start, so n + m run at once; and before any
  of them does, a finishing job finds the new channel empty and waits for ever to give a token back.
\<close>

theorem reload_forgets_running:
  assumes "acquire_slots n (NewScheduler table) = Some s"
    and "sd_maxConcurrentJobs (ReloadSettings table' s) \<noteq> sd_maxConcurrentJobs s"
  shows "acquire_slots (sd_maxConcurrentJobs (ReloadSettings table' s)) (ReloadSettings table' s) \<noteq> None
    \<and> release_slot (ReloadSettings table' s) = None"
proof -
  have "sd_maxConcurrentJobs (loadSettings table' s) \<noteq> sd_maxConcurrentJobs s"
    using assms(2) by (auto simp: ReloadSettings_def Let_def split: if_splits)
  then show ?thesis by (simp add: ReloadSettings_def Let_def acquire_slots_eq release_slot_def)
qed

lemma reload_forgets_running_witness:
  fixes table
  defines "table \<equiv> (\<lambda>k. if k = ''scheduler_max_concurrent'' then Some ''3'' else None)"
  shows "\<exists>s. acquire_slots 5 (NewScheduler (\<lambda>k. None)) = Some s \<and> acquire_slots 3 (ReloadSettings table s) \<noteq> None"
proof -
  let ?s = "(NewScheduler (\<lambda>k. None))\<lparr>sd_tokens := 5\<rparr>"
  have s: "acquire_slots 5 (NewScheduler (\<lambda>k. None)) = Some ?s"
    by (simp add: acquire_slots_eq NewScheduler_def loadSettings_def Let_def)
  have m: "sd_maxConcurrentJobs (ReloadSettings table ?s) = 3" unfolding table_def by code_simp
  have "sd_maxConcurrentJobs ?s = 5" by (simp add: NewScheduler_def loadSettings_def Let_def)
  then have "sd_maxConcurrentJobs (ReloadSettings table ?s) \<noteq> sd_maxConcurrentJobs ?s" using m by simp
  from reload_forgets_running [OF s this] show ?thesis using s m by auto
qed

text \<open>How far a device loop gets: up to the first device at which the context is cancelled.\<close>

definition reached :: "(nat \<Rightarrow> bool) \<Rightarrow> nat \<Rightarrow> 'a list \<Rightarrow> nat" where
  "reached cancelled k xs = length (takeWhile (\<lambda>i. \<not> cancelled i) [k ..< k + length xs])"

lemma reached_Cons: "reached cancelled k (d # ds) = (if cancelled k then 0 else Suc (reached cancelled (Suc k) ds))"
proof -
  have "[k ..< k + length (d # ds)] = k # [Suc k ..< Suc k + length ds]" by (simp add: upt_rec)
  then show ?thesis by (simp add: reached_def)
qed

lemma upgrade_loop_eq:
  "upgrade_loop e p cancelled k ds =
     (if reached cancelled k ds = length ds then Done else Canceled, map (upgradeDevice e p) (take (reached cancelled k ds) ds))"
proof (induction ds arbitrary: k)
  case (Cons d ds)
  show ?case using Cons [of "Suc k"] by (simp add: reached_Cons)
qed (simp add: reached_def)

text \<open>An upgrade job. The devices are the job's devices in order, each access point right after
  its stations when fanning out; the job upgrades them one by one up to the device at which the
  context is found cancelled. It ends without error, hence as completed, whatever the single
  upgrades returned, and with an error only when its parameters do not decode.
\<close>

theorem upgrade_job_runs:
  "runUpgradeJob e cancelled job =
     (case jb_Parameters job of
        None \<Rightarrow> (Err ''invalid upgrade params'', [])
      | Some p \<Rightarrow>
          (let ds = concat (map (\<lambda>d. (if up_Fanout p \<and> ue_parent e d = None then (case ue_stas e d of None \<Rightarrow> [] | Some ids \<Rightarrow> ids) else []) @ [d]) (jb_DeviceIDs job));
               n = reached cancelled 0 ds
           in (if n = length ds then Done else Canceled, map (upgradeDevice e p) (take n ds))))"
proof (cases "jb_Parameters job")
  case (Some p)
  have "fanout_one e (up_Fanout p) = (\<lambda>d. (if up_Fanout p \<and> ue_parent e d = None then (case ue_stas e d of None \<Rightarrow> [] | Some ids \<Rightarrow> ids) else []) @ [d])"
    by (rule ext) (simp add: fanout_one_def)
  then show ?thesis using Some by (simp add: runUpgradeJob_def upgrade_loop_eq all_devices_def Let_def)
qed (simp add: runUpgradeJob_def)

lemma refresh_loop_result:
  "refresh_loop refresh cancelled k ds failed = Inl Canceled
   \<or> refresh_loop refresh cancelled k ds failed = Inr (failed + length (filter (\<lambda>d. \<not> refresh d) ds))"
  by (induction ds arbitrary: k failed) (auto, (metis add_Suc_right add_Suc)+)

text \<open>A refresh job is completed exactly when every one of its devices was queued and the context
  was never found cancelled; a missing refresher and every refused device make it fail.
\<close>

theorem refresh_job_done:
  "runRefreshJob refresher cancelled job = Done \<longleftrightarrow>
     (case refresher of None \<Rightarrow> False
      | Some refresh \<Rightarrow> list_all refresh (jb_DeviceIDs job) \<and> reached cancelled 0 (jb_DeviceIDs job) = length (jb_DeviceIDs job))"
proof (cases refresher)
  case (Some refresh)
  let ?ds = "jb_DeviceIDs job"
  have canc: "refresh_loop refresh cancelled k ds failed = Inl Canceled \<longleftrightarrow> reached cancelled k ds \<noteq> length ds" for k ds failed
  proof (induction ds arbitrary: k failed)
    case (Cons d ds)
    show ?case using Cons [of "Suc k"] by (simp add: reached_Cons)
  qed (simp add: reached_def)
  have none: "filter (\<lambda>d. \<not> refresh d) ?ds = [] \<longleftrightarrow> list_all refresh ?ds" by (auto simp: filter_empty_conv list_all_iff)
  show ?thesis
    using refresh_loop_result [of refresh cancelled 0 ?ds 0] canc [of 0 ?ds 0] none Some
    by (auto simp: runRefreshJob_def split: sum.split)
qed (simp add: runRefreshJob_def)

end
