(* ===== verification/JobRunner.thy ===== *)
theory JobRunner imports SchedulerRuns "HOL-Library.Multiset" begin

text \<open>
  The runner of interactive jobs (src/internal/jobs/runner.go): the job_runs and job_events tables,
  executeJob with the bodies of all job types, start-up recovery, creation and cancellation, and
  the pool in which a bulk upgrade runs its devices. Firmware and device calls are parameters;
  broadcasts and log lines are not modelled, and the events of devices that are upgraded
  concurrently are listed device by device.
\<close>

section \<open>Tables\<close>

datatype RunStatus = RunPending | RunRunning | RunRebooting | RunCompleted | RunSkipped | RunFailed | RunCancelled

datatype EventType = EventStarted | EventProgress | EventStepComplete | EventWarning | EventError | EventCompleted

datatype JobKind = KindUpgrade | KindBulkUpgrade | KindFanoutUpgrade | KindBackup | KindReboot | KindRefresh | KindOther string

record RefreshDeviceResult =
  rd_DeviceID :: int
  rd_Status :: string
  rd_Message :: string

record RefreshJobResult =
  rj_Queued :: nat
  rj_Failed :: nat
  rj_Results :: "RefreshDeviceResult list"

text \<open>Results of backups and reboots: device, status, message, and the path of a backup.\<close>

record DeviceResult =
  dv_DeviceID :: int
  dv_Status :: string
  dv_Message :: string
  dv_Path :: string

datatype job_result = NoResult | Single UpgradeResult | Many "UpgradeResult option list" | Refreshed RefreshJobResult
  | Devices "DeviceResult list"

text \<open>\<open>jr_Parameters\<close> is the decoded JSON of an upgrade job; a decoding error leaves the zero value.\<close>

record JobRun =
  jr_ID :: string
  jr_Kind :: JobKind
  jr_Status :: RunStatus
  jr_Progress :: int
  jr_TotalSteps :: nat
  jr_CompletedSteps :: nat
  jr_DeviceIDs :: "int list"
  jr_Parameters :: UpgradeParams
  jr_Result :: job_result
  jr_ErrorMessage :: string
  jr_CreatedAt :: time
  jr_StartedAt :: "time option"
  jr_CompletedAt :: "time option"
  jr_CreatedBy :: int

record JobEvent =
  ev_JobID :: string
  ev_EventType :: EventType
  ev_DeviceID :: "int option"
  ev_Message :: string

record run_db =
  rb_jobs :: "JobRun list"
  rb_events :: "JobEvent list"

definition get_run :: "run_db \<Rightarrow> string \<Rightarrow> JobRun option" where
  "get_run s i = find (\<lambda>j. jr_ID j = i) (rb_jobs s)"

definition on_run :: "string \<Rightarrow> (JobRun \<Rightarrow> JobRun) \<Rightarrow> run_db \<Rightarrow> run_db" where
  "on_run i f s = s\<lparr>rb_jobs := update_where (\<lambda>j. jr_ID j = i) f (rb_jobs s)\<rparr>"

definition updateStatus :: "string \<Rightarrow> RunStatus \<Rightarrow> string option \<Rightarrow> run_db \<Rightarrow> run_db" where
  "updateStatus i status errMsg s =
     on_run i (\<lambda>j. case errMsg of None \<Rightarrow> j\<lparr>jr_Status := status\<rparr> | Some e \<Rightarrow> j\<lparr>jr_Status := status, jr_ErrorMessage := e\<rparr>) s"

definition updateProgress :: "string \<Rightarrow> nat \<Rightarrow> nat \<Rightarrow> run_db \<Rightarrow> run_db" where
  "updateProgress i completed totalSteps s =
     on_run i (\<lambda>j. j\<lparr>jr_Progress := (if totalSteps > 0 then int (completed * 100 div totalSteps) else 0), jr_CompletedSteps := completed\<rparr>) s"

definition logEvent :: "string \<Rightarrow> EventType \<Rightarrow> int option \<Rightarrow> string \<Rightarrow> run_db \<Rightarrow> run_db" where
  "logEvent i et d msg s = s\<lparr>rb_events := rb_events s @ [\<lparr>ev_JobID = i, ev_EventType = et, ev_DeviceID = d, ev_Message = msg\<rparr>]\<rparr>"

definition setTotalSteps :: "string \<Rightarrow> nat \<Rightarrow> run_db \<Rightarrow> run_db" where
  "setTotalSteps i n s = on_run i (\<lambda>j. j\<lparr>jr_TotalSteps := n\<rparr>) s"

definition setCompletedAt :: "time \<Rightarrow> string \<Rightarrow> run_db \<Rightarrow> run_db" where
  "setCompletedAt now i s = on_run i (\<lambda>j. j\<lparr>jr_CompletedAt := Some now\<rparr>) s"

section \<open>Job bodies\<close>

text \<open>
  What the bodies call. \<open>re_cancelled k\<close>: the context is found cancelled when device k is reached;
  \<open>re_bulk_stop\<close>: the device at which a bulk job's loop takes the cancelled branch, if it does;
  \<open>re_finish_order\<close>: the order in which concurrent upgrades end; \<open>re_ctx_done\<close>: the context is
  cancelled when the body has returned.
\<close>

record runner_env =
  re_upgrade :: "int \<Rightarrow> string \<Rightarrow> bool \<Rightarrow> UpgradeResult option \<times> string option"
  re_parent :: "int \<Rightarrow> int option"
  re_stas :: "int \<Rightarrow> string + int list"
  re_reboot :: "int \<Rightarrow> string + string"
  re_refresh :: "(int \<Rightarrow> string option) option"
  re_backup_root :: "string + string"
  re_device :: "int \<Rightarrow> (string \<times> string \<times> int option) option"
  re_fetch :: "int \<Rightarrow> string + string"
  re_ap_ip :: "int \<Rightarrow> string + string"
  re_ensure_dir :: "string \<Rightarrow> string list \<Rightarrow> string + string"
  re_write :: "string \<Rightarrow> string \<Rightarrow> string \<Rightarrow> string + string"
  re_cancelled :: "nat \<Rightarrow> bool"
  re_bulk_stop :: "nat option"
  re_finish_order :: "int list \<Rightarrow> int list"
  re_ctx_done :: bool

type_synonym body = "run_db \<Rightarrow> run_db \<times> job_result \<times> string option"

definition sanitizeIPForPath :: "string \<Rightarrow> string" where
  "sanitizeIPForPath ip = map (\<lambda>c. if c = CHR '':'' then CHR ''-'' else c) ip"

definition run_firmware_ref :: "UpgradeParams \<Rightarrow> string" where
  "run_firmware_ref p = (if up_FirmwareVersion p \<noteq> [] then up_FirmwareVersion p else up_FirmwareFile p)"

definition run_upgrade :: "runner_env \<Rightarrow> JobRun \<Rightarrow> int \<Rightarrow> UpgradeResult option \<times> string option" where
  "run_upgrade e job d = re_upgrade e d (run_firmware_ref (jr_Parameters job)) (up_Force (jr_Parameters job))"

definition runnerUpgradeJob :: "runner_env \<Rightarrow> JobRun \<Rightarrow> body" where
  "runnerUpgradeJob e job s =
     (case jr_DeviceIDs job of
        [] \<Rightarrow> (s, NoResult, Some ''no device specified'')
      | d # _ \<Rightarrow>
          (let s1 = logEvent (jr_ID job) EventProgress (Some d) ''Starting firmware upgrade'' s in
           case run_upgrade e job d of
             (r, Some err) \<Rightarrow> (logEvent (jr_ID job) EventError (Some d) (''Upgrade failed: '' @ err) s1,
                (case r of None \<Rightarrow> NoResult | Some x \<Rightarrow> Single x), Some err)
           | (None, None) \<Rightarrow> (s1, NoResult, Some ''upgrade returned no result'')
           | (Some r, None) \<Rightarrow>
               (logEvent (jr_ID job) EventStepComplete (Some d) (''Upgrade '' @ ur_Status r @ '': '' @ ur_Message r) (updateProgress (jr_ID job) 1 1 s1),
                Single r, None)))"

text \<open>Stations before access points, by id within each.\<close>

definition bulk_order :: "(int \<Rightarrow> int option) \<Rightarrow> int list \<Rightarrow> int list" where
  "bulk_order parent ids = sort_key (\<lambda>d. parent d = None) (sort ids)"

definition bulk_device :: "runner_env \<Rightarrow> JobRun \<Rightarrow> int \<Rightarrow> run_db \<times> nat \<times> UpgradeResult option list \<Rightarrow> run_db \<times> nat \<times> UpgradeResult option list" where
  "bulk_device e job d = (\<lambda>(s, completed, results).
     let i = jr_ID job; s1 = logEvent i EventProgress (Some d) ''Starting upgrade'' s in
     case run_upgrade e job d of (r, err) \<Rightarrow>
       (let s2 = (case err of Some m \<Rightarrow> logEvent i EventWarning (Some d) (''Upgrade failed: '' @ m) s1
            | None \<Rightarrow> (case r of None \<Rightarrow> s1 | Some x \<Rightarrow> logEvent i EventStepComplete (Some d) (''Upgrade '' @ ur_Status x) s1));
            r' = (case (r, err) of (None, Some m) \<Rightarrow> Some \<lparr>ur_DeviceID = d, ur_Status = ''failed'', ur_Message = m\<rparr> | _ \<Rightarrow> r)
        in (updateProgress i (completed + 1) (length (jr_DeviceIDs job)) s2, completed + 1, results @ [r'])))"

definition runBulkUpgradeJob :: "runner_env \<Rightarrow> JobRun \<Rightarrow> body" where
  "runBulkUpgradeJob e job s =
     (let ds = bulk_order (re_parent e) (jr_DeviceIDs job);
          s1 = setTotalSteps (jr_ID job) (length ds) s;
          go = (\<lambda>xs. fold (bulk_device e job) (re_finish_order e xs) (s1, 0, []))
      in (case re_bulk_stop e of
            Some k \<Rightarrow> if k < length ds then (case go (take k ds) of (s2, _, rs) \<Rightarrow> (s2, Many rs, Some ''context canceled''))
                      else (case go ds of (s2, _, rs) \<Rightarrow> (s2, Many rs, None))
          | None \<Rightarrow> (case go ds of (s2, _, rs) \<Rightarrow> (s2, Many rs, None))))"

text \<open>One device of a fan-out upgrade; \<open>what\<close> is STA or AP, \<open>bad\<close> the event of a failure.\<close>

definition fanout_device :: "runner_env \<Rightarrow> JobRun \<Rightarrow> string \<Rightarrow> EventType \<Rightarrow> nat \<Rightarrow> int
    \<Rightarrow> run_db \<times> nat \<times> UpgradeResult option list \<Rightarrow> run_db \<times> nat \<times> UpgradeResult option list" where
  "fanout_device e job what bad steps d = (\<lambda>(s, completed, results).
     let i = jr_ID job; s1 = logEvent i EventProgress (Some d) (''Upgrading '' @ what) s in
     case run_upgrade e job d of (r, err) \<Rightarrow>
       (let s2 = (case err of Some m \<Rightarrow> logEvent i bad (Some d) (what @ '' upgrade failed: '' @ m) s1
            | None \<Rightarrow> (case r of None \<Rightarrow> s1 | Some x \<Rightarrow> logEvent i EventStepComplete (Some d) (what @ '' upgrade '' @ ur_Status x) s1))
        in (updateProgress i (completed + 1) steps s2, completed + 1, (case r of None \<Rightarrow> results | Some x \<Rightarrow> results @ [Some x]))))"

text \<open>A loop over devices that checks the context before each; the flag says that it got to the end.\<close>

fun device_loop :: "(nat \<Rightarrow> bool) \<Rightarrow> (int \<Rightarrow> 's \<Rightarrow> 's) \<Rightarrow> nat \<Rightarrow> int list \<Rightarrow> 's \<Rightarrow> 's \<times> bool" where
  "device_loop cancelled f k [] s = (s, True)"
| "device_loop cancelled f k (d # ds) s = (if cancelled k then (s, False) else device_loop cancelled f (k + 1) ds (f d s))"

definition runFanoutUpgradeJob :: "runner_env \<Rightarrow> JobRun \<Rightarrow> body" where
  "runFanoutUpgradeJob e job s =
     (case jr_DeviceIDs job of
        [] \<Rightarrow> (s, NoResult, Some ''no AP specified'')
      | ap # _ \<Rightarrow>
          (case re_stas e ap of
             Inl err \<Rightarrow> (s, NoResult, Some (''get STAs: '' @ err))
           | Inr stas \<Rightarrow>
               (let steps = 1 + length stas;
                    s1 = logEvent (jr_ID job) EventProgress None (''Upgrading '' @ nat_str (length stas) @ '' STAs first'')
                           (setTotalSteps (jr_ID job) steps s)
                in (case device_loop (re_cancelled e) (fanout_device e job ''STA'' EventWarning steps) 0 stas (s1, 0, []) of
                      ((s2, _, rs), False) \<Rightarrow> (s2, Many rs, Some ''context canceled'')
                    | (t, True) \<Rightarrow> (case fanout_device e job ''AP'' EventError steps ap t of (s3, _, rs) \<Rightarrow> (s3, Many rs, None))))))"

text \<open>
  The back-up of one device: its lookup, the configuration, the directory of its access point and
  address, and the file. Each failure is the device's result.
\<close>

definition backup_path :: "runner_env \<Rightarrow> string \<Rightarrow> string \<Rightarrow> string \<Rightarrow> int option \<Rightarrow> string \<Rightarrow> string + string" where
  "backup_path e rootdir ip hostname parent config =
     (case (case parent of None \<Rightarrow> Inr []
            | Some a \<Rightarrow> (case re_ap_ip e a of Inl err \<Rightarrow> Inl (''lookup parent device: '' @ err)
                | Inr apIP \<Rightarrow> Inr [sanitizeIPForPath (if apIP = [] then ''unknown-ap'' else apIP)])) of
        Inl err \<Rightarrow> Inl err
      | Inr parts \<Rightarrow>
          (case re_ensure_dir e rootdir (parts @ [sanitizeIPForPath ip]) of
             Inl err \<Rightarrow> Inl err
           | Inr dir \<Rightarrow> re_write e dir (if hostname = [] then sanitizeIPForPath ip else hostname) config))"

definition backup_device :: "runner_env \<Rightarrow> JobRun \<Rightarrow> string \<Rightarrow> int \<Rightarrow> run_db \<times> nat \<times> DeviceResult list \<Rightarrow> run_db \<times> nat \<times> DeviceResult list" where
  "backup_device e job rootdir d = (\<lambda>(s, completed, results).
     let i = jr_ID job; s1 = logEvent i EventProgress (Some d) ''Backing up config'' s;
         failed = (\<lambda>m. \<lparr>dv_DeviceID = d, dv_Status = ''failed'', dv_Message = m, dv_Path = []\<rparr>);
         done = (\<lambda>s2 r. (updateProgress i (completed + 1) (length (jr_DeviceIDs job)) s2, completed + 1, results @ [r]))
     in case re_device e d of
          None \<Rightarrow> done s1 (failed ''device not found'')
        | Some (ip, hostname, parent) \<Rightarrow>
            (case re_fetch e d of
               Inl err \<Rightarrow> done (logEvent i EventWarning (Some d) (''Backup failed: '' @ err) s1) (failed err)
             | Inr config \<Rightarrow>
                 (case backup_path e rootdir ip hostname parent config of
                    Inl err \<Rightarrow> done s1 (failed err)
                  | Inr file \<Rightarrow> done (logEvent i EventStepComplete (Some d) (''Config backed up to '' @ file) s1)
                      \<lparr>dv_DeviceID = d, dv_Status = ''success'', dv_Message = [], dv_Path = file\<rparr>)))"

definition runBackupJob :: "runner_env \<Rightarrow> JobRun \<Rightarrow> body" where
  "runBackupJob e job s =
     (case re_backup_root e of
        Inl err \<Rightarrow> (s, NoResult, Some err)
      | Inr rootdir \<Rightarrow>
          (case device_loop (re_cancelled e) (backup_device e job rootdir) 0 (jr_DeviceIDs job)
                  (setTotalSteps (jr_ID job) (length (jr_DeviceIDs job)) s, 0, []) of
             ((s2, _, rs), ended) \<Rightarrow> (s2, Devices rs, if ended then None else Some ''context canceled'')))"

definition reboot_device :: "runner_env \<Rightarrow> JobRun \<Rightarrow> int \<Rightarrow> run_db \<times> nat \<times> DeviceResult list \<Rightarrow> run_db \<times> nat \<times> DeviceResult list" where
  "reboot_device e job d = (\<lambda>(s, completed, results).
     let i = jr_ID job; s1 = logEvent i EventProgress (Some d) ''Rebooting device'' s;
         done = (\<lambda>s2 st m. (updateProgress i (completed + 1) (length (jr_DeviceIDs job)) s2, completed + 1,
           results @ [\<lparr>dv_DeviceID = d, dv_Status = st, dv_Message = m, dv_Path = []\<rparr>]))
     in case re_reboot e d of
          Inl err \<Rightarrow> done (logEvent i EventWarning (Some d) (''Reboot failed: '' @ err) s1) ''failed'' err
        | Inr api \<Rightarrow>
            (let m = (if api = [] then ''Reboot initiated'' else ''Reboot initiated via '' @ api)
             in done (logEvent i EventStepComplete (Some d) m s1) ''success'' m))"

definition runnerRebootJob :: "runner_env \<Rightarrow> JobRun \<Rightarrow> body" where
  "runnerRebootJob e job s =
     (case device_loop (re_cancelled e) (reboot_device e job) 0 (jr_DeviceIDs job)
             (setTotalSteps (jr_ID job) (length (jr_DeviceIDs job)) s, 0, []) of
        ((s2, _, rs), ended) \<Rightarrow> (s2, Devices rs, if ended then None else Some ''context canceled''))"

definition refresh_device :: "(int \<Rightarrow> string option) \<Rightarrow> JobRun \<Rightarrow> int \<Rightarrow> run_db \<times> nat \<times> RefreshJobResult \<Rightarrow> run_db \<times> nat \<times> RefreshJobResult" where
  "refresh_device refresh job d = (\<lambda>(s, k, r).
     let i = jr_ID job;
         done = (\<lambda>s1 r1 st m. (updateProgress i (k + 1) (length (jr_DeviceIDs job)) s1, k + 1,
           r1\<lparr>rj_Results := rj_Results r @ [\<lparr>rd_DeviceID = d, rd_Status = st, rd_Message = m\<rparr>]\<rparr>))
     in case refresh d of
          Some err \<Rightarrow> done (logEvent i EventWarning (Some d) (''Refresh could not be queued: '' @ err) s) (r\<lparr>rj_Failed := rj_Failed r + 1\<rparr>) ''failed'' err
        | None \<Rightarrow> done (logEvent i EventStepComplete (Some d) ''Immediate poll queued'' s) (r\<lparr>rj_Queued := rj_Queued r + 1\<rparr>) ''queued'' ''Immediate poll queued'')"

definition runnerRefreshJob :: "runner_env \<Rightarrow> JobRun \<Rightarrow> body" where
  "runnerRefreshJob e job s =
     (case re_refresh e of
        None \<Rightarrow> (s, NoResult, Some ''device refresher is unavailable'')
      | Some refresh \<Rightarrow>
          (case device_loop (re_cancelled e) (refresh_device refresh job) 0 (jr_DeviceIDs job)
                  (logEvent (jr_ID job) EventProgress None (''Queueing refresh for '' @ nat_str (length (jr_DeviceIDs job)) @ '' devices'') s,
                   0, \<lparr>rj_Queued = 0, rj_Failed = 0, rj_Results = []\<rparr>) of
             ((s2, _, r), ended) \<Rightarrow> (s2, Refreshed r, if ended then None else Some ''context canceled'')))"

definition run_body :: "runner_env \<Rightarrow> JobRun \<Rightarrow> body" where
  "run_body e job s =
     (case jr_Kind job of
        KindUpgrade \<Rightarrow> runnerUpgradeJob e job s
      | KindBulkUpgrade \<Rightarrow> runBulkUpgradeJob e job s
      | KindFanoutUpgrade \<Rightarrow> runFanoutUpgradeJob e job s
      | KindBackup \<Rightarrow> runBackupJob e job s
      | KindReboot \<Rightarrow> runnerRebootJob e job s
      | KindRefresh \<Rightarrow> runnerRefreshJob e job s
      | KindOther t \<Rightarrow> (s, NoResult, Some (''unknown job type: '' @ t)))"

section \<open>The verdict on a result\<close>

fun bulk_scan :: "UpgradeResult option list \<Rightarrow> bool \<Rightarrow> bool \<Rightarrow> string \<Rightarrow> bool \<times> bool \<times> string" where
  "bulk_scan [] allSkipped anySuccess skipMsg = (allSkipped, anySuccess, skipMsg)"
| "bulk_scan (None # rs) allSkipped anySuccess skipMsg = bulk_scan rs allSkipped anySuccess skipMsg"
| "bulk_scan (Some r # rs) allSkipped anySuccess skipMsg =
     bulk_scan rs (allSkipped \<and> ur_Status r = ''skipped'') (anySuccess \<or> ur_Status r = ''success'')
       (if ur_Status r = ''skipped'' then ur_Message r else skipMsg)"

definition verdict_of :: "job_result \<Rightarrow> RunStatus \<times> string \<times> string option" where
  "verdict_of result =
     (case result of
        Single r \<Rightarrow>
          if ur_Status r = ''skipped'' then (RunSkipped, ''Upgrade skipped: '' @ ur_Message r, None)
          else if ur_Status r = ''success'' then (RunRebooting, ''Device rebooting'', None)
          else (RunCompleted, ''Job completed successfully'', None)
      | Refreshed r \<Rightarrow>
          if rj_Failed r > 0
          then (let m = ''Refresh queued for '' @ nat_str (rj_Queued r) @ '' device(s); '' @ nat_str (rj_Failed r) @ '' failed to queue''
                in (RunFailed, m, Some m))
          else (RunCompleted, ''Refresh queued for '' @ nat_str (rj_Queued r) @ '' device(s)'', None)
      | Many rs \<Rightarrow>
          (case bulk_scan rs (rs \<noteq> []) False [] of (allSkipped, anySuccess, skipMsg) \<Rightarrow>
             if allSkipped then (RunSkipped, ''Upgrade skipped: '' @ skipMsg, None)
             else if anySuccess then (RunRebooting, ''Devices rebooting'', None)
             else (RunCompleted, ''Job completed successfully'', None))
      | _ \<Rightarrow> (RunCompleted, ''Job completed successfully'', None))"

section \<open>executeJob\<close>

text \<open>From the load of the job on, inside the slot and with its cancel function registered.\<close>

definition finish_run_job :: "runner_env \<Rightarrow> string \<Rightarrow> run_db \<times> job_result \<times> string option \<Rightarrow> run_db" where
  "finish_run_job e i = (\<lambda>(s, result, err).
     case err of
       Some m \<Rightarrow>
         if re_ctx_done e then logEvent i EventCompleted None ''Job cancelled'' (updateStatus i RunCancelled None s)
         else logEvent i EventError None m (updateStatus i RunFailed (Some m) s)
     | None \<Rightarrow>
         (case verdict_of result of (status, msg, e) \<Rightarrow>
            (let s1 = updateStatus i status e s;
                 s2 = (if result = NoResult then s1 else on_run i (\<lambda>j. j\<lparr>jr_Result := result\<rparr>) s1)
             in logEvent i EventCompleted None msg s2)))"

definition executeJob :: "runner_env \<Rightarrow> time \<Rightarrow> time \<Rightarrow> string \<Rightarrow> run_db \<Rightarrow> run_db" where
  "executeJob e t0 t1 i s =
     (case get_run s i of
        None \<Rightarrow> s
      | Some job \<Rightarrow>
          if jr_Status job \<noteq> RunPending then s
          else (let s1 = logEvent i EventStarted None ''Job started''
                      (on_run i (\<lambda>j. j\<lparr>jr_StartedAt := Some t0\<rparr>) (updateStatus i RunRunning None s))
                in setCompletedAt t1 i (finish_run_job e i (run_body e (job\<lparr>jr_Status := RunRunning\<rparr>) s1))))"

text \<open>Start-up: runs left over are failed; the pending ones, oldest first, are executed again.\<close>

definition recover_running :: "run_db \<Rightarrow> run_db" where
  "recover_running s = s\<lparr>rb_jobs := update_where (\<lambda>j. jr_Status j = RunRunning)
     (\<lambda>j. j\<lparr>jr_Status := RunFailed, jr_ErrorMessage := ''Server restarted during execution''\<rparr>) (rb_jobs s)\<rparr>"

definition pending_runs :: "run_db \<Rightarrow> string list" where
  "pending_runs s = map jr_ID (sort_key jr_CreatedAt (filter (\<lambda>j. jr_Status j = RunPending) (rb_jobs s)))"

definition StartJob :: "string \<Rightarrow> time \<Rightarrow> JobKind \<Rightarrow> int list \<Rightarrow> UpgradeParams \<Rightarrow> int \<Rightarrow> run_db \<Rightarrow> run_db" where
  "StartJob i now kind deviceIDs params userID s =
     s\<lparr>rb_jobs := rb_jobs s @ [\<lparr>jr_ID = i, jr_Kind = kind, jr_Status = RunPending, jr_Progress = 0,
        jr_TotalSteps = (if deviceIDs = [] then 1 else length deviceIDs), jr_CompletedSteps = 0, jr_DeviceIDs = deviceIDs,
        jr_Parameters = params, jr_Result = NoResult, jr_ErrorMessage = [], jr_CreatedAt = now, jr_StartedAt = None,
        jr_CompletedAt = None, jr_CreatedBy = userID\<rparr>]\<rparr>"

datatype cancel_result = CancelSent | CancelledPending | RunNotFound | NotCancellable RunStatus

text \<open>\<open>running\<close>: the runs whose cancel function is registered.\<close>

definition CancelRun :: "string list \<Rightarrow> time \<Rightarrow> string \<Rightarrow> run_db \<Rightarrow> cancel_result \<times> run_db" where
  "CancelRun running now i s =
     (if i \<in> set running then (CancelSent, s)
      else (case get_run s i of
              None \<Rightarrow> (RunNotFound, s)
            | Some j \<Rightarrow> if jr_Status j = RunPending
                then (CancelledPending, on_run i (\<lambda>j. j\<lparr>jr_Status := RunCancelled, jr_CompletedAt := Some now\<rparr>) s)
                else (NotCancellable (jr_Status j), s)))"

definition GetJobEvents :: "string \<Rightarrow> int \<Rightarrow> run_db \<Rightarrow> JobEvent list" where
  "GetJobEvents i limit s = take (nat (if limit \<le> 0 then 100 else limit)) (filter (\<lambda>ev. ev_JobID ev = i) (rb_events s))"

definition ListRuns :: "RunStatus option \<Rightarrow> int \<Rightarrow> run_db \<Rightarrow> JobRun list" where
  "ListRuns status limit s =
     take (nat (if limit \<le> 0 then 50 else limit))
       (sort_key (\<lambda>j. - jr_CreatedAt j) (case status of None \<Rightarrow> rb_jobs s | Some st \<Rightarrow> filter (\<lambda>j. jr_Status j = st) (rb_jobs s)))"

section \<open>The pool of a bulk upgrade\<close>

text \<open>Devices waiting in order, in flight, and done; at most five goroutines hold a slot.\<close>

record pool =
  pl_waiting :: "int list"
  pl_active :: "int list"
  pl_done :: "int list"

definition pool_start :: "pool \<Rightarrow> pool option" where
  "pool_start p = (case pl_waiting p of [] \<Rightarrow> None
     | d # ds \<Rightarrow> if length (pl_active p) < 5 then Some (p\<lparr>pl_waiting := ds, pl_active := pl_active p @ [d]\<rparr>) else None)"

inductive pool_step :: "pool \<Rightarrow> pool \<Rightarrow> bool" where
  begin_device: "pool_start p = Some p' \<Longrightarrow> pool_step p p'"
| end_device: "d \<in> set (pl_active p) \<Longrightarrow> pool_step p (p\<lparr>pl_active := remove1 d (pl_active p), pl_done := pl_done p @ [d]\<rparr>)"

section \<open>Frame\<close>

text \<open>Only the row of run i changes, and only events of run i are added.\<close>

definition touches :: "string \<Rightarrow> run_db \<Rightarrow> run_db \<Rightarrow> bool" where
  "touches i s s' \<longleftrightarrow> map jr_ID (rb_jobs s') = map jr_ID (rb_jobs s)
     \<and> filter (\<lambda>j. jr_ID j \<noteq> i) (rb_jobs s') = filter (\<lambda>j. jr_ID j \<noteq> i) (rb_jobs s)
     \<and> (\<exists>evs. rb_events s' = rb_events s @ evs \<and> (\<forall>ev \<in> set evs. ev_JobID ev = i))"

named_theorems frame \<open>the operations of a run touch only that run\<close>

lemma touches_refl [simp, frame]: "touches i s s"
  by (simp add: touches_def)

lemma touches_trans: "touches i s t \<Longrightarrow> touches i t u \<Longrightarrow> touches i s u"
  unfolding touches_def by fastforce

lemma touches_on_run [frame]:
  assumes "touches i s t" and "\<And>j. jr_ID (f j) = jr_ID j"
  shows "touches i s (on_run i f t)"
proof -
  have "filter (\<lambda>j. jr_ID j \<noteq> i) (update_where (\<lambda>j. jr_ID j = i) f xs) = filter (\<lambda>j. jr_ID j \<noteq> i) xs" for xs
    by (induction xs) (simp_all add: update_where_def assms(2))
  then have "touches i t (on_run i f t)" by (simp add: touches_def on_run_def map_update_where assms(2))
  then show ?thesis by (rule touches_trans [OF assms(1)])
qed

lemma touches_logEvent [frame]: "touches i s t \<Longrightarrow> touches i s (logEvent i et d m t)"
  by (rule touches_trans, assumption) (simp add: touches_def logEvent_def)

lemma touches_updateStatus [frame]: "touches i s t \<Longrightarrow> touches i s (updateStatus i st e t)"
  unfolding updateStatus_def by (rule touches_on_run) (simp_all split: option.split)

lemma touches_updateProgress [frame]: "touches i s t \<Longrightarrow> touches i s (updateProgress i c n t)"
  unfolding updateProgress_def by (rule touches_on_run) simp_all

lemma touches_setTotalSteps [frame]: "touches i s t \<Longrightarrow> touches i s (setTotalSteps i n t)"
  unfolding setTotalSteps_def by (rule touches_on_run) simp_all

lemma touches_setCompletedAt [frame]: "touches i s t \<Longrightarrow> touches i s (setCompletedAt now i t)"
  unfolding setCompletedAt_def by (rule touches_on_run) simp_all

lemma device_loop_invariant: "P s \<Longrightarrow> (\<And>d t. P t \<Longrightarrow> P (f d t)) \<Longrightarrow> P (fst (device_loop cancelled f k ds s))"
  by (induction ds arbitrary: k s) simp_all

lemma fold_frame: "P s \<Longrightarrow> (\<And>d t. P t \<Longrightarrow> P (f d t)) \<Longrightarrow> P (fold f ds s)"
  by (induction ds arbitrary: s) simp_all

lemma bulk_device_frame: "touches (jr_ID job) s (fst t) \<Longrightarrow> touches (jr_ID job) s (fst (bulk_device e job d t))"
  by (cases t) (auto simp: bulk_device_def Let_def intro!: frame split: prod.split option.split)

lemma fanout_device_frame: "touches (jr_ID job) s (fst t) \<Longrightarrow> touches (jr_ID job) s (fst (fanout_device e job what bad steps d t))"
  by (cases t) (auto simp: fanout_device_def Let_def intro!: frame split: prod.split option.split)

lemma backup_device_frame: "touches (jr_ID job) s (fst t) \<Longrightarrow> touches (jr_ID job) s (fst (backup_device e job r d t))"
  by (cases t) (auto simp: backup_device_def Let_def intro!: frame split: prod.split option.split sum.split)

lemma reboot_device_frame: "touches (jr_ID job) s (fst t) \<Longrightarrow> touches (jr_ID job) s (fst (reboot_device e job d t))"
  by (cases t) (auto simp: reboot_device_def Let_def intro!: frame split: sum.split)

lemma refresh_device_frame: "touches (jr_ID job) s (fst t) \<Longrightarrow> touches (jr_ID job) s (fst (refresh_device g job d t))"
  by (cases t) (auto simp: refresh_device_def Let_def intro!: frame split: option.split)

lemmas device_frames = bulk_device_frame fanout_device_frame backup_device_frame reboot_device_frame refresh_device_frame

lemma device_loop_frame:
  assumes "touches i s (fst t)" and "\<And>d u. touches i s (fst u) \<Longrightarrow> touches i s (fst (f d u))"
  shows "touches i s (fst (fst (device_loop cancelled f k ds t)))"
  by (rule device_loop_invariant [where P = "\<lambda>t. touches i s (fst t)"]) (use assms in auto)

lemma runnerUpgradeJob_frame: "touches (jr_ID job) s (fst (runnerUpgradeJob e job s))"
  by (auto simp: runnerUpgradeJob_def Let_def intro!: frame split: list.split prod.split option.split)

lemma runBulkUpgradeJob_frame: "touches (jr_ID job) s (fst (runBulkUpgradeJob e job s))"
proof -
  let ?t = "(setTotalSteps (jr_ID job) (length (bulk_order (re_parent e) (jr_DeviceIDs job))) s, 0, [])"
  have "touches (jr_ID job) s (fst (fold (bulk_device e job) xs ?t))" for xs
    by (rule fold_frame [where P = "\<lambda>t. touches (jr_ID job) s (fst t)"]) (auto intro: frame bulk_device_frame)
  then show ?thesis by (auto simp: runBulkUpgradeJob_def Let_def split_beta split: option.split)
qed

lemma runFanoutUpgradeJob_frame: "touches (jr_ID job) s (fst (runFanoutUpgradeJob e job s))"
proof (cases "jr_DeviceIDs job")
    case (Cons ap rest)
    show ?thesis
    proof (cases "re_stas e ap")
      case (Inr stas)
      let ?t = "(logEvent (jr_ID job) EventProgress None (''Upgrading '' @ nat_str (length stas) @ '' STAs first'')
                           (setTotalSteps (jr_ID job) (1 + length stas) s), 0, [])"
      have t: "touches (jr_ID job) s (fst ?t)" by (auto intro!: frame)
      obtain u ended where u: "device_loop (re_cancelled e) (fanout_device e job ''STA'' EventWarning (1 + length stas)) 0 stas ?t = (u, ended)"
        by fastforce
      have "touches (jr_ID job) s (fst (fst (device_loop (re_cancelled e) (fanout_device e job ''STA'' EventWarning (1 + length stas)) 0 stas ?t)))"
        by (rule device_loop_frame [OF t fanout_device_frame])
      then have "touches (jr_ID job) s (fst u)" unfolding u by simp
      moreover from this have "touches (jr_ID job) s (fst (fanout_device e job ''AP'' EventError (1 + length stas) ap u))"
        by (rule fanout_device_frame)
      ultimately show ?thesis
        using Cons Inr u by (cases ended; cases u) (simp_all add: runFanoutUpgradeJob_def Let_def split_beta)
    qed (simp add: runFanoutUpgradeJob_def Cons)
qed (simp add: runFanoutUpgradeJob_def)

lemma runBackupJob_frame: "touches (jr_ID job) s (fst (runBackupJob e job s))"
proof (cases "re_backup_root e")
  case (Inr r)
  have "touches (jr_ID job) s (fst (fst (device_loop (re_cancelled e) (backup_device e job r) 0 (jr_DeviceIDs job)
      (setTotalSteps (jr_ID job) (length (jr_DeviceIDs job)) s, 0, []))))"
    by (rule device_loop_frame) (auto intro: frame backup_device_frame)
  then show ?thesis using Inr by (simp add: runBackupJob_def split_beta)
qed (simp add: runBackupJob_def)

lemma runnerRebootJob_frame: "touches (jr_ID job) s (fst (runnerRebootJob e job s))"
proof -
  have "touches (jr_ID job) s (fst (fst (device_loop (re_cancelled e) (reboot_device e job) 0 (jr_DeviceIDs job)
      (setTotalSteps (jr_ID job) (length (jr_DeviceIDs job)) s, 0, []))))"
    by (rule device_loop_frame) (auto intro: frame reboot_device_frame)
  then show ?thesis by (simp add: runnerRebootJob_def split_beta)
qed

lemma runnerRefreshJob_frame: "touches (jr_ID job) s (fst (runnerRefreshJob e job s))"
proof (cases "re_refresh e")
  case (Some g)
  have "touches (jr_ID job) s (fst (fst (device_loop (re_cancelled e) (refresh_device g job) 0 (jr_DeviceIDs job)
      (logEvent (jr_ID job) EventProgress None (''Queueing refresh for '' @ nat_str (length (jr_DeviceIDs job)) @ '' devices'') s,
       0, \<lparr>rj_Queued = 0, rj_Failed = 0, rj_Results = []\<rparr>))))"
    by (rule device_loop_frame) (auto intro: frame refresh_device_frame)
  then show ?thesis using Some by (simp add: runnerRefreshJob_def split_beta)
qed (simp add: runnerRefreshJob_def)

lemma run_body_frame: "touches (jr_ID job) s (fst (run_body e job s))"
  by (cases "jr_Kind job")
    (simp_all add: run_body_def runnerUpgradeJob_frame runBulkUpgradeJob_frame runFanoutUpgradeJob_frame runBackupJob_frame
      runnerRebootJob_frame runnerRefreshJob_frame)

section \<open>What an executed job leaves\<close>

lemma get_on_run: "(\<And>j. jr_ID (f j) = jr_ID j) \<Longrightarrow> get_run (on_run i f s) k = (if k = i then map_option f (get_run s k) else get_run s k)"
proof -
  assume id: "\<And>j. jr_ID (f j) = jr_ID j"
  have "find (\<lambda>j. jr_ID j = k) (update_where (\<lambda>j. jr_ID j = i) f xs)
      = (if k = i then map_option f (find (\<lambda>j. jr_ID j = k) xs) else find (\<lambda>j. jr_ID j = k) xs)" for xs
    by (induction xs) (auto simp: update_where_def id)
  then show ?thesis by (simp add: get_run_def on_run_def)
qed

lemma get_logEvent [simp]: "get_run (logEvent i et d m s) k = get_run s k"
  by (simp add: get_run_def logEvent_def)

lemma get_updateStatus: "get_run (updateStatus i st e s) k = map_option (if k = i
    then (\<lambda>j. case e of None \<Rightarrow> j\<lparr>jr_Status := st\<rparr> | Some m \<Rightarrow> j\<lparr>jr_Status := st, jr_ErrorMessage := m\<rparr>) else id) (get_run s k)"
  unfolding updateStatus_def by (subst get_on_run) (simp_all add: option.map_id split: option.split)

lemma get_setCompletedAt: "get_run (setCompletedAt t i s) k = map_option (if k = i then (\<lambda>j. j\<lparr>jr_CompletedAt := Some t\<rparr>) else id) (get_run s k)"
  unfolding setCompletedAt_def by (subst get_on_run) (simp_all add: option.map_id)

lemma get_run_touches: "touches i s s' \<Longrightarrow> get_run s k \<noteq> None \<longleftrightarrow> get_run s' k \<noteq> None"
proof -
  have none: "get_run t k = None \<longleftrightarrow> k \<notin> set (map jr_ID (rb_jobs t))" for t
    by (auto simp: get_run_def find_None_iff_set)
  show "touches i s s' \<Longrightarrow> ?thesis" unfolding none touches_def by simp
qed

definition ended :: "RunStatus \<Rightarrow> bool" where
  "ended st \<longleftrightarrow> st \<noteq> RunPending \<and> st \<noteq> RunRunning"

lemma verdict_ended: "ended (fst (verdict_of r))"
  by (auto simp: verdict_of_def ended_def Let_def split: job_result.split prod.split)

lemma finish_run_job_row:
  assumes "get_run s i \<noteq> None"
  shows "\<exists>j. get_run (setCompletedAt t i (finish_run_job e i (s, res, err))) i = Some j \<and> ended (jr_Status j) \<and> jr_CompletedAt j = Some t"
proof -
  obtain j where j: "get_run s i = Some j" using assms by blast
  show ?thesis
  proof (cases err)
    case (Some m)
    then show ?thesis using j by (simp add: finish_run_job_def get_setCompletedAt get_updateStatus ended_def)
  next
    case None
    obtain st msg er where v: "verdict_of res = (st, msg, er)" by (cases "verdict_of res")
    have "ended st" using verdict_ended [of res] v by simp
    then show ?thesis using j None v
      by (cases "res = NoResult") (simp_all add: finish_run_job_def Let_def get_setCompletedAt get_updateStatus get_on_run split: option.split)
  qed
qed

lemma finish_run_job_frame: "touches i s (finish_run_job e i (s, res, err))"
  by (auto simp: finish_run_job_def Let_def intro!: frame split: option.split prod.split)

lemma finish_run_job_last: "\<exists>ev. last (rb_events (finish_run_job e i (s, res, err))) = ev \<and> ev_JobID ev = i \<and> ev_EventType ev \<in> {EventCompleted, EventError}"
  by (auto simp: finish_run_job_def Let_def logEvent_def split: option.split prod.split)


definition demo_params :: UpgradeParams where
  "demo_params = \<lparr>up_FirmwareFile = ''fw.bin'', up_FirmwareVersion = [], up_Force = False, up_Fanout = False\<rparr>"

definition demo_env :: runner_env where
  "demo_env = \<lparr>re_upgrade = (\<lambda>d r f. (None, Some ''unreachable'')), re_parent = (\<lambda>d. if d = 4 then Some 9 else None), re_stas = (\<lambda>d. Inr [4]),
     re_reboot = (\<lambda>d. Inr []), re_refresh = None, re_backup_root = Inr ''backups'', re_device = (\<lambda>d. None), re_fetch = (\<lambda>d. Inr []),
     re_ap_ip = (\<lambda>d. Inr []), re_ensure_dir = (\<lambda>r ps. Inr r), re_write = (\<lambda>d n c. Inr n), re_cancelled = (\<lambda>k. False), re_bulk_stop = None,
     re_finish_order = (\<lambda>xs. xs), re_ctx_done = False\<rparr>"

definition demo_runs :: run_db where
  "demo_runs = StartJob ''j1'' 5 KindBulkUpgrade [9, 4] demo_params 1 \<lparr>rb_jobs = [], rb_events = []\<rparr>"


lemma bulk_scan_eq: "bulk_scan rs a b m =
   (a \<and> list_all (\<lambda>r. case r of None \<Rightarrow> True | Some x \<Rightarrow> ur_Status x = ''skipped'') rs,
    b \<or> list_ex (\<lambda>r. case r of None \<Rightarrow> False | Some x \<Rightarrow> ur_Status x = ''success'') rs,
    snd (snd (bulk_scan rs a b m)))"
  by (induction rs a b m rule: bulk_scan.induct) auto

text \<open>The status of a bulk or fan-out upgrade: rebooting when some device succeeded, skipped when
  every device was skipped, and completed otherwise, so also when every single device failed.
\<close>

theorem bulk_verdict:
  "fst (verdict_of (Many rs)) =
     (if list_ex (\<lambda>r. case r of None \<Rightarrow> False | Some x \<Rightarrow> ur_Status x = ''success'') rs then RunRebooting
      else if rs \<noteq> [] \<and> list_all (\<lambda>r. case r of None \<Rightarrow> True | Some x \<Rightarrow> ur_Status x = ''skipped'') rs then RunSkipped
      else RunCompleted)"
proof -
  have excl: "\<not> list_all (\<lambda>r. case r of None \<Rightarrow> True | Some x \<Rightarrow> ur_Status x = ''skipped'') rs"
    if "list_ex (\<lambda>r. case r of None \<Rightarrow> False | Some x \<Rightarrow> ur_Status x = ''success'') rs"
  proof -
    from that obtain r where "r \<in> set rs" "case r of None \<Rightarrow> False | Some x \<Rightarrow> ur_Status x = ''success''"
      unfolding list_ex_iff by blast
    then show ?thesis unfolding list_all_iff by (intro notI) (drule bspec, assumption, simp split: option.splits)
  qed
  obtain a b m where s: "bulk_scan rs (rs \<noteq> []) False [] = (a, b, m)" by (metis prod_cases3)
  then have "a = (rs \<noteq> [] \<and> list_all (\<lambda>r. case r of None \<Rightarrow> True | Some x \<Rightarrow> ur_Status x = ''skipped'') rs)"
    "b = list_ex (\<lambda>r. case r of None \<Rightarrow> False | Some x \<Rightarrow> ur_Status x = ''success'') rs"
    using bulk_scan_eq [of rs "rs \<noteq> []" False "[]"] by simp_all
  then show ?thesis using s excl by (simp add: verdict_of_def)
qed

section \<open>The order of a bulk upgrade\<close>

lemma bulk_order_sorted: "sorted (map (\<lambda>d. parent d = None) (bulk_order parent ids))" "mset (bulk_order parent ids) = mset ids"
  by (simp_all add: bulk_order_def)

inductive pool_runs :: "pool \<Rightarrow> pool \<Rightarrow> bool" where
  here: "pool_runs p p"
| more: "pool_runs p q \<Longrightarrow> pool_step q r \<Longrightarrow> pool_runs p r"

lemma pool_starts:
  assumes "length ds \<le> 5" and "k \<le> length ds"
  shows "pool_runs \<lparr>pl_waiting = ds, pl_active = [], pl_done = []\<rparr> \<lparr>pl_waiting = drop k ds, pl_active = take k ds, pl_done = []\<rparr>"
  using assms(2)
proof (induction k)
  case (Suc k)
  have "pool_start \<lparr>pl_waiting = drop k ds, pl_active = take k ds, pl_done = []\<rparr>
      = Some \<lparr>pl_waiting = drop (Suc k) ds, pl_active = take (Suc k) ds, pl_done = []\<rparr>"
    using Suc.prems assms(1) by (simp add: pool_start_def Cons_nth_drop_Suc [symmetric] take_Suc_conv_app_nth)
  then show ?case using Suc by (auto intro: pool_runs.more begin_device)
qed (simp add: here)

text \<open>Sorting stations before access points does not keep them apart. The list of a bulk upgrade
  is sorted with the stations first, but with at most five devices all of them are started
  before any has ended: an access point is upgraded while its stations are.
\<close>

theorem bulk_pool_overlaps:
  assumes "length ids \<le> 5"
  shows "sorted (map (\<lambda>d. parent d = None) (bulk_order parent ids)) \<and> mset (bulk_order parent ids) = mset ids
    \<and> pool_runs \<lparr>pl_waiting = bulk_order parent ids, pl_active = [], pl_done = []\<rparr>
        \<lparr>pl_waiting = [], pl_active = bulk_order parent ids, pl_done = []\<rparr>"
proof -
  have len: "length (bulk_order parent ids) = length ids" by (simp add: bulk_order_def)
  show ?thesis using pool_starts [of "bulk_order parent ids" "length (bulk_order parent ids)"] assms bulk_order_sorted len by simp
qed

lemma bulk_pool_overlaps_witness:
  "bulk_order (re_parent demo_env) [9, 4] = [4, 9]
   \<and> pool_runs \<lparr>pl_waiting = [4, 9], pl_active = [], pl_done = []\<rparr> \<lparr>pl_waiting = [], pl_active = [4, 9], pl_done = []\<rparr>"
proof -
  have "bulk_order (re_parent demo_env) [9, 4] = [4, 9]" by (simp add: bulk_order_def demo_env_def)
  then show ?thesis using bulk_pool_overlaps [of "[9, 4]" "re_parent demo_env"] by simp
qed

end
