(* ===== verification/FirmwareVersions.thy ===== *)
theory FirmwareVersions imports Prelude begin

text \<open>
  Firmware names and versions (src/internal/firmware/service.go): comparing version strings,
  reading flavor, platform and version off a file name, and choosing a file by flavor or version.
  Strings are byte lists with ASCII case mapping. Numeric version lists get the library's order by
  an instantiation, so that the comparison can be stated as that order.
\<close>

section \<open>Comparing versions\<close>

definition splitVersion :: "string \<Rightarrow> string list" where
  "splitVersion v = filter (\<lambda>w. w \<noteq> []) (split_on (\<lambda>c. c = CHR ''.'' \<or> c = CHR ''-'' \<or> c = CHR ''_'') v)"

definition isPrerelease :: "string \<Rightarrow> bool" where
  "isPrerelease s =
     (let lower = to_lower s in prefix ''rc'' lower \<or> prefix ''beta'' lower \<or> prefix ''alpha'' lower \<or> prefix ''dev'' lower \<or> prefix ''pre'' lower)"

definition str_compare :: "string \<Rightarrow> string \<Rightarrow> int" where
  "str_compare a b = (if a < b then -1 else if a = b then 0 else 1)"

definition compare_part :: "string \<Rightarrow> string \<Rightarrow> int" where
  "compare_part a b =
     (case (atoi a, atoi b) of
        (Some x, Some y) \<Rightarrow> x - y
      | _ \<Rightarrow> (let cmp = str_compare (to_lower a) (to_lower b) in
              if cmp = 0 then 0
              else if isPrerelease a \<and> \<not> isPrerelease b then -1
              else if \<not> isPrerelease a \<and> isPrerelease b then 1
              else cmp))"

fun compare_parts :: "string list \<Rightarrow> string list \<Rightarrow> int" where
  "compare_parts (a # as) (b # bs) = (let c = compare_part a b in if c \<noteq> 0 then c else compare_parts as bs)"
| "compare_parts [] bs = (if list_ex isPrerelease bs then 1 else - int (length bs))"
| "compare_parts as [] = (if list_ex isPrerelease as then -1 else int (length as))"

definition strip_v :: "string \<Rightarrow> string" where
  "strip_v a = trim_prefix (trim_prefix (trim_space a) ''v'') ''V''"

definition compareVersions :: "string \<Rightarrow> string \<Rightarrow> int" where
  "compareVersions a b = compare_parts (splitVersion (strip_v a)) (splitVersion (strip_v b))"

section \<open>File names\<close>

record FirmwareFile =
  ff_ID :: string
  ff_Name :: string
  ff_RelativePath :: string
  ff_Path :: string
  ff_Size :: int
  ff_Flavor :: string
  ff_Platform :: string
  ff_AirMAX :: string
  ff_Version :: string

definition isNumeric :: "string \<Rightarrow> bool" where
  "isNumeric s \<longleftrightarrow> s \<noteq> [] \<and> list_all is_digit s"

text \<open>The parts that follow the one that starts the version: at most two, up to a suffix.\<close>

fun more_version :: "nat \<Rightarrow> string list \<Rightarrow> string" where
  "more_version 0 ps = []"
| "more_version (Suc n) [] = []"
| "more_version (Suc n) (p # ps) =
     (if takeWhile is_digit p = [] then []
      else ''.'' @ p @ (if dropWhile is_digit p \<noteq> [] then [] else more_version n ps))"

fun extractVersion :: "string list \<Rightarrow> string" where
  "extractVersion [] = []"
| "extractVersion (p # ps) =
     (if prefix ''v'' p \<and> tl p \<noteq> [] \<and> is_digit (hd (tl p)) then p @ more_version 2 ps else extractVersion ps)"

definition name_prefix :: "string \<Rightarrow> string" where
  "name_prefix filename = to_upper (hd (split_on (\<lambda>c. c = CHR ''.'') (trim_suffix (to_lower filename) ''.bin'')))"

text \<open>Platform, flavor and airMAX variant of a name prefix; None for an unknown one.\<close>

definition platform_of :: "string \<Rightarrow> (string \<times> string) option" where
  "platform_of pre =
     (if pre \<in> {''GMC'', ''GMP'', ''MGMP'', ''GP''} then Some (''Wave'', [])
      else if pre = ''MW'' then Some (''MLO'', [])
      else if pre \<in> {''AFLTUROCKET'', ''AFLTU'', ''AF5XHD''} then Some (''LTU'', [])
      else if pre \<in> {''XC'', ''2XC'', ''WA'', ''2WA''} then Some (''airMAX AC'', pre)
      else if pre \<in> {''XM'', ''XW'', ''TI''} then Some (''airMAX M'', pre)
      else if prefix ''AF'' pre \<and> length pre \<ge> 3 then Some (''AirFiber'', [])
      else None)"

definition parseFirmwareFilename :: "string \<Rightarrow> FirmwareFile" where
  "parseFirmwareFilename filename =
     (let fw = \<lparr>ff_ID = [], ff_Name = filename, ff_RelativePath = [], ff_Path = [], ff_Size = 0, ff_Flavor = [], ff_Platform = [],
                ff_AirMAX = [], ff_Version = []\<rparr>;
          parts = split_on (\<lambda>c. c = CHR ''.'') (trim_suffix (to_lower filename) ''.bin'')
      in case platform_of (name_prefix filename) of
           None \<Rightarrow> fw
         | Some (platform, airmax) \<Rightarrow>
             fw\<lparr>ff_Flavor := name_prefix filename, ff_Platform := platform, ff_AirMAX := airmax, ff_Version := extractVersion parts\<rparr>)"

definition extractFlavor :: "string \<Rightarrow> string" where
  "extractFlavor filename = ff_Flavor (parseFirmwareFilename filename)"

definition extractVersionFromAnyString :: "string \<Rightarrow> string" where
  "extractVersionFromAnyString s0 =
     (let s = trim_space s0; lower = to_lower s in
      if s = [] then []
      else extractVersion (split_on (\<lambda>c. c = CHR ''.'') (if is_digit (hd lower) then CHR ''v'' # lower else lower)))"

definition firmwareMatches :: "string \<Rightarrow> string \<Rightarrow> bool" where
  "firmwareMatches current filename =
     (let target = trim_suffix (trim_suffix filename ''.bin'') ''.BIN'' in
      equal_fold current target
      \<or> (let curVer = extractVersionFromAnyString current; v = ff_Version (parseFirmwareFilename filename);
             tgtVer = (if v = [] then extractVersionFromAnyString target else v)
         in curVer \<noteq> [] \<and> tgtVer \<noteq> [] \<and> compareVersions curVer tgtVer = 0))"

section \<open>Choosing a file\<close>

definition base_name :: "string \<Rightarrow> string" where
  "base_name path = last (split_on (\<lambda>c. c = CHR ''/'') path)"

fun newest_path :: "string list \<Rightarrow> string \<Rightarrow> string \<Rightarrow> string \<times> string" where
  "newest_path [] bestPath bestVer = (bestPath, bestVer)"
| "newest_path (path # ps) bestPath bestVer =
     (let v = ff_Version (parseFirmwareFilename (base_name path)) in
      if v = [] then newest_path ps bestPath bestVer
      else if bestVer = [] \<or> compareVersions v bestVer > 0 then newest_path ps path v
      else newest_path ps bestPath bestVer)"

definition FindFirmwareForFlavor :: "FirmwareFile list \<Rightarrow> string \<Rightarrow> string option" where
  "FindFirmwareForFlavor files flavor =
     (case map ff_Path (filter (\<lambda>f. equal_fold (ff_Flavor f) flavor) files) of
        [] \<Rightarrow> None
      | c # cs \<Rightarrow>
          (case newest_path cs c (ff_Version (parseFirmwareFilename (base_name c))) of
             (bestPath, bestVer) \<Rightarrow> if bestVer = [] then Some (Max (set (c # cs))) else Some bestPath))"

fun select_newest :: "FirmwareFile list \<Rightarrow> string \<Rightarrow> FirmwareFile option \<Rightarrow> FirmwareFile option" where
  "select_newest [] flavor best = best"
| "select_newest (f # fs) flavor best =
     (if equal_fold (ff_Flavor f) flavor \<and> ff_Version f \<noteq> []
         \<and> (case best of None \<Rightarrow> True | Some b \<Rightarrow> compareVersions (ff_Version f) (ff_Version b) > 0)
      then select_newest fs flavor (Some f) else select_newest fs flavor best)"

definition SelectFirmwareForDevice :: "FirmwareFile list \<Rightarrow> string \<Rightarrow> FirmwareFile option" where
  "SelectFirmwareForDevice files flavor = select_newest files flavor None"

definition FindFirmwareByVersion :: "FirmwareFile list \<Rightarrow> string \<Rightarrow> string \<Rightarrow> FirmwareFile option" where
  "FindFirmwareByVersion files version flavor =
     find (\<lambda>f. equal_fold (ff_Flavor f) flavor \<and> compareVersions (ff_Version f) version = 0) files"

fun string_newest :: "(FirmwareFile \<Rightarrow> bool) \<Rightarrow> FirmwareFile list \<Rightarrow> FirmwareFile option \<Rightarrow> FirmwareFile option" where
  "string_newest P [] best = best"
| "string_newest P (f # fs) best =
     string_newest P fs (if P f \<and> (case best of None \<Rightarrow> True | Some b \<Rightarrow> ff_Version f > ff_Version b) then Some f else best)"

definition FindByFlavor :: "FirmwareFile list \<Rightarrow> string \<Rightarrow> FirmwareFile option" where
  "FindByFlavor files flavor = string_newest (\<lambda>f. equal_fold (ff_Flavor f) flavor) files None"

definition FindByAirMAXPlatform :: "FirmwareFile list \<Rightarrow> string \<Rightarrow> FirmwareFile option" where
  "FindByAirMAXPlatform files platform = string_newest (\<lambda>f. equal_fold (ff_AirMAX f) platform) files None"

definition platformOrder :: "string \<Rightarrow> nat" where
  "platformOrder platform =
     (if platform = ''Wave'' then 1 else if platform = ''MLO'' then 2 else if platform = ''LTU'' then 3
      else if platform = ''airMAX AC'' then 4 else if platform = ''airMAX M'' then 5 else if platform = ''AirFiber'' then 6 else 99)"

record VersionInfo =
  vi_Version :: string
  vi_Platform :: string
  vi_Flavors :: "string list"

text \<open>The grouping, in order of first appearance (the code then sorts the groups).\<close>

definition add_version :: "FirmwareFile \<Rightarrow> VersionInfo list \<Rightarrow> VersionInfo list" where
  "add_version f vs =
     (if ff_Version f = [] then vs
      else
        (let same = (\<lambda>v. vi_Version v = ff_Version f \<and> vi_Platform v = ff_Platform f);
             vs1 = (if list_ex same vs then vs else vs @ [\<lparr>vi_Version = ff_Version f, vi_Platform = ff_Platform f, vi_Flavors = []\<rparr>])
         in update_where same (\<lambda>v. if list_ex (\<lambda>fl. equal_fold fl (ff_Flavor f)) (vi_Flavors v) \<or> ff_Flavor f = [] then v
                  else v\<lparr>vi_Flavors := vi_Flavors v @ [ff_Flavor f]\<rparr>) vs1))"

definition version_groups :: "FirmwareFile list \<Rightarrow> VersionInfo list" where
  "version_groups files = fold add_version files []"

definition version_before :: "VersionInfo \<Rightarrow> VersionInfo \<Rightarrow> bool" where
  "version_before a b =
     (if vi_Platform a \<noteq> vi_Platform b then platformOrder (vi_Platform a) < platformOrder (vi_Platform b)
      else compareVersions (vi_Version a) (vi_Version b) > 0)"

section \<open>The order on numeric versions\<close>

text \<open>A release number; the library's linear order is lexicographic, a prefix before its extensions.\<close>

datatype release = Release (release_numbers: "nat list")

instantiation release :: linorder
begin

definition less_eq_release :: "release \<Rightarrow> release \<Rightarrow> bool" where
  "less_eq_release a b \<longleftrightarrow> release_numbers a \<le> release_numbers b"

definition less_release :: "release \<Rightarrow> release \<Rightarrow> bool" where
  "less_release a b \<longleftrightarrow> release_numbers a < release_numbers b"

instance
  by standard (auto simp: less_eq_release_def less_release_def release.expand)

end

lemma release_eq_iff: "a = b \<longleftrightarrow> release_numbers a = release_numbers b"
  by (auto intro: release.expand)

definition show_release :: "bool \<Rightarrow> release \<Rightarrow> string" where
  "show_release v r = (if v then ''v'' else []) @ join ''.'' (map nat_str (release_numbers r))"

definition small_release :: "release \<Rightarrow> bool" where
  "small_release r \<longleftrightarrow> list_all (\<lambda>n. n < 2 ^ 63) (release_numbers r)"

lemma digits_no_sep: "c \<in> set (nat_str n) \<Longrightarrow> c \<noteq> CHR ''.'' \<and> c \<noteq> CHR ''-'' \<and> c \<noteq> CHR ''_''"
  using nat_str_digits [of c n] by (auto simp: is_digit_def)

lemma splitVersion_release: "splitVersion (join ''.'' (map nat_str ns)) = map nat_str ns"
proof -
  have "list_all (list_all (\<lambda>c. \<not> (c = CHR ''.'' \<or> c = CHR ''-'' \<or> c = CHR ''_''))) (map nat_str ns)"
    using digits_no_sep by (auto simp: list_all_iff)
  then show ?thesis
    unfolding splitVersion_def by (subst split_on_join) (auto simp: filter_id_conv)
qed

lemma trim_space_id: "list_all (\<lambda>c. \<not> is_space c) s \<Longrightarrow> trim_space s = s"
proof -
  have d: "list_all (\<lambda>c. \<not> is_space c) t \<Longrightarrow> dropWhile is_space t = t" for t by (cases t) simp_all
  assume "list_all (\<lambda>c. \<not> is_space c) s"
  then show ?thesis by (simp add: trim_space_def d list_all_rev)
qed

lemma digit_not_space: "is_digit c \<Longrightarrow> \<not> is_space c"
  by (auto simp: is_digit_def is_space_def)

lemma show_release_chars: "c \<in> set (join ''.'' (map nat_str ns)) \<Longrightarrow> is_digit c \<or> c = CHR ''.''"
  using set_join [of c "''.''" "map nat_str ns"] nat_str_digits by auto

lemma trim_release: "trim_space (show_release v r) = show_release v r"
proof (rule trim_space_id, unfold list_all_iff, intro ballI)
  fix c assume "c \<in> set (show_release v r)"
  then have "c = CHR ''v'' \<or> c = CHR ''.'' \<or> is_digit c"
    using show_release_chars [of c "release_numbers r"] by (auto simp: show_release_def split: if_splits)
  then show "\<not> is_space c" using digit_not_space by (auto simp: is_space_def)
qed

lemma strip_v_release: "strip_v (show_release v r) = join ''.'' (map nat_str (release_numbers r))"
proof -
  let ?s = "join ''.'' (map nat_str (release_numbers r))"
  have ch: "is_digit c \<or> c = CHR ''.''" if "c \<in> set ?s" for c using that by (rule show_release_chars)
  note t = trim_release [of v r]
  have nov: "\<not> prefix ''v'' ?s" "\<not> prefix ''V'' ?s"
  proof -
    have "hd ?s \<noteq> CHR ''v'' \<and> hd ?s \<noteq> CHR ''V''" if "?s \<noteq> []"
      using ch [of "hd ?s"] that hd_in_set by (auto simp: is_digit_def)
    then show "\<not> prefix ''v'' ?s" "\<not> prefix ''V'' ?s" by (cases ?s; auto)+
  qed
  then show ?thesis unfolding strip_v_def t by (simp add: show_release_def trim_prefix_def)
qed

lemma not_prerelease_number [simp]: "\<not> isPrerelease (nat_str n)"
proof -
  obtain c cs where c: "nat_str n = c # cs" by (cases "nat_str n") auto
  have d: "is_digit c" using nat_str_digits [of c n] c by simp
  then have l: "lower_char c = c" by (auto simp: lower_char_def is_digit_def Let_def)
  have "\<not> prefix (x # xs) (to_lower (nat_str n))" if "\<not> is_digit x" for x xs using d l that by (auto simp: c to_lower_def)
  then show ?thesis unfolding isPrerelease_def Let_def by (simp add: is_digit_def)
qed

lemma atoi_small: "n < 2 ^ 63 \<Longrightarrow> atoi (nat_str n) = Some (int n)"
  by (rule atoi_nat_str) simp

lemma compare_parts_numbers:
  "list_all (\<lambda>n. n < 2 ^ 63) xs \<Longrightarrow> list_all (\<lambda>n. n < 2 ^ 63) ys \<Longrightarrow>
   (compare_parts (map nat_str xs) (map nat_str ys) < 0) = (xs < ys) \<and> (compare_parts (map nat_str xs) (map nat_str ys) = 0) = (xs = ys)"
proof (induction xs ys rule: list_induct2')
  case (4 x xs y ys)
  have xy: "x < 2 ^ 63" "y < 2 ^ 63" using 4 by simp_all
  have c: "compare_part (nat_str x) (nat_str y) = int x - int y" unfolding compare_part_def atoi_small [OF xy(1)] atoi_small [OF xy(2)] by simp
  have "compare_parts (map nat_str (x # xs)) (map nat_str (y # ys))
      = (if x = y then compare_parts (map nat_str xs) (map nat_str ys) else int x - int y)"
    by (simp add: Let_def c)
  then show ?case using 4 by auto
qed (auto simp: list_ex_iff)

text \<open>On release numbers the comparison is the library's order.\<close>

lemma releases_compare:
  assumes "small_release a" and "small_release b"
  shows "(compareVersions (show_release v a) (show_release w b) < 0) = (a < b)
    \<and> (compareVersions (show_release v a) (show_release w b) = 0) = (a = b)"
  using compare_parts_numbers [of "release_numbers a" "release_numbers b"] assms
  by (simp add: compareVersions_def strip_v_release splitVersion_release small_release_def less_release_def release_eq_iff)

section \<open>What the comparison is\<close>

text \<open>C35. Release versions are ordered as lists of numbers. For two versions of numbers below
  2^63, with or without a leading v, the comparison is negative exactly when the first release
  is less in the lexicographic order and zero exactly when they are the same; in particular it
  is a linear order on releases, the one the library's class gives.
\<close>

theorem compareVersions_releases:
  assumes "small_release a" and "small_release b"
  shows "(compareVersions (show_release v a) (show_release w b) < 0) = (a < b)
    \<and> (compareVersions (show_release v a) (show_release w b) = 0) = (a = b)"
  using assms by (rule releases_compare)

lemma compareVersions_releases_witness:
  "compareVersions ''v8.9.0'' ''8.10.0'' < 0"
proof -
  have s: "small_release (Release [8, 9, 0])" "small_release (Release [8, 10, 0])" by (simp_all add: small_release_def)
  have "show_release True (Release [8, 9, 0]) = ''v8.9.0''" "show_release False (Release [8, 10, 0]) = ''8.10.0''" by code_simp+
  moreover have "Release [8, 9, 0] < Release [8, 10, 0]" by (simp add: less_release_def)
  ultimately show ?thesis using compareVersions_releases [OF s, of True False] by simp
qed

lemma str_compare_swap: "str_compare b a = - str_compare a b"
  by (auto simp: str_compare_def)

lemma compare_part_swap: "sgn (compare_part b a) = - sgn (compare_part a b)"
  by (cases "atoi a"; cases "atoi b")
    (auto simp: compare_part_def Let_def str_compare_swap [of "to_lower b"] sgn_if)

lemma compare_parts_swap: "sgn (compare_parts bs as) = - sgn (compare_parts as bs)"
proof (induction as bs rule: list_induct2')
  case (4 a as b bs)
  then show ?case using compare_part_swap [of a b] by (auto simp: Let_def sgn_0_0 split: if_splits)
qed (auto simp: sgn_if)

text \<open>
  The comparison answers consistently when its arguments are swapped: the sign changes, for
  all strings, prereleases and suffixes included.
\<close>

theorem compareVersions_antisymmetric:
  "sgn (compareVersions b a) = - sgn (compareVersions a b)"
  unfolding compareVersions_def by (rule compare_parts_swap)

lemma atoi_examples:
  "atoi ''4'' = Some 4" "atoi ''1'' = Some 1" "atoi ''0'' = Some 0" "atoi ''2'' = Some 2" "atoi ''10'' = Some 10"
  by code_simp+

lemma atoi_text_examples: "atoi ''rc10'' = None" "atoi ''rc2'' = None" "atoi ''1a'' = None"
  by (simp_all add: atoi_def is_digit_def Let_def)

lemma to_lower_examples:
  "to_lower ''rc10'' = ''rc10''" "to_lower ''rc2'' = ''rc2''" "to_lower ''1a'' = ''1a''" "to_lower ''10'' = ''10''" "to_lower ''2'' = ''2''"
  by code_simp+

lemmas compare_examples = compareVersions_def splitVersion_def strip_v_def trim_space_def is_space_def trim_prefix_def
  compare_part_def atoi_examples atoi_text_examples to_lower_examples Let_def str_compare_def isPrerelease_def

text \<open>
  Beyond plain releases the comparison is no order. Prerelease numbers are compared as text,
  so the tenth candidate is older than the second; and three versions, one with a letter, are
  each newer than the next in a circle, so that the newest file depends on the order of the list.
\<close>

theorem prereleases_not_ordered:
  "compareVersions ''v4.1.0-rc10'' ''v4.1.0-rc2'' < 0
   \<and> compareVersions ''v1.2'' ''v1.10'' < 0 \<and> compareVersions ''v1.10'' ''v1.1a'' < 0 \<and> compareVersions ''v1.1a'' ''v1.2'' < 0"
  by (simp add: compare_examples)

section \<open>File names of releases\<close>

definition release_file :: "string \<Rightarrow> release \<Rightarrow> string" where
  "release_file pre r = pre @ ''.'' @ show_release True r @ ''.bin''"

definition known_prefixes :: "string list" where
  "known_prefixes = [''GMC'', ''GMP'', ''MGMP'', ''GP'', ''MW'', ''AFLTUROCKET'', ''AFLTU'', ''AF5XHD'', ''XC'', ''2XC'', ''WA'', ''2WA'',
     ''XM'', ''XW'', ''TI'']"

lemma lower_char_id: "is_digit c \<or> c = CHR ''.'' \<Longrightarrow> lower_char c = c"
  by (auto simp: lower_char_def is_digit_def Let_def)

lemma lower_release: "to_lower (join ''.'' (map nat_str ns)) = join ''.'' (map nat_str ns)"
proof -
  have "lower_char c = c" if "c \<in> set (join ''.'' (map nat_str ns))" for c
    using show_release_chars [OF that] by (rule lower_char_id)
  then show ?thesis by (simp add: to_lower_def map_idI)
qed

lemma lower_show_release: "to_lower (show_release v r) = (if v then ''v'' else []) @ join ''.'' (map nat_str (release_numbers r))"
  using lower_release [of "release_numbers r"] by (simp add: show_release_def to_lower_def lower_char_def Let_def)

lemma takeWhile_digits [simp]: "takeWhile is_digit (nat_str n) = nat_str n" "dropWhile is_digit (nat_str n) = []"
  using nat_str_digits by (auto intro: takeWhile_eq_all_conv [THEN iffD2])

lemma hd_nat_str [simp]: "is_digit (hd (nat_str n))"
  by (rule nat_str_digits [of _ n]) simp

lemma extractVersion_release:
  "extractVersion ((CHR ''v'' # nat_str a) # [nat_str b, nat_str c]) = ''v'' @ join ''.'' (map nat_str [a, b, c])"
  by (simp add: numeral_2_eq_2)

lemma digits_no_dot: "list_all (\<lambda>x. x \<noteq> CHR ''.'') (nat_str n)"
  using digits_no_sep by (auto simp: list_all_iff)

lemma split_release:
  "split_on (\<lambda>c. c = CHR ''.'') (''v'' @ join ''.'' (map nat_str [a, b, c])) = [CHR ''v'' # nat_str a, nat_str b, nat_str c]"
proof -
  let ?P = "\<lambda>c. c = CHR ''.''"
  have "split_on ?P ((CHR ''v'' # nat_str a) @ CHR ''.'' # (nat_str b @ CHR ''.'' # nat_str c)) = [CHR ''v'' # nat_str a, nat_str b, nat_str c]"
    using split_on_append [of ?P "CHR ''v'' # nat_str a" "CHR ''.''"] split_on_append [of ?P "nat_str b" "CHR ''.''" "nat_str c"]
      split_on_word [of ?P "nat_str c"] digits_no_dot by simp
  then show ?thesis by simp
qed

lemma lower_known_prefixes:
  "map to_lower known_prefixes = [''gmc'', ''gmp'', ''mgmp'', ''gp'', ''mw'', ''aflturocket'', ''afltu'', ''af5xhd'', ''xc'', ''2xc'', ''wa'',
     ''2wa'', ''xm'', ''xw'', ''ti'']"
  "map (\<lambda>pre. to_upper (to_lower pre)) known_prefixes = known_prefixes"
  by code_simp+

lemma known_prefix:
  assumes "pre \<in> set known_prefixes"
  shows "list_all (\<lambda>x. x \<noteq> CHR ''.'') (to_lower pre)" and "to_upper (to_lower pre) = pre" and "platform_of pre \<noteq> None"
    and "\<not> prefix ''v'' (to_lower pre)" and "list_ex (\<lambda>l. l \<in> set (to_lower pre)) [CHR ''x'', CHR ''g'', CHR ''w'', CHR ''a'', CHR ''t'']"
proof -
  have "to_lower pre \<in> set (map to_lower known_prefixes)" using assms by simp
  then show "list_all (\<lambda>x. x \<noteq> CHR ''.'') (to_lower pre)" "\<not> prefix ''v'' (to_lower pre)"
    "list_ex (\<lambda>l. l \<in> set (to_lower pre)) [CHR ''x'', CHR ''g'', CHR ''w'', CHR ''a'', CHR ''t'']"
    unfolding lower_known_prefixes by auto
  show "to_upper (to_lower pre) = pre"
    using lower_known_prefixes(2) assms map_eq_conv [of "\<lambda>pre. to_upper (to_lower pre)" known_prefixes id] by simp
  show "platform_of pre \<noteq> None" using assms by (auto simp: known_prefixes_def platform_of_def)
qed

text \<open>The name of a release's file is read back as its flavor and version.\<close>

lemma parse_release_file:
  assumes "pre \<in> set known_prefixes"
  shows "ff_Flavor (parseFirmwareFilename (release_file pre (Release [a, b, c]))) = pre"
    and "ff_Version (parseFirmwareFilename (release_file pre (Release [a, b, c]))) = show_release True (Release [a, b, c])"
proof -
  let ?n = "release_file pre (Release [a, b, c])" and ?j = "join ''.'' (map nat_str [a, b, c])"
  note pre = known_prefix [OF assms]
  have low: "to_lower ?n = to_lower pre @ ''.'' @ (''v'' @ ?j) @ ''.bin''"
    using lower_release [of "[a, b, c]"]
    by (simp add: release_file_def show_release_def to_lower_def lower_char_def Let_def del: join.simps)
  then have trim: "trim_suffix (to_lower ?n) ''.bin'' = to_lower pre @ ''.'' @ (''v'' @ ?j)"
    by (simp add: trim_suffix_def suffix_def del: join.simps)
  have parts: "split_on (\<lambda>c. c = CHR ''.'') (trim_suffix (to_lower ?n) ''.bin'') = [to_lower pre, CHR ''v'' # nat_str a, nat_str b, nat_str c]"
    unfolding trim using split_on_append [of "\<lambda>c. c = CHR ''.''" "to_lower pre" "CHR ''.''" "''v'' @ ?j"] pre(1) split_release [of a b c] by simp
  have name: "name_prefix ?n = pre" using pre(2) by (simp add: name_prefix_def parts)
  have ver: "extractVersion [to_lower pre, CHR ''v'' # nat_str a, nat_str b, nat_str c] = ''v'' @ ?j"
    using extractVersion_release [of a b c] pre(4) by (simp del: join.simps)
  obtain platform airmax where pl: "platform_of pre = Some (platform, airmax)" using pre(3) by auto
  show "ff_Flavor (parseFirmwareFilename ?n) = pre"
    by (simp add: parseFirmwareFilename_def Let_def name pl)
  show "ff_Version (parseFirmwareFilename ?n) = show_release True (Release [a, b, c])"
    unfolding parseFirmwareFilename_def Let_def name pl parts ver by (simp add: show_release_def)
qed

lemma extract_any_release: "extractVersionFromAnyString (show_release v (Release [a, b, c])) = show_release True (Release [a, b, c])"
proof -
  let ?j = "join ''.'' (map nat_str [a, b, c])"
  note low = lower_show_release [of v "Release [a, b, c]", unfolded release.sel]
  have hd: "is_digit (hd ?j)" "?j \<noteq> []" by simp_all
  have "\<not> is_digit CHR ''v''" by (simp add: is_digit_def)
  then have "extractVersionFromAnyString (show_release v (Release [a, b, c])) = extractVersion (split_on (\<lambda>c. c = CHR ''.'') (''v'' @ ?j))"
    using hd unfolding extractVersionFromAnyString_def trim_release low Let_def by (simp add: show_release_def del: join.simps)
  then show ?thesis unfolding split_release extractVersion_release by (simp add: show_release_def)
qed

lemma last_of_suffix: "suffix (xs @ [c]) ys \<Longrightarrow> last ys = c"
  by (auto simp: suffix_def)

text \<open>
  An upgrade is skipped exactly when the device has the release already. For a device that
  reports a three-part release, with or without the v, and the file of a release under one of
  the known name prefixes, the match test holds exactly when the releases are the same.
\<close>

theorem firmwareMatches_releases:
  assumes "pre \<in> set known_prefixes" and "small_release (Release [a, b, c])" and "small_release (Release [x, y, z])"
  shows "firmwareMatches (show_release v (Release [a, b, c])) (release_file pre (Release [x, y, z])) = ([a, b, c] = [x, y, z])"
proof -
  let ?cur = "show_release v (Release [a, b, c])" and ?file = "release_file pre (Release [x, y, z])"
  have nofold: "\<not> equal_fold ?cur (trim_suffix (trim_suffix ?file ''.bin'') ''.BIN'')"
  proof -
    obtain l where l: "l \<in> set (to_lower pre)" "l \<in> {CHR ''x'', CHR ''g'', CHR ''w'', CHR ''a'', CHR ''t''}"
      using known_prefix(5) [OF assms(1)] by auto
    have t1: "trim_suffix ?file ''.bin'' = pre @ ''.'' @ show_release True (Release [x, y, z])"
      by (simp add: release_file_def trim_suffix_def suffix_def del: append.simps)
    have "last (nat_str z) \<in> set (nat_str z)" by simp
    then have "is_digit (last (nat_str z))" by (rule nat_str_digits)
    then have "last (pre @ ''.'' @ show_release True (Release [x, y, z])) \<noteq> CHR ''N''" by (auto simp: show_release_def is_digit_def)
    then have "\<not> suffix ''.BIN'' (pre @ ''.'' @ show_release True (Release [x, y, z]))" using last_of_suffix [of "''.BI''" "CHR ''N''"] by fastforce
    then have t: "trim_suffix (trim_suffix ?file ''.bin'') ''.BIN'' = pre @ ''.'' @ show_release True (Release [x, y, z])"
      unfolding t1 by (simp add: trim_suffix_def)
    have "l \<notin> set (to_lower ?cur)"
    proof
      assume "l \<in> set (to_lower ?cur)"
      then have "l = CHR ''v'' \<or> l \<in> set (join ''.'' (map nat_str [a, b, c]))"
        unfolding lower_show_release by (auto simp del: join.simps split: if_splits)
      then show False using l(2) show_release_chars [of l "[a, b, c]"] by (auto simp: is_digit_def)
    qed
    moreover have "l \<in> set (to_lower (pre @ ''.'' @ show_release True (Release [x, y, z])))" using l(1) by (auto simp: to_lower_def)
    ultimately show ?thesis unfolding t equal_fold_def by metis
  qed
  have ne': "show_release True r \<noteq> []" for r by (simp add: show_release_def)
  have "firmwareMatches ?cur ?file = (compareVersions (show_release True (Release [a, b, c])) (show_release True (Release [x, y, z])) = 0)"
    unfolding firmwareMatches_def Let_def using nofold
    by (simp add: parse_release_file(2) [OF assms(1)] extract_any_release ne')
  then show ?thesis using releases_compare [OF assms(2,3), of True True] by simp
qed

lemma firmwareMatches_releases_witness:
  "firmwareMatches ''8.7.0'' ''WA.v8.7.0.bin''"
proof -
  have "show_release False (Release [8, 7, 0]) = ''8.7.0''" "release_file ''WA'' (Release [8, 7, 0]) = ''WA.v8.7.0.bin''" by code_simp+
  moreover have "''WA'' \<in> set known_prefixes" "small_release (Release [8, 7, 0])" by (simp_all add: known_prefixes_def small_release_def)
  ultimately show ?thesis using firmwareMatches_releases [of "''WA''" 8 7 0 8 7 0 False] by simp
qed

section \<open>The newest file\<close>

text \<open>The files of a flavor are named by releases, which \<open>rel\<close> gives.\<close>

definition released :: "(FirmwareFile \<Rightarrow> release) \<Rightarrow> string \<Rightarrow> FirmwareFile list \<Rightarrow> bool" where
  "released rel flavor files \<longleftrightarrow>
     list_all (\<lambda>f. \<not> equal_fold (ff_Flavor f) flavor \<or> ff_Version f = show_release True (rel f) \<and> small_release (rel f)) files"

lemma newer_release:
  assumes "small_release (rel f)" "small_release (rel b)" "ff_Version f = show_release True (rel f)" "ff_Version b = show_release True (rel b)"
  shows "compareVersions (ff_Version f) (ff_Version b) > 0 \<longleftrightarrow> rel b < rel f"
  using releases_compare [OF assms(1,2), of True True] unfolding assms(3,4)
  by (metis less_linear less_asym less_irrefl)

lemma select_newest_inv:
  assumes "released rel flavor files"
    and "case best of None \<Rightarrow> True | Some b \<Rightarrow> ff_Version b = show_release True (rel b) \<and> small_release (rel b)"
  shows "case select_newest files flavor best of
      None \<Rightarrow> best = None \<and> list_all (\<lambda>f. \<not> equal_fold (ff_Flavor f) flavor) files
    | Some b \<Rightarrow> (b \<in> set files \<and> equal_fold (ff_Flavor b) flavor \<or> best = Some b)
        \<and> list_all (\<lambda>f. \<not> equal_fold (ff_Flavor f) flavor \<or> rel f \<le> rel b) files
        \<and> (case best of None \<Rightarrow> True | Some b' \<Rightarrow> rel b' \<le> rel b)"
  using assms
proof (induction files arbitrary: best)
  case (Cons f fs)
  have ne: "show_release True r \<noteq> []" for r by (simp add: show_release_def)
  have fs: "released rel flavor fs" using Cons.prems(1) by (simp add: released_def)
  show ?case
  proof (cases "equal_fold (ff_Flavor f) flavor")
    case False
    then have "select_newest (f # fs) flavor best = select_newest fs flavor best" by simp
    then show ?thesis using Cons.IH [OF fs Cons.prems(2)] False by (auto split: option.splits)
  next
    case True
    then have f: "ff_Version f = show_release True (rel f)" "small_release (rel f)" using Cons.prems(1) by (simp_all add: released_def)
    note IHf = Cons.IH [OF fs, of "Some f", simplified, OF conjI [OF f]]
    show ?thesis
    proof (cases best)
      case None
      then show ?thesis using IHf True f ne by (auto split: option.splits)
    next
      case (Some b)
      then have b: "ff_Version b = show_release True (rel b)" "small_release (rel b)" using Cons.prems(2) by simp_all
      note newer = newer_release [of rel f b, OF f(2) b(2) f(1) b(1)]
      show ?thesis
      proof (cases "rel b < rel f")
        case True
        then have "select_newest (f # fs) flavor best = select_newest fs flavor (Some f)"
          using Some \<open>equal_fold (ff_Flavor f) flavor\<close> newer f ne by simp
        then show ?thesis using IHf True Some \<open>equal_fold (ff_Flavor f) flavor\<close> by (auto split: option.splits)
      next
        case False
        then have "select_newest (f # fs) flavor best = select_newest fs flavor best"
          using Some newer by simp
        then show ?thesis using Cons.IH [OF fs Cons.prems(2)] False Some by (auto split: option.splits)
      qed
    qed
  qed
qed (auto split: option.split)

text \<open>
  The chosen file is the newest. When the files of a flavor carry release versions, the file
  chosen for a device of that flavor is one of them and no file of the flavor has a later release;
  no file is chosen only when there is none of the flavor.
\<close>

theorem select_is_newest:
  assumes "released rel flavor files"
  shows "case SelectFirmwareForDevice files flavor of
      None \<Rightarrow> filter (\<lambda>f. equal_fold (ff_Flavor f) flavor) files = []
    | Some b \<Rightarrow> b \<in> set files \<and> equal_fold (ff_Flavor b) flavor
        \<and> filter (\<lambda>f. equal_fold (ff_Flavor f) flavor \<and> rel b < rel f) files = []"
  using select_newest_inv [OF assms, of None]
  by (auto simp: SelectFirmwareForDevice_def list_all_iff filter_empty_conv split: option.splits)

definition gmc_file :: "nat \<Rightarrow> FirmwareFile" where
  "gmc_file n = \<lparr>ff_ID = [], ff_Name = [], ff_RelativePath = [], ff_Path = [], ff_Size = 0, ff_Flavor = ''GMC'', ff_Platform = ''Wave'',
     ff_AirMAX = [], ff_Version = show_release True (Release [8, n, 0])\<rparr>"

lemma select_is_newest_witness:
  "\<exists>b. SelectFirmwareForDevice [gmc_file 9, gmc_file 10] ''gmc'' = Some b \<and> b = gmc_file 10"
proof -
  let ?files = "[gmc_file 9, gmc_file 10]" and ?rel = "\<lambda>f. if f = gmc_file 10 then Release [8, 10, 0] else Release [8, 9, 0]"
  have v: "show_release True (Release [8, 9, 0]) = ''v8.9.0''" "show_release True (Release [8, 10, 0]) = ''v8.10.0''" by code_simp+
  have fold: "equal_fold ''GMC'' ''gmc''" by code_simp
  have ne: "gmc_file 9 \<noteq> gmc_file 10" by (simp add: gmc_file_def v)
  have r: "released ?rel ''gmc'' ?files" using ne by (simp add: released_def small_release_def gmc_file_def v)
  have lt: "Release [8, 9, 0] < Release [8, 10, 0]" by (simp add: less_release_def)
  show ?thesis
    using select_is_newest [OF r] fold ne lt by (auto simp: gmc_file_def [of 9] gmc_file_def [of 10] split: option.splits)
qed

text \<open>
  Two notions of newest. The choice made for scheduled upgrades compares the version strings
  as text and so takes 8.9.0 before 8.10.0, where the choice by versions takes 8.10.0.
\<close>

theorem FindByFlavor_is_textual:
  "FindByFlavor [gmc_file 9, gmc_file 10] ''GMC'' = Some (gmc_file 9)
   \<and> SelectFirmwareForDevice [gmc_file 9, gmc_file 10] ''GMC'' = Some (gmc_file 10)"
proof
  have v: "show_release True (Release [8, 9, 0]) = ''v8.9.0''" "show_release True (Release [8, 10, 0]) = ''v8.10.0''" by code_simp+
  show "FindByFlavor [gmc_file 9, gmc_file 10] ''GMC'' = Some (gmc_file 9)"
    by (simp add: FindByFlavor_def gmc_file_def equal_fold_def v)
  have s: "small_release (Release [8, 10, 0])" "small_release (Release [8, 9, 0])" by (simp_all add: small_release_def)
  have "Release [8, 9, 0] < Release [8, 10, 0]" by (simp add: less_release_def)
  then have "compareVersions ''v8.10.0'' ''v8.9.0'' > 0"
    using releases_compare [OF s, of True True] unfolding v by (auto simp: not_less le_less)
  then show "SelectFirmwareForDevice [gmc_file 9, gmc_file 10] ''GMC'' = Some (gmc_file 10)"
    by (simp add: SelectFirmwareForDevice_def gmc_file_def equal_fold_def v)
qed

end
