(* ===== verification/Codec.thy ===== *)
theory Codec imports Prelude begin

text \<open>
  The byte codecs of Go's standard library the program relies on: base64 with either alphabet,
  padded or raw (package encoding/base64), hexadecimal, and the lexical processing of Unix paths
  (package path/filepath). The laws of base64 are proved once for every alphabet in a locale and
  interpreted on the two alphabets that are in use.
\<close>

section \<open>Base64\<close>

definition url_alphabet :: string where
  "url_alphabet = ''ABCDEFGHIJKLMNOPQRSTUVWXYZabcdefghijklmnopqrstuvwxyz0123456789-_''"

definition std_alphabet :: string where
  "std_alphabet = ''ABCDEFGHIJKLMNOPQRSTUVWXYZabcdefghijklmnopqrstuvwxyz0123456789+/''"

text \<open>The value of a digit, and the byte with a value.\<close>

definition b64_val :: "string \<Rightarrow> char \<Rightarrow> nat option" where
  "b64_val alpha c = map_of (zip alpha [0..<64]) c"

definition byte :: "nat \<Rightarrow> char" where
  "byte n = char_of n"

fun b64_groups :: "string \<Rightarrow> bool \<Rightarrow> string \<Rightarrow> string" where
  "b64_groups alpha pad (a # b # c # rest) =
     (let x = of_char a; y = of_char b; z = of_char c in
      [alpha ! (x div 4), alpha ! (x mod 4 * 16 + y div 16), alpha ! (y mod 16 * 4 + z div 64), alpha ! (z mod 64)]
      @ b64_groups alpha pad rest)"
| "b64_groups alpha pad [a, b] =
     (let x = of_char a; y = of_char b in
      [alpha ! (x div 4), alpha ! (x mod 4 * 16 + y div 16), alpha ! (y mod 16 * 4)] @ (if pad then ''='' else []))"
| "b64_groups alpha pad [a] = (let x = of_char a in [alpha ! (x div 4), alpha ! (x mod 4 * 16)] @ (if pad then ''=='' else []))"
| "b64_groups alpha pad [] = []"

definition b64_encode :: "string \<Rightarrow> bool \<Rightarrow> string \<Rightarrow> string" where
  "b64_encode = b64_groups"

definition b64_byte1 :: "nat \<Rightarrow> nat \<Rightarrow> char" where
  "b64_byte1 v w = byte (v * 4 + w div 16)"

definition b64_byte2 :: "nat \<Rightarrow> nat \<Rightarrow> char" where
  "b64_byte2 w x = byte (w mod 16 * 16 + x div 4)"

definition b64_byte3 :: "nat \<Rightarrow> nat \<Rightarrow> char" where
  "b64_byte3 x y = byte (x mod 4 * 64 + y)"

text \<open>The last group, with its padding or, for a raw encoding, without. Stray bits are ignored.\<close>

definition b64_last2 :: "string \<Rightarrow> char \<Rightarrow> char \<Rightarrow> string option" where
  "b64_last2 alpha a b =
     (case (b64_val alpha a, b64_val alpha b) of (Some v, Some w) \<Rightarrow> Some [b64_byte1 v w] | _ \<Rightarrow> None)"

definition b64_last3 :: "string \<Rightarrow> char \<Rightarrow> char \<Rightarrow> char \<Rightarrow> string option" where
  "b64_last3 alpha a b c =
     (case (b64_val alpha a, b64_val alpha b, b64_val alpha c) of
        (Some v, Some w, Some x) \<Rightarrow> Some [b64_byte1 v w, b64_byte2 w x] | _ \<Rightarrow> None)"

fun b64_ungroup :: "string \<Rightarrow> bool \<Rightarrow> string \<Rightarrow> string option" where
  "b64_ungroup alpha pad (a # b # c # d # rest) =
     (if pad \<and> d = CHR ''='' then
        if rest \<noteq> [] then None else if c = CHR ''='' then b64_last2 alpha a b else b64_last3 alpha a b c
      else case (b64_val alpha a, b64_val alpha b, b64_val alpha c, b64_val alpha d, b64_ungroup alpha pad rest) of
             (Some v, Some w, Some x, Some y, Some bs) \<Rightarrow> Some (b64_byte1 v w # b64_byte2 w x # b64_byte3 x y # bs)
           | _ \<Rightarrow> None)"
| "b64_ungroup alpha pad [a, b, c] = (if pad then None else b64_last3 alpha a b c)"
| "b64_ungroup alpha pad [a, b] = (if pad then None else b64_last2 alpha a b)"
| "b64_ungroup alpha pad [a] = None"
| "b64_ungroup alpha pad [] = Some []"

definition is_newline :: "char \<Rightarrow> bool" where
  "is_newline c \<longleftrightarrow> c = CHR 0x0A \<or> c = CHR 0x0D"

text \<open>Decoding skips line ends, as Go's decoder does.\<close>

definition b64_decode :: "string \<Rightarrow> bool \<Rightarrow> string \<Rightarrow> string option" where
  "b64_decode alpha pad s = b64_ungroup alpha pad (filter (\<lambda>c. \<not> is_newline c) s)"

lemma byte_of_char [simp]: "byte (of_char c) = c"
  by (simp add: byte_def)

locale b64_alphabet =
  fixes alpha :: string
  assumes size: "length alpha = 64"
    and digits: "distinct alpha"
    and plain: "filter (\<lambda>c. is_newline c \<or> is_space c \<or> c = CHR ''='' \<or> c = CHR ''.'') alpha = []"
begin

lemma val_nth [simp]: "i < 64 \<Longrightarrow> b64_val alpha (alpha ! i) = Some i"
  unfolding b64_val_def using map_of_zip_nth [of alpha "[0..<64]" i] size digits by simp

lemma nth_plain:
  assumes "i < 64"
  shows "\<not> is_newline (alpha ! i)" and "alpha ! i \<noteq> CHR ''=''" and "\<not> is_space (alpha ! i)" and "alpha ! i \<noteq> CHR ''.''"
proof -
  have "alpha ! i \<in> set alpha" using assms size by simp
  then show "\<not> is_newline (alpha ! i)" "alpha ! i \<noteq> CHR ''=''" "\<not> is_space (alpha ! i)" "alpha ! i \<noteq> CHR ''.''"
    using plain by (auto simp: filter_empty_conv)
qed

lemma high_bits: "x < 256 \<Longrightarrow> x div 4 < (64 :: nat)" "y < 256 \<Longrightarrow> y div 16 < (16 :: nat)" "z < 256 \<Longrightarrow> z div 64 < (4 :: nat)"
  by (simp_all add: less_mult_imp_div_less)

lemma low_bits: "x mod 4 < (4 :: nat)" "y mod 16 < (16 :: nat)"
  by simp_all

lemma digit_bounds:
  "x < 256 \<Longrightarrow> x div 4 < (64 :: nat)" "y < 256 \<Longrightarrow> x mod 4 * 16 + y div 16 < (64 :: nat)"
  "z < 256 \<Longrightarrow> y mod 16 * 4 + z div 64 < (64 :: nat)" "x mod 4 * 16 < (64 :: nat)" "y mod 16 * 4 < (64 :: nat)"
  using high_bits(1) [of x] high_bits(2) [of y] high_bits(3) [of z] low_bits(1) [of x] low_bits(2) [of y] by linarith+

lemma bytes_back:
  "b64_byte1 (x div 4) (x mod 4 * 16 + y div 16) = byte x" if "y < 256"
  using high_bits(2) [OF that] by (simp add: b64_byte1_def)

lemma bytes_back1: "b64_byte1 (x div 4) (x mod 4 * 16) = byte x"
  using bytes_back [of 0 x] by simp

lemma bytes_back2:
  "b64_byte2 (x mod 4 * 16 + y div 16) (y mod 16 * 4 + z div 64) = byte y" if "y < 256" "z < 256"
  using high_bits(2) [OF that(1)] high_bits(3) [OF that(2)] by (simp add: b64_byte2_def)

lemma bytes_back2': "b64_byte2 (x mod 4 * 16 + y div 16) (y mod 16 * 4) = byte y" if "y < 256"
  using bytes_back2 [of y 0 x] that by simp

lemma bytes_back3: "b64_byte3 (y mod 16 * 4 + z div 64) (z mod 64) = byte z" if "z < 256"
  using high_bits(3) [OF that] by (simp add: b64_byte3_def)

lemmas b64_back = bytes_back bytes_back1 bytes_back2 bytes_back2' bytes_back3

lemma ungroup_cons4:
  assumes "v < 64" "w < 64" "x < 64" "y < 64"
  shows "b64_ungroup alpha pad (alpha ! v # alpha ! w # alpha ! x # alpha ! y # rest)
      = map_option (\<lambda>bs. b64_byte1 v w # b64_byte2 w x # b64_byte3 x y # bs) (b64_ungroup alpha pad rest)"
  using assms nth_plain(2) [OF assms(4)] by (simp split: option.split)

lemma ungroup_groups_gen: "al = alpha \<Longrightarrow> b64_ungroup al pad (b64_groups al pad bs) = Some bs"
proof (induction al pad bs rule: b64_groups.induct)
  case (1 al pad a b c rest)
  have "b64_groups al pad (a # b # c # rest) = alpha ! (of_char a div 4) # alpha ! (of_char a mod 4 * 16 + of_char b div 16)
      # alpha ! (of_char b mod 16 * 4 + of_char c div 64) # alpha ! (of_char c mod 64) # b64_groups alpha pad rest"
    using 1 by (simp add: Let_def)
  then show ?case using 1 by (simp add: ungroup_cons4 digit_bounds b64_back del: b64_ungroup.simps)
next
  case (2 al pad a b)
  then show ?case
    by (cases pad) (simp_all add: Let_def digit_bounds b64_back b64_last3_def nth_plain)
next
  case (3 al pad a)
  then show ?case
    by (cases pad) (simp_all add: Let_def digit_bounds b64_back b64_last2_def nth_plain)
qed simp

lemmas ungroup_groups = ungroup_groups_gen [OF refl]

lemma encoded_chars: "c \<in> set (b64_groups al pad bs) \<Longrightarrow> al = alpha \<Longrightarrow> c \<in> set alpha \<or> pad \<and> c = CHR ''=''"
proof (induction al pad bs rule: b64_groups.induct)
  case (1 al pad a b c' rest)
  then show ?case using size by (auto simp: Let_def digit_bounds intro!: nth_mem)
next
  case (2 al pad a b)
  then show ?case using size by (auto simp: Let_def digit_bounds split: if_splits intro!: nth_mem)
next
  case (3 al pad a)
  then show ?case using size by (auto simp: Let_def digit_bounds split: if_splits intro!: nth_mem)
qed simp

text \<open>What is encoded is decoded again.\<close>

lemma decode_encode: "b64_decode alpha pad (b64_encode alpha pad bs) = Some bs"
proof -
  have "filter (\<lambda>c. \<not> is_newline c) (b64_groups alpha pad bs) = b64_groups alpha pad bs"
    using encoded_chars [of _ alpha pad bs] plain by (auto simp: filter_id_conv filter_empty_conv is_newline_def)
  then show ?thesis by (simp add: b64_decode_def b64_encode_def ungroup_groups)
qed

text \<open>An encoding has no white space at its ends, and no dot.\<close>

lemma encode_plain: "c \<in> set (b64_encode alpha pad bs) \<Longrightarrow> \<not> is_space c \<and> c \<noteq> CHR ''.''"
  using encoded_chars [of c alpha pad bs] plain by (auto simp: b64_encode_def filter_empty_conv is_space_def)

lemma encode_Nil_iff [simp]: "b64_encode alpha pad bs = [] \<longleftrightarrow> bs = []"
  by (cases bs; cases "tl bs"; cases "tl (tl bs)") (auto simp: b64_encode_def Let_def neq_Nil_conv)

end

text \<open>The number of bytes that whole groups decode to; a padded decoding never ends within a group.\<close>

lemma length_group: "length (a # b # c # d # rest) = length rest + 4" "4 dvd n + 4 \<longleftrightarrow> 4 dvd (n :: nat)" "(n + 4) div 4 = n div 4 + 1"
  by (simp_all add: dvd_eq_mod_eq_0)

lemma ungroup_group:
  "b64_ungroup al pad (a # b # c # d # rest) = Some bs \<Longrightarrow> d \<noteq> CHR ''='' \<Longrightarrow>
     \<exists>bs'. b64_ungroup al pad rest = Some bs' \<and> length bs = length bs' + 3"
  by (auto split: option.splits)

lemma ungroup_length:
  "b64_ungroup al pad s = Some bs \<Longrightarrow> CHR ''='' \<notin> set s \<Longrightarrow> 4 dvd length s \<Longrightarrow> length bs = 3 * (length s div 4)"
proof (induction al pad s arbitrary: bs rule: b64_ungroup.induct)
  case (1 al pad a b c d rest)
  then have d: "d \<noteq> CHR ''=''" by auto
  obtain bs' where bs': "b64_ungroup al pad rest = Some bs'" "length bs = length bs' + 3"
    using ungroup_group [OF 1(2) d] by blast
  have "4 dvd length rest" using 1(4) unfolding length_group .
  then have "length bs' = 3 * (length rest div 4)" using 1(1) [OF _ bs'(1)] d 1(3) by simp
  then show ?case unfolding length_group using bs'(2) by simp
qed (simp_all add: dvd_eq_mod_eq_0)

lemma ungroup_padded_length: "b64_ungroup al pad s = Some bs \<Longrightarrow> pad \<Longrightarrow> 4 dvd length s"
proof (induction al pad s arbitrary: bs rule: b64_ungroup.induct)
  case (1 al pad a b c d rest)
  show ?case
  proof (cases "d = CHR ''=''")
    case True
    then show ?thesis using 1(2,3) unfolding length_group by (simp split: if_splits)
  next
    case False
    then obtain bs' where "b64_ungroup al pad rest = Some bs'" using ungroup_group [OF 1(2)] by blast
    then show ?thesis unfolding length_group using 1(1) [of bs'] 1(3) False by simp
  qed
qed simp_all

interpretation url64: b64_alphabet url_alphabet
  by unfold_locales (code_simp+)

interpretation std64: b64_alphabet std_alphabet
  by unfold_locales (code_simp+)

section \<open>Hexadecimal\<close>

definition hex_val :: "char \<Rightarrow> nat option" where
  "hex_val c = map_of (zip ''0123456789abcdefABCDEF'' ([0..<16] @ [10..<16])) c"

fun hex_decode :: "string \<Rightarrow> string option" where
  "hex_decode [] = Some []"
| "hex_decode [c] = None"
| "hex_decode (c # d # rest) =
     (case (hex_val c, hex_val d, hex_decode rest) of (Some v, Some w, Some bs) \<Rightarrow> Some (byte (v * 16 + w) # bs) | _ \<Rightarrow> None)"

definition hex_digits :: string where
  "hex_digits = ''0123456789abcdef''"

definition hex_encode :: "string \<Rightarrow> string" where
  "hex_encode bs = concat (map (\<lambda>b. [hex_digits ! (of_char b div 16), hex_digits ! (of_char b mod 16)]) bs)"

lemma hex_val_nth: "list_all (\<lambda>i. hex_val (hex_digits ! i) = Some i) [0..<16]"
  by code_simp

lemma hex_decode_encode: "hex_decode (hex_encode bs) = Some bs"
proof (induction bs)
  case (Cons b bs)
  have n: "(of_char b :: nat) div 16 < 16" "(of_char b :: nat) mod 16 < 16" by (simp_all add: less_mult_imp_div_less)
  have v: "hex_val (hex_digits ! i) = Some i" if "i < 16" for i using hex_val_nth that by (simp add: list_all_iff)
  show ?case using Cons by (simp add: hex_encode_def v n)
qed (simp add: hex_encode_def)

lemma length_hex_encode [simp]: "length (hex_encode bs) = 2 * length bs"
  by (simp add: hex_encode_def length_concat comp_def sum_list_triv)

lemma hex_encode_chars: "c \<in> set (hex_encode bs) \<Longrightarrow> c \<in> set hex_digits"
proof -
  have "(of_char b :: nat) div 16 < length hex_digits" "(of_char b :: nat) mod 16 < length hex_digits" for b
    by (simp_all add: hex_digits_def less_mult_imp_div_less)
  then show "c \<in> set (hex_encode bs) \<Longrightarrow> c \<in> set hex_digits" by (auto simp: hex_encode_def intro: nth_mem)
qed

section \<open>Unix paths\<close>

definition path_parts :: "string \<Rightarrow> string list" where
  "path_parts p = split_on (\<lambda>c. c = CHR ''/'') p"

definition is_abs :: "string \<Rightarrow> bool" where
  "is_abs p \<longleftrightarrow> prefix ''/'' p"

text \<open>
  One component of a path, with the components kept so far (innermost first): empty and dot
  components disappear, a double dot removes the last one unless there is none to remove.
\<close>

definition clean_part :: "bool \<Rightarrow> string \<Rightarrow> string list \<Rightarrow> string list" where
  "clean_part rooted p kept =
     (if p = [] \<or> p = ''.'' then kept
      else if p = ''..'' then
        (case kept of
           [] \<Rightarrow> if rooted then [] else [''..'']
         | k # ks \<Rightarrow> if k = ''..'' then ''..'' # kept else ks)
      else p # kept)"

definition path_clean :: "string \<Rightarrow> string" where
  "path_clean p =
     (let rooted = is_abs p; kept = rev (fold (clean_part rooted) (path_parts p) []) in
      if rooted then ''/'' @ join ''/'' kept else if kept = [] then ''.'' else join ''/'' kept)"

definition path_base :: "string \<Rightarrow> string" where
  "path_base p =
     (if p = [] then ''.''
      else let q = rev (dropWhile (\<lambda>c. c = CHR ''/'') (rev p)) in if q = [] then ''/'' else last (path_parts q))"

definition path_ext :: "string \<Rightarrow> string" where
  "path_ext p =
     (let name = last (path_parts p); t = takeWhile (\<lambda>c. c \<noteq> CHR ''.'') (rev name) in
      if length t = length name then [] else CHR ''.'' # rev t)"

definition path_join :: "string \<Rightarrow> string \<Rightarrow> string" where
  "path_join dir rel = (if dir = ''/'' then ''/'' @ rel else dir @ ''/'' @ rel)"

text \<open>A path below a directory as a directory walk reports it: no empty, dot or double dot component.\<close>

definition walked :: "string \<Rightarrow> bool" where
  "walked rel \<longleftrightarrow> list_all (\<lambda>p. p \<noteq> [] \<and> p \<noteq> ''.'' \<and> p \<noteq> ''..'') (path_parts rel)"

lemma split_on_nonempty [simp]: "split_on P s \<noteq> []"
  by (induction s) (auto split: list.split)

lemma join_split_on: "join [x] (split_on (\<lambda>c. c = x) s) = s"
proof (induction s)
  case (Cons c s)
  obtain w ws where w: "split_on (\<lambda>c. c = x) s = w # ws" by (meson neq_Nil_conv split_on_nonempty)
  then show ?case using Cons by (cases ws) auto
qed simp

lemma fold_clean_walked: "list_all (\<lambda>p. p \<noteq> [] \<and> p \<noteq> ''.'' \<and> p \<noteq> ''..'') ps \<Longrightarrow> fold (clean_part r) ps kept = rev ps @ kept"
  by (induction ps arbitrary: kept) (simp_all add: clean_part_def)

lemma walked_relative:
  assumes "walked rel"
  shows "\<not> is_abs rel" and "rel \<noteq> ''.''" and "\<not> prefix ''../'' rel"
proof -
  obtain w ws where w: "path_parts rel = w # ws" by (cases "path_parts rel") (simp_all add: path_parts_def)
  then have p: "w \<noteq> []" "w \<noteq> ''.''" "w \<noteq> ''..''" using assms by (simp_all add: walked_def)
  show "\<not> is_abs rel"
  proof
    assume "is_abs rel"
    then obtain s where "rel = CHR ''/'' # s" by (auto simp: is_abs_def prefix_def)
    then show False using p(1) w by (simp add: path_parts_def)
  qed
  show "rel \<noteq> ''.''" using p(2) w by (auto simp: path_parts_def)
  show "\<not> prefix ''../'' rel"
  proof
    assume "prefix ''../'' rel"
    then obtain s where "rel = ''../'' @ s" by (auto simp: prefix_def)
    then show False using p(3) w by (simp add: path_parts_def)
  qed
qed

lemma path_clean_walked: "walked rel \<Longrightarrow> path_clean rel = rel"
  using walked_relative [of rel] fold_clean_walked [of "path_parts rel" False "[]"]
  by (simp add: path_clean_def walked_def Let_def path_parts_def join_split_on)

end
