(* ===== verification/FirmwareFiles.thy ===== *)
theory FirmwareFiles imports FirmwareVersions Codec begin

text \<open>
  The firmware directory (src/internal/firmware/service.go): the listing, the references clients
  name files by, and saving and deleting files. The directory is the list of what a walk reports
  below its root; the operating system may refuse every call.
\<close>

section \<open>Listing\<close>

record dir_entry =
  de_rel :: string
  de_regular :: bool
  de_size :: int

text \<open>
  An entry is what the walk reports: its path below the root, whether it is a regular file (not a
  directory, a link or a device) and its size. The root resolves to nothing, to an error, or to a
  directory with its entries.
\<close>

datatype firmware_root = RootMissing | RootError string | RootDir string "dir_entry list"

datatype ref_error = RefRequired | RefInvalid | RefNotFound | RefAmbiguous | RefIO string

definition getFirmwarePath :: "string \<Rightarrow> string" where
  "getFirmwarePath setting = (if setting = [] then ''firmware'' else setting)"

text \<open>What the path of the setting resolves to is the operating system's answer.\<close>

definition canonicalFirmwareRoot :: "(string \<Rightarrow> firmware_root) \<Rightarrow> string \<Rightarrow> firmware_root" where
  "canonicalFirmwareRoot os setting =
     (let path = trim_space (getFirmwarePath setting) in if path = [] then RootError ''firmware_path setting is empty'' else os path)"

definition encodeFirmwareID :: "string \<Rightarrow> string" where
  "encodeFirmwareID rel = ''fw_'' @ b64_encode url_alphabet False rel"

definition decodeFirmwareID :: "string \<Rightarrow> string option" where
  "decodeFirmwareID ref =
     (if \<not> prefix ''fw_'' ref then None
      else case b64_decode url_alphabet False (trim_prefix ref ''fw_'') of
             None \<Rightarrow> None | Some d \<Rightarrow> if d = [] then None else Some d)"

definition is_bin :: "string \<Rightarrow> bool" where
  "is_bin name = equal_fold (path_ext name) ''.bin''"

definition listed_file :: "string \<Rightarrow> string \<Rightarrow> int \<Rightarrow> FirmwareFile" where
  "listed_file dir rel sz =
     (parseFirmwareFilename (path_base rel))\<lparr>ff_ID := encodeFirmwareID rel, ff_RelativePath := rel, ff_Path := path_join dir rel, ff_Size := sz\<rparr>"

definition firmware_rows :: "string \<Rightarrow> dir_entry list \<Rightarrow> FirmwareFile list" where
  "firmware_rows dir entries =
     sort_key ff_RelativePath
       (map (\<lambda>e. listed_file dir (de_rel e) (de_size e)) (filter (\<lambda>e. is_bin (path_base (de_rel e)) \<and> de_regular e) entries))"

definition ListFirmware :: "firmware_root \<Rightarrow> ref_error + FirmwareFile list" where
  "ListFirmware r =
     (case r of RootMissing \<Rightarrow> Inr [] | RootError e \<Rightarrow> Inl (RefIO e) | RootDir dir entries \<Rightarrow> Inr (firmware_rows dir entries))"

definition ListFirmwarePublic :: "firmware_root \<Rightarrow> ref_error + FirmwareFile list" where
  "ListFirmwarePublic r = (case ListFirmware r of Inl e \<Rightarrow> Inl e | Inr files \<Rightarrow> Inr (map (\<lambda>f. f\<lparr>ff_Path := []\<rparr>) files))"

section \<open>References\<close>

definition resolve_in :: "FirmwareFile list \<Rightarrow> string \<Rightarrow> ref_error + FirmwareFile" where
  "resolve_in files reference =
     (case decodeFirmwareID reference of
        Some rel0 \<Rightarrow>
          (let rel = path_clean rel0 in
           if rel = ''.'' \<or> prefix ''../'' rel \<or> is_abs rel then Inl RefInvalid
           else case find (\<lambda>f. ff_RelativePath f = rel) files of None \<Rightarrow> Inl RefNotFound | Some f \<Rightarrow> Inr f)
      | None \<Rightarrow>
          (case filter (\<lambda>f. ff_RelativePath f = reference \<or> ff_Name f = reference) files of
             [] \<Rightarrow> Inl RefNotFound | [f] \<Rightarrow> Inr f | _ \<Rightarrow> Inl RefAmbiguous))"

definition resolveFirmwareReference :: "firmware_root \<Rightarrow> string \<Rightarrow> ref_error + FirmwareFile" where
  "resolveFirmwareReference r reference0 =
     (let reference = trim_space reference0 in
      if reference = [] then Inl RefRequired
      else case ListFirmware r of Inl e \<Rightarrow> Inl e | Inr files \<Rightarrow> resolve_in files reference)"

definition ResolveFirmwarePath :: "firmware_root \<Rightarrow> string \<Rightarrow> ref_error + string" where
  "ResolveFirmwarePath r reference = (case resolveFirmwareReference r reference of Inl e \<Rightarrow> Inl e | Inr f \<Rightarrow> Inr (ff_Path f))"

definition GetFirmwareInfo :: "firmware_root \<Rightarrow> string \<Rightarrow> ref_error + FirmwareFile" where
  "GetFirmwareInfo = resolveFirmwareReference"

definition GetFirmwareFilePath :: "firmware_root \<Rightarrow> string \<Rightarrow> ref_error + string" where
  "GetFirmwareFilePath = ResolveFirmwarePath"

section \<open>Deleting and saving\<close>

text \<open>Removing the path of a listed file removes the entry below the root; the call may fail.\<close>

definition remove_path :: "string \<Rightarrow> string \<Rightarrow> dir_entry list \<Rightarrow> dir_entry list" where
  "remove_path dir path entries = delete_where (\<lambda>e. path_join dir (de_rel e) = path) entries"

definition DeleteFirmware :: "firmware_root \<Rightarrow> string option \<Rightarrow> string \<Rightarrow> firmware_root \<times> ref_error option" where
  "DeleteFirmware r os_error reference =
     (case resolveFirmwareReference r reference of
        Inl e \<Rightarrow> (r, Some e)
      | Inr f \<Rightarrow>
          (case os_error of
             Some e \<Rightarrow> (r, Some (RefIO e))
           | None \<Rightarrow>
               (case r of RootDir dir entries \<Rightarrow> (RootDir dir (remove_path dir (ff_Path f) entries), None) | _ \<Rightarrow> (r, None))))"

text \<open>An upload: its length in bytes, and which of the calls that write it fail.\<close>

record upload =
  up_length :: int
  up_open_fails :: bool
  up_copy_fails :: bool
  up_sync_fails :: bool
  up_close_fails :: bool

definition maxFirmwareSize :: int where
  "maxFirmwareSize = 2 ^ 30"

datatype save_error = BadName | BadExtension | BadRoot string | AlreadyExists | CreateFailed | WriteFailed | TooLarge

definition valid_name :: "string \<Rightarrow> bool" where
  "valid_name name0 \<longleftrightarrow>
     (let originalName = trim_space name0; name = path_base originalName in
      \<not> (originalName = [] \<or> name = ''.'' \<or> name = ''..'' \<or> name \<noteq> originalName \<or> contains_any originalName [CHR ''/'', CHR 0x5C]))"

text \<open>
  A missing directory is created, under the name \<open>created\<close> unless that fails. The file is opened exclusively: an
  existing entry of the name refuses it, and after a failure the new file is removed again.
\<close>

definition SaveFirmware :: "string option \<Rightarrow> firmware_root \<Rightarrow> string \<Rightarrow> upload \<Rightarrow> firmware_root \<times> (save_error + FirmwareFile)" where
  "SaveFirmware created r name0 u =
     (let name = path_base (trim_space name0) in
      if \<not> valid_name name0 then (r, Inl BadName)
      else if \<not> equal_fold (path_ext name) ''.bin'' then (r, Inl BadExtension)
      else case (case (r, created) of (RootMissing, Some dir) \<Rightarrow> RootDir dir [] | _ \<Rightarrow> r) of
             RootError e \<Rightarrow> (r, Inl (BadRoot e))
           | RootMissing \<Rightarrow> (r, Inl (BadRoot []))
           | RootDir dir entries \<Rightarrow>
               (let sz = min (up_length u) (maxFirmwareSize + 1) in
                if list_ex (\<lambda>e. de_rel e = name) entries then (RootDir dir entries, Inl AlreadyExists)
                else if up_open_fails u then (RootDir dir entries, Inl CreateFailed)
                else if up_copy_fails u then (RootDir dir entries, Inl WriteFailed)
                else if sz > maxFirmwareSize then (RootDir dir entries, Inl TooLarge)
                else if up_sync_fails u \<or> up_close_fails u then (RootDir dir entries, Inl WriteFailed)
                else (RootDir dir (entries @ [\<lparr>de_rel = name, de_regular = True, de_size = sz\<rparr>]),
                      Inr ((parseFirmwareFilename name)\<lparr>ff_ID := encodeFirmwareID name, ff_RelativePath := name,
                             ff_Path := path_join dir name, ff_Size := sz\<rparr>))))"

section \<open>A well-formed directory\<close>

text \<open>Entries are named once each, by the paths a walk reports.\<close>

definition entries_ok :: "dir_entry list \<Rightarrow> bool" where
  "entries_ok entries \<longleftrightarrow> list_all (\<lambda>e. walked (de_rel e)) entries \<and> distinct (map de_rel entries)"

lemma listed_file_sel [simp]:
  "ff_RelativePath (listed_file dir rel sz) = rel" "ff_ID (listed_file dir rel sz) = encodeFirmwareID rel"
  "ff_Path (listed_file dir rel sz) = path_join dir rel" "ff_Size (listed_file dir rel sz) = sz"
  by (simp_all add: listed_file_def)

lemma find_by_key: "distinct (map g xs) \<Longrightarrow> x \<in> set xs \<Longrightarrow> find (\<lambda>y. g y = g x) xs = Some x"
  by (induction xs) (auto simp: rev_image_eqI)

lemma in_firmware_rows:
  "f \<in> set (firmware_rows dir entries) \<longleftrightarrow>
     (\<exists>e \<in> set entries. is_bin (path_base (de_rel e)) \<and> de_regular e \<and> f = listed_file dir (de_rel e) (de_size e))"
  by (auto simp: firmware_rows_def)

lemma distinct_rows: "entries_ok entries \<Longrightarrow> distinct (map ff_RelativePath (firmware_rows dir entries))"
proof -
  assume "entries_ok entries"
  then have d: "distinct (map de_rel entries)" by (simp add: entries_ok_def)
  let ?L = "map (\<lambda>e. listed_file dir (de_rel e) (de_size e)) (filter (\<lambda>e. is_bin (path_base (de_rel e)) \<and> de_regular e) entries)"
  have m: "map ff_RelativePath ?L = map de_rel (filter (\<lambda>e. is_bin (path_base (de_rel e)) \<and> de_regular e) entries)" by simp
  have "distinct (map ff_RelativePath ?L)" unfolding m using d by (rule distinct_map_filter)
  then show ?thesis unfolding firmware_rows_def by (simp only: distinct_map distinct_sort set_sort)
qed

lemma walked_nonempty: "walked rel \<Longrightarrow> rel \<noteq> []"
  by (auto simp: walked_def path_parts_def)

lemma decode_encodeFirmwareID: "rel \<noteq> [] \<Longrightarrow> decodeFirmwareID (encodeFirmwareID rel) = Some rel"
  by (simp add: decodeFirmwareID_def encodeFirmwareID_def trim_prefix_def url64.decode_encode)

lemma trim_encodeFirmwareID: "trim_space (encodeFirmwareID rel) = encodeFirmwareID rel"
proof (rule trim_space_id, unfold list_all_iff, intro ballI)
  fix c assume "c \<in> set (encodeFirmwareID rel)"
  then have "c \<in> set ''fw_'' \<or> c \<in> set (b64_encode url_alphabet False rel)" by (auto simp: encodeFirmwareID_def)
  then show "\<not> is_space c" using url64.encode_plain [of c False rel] by (auto simp: is_space_def)
qed

lemma resolve_listed:
  assumes "entries_ok entries" and "f \<in> set (firmware_rows dir entries)"
  shows "resolveFirmwareReference (RootDir dir entries) (ff_ID f) = Inr f"
proof -
  obtain e where e: "e \<in> set entries" "f = listed_file dir (de_rel e) (de_size e)" using assms(2) in_firmware_rows by blast
  then have w: "walked (de_rel e)" using assms(1) by (simp add: entries_ok_def list_all_iff)
  have ne: "encodeFirmwareID (de_rel e) \<noteq> []" by (simp add: encodeFirmwareID_def)
  have "find (\<lambda>y. ff_RelativePath y = ff_RelativePath f) (firmware_rows dir entries) = Some f"
    using distinct_rows [OF assms(1)] assms(2) by (rule find_by_key)
  then have "resolve_in (firmware_rows dir entries) (encodeFirmwareID (de_rel e)) = Inr f"
    using walked_relative [OF w] w
    by (simp add: resolve_in_def decode_encodeFirmwareID walked_nonempty path_clean_walked e(2))
  then show ?thesis
    using ne by (simp add: resolveFirmwareReference_def trim_encodeFirmwareID ListFirmware_def e(2))
qed

lemma resolve_in_member: "resolve_in files reference = Inr f \<Longrightarrow> f \<in> set files"
  unfolding resolve_in_def
  by (auto simp: Let_def split: option.splits if_splits list.splits dest!: find_Some_in)
    (metis filter_eq_ConsD in_set_conv_decomp)

section \<open>References name exactly the listed files\<close>

text \<open>
  The id of a listed file names that file. For a directory as a walk reports it, decoding
  and cleaning the id of any listed file finds the file it was made from.
\<close>

theorem reference_roundtrip:
  assumes "entries_ok entries" and "ListFirmware (RootDir dir entries) = Inr files" and "f \<in> set files"
  shows "resolveFirmwareReference (RootDir dir entries) (ff_ID f) = Inr f"
  using resolve_listed [OF assms(1)] assms(2,3) by (simp add: ListFirmware_def)

definition two_files :: "dir_entry list" where
  "two_files = [\<lparr>de_rel = ''old/WA.v8.7.0.bin'', de_regular = True, de_size = 5\<rparr>, \<lparr>de_rel = ''WA.v8.7.1.bin'', de_regular = True, de_size = 6\<rparr>]"

lemma two_files_ok: "entries_ok two_files" "is_bin (path_base ''WA.v8.7.1.bin'')" "is_bin (path_base ''old/WA.v8.7.0.bin'')"
  by code_simp+

lemma reference_roundtrip_witness:
  "resolveFirmwareReference (RootDir ''/fw'' two_files) (encodeFirmwareID ''old/WA.v8.7.0.bin'')
   = Inr (listed_file ''/fw'' ''old/WA.v8.7.0.bin'' 5)"
  using reference_roundtrip [OF two_files_ok(1), of "''/fw''" "firmware_rows ''/fw'' two_files" "listed_file ''/fw'' ''old/WA.v8.7.0.bin'' 5"]
    two_files_ok(3) by (simp add: ListFirmware_def in_firmware_rows two_files_def)

text \<open>C18. No reference leads out of the firmware directory. Whatever text a client sends, the path
  it resolves to is the root joined with the path of a regular .bin entry of the walk, without any
  double-dot component.
\<close>

theorem reference_stays_below:
  assumes "entries_ok entries" and "ResolveFirmwarePath (RootDir dir entries) reference = Inr path"
  shows "\<exists>e. e \<in> set entries \<and> de_regular e \<and> is_bin (path_base (de_rel e)) \<and> path = path_join dir (de_rel e)
    \<and> walked (de_rel e)"
proof -
  obtain f where f: "f \<in> set (firmware_rows dir entries)" "path = ff_Path f"
    using assms(2) resolve_in_member
    by (fastforce simp: ResolveFirmwarePath_def resolveFirmwareReference_def ListFirmware_def Let_def split: sum.splits if_splits)
  then show ?thesis using assms(1) by (force simp: in_firmware_rows entries_ok_def list_all_iff)
qed

lemma reference_stays_below_witness:
  "\<exists>path. ResolveFirmwarePath (RootDir ''/fw'' two_files) (encodeFirmwareID ''old/WA.v8.7.0.bin'') = Inr path
     \<and> (\<exists>e. e \<in> set two_files \<and> path = path_join ''/fw'' (de_rel e))"
proof -
  have "listed_file ''/fw'' ''old/WA.v8.7.0.bin'' 5 \<in> set (firmware_rows ''/fw'' two_files)"
    using two_files_ok(3) by (simp add: in_firmware_rows two_files_def)
  then obtain p where "ResolveFirmwarePath (RootDir ''/fw'' two_files) (encodeFirmwareID ''old/WA.v8.7.0.bin'') = Inr p"
    using resolve_listed [OF two_files_ok(1)] by (fastforce simp: ResolveFirmwarePath_def)
  then show ?thesis using reference_stays_below [OF two_files_ok(1)] by blast
qed

section \<open>Saving and deleting\<close>

lemma valid_name_walked:
  assumes "valid_name name0" and "is_bin (path_base (trim_space name0))"
  shows "walked (path_base (trim_space name0))" and "path_base (path_base (trim_space name0)) = path_base (trim_space name0)"
proof -
  let ?n = "path_base (trim_space name0)"
  have n: "?n = trim_space name0" "?n \<noteq> []" "?n \<noteq> ''.''" "?n \<noteq> ''..''" "CHR ''/'' \<notin> set ?n"
    using assms(1) by (auto simp: valid_name_def Let_def contains_any_def list_ex_iff)
  then have "path_parts ?n = [?n]" unfolding path_parts_def by (intro split_on_word) (auto simp: list_all_iff)
  then show "walked ?n" using n by (simp add: walked_def)
  show "path_base ?n = ?n" using n(1) by simp
qed

lemma path_join_inject [simp]: "path_join dir a = path_join dir b \<longleftrightarrow> a = b"
  by (simp add: path_join_def)

lemma SaveFirmware_InrE:
  assumes "SaveFirmware created r name0 u = (r', Inr f)"
  obtains dir entries where "(case (r, created) of (RootMissing, Some dir) \<Rightarrow> RootDir dir [] | _ \<Rightarrow> r) = RootDir dir entries"
    and "valid_name name0" and "is_bin (path_base (trim_space name0))" and "path_base (trim_space name0) \<notin> de_rel ` set entries"
    and "up_length u \<le> maxFirmwareSize"
    and "r' = RootDir dir (entries @ [\<lparr>de_rel = path_base (trim_space name0), de_regular = True, de_size = up_length u\<rparr>])"
    and "f = (parseFirmwareFilename (path_base (trim_space name0)))\<lparr>ff_ID := encodeFirmwareID (path_base (trim_space name0)),
           ff_RelativePath := path_base (trim_space name0), ff_Path := path_join dir (path_base (trim_space name0)), ff_Size := up_length u\<rparr>"
proof -
  note S = assms [unfolded SaveFirmware_def Let_def]
  obtain dir entries where d: "(case (r, created) of (RootMissing, Some dir) \<Rightarrow> RootDir dir [] | _ \<Rightarrow> r) = RootDir dir entries"
    using S by (auto split: if_splits firmware_root.splits)
  have v: "valid_name name0" "is_bin (path_base (trim_space name0))" using S by (auto simp: is_bin_def split: if_splits)
  have b: "\<not> list_ex (\<lambda>e. de_rel e = path_base (trim_space name0)) entries" "\<not> up_open_fails u" "\<not> up_copy_fails u"
    "\<not> min (up_length u) (maxFirmwareSize + 1) > maxFirmwareSize" "\<not> (up_sync_fails u \<or> up_close_fails u)"
    using S v unfolding d is_bin_def by (auto split: if_splits)
  have len: "up_length u \<le> maxFirmwareSize" "min (up_length u) (maxFirmwareSize + 1) = up_length u" using b(4) by auto
  show thesis
  proof (rule that [OF d v _ len(1)])
    show "path_base (trim_space name0) \<notin> de_rel ` set entries" using b(1) by (auto simp: list_ex_iff)
    show "r' = RootDir dir (entries @ [\<lparr>de_rel = path_base (trim_space name0), de_regular = True, de_size = up_length u\<rparr>])"
      and "f = (parseFirmwareFilename (path_base (trim_space name0)))\<lparr>ff_ID := encodeFirmwareID (path_base (trim_space name0)),
           ff_RelativePath := path_base (trim_space name0), ff_Path := path_join dir (path_base (trim_space name0)), ff_Size := up_length u\<rparr>"
      using S v b len(2) unfolding d is_bin_def by simp_all
  qed
qed

text \<open>The files of a root.\<close>

definition root_ok :: "firmware_root \<Rightarrow> bool" where
  "root_ok r = (case r of RootDir dir entries \<Rightarrow> entries_ok entries | _ \<Rightarrow> True)"

definition root_files :: "firmware_root \<Rightarrow> FirmwareFile list" where
  "root_files r = (case ListFirmware r of Inr files \<Rightarrow> files | Inl _ \<Rightarrow> [])"

text \<open>A saved file is there, and only it is new. After a successful upload the directory is
  well formed again, the returned description resolves from its id, its size is that of the upload
  and within the limit, and the rest of the listing is what it was.
\<close>

theorem save_then_resolve:
  assumes "root_ok r" and "SaveFirmware created r name0 u = (r', Inr f)"
  shows "root_ok r' \<and> resolveFirmwareReference r' (ff_ID f) = Inr f \<and> ff_Size f = up_length u \<and> up_length u \<le> 2 ^ 30
    \<and> filter (\<lambda>g. g \<noteq> f) (root_files r') = root_files r \<and> f \<in> set (root_files r')"
  using assms(2)
proof (rule SaveFirmware_InrE)
  fix dir entries
  let ?n = "path_base (trim_space name0)" and ?e = "\<lparr>de_rel = path_base (trim_space name0), de_regular = True, de_size = up_length u\<rparr>"
  assume d: "(case (r, created) of (RootMissing, Some dir) \<Rightarrow> RootDir dir [] | _ \<Rightarrow> r) = RootDir dir entries"
    and v: "valid_name name0" "is_bin ?n" and new: "?n \<notin> de_rel ` set entries" and len: "up_length u \<le> maxFirmwareSize"
    and r': "r' = RootDir dir (entries @ [?e])"
    and f: "f = (parseFirmwareFilename ?n)\<lparr>ff_ID := encodeFirmwareID ?n, ff_RelativePath := ?n, ff_Path := path_join dir ?n, ff_Size := up_length u\<rparr>"
  have w: "walked ?n" "path_base ?n = ?n" using valid_name_walked [OF v] .
  have f': "f = listed_file dir (de_rel ?e) (de_size ?e)" using w(2) by (simp add: f listed_file_def)
  have ok: "entries_ok entries" and old: "root_files r = firmware_rows dir entries"
    using assms(1) d by (auto simp: root_ok_def root_files_def ListFirmware_def entries_ok_def firmware_rows_def
        split: firmware_root.splits option.splits)
  have ok': "entries_ok (entries @ [?e])" using ok new w(1) by (auto simp: entries_ok_def)
  have mem: "f \<in> set (firmware_rows dir (entries @ [?e]))" unfolding in_firmware_rows f' using v(2) w(2) by auto
  have no: "filter (\<lambda>g. g \<noteq> f) (map (\<lambda>e. listed_file dir (de_rel e) (de_size e)) (filter (\<lambda>e. is_bin (path_base (de_rel e)) \<and> de_regular e) entries))
      = map (\<lambda>e. listed_file dir (de_rel e) (de_size e)) (filter (\<lambda>e. is_bin (path_base (de_rel e)) \<and> de_regular e) entries)"
  proof (rule filter_True, intro ballI)
    fix g assume "g \<in> set (map (\<lambda>e. listed_file dir (de_rel e) (de_size e)) (filter (\<lambda>e. is_bin (path_base (de_rel e)) \<and> de_regular e) entries))"
    then have "ff_RelativePath g \<in> de_rel ` set entries" by auto
    then show "g \<noteq> f" using new by (auto simp: f)
  qed
  have "filter (\<lambda>g. g \<noteq> f) (firmware_rows dir (entries @ [?e])) = firmware_rows dir entries"
    using no f' unfolding firmware_rows_def filter_sort by simp
  then show ?thesis
    using ok' mem resolve_listed [OF ok' mem] len old
    by (simp add: r' root_ok_def root_files_def ListFirmware_def f maxFirmwareSize_def)
qed

definition small_upload :: upload where
  "small_upload = \<lparr>up_length = 9, up_open_fails = False, up_copy_fails = False, up_sync_fails = False, up_close_fails = False\<rparr>"

lemma save_then_resolve_witness:
  "\<exists>r' f. SaveFirmware None (RootDir ''/fw'' two_files) ''XC.v1.2.3.bin'' small_upload = (r', Inr f)
     \<and> resolveFirmwareReference r' (ff_ID f) = Inr f"
proof -
  have "valid_name ''XC.v1.2.3.bin''" "equal_fold (path_ext (path_base (trim_space ''XC.v1.2.3.bin''))) ''.bin''"
    "path_base (trim_space ''XC.v1.2.3.bin'') = ''XC.v1.2.3.bin''" by code_simp+
  then obtain r' f where s: "SaveFirmware None (RootDir ''/fw'' two_files) ''XC.v1.2.3.bin'' small_upload = (r', Inr f)"
    by (simp add: SaveFirmware_def Let_def two_files_def small_upload_def maxFirmwareSize_def)
  have "root_ok (RootDir ''/fw'' two_files)" using two_files_ok(1) by (simp add: root_ok_def)
  from save_then_resolve [OF this s] s show ?thesis by blast
qed

text \<open>
  Deleting removes exactly the file named. When a deletion succeeds, the reference resolved
  to a listed file, the listing has lost that file and nothing else, and its id no longer resolves.
\<close>

theorem delete_exact:
  assumes "entries_ok entries" and "DeleteFirmware (RootDir dir entries) os_error reference = (r', None)"
  shows "\<exists>f. resolveFirmwareReference (RootDir dir entries) reference = Inr f
    \<and> root_files r' = filter (\<lambda>g. g \<noteq> f) (firmware_rows dir entries) \<and> resolveFirmwareReference r' (ff_ID f) = Inl RefNotFound"
proof -
  let ?L = "\<lambda>e. listed_file dir (de_rel e) (de_size e)" and ?B = "\<lambda>e. is_bin (path_base (de_rel e)) \<and> de_regular e"
  obtain f where f: "resolveFirmwareReference (RootDir dir entries) reference = Inr f" "r' = RootDir dir (remove_path dir (ff_Path f) entries)"
    using assms(2) by (auto simp: DeleteFirmware_def split: sum.splits option.splits)
  then have "f \<in> set (firmware_rows dir entries)"
    using resolve_in_member by (fastforce simp: resolveFirmwareReference_def ListFirmware_def Let_def split: sum.splits if_splits)
  then obtain e where e: "e \<in> set entries" "?B e" "f = ?L e" using in_firmware_rows by blast
  have same: "?L x = f \<longleftrightarrow> de_rel x = de_rel e" if "x \<in> set entries" for x
  proof
    assume "de_rel x = de_rel e"
    then have "x = e" using assms(1) e(1) that distinct_map_eq by (auto simp: entries_ok_def)
    then show "?L x = f" using e(3) by simp
  qed (use e(3) in \<open>metis listed_file_sel(1)\<close>)
  have "filter (\<lambda>g. g \<noteq> f) (map ?L (filter ?B entries)) = map ?L (filter ?B (filter (\<lambda>x. de_rel x \<noteq> de_rel e) entries))"
    using same by (simp add: filter_map comp_def) (intro arg_cong [where f = "map ?L"] filter_cong, auto)
  then have rows: "firmware_rows dir (remove_path dir (ff_Path f) entries) = filter (\<lambda>g. g \<noteq> f) (firmware_rows dir entries)"
    unfolding firmware_rows_def filter_sort by (simp add: remove_path_def delete_where_def e(3))
  have w: "walked (de_rel e)" using assms(1) e(1) by (simp add: entries_ok_def list_all_iff)
  have none: "find (\<lambda>g. ff_RelativePath g = de_rel e) (firmware_rows dir (remove_path dir (ff_Path f) entries)) = None"
    by (auto simp: find_None_iff_set in_firmware_rows remove_path_def delete_where_def e(3))
  have "resolve_in (firmware_rows dir (remove_path dir (ff_Path f) entries)) (ff_ID f) = Inl RefNotFound"
    using walked_relative [OF w] none w
    by (simp add: resolve_in_def e(3) decode_encodeFirmwareID walked_nonempty path_clean_walked)
  moreover have "ff_ID f \<noteq> []" by (simp add: e(3) encodeFirmwareID_def)
  ultimately have "resolveFirmwareReference r' (ff_ID f) = Inl RefNotFound"
    by (simp add: f(2) resolveFirmwareReference_def ListFirmware_def e(3) trim_encodeFirmwareID)
  then show ?thesis using f rows by (auto simp: root_files_def ListFirmware_def)
qed

lemma delete_exact_witness:
  "\<exists>r'. DeleteFirmware (RootDir ''/fw'' two_files) None (encodeFirmwareID ''old/WA.v8.7.0.bin'') = (r', None)
     \<and> (\<exists>f. root_files r' = filter (\<lambda>g. g \<noteq> f) (firmware_rows ''/fw'' two_files))"
proof -
  have "listed_file ''/fw'' ''old/WA.v8.7.0.bin'' 5 \<in> set (firmware_rows ''/fw'' two_files)"
    using two_files_ok(3) by (simp add: in_firmware_rows two_files_def)
  from resolve_listed [OF two_files_ok(1) this]
  obtain r' where d: "DeleteFirmware (RootDir ''/fw'' two_files) None (encodeFirmwareID ''old/WA.v8.7.0.bin'') = (r', None)"
    by (simp add: DeleteFirmware_def)
  from delete_exact [OF two_files_ok(1) d] d show ?thesis by blast
qed

end
