(* ===== verification/Secrets.thy ===== *)
theory Secrets imports Codec begin

text \<open>
  Encryption of stored credentials (src/internal/secrets/manager.go): the data key, the stored form
  of a secret, and the migration of a database that still holds plain ones. The cipher (AES-256-GCM,
  package crypto/cipher) and the random source are parameters.
\<close>

section \<open>The data key\<close>

datatype secret_error = KeyRequired | KeyLength | NonceFailed | BadEncoding | TruncatedValue | OpenFailed | DbFailed

fun first_key :: "(string \<Rightarrow> string option) list \<Rightarrow> string \<Rightarrow> string option" where
  "first_key [] s = None"
| "first_key (decode # ds) s = (case decode s of Some b \<Rightarrow> if length b = 32 then Some b else first_key ds s | None \<Rightarrow> first_key ds s)"

definition decodeKey :: "string \<Rightarrow> secret_error + string" where
  "decodeKey s =
     (if s = [] then Inl KeyRequired
      else case first_key [b64_decode std_alphabet True, b64_decode std_alphabet False, hex_decode] s of
             Some b \<Rightarrow> Inr b | None \<Rightarrow> Inl KeyLength)"

text \<open>The cipher with a key: the nonce size, sealing and opening.\<close>

record aead =
  nonce_size :: nat
  seal :: "string \<Rightarrow> string \<Rightarrow> string"
  unseal :: "string \<Rightarrow> string \<Rightarrow> string option"

definition New :: "(string \<Rightarrow> aead) \<Rightarrow> string \<Rightarrow> secret_error + aead" where
  "New cipher encodedKey = (case decodeKey (trim_space encodedKey) of Inl e \<Rightarrow> Inl e | Inr key \<Rightarrow> Inr (cipher key))"

section \<open>Encrypting and decrypting\<close>

definition enc_prefix :: string where
  "enc_prefix = ''enc:v1:''"

definition IsEncrypted :: "string \<Rightarrow> bool" where
  "IsEncrypted value = prefix enc_prefix value"

text \<open>The random source gives a nonce of the cipher's size, or fails.\<close>

definition Encrypt :: "aead \<Rightarrow> string option \<Rightarrow> string \<Rightarrow> secret_error + string" where
  "Encrypt m nonce plaintext =
     (if plaintext = [] then Inr []
      else case nonce of
             None \<Rightarrow> Inl NonceFailed
           | Some n \<Rightarrow> Inr (enc_prefix @ b64_encode std_alphabet False (n @ seal m n plaintext)))"

definition Decrypt :: "aead \<Rightarrow> string \<Rightarrow> secret_error + string" where
  "Decrypt m value =
     (if value = [] \<or> \<not> IsEncrypted value then Inr value
      else case b64_decode std_alphabet False (trim_prefix value enc_prefix) of
             None \<Rightarrow> Inl BadEncoding
           | Some buf \<Rightarrow>
               (if length buf < nonce_size m then Inl TruncatedValue
                else case unseal m (take (nonce_size m) buf) (drop (nonce_size m) buf) of
                       None \<Rightarrow> Inl OpenFailed | Some plain \<Rightarrow> Inr plain))"

definition encryptForMigration :: "aead \<Rightarrow> string option \<Rightarrow> string \<Rightarrow> secret_error + string" where
  "encryptForMigration m nonce value =
     (if value = [] then Inr []
      else if IsEncrypted value then (case Decrypt m value of Inl e \<Rightarrow> Inl e | Inr _ \<Rightarrow> Inr value)
      else Encrypt m nonce value)"

definition secretSettingKeys :: "string list" where
  "secretSettingKeys =
     [''ap_cred1_pass'', ''ap_cred2_pass'', ''ap_cred3_pass'', ''sta_cred1_pass'', ''sta_cred2_pass'', ''sta_cred3_pass'',
      ''ap_passwords'', ''sta_passwords'', ''default_passwords'', ''default_password'', ''default_sta_password'', ''smtp_password'',
      ''sysmon_alerter_token'']"

definition IsSecretSetting :: "string \<Rightarrow> bool" where
  "IsSecretSetting key \<longleftrightarrow> to_lower (trim_space key) \<in> set secretSettingKeys"

section \<open>Migrating a database\<close>

text \<open>
  The columns that hold secrets, by primary key: two tables that may be missing, the devices and
  the settings. A failing statement of a table, of the checks or of the commit is a branch.
\<close>

record secret_db =
  sd_devices :: "(int \<times> string) list"
  sd_drilldown :: "(int \<times> string) list option"
  sd_settings :: "(string \<times> string) list"
  sd_creds :: "(int \<times> string) list option"

datatype stage = OnBegin | OnDevices | OnDrilldown | OnSettings | OnCreds | OnCommit

text \<open>The loop over the rows that \<open>want\<close> names and that are not empty; each sealing takes the next nonce.\<close>

fun migrate_rows :: "aead \<Rightarrow> ('k \<Rightarrow> bool) \<Rightarrow> (nat \<Rightarrow> string option) \<Rightarrow> nat \<Rightarrow> ('k \<times> string) list \<Rightarrow> secret_error + ('k \<times> string) list \<times> nat" where
  "migrate_rows m want rnd i [] = Inr ([], i)"
| "migrate_rows m want rnd i ((k, v) # rows) =
     (if \<not> want k \<or> v = [] then (case migrate_rows m want rnd i rows of Inl e \<Rightarrow> Inl e | Inr (rs, j) \<Rightarrow> Inr ((k, v) # rs, j))
      else case encryptForMigration m (rnd i) v of
             Inl e \<Rightarrow> Inl e
           | Inr enc \<Rightarrow> (case migrate_rows m want rnd (Suc i) rows of Inl e \<Rightarrow> Inl e | Inr (rs, j) \<Rightarrow> Inr ((k, enc) # rs, j)))"

definition migrate_optional ::
  "aead \<Rightarrow> (nat \<Rightarrow> string option) \<Rightarrow> nat \<Rightarrow> (int \<times> string) list option \<Rightarrow> secret_error + (int \<times> string) list option \<times> nat" where
  "migrate_optional m rnd i tbl =
     (case tbl of
        None \<Rightarrow> Inr (None, i)
      | Some rows \<Rightarrow> (case migrate_rows m (\<lambda>_. True) rnd i rows of Inl e \<Rightarrow> Inl e | Inr (rs, j) \<Rightarrow> Inr (Some rs, j)))"

definition MigrateDatabase :: "aead \<Rightarrow> (nat \<Rightarrow> string option) \<Rightarrow> (stage \<Rightarrow> bool) \<Rightarrow> secret_db \<Rightarrow> secret_error + secret_db" where
  "MigrateDatabase m rnd down db =
     (if down OnBegin \<or> down OnDevices then Inl DbFailed
      else case migrate_rows m (\<lambda>_. True) rnd 0 (sd_devices db) of
        Inl e \<Rightarrow> Inl e
      | Inr (devices, i) \<Rightarrow>
          (if down OnDrilldown then Inl DbFailed
           else case migrate_optional m rnd i (sd_drilldown db) of
             Inl e \<Rightarrow> Inl e
           | Inr (drilldown, j) \<Rightarrow>
               (if down OnSettings then Inl DbFailed
                else case migrate_rows m IsSecretSetting rnd j (sd_settings db) of
                  Inl e \<Rightarrow> Inl e
                | Inr (settings, k) \<Rightarrow>
                    (if down OnCreds then Inl DbFailed
                     else case migrate_optional m rnd k (sd_creds db) of
                       Inl e \<Rightarrow> Inl e
                     | Inr (creds, _) \<Rightarrow>
                         (if down OnCommit then Inl DbFailed
                          else Inr \<lparr>sd_devices = devices, sd_drilldown = drilldown, sd_settings = settings, sd_creds = creds\<rparr>)))))"

text \<open>The transaction: an error leaves the database as it was.\<close>

definition migrate_tx :: "aead \<Rightarrow> (nat \<Rightarrow> string option) \<Rightarrow> (stage \<Rightarrow> bool) \<Rightarrow> secret_db \<Rightarrow> secret_db" where
  "migrate_tx m rnd down db = (case MigrateDatabase m rnd down db of Inl _ \<Rightarrow> db | Inr db' \<Rightarrow> db')"

section \<open>Round trips\<close>

lemma raw_length: "length bs = 3 * k + 2 \<Longrightarrow> length (b64_groups al False bs) = 4 * k + 3"
proof (induction al False bs arbitrary: k rule: b64_groups.induct)
  case (1 al a b c rest)
  then obtain k' where "k = Suc k'" by (cases k) auto
  then show ?case using 1(1) [where k = k'] 1(2) by (simp add: Let_def)
qed (simp_all add: Let_def)

lemma no_newlines: "list_all (\<lambda>c. \<not> is_newline c) s \<Longrightarrow> filter (\<lambda>c. \<not> is_newline c) s = s"
  by (simp add: filter_id_conv list_all_iff)

lemma hex_digits_plain: "list_all (\<lambda>c. \<not> is_newline c \<and> c \<noteq> CHR ''='') hex_digits"
  by code_simp

lemma hex_not_base64:
  assumes "length k = 32" and "b64_decode std_alphabet pad (hex_encode k) = Some b"
  shows "length b \<noteq> 32"
proof -
  have p: "list_all (\<lambda>c. \<not> is_newline c \<and> c \<noteq> CHR ''='') (hex_encode k)"
    using hex_digits_plain hex_encode_chars [of _ k] by (auto simp: list_all_iff)
  then have "b64_ungroup std_alphabet pad (hex_encode k) = Some b" "CHR ''='' \<notin> set (hex_encode k)"
    using assms(2) no_newlines [of "hex_encode k"] by (auto simp: b64_decode_def list_all_iff)
  then show ?thesis using ungroup_length [of std_alphabet pad "hex_encode k" b] assms(1) by simp
qed

lemma raw_not_padded:
  assumes "length k = 32" shows "b64_decode std_alphabet True (b64_encode std_alphabet False k) = None"
proof (rule ccontr)
  assume "b64_decode std_alphabet True (b64_encode std_alphabet False k) \<noteq> None"
  then obtain b where b: "b64_decode std_alphabet True (b64_encode std_alphabet False k) = Some b" by auto
  have "list_all (\<lambda>c. \<not> is_newline c) (b64_encode std_alphabet False k)"
    using std64.encode_plain [of _ False k] by (auto simp: list_all_iff is_newline_def is_space_def)
  then have "4 dvd length (b64_encode std_alphabet False k)"
    using b ungroup_padded_length [of std_alphabet True] by (simp add: b64_decode_def no_newlines)
  then show False using raw_length [of k 10 std_alphabet] assms by (simp add: b64_encode_def)
qed

text \<open>The three spellings of a data key name the same key. A key of 32 bytes is read back
  from padded base64, from raw base64 and from hexadecimal, although each of the texts is offered
  to the base64 decoders first.
\<close>

theorem data_key_spellings:
  assumes "length k = 32"
  shows "decodeKey (b64_encode std_alphabet True k) = Inr k \<and> decodeKey (b64_encode std_alphabet False k) = Inr k
    \<and> decodeKey (hex_encode k) = Inr k"
proof (intro conjI)
  have k: "k \<noteq> []" using assms by auto
  show "decodeKey (b64_encode std_alphabet True k) = Inr k"
    using k assms by (simp add: decodeKey_def std64.decode_encode)
  show "decodeKey (b64_encode std_alphabet False k) = Inr k"
    using k assms raw_not_padded [OF assms] by (simp add: decodeKey_def std64.decode_encode)
  have "hex_encode k \<noteq> []" using k by (auto simp: hex_encode_def)
  then show "decodeKey (hex_encode k) = Inr k"
    using hex_not_base64 [OF assms, of True] hex_not_base64 [OF assms, of False] assms
    by (auto simp: decodeKey_def hex_decode_encode split: option.split)
qed

lemma data_key_spellings_witness: "decodeKey (hex_encode (replicate 32 CHR ''k'')) = Inr (replicate 32 CHR ''k'')"
  using data_key_spellings [of "replicate 32 CHR ''k''"] by simp

text \<open>What is relied on of the cipher and of the random source.\<close>

definition opens_sealed :: "aead \<Rightarrow> bool" where
  "opens_sealed m \<longleftrightarrow> (\<forall>n p. length n = nonce_size m \<longrightarrow> unseal m n (seal m n p) = Some p)"

definition nonces_sized :: "aead \<Rightarrow> (nat \<Rightarrow> string option) \<Rightarrow> bool" where
  "nonces_sized m rnd \<longleftrightarrow> (\<forall>i n. rnd i = Some n \<longrightarrow> length n = nonce_size m)"

lemma trim_enc_prefix [simp]: "trim_prefix (enc_prefix @ s) enc_prefix = s"
  by (simp add: trim_prefix_def)

lemma encrypt_decrypts:
  assumes "opens_sealed m" and "case nonce of None \<Rightarrow> True | Some n \<Rightarrow> length n = nonce_size m" and "Encrypt m nonce p = Inr e"
  shows "Decrypt m e = Inr p" and "e = [] \<or> IsEncrypted e" and "p \<noteq> [] \<Longrightarrow> IsEncrypted e"
proof -
  show "Decrypt m e = Inr p"
  proof (cases "p = []")
    case False
    then obtain n where n: "nonce = Some n" "e = enc_prefix @ b64_encode std_alphabet False (n @ seal m n p)"
      using assms(3) by (auto simp: Encrypt_def split: option.splits)
    then have "IsEncrypted e" by (simp add: IsEncrypted_def)
    moreover have "enc_prefix \<noteq> []" by (simp add: enc_prefix_def)
    ultimately show ?thesis using n assms(1,2) by (simp add: Decrypt_def std64.decode_encode opens_sealed_def)
  qed (use assms(3) in \<open>simp add: Encrypt_def Decrypt_def\<close>)
  show "e = [] \<or> IsEncrypted e" "p \<noteq> [] \<Longrightarrow> IsEncrypted e"
    using assms(3) by (auto simp: Encrypt_def IsEncrypted_def split: option.splits if_splits)
qed

text \<open>A cipher that seals nothing, for examples.\<close>

definition open_cipher :: aead where
  "open_cipher = \<lparr>nonce_size = 2, seal = (\<lambda>n p. p), unseal = (\<lambda>n c. Some c)\<rparr>"

lemma open_cipher_ok: "opens_sealed open_cipher" "nonces_sized open_cipher (\<lambda>_. Some ''00'')"
  by (simp_all add: opens_sealed_def nonces_sized_def open_cipher_def)

text \<open>
  Whatever is encrypted is decrypted to the same text, passwords that look like a stored
  secret included, and the stored form is recognised as encrypted.
\<close>

theorem decrypt_encrypt:
  assumes "opens_sealed m" and "length n = nonce_size m" and "Encrypt m (Some n) p = Inr e" and "p \<noteq> []"
  shows "Decrypt m e = Inr p \<and> IsEncrypted e"
  using encrypt_decrypts [OF assms(1) _ assms(3)] assms(2,4) by simp

lemma decrypt_encrypt_witness:
  "\<exists>e. Encrypt open_cipher (Some ''00'') ''enc:v1:pw'' = Inr e \<and> Decrypt open_cipher e = Inr ''enc:v1:pw''"
proof -
  obtain e where e: "Encrypt open_cipher (Some ''00'') ''enc:v1:pw'' = Inr e" by (simp add: Encrypt_def)
  show ?thesis using decrypt_encrypt [OF open_cipher_ok(1) _ e] e by (auto simp: open_cipher_def)
qed

section \<open>What a migration does\<close>

text \<open>A stored value and its replacement mean the same secret, and the replacement is encrypted.\<close>

definition same_secret :: "aead \<Rightarrow> ('k \<Rightarrow> bool) \<Rightarrow> 'k \<times> string \<Rightarrow> 'k \<times> string \<Rightarrow> bool" where
  "same_secret m want r r' \<longleftrightarrow>
     fst r' = fst r \<and> Decrypt m (snd r') = Decrypt m (snd r)
     \<and> (if want (fst r) \<and> snd r \<noteq> [] then IsEncrypted (snd r') \<and> (\<exists>p. Decrypt m (snd r') = Inr p) else snd r' = snd r)"

fun opt_all2 :: "('a \<Rightarrow> 'a \<Rightarrow> bool) \<Rightarrow> 'a option \<Rightarrow> 'a option \<Rightarrow> bool" where
  "opt_all2 P None None \<longleftrightarrow> True"
| "opt_all2 P (Some a) (Some b) \<longleftrightarrow> P a b"
| "opt_all2 P _ _ \<longleftrightarrow> False"

definition migrated :: "aead \<Rightarrow> secret_db \<Rightarrow> secret_db \<Rightarrow> bool" where
  "migrated m db db' \<longleftrightarrow>
     list_all2 (same_secret m (\<lambda>_. True)) (sd_devices db) (sd_devices db')
     \<and> opt_all2 (list_all2 (same_secret m (\<lambda>_. True))) (sd_drilldown db) (sd_drilldown db')
     \<and> list_all2 (same_secret m IsSecretSetting) (sd_settings db) (sd_settings db')
     \<and> opt_all2 (list_all2 (same_secret m (\<lambda>_. True))) (sd_creds db) (sd_creds db')"

lemma encryptForMigration_same:
  assumes "opens_sealed m" and "nonces_sized m rnd" and "encryptForMigration m (rnd i) v = Inr e" and "v \<noteq> []"
  shows "Decrypt m e = Decrypt m v" and "IsEncrypted e" and "\<exists>p. Decrypt m e = Inr p"
proof -
  have n: "case rnd i of None \<Rightarrow> True | Some n \<Rightarrow> length n = nonce_size m" using assms(2) by (auto simp: nonces_sized_def split: option.split)
  have "Decrypt m e = Decrypt m v \<and> IsEncrypted e \<and> (\<exists>p. Decrypt m e = Inr p)"
  proof (cases "IsEncrypted v")
    case True
    then obtain p where "Decrypt m v = Inr p" "e = v" using assms(3,4) by (auto simp: encryptForMigration_def split: sum.splits)
    then show ?thesis using True by auto
  next
    case False
    then have "Encrypt m (rnd i) v = Inr e" using assms(3,4) by (simp add: encryptForMigration_def)
    note enc = encrypt_decrypts [OF assms(1) n this]
    then show ?thesis using False assms(4) by (auto simp: Decrypt_def [of m v])
  qed
  then show "Decrypt m e = Decrypt m v" "IsEncrypted e" "\<exists>p. Decrypt m e = Inr p" by blast+
qed

lemma migrate_rows_same:
  assumes "opens_sealed m" and "nonces_sized m rnd"
  shows "migrate_rows m want rnd i rows = Inr (rs, j) \<Longrightarrow> list_all2 (same_secret m want) rows rs"
proof (induction rows arbitrary: i rs j)
  case (Cons r rows)
  obtain k v where r: "r = (k, v)" by (cases r)
  show ?case
  proof (cases "\<not> want k \<or> v = []")
    case True
    then obtain rs' where "rs = (k, v) # rs'" "migrate_rows m want rnd i rows = Inr (rs', j)"
      using Cons.prems r by (auto split: sum.splits)
    then show ?thesis using Cons.IH True r by (auto simp: same_secret_def)
  next
    case False
    then obtain e rs' where e: "encryptForMigration m (rnd i) v = Inr e" "rs = (k, e) # rs'" "migrate_rows m want rnd (Suc i) rows = Inr (rs', j)"
      using Cons.prems r by (auto split: sum.splits)
    then show ?thesis
      using Cons.IH encryptForMigration_same [OF assms e(1)] False r by (auto simp: same_secret_def)
  qed
qed simp

lemma migrate_optional_same:
  assumes "opens_sealed m" and "nonces_sized m rnd" and "migrate_optional m rnd i tbl = Inr (tbl', j)"
  shows "opt_all2 (list_all2 (same_secret m (\<lambda>_. True))) tbl tbl'"
  using assms migrate_rows_same [OF assms(1,2)] by (cases tbl) (auto simp: migrate_optional_def split: sum.splits)

text \<open>A successful migration went through every table, in the order of the code.\<close>

lemma MigrateDatabase_InrE:
  assumes "MigrateDatabase m rnd down db = Inr db'"
  obtains i j k l where "migrate_rows m (\<lambda>_. True) rnd 0 (sd_devices db) = Inr (sd_devices db', i)"
    and "migrate_optional m rnd i (sd_drilldown db) = Inr (sd_drilldown db', j)"
    and "migrate_rows m IsSecretSetting rnd j (sd_settings db) = Inr (sd_settings db', k)"
    and "migrate_optional m rnd k (sd_creds db) = Inr (sd_creds db', l)"
  using assms by (auto simp: MigrateDatabase_def split: if_splits sum.splits prod.splits)

lemma MigrateDatabase_same:
  assumes "opens_sealed m" and "nonces_sized m rnd" and "MigrateDatabase m rnd down db = Inr db'"
  shows "migrated m db db'"
  using assms(3)
  by (elim MigrateDatabase_InrE)
    (simp add: migrated_def migrate_rows_same [OF assms(1,2)] migrate_optional_same [OF assms(1,2)])

text \<open>Values that are encrypted under the key are left alone.\<close>

definition sealed_row :: "aead \<Rightarrow> ('k \<Rightarrow> bool) \<Rightarrow> 'k \<times> string \<Rightarrow> bool" where
  "sealed_row m want r \<longleftrightarrow> \<not> want (fst r) \<or> snd r = [] \<or> IsEncrypted (snd r) \<and> (\<exists>p. Decrypt m (snd r) = Inr p)"

lemma same_secret_sealed: "same_secret m want r r' \<Longrightarrow> sealed_row m want r'"
  unfolding same_secret_def sealed_row_def by (cases "want (fst r) \<and> snd r \<noteq> []") (simp_all, metis)

lemma list_all2_sealed: "list_all2 (same_secret m want) rows rs \<Longrightarrow> list_all (sealed_row m want) rs"
  by (induction rule: list_all2_induct) (simp_all add: same_secret_sealed)

lemma migrate_rows_sealed: "list_all (sealed_row m want) rows \<Longrightarrow> \<exists>j. migrate_rows m want rnd i rows = Inr (rows, j)"
proof (induction rows arbitrary: i)
  case (Cons r rows)
  obtain k v where r: "r = (k, v)" by (cases r)
  have "\<exists>j. migrate_rows m want rnd i rows = Inr (rows, j)" "\<exists>j. migrate_rows m want rnd (Suc i) rows = Inr (rows, j)"
    using Cons by simp_all
  moreover have "encryptForMigration m (rnd i) v = Inr v" if "want k" "v \<noteq> []"
    using that Cons.prems r by (auto simp: sealed_row_def encryptForMigration_def)
  ultimately show ?case using r by auto
qed simp

lemma migrate_optional_sealed:
  "opt_all2 (list_all2 (same_secret m (\<lambda>_. True))) tbl0 tbl \<Longrightarrow> \<exists>j. migrate_optional m rnd i tbl = Inr (tbl, j)"
proof (cases tbl)
  case (Some b)
  assume "opt_all2 (list_all2 (same_secret m (\<lambda>_. True))) tbl0 tbl"
  then have "list_all (sealed_row m (\<lambda>_. True)) b" using Some by (cases tbl0) (simp_all add: list_all2_sealed)
  then obtain j where "migrate_rows m (\<lambda>_. True) rnd i b = Inr (b, j)" using migrate_rows_sealed by blast
  then show ?thesis using Some by (simp add: migrate_optional_def)
qed (simp add: migrate_optional_def)

text \<open>C11. A migration keeps every secret and leaves none in the clear. After a successful one each
  stored secret of every table, the secret settings included, is encrypted and decrypts to what the
  old value decrypted to; keys, empty values and the other settings are as they were. Running it
  again changes nothing, whatever the random source gives.
\<close>

theorem migration_keeps_secrets:
  assumes "opens_sealed m" and "nonces_sized m rnd" and "MigrateDatabase m rnd down db = Inr db'"
  shows "migrated m db db' \<and> MigrateDatabase m rnd' (\<lambda>_. False) db' = Inr db'"
proof
  show mig: "migrated m db db'" by (rule MigrateDatabase_same [OF assms])
  obtain i where i: "migrate_rows m (\<lambda>_. True) rnd' 0 (sd_devices db') = Inr (sd_devices db', i)"
    using migrate_rows_sealed list_all2_sealed mig unfolding migrated_def by blast
  obtain j where j: "migrate_optional m rnd' i (sd_drilldown db') = Inr (sd_drilldown db', j)"
    using migrate_optional_sealed mig unfolding migrated_def by blast
  obtain k where k: "migrate_rows m IsSecretSetting rnd' j (sd_settings db') = Inr (sd_settings db', k)"
    using migrate_rows_sealed list_all2_sealed mig unfolding migrated_def by blast
  obtain l where l: "migrate_optional m rnd' k (sd_creds db') = Inr (sd_creds db', l)"
    using migrate_optional_sealed mig unfolding migrated_def by blast
  show "MigrateDatabase m rnd' (\<lambda>_. False) db' = Inr db'"
    by (simp add: MigrateDatabase_def i j k l)
qed

definition example_secret_db :: secret_db where
  "example_secret_db = \<lparr>sd_devices = [(7, ''pw''), (8, [])], sd_drilldown = None, sd_settings = [(''smtp_password'', ''x''), (''a'', ''b'')], sd_creds = None\<rparr>"

lemma migration_keeps_secrets_witness:
  "\<exists>db'. MigrateDatabase open_cipher (\<lambda>_. Some ''00'') (\<lambda>_. False) example_secret_db = Inr db' \<and> migrated open_cipher example_secret_db db'
     \<and> sd_settings db' \<noteq> sd_settings example_secret_db"
proof -
  have s: "IsSecretSetting ''smtp_password''" "\<not> IsSecretSetting ''a''" "\<not> IsEncrypted ''x''" "\<not> IsEncrypted ''pw''" by code_simp+
  obtain db' where db': "MigrateDatabase open_cipher (\<lambda>_. Some ''00'') (\<lambda>_. False) example_secret_db = Inr db'"
    "sd_settings db' \<noteq> sd_settings example_secret_db"
    using s by (simp add: MigrateDatabase_def example_secret_db_def encryptForMigration_def Encrypt_def migrate_optional_def enc_prefix_def)
  then show ?thesis using migration_keeps_secrets [OF open_cipher_ok db'(1)] by blast
qed

text \<open>
  Migration fails closed. When some stored device secret is marked as encrypted and cannot
  be opened with the key, the migration reports an error and changes nothing.
\<close>

theorem migration_fails_closed:
  assumes "(k, v) \<in> set (sd_devices db)" and "IsEncrypted v" and "Decrypt m v = Inl e"
  shows "(\<exists>err. MigrateDatabase m rnd down db = Inl err) \<and> migrate_tx m rnd down db = db"
proof -
  have ne: "v \<noteq> []" using assms(2) by (auto simp: IsEncrypted_def enc_prefix_def)
  have "\<exists>err. migrate_rows m (\<lambda>_. True) rnd i rows = Inl err" if "(k, v) \<in> set rows" for i and rows :: "(int \<times> string) list"
    using that
  proof (induction rows arbitrary: i)
    case (Cons r rows)
    have f: "encryptForMigration m n v = Inl e" for n using assms(2,3) ne by (simp add: encryptForMigration_def)
    show ?case
    proof (cases "r = (k, v)")
      case False
      then have "(k, v) \<in> set rows" using Cons.prems by auto
      then obtain e1 e2 where "migrate_rows m (\<lambda>_. True) rnd i rows = Inl e1" "migrate_rows m (\<lambda>_. True) rnd (Suc i) rows = Inl e2"
        using Cons.IH by meson
      then show ?thesis by (cases r) (auto split: sum.split)
    qed (use f ne in simp)
  qed simp
  then obtain err where "migrate_rows m (\<lambda>_. True) rnd 0 (sd_devices db) = Inl err" using assms(1) by blast
  then show ?thesis by (auto simp: MigrateDatabase_def migrate_tx_def)
qed

lemma migration_fails_closed_witness:
  "migrate_tx open_cipher (\<lambda>_. None) (\<lambda>_. False) (example_secret_db\<lparr>sd_devices := [(7, ''enc:v1:?'')]\<rparr>)
   = example_secret_db\<lparr>sd_devices := [(7, ''enc:v1:?'')]\<rparr>"
proof -
  have "IsEncrypted ''enc:v1:?''" "Decrypt open_cipher ''enc:v1:?'' = Inl BadEncoding" by code_simp+
  then show ?thesis using migration_fails_closed [of 7 "''enc:v1:?''" "example_secret_db\<lparr>sd_devices := [(7, ''enc:v1:?'')]\<rparr>"] by simp
qed

end
