(* ===== verification/FirmwareUpgrade.thy ===== *)
theory FirmwareUpgrade imports FirmwareFiles Secrets begin

text \<open>
  Firmware upgrades (src/internal/firmware/service.go): the configured credentials, the upgrade of
  one device with the job it records, and the operations over several devices. Error values are
  their texts, since the code inspects them. What a radio answers is a parameter of each upgrade.
\<close>

section \<open>Credentials\<close>

record Credential =
  cr_user :: string
  cr_pass :: string

fun dedupe_loop :: "Credential list \<Rightarrow> string list \<Rightarrow> Credential list" where
  "dedupe_loop [] seen = []"
| "dedupe_loop (c # cs) seen =
     (let user = trim_space (cr_user c); key = user @ [CHR 0x00] @ cr_pass c in
      if user = [] \<or> cr_pass c = [] then dedupe_loop cs seen
      else if key \<in> set seen then dedupe_loop cs seen
      else c\<lparr>cr_user := user\<rparr> # dedupe_loop cs (key # seen))"

definition dedupeCredentials :: "Credential list \<Rightarrow> Credential list" where
  "dedupeCredentials cs = dedupe_loop cs []"

definition secret_text :: "secret_error \<Rightarrow> string" where
  "secret_text e = (case e of BadEncoding \<Rightarrow> ''decode encrypted value'' | TruncatedValue \<Rightarrow> ''encrypted value is truncated'' | _ \<Rightarrow> ''decrypt value'')"

definition decryptSecret :: "aead option \<Rightarrow> string \<Rightarrow> string + string" where
  "decryptSecret store value =
     (case store of
        None \<Rightarrow> Inr value
      | Some m \<Rightarrow> if value = [] then Inr value else (case Decrypt m value of Inl e \<Rightarrow> Inl (secret_text e) | Inr p \<Rightarrow> Inr p))"

text \<open>The settings table: a read fails, or gives the value of a key (empty for a missing row).\<close>

type_synonym settings_reader = "string \<Rightarrow> string + string"

definition credential_slot :: "settings_reader \<Rightarrow> aead option \<Rightarrow> string \<Rightarrow> nat \<Rightarrow> string + Credential list" where
  "credential_slot settings store pre i =
     (let userKey = pre @ ''_cred'' @ nat_str i @ ''_user''; passKey = pre @ ''_cred'' @ nat_str i @ ''_pass'' in
      case settings userKey of
        Inl e \<Rightarrow> Inl (''read '' @ userKey @ '': '' @ e)
      | Inr user0 \<Rightarrow>
          (case settings passKey of
             Inl e \<Rightarrow> Inl (''read '' @ passKey @ '': '' @ e)
           | Inr stored \<Rightarrow>
               (let user = trim_space user0 in
                if user = [] \<or> stored = [] then Inr []
                else case decryptSecret store stored of
                       Inl e \<Rightarrow> Inl (''decrypt '' @ passKey @ '': '' @ e)
                     | Inr pass \<Rightarrow> Inr (if pass = [] then [] else [\<lparr>cr_user = user, cr_pass = pass\<rparr>]))))"

definition readCredentialPairs :: "settings_reader \<Rightarrow> aead option \<Rightarrow> string \<Rightarrow> string + Credential list" where
  "readCredentialPairs settings store pre =
     (case try_fold (\<lambda>i pairs. case credential_slot settings store pre i of Inl e \<Rightarrow> Inl e | Inr cs \<Rightarrow> Inr (pairs @ cs)) [1, 2, 3] [] of
        Inl e \<Rightarrow> Inl e | Inr pairs \<Rightarrow> Inr (dedupeCredentials pairs))"

text \<open>The decoding of the stored JSON list of passwords is a parameter.\<close>

definition readLegacyCredentialPairs ::
  "settings_reader \<Rightarrow> aead option \<Rightarrow> (string \<Rightarrow> string + string list) \<Rightarrow> string \<Rightarrow> string + Credential list" where
  "readLegacyCredentialPairs settings store json pre =
     (case settings (pre @ ''_username'') of
        Inl e \<Rightarrow> Inl e
      | Inr username0 \<Rightarrow>
          (case settings (pre @ ''_passwords'') of
             Inl e \<Rightarrow> Inl e
           | Inr stored \<Rightarrow>
               (let username = trim_space username0 in
                if username = [] \<or> stored = [] then Inr []
                else case decryptSecret store stored of
                       Inl e \<Rightarrow> Inl e
                     | Inr plain \<Rightarrow>
                         (case json plain of
                            Inl e \<Rightarrow> Inl (''parse '' @ pre @ ''_passwords: '' @ e)
                          | Inr passwords \<Rightarrow>
                              Inr (dedupeCredentials (map (\<lambda>p. \<lparr>cr_user = username, cr_pass = p\<rparr>) (filter (\<lambda>p. p \<noteq> []) passwords)))))))"

record fw_service =
  fs_ap :: "Credential list"
  fs_sta :: "Credential list"
  fs_secret :: "aead option"

definition role_credentials ::
  "settings_reader \<Rightarrow> aead option \<Rightarrow> (string \<Rightarrow> string + string list) \<Rightarrow> string \<Rightarrow> string \<Rightarrow> string + Credential list" where
  "role_credentials settings store json pre name =
     (case readCredentialPairs settings store pre of
        Inl e \<Rightarrow> Inl (''load '' @ name @ '' credentials: '' @ e)
      | Inr [] \<Rightarrow>
          (case readLegacyCredentialPairs settings store json pre of
             Inl e \<Rightarrow> Inl (''load legacy '' @ name @ '' credentials: '' @ e) | Inr cs \<Rightarrow> Inr cs)
      | Inr cs \<Rightarrow> Inr cs)"

definition loadConfig ::
  "settings_reader \<Rightarrow> (string \<Rightarrow> string + string list) \<Rightarrow> fw_service \<Rightarrow> fw_service \<times> string option" where
  "loadConfig settings json s =
     (case role_credentials settings (fs_secret s) json ''ap'' ''AP'' of
        Inl e \<Rightarrow> (s, Some e)
      | Inr ap \<Rightarrow>
          (case role_credentials settings (fs_secret s) json ''sta'' ''STA'' of
             Inl e \<Rightarrow> (s, Some e)
           | Inr sta \<Rightarrow> (s\<lparr>fs_ap := ap, fs_sta := if sta = [] then ap else sta\<rparr>, None)))"

definition credentialSnapshot :: "fw_service \<Rightarrow> bool \<Rightarrow> Credential list" where
  "credentialSnapshot s isAP = (if isAP then fs_ap s else fs_sta s)"

definition firstCredential :: "fw_service \<Rightarrow> bool \<Rightarrow> Credential option" where
  "firstCredential s isAP = (case credentialSnapshot s isAP of [] \<Rightarrow> None | c # _ \<Rightarrow> Some c)"

definition resolveCredential :: "fw_service \<Rightarrow> string \<Rightarrow> string \<Rightarrow> bool \<Rightarrow> string + Credential" where
  "resolveCredential s username0 password0 isAP =
     (let username = trim_space username0 in
      case (if password0 = [] then Inr [] else decryptSecret (fs_secret s) password0) of
        Inl e \<Rightarrow> Inl (''decrypt device credential: '' @ e)
      | Inr password \<Rightarrow>
          (if username \<noteq> [] \<and> password \<noteq> [] then Inr \<lparr>cr_user = username, cr_pass = password\<rparr>
           else if username \<noteq> [] \<or> password \<noteq> [] then Inl ''username and password must be supplied together''
           else case firstCredential s isAP of None \<Rightarrow> Inl ''no device credentials configured'' | Some c \<Rightarrow> Inr c))"

section \<open>Talking to a radio\<close>

text \<open>One answer to a poll of the upgrade status; a poll may find the context cancelled.\<close>

datatype poll = Cancelled string | PollFailed | Polled (poll_status: string) (poll_warnings: "string list") (poll_reason: string)

record radio =
  rd_infer :: "string + string"
  rd_login :: "string \<Rightarrow> string \<Rightarrow> string + string"
  rd_upload :: "string \<Rightarrow> string option"
  rd_polls :: "poll list"
  rd_flash :: "string \<Rightarrow> string \<Rightarrow> string option"
  rd_reboot :: "string \<Rightarrow> string option"
  rd_read :: "string option"
  rd_airmax_login :: "(string \<times> string) list \<Rightarrow> string option"
  rd_airmax_flash :: "string option"
  rd_persist_ok :: bool
  rd_insert_ok :: bool
  rd_update_ok :: bool

definition isConnectionError :: "string \<Rightarrow> bool" where
  "isConnectionError s \<longleftrightarrow>
     list_ex (contains_str s)
       [''connection refused'', ''no such host'', ''timeout'', ''i/o timeout'', ''network is unreachable'', ''no route to host'', ''connection reset'']"

definition hasSameVersionWarning :: "string list \<Rightarrow> bool" where
  "hasSameVersionWarning warnings = list_ex (\<lambda>w. w = ''SAME_VERSION'') warnings"

text \<open>Polling until a final status; the list ends at the deadline. A success gives the warnings.\<close>

fun waitForUpgrade :: "poll list \<Rightarrow> string + string list" where
  "waitForUpgrade [] = Inl ''timeout waiting for upgrade''"
| "waitForUpgrade (Cancelled e # ps) = Inl e"
| "waitForUpgrade (PollFailed # ps) = waitForUpgrade ps"
| "waitForUpgrade (Polled status warnings reason # ps) =
     (let lower = to_lower status in
      if lower \<in> {''finished'', ''ready'', ''complete'', ''verified'', ''success'', ''done''} then Inr warnings
      else if lower \<in> {''failed'', ''error'', ''failure'', ''invalid'', ''corrupt'', ''aborted''} then
        Inl (if reason = [] then ''upgrade failed'' else reason)
      else waitForUpgrade ps)"

definition reboot :: "(string \<Rightarrow> string option) \<Rightarrow> string \<Rightarrow> string option" where
  "reboot post token =
     (case post token of None \<Rightarrow> None | Some e \<Rightarrow> if contains_str e ''connection'' \<or> contains_str e ''EOF'' then None else Some e)"

text \<open>
  The loop over the credentials: the last error if every attempt failed, or the token with the
  pair that gave it. Pairs with a key tried before are passed over.
\<close>

record login_state =
  lg_error :: "string option"
  lg_token :: string
  lg_user :: string
  lg_pass :: string

fun login_loop :: "(string \<Rightarrow> string \<Rightarrow> string + string) \<Rightarrow> (string \<times> string) list \<Rightarrow> string list \<Rightarrow> login_state \<Rightarrow> login_state" where
  "login_loop login [] seen st = st"
| "login_loop login ((u, p) # cs) seen st =
     (let key = u @ '':'' @ p in
      if key \<in> set seen then login_loop login cs seen st
      else case login u p of
             Inr token \<Rightarrow> \<lparr>lg_error = None, lg_token = token, lg_user = u, lg_pass = p\<rparr>
           | Inl e \<Rightarrow>
               (if isConnectionError e then st\<lparr>lg_error := Some e, lg_token := []\<rparr>
                else login_loop login cs (key # seen) (st\<lparr>lg_error := Some e, lg_token := []\<rparr>)))"

definition pair_of :: "Credential \<Rightarrow> string \<times> string" where
  "pair_of c = (cr_user c, cr_pass c)"

text \<open>The given pair first, then the access points' and the stations' ones.\<close>

definition upgrade_creds :: "fw_service \<Rightarrow> string \<Rightarrow> string \<Rightarrow> (string \<times> string) list" where
  "upgrade_creds s username password =
     (if username \<noteq> [] \<and> password \<noteq> [] then [(username, password)] else [])
     @ map pair_of (credentialSnapshot s True) @ map pair_of (credentialSnapshot s False)"

text \<open>From the upload on; the answer is the error of the upgrade, if any.\<close>

definition flash_with :: "radio \<Rightarrow> string \<Rightarrow> string \<Rightarrow> string \<Rightarrow> string \<Rightarrow> string option" where
  "flash_with r platform token user pass =
     (case rd_upload r token of
        Some e \<Rightarrow> Some (''upload failed: '' @ e)
      | None \<Rightarrow>
          (case waitForUpgrade (rd_polls r) of
             Inl e \<Rightarrow> Some (''verification failed: '' @ e)
           | Inr warnings \<Rightarrow>
               (if hasSameVersionWarning warnings then None
                else if platform = ''ltu'' then rd_flash r user pass
                else reboot (rd_reboot r) token)))"

definition doUpgrade :: "fw_service \<Rightarrow> radio \<Rightarrow> string \<Rightarrow> string \<Rightarrow> string \<Rightarrow> string option" where
  "doUpgrade s r username password platform =
     (let st = login_loop (rd_login r) (upgrade_creds s username password) []
                 \<lparr>lg_error = None, lg_token = [], lg_user = username, lg_pass = password\<rparr> in
      case lg_error st of
        Some e \<Rightarrow> Some (''login failed: '' @ e)
      | None \<Rightarrow> flash_with r platform (lg_token st) (lg_user st) (lg_pass st))"

definition doUpgradeWithCreds :: "radio \<Rightarrow> string \<Rightarrow> string \<Rightarrow> string \<Rightarrow> string option" where
  "doUpgradeWithCreds r username password platform =
     (case rd_login r username password of
        Inl e \<Rightarrow> Some (''login failed: '' @ e)
      | Inr token \<Rightarrow> flash_with r platform token username password)"

definition doUpgradeAirMAX :: "fw_service \<Rightarrow> radio \<Rightarrow> string \<Rightarrow> string \<Rightarrow> string option" where
  "doUpgradeAirMAX s r username password =
     (case rd_read r of
        Some e \<Rightarrow> Some (''read firmware: '' @ e)
      | None \<Rightarrow>
          (case rd_airmax_login r (upgrade_creds s username password) of
             Some e \<Rightarrow> Some (''login failed: '' @ e)
           | None \<Rightarrow> (case rd_airmax_flash r of Some e \<Rightarrow> Some (''upgrade failed: '' @ e) | None \<Rightarrow> None)))"

section \<open>Upgrading one device\<close>

text \<open>The columns of a device row; a null text reads as the empty one.\<close>

record device_row =
  dv_id :: int
  dv_ip :: string
  dv_mac :: string
  dv_hostname :: string
  dv_username :: string
  dv_password :: string
  dv_flavor :: string
  dv_platform :: string
  dv_firmware :: string
  dv_parent :: "int option"

record firmware_job =
  fj_id :: int
  fj_device :: int
  fj_file :: string
  fj_target :: string
  fj_status :: string
  fj_error :: string

record fw_db =
  fw_devices :: "device_row list"
  fw_jobs :: "firmware_job list"
  fw_next :: int

record UpgradeResult =
  ur_DeviceID :: int
  ur_DeviceIP :: string
  ur_DeviceMAC :: string
  ur_Hostname :: string
  ur_Status :: string
  ur_Message :: string
  ur_OldVersion :: string
  ur_NewVersion :: string

definition normalizeUpgradeResult :: "UpgradeResult option \<Rightarrow> int \<Rightarrow> string option \<Rightarrow> UpgradeResult" where
  "normalizeUpgradeResult result deviceID err =
     (case result of
        Some r \<Rightarrow> r
      | None \<Rightarrow> \<lparr>ur_DeviceID = deviceID, ur_DeviceIP = [], ur_DeviceMAC = [], ur_Hostname = [], ur_Status = ''failed'',
                 ur_Message = (case err of Some e \<Rightarrow> e | None \<Rightarrow> ''upgrade failed''), ur_OldVersion = [], ur_NewVersion = []\<rparr>)"

definition base_result :: "device_row \<Rightarrow> UpgradeResult" where
  "base_result d =
     \<lparr>ur_DeviceID = dv_id d, ur_DeviceIP = dv_ip d, ur_DeviceMAC = dv_mac d, ur_Hostname = dv_hostname d, ur_Status = [],
      ur_Message = [], ur_OldVersion = dv_firmware d, ur_NewVersion = []\<rparr>"

definition failed_with :: "UpgradeResult \<Rightarrow> string \<Rightarrow> UpgradeResult" where
  "failed_with r msg = r\<lparr>ur_Status := ''failed'', ur_Message := msg\<rparr>"

definition find_device :: "fw_db \<Rightarrow> int \<Rightarrow> device_row option" where
  "find_device db deviceID = find (\<lambda>d. dv_id d = deviceID) (fw_devices db)"

definition ref_text :: "ref_error \<Rightarrow> string" where
  "ref_text e =
     (case e of
        RefRequired \<Rightarrow> ''firmware reference is required'' | RefInvalid \<Rightarrow> ''invalid firmware reference''
      | RefNotFound \<Rightarrow> ''firmware not found'' | RefAmbiguous \<Rightarrow> ''firmware name is ambiguous; use its id'' | RefIO t \<Rightarrow> t)"

definition find_for_flavor :: "firmware_root \<Rightarrow> string \<Rightarrow> string + string" where
  "find_for_flavor r flavor =
     (case ListFirmware r of
        Inl e \<Rightarrow> Inl (ref_text e)
      | Inr files \<Rightarrow> (case FindFirmwareForFlavor files flavor of None \<Rightarrow> Inl (''no firmware for flavor '' @ flavor) | Some path \<Rightarrow> Inr path))"

definition find_by_version :: "firmware_root \<Rightarrow> string \<Rightarrow> string \<Rightarrow> string + string" where
  "find_by_version r version flavor =
     (case ListFirmware r of
        Inl e \<Rightarrow> Inl (ref_text e)
      | Inr files \<Rightarrow>
          (case FindFirmwareByVersion files version flavor of
             None \<Rightarrow> Inl (''no firmware for version '' @ version @ '' flavor '' @ flavor) | Some f \<Rightarrow> Inr (ff_Path f)))"

definition isDirectReference :: "string \<Rightarrow> bool" where
  "isDirectReference firmwareFile \<longleftrightarrow> prefix ''fw_'' firmwareFile \<or> suffix ''.bin'' (to_lower firmwareFile)"

text \<open>The flavor an upgrade works with, and the database with an inferred one stored.\<close>

definition upgrade_flavor :: "radio \<Rightarrow> fw_db \<Rightarrow> device_row \<Rightarrow> string \<Rightarrow> string + fw_db \<times> string" where
  "upgrade_flavor r db d firmwareFile =
     (if (firmwareFile = [] \<or> \<not> isDirectReference firmwareFile) \<and> trim_space (dv_flavor d) = [] then
        (case rd_infer r of
           Inl e \<Rightarrow> Inl (''cannot determine device flavor: '' @ e)
         | Inr inferred \<Rightarrow>
             (let fl = trim_space inferred in
              if fl = [] then Inl ''cannot determine device flavor''
              else Inr (if rd_persist_ok r then db\<lparr>fw_devices := update_where (\<lambda>x. dv_id x = dv_id d) (\<lambda>x. x\<lparr>dv_flavor := fl\<rparr>) (fw_devices db)\<rparr> else db,
                        fl)))
      else Inr (db, dv_flavor d))"

text \<open>The file of an upgrade, or the message of the result with the error that is returned.\<close>

definition both_texts :: "string + 'a \<Rightarrow> (string \<times> string) + 'a" where
  "both_texts r = (case r of Inl e \<Rightarrow> Inl (e, e) | Inr x \<Rightarrow> Inr x)"

definition upgrade_path :: "firmware_root \<Rightarrow> string \<Rightarrow> string \<Rightarrow> (string \<times> string) + string" where
  "upgrade_path fwroot firmwareFile flavor =
     (if firmwareFile = [] then
        (if flavor = [] then both_texts (Inl ''cannot determine device flavor'') else both_texts (find_for_flavor fwroot flavor))
      else if isDirectReference firmwareFile then
        both_texts (case ResolveFirmwarePath fwroot firmwareFile of Inl e \<Rightarrow> Inl (ref_text e) | Inr p \<Rightarrow> Inr p)
      else if flavor = [] then Inl (''cannot determine device flavor for version lookup'', ''cannot determine device flavor'')
      else both_texts (find_by_version fwroot firmwareFile flavor))"

definition is_auth_failure :: "string \<Rightarrow> bool" where
  "is_auth_failure err = list_ex (contains_str (to_lower err)) [''login failed'', ''401'', ''403'', ''forbidden'', ''unauthorized'']"

text \<open>Recording a job and its end; when the insertion fails the id is zero and nothing is updated.\<close>

definition insert_job :: "bool \<Rightarrow> fw_db \<Rightarrow> int \<Rightarrow> string \<Rightarrow> string \<Rightarrow> fw_db \<times> int" where
  "insert_job ok db deviceID file target =
     (if ok then
        (db\<lparr>fw_jobs := fw_jobs db @ [\<lparr>fj_id = fw_next db, fj_device = deviceID, fj_file = file, fj_target = target, fj_status = ''uploading'', fj_error = []\<rparr>],
            fw_next := fw_next db + 1\<rparr>, fw_next db)
      else (db, 0))"

definition end_job :: "bool \<Rightarrow> fw_db \<Rightarrow> int \<Rightarrow> string \<Rightarrow> string \<Rightarrow> fw_db" where
  "end_job ok db jobID status err =
     (if ok then db\<lparr>fw_jobs := update_where (\<lambda>j. fj_id j = jobID) (\<lambda>j. j\<lparr>fj_status := status, fj_error := err\<rparr>) (fw_jobs db)\<rparr> else db)"

text \<open>The part that talks to the radio, with its job; \<open>run\<close> is the upgrade for the platform.\<close>

definition run_upgrade :: "radio \<Rightarrow> fw_db \<Rightarrow> UpgradeResult \<Rightarrow> string \<Rightarrow> string option \<Rightarrow> fw_db \<times> UpgradeResult" where
  "run_upgrade r db result file outcome =
     (case insert_job (rd_insert_ok r) db (ur_DeviceID result) file (ur_NewVersion result) of
        (db1, jobID) \<Rightarrow>
          (case outcome of
             Some e \<Rightarrow>
               (end_job (rd_update_ok r) db1 jobID ''failed'' e,
                result\<lparr>ur_Status := if is_auth_failure e then ''auth_failed'' else ''failed'', ur_Message := e\<rparr>)
           | None \<Rightarrow>
               (end_job (rd_update_ok r) db1 jobID ''success'' [],
                result\<lparr>ur_Status := ''success'', ur_Message := ''upgrade initiated, device rebooting''\<rparr>)))"

definition UpgradeDevice ::
  "fw_service \<Rightarrow> firmware_root \<Rightarrow> radio \<Rightarrow> fw_db \<Rightarrow> int \<Rightarrow> string \<Rightarrow> bool \<Rightarrow> fw_db \<times> UpgradeResult option \<times> string option" where
  "UpgradeDevice s fwroot r db deviceID firmwareFile force =
     (case find_device db deviceID of
        None \<Rightarrow> (db, None, Some ''device not found'')
      | Some d \<Rightarrow>
          (let result = base_result d in
           case decryptSecret (fs_secret s) (dv_password d) of
             Inl e \<Rightarrow> (db, Some (failed_with result ''stored device credential cannot be decrypted''), Some (''decrypt device credential: '' @ e))
           | Inr storedPassword \<Rightarrow>
               (case resolveCredential s (dv_username d) storedPassword (dv_parent d = None) of
                  Inl e \<Rightarrow> (db, Some (failed_with result e), Some e)
                | Inr credential \<Rightarrow>
                    (case upgrade_flavor r db d firmwareFile of
                       Inl e \<Rightarrow> (db, Some (failed_with result e), Some e)
                     | Inr (db1, flavor) \<Rightarrow>
                         (case upgrade_path fwroot firmwareFile flavor of
                            Inl (msg, e) \<Rightarrow> (db1, Some (failed_with result msg), Some e)
                          | Inr path \<Rightarrow>
                              (let result1 = result\<lparr>ur_NewVersion := trim_suffix (path_base path) ''.bin''\<rparr>;
                                   platformLower = to_lower (trim_space (dv_platform d)) in
                               if firmwareMatches (dv_firmware d) (path_base path) \<and> \<not> force then
                                 (db1, Some (result1\<lparr>ur_Status := ''skipped'', ur_Message := ''already at target version''\<rparr>), None)
                               else
                                 (let outcome = (if platformLower = ''airmax'' \<or> platformLower = ''airfiber''
                                                 then doUpgradeAirMAX s r (cr_user credential) (cr_pass credential)
                                                 else doUpgrade s r (cr_user credential) (cr_pass credential) platformLower) in
                                  case run_upgrade r db1 result1 (path_base path) outcome of
                                    (db2, result2) \<Rightarrow> (db2, Some result2, outcome))))))))"

section \<open>Upgrading several devices\<close>

text \<open>One goroutine: the upgrade of a device, always with a result.\<close>

definition upgrade_one ::
  "fw_service \<Rightarrow> firmware_root \<Rightarrow> (int \<Rightarrow> radio) \<Rightarrow> string \<Rightarrow> bool \<Rightarrow> int \<Rightarrow> fw_db \<times> UpgradeResult list \<Rightarrow> fw_db \<times> UpgradeResult list" where
  "upgrade_one s fwroot radios firmwareFile force deviceID st =
     (case UpgradeDevice s fwroot (radios deviceID) (fst st) deviceID firmwareFile force of
        (db, result, err) \<Rightarrow> (db, snd st @ [normalizeUpgradeResult result deviceID err]))"

text \<open>The skipped results of a fan-out carry only what the query of the fan-out read.\<close>

definition skip_result :: "device_row \<Rightarrow> bool \<Rightarrow> string \<Rightarrow> UpgradeResult" where
  "skip_result d isAP msg =
     \<lparr>ur_DeviceID = dv_id d, ur_DeviceIP = dv_ip d, ur_DeviceMAC = dv_mac d, ur_Hostname = if isAP then [] else dv_hostname d,
      ur_Status = ''skipped'', ur_Message = msg, ur_OldVersion = [], ur_NewVersion = []\<rparr>"

definition fanout_upgrade_one ::
  "fw_service \<Rightarrow> firmware_root \<Rightarrow> (int \<Rightarrow> radio) \<Rightarrow> bool \<Rightarrow> bool \<Rightarrow> device_row \<Rightarrow> fw_db \<times> UpgradeResult list \<Rightarrow> fw_db \<times> UpgradeResult list" where
  "fanout_upgrade_one s fwroot radios force isAP d st =
     (case find_for_flavor fwroot (dv_flavor d) of
        Inl _ \<Rightarrow> (fst st, snd st @ [skip_result d isAP (''no firmware for flavor '' @ dv_flavor d)])
      | Inr fwFile \<Rightarrow>
          (if firmwareMatches (dv_firmware d) (path_base fwFile) \<and> \<not> force
           then (fst st, snd st @ [skip_result d isAP ''already at target version''])
           else upgrade_one s fwroot radios fwFile force (dv_id d) st))"

text \<open>The stations' goroutines run in the order \<open>sched\<close> gives; the access point follows.\<close>

definition UpgradeFanout ::
  "fw_service \<Rightarrow> firmware_root \<Rightarrow> (int \<Rightarrow> radio) \<Rightarrow> (device_row list \<Rightarrow> device_row list) \<Rightarrow> bool \<Rightarrow> fw_db \<Rightarrow> int \<Rightarrow> bool
     \<Rightarrow> fw_db \<times> (string + UpgradeResult list)" where
  "UpgradeFanout s fwroot radios sched query_ok db apID force =
     (case find_device db apID of
        None \<Rightarrow> (db, Inl ''AP not found'')
      | Some ap \<Rightarrow>
          (if \<not> query_ok then (db, Inl ''query failed'')
           else
             (let stas = filter (\<lambda>d. dv_parent d = Some apID) (fw_devices db);
                  st = fold (fanout_upgrade_one s fwroot radios force False) (sched stas) (db, []);
                  st2 = fanout_upgrade_one s fwroot radios force True ap st
              in (fst st2, Inr (snd st2)))))"

definition parent_of :: "fw_db \<Rightarrow> int \<Rightarrow> int option" where
  "parent_of db deviceID = (case find_device db deviceID of None \<Rightarrow> None | Some d \<Rightarrow> dv_parent d)"

text \<open>
  The access points one by one, each after the stations below it that are in the list, then the
  stations whose access point is not. The parallel stations of a group run in the order \<open>sched\<close>
  gives, and \<open>rest_order\<close> is the order in which the map of the remaining groups is walked.
\<close>

fun bulk_aps ::
  "(int list \<Rightarrow> fw_db \<times> UpgradeResult list \<Rightarrow> fw_db \<times> UpgradeResult list) \<Rightarrow> (int list \<Rightarrow> int list) \<Rightarrow> int list \<Rightarrow> (int, int list) gomap
     \<Rightarrow> fw_db \<times> UpgradeResult list \<Rightarrow> (int, int list) gomap \<times> (fw_db \<times> UpgradeResult list)" where
  "bulk_aps run sched [] groups st = (groups, st)"
| "bulk_aps run sched (ap # aps) groups st =
     (let stas = (case map_of groups ap of None \<Rightarrow> [] | Some ids \<Rightarrow> ids);
          st1 = run [ap] (run (sched stas) st)
      in bulk_aps run sched aps (AList.delete ap groups) st1)"

definition group_station :: "fw_db \<Rightarrow> int \<Rightarrow> (int, int list) gomap \<Rightarrow> (int, int list) gomap" where
  "group_station db i groups =
     (case parent_of db i of
        None \<Rightarrow> groups
      | Some ap \<Rightarrow> AList.update ap ((case map_of groups ap of None \<Rightarrow> [] | Some ids \<Rightarrow> ids) @ [i]) groups)"

definition UpgradeBulk ::
  "fw_service \<Rightarrow> firmware_root \<Rightarrow> (int \<Rightarrow> radio) \<Rightarrow> (int list \<Rightarrow> int list) \<Rightarrow> ((int, int list) gomap \<Rightarrow> (int, int list) gomap) \<Rightarrow> fw_db
     \<Rightarrow> int list \<Rightarrow> string \<Rightarrow> bool \<Rightarrow> fw_db \<times> UpgradeResult list" where
  "UpgradeBulk s fwroot radios sched rest_order db deviceIDs firmwareFile force =
     (let run = fold (upgrade_one s fwroot radios firmwareFile force);
          groups = fold (group_station db) deviceIDs [];
          aps = filter (\<lambda>i. parent_of db i = None) deviceIDs;
          (rest, st) = bulk_aps run sched aps groups (db, []);
          standalone = concat (map snd (filter (\<lambda>(ap, _). ap \<notin> set aps) (rest_order rest)))
      in run (sched standalone) st)"

text \<open>A retry with credentials the user gave; a working pair is stored, encrypted when there is a key.\<close>

definition store_credential :: "fw_service \<Rightarrow> string option \<Rightarrow> bool \<Rightarrow> fw_db \<Rightarrow> int \<Rightarrow> string \<Rightarrow> string \<Rightarrow> fw_db" where
  "store_credential s nonce ok db deviceID username password =
     (let storedPassword = (case fs_secret s of
                              None \<Rightarrow> password
                            | Some m \<Rightarrow> (case Encrypt m nonce password of Inl _ \<Rightarrow> [] | Inr e \<Rightarrow> e)) in
      if storedPassword \<noteq> [] \<and> ok
      then db\<lparr>fw_devices := update_where (\<lambda>x. dv_id x = deviceID) (\<lambda>x. x\<lparr>dv_username := username, dv_password := storedPassword\<rparr>) (fw_devices db)\<rparr>
      else db)"

definition retry_one ::
  "fw_service \<Rightarrow> firmware_root \<Rightarrow> (int \<Rightarrow> radio) \<Rightarrow> (int \<Rightarrow> string option) \<Rightarrow> string \<Rightarrow> string \<Rightarrow> bool \<Rightarrow> int \<Rightarrow> fw_db \<times> UpgradeResult list
     \<Rightarrow> fw_db \<times> UpgradeResult list" where
  "retry_one s fwroot radios nonces username password force deviceID st =
     (case find_device (fst st) deviceID of
        None \<Rightarrow> (fst st, snd st @ [normalizeUpgradeResult None deviceID (Some ''device not found'')])
      | Some d \<Rightarrow>
          (case find_for_flavor fwroot (dv_flavor d) of
             Inl _ \<Rightarrow> (fst st, snd st @ [(base_result d)\<lparr>ur_Status := ''skipped'', ur_Message := ''no firmware for flavor '' @ dv_flavor d\<rparr>])
           | Inr fwFile \<Rightarrow>
               (let result1 = (base_result d)\<lparr>ur_NewVersion := trim_suffix (path_base fwFile) ''.bin''\<rparr>; r = radios deviceID;
                    platformLower = to_lower (dv_platform d) in
                if firmwareMatches (dv_firmware d) (path_base fwFile) \<and> \<not> force then
                  (fst st, snd st @ [result1\<lparr>ur_Status := ''skipped'', ur_Message := ''already at target version''\<rparr>])
                else
                  (let outcome = (if platformLower = ''airmax'' then doUpgradeAirMAX s r username password
                                  else doUpgradeWithCreds r username password platformLower) in
                   case run_upgrade r (fst st) result1 (path_base fwFile) outcome of
                     (db2, result2) \<Rightarrow>
                       (if outcome = None then store_credential s (nonces deviceID) (rd_persist_ok r) db2 deviceID username password else db2,
                        snd st @ [result2])))))"

definition RetryUpgradeWithCredentials ::
  "fw_service \<Rightarrow> firmware_root \<Rightarrow> (int \<Rightarrow> radio) \<Rightarrow> (int \<Rightarrow> string option) \<Rightarrow> (int list \<Rightarrow> int list) \<Rightarrow> fw_db \<Rightarrow> int list \<Rightarrow> string \<Rightarrow> string
     \<Rightarrow> bool \<Rightarrow> fw_db \<times> UpgradeResult list" where
  "RetryUpgradeWithCredentials s fwroot radios nonces sched db deviceIDs username password force =
     fold (retry_one s fwroot radios nonces username password force) (sched deviceIDs) (db, [])"

end
