(* ===== verification/FirmwareUpgradeProofs.thy ===== *)
theory FirmwareUpgradeProofs imports FirmwareUpgrade "HOL-Library.Multiset" begin

text \<open>
  What the upgrades of src/internal/firmware/service.go guarantee: the job of an upgrade agrees
  with its result, a bulk upgrade covers its devices with stations first, stored credentials are
  encrypted and read in pairs, and two defects.
\<close>

section \<open>A single upgrade\<close>

lemma find_device_id: "find_device db i = Some d \<Longrightarrow> dv_id d = i"
  by (auto simp: find_device_def dest: find_Some_in)

lemma base_result_id [simp]: "ur_DeviceID (base_result d) = dv_id d"
  by (simp add: base_result_def)

lemma run_upgrade_id: "run_upgrade r db result file outcome = (db', result') \<Longrightarrow> ur_DeviceID result' = ur_DeviceID result"
  by (auto simp: run_upgrade_def split: prod.splits option.splits)

text \<open>The ways an upgrade ends: before it touches the radio, skipped, or with a run.\<close>

lemma UpgradeDevice_cases:
  assumes "UpgradeDevice s fwroot r db i file force = (db', res, err)"
  obtains (missing) "find_device db i = None" "db' = db" "res = None" "err = Some ''device not found''"
  | (early) d e where "find_device db i = Some d" "fw_jobs db' = fw_jobs db" "fw_next db' = fw_next db"
      "map dv_password (fw_devices db') = map dv_password (fw_devices db)" "ur_DeviceID (the res) = i" "res \<noteq> None"
      "ur_Status (the res) = ''failed''" "err = Some e"
  | (skip) d where "find_device db i = Some d" "fw_jobs db' = fw_jobs db" "fw_next db' = fw_next db" "ur_DeviceID (the res) = i" "res \<noteq> None"
      "ur_Status (the res) = ''skipped''" "err = None"
  | (run) d db1 result1 file' result2 where "find_device db i = Some d" "fw_jobs db1 = fw_jobs db" "fw_next db1 = fw_next db"
      "ur_DeviceID result1 = i" "run_upgrade r db1 result1 file' err = (db', result2)" "res = Some result2"
proof (cases "find_device db i")
  case None
  then have "(db', res, err) = (db, None, Some ''device not found'')" using assms by (simp add: UpgradeDevice_def)
  then show thesis using None by (intro missing) simp_all
next
  case (Some d)
  note id = find_device_id [OF Some]
  note U = assms [unfolded UpgradeDevice_def Some option.case Let_def]
  have fl: "fw_jobs db1 = fw_jobs db \<and> fw_next db1 = fw_next db \<and> map dv_password (fw_devices db1) = map dv_password (fw_devices db)"
    if "upgrade_flavor r db d file = Inr (db1, flavor)" for db1 flavor
    using that by (auto simp: upgrade_flavor_def map_update_where Let_def split: if_splits sum.splits)
  show thesis
  proof (cases "decryptSecret (fs_secret s) (dv_password d)")
    case (Inl e)
    then show thesis using U id early [OF Some] by (auto simp: failed_with_def)
  next
    case (Inr pw)
    note U1 = U [unfolded Inr sum.case]
    show thesis
    proof (cases "resolveCredential s (dv_username d) pw (dv_parent d = None)")
      case (Inl e)
      then show thesis using U1 id early [OF Some] by (auto simp: failed_with_def)
    next
      case (Inr c)
      note U2 = U1 [unfolded Inr sum.case]
      show thesis
      proof (cases "upgrade_flavor r db d file")
        case (Inl e)
        then show thesis using U2 id early [OF Some] by (auto simp: failed_with_def)
      next
        case (Inr p)
        obtain db1 flavor where p: "upgrade_flavor r db d file = Inr (db1, flavor)" using Inr by (cases p) simp
        note U3 = U2 [unfolded p sum.case prod.case]
        show thesis
        proof (cases "upgrade_path fwroot file flavor")
          case (Inl e)
          then show thesis using U3 id fl [OF p] early [OF Some] by (cases e) (auto simp: failed_with_def)
        next
          case (Inr path)
          note U4 = U3 [unfolded Inr sum.case]
          show thesis
          proof (cases "firmwareMatches (dv_firmware d) (path_base path) \<and> \<not> force")
            case True
            then show thesis using U4 id fl [OF p] skip [OF Some] by auto
          next
            case False
            note U5 = U4 [unfolded if_not_P [OF False]]
            obtain db2 result2 where R: "run_upgrade r db1 ((base_result d)\<lparr>ur_NewVersion := trim_suffix (path_base path) ''.bin''\<rparr>) (path_base path) err = (db2, result2)"
              "db' = db2" "res = Some result2"
              using U5 by (auto split: prod.splits)
            show thesis by (rule run [OF Some _ _ _ R(1) [folded R(2)] R(3)]) (use fl [OF p] id in simp_all)
          qed
        qed
      qed
    qed
  qed
qed

lemma UpgradeDevice_id:
  assumes "UpgradeDevice s fwroot r db i file force = (db', res, err)"
  shows "ur_DeviceID (normalizeUpgradeResult res i err) = i"
  using assms
proof (cases rule: UpgradeDevice_cases)
  case (run d db1 result1 file' result2)
  then show ?thesis using run_upgrade_id by (simp add: normalizeUpgradeResult_def)
qed (auto simp: normalizeUpgradeResult_def)

text \<open>Job ids are positive and below the next one.\<close>

definition jobs_ok :: "fw_db \<Rightarrow> bool" where
  "jobs_ok db \<longleftrightarrow> 0 < fw_next db \<and> list_all (\<lambda>j. 0 < fj_id j \<and> fj_id j < fw_next db) (fw_jobs db)"

text \<open>
  The job of an upgrade: none is recorded when nothing was sent to the radio; otherwise one new
  row of the device, whose final status and error are those of the result.
\<close>

definition job_agrees :: "radio \<Rightarrow> fw_db \<Rightarrow> fw_db \<Rightarrow> UpgradeResult \<Rightarrow> bool" where
  "job_agrees r db db' result \<longleftrightarrow>
     (if fw_jobs db' = fw_jobs db then ur_Status result = ''failed'' \<or> ur_Status result = ''skipped'' \<or> \<not> rd_insert_ok r
      else \<exists>j. fw_jobs db' = fw_jobs db @ [j] \<and> fj_device j = ur_DeviceID result \<and> fj_id j = fw_next db
        \<and> (if \<not> rd_update_ok r then fj_status j = ''uploading''
           else if ur_Status result = ''success'' then fj_status j = ''success''
           else ur_Status result = (if is_auth_failure (fj_error j) then ''auth_failed'' else ''failed'')
             \<and> fj_status j = ''failed'' \<and> fj_error j = ur_Message result))"

lemma update_where_snoc: "list_all (\<lambda>x. \<not> P x) xs \<Longrightarrow> P y \<Longrightarrow> update_where P f (xs @ [y]) = xs @ [f y]"
  by (induction xs) (simp_all add: update_where_def)

lemma update_where_no_match: "list_all (\<lambda>x. \<not> P x) xs \<Longrightarrow> update_where P f xs = xs"
  by (induction xs) (simp_all add: update_where_def)

lemma run_upgrade_job:
  assumes "jobs_ok db" and "run_upgrade r db result file outcome = (db', result')"
  shows "job_agrees r db db' result'" and "(outcome = None) = (ur_Status result' = ''success'')"
proof -
  have old: "list_all (\<lambda>j. fj_id j \<noteq> fw_next db) (fw_jobs db)" "list_all (\<lambda>j. fj_id j \<noteq> 0) (fw_jobs db)"
    using assms(1) by (auto simp: jobs_ok_def list_all_iff)
  show "job_agrees r db db' result'"
    using assms(2) update_where_snoc [OF old(1)] update_where_no_match [OF old(2)]
    by (cases "rd_insert_ok r"; cases "rd_update_ok r")
      (auto simp: run_upgrade_def insert_job_def end_job_def job_agrees_def split: option.splits)
  show "(outcome = None) = (ur_Status result' = ''success'')"
    using assms(2) by (auto simp: run_upgrade_def split: option.splits prod.splits if_splits)
qed

text \<open>The job of an upgrade agrees with its result. Whatever the device and the radio answer,
  an upgrade that returns a result has recorded no job or exactly one new one for the device; its
  final status is success exactly for a successful result, and otherwise failed with the message of
  the result; the other jobs are untouched, and an error is returned exactly for a failure.
\<close>

theorem upgrade_job_agrees:
  assumes "jobs_ok db" and "UpgradeDevice s fwroot r db i file force = (db', Some result, err)"
  shows "job_agrees r db db' result \<and> ur_DeviceID result = i \<and> (err = None) = (ur_Status result \<in> {''success'', ''skipped''})"
  using assms(2)
proof (cases rule: UpgradeDevice_cases)
  case (run d db1 result1 file' result2)
  then have ok: "jobs_ok db1" using assms(1) by (simp add: jobs_ok_def)
  have same: "result = result2" using run(6) by simp
  have agree: "job_agrees r db db' result"
    using run_upgrade_job(1) [OF ok run(5)] unfolding job_agrees_def run(2,3) same .
  have st: "ur_Status result2 \<noteq> ''skipped''"
    using run(5) by (auto simp: run_upgrade_def split: option.splits prod.splits if_splits)
  show ?thesis using agree run_upgrade_job(2) [OF ok run(5)] run_upgrade_id [OF run(5)] run st by simp
qed (auto simp: job_agrees_def)

section \<open>Several upgrades\<close>

text \<open>What goroutines leave behind is their results, one per device, in the order they ran.\<close>

lemma upgrade_one_ids:
  "map ur_DeviceID (snd (upgrade_one s fwroot radios file force i st)) = map ur_DeviceID (snd st) @ [i]"
  using UpgradeDevice_id by (auto simp: upgrade_one_def split: prod.splits)

lemma fold_upgrade_ids:
  "map ur_DeviceID (snd (fold (upgrade_one s fwroot radios file force) ids st)) = map ur_DeviceID (snd st) @ ids"
  by (induction ids arbitrary: st) (simp_all add: upgrade_one_ids)

text \<open>The order of the access points' part of a bulk upgrade, on ids alone.\<close>

fun ap_order :: "(int list \<Rightarrow> int list) \<Rightarrow> int list \<Rightarrow> (int, int list) gomap \<Rightarrow> int list \<times> (int, int list) gomap" where
  "ap_order sched [] groups = ([], groups)"
| "ap_order sched (ap # aps) groups =
     (case ap_order sched aps (AList.delete ap groups) of
        (ids, rest) \<Rightarrow> (sched (case map_of groups ap of None \<Rightarrow> [] | Some is \<Rightarrow> is) @ ap # ids, rest))"

lemma bulk_aps_ids:
  assumes "\<And>ids st. map ur_DeviceID (snd (run ids st)) = map ur_DeviceID (snd st) @ ids"
  shows "fst (bulk_aps run sched aps groups st) = snd (ap_order sched aps groups)
    \<and> map ur_DeviceID (snd (snd (bulk_aps run sched aps groups st))) = map ur_DeviceID (snd st) @ fst (ap_order sched aps groups)"
  by (induction aps arbitrary: groups st) (simp_all add: Let_def assms split: prod.split)

definition group_of :: "(int, int list) gomap \<Rightarrow> int \<Rightarrow> int list" where
  "group_of groups ap = (case map_of groups ap of None \<Rightarrow> [] | Some ids \<Rightarrow> ids)"

lemma group_of_station:
  "group_of (group_station db i groups) ap = group_of groups ap @ (if parent_of db i = Some ap then [i] else [])"
  by (auto simp: group_station_def group_of_def split: option.split)

lemma group_of_fold:
  "group_of (fold (group_station db) ids groups) ap = group_of groups ap @ filter (\<lambda>i. parent_of db i = Some ap) ids"
  by (induction ids arbitrary: groups) (simp_all add: group_of_station)

lemma group_of_delete: "group_of (AList.delete ap groups) a = (if a = ap then [] else group_of groups a)"
  by (simp add: group_of_def)

lemma distinct_group_keys: "distinct (map fst groups) \<Longrightarrow> distinct (map fst (fold (group_station db) ids groups))"
proof (induction ids arbitrary: groups)
  case (Cons i ids)
  have "distinct (map fst (group_station db i groups))"
    using Cons.prems by (simp add: group_station_def distinct_update split: option.split)
  then show ?case using Cons.IH by simp
qed simp

text \<open>All stations of all groups, as a multiset.\<close>

definition grouped :: "(int, int list) gomap \<Rightarrow> int multiset" where
  "grouped groups = (\<Sum>p\<in>#mset groups. mset (snd p))"

lemma grouped_simps [simp]: "grouped [] = {#}" "grouped (p # g) = mset (snd p) + grouped g"
  by (simp_all add: grouped_def)

lemma grouped_update: "grouped (AList.update ap (group_of g ap @ [i]) g) = grouped g + {#i#}"
  by (induction g) (auto simp: group_of_def)

lemma delete_absent: "ap \<notin> fst ` set g \<Longrightarrow> AList.delete ap g = g"
  by (induction g) auto

lemma grouped_delete: "distinct (map fst g) \<Longrightarrow> mset (group_of g ap) + grouped (AList.delete ap g) = grouped g"
  by (induction g) (auto simp: group_of_def delete_absent add.assoc add.left_commute)

lemma grouped_station: "grouped (group_station db i g) = grouped g + (if parent_of db i = None then {#} else {#i#})"
  using grouped_update [of _ g i] by (auto simp: group_station_def group_of_def split: option.split)

lemma grouped_fold: "grouped (fold (group_station db) ids g) = grouped g + mset (filter (\<lambda>i. parent_of db i \<noteq> None) ids)"
  by (induction ids arbitrary: g) (simp_all add: grouped_station)

lemma mset_concat_groups: "mset (concat (map snd g)) = grouped g"
  by (induction g) simp_all

lemma distinct_delete_keys: "distinct (map fst g) \<Longrightarrow> distinct (map fst (AList.delete ap g))"
  by (simp add: distinct_delete)

lemma ap_order_mset:
  assumes "\<And>xs. mset (sched xs) = mset xs"
  shows "distinct (map fst g) \<Longrightarrow> mset (fst (ap_order sched aps g)) + grouped (snd (ap_order sched aps g)) = mset aps + grouped g"
proof (induction aps arbitrary: g)
  case (Cons ap aps)
  obtain ids rest where o: "ap_order sched aps (AList.delete ap g) = (ids, rest)" by (cases "ap_order sched aps (AList.delete ap g)")
  have IH: "mset ids + grouped rest = mset aps + grouped (AList.delete ap g)"
    using Cons.IH [OF distinct_delete_keys [OF Cons.prems, of ap]] by (simp add: o)
  have "mset (fst (ap_order sched (ap # aps) g)) + grouped (snd (ap_order sched (ap # aps) g))
      = mset (group_of g ap) + {#ap#} + (mset ids + grouped rest)"
    by (simp add: o assms group_of_def ac_simps)
  also have "\<dots> = mset (ap # aps) + (mset (group_of g ap) + grouped (AList.delete ap g))"
    unfolding IH by (simp add: ac_simps)
  finally show ?case unfolding grouped_delete [OF Cons.prems] .
qed simp

lemma ap_order_keys: "fst ` set (snd (ap_order sched aps g)) \<subseteq> fst ` set g - set aps"
proof (induction aps arbitrary: g)
  case (Cons ap aps)
  have gen: "A \<subseteq> B - S \<Longrightarrow> B \<subseteq> C - {x} \<Longrightarrow> A \<subseteq> C - insert x S" for A B C S and x :: int by blast
  obtain ids rest where o: "ap_order sched aps (AList.delete ap g) = (ids, rest)" by (cases "ap_order sched aps (AList.delete ap g)")
  have "fst ` set (AList.delete ap g) \<subseteq> fst ` set g - {ap}" by (auto simp: AList.delete_eq)
  moreover have "fst ` set rest \<subseteq> fst ` set (AList.delete ap g) - set aps" using Cons.IH [of "AList.delete ap g"] by (simp add: o)
  ultimately have "fst ` set rest \<subseteq> fst ` set g - insert ap (set aps)" using gen by metis
  then show ?case by (simp add: o)
qed simp

lemma takeWhile_absent: "x \<notin> set ys \<Longrightarrow> takeWhile (\<lambda>y. y \<noteq> x) (ys @ xs) = ys @ takeWhile (\<lambda>y. y \<noteq> x) xs"
  by (induction ys) auto

text \<open>Stations come before their access point in that order.\<close>

lemma ap_order_before:
  assumes "\<And>xs. mset (sched xs) = mset xs"
  shows "ap \<in> set aps \<Longrightarrow> i \<in> set (group_of g ap) \<Longrightarrow> i \<noteq> ap \<Longrightarrow> ap \<notin> set (concat (map snd g)) \<Longrightarrow>
    i \<in> set (takeWhile (\<lambda>x. x \<noteq> ap) (fst (ap_order sched aps g)))"
proof (induction aps arbitrary: g)
  case (Cons a aps)
  have s: "set (sched xs) = set xs" for xs using assms by (metis set_mset_mset)
  have sub: "set (group_of g a) \<subseteq> set (concat (map snd g))"
  proof (cases "map_of g a")
    case (Some js)
    then have "(a, js) \<in> set g" by (rule map_of_SomeD)
    then show ?thesis using Some by (force simp: group_of_def)
  qed (simp add: group_of_def)
  then have "ap \<notin> set (sched (group_of g a))" using Cons.prems(4) s by auto
  note tw = takeWhile_absent [OF this]
  obtain ids rest where o: "ap_order sched aps (AList.delete a g) = (ids, rest)" by (cases "ap_order sched aps (AList.delete a g)")
  have f: "fst (ap_order sched (a # aps) g) = sched (group_of g a) @ a # ids" by (simp add: o group_of_def)
  show ?case
  proof (cases "a = ap")
    case True
    then show ?thesis unfolding f tw using Cons.prems(2) s by simp
  next
    case False
    have "ap \<notin> set (concat (map snd (AList.delete a g)))" using Cons.prems(4) by (auto simp: AList.delete_eq)
    then have "i \<in> set (takeWhile (\<lambda>x. x \<noteq> ap) ids)"
      using Cons.IH [of "AList.delete a g"] Cons.prems(1-3) False by (simp add: o group_of_delete)
    then show ?thesis unfolding f tw using False by simp
  qed
qed simp

lemma takeWhile_extend: "x \<in> set (takeWhile P xs) \<Longrightarrow> x \<in> set (takeWhile P (xs @ ys))"
  by (induction xs) (auto split: if_splits)

text \<open>C14. A bulk upgrade covers the list once, stations first. In whatever order the parallel
  upgrades finish and the remaining groups are walked, there is exactly one result per entry of the
  list, and a station whose access point is in the list has its result before the access point's
  first one.
\<close>

theorem bulk_upgrade_covers:
  assumes "\<forall>xs. mset (sched xs) = mset xs" and "\<forall>g. mset (rest_order g) = mset g"
    and "UpgradeBulk s fwroot radios sched rest_order db ids file force = (db', results)"
  shows "mset (map ur_DeviceID results) = mset ids
    \<and> (\<forall>i ap. i \<in> set ids \<longrightarrow> ap \<in> set ids \<longrightarrow> parent_of db i = Some ap \<longrightarrow> parent_of db ap = None \<longrightarrow>
          i \<in> set (takeWhile (\<lambda>x. x \<noteq> ap) (map ur_DeviceID results)))"
proof -
  let ?run = "fold (upgrade_one s fwroot radios file force)" and ?g = "fold (group_station db) ids []"
    and ?aps = "filter (\<lambda>i. parent_of db i = None) ids"
  obtain first rest where o: "ap_order sched ?aps ?g = (first, rest)" by (cases "ap_order sched ?aps ?g")
  let ?alone = "concat (map snd (filter (\<lambda>(ap, _). ap \<notin> set ?aps) (rest_order rest)))"
  obtain st where b: "bulk_aps ?run sched ?aps ?g (db, []) = (rest, st)" "map ur_DeviceID (snd st) = first"
    using bulk_aps_ids [of ?run sched ?aps ?g "(db, [])", OF fold_upgrade_ids] o
    by (cases "bulk_aps ?run sched ?aps ?g (db, [])") simp
  have "results = snd (?run (sched ?alone) st)"
    using assms(3) b(1) by (simp add: UpgradeBulk_def Let_def)
  then have res: "map ur_DeviceID results = first @ sched ?alone" using fold_upgrade_ids b(2) by simp
  have d: "distinct (map fst ?g)" by (rule distinct_group_keys) simp
  have keys: "fst ` set rest \<subseteq> - set ?aps" using ap_order_keys [of sched ?aps ?g] by (auto simp: o)
  have "set (rest_order rest) = set rest" using assms(2) by (metis set_mset_mset)
  then have "filter (\<lambda>(ap, _). ap \<notin> set ?aps) (rest_order rest) = rest_order rest"
    using keys by (intro filter_True) auto
  then have alone: "mset ?alone = grouped rest" using assms(2) by (simp add: mset_concat_groups) (simp add: grouped_def)
  have "mset first + grouped rest = mset ?aps + grouped ?g"
    using ap_order_mset [of sched ?g ?aps] assms(1) d by (simp add: o)
  then have "mset (map ur_DeviceID results) = mset ?aps + mset (filter (\<lambda>i. parent_of db i \<noteq> None) ids)"
    unfolding res using assms(1) alone by (simp add: grouped_fold)
  also have "\<dots> = mset ids" by (metis (no_types) mset_filter multiset_partition)
  finally have cover: "mset (map ur_DeviceID results) = mset ids" .
  have before: "i \<in> set (takeWhile (\<lambda>x. x \<noteq> ap) (map ur_DeviceID results))"
    if i: "i \<in> set ids" "ap \<in> set ids" "parent_of db i = Some ap" "parent_of db ap = None" for i ap
  proof -
    have stations: "set (concat (map snd ?g)) = {i \<in> set ids. parent_of db i \<noteq> None}"
      using mset_concat_groups [of ?g] by (metis (no_types) grouped_fold grouped_simps(1) add_0 set_mset_mset set_filter)
    have "i \<in> set (takeWhile (\<lambda>x. x \<noteq> ap) (fst (ap_order sched ?aps ?g)))"
      by (rule ap_order_before) (use assms(1) i stations in \<open>auto simp: group_of_fold group_of_def [of "[]"]\<close>)
    then show ?thesis unfolding res by (intro takeWhile_extend) (simp add: o)
  qed
  show ?thesis using cover before by blast
qed

section \<open>The path of a file is not a reference to it\<close>

lemma ff_Name_parse [simp]: "ff_Name (parseFirmwareFilename n) = n"
  by (simp add: parseFirmwareFilename_def Let_def split: option.split prod.split)

lemma split_snoc: "P c \<Longrightarrow> split_on P (s @ [c]) = split_on P s @ [[]]"
proof (induction s)
  case (Cons a s)
  then show ?case by (cases "split_on P s") simp_all
qed simp

lemma split_on_single: "split_on P s = [w] \<Longrightarrow> w = s"
  by (induction s arbitrary: w) (auto split: if_splits list.splits)

lemma last_split_suffix: "suffix (last (split_on P s)) s"
proof (induction s)
  case (Cons c s)
  obtain w ws where w: "split_on P s = w # ws" by (cases "split_on P s") simp_all
  show ?case
  proof (cases "P c \<or> ws \<noteq> []")
    case True
    then have "last (split_on P (c # s)) = last (split_on P s)" using w by auto
    then show ?thesis using Cons by (simp add: suffix_Cons)
  next
    case False
    then have "split_on P s = [s]" using w Cons by (metis (no_types) join.simps(2) last.simps self_append_conv split_on_single)
    then show ?thesis using False by simp
  qed
qed simp

lemma path_ext_suffix: "suffix (path_ext p) p"
proof -
  let ?n = "last (path_parts p)" and ?t = "takeWhile (\<lambda>c. c \<noteq> CHR ''.'') (rev (last (path_parts p)))"
  have n: "suffix ?n p" unfolding path_parts_def by (rule last_split_suffix)
  show ?thesis
  proof (cases "length ?t = length ?n")
    case False
    have split: "rev ?n = ?t @ dropWhile (\<lambda>c. c \<noteq> CHR ''.'') (rev ?n)" by simp
    have "length ?t + length (dropWhile (\<lambda>c. c \<noteq> CHR ''.'') (rev ?n)) = length ?n"
      by (metis length_append length_rev takeWhile_dropWhile_id)
    then obtain c rest where d: "dropWhile (\<lambda>c. c \<noteq> CHR ''.'') (rev ?n) = c # rest"
      using False by (cases "dropWhile (\<lambda>c. c \<noteq> CHR ''.'') (rev ?n)") simp_all
    then have "c = CHR ''.''" using dropWhile_hd by fastforce
    then have "?n = rev rest @ CHR ''.'' # rev ?t" using split d by (metis append.assoc append_Cons append_Nil rev_append rev_rev_ident rev.simps(2))
    then have "suffix (CHR ''.'' # rev ?t) ?n" by (metis suffixI)
    then show ?thesis using n False by (simp add: path_ext_def Let_def)
  qed (simp add: path_ext_def Let_def)
qed

lemma dropWhile_self: "t \<noteq> [] \<Longrightarrow> \<not> P (hd t) \<Longrightarrow> dropWhile P t = t"
  by (cases t) simp_all

lemma walked_base_suffix:
  assumes "walked rel" shows "suffix (path_base rel) rel" and "CHR ''/'' \<notin> set (path_base rel)"
proof -
  have ne: "rel \<noteq> []" using walked_nonempty [OF assms] .
  have "last rel \<noteq> CHR ''/''"
  proof
    assume l: "last rel = CHR ''/''"
    obtain xs where "rel = xs @ [CHR ''/'']" using append_butlast_last_id [OF ne] unfolding l by metis
    then have "last (path_parts rel) = []" using split_snoc [of "\<lambda>c. c = CHR ''/''" "CHR ''/''" xs] by (simp add: path_parts_def)
    moreover have "last (path_parts rel) \<in> set (path_parts rel)" unfolding path_parts_def by (rule last_in_set) simp
    ultimately show False using assms by (auto simp: walked_def list_all_iff)
  qed
  then have "dropWhile (\<lambda>c. c = CHR ''/'') (rev rel) = rev rel" using ne by (intro dropWhile_self) (simp_all add: hd_rev)
  then have b: "path_base rel = last (path_parts rel)" using ne by (simp add: path_base_def)
  show "suffix (path_base rel) rel" unfolding b path_parts_def by (rule last_split_suffix)
  have "last (path_parts rel) \<in> set (path_parts rel)" using split_on_nonempty unfolding path_parts_def by (rule last_in_set)
  then show "CHR ''/'' \<notin> set (path_base rel)" unfolding b path_parts_def using split_on_pieces by fastforce
qed

lemma suffix_to_lower: "suffix a b \<Longrightarrow> suffix (to_lower a) (to_lower b)"
  by (auto simp: suffix_def to_lower_def)

lemma suffix_path_join: "suffix rel (path_join dir rel)"
  by (cases "dir = ''/''") (simp_all add: path_join_def suffix_def)

lemma bin_path_lower:
  assumes "walked rel" and "is_bin (path_base rel)"
  shows "suffix ''.bin'' (to_lower (path_join dir rel))"
proof -
  have "to_lower (path_ext (path_base rel)) = ''.bin''"
    using assms(2) by (simp add: is_bin_def equal_fold_def) (simp add: to_lower_def lower_char_def Let_def)
  moreover have "suffix (path_ext (path_base rel)) (path_join dir rel)"
    using suffix_order.trans [OF suffix_order.trans [OF path_ext_suffix walked_base_suffix(1) [OF assms(1)]] suffix_path_join] .
  ultimately show ?thesis using suffix_to_lower by metis
qed

lemma trim_space_edges: "s \<noteq> [] \<Longrightarrow> \<not> is_space (hd s) \<Longrightarrow> \<not> is_space (last s) \<Longrightarrow> trim_space s = s"
  using dropWhile_self [of s is_space] dropWhile_self [of "rev s" is_space] by (simp add: trim_space_def hd_rev)

lemma path_not_reference:
  assumes "is_abs dir" and "entries_ok entries" and "walked rel" and "is_bin (path_base rel)"
  shows "ResolveFirmwarePath (RootDir dir entries) (path_join dir rel) = Inl RefNotFound" and "isDirectReference (path_join dir rel)"
proof -
  let ?p = "path_join dir rel"
  show "isDirectReference ?p" using bin_path_lower [OF assms(3,4)] by (simp add: isDirectReference_def)
  obtain zs where z: "dir = CHR ''/'' # zs" using assms(1) by (auto simp: is_abs_def prefix_def)
  then have "\<exists>rest. ?p = CHR ''/'' # rest" by (cases "zs = []") (simp_all add: path_join_def)
  then obtain rest where p: "?p = CHR ''/'' # rest" by blast
  have "last (to_lower ?p) = CHR ''n''" using bin_path_lower [OF assms(3,4), of dir] by (auto simp: suffix_def)
  moreover have "last (to_lower ?p) = lower_char (last ?p)" unfolding to_lower_def by (rule last_map) (simp add: p)
  ultimately have n: "lower_char (last ?p) = CHR ''n''" by simp
  have "\<not> is_space (lower_char (last ?p))" unfolding n by (simp add: is_space_def)
  then have "\<not> is_space (last ?p)" by simp
  then have trim: "trim_space ?p = ?p" using p by (intro trim_space_edges) (simp_all add: is_space_def)
  have none: "filter (\<lambda>f. ff_RelativePath f = ?p \<or> ff_Name f = ?p) (firmware_rows dir entries) = []"
  proof (rule filter_False, intro ballI)
    fix f assume "f \<in> set (firmware_rows dir entries)"
    then obtain e where e: "e \<in> set entries" "f = listed_file dir (de_rel e) (de_size e)" using in_firmware_rows by blast
    then have w: "walked (de_rel e)" using assms(2) by (simp add: entries_ok_def list_all_iff)
    have "de_rel e \<noteq> ?p" using walked_relative(1) [OF w] p by (auto simp: is_abs_def)
    moreover have "path_base (de_rel e) \<noteq> ?p" using walked_base_suffix(2) [OF w] p by auto
    ultimately show "\<not> (ff_RelativePath f = ?p \<or> ff_Name f = ?p)" using e(2) by (simp add: listed_file_def)
  qed
  have "decodeFirmwareID ?p = None" using p by (simp add: decodeFirmwareID_def)
  then show "ResolveFirmwarePath (RootDir dir entries) ?p = Inl RefNotFound"
    using p trim none by (simp add: ResolveFirmwarePath_def resolveFirmwareReference_def ListFirmware_def resolve_in_def)
qed

lemma newest_path_in: "fst (newest_path ps best ver) \<in> set (best # ps)"
proof (induction ps arbitrary: best ver)
  case (Cons p ps)
  then show ?case
    using Cons [of best ver] Cons [of p "ff_Version (parseFirmwareFilename (base_name p))"] by (auto simp: Let_def)
qed simp

lemma find_for_flavor_listed:
  assumes "find_for_flavor (RootDir dir entries) flavor = Inr path"
  shows "\<exists>e \<in> set entries. is_bin (path_base (de_rel e)) \<and> path = path_join dir (de_rel e)"
proof -
  let ?c = "map ff_Path (filter (\<lambda>f. equal_fold (ff_Flavor f) flavor) (firmware_rows dir entries))"
  have "path \<in> set ?c"
  proof (cases ?c)
    case (Cons c cs)
    let ?v = "ff_Version (parseFirmwareFilename (base_name c))"
    have "path = fst (newest_path cs c ?v) \<or> path = Max (set (c # cs))"
      using assms Cons by (auto simp: find_for_flavor_def ListFirmware_def FindFirmwareForFlavor_def split: prod.splits if_splits)
    moreover have "Max (set (c # cs)) \<in> set (c # cs)" by (rule Max_in) simp_all
    ultimately show ?thesis using newest_path_in [of cs c ?v] unfolding Cons by metis
  qed (use assms in \<open>simp add: find_for_flavor_def ListFirmware_def FindFirmwareForFlavor_def\<close>)
  then show ?thesis by (auto simp: in_firmware_rows)
qed

text \<open>An upgrade whose reference is the path of a listed file ends with a failure and no effect.\<close>

lemma upgrade_by_path_fails:
  assumes "is_abs dir" and "entries_ok entries" and "walked rel" and "is_bin (path_base rel)"
    and "UpgradeDevice s (RootDir dir entries) r db i (path_join dir rel) force = (db', res, err)"
  shows "db' = db" and "ur_Status (normalizeUpgradeResult res i err) = ''failed''"
proof -
  note P = path_not_reference [OF assms(1-4)]
  have ne: "path_join dir rel \<noteq> []" by (simp add: path_join_def)
  have "upgrade_path (RootDir dir entries) (path_join dir rel) fl = Inl (''firmware not found'', ''firmware not found'')" for fl
    using P ne by (simp add: upgrade_path_def both_texts_def ref_text_def)
  moreover have "upgrade_flavor r db d (path_join dir rel) = Inr (db, dv_flavor d)" for d
    using P(2) ne by (simp add: upgrade_flavor_def)
  ultimately show "db' = db" "ur_Status (normalizeUpgradeResult res i err) = ''failed''"
    using assms(5) by (auto simp: UpgradeDevice_def Let_def normalizeUpgradeResult_def failed_with_def split: option.splits sum.splits)
qed

definition not_upgraded :: "UpgradeResult \<Rightarrow> bool" where
  "not_upgraded r \<longleftrightarrow> ur_Status r = ''failed'' \<or> ur_Status r = ''skipped''"

lemma fanout_one_idle:
  assumes "is_abs dir" and "entries_ok entries" and "list_all not_upgraded (snd st)"
  shows "fst (fanout_upgrade_one s (RootDir dir entries) radios force isAP d st) = fst st"
    and "list_all not_upgraded (snd (fanout_upgrade_one s (RootDir dir entries) radios force isAP d st))"
proof -
  let ?one = "fanout_upgrade_one s (RootDir dir entries) radios force isAP d st"
  have "fst ?one = fst st \<and> list_all not_upgraded (snd ?one)"
  proof (cases "find_for_flavor (RootDir dir entries) (dv_flavor d)")
    case (Inr path)
    obtain e where e: "e \<in> set entries" "is_bin (path_base (de_rel e))" "path = path_join dir (de_rel e)"
      using find_for_flavor_listed [OF Inr] by blast
    have w: "walked (de_rel e)" using e(1) assms(2) by (simp add: entries_ok_def list_all_iff)
    obtain db' res err where u: "UpgradeDevice s (RootDir dir entries) (radios (dv_id d)) (fst st) (dv_id d) path force = (db', res, err)"
      by (metis prod_cases3)
    note F = upgrade_by_path_fails [OF assms(1,2) w e(2) u [unfolded e(3)]]
    show ?thesis
    proof (cases "firmwareMatches (dv_firmware d) (path_base path) \<and> \<not> force")
      case True
      then show ?thesis using assms(3) Inr by (simp add: fanout_upgrade_one_def skip_result_def not_upgraded_def)
    next
      case False
      have "?one = upgrade_one s (RootDir dir entries) radios path force (dv_id d) st"
        unfolding fanout_upgrade_one_def Inr sum.case if_not_P [OF False] ..
      then show ?thesis using assms(3) F u by (simp add: upgrade_one_def not_upgraded_def)
    qed
  qed (use assms(3) in \<open>simp add: fanout_upgrade_one_def skip_result_def not_upgraded_def\<close>)
  then show "fst ?one = fst st" "list_all not_upgraded (snd ?one)" by simp_all
qed

lemma fanout_fold_idle:
  assumes "is_abs dir" and "entries_ok entries"
  shows "list_all not_upgraded (snd st) \<Longrightarrow>
    fst (fold (fanout_upgrade_one s (RootDir dir entries) radios force isAP) ds st) = fst st
    \<and> list_all not_upgraded (snd (fold (fanout_upgrade_one s (RootDir dir entries) radios force isAP) ds st))"
proof (induction ds arbitrary: st)
  case (Cons d ds)
  show ?case using Cons.IH [OF fanout_one_idle(2) [OF assms Cons.prems]] fanout_one_idle(1) [OF assms Cons.prems] by simp
qed simp

text \<open>C20. A fan-out never upgrades anything. The path it picked for a device is passed on as if it
  were a reference, and no reference is an absolute path: for every firmware directory, every
  answer of the radios and either setting of force, the database is unchanged and each result says
  failed or skipped.
\<close>

theorem fanout_never_upgrades:
  assumes "is_abs dir" and "entries_ok entries"
    and "UpgradeFanout s (RootDir dir entries) radios sched query_ok db ap force = (db', Inr results)"
  shows "db' = db \<and> filter (\<lambda>r. ur_Status r \<noteq> ''failed'' \<and> ur_Status r \<noteq> ''skipped'') results = []"
proof -
  obtain d where "find_device db ap = Some d" using assms(3) by (cases "find_device db ap") (simp_all add: UpgradeFanout_def)
  then have r: "db' = fst (fanout_upgrade_one s (RootDir dir entries) radios force True d
        (fold (fanout_upgrade_one s (RootDir dir entries) radios force False) (sched (filter (\<lambda>d. dv_parent d = Some ap) (fw_devices db))) (db, [])))"
    "results = snd (fanout_upgrade_one s (RootDir dir entries) radios force True d
        (fold (fanout_upgrade_one s (RootDir dir entries) radios force False) (sched (filter (\<lambda>d. dv_parent d = Some ap) (fw_devices db))) (db, [])))"
    using assms(3) by (auto simp: UpgradeFanout_def Let_def split: if_splits)
  note F = fanout_fold_idle [OF assms(1,2), of "(db, [])" s radios force False "sched (filter (\<lambda>d. dv_parent d = Some ap) (fw_devices db))", simplified]
  have "db' = db" unfolding r using fanout_one_idle(1) [OF assms(1,2)] F by simp
  moreover have "list_all not_upgraded results" unfolding r by (rule fanout_one_idle(2) [OF assms(1,2)]) (use F in simp)
  ultimately show ?thesis by (auto simp: list_all_iff not_upgraded_def filter_empty_conv)
qed

section \<open>Stored credentials\<close>

text \<open>
  A device password after a retry: the one that was stored, or the sealed form of the password the
  user gave.
\<close>

definition kept_or_sealed :: "aead \<Rightarrow> string \<Rightarrow> device_row \<Rightarrow> device_row \<Rightarrow> bool" where
  "kept_or_sealed m password d d' \<longleftrightarrow>
     dv_id d' = dv_id d \<and> (dv_password d' = dv_password d \<or> IsEncrypted (dv_password d') \<and> Decrypt m (dv_password d') = Inr password)"

lemma kept_or_sealed_trans: "kept_or_sealed m p a b \<Longrightarrow> kept_or_sealed m p b c \<Longrightarrow> kept_or_sealed m p a c"
  by (auto simp: kept_or_sealed_def)

lemma kept_refl: "list_all2 (kept_or_sealed m p) ds ds"
  by (rule list.rel_refl) (simp add: kept_or_sealed_def)

lemma kept_trans: "list_all2 (kept_or_sealed m p) as bs \<Longrightarrow> list_all2 (kept_or_sealed m p) bs cs \<Longrightarrow> list_all2 (kept_or_sealed m p) as cs"
  by (rule list_all2_trans [OF kept_or_sealed_trans])

lemma run_upgrade_devices: "run_upgrade r db result file outcome = (db', result') \<Longrightarrow> fw_devices db' = fw_devices db"
  by (auto simp: run_upgrade_def insert_job_def end_job_def split: option.splits if_splits)

lemma store_credential_kept:
  assumes "fs_secret s = Some m" and "opens_sealed m" and "case nonce of None \<Rightarrow> True | Some n \<Rightarrow> length n = nonce_size m"
  shows "list_all2 (kept_or_sealed m password) (fw_devices db) (fw_devices (store_credential s nonce ok db i username password))"
proof (cases "Encrypt m nonce password")
  case (Inr e)
  note E = encrypt_decrypts [OF assms(2,3) Inr]
  have "kept_or_sealed m password d (d\<lparr>dv_username := username, dv_password := e\<rparr>)" if "e \<noteq> []" for d
    using E that by (simp add: kept_or_sealed_def)
  then show ?thesis
    using Inr assms(1) kept_refl [of m password "fw_devices db"]
    by (auto simp: store_credential_def update_where_def list_all2_map2 list.rel_refl kept_or_sealed_def intro!: list_all2_refl)
qed (use assms(1) kept_refl in \<open>simp add: store_credential_def\<close>)

text \<open>The random source gives nonces of the cipher's size, for every device.\<close>

definition device_nonces_sized :: "aead \<Rightarrow> (int \<Rightarrow> string option) \<Rightarrow> bool" where
  "device_nonces_sized m nonces \<longleftrightarrow> (\<forall>i. case nonces i of None \<Rightarrow> True | Some n \<Rightarrow> length n = nonce_size m)"

lemma retry_one_kept:
  assumes "fs_secret s = Some m" and "opens_sealed m" and "device_nonces_sized m nonces"
  shows "list_all2 (kept_or_sealed m password) (fw_devices (fst st))
    (fw_devices (fst (retry_one s fwroot radios nonces username password force i st)))"
proof (cases "find_device (fst st) i")
  case (Some d)
  show ?thesis
  proof (cases "find_for_flavor fwroot (dv_flavor d)")
    case (Inr path)
    show ?thesis
    proof (cases "firmwareMatches (dv_firmware d) (path_base path) \<and> \<not> force")
      case True
      then show ?thesis using Some Inr kept_refl by (simp add: retry_one_def Let_def)
    next
      case False
      have n: "case nonces i of None \<Rightarrow> True | Some n \<Rightarrow> length n = nonce_size m"
        using assms(3) by (simp add: device_nonces_sized_def)
      let ?out = "if to_lower (dv_platform d) = ''airmax'' then doUpgradeAirMAX s (radios i) username password
                  else doUpgradeWithCreds (radios i) username password (to_lower (dv_platform d))"
      let ?run = "run_upgrade (radios i) (fst st) ((base_result d)\<lparr>ur_NewVersion := trim_suffix (path_base path) ''.bin''\<rparr>) (path_base path) ?out"
      obtain db2 res where r1: "?run = (db2, res)" by (cases ?run)
      have r2: "retry_one s fwroot radios nonces username password force i st
          = (if ?out = None then store_credential s (nonces i) (rd_persist_ok (radios i)) db2 i username password else db2, snd st @ [res])"
        unfolding retry_one_def Some Inr option.case sum.case Let_def if_not_P [OF False] r1 prod.case ..
      show ?thesis
        unfolding r2 using store_credential_kept [OF assms(1,2) n, of password db2 _ i username] run_upgrade_devices [OF r1] kept_refl by simp
    qed
  qed (use Some kept_refl in \<open>simp add: retry_one_def\<close>)
qed (use kept_refl in \<open>simp add: retry_one_def\<close>)

text \<open>
  A retry stores the user's password in sealed form only. With a data key, every device row
  after a retry with given credentials has the id it had, and either the stored password it had or
  a value that is marked as encrypted and decrypts to the given password.
\<close>

theorem retry_stores_sealed:
  assumes "fs_secret s = Some m" and "opens_sealed m" and "device_nonces_sized m nonces"
    and "RetryUpgradeWithCredentials s fwroot radios nonces sched db ids username password force = (db', results)"
  shows "list_all2 (kept_or_sealed m password) (fw_devices db) (fw_devices db')"
proof -
  have "list_all2 (kept_or_sealed m password) (fw_devices (fst st))
      (fw_devices (fst (fold (retry_one s fwroot radios nonces username password force) is st)))" for "is" st
  proof (induction "is" arbitrary: st)
    case (Cons i "is")
    show ?case using kept_trans [OF retry_one_kept [OF assms(1-3)] Cons.IH] by simp
  qed (simp add: kept_refl)
  from this [of "(db, [])" "sched ids"] show ?thesis using assms(4) by (simp add: RetryUpgradeWithCredentials_def)
qed

text \<open>
  A password that looks like a stored secret locks its device out. The stored password of a
  device is decrypted, and the outcome decrypted once more: when the true password itself begins
  like a sealed value and is none, every upgrade of the device fails before the radio is asked,
  although the password was stored correctly.
\<close>

theorem password_decrypted_twice:
  assumes "fs_secret s = Some m" and "opens_sealed m" and "length n = nonce_size m" and "p \<noteq> []"
    and "Encrypt m (Some n) p = Inr (dv_password d)" and "Decrypt m p = Inl e" and "find_device db i = Some d"
  shows "UpgradeDevice s fwroot r db i file force
    = (db, Some (failed_with (base_result d) (''decrypt device credential: '' @ secret_text e)), Some (''decrypt device credential: '' @ secret_text e))"
proof -
  have E: "Decrypt m (dv_password d) = Inr p" "dv_password d \<noteq> []"
    using encrypt_decrypts [OF assms(2) _ assms(5)] assms(3,4) by (auto simp: IsEncrypted_def enc_prefix_def)
  have "decryptSecret (fs_secret s) (dv_password d) = Inr p" using E assms(1) by (simp add: decryptSecret_def)
  moreover have "decryptSecret (fs_secret s) p = Inl (secret_text e)" using assms(1,4,6) by (simp add: decryptSecret_def)
  ultimately show ?thesis using assms(4,7) by (simp add: UpgradeDevice_def resolveCredential_def Let_def)
qed

section \<open>The configured credentials\<close>

text \<open>A pair comes from one numbered slot, or from the older settings with one user name.\<close>

definition from_slot :: "settings_reader \<Rightarrow> aead option \<Rightarrow> string \<Rightarrow> Credential \<Rightarrow> bool" where
  "from_slot settings store pre c \<longleftrightarrow>
     (\<exists>i \<in> {1, 2, 3}. \<exists>user stored. settings (pre @ ''_cred'' @ nat_str i @ ''_user'') = Inr user \<and> cr_user c = trim_space user
        \<and> settings (pre @ ''_cred'' @ nat_str i @ ''_pass'') = Inr stored \<and> decryptSecret store stored = Inr (cr_pass c))"

definition from_legacy :: "settings_reader \<Rightarrow> aead option \<Rightarrow> (string \<Rightarrow> string + string list) \<Rightarrow> string \<Rightarrow> Credential \<Rightarrow> bool" where
  "from_legacy settings store json pre c \<longleftrightarrow>
     (\<exists>user stored plain passwords. settings (pre @ ''_username'') = Inr user \<and> cr_user c = trim_space user
        \<and> settings (pre @ ''_passwords'') = Inr stored \<and> decryptSecret store stored = Inr plain \<and> json plain = Inr passwords
        \<and> cr_pass c \<in> set passwords)"

definition intact_pairs :: "settings_reader \<Rightarrow> aead option \<Rightarrow> (string \<Rightarrow> string + string list) \<Rightarrow> string \<Rightarrow> Credential list \<Rightarrow> bool" where
  "intact_pairs settings store json pre cs \<longleftrightarrow>
     distinct cs \<and> list_all (\<lambda>c. cr_user c \<noteq> [] \<and> cr_pass c \<noteq> [] \<and> (from_slot settings store pre c \<or> from_legacy settings store json pre c)) cs"

lemma dedupe_loop_facts:
  "c \<in> set (dedupe_loop cs seen) \<Longrightarrow>
     cr_user c \<noteq> [] \<and> cr_pass c \<noteq> [] \<and> cr_user c @ [CHR 0x00] @ cr_pass c \<notin> set seen
     \<and> (\<exists>c0 \<in> set cs. c = c0\<lparr>cr_user := trim_space (cr_user c0)\<rparr>)"
  by (induction cs seen rule: dedupe_loop.induct) (auto simp: Let_def split: if_splits)

lemma dedupe_loop_distinct: "distinct (dedupe_loop cs seen)"
proof (induction cs seen rule: dedupe_loop.induct)
  case (2 c cs seen)
  let ?u = "trim_space (cr_user c)"
  let ?k = "?u @ [CHR 0x00] @ cr_pass c"
  have "c\<lparr>cr_user := ?u\<rparr> \<notin> set (dedupe_loop cs (?k # seen))"
    using dedupe_loop_facts [of "c\<lparr>cr_user := ?u\<rparr>" cs "?k # seen"] by auto
  then show ?case using 2 by (simp add: Let_def)
qed simp

lemma slot_pair:
  assumes "credential_slot settings store pre i = Inr cs" and "c \<in> set cs" and "i \<in> {1, 2, 3}"
  shows "from_slot settings store pre c" and "trim_space (cr_user c) = cr_user c"
  using assms by (fastforce simp: credential_slot_def from_slot_def Let_def split: sum.splits if_splits)+

lemma slots_fold:
  assumes "try_fold (\<lambda>i pairs. case credential_slot settings store pre i of Inl e \<Rightarrow> Inl e | Inr cs \<Rightarrow> Inr (pairs @ cs)) is acc = Inr pairs"
    and "set is \<subseteq> {1, 2, 3}"
    and "list_all (\<lambda>c. from_slot settings store pre c \<and> trim_space (cr_user c) = cr_user c) acc"
  shows "list_all (\<lambda>c. from_slot settings store pre c \<and> trim_space (cr_user c) = cr_user c) pairs"
  using assms
proof (induction "is" arbitrary: acc)
  case (Cons i "is")
  then obtain cs where s: "credential_slot settings store pre i = Inr cs" by (auto split: sum.splits)
  have "list_all (\<lambda>c. from_slot settings store pre c \<and> trim_space (cr_user c) = cr_user c) (acc @ cs)"
    using Cons.prems(2,3) slot_pair [OF s] by (auto simp: list_all_iff)
  then show ?case using Cons.IH [of "acc @ cs"] Cons.prems s by simp
qed simp

lemma readCredentialPairs_intact:
  assumes "readCredentialPairs settings store pre = Inr cs"
  shows "intact_pairs settings store json pre cs"
proof -
  obtain pairs where p: "try_fold (\<lambda>i pairs. case credential_slot settings store pre i of Inl e \<Rightarrow> Inl e | Inr cs \<Rightarrow> Inr (pairs @ cs)) [1, 2, 3] [] = Inr pairs"
    "cs = dedupeCredentials pairs"
    using assms by (auto simp: readCredentialPairs_def split: sum.splits)
  have "list_all (\<lambda>c. from_slot settings store pre c \<and> trim_space (cr_user c) = cr_user c) pairs"
    by (rule slots_fold [OF p(1)]) simp_all
  then show ?thesis
    using dedupe_loop_facts [of _ pairs "[]"] dedupe_loop_distinct [of pairs "[]"]
    by (fastforce simp: intact_pairs_def p(2) dedupeCredentials_def list_all_iff)
qed

lemma readLegacy_intact:
  assumes "readLegacyCredentialPairs settings store json pre = Inr cs"
  shows "intact_pairs settings store json pre cs"
proof -
  consider "cs = []"
    | user stored plain passwords where "settings (pre @ ''_username'') = Inr user" "settings (pre @ ''_passwords'') = Inr stored"
      "decryptSecret store stored = Inr plain" "json plain = Inr passwords"
      "cs = dedupeCredentials (map (\<lambda>p. \<lparr>cr_user = trim_space user, cr_pass = p\<rparr>) (filter (\<lambda>p. p \<noteq> []) passwords))"
    using assms by (fastforce simp: readLegacyCredentialPairs_def Let_def split: sum.splits if_splits)
  then show ?thesis
  proof cases
    case 2
    have "from_legacy settings store json pre c" if "c \<in> set cs" for c
      using dedupe_loop_facts [of c _ "[]"] that 2 by (fastforce simp: dedupeCredentials_def from_legacy_def)
    then show ?thesis using dedupe_loop_facts [of _ _ "[]"] dedupe_loop_distinct
      by (auto simp: intact_pairs_def 2(5) dedupeCredentials_def list_all_iff)
  qed (simp add: intact_pairs_def)
qed

lemma role_credentials_intact:
  "role_credentials settings store json pre name = Inr cs \<Longrightarrow> intact_pairs settings store json pre cs"
  using readCredentialPairs_intact [of settings store pre _ json] readLegacy_intact [of settings store json pre]
  by (auto simp: role_credentials_def split: sum.splits list.splits)

text \<open>
  Credentials are used in the pairs they were configured in. After a successful load every
  pair of the access points' list is complete, occurs once, and takes its user name and its password
  from the same slot (or from the older settings of the role); the stations' list likewise, or it is
  the access points' one. A load that fails anywhere leaves the pairs in force as they were.
\<close>

theorem load_keeps_pairs:
  "case loadConfig settings json s of (s', err) \<Rightarrow>
     (case err of
        Some _ \<Rightarrow> s' = s
      | None \<Rightarrow> intact_pairs settings (fs_secret s) json ''ap'' (fs_ap s')
          \<and> (fs_sta s' = fs_ap s' \<or> intact_pairs settings (fs_secret s) json ''sta'' (fs_sta s')))"
  using role_credentials_intact [of settings "fs_secret s" json]
  by (fastforce simp: loadConfig_def split: sum.splits)

section \<open>Examples\<close>

definition plain_service :: fw_service where
  "plain_service = \<lparr>fs_ap = [\<lparr>cr_user = ''ubnt'', cr_pass = ''pw''\<rparr>], fs_sta = [], fs_secret = Some open_cipher\<rparr>"

definition quiet_radio :: radio where
  "quiet_radio = \<lparr>rd_infer = Inl ''offline'', rd_login = (\<lambda>u p. Inl ''timeout''), rd_upload = (\<lambda>_. None), rd_polls = [],
     rd_flash = (\<lambda>_ _. None), rd_reboot = (\<lambda>_. None), rd_read = None, rd_airmax_login = (\<lambda>_. None), rd_airmax_flash = None,
     rd_persist_ok = True, rd_insert_ok = True, rd_update_ok = True\<rparr>"

definition example_device :: "int \<Rightarrow> int option \<Rightarrow> device_row" where
  "example_device i up = \<lparr>dv_id = i, dv_ip = ''10.0.0.1'', dv_mac = ''aa'', dv_hostname = ''h'', dv_username = [], dv_password = [],
     dv_flavor = ''WA'', dv_platform = ''airmax'', dv_firmware = ''v1.0.0'', dv_parent = up\<rparr>"

definition example_fw_db :: fw_db where
  "example_fw_db = \<lparr>fw_devices = [example_device 1 None, example_device 2 (Some 1)], fw_jobs = [], fw_next = 1\<rparr>"

lemma upgrade_job_agrees_witness:
  "\<exists>db' result err. UpgradeDevice plain_service (RootDir ''/fw'' two_files) quiet_radio example_fw_db 1 (encodeFirmwareID ''WA.v8.7.1.bin'') True
      = (db', Some result, err) \<and> job_agrees quiet_radio example_fw_db db' result"
proof -
  have ok: "jobs_ok example_fw_db" by (simp add: jobs_ok_def example_fw_db_def)
  have f: "find_device example_fw_db 1 = Some (example_device 1 None)"
    by (simp add: find_device_def example_fw_db_def example_device_def)
  obtain db' res err where u: "UpgradeDevice plain_service (RootDir ''/fw'' two_files) quiet_radio example_fw_db 1 (encodeFirmwareID ''WA.v8.7.1.bin'') True
      = (db', res, err)" by (metis prod_cases3)
  then obtain result where "res = Some result" using f by (cases rule: UpgradeDevice_cases) auto
  then show ?thesis using upgrade_job_agrees [OF ok] u by blast
qed

lemma bulk_upgrade_covers_witness:
  "\<exists>db' results. UpgradeBulk plain_service (RootDir ''/fw'' two_files) (\<lambda>_. quiet_radio) (\<lambda>x. x) (\<lambda>x. x) example_fw_db [1, 2] [] False = (db', results)
     \<and> mset (map ur_DeviceID results) = {#1, 2#} \<and> 2 \<in> set (takeWhile (\<lambda>x. x \<noteq> 1) (map ur_DeviceID results))"
proof -
  obtain db' results where b: "UpgradeBulk plain_service (RootDir ''/fw'' two_files) (\<lambda>_. quiet_radio) (\<lambda>x. x) (\<lambda>x. x) example_fw_db [1, 2] [] False
      = (db', results)" by (metis prod.exhaust)
  have p: "parent_of example_fw_db 2 = Some 1" "parent_of example_fw_db 1 = None"
    by (simp_all add: parent_of_def find_device_def example_fw_db_def example_device_def)
  show ?thesis using bulk_upgrade_covers [OF _ _ b] b p by auto
qed

lemma fanout_never_upgrades_witness:
  "\<exists>db' results. UpgradeFanout plain_service (RootDir ''/fw'' two_files) (\<lambda>_. quiet_radio) (\<lambda>x. x) True example_fw_db 1 True = (db', Inr results)
     \<and> db' = example_fw_db"
proof -
  have f: "find_device example_fw_db 1 \<noteq> None" by (simp add: find_device_def example_fw_db_def example_device_def)
  then obtain db' results where u:
    "UpgradeFanout plain_service (RootDir ''/fw'' two_files) (\<lambda>_. quiet_radio) (\<lambda>x. x) True example_fw_db 1 True = (db', Inr results)"
    by (auto simp: UpgradeFanout_def Let_def)
  have "is_abs ''/fw''" by (simp add: is_abs_def)
  from fanout_never_upgrades [OF this two_files_ok(1) u] u show ?thesis by blast
qed

lemma retry_stores_sealed_witness:
  "\<exists>db' results. RetryUpgradeWithCredentials plain_service (RootDir ''/fw'' two_files) (\<lambda>_. quiet_radio) (\<lambda>_. Some ''00'') (\<lambda>x. x) example_fw_db
      [1] ''root'' ''secret'' True = (db', results)
     \<and> list_all2 (kept_or_sealed open_cipher ''secret'') (fw_devices example_fw_db) (fw_devices db')"
proof -
  obtain db' results where r: "RetryUpgradeWithCredentials plain_service (RootDir ''/fw'' two_files) (\<lambda>_. quiet_radio) (\<lambda>_. Some ''00'') (\<lambda>x. x) example_fw_db
      [1] ''root'' ''secret'' True = (db', results)" by (metis prod.exhaust)
  have s: "fs_secret plain_service = Some open_cipher" by (simp add: plain_service_def)
  have "device_nonces_sized open_cipher (\<lambda>_. Some ''00'')" by (simp add: device_nonces_sized_def open_cipher_def)
  from retry_stores_sealed [OF s open_cipher_ok(1) this r] r show ?thesis by blast
qed

lemma password_decrypted_twice_witness:
  "\<exists>stored db. Encrypt open_cipher (Some ''00'') ''enc:v1:?'' = Inr stored \<and> fw_devices db = [(example_device 1 None)\<lparr>dv_password := stored\<rparr>]
     \<and> fst (UpgradeDevice plain_service RootMissing quiet_radio db 1 [] True) = db"
proof -
  obtain stored where e: "Encrypt open_cipher (Some ''00'') ''enc:v1:?'' = Inr stored" by (simp add: Encrypt_def)
  let ?d = "(example_device 1 None)\<lparr>dv_password := stored\<rparr>" and ?db = "example_fw_db\<lparr>fw_devices := [(example_device 1 None)\<lparr>dv_password := stored\<rparr>]\<rparr>"
  have s: "fs_secret plain_service = Some open_cipher" by (simp add: plain_service_def)
  have "Decrypt open_cipher ''enc:v1:?'' = Inl BadEncoding" by code_simp
  moreover have "find_device ?db 1 = Some ?d" by (simp add: find_device_def example_device_def)
  ultimately have "fst (UpgradeDevice plain_service RootMissing quiet_radio ?db 1 [] True) = ?db"
    using password_decrypted_twice [OF s open_cipher_ok(1), of "''00''" "''enc:v1:?''" ?d BadEncoding ?db 1] e by (simp add: open_cipher_def)
  then show ?thesis using e by (intro exI [of _ stored] exI [of _ ?db]) simp
qed

end
