(* ===== verification/FirmwareReboot.thy ===== *)
theory FirmwareReboot imports FirmwareUpgrade begin

text \<open>
  Reboots (src/internal/firmware/reboot.go): which interface of a radio a reboot uses, which
  credentials it tries in which order, and what counts as success. The answers of the radio are
  parameters.
\<close>

section \<open>Credentials to try\<close>

definition add_candidate :: "string \<Rightarrow> string \<Rightarrow> (string \<times> string) list \<Rightarrow> (string \<times> string) list" where
  "add_candidate user0 pass out =
     (let user = trim_space user0 in
      if user = [] \<or> pass = [] then out else if list_ex (\<lambda>e. e = (user, pass)) out then out else out @ [(user, pass)])"

definition rebootCredentialCandidates :: "fw_service \<Rightarrow> string \<Rightarrow> string \<Rightarrow> (string \<times> string) list" where
  "rebootCredentialCandidates s username password =
     (let configured = credentialSnapshot s True @ credentialSnapshot s False;
          add_all = fold (\<lambda>c. add_candidate (cr_user c) (cr_pass c));
          out1 = add_candidate username password [];
          out2 = (if username \<noteq> [] \<and> password = []
                  then add_all (filter (\<lambda>c. equal_fold (trim_space (cr_user c)) (trim_space username)) configured) out1 else out1)
      in add_all configured out2)"

section \<open>The two interfaces\<close>

text \<open>The answers of one radio: the HTTP client's error texts, a status code with the body, and the CGI client.\<close>

record reboot_radio =
  rr_login :: "string \<Rightarrow> string \<Rightarrow> string + string"
  rr_post :: "string \<Rightarrow> string + int \<times> string"
  rr_cgi_login :: "(string \<times> string) list \<Rightarrow> string option"
  rr_cgi_reboot :: "string option"

definition rebootREST :: "reboot_radio \<Rightarrow> string \<Rightarrow> string option" where
  "rebootREST r token =
     (case rr_post r token of
        Inl e \<Rightarrow> if isConnectionError e \<or> contains_str e ''EOF'' then None else Some e
      | Inr (code, body) \<Rightarrow>
          (if code = 200 \<or> code = 204 \<or> code = 202 then None
           else Some (''REST reboot returned status '' @ int_str code @ '': '' @ trim_space (take 512 body))))"

fun wave_loop :: "reboot_radio \<Rightarrow> (string \<times> string) list \<Rightarrow> string option \<Rightarrow> string option" where
  "wave_loop r [] lastErr = (case lastErr of None \<Rightarrow> Some ''all REST reboot credentials failed'' | Some e \<Rightarrow> Some e)"
| "wave_loop r ((u, p) # cs) lastErr =
     (case rr_login r u p of
        Inl e \<Rightarrow> if isConnectionError e then Some e else wave_loop r cs (Some e)
      | Inr token \<Rightarrow>
          (case rebootREST r token of
             None \<Rightarrow> None
           | Some e \<Rightarrow> if isConnectionError e then Some e else wave_loop r cs (Some e)))"

definition rebootWaveLike :: "fw_service \<Rightarrow> reboot_radio \<Rightarrow> string \<Rightarrow> string \<Rightarrow> string option" where
  "rebootWaveLike s r username password =
     (let creds = rebootCredentialCandidates s username password in
      if creds = [] then Some ''no credentials available for REST reboot'' else wave_loop r creds None)"

definition rebootAirMAXLike :: "fw_service \<Rightarrow> reboot_radio \<Rightarrow> string \<Rightarrow> string \<Rightarrow> string option" where
  "rebootAirMAXLike s r username password =
     (let creds = rebootCredentialCandidates s username password in
      if creds = [] then Some ''no credentials available for airMAX CGI reboot''
      else case rr_cgi_login r creds of Some e \<Rightarrow> Some (''airMAX login failed: '' @ e) | None \<Rightarrow> rr_cgi_reboot r)"

section \<open>Dispatch\<close>

definition inferRebootPlatformFromFlavor :: "string \<Rightarrow> string" where
  "inferRebootPlatformFromFlavor flavor0 =
     (let flavor = to_upper (trim_space flavor0); starts = list_ex (\<lambda>p. prefix p flavor) in
      if starts [''GMC'', ''GMP'', ''MGMP'', ''MW'', ''GP''] then ''wave''
      else if starts [''AFLTU'', ''AF5XHD''] then ''ltu''
      else if starts [''XC'', ''2XC'', ''WA'', ''2WA'', ''XM'', ''XW''] then ''airmax''
      else if starts [''AF''] then ''airfiber'' else [])"

record RebootResult =
  rb_DeviceID :: int
  rb_DeviceIP :: string
  rb_DeviceMAC :: string
  rb_Hostname :: string
  rb_Platform :: string
  rb_Flavor :: string
  rb_API :: string
  rb_Status :: string
  rb_Message :: string

text \<open>The platform a reboot works with.\<close>

definition reboot_platform :: "string \<Rightarrow> string \<Rightarrow> string" where
  "reboot_platform platform flavor =
     (let p = to_lower (trim_space platform) in if p = [] then inferRebootPlatformFromFlavor (to_upper (trim_space flavor)) else p)"

text \<open>Which interface accepted the reboot, given the outcomes of the two (the second is only asked for when needed).\<close>

definition reboot_api :: "string \<Rightarrow> string option \<Rightarrow> string option \<Rightarrow> string + string" where
  "reboot_api p wave cgi =
     (if p = ''wave'' then (case wave of None \<Rightarrow> Inr ''wave_json'' | Some e \<Rightarrow> Inl e)
      else if p = ''ltu'' then
        (case wave of
           None \<Rightarrow> Inr ''ltu_json''
         | Some e \<Rightarrow>
             (case cgi of
                None \<Rightarrow> Inr ''ltu_airmax_cgi_fallback''
              | Some e2 \<Rightarrow> Inl (''ltu REST reboot failed: '' @ e @ ''; airMAX CGI fallback failed: '' @ e2)))
      else if p \<in> {''airmax'', ''airfiber'', ''ac'', ''m''} then (case cgi of None \<Rightarrow> Inr ''airmax_cgi'' | Some e \<Rightarrow> Inl e)
      else
        (case wave of
           None \<Rightarrow> Inr ''auto_wave_json''
         | Some e \<Rightarrow>
             (if isConnectionError e then Inl e
              else case cgi of
                None \<Rightarrow> Inr ''auto_airmax_cgi''
              | Some e2 \<Rightarrow> Inl (''auto Wave/LTU reboot failed: '' @ e @ ''; airMAX CGI reboot failed: '' @ e2))))"

definition RebootDeviceTarget ::
  "fw_service \<Rightarrow> reboot_radio \<Rightarrow> int \<Rightarrow> string \<Rightarrow> string \<Rightarrow> string \<Rightarrow> string \<Rightarrow> string \<Rightarrow> string \<Rightarrow> string \<Rightarrow> string + RebootResult" where
  "RebootDeviceTarget s r deviceID ip mac hostname username password0 platform flavor =
     (case (if password0 = [] then Inr [] else decryptSecret (fs_secret s) password0) of
        Inl e \<Rightarrow> Inl (''decrypt device credential: '' @ e)
      | Inr password \<Rightarrow>
          (let p = reboot_platform platform flavor in
           case reboot_api p (rebootWaveLike s r username password) (rebootAirMAXLike s r username password) of
             Inl e \<Rightarrow> Inl e
           | Inr api \<Rightarrow>
               Inr \<lparr>rb_DeviceID = deviceID, rb_DeviceIP = trim_space ip, rb_DeviceMAC = to_lower (trim_space mac), rb_Hostname = hostname,
                    rb_Platform = p, rb_Flavor = to_upper (trim_space flavor), rb_API = api, rb_Status = ''rebooting'',
                    rb_Message = ''reboot initiated''\<rparr>))"

definition RebootDeviceByID :: "fw_service \<Rightarrow> reboot_radio \<Rightarrow> fw_db \<Rightarrow> int \<Rightarrow> string + RebootResult" where
  "RebootDeviceByID s r db deviceID =
     (case find_device db deviceID of
        None \<Rightarrow> Inl ''device not found''
      | Some d \<Rightarrow>
          (if trim_space (dv_ip d) = [] then Inl ''device has no management IP''
           else RebootDeviceTarget s r deviceID (dv_ip d) (dv_mac d) (dv_hostname d) (dv_username d) (dv_password d) (dv_platform d) (dv_flavor d)))"

definition RebootDevice :: "fw_service \<Rightarrow> reboot_radio \<Rightarrow> string \<Rightarrow> string \<Rightarrow> string \<Rightarrow> string option" where
  "RebootDevice s r ip username password =
     (case RebootDeviceTarget s r 0 (trim_space ip) [] [] username password [] [] of Inl e \<Rightarrow> Some e | Inr _ \<Rightarrow> None)"

section \<open>What is tried\<close>

lemma add_candidate_distinct: "distinct out \<Longrightarrow> distinct (add_candidate u p out)"
  by (auto simp: add_candidate_def Let_def list_ex_iff)

lemma set_add_candidate: "set (add_candidate u p out) = set out \<union> (if trim_space u = [] \<or> p = [] then {} else {(trim_space u, p)})"
  by (auto simp: add_candidate_def Let_def list_ex_iff)

lemma add_all_distinct: "distinct out \<Longrightarrow> distinct (fold (\<lambda>c. add_candidate (cr_user c) (cr_pass c)) cs out)"
  by (induction cs arbitrary: out) (simp_all add: add_candidate_distinct)

lemma add_all_set:
  "set (fold (\<lambda>c. add_candidate (cr_user c) (cr_pass c)) cs out)
   = set out \<union> {(trim_space (cr_user c), cr_pass c) | c. c \<in> set cs \<and> trim_space (cr_user c) \<noteq> [] \<and> cr_pass c \<noteq> []}"
  by (induction cs arbitrary: out) (auto simp: set_add_candidate)

lemma add_candidate_prefix: "\<exists>ys. add_candidate u p out = out @ ys"
  by (auto simp: add_candidate_def Let_def)

lemma add_all_prefix: "\<exists>ys. fold (\<lambda>c. add_candidate (cr_user c) (cr_pass c)) cs out = out @ ys"
proof (induction cs arbitrary: out)
  case (Cons c cs)
  then show ?case using add_candidate_prefix [of "cr_user c" "cr_pass c" out] by (metis append.assoc fold_simps(2))
qed simp

lemma wave_loop_success:
  "wave_loop r cs e = None \<Longrightarrow> \<exists>c \<in> set cs. \<exists>token. rr_login r (fst c) (snd c) = Inr token \<and> rebootREST r token = None"
  by (induction r cs e rule: wave_loop.induct) (auto split: option.splits sum.splits if_splits)

text \<open>The configured pairs that can be tried at all.\<close>

definition usable_pairs :: "fw_service \<Rightarrow> (string \<times> string) set" where
  "usable_pairs s = {(trim_space (cr_user c), cr_pass c) | c. c \<in> set (fs_ap s @ fs_sta s) \<and> trim_space (cr_user c) \<noteq> [] \<and> cr_pass c \<noteq> []}"

text \<open>
  A reboot tries the device's own pair first and then every configured pair, each once and
  none recombined. The candidates are distinct; they are exactly the complete configured pairs and
  the given one when it is complete, which then comes first.
\<close>

theorem reboot_candidates_exact:
  "distinct (rebootCredentialCandidates s username password)
   \<and> set (rebootCredentialCandidates s username password)
       = (if trim_space username = [] \<or> password = [] then usable_pairs s else insert (trim_space username, password) (usable_pairs s))
   \<and> (if trim_space username = [] \<or> password = [] then True
      else hd (rebootCredentialCandidates s username password) = (trim_space username, password))"
proof -
  let ?cs = "rebootCredentialCandidates s username password"
  let ?all = "fold (\<lambda>c. add_candidate (cr_user c) (cr_pass c))" and ?conf = "fs_ap s @ fs_sta s"
  let ?out1 = "add_candidate username password []"
  let ?out2 = "if username \<noteq> [] \<and> password = []
      then ?all (filter (\<lambda>c. equal_fold (trim_space (cr_user c)) (trim_space username)) ?conf) ?out1 else ?out1"
  have cs: "?cs = ?all ?conf ?out2" by (simp add: rebootCredentialCandidates_def Let_def credentialSnapshot_def)
  have "distinct ?out2" by (simp add: add_all_distinct add_candidate_distinct)
  then have d: "distinct ?cs" unfolding cs by (rule add_all_distinct)
  have u: "usable_pairs s = {(trim_space (cr_user c), cr_pass c) | c. c \<in> set ?conf \<and> trim_space (cr_user c) \<noteq> [] \<and> cr_pass c \<noteq> []}"
    by (simp add: usable_pairs_def)
  have s: "set ?cs = usable_pairs s \<union> set ?out1" unfolding cs add_all_set u by (auto simp: add_all_set)
  have h: "hd ?cs = (trim_space username, password)" if "trim_space username \<noteq> []" "password \<noteq> []"
  proof -
    have o2: "?out2 = [(trim_space username, password)]" using that by (simp add: add_candidate_def)
    obtain ys where "?all ?conf [(trim_space username, password)] = [(trim_space username, password)] @ ys" using add_all_prefix by blast
    then show ?thesis unfolding cs o2 by simp
  qed
  have s': "set ?cs = (if trim_space username = [] \<or> password = [] then usable_pairs s else insert (trim_space username, password) (usable_pairs s))"
    unfolding s set_add_candidate by (cases "trim_space username = [] \<or> password = []") (simp_all only: if_True if_False if_P if_not_P set_simps Un_empty_left Un_empty_right Un_insert_right)
  show ?thesis using d s' h by (cases "trim_space username = [] \<or> password = []") (simp_all only: if_True if_False de_Morgan_disj simp_thms)
qed

definition json_apis :: "string list" where
  "json_apis = [''wave_json'', ''ltu_json'', ''auto_wave_json'']"

definition cgi_platforms :: "string list" where
  "cgi_platforms = [''airmax'', ''airfiber'', ''ac'', ''m'']"

lemma reboot_api_wave: "reboot_api ''wave'' w c = Inr api \<Longrightarrow> api = ''wave_json'' \<and> w = None"
  by (simp add: reboot_api_def split: option.splits)

lemma reboot_api_ltu:
  "reboot_api ''ltu'' w c = Inr api \<Longrightarrow> api = ''ltu_json'' \<and> w = None \<or> api = ''ltu_airmax_cgi_fallback'' \<and> w \<noteq> None \<and> c = None"
  by (simp add: reboot_api_def split: option.splits)

lemma reboot_api_cgi: "p \<in> set cgi_platforms \<Longrightarrow> reboot_api p w c = Inr api \<Longrightarrow> api = ''airmax_cgi'' \<and> c = None"
  by (auto simp: reboot_api_def cgi_platforms_def split: option.splits)

lemma reboot_api_auto:
  assumes "p \<notin> set cgi_platforms" "p \<noteq> ''wave''" "p \<noteq> ''ltu''" "reboot_api p w c = Inr api"
  shows "api = ''auto_wave_json'' \<and> w = None \<or> api = ''auto_airmax_cgi'' \<and> w \<noteq> None \<and> c = None"
proof -
  have n: "p \<notin> {''airmax'', ''airfiber'', ''ac'', ''m''}" using assms(1) by (simp add: cgi_platforms_def)
  note A = assms(4) [unfolded reboot_api_def if_not_P [OF assms(2)] if_not_P [OF assms(3)] if_not_P [OF n]]
  show ?thesis using A by (cases w; cases c) (simp_all split: if_splits)
qed

lemma reboot_dispatch:
  assumes "RebootDeviceTarget s r i ip mac hostname username password platform flavor = Inr res"
    and "(if password = [] then Inr [] else decryptSecret (fs_secret s) password) = Inr pw"
  shows "rb_Platform res = reboot_platform platform flavor"
    and "reboot_api (reboot_platform platform flavor) (rebootWaveLike s r username pw) (rebootAirMAXLike s r username pw) = Inr (rb_API res)"
  using assms by (auto simp: RebootDeviceTarget_def Let_def split: sum.splits)

text \<open>
  A reboot reaches a radio only over an interface of its platform, and reports which. When a
  reboot succeeds for a radio that speaks the CGI, the CGI accepted it; for every other one the JSON
  interface accepted it, or that failed, the radio is no Wave one, and the CGI accepted it.
\<close>

theorem reboot_interface:
  assumes "RebootDeviceTarget s r i ip mac hostname username password platform flavor = Inr res"
    and "(if password = [] then Inr [] else decryptSecret (fs_secret s) password) = Inr pw"
  shows "rb_Platform res = reboot_platform platform flavor
    \<and> (if rb_Platform res \<in> set cgi_platforms then rb_API res = ''airmax_cgi'' \<and> rebootAirMAXLike s r username pw = None
       else rb_API res \<in> set json_apis \<and> rebootWaveLike s r username pw = None
         \<or> rb_API res = (if rb_Platform res = ''ltu'' then ''ltu_airmax_cgi_fallback'' else ''auto_airmax_cgi'') \<and> rb_Platform res \<noteq> ''wave''
           \<and> rebootWaveLike s r username pw \<noteq> None \<and> rebootAirMAXLike s r username pw = None)"
proof -
  let ?p = "reboot_platform platform flavor"
  note D = reboot_dispatch [OF assms]
  have n: "''wave'' \<notin> set cgi_platforms" "''ltu'' \<notin> set cgi_platforms" by (simp_all add: cgi_platforms_def)
  consider "?p \<in> set cgi_platforms" | "?p = ''wave''" | "?p = ''ltu''" | "?p \<notin> set cgi_platforms" "?p \<noteq> ''wave''" "?p \<noteq> ''ltu''" by blast
  then show ?thesis
  proof cases
    case 1 then show ?thesis using reboot_api_cgi [OF 1 D(2)] unfolding D(1) if_P [OF 1] by simp
  next
    case 2
    have "rb_API res = ''wave_json'' \<and> rebootWaveLike s r username pw = None" using D(2) unfolding 2 by (rule reboot_api_wave)
    then show ?thesis using n(1) D(1) 2 by (simp add: json_apis_def)
  next
    case 3
    note A = reboot_api_ltu [OF D(2) [unfolded 3]]
    then show ?thesis using n(2) D(1) 3 by (auto simp: json_apis_def)
  next
    case 4
    note A = reboot_api_auto [OF 4 D(2)]
    show ?thesis unfolding D(1) if_not_P [OF 4(1)] if_not_P [OF 4(3)] using A 4(2) by (auto simp: json_apis_def)
  qed
qed

definition cgi_radio :: reboot_radio where
  "cgi_radio = \<lparr>rr_login = (\<lambda>_ _. Inl ''status 404''), rr_post = (\<lambda>_. Inl []), rr_cgi_login = (\<lambda>_. None), rr_cgi_reboot = None\<rparr>"

definition one_pair_service :: fw_service where
  "one_pair_service = \<lparr>fs_ap = [\<lparr>cr_user = ''ubnt'', cr_pass = ''pw''\<rparr>], fs_sta = [], fs_secret = None\<rparr>"

lemma reboot_interface_witness:
  "\<exists>res. RebootDeviceTarget one_pair_service cgi_radio 5 ''10.0.0.1'' [] [] [] [] ''LTU'' [] = Inr res
     \<and> rb_API res = ''ltu_airmax_cgi_fallback''"
proof -
  have c: "rebootCredentialCandidates one_pair_service [] [] = [(''ubnt'', ''pw'')]" by code_simp
  have "\<not> isConnectionError ''status 404''" by code_simp
  then have w: "rebootWaveLike one_pair_service cgi_radio [] [] = Some ''status 404''" by (simp add: rebootWaveLike_def c cgi_radio_def)
  have a: "rebootAirMAXLike one_pair_service cgi_radio [] [] = None" by (simp add: rebootAirMAXLike_def c cgi_radio_def)
  have p: "reboot_platform ''LTU'' [] = ''ltu''" by code_simp
  obtain res where r: "RebootDeviceTarget one_pair_service cgi_radio 5 ''10.0.0.1'' [] [] [] [] ''LTU'' [] = Inr res"
    by (simp add: RebootDeviceTarget_def reboot_api_def p w a)
  have "''ltu'' \<notin> set cgi_platforms" by (simp add: cgi_platforms_def)
  then show ?thesis using reboot_interface [OF r] r p w by auto
qed

end
