(* ===== verification/WebHub.thy ===== *)
theory WebHub imports BoundedLog begin

text \<open>
  The WebSocket hub (src/internal/websocket/hub.go): which origins may connect, the queues that
  drop their oldest message when full, and the goroutines of the hub and its clients as steps: the
  hub's loop, the two pumps of every connection, and the senders of broadcasts.
\<close>

section \<open>Origins\<close>

text \<open>A request's headers as far as the check reads them; parsing a URL (scheme and host) is a parameter.\<close>

record ws_request =
  rq_Origin :: string
  rq_Host :: string
  rq_TLS :: bool
  rq_ForwardedProto :: string

definition same_origin :: "ws_request \<Rightarrow> string" where
  "same_origin r =
     (if rq_TLS r \<or> equal_fold (trim_space (rq_ForwardedProto r)) ''https'' then ''https'' else ''http'') @ ''://'' @ to_lower (rq_Host r)"

definition checkOrigin :: "(string \<Rightarrow> (string \<times> string) option) \<Rightarrow> string list \<Rightarrow> ws_request \<Rightarrow> bool" where
  "checkOrigin parse allowed r =
     (let origin = rq_Origin r in
      if origin = [] then True
      else case parse origin of
             None \<Rightarrow> False
           | Some (scheme, host) \<Rightarrow>
               (if scheme \<noteq> ''http'' \<and> scheme \<noteq> ''https'' \<or> host = [] then False
                else if equal_fold (trim_suffix origin ''/'') (same_origin r) then True
                else list_ex (\<lambda>a. equal_fold origin a \<or> equal_fold (trim_suffix origin ''/'') (trim_suffix a ''/'')) allowed))"

section \<open>Queues\<close>

definition wsBroadcastBuffer :: nat where
  "wsBroadcastBuffer = 8192"

definition wsClientSendBuffer :: nat where
  "wsClientSendBuffer = 4096"

text \<open>
  Sending without blocking on a channel of capacity \<open>cap\<close>: when it is full the oldest message is
  taken out and the send is tried once more. What other goroutines do to the channel between the
  two attempts is \<open>others\<close>; the answer says whether the message went in.
\<close>

definition enqueueDropOldest :: "nat \<Rightarrow> ('m list \<Rightarrow> 'm list) \<Rightarrow> 'm list \<Rightarrow> 'm \<Rightarrow> 'm list \<times> bool" where
  "enqueueDropOldest cap others q m =
     (if length q < cap then (q @ [m], True)
      else let q1 = others (tl q) in if length q1 < cap then (q1 @ [m], True) else (q1, False))"

text \<open>The messages of the program.\<close>

datatype 'd payload = Plain 'd | JobData int string 'd | NoData

record 'd Message =
  ms_Type :: string
  ms_DeviceID :: int
  ms_DeviceMAC :: string
  ms_DeviceIP :: string
  ms_Data :: "'d payload"
  ms_Timestamp :: time

definition device_update :: "int \<Rightarrow> string \<Rightarrow> 'd \<Rightarrow> 'd Message" where
  "device_update deviceID deviceIP d =
     \<lparr>ms_Type = ''device_update'', ms_DeviceID = deviceID, ms_DeviceMAC = [], ms_DeviceIP = deviceIP, ms_Data = Plain d, ms_Timestamp = 0\<rparr>"

definition stats_update :: "int \<Rightarrow> string \<Rightarrow> string \<Rightarrow> 'd \<Rightarrow> 'd Message" where
  "stats_update deviceID deviceMAC deviceIP d =
     \<lparr>ms_Type = ''stats_update'', ms_DeviceID = deviceID, ms_DeviceMAC = deviceMAC, ms_DeviceIP = deviceIP, ms_Data = Plain d, ms_Timestamp = 0\<rparr>"

definition job_update :: "int \<Rightarrow> string \<Rightarrow> 'd \<Rightarrow> 'd Message" where
  "job_update jobID status d =
     \<lparr>ms_Type = ''job_update'', ms_DeviceID = 0, ms_DeviceMAC = [], ms_DeviceIP = [], ms_Data = JobData jobID status d, ms_Timestamp = 0\<rparr>"

definition pong :: "time \<Rightarrow> 'd Message" where
  "pong now = \<lparr>ms_Type = ''pong'', ms_DeviceID = 0, ms_DeviceMAC = [], ms_DeviceIP = [], ms_Data = NoData, ms_Timestamp = now\<rparr>"

text \<open>Broadcast stamps the message; one that cannot be marshalled is dropped.\<close>

definition Broadcast ::
  "('d Message \<Rightarrow> bool) \<Rightarrow> ('d Message list \<Rightarrow> 'd Message list) \<Rightarrow> time \<Rightarrow> 'd Message list \<Rightarrow> 'd Message \<Rightarrow> 'd Message list" where
  "Broadcast marshals others now q m0 =
     (let m = m0\<lparr>ms_Timestamp := now\<rparr> in if marshals m then fst (enqueueDropOldest wsBroadcastBuffer others q m) else q)"

section \<open>The hub and its clients\<close>

text \<open>
  A connection: its send channel with the messages waiting and whether it is closed, whether its
  read pump is still running, and two histories that no operation reads: the messages that went
  into the channel and those written to the network.
\<close>

record 'd conn =
  cn_send :: "'d Message list"
  cn_closed :: bool
  cn_reading :: bool
  cn_offered :: "'d Message list"
  cn_written :: "'d Message list"

record 'd hub =
  hb_clients :: "nat list"
  hb_conns :: "nat \<Rightarrow> 'd conn option"
  hb_broadcast :: "'d Message list"
  hb_running :: bool
  hb_panicked :: bool

definition NewHub :: "'d hub" where
  "NewHub = \<lparr>hb_clients = [], hb_conns = (\<lambda>_. None), hb_broadcast = [], hb_running = True, hb_panicked = False\<rparr>"

definition ClientCount :: "'d hub \<Rightarrow> nat" where
  "ClientCount h = length (hb_clients h)"

definition set_conn :: "nat \<Rightarrow> 'd conn \<Rightarrow> 'd hub \<Rightarrow> 'd hub" where
  "set_conn c k h = h\<lparr>hb_conns := (hb_conns h)(c \<mapsto> k)\<rparr>"

text \<open>A send on a closed channel panics; a full one drops its oldest message.\<close>

definition send_to :: "'d Message \<Rightarrow> nat \<Rightarrow> 'd hub \<Rightarrow> 'd hub" where
  "send_to m c h =
     (case hb_conns h c of
        None \<Rightarrow> h
      | Some k \<Rightarrow>
          (if cn_closed k then h\<lparr>hb_panicked := True\<rparr>
           else set_conn c (k\<lparr>cn_send := fst (enqueueDropOldest wsClientSendBuffer id (cn_send k) m), cn_offered := cn_offered k @ [m]\<rparr>) h))"

definition close_send :: "nat \<Rightarrow> 'd hub \<Rightarrow> 'd hub" where
  "close_send c h =
     (case hb_conns h c of
        None \<Rightarrow> h
      | Some k \<Rightarrow> if cn_closed k then h\<lparr>hb_panicked := True\<rparr> else set_conn c (k\<lparr>cn_closed := True\<rparr>) h)"

text \<open>ServeWS up to the registration, which the hub's loop has to take.\<close>

definition ServeWS :: "nat \<Rightarrow> 'd hub \<Rightarrow> 'd hub" where
  "ServeWS c h =
     (set_conn c \<lparr>cn_send = [], cn_closed = False, cn_reading = True, cn_offered = [], cn_written = []\<rparr> h)
       \<lparr>hb_clients := c # hb_clients h\<rparr>"

definition unregister :: "nat \<Rightarrow> 'd hub \<Rightarrow> 'd hub" where
  "unregister c h =
     (let h1 = (case hb_conns h c of None \<Rightarrow> h | Some k \<Rightarrow> set_conn c (k\<lparr>cn_reading := False\<rparr>) h) in
      if c \<in> set (hb_clients h) then (close_send c h1)\<lparr>hb_clients := removeAll c (hb_clients h)\<rparr> else h1)"

definition deliver_all :: "'d Message \<Rightarrow> 'd hub \<Rightarrow> 'd hub" where
  "deliver_all m h = fold (send_to m) (hb_clients h) h"

definition shut_down :: "'d hub \<Rightarrow> 'd hub" where
  "shut_down h = (fold close_send (hb_clients h) h)\<lparr>hb_clients := [], hb_running := False\<rparr>"

text \<open>The answer to a ping is dropped when the channel is full.\<close>

definition answer_ping :: "time \<Rightarrow> nat \<Rightarrow> 'd hub \<Rightarrow> 'd hub" where
  "answer_ping now c h =
     (case hb_conns h c of
        None \<Rightarrow> h
      | Some k \<Rightarrow>
          (if cn_closed k then h\<lparr>hb_panicked := True\<rparr>
           else if length (cn_send k) < wsClientSendBuffer
           then set_conn c (k\<lparr>cn_send := cn_send k @ [pong now], cn_offered := cn_offered k @ [pong now]\<rparr>) h else h))"

definition write_batch :: "nat \<Rightarrow> nat \<Rightarrow> 'd hub \<Rightarrow> 'd hub" where
  "write_batch c n h =
     (case hb_conns h c of
        None \<Rightarrow> h
      | Some k \<Rightarrow> set_conn c (k\<lparr>cn_send := drop n (cn_send k), cn_written := cn_written k @ take n (cn_send k)\<rparr>) h)"

text \<open>
  One step: a client registers, some goroutine broadcasts, the hub takes a broadcast or the end of
  a client or the end of its context, a client's pumps answer a ping or write a batch. Registering
  and unregistering meet the hub on an unbuffered channel, so that they need it running.
\<close>

inductive hub_step :: "('d Message \<Rightarrow> bool) \<Rightarrow> 'd hub \<Rightarrow> 'd hub \<Rightarrow> bool" for marshals where
  Register: "hb_running h \<Longrightarrow> hb_conns h c = None \<Longrightarrow> hub_step marshals h (ServeWS c h)"
| Send: "length (others (tl (hb_broadcast h))) \<le> wsBroadcastBuffer \<Longrightarrow>
    hub_step marshals h (h\<lparr>hb_broadcast := Broadcast marshals others now (hb_broadcast h) m\<rparr>)"
| Deliver: "hb_running h \<Longrightarrow> hb_broadcast h = m # q \<Longrightarrow> hub_step marshals h (deliver_all m (h\<lparr>hb_broadcast := q\<rparr>))"
| Unregister: "hb_running h \<Longrightarrow> hb_conns h c = Some k \<Longrightarrow> cn_reading k \<Longrightarrow> hub_step marshals h (unregister c h)"
| Stop: "hb_running h \<Longrightarrow> hub_step marshals h (shut_down h)"
| Ping: "hb_conns h c = Some k \<Longrightarrow> cn_reading k \<Longrightarrow> hub_step marshals h (answer_ping now c h)"
| Write: "hb_conns h c = Some k \<Longrightarrow> 0 < n \<Longrightarrow> n \<le> length (cn_send k) \<Longrightarrow> hub_step marshals h (write_batch c n h)"

inductive hub_reach :: "('d Message \<Rightarrow> bool) \<Rightarrow> 'd hub \<Rightarrow> bool" for marshals where
  Start: "hub_reach marshals NewHub"
| Step: "hub_reach marshals h \<Longrightarrow> hub_step marshals h h' \<Longrightarrow> hub_reach marshals h'"

section \<open>Queues keep the newest messages\<close>

lemma enqueue_last_n:
  "0 < cap \<Longrightarrow> length q \<le> cap \<Longrightarrow> fst (enqueueDropOldest cap id q m) = last_n cap (q @ [m])"
  by (cases q) (auto simp: enqueueDropOldest_def last_n_def Let_def)

lemma enqueue_length: "0 < cap \<Longrightarrow> length (others (tl q)) \<le> cap \<Longrightarrow> length q \<le> cap \<Longrightarrow> length (fst (enqueueDropOldest cap others q m)) \<le> cap"
  by (auto simp: enqueueDropOldest_def Let_def)

lemma length_last_n [simp]: "length (last_n n xs) \<le> n"
  by (simp add: last_n_def)

interpretation send_queue: bounded_log "\<lambda>m q. fst (enqueueDropOldest wsClientSendBuffer id q m)" id wsClientSendBuffer
  "\<lambda>q. length q \<le> wsClientSendBuffer"
  by unfold_locales (simp_all add: enqueue_last_n enqueue_length wsClientSendBuffer_def)

text \<open>
  A client that does not read keeps the newest messages. However many messages are sent to a
  connection before its first write, its queue holds exactly the last 4096 of them, in order.
\<close>

theorem slow_client_keeps_newest:
  "fold (\<lambda>m q. fst (enqueueDropOldest wsClientSendBuffer id q m)) ms [] = drop (length ms - 4096) ms"
  using send_queue.pushes_view [of "[]" "[]" ms] by (simp add: last_n_def wsClientSendBuffer_def)

lemma last_n_suffix: "suffix (last_n n xs) xs"
  by (simp add: last_n_def suffix_drop)

lemma suffix_snoc: "suffix xs ys \<Longrightarrow> suffix (xs @ [x]) (ys @ [x])"
  by (auto simp: suffix_def)

text \<open>What a connection's channel holds, in terms of all that was offered to it.\<close>

definition conn_ok :: "'d conn \<Rightarrow> bool" where
  "conn_ok k \<longleftrightarrow> length (cn_send k) \<le> wsClientSendBuffer \<and> suffix (cn_send k) (cn_offered k)
     \<and> subseq (cn_written k @ cn_send k) (cn_offered k)
     \<and> (cn_offered k = [] \<or> cn_written k @ cn_send k \<noteq> [] \<and> last (cn_written k @ cn_send k) = last (cn_offered k))"

lemma conn_ok_send:
  assumes "conn_ok k"
  shows "conn_ok (k\<lparr>cn_send := fst (enqueueDropOldest wsClientSendBuffer id (cn_send k) m), cn_offered := cn_offered k @ [m]\<rparr>)"
proof -
  have cap: "0 < wsClientSendBuffer" by (simp add: wsClientSendBuffer_def)
  have len: "length (cn_send k) \<le> wsClientSendBuffer" using assms by (simp add: conn_ok_def)
  let ?q = "last_n wsClientSendBuffer (cn_send k @ [m])"
  have q: "fst (enqueueDropOldest wsClientSendBuffer id (cn_send k) m) = ?q" using cap len by (rule enqueue_last_n)
  obtain q0 where q0: "?q = q0 @ [m]" "suffix q0 (cn_send k)"
  proof (cases "cn_send k")
    case Nil
    then show ?thesis using that [of "[]"] cap by (simp add: last_n_def)
  next
    case (Cons a as)
    have "?q = drop (Suc (length (cn_send k)) - wsClientSendBuffer) (cn_send k) @ [m]"
      using cap by (simp add: last_n_def)
    then show ?thesis using that by (simp add: suffix_drop)
  qed
  have "suffix ?q (cn_offered k @ [m])"
    using q0 assms suffix_order.trans [OF q0(2)] by (auto simp: conn_ok_def intro!: suffix_snoc)
  moreover have "subseq (cn_written k @ ?q) (cn_offered k @ [m])"
  proof -
    have "subseq (cn_written k @ q0) (cn_written k @ cn_send k)" using q0(2) by (intro list_emb_append_mono) (simp_all add: suffix_imp_subseq)
    then have "subseq (cn_written k @ q0) (cn_offered k)" using assms by (auto simp: conn_ok_def intro: subseq_order.trans)
    then show ?thesis unfolding q0(1) using list_emb_append_mono [of "(=)" "cn_written k @ q0" "cn_offered k" "[m]" "[m]"] by simp
  qed
  moreover have "length ?q \<le> wsClientSendBuffer" by (simp add: last_n_def)
  ultimately show ?thesis unfolding q by (simp add: conn_ok_def q0(1))
qed

lemma conn_ok_pong:
  assumes "conn_ok k" and "length (cn_send k) < wsClientSendBuffer"
  shows "conn_ok (k\<lparr>cn_send := cn_send k @ [m], cn_offered := cn_offered k @ [m]\<rparr>)"
  using conn_ok_send [OF assms(1), of m] assms(2) by (simp add: enqueueDropOldest_def)

lemma conn_ok_write:
  "conn_ok k \<Longrightarrow> conn_ok (k\<lparr>cn_send := drop n (cn_send k), cn_written := cn_written k @ take n (cn_send k)\<rparr>)"
  by (auto simp: conn_ok_def intro: suffix_order.trans [OF suffix_drop])

lemma conn_ok_flags [simp]: "conn_ok (k\<lparr>cn_closed := b\<rparr>) = conn_ok k" "conn_ok (k\<lparr>cn_reading := b\<rparr>) = conn_ok k"
  "conn_ok (k\<lparr>cn_reading := b, cn_closed := b'\<rparr>) = conn_ok k"
  by (simp_all add: conn_ok_def)

section \<open>The invariant of the hub\<close>

definition hub_inv :: "'d hub \<Rightarrow> bool" where
  "hub_inv h \<longleftrightarrow>
     (\<forall>c k. hb_conns h c = Some k \<longrightarrow> conn_ok k)
     \<and> length (hb_broadcast h) \<le> wsBroadcastBuffer
     \<and> distinct (hb_clients h)
     \<and> (\<forall>c \<in> set (hb_clients h). \<exists>k. hb_conns h c = Some k \<and> \<not> cn_closed k)
     \<and> (hb_running h \<longrightarrow> \<not> hb_panicked h \<and> (\<forall>c k. hb_conns h c = Some k \<longrightarrow> cn_reading k \<longrightarrow> c \<in> set (hb_clients h)))"

lemma send_to_frame [simp]: "hb_clients (send_to m c h) = hb_clients h" "hb_running (send_to m c h) = hb_running h"
  "hb_broadcast (send_to m c h) = hb_broadcast h"
  by (simp_all add: send_to_def set_conn_def split: option.split)

lemma send_to_inv: "hub_inv h \<Longrightarrow> c \<in> set (hb_clients h) \<Longrightarrow> hub_inv (send_to m c h)"
proof -
  assume i: "hub_inv h" and c: "c \<in> set (hb_clients h)"
  obtain k where k: "hb_conns h c = Some k" "\<not> cn_closed k" using i c by (auto simp: hub_inv_def)
  let ?k = "k\<lparr>cn_send := fst (enqueueDropOldest wsClientSendBuffer id (cn_send k) m), cn_offered := cn_offered k @ [m]\<rparr>"
  have s: "send_to m c h = set_conn c ?k h" using k by (simp add: send_to_def)
  have "conn_ok ?k" using i k conn_ok_send by (auto simp: hub_inv_def)
  then show ?thesis using i k unfolding s by (auto simp: hub_inv_def set_conn_def)
qed

lemma deliver_inv: "hub_inv h \<Longrightarrow> hub_inv (deliver_all m h)"
proof -
  have "hub_inv h' \<Longrightarrow> set cs \<subseteq> set (hb_clients h') \<Longrightarrow> hub_inv (fold (send_to m) cs h')" for cs h'
    by (induction cs arbitrary: h') (simp_all add: send_to_inv)
  then show "hub_inv h \<Longrightarrow> ?thesis" by (simp add: deliver_all_def)
qed

lemma close_send_open:
  "hb_conns h c = Some k \<Longrightarrow> \<not> cn_closed k \<Longrightarrow> close_send c h = set_conn c (k\<lparr>cn_closed := True\<rparr>) h"
  by (simp add: close_send_def)

lemma closes_all:
  assumes "distinct cs" and "\<forall>c \<in> set cs. \<exists>k. hb_conns h c = Some k \<and> \<not> cn_closed k"
  shows "fold close_send cs h = h\<lparr>hb_conns := \<lambda>c. if c \<in> set cs then map_option (\<lambda>k. k\<lparr>cn_closed := True\<rparr>) (hb_conns h c) else hb_conns h c\<rparr>"
  using assms
proof (induction cs arbitrary: h)
  case (Cons c cs)
  obtain k where k: "hb_conns h c = Some k" "\<not> cn_closed k" using Cons.prems(2) by auto
  let ?h = "set_conn c (k\<lparr>cn_closed := True\<rparr>) h"
  have "\<forall>x \<in> set cs. \<exists>k. hb_conns ?h x = Some k \<and> \<not> cn_closed k" using Cons.prems by (auto simp: set_conn_def)
  then have "fold close_send cs ?h = ?h\<lparr>hb_conns := \<lambda>x. if x \<in> set cs then map_option (\<lambda>k. k\<lparr>cn_closed := True\<rparr>) (hb_conns ?h x) else hb_conns ?h x\<rparr>"
    using Cons.IH [of ?h] Cons.prems(1) by simp
  then show ?case using k Cons.prems(1) by (auto simp: close_send_open set_conn_def fun_eq_iff)
qed simp

lemma shut_down_inv:
  assumes "hub_inv h"
  shows "hub_inv (shut_down h)" and "hb_panicked (shut_down h) = hb_panicked h"
proof -
  have f: "fold close_send (hb_clients h) h = h\<lparr>hb_conns := \<lambda>c. if c \<in> set (hb_clients h) then map_option (\<lambda>k. k\<lparr>cn_closed := True\<rparr>) (hb_conns h c) else hb_conns h c\<rparr>"
    using assms by (intro closes_all) (simp_all add: hub_inv_def)
  show "hub_inv (shut_down h)" using assms unfolding shut_down_def f by (auto simp: hub_inv_def split: if_splits)
  show "hb_panicked (shut_down h) = hb_panicked h" unfolding shut_down_def f by simp
qed

lemma ServeWS_inv: "hub_inv h \<Longrightarrow> hb_conns h c = None \<Longrightarrow> hub_inv (ServeWS c h)"
  by (auto simp: hub_inv_def ServeWS_def set_conn_def conn_ok_def)

lemma unregister_inv:
  assumes "hub_inv h" and "hb_running h" and "hb_conns h c = Some k" and "cn_reading k"
  shows "hub_inv (unregister c h)"
proof -
  have c: "c \<in> set (hb_clients h)" "\<not> cn_closed k" using assms by (force simp: hub_inv_def)+
  have "unregister c h = h\<lparr>hb_conns := (hb_conns h)(c \<mapsto> k\<lparr>cn_reading := False, cn_closed := True\<rparr>), hb_clients := removeAll c (hb_clients h)\<rparr>"
    using c assms(3) by (simp add: unregister_def close_send_def set_conn_def)
  then show ?thesis using assms c by (auto simp: hub_inv_def distinct_removeAll)
qed

lemma answer_ping_inv:
  assumes "hub_inv h" and "hb_conns h c = Some k" and "cn_reading k"
  shows "hub_inv (answer_ping now c h)"
proof (cases "cn_closed k")
  case True
  then have "\<not> hb_running h" using assms by (force simp: hub_inv_def)
  then show ?thesis using assms True by (auto simp: answer_ping_def hub_inv_def)
next
  case False
  have "conn_ok k" using assms by (simp add: hub_inv_def)
  then show ?thesis
    using False assms conn_ok_pong [of k "pong now"] by (auto simp: answer_ping_def hub_inv_def set_conn_def)
qed

lemma write_batch_inv: "hub_inv h \<Longrightarrow> hb_conns h c = Some k \<Longrightarrow> hub_inv (write_batch c n h)"
  using conn_ok_write [of k n] by (auto simp: write_batch_def hub_inv_def set_conn_def)

lemma hub_step_inv: "hub_step marshals h h' \<Longrightarrow> hub_inv h \<Longrightarrow> hub_inv h'"
proof (induction rule: hub_step.induct)
  case (Send others h now m)
  then have "length (Broadcast marshals others now (hb_broadcast h) m) \<le> wsBroadcastBuffer"
    by (auto simp: Broadcast_def Let_def hub_inv_def wsBroadcastBuffer_def intro: enqueue_length)
  then show ?case using Send.prems by (simp add: hub_inv_def)
next
  case (Deliver h m q)
  then have "hub_inv (h\<lparr>hb_broadcast := q\<rparr>)" by (simp add: hub_inv_def)
  then show ?case by (rule deliver_inv)
qed (simp_all add: ServeWS_inv unregister_inv shut_down_inv answer_ping_inv write_batch_inv)

lemma hub_reach_inv: "hub_reach marshals h \<Longrightarrow> hub_inv h"
proof (induction rule: hub_reach.induct)
  case Start
  show ?case by (simp add: hub_inv_def NewHub_def)
next
  case (Step h h')
  then show ?case using hub_step_inv by blast
qed


text \<open>
  While the hub runs it never sends to or closes a closed channel, however clients connect,
  leave, ping and stall, and it holds each client once; ending its context closes every channel
  once.
\<close>

theorem running_hub_safe:
  assumes "hub_reach marshals h" and "hb_running h"
  shows "\<not> hb_panicked h \<and> \<not> hb_panicked (shut_down h) \<and> distinct (hb_clients h) \<and> length (hb_broadcast h) \<le> 8192"
  using hub_reach_inv [OF assms(1)] assms(2) shut_down_inv(2) by (auto simp: hub_inv_def wsBroadcastBuffer_def)

text \<open>
  A ping after the shutdown ends the process. From any reachable state with a client whose
  read pump runs, the hub can be shut down and the client's next ping is then a send on a closed
  channel, which panics; and the read pump can no longer unregister, since only a running hub takes
  that.
\<close>

theorem ping_after_shutdown_panics:
  assumes "hub_reach marshals h" and "hb_running h" and "hb_conns h c = Some k" and "cn_reading k"
  shows "hub_reach marshals (shut_down h) \<and> hub_reach marshals (answer_ping now c (shut_down h))
    \<and> hb_panicked (answer_ping now c (shut_down h)) \<and> \<not> hb_running (shut_down h)"
proof -
  have i: "hub_inv h" using assms(1) by (rule hub_reach_inv)
  have c: "c \<in> set (hb_clients h)" using i assms by (auto simp: hub_inv_def)
  have f: "fold close_send (hb_clients h) h = h\<lparr>hb_conns := \<lambda>c. if c \<in> set (hb_clients h) then map_option (\<lambda>k. k\<lparr>cn_closed := True\<rparr>) (hb_conns h c) else hb_conns h c\<rparr>"
    using i by (intro closes_all) (simp_all add: hub_inv_def)
  have k: "hb_conns (shut_down h) c = Some (k\<lparr>cn_closed := True\<rparr>)" unfolding shut_down_def f using c assms(3) by simp
  have r: "hub_reach marshals (shut_down h)" using assms(1) Stop [OF assms(2)] by (rule hub_reach.Step)
  have "hub_step marshals (shut_down h) (answer_ping now c (shut_down h))" by (rule Ping [OF k]) (use assms(4) in simp)
  then show ?thesis using r k hub_reach.Step [OF r] by (auto simp: answer_ping_def) (simp add: shut_down_def)
qed

definition connected_hub :: "'d hub" where
  "connected_hub = ServeWS 7 NewHub"

lemma connected_hub_reach:
  "hub_reach marshals connected_hub" "hb_running connected_hub" "\<exists>k. hb_conns connected_hub 7 = Some k \<and> cn_reading k"
proof -
  have "hub_step marshals NewHub (ServeWS 7 NewHub)" by (rule Register) (simp_all add: NewHub_def)
  then show "hub_reach marshals connected_hub" unfolding connected_hub_def by (rule hub_reach.Step [OF hub_reach.Start])
qed (simp_all add: connected_hub_def ServeWS_def set_conn_def NewHub_def)


lemma running_hub_safe_witness: "\<not> hb_panicked (connected_hub :: nat hub)"
  using running_hub_safe [OF connected_hub_reach(1,2)] by blast

lemma ping_after_shutdown_panics_witness:
  "\<exists>h :: nat hub. hub_reach (\<lambda>_. True) h \<and> hb_panicked h"
proof -
  obtain k :: "nat conn" where "hb_conns connected_hub 7 = Some k" "cn_reading k" using connected_hub_reach(3) by blast
  from ping_after_shutdown_panics [OF connected_hub_reach(1) [of "\<lambda>_. True"] connected_hub_reach(2) this] show ?thesis by blast
qed

section \<open>Who may connect\<close>

lemma lower_char_slash: "lower_char c = CHR ''/'' \<longleftrightarrow> c = CHR ''/''"
proof
  assume "lower_char c = CHR ''/''"
  then have "(of_char (lower_char c) :: nat) = 47" by simp
  then have "(of_char c :: nat) = of_char CHR ''/''" by (simp add: of_char_lower_char split: if_splits)
  then show "c = CHR ''/''" by (simp only: of_char_eq_iff)
qed (simp add: lower_char_def Let_def)

lemma trim_slash_snoc: "trim_suffix (s @ [c]) ''/'' = (if c = CHR ''/'' then s else s @ [c])"
  by (auto simp: trim_suffix_def suffix_def)

lemma equal_fold_trim_slash:
  assumes "equal_fold a b" shows "equal_fold (trim_suffix a ''/'') (trim_suffix b ''/'')"
proof (cases a rule: rev_cases)
  case Nil
  then show ?thesis using assms by (simp add: equal_fold_def to_lower_def trim_suffix_def)
next
  case (snoc s c)
  then obtain s' c' where b: "b = s' @ [c']" using assms by (cases b rule: rev_cases) (auto simp: equal_fold_def to_lower_def)
  then have "lower_char c = lower_char c'" "to_lower s = to_lower s'" using assms snoc by (simp_all add: equal_fold_def to_lower_def)
  moreover from this(1) have "c = CHR ''/'' \<longleftrightarrow> c' = CHR ''/''" using lower_char_slash by metis
  ultimately show ?thesis using assms unfolding snoc b trim_slash_snoc by (simp add: equal_fold_def to_lower_def)
qed

text \<open>
  An accepted origin is the server's own, one of the list, or absent. Nothing else passes,
  whatever the headers say, and what passes parses as an http or https URL with a host.
\<close>

theorem accepted_origins:
  assumes "checkOrigin parse allowed r" and "rq_Origin r \<noteq> []"
  shows "(\<exists>scheme host. parse (rq_Origin r) = Some (scheme, host) \<and> scheme \<in> {''http'', ''https''} \<and> host \<noteq> [])
    \<and> (equal_fold (trim_suffix (rq_Origin r) ''/'') (same_origin r)
       \<or> (\<exists>a. a \<in> set allowed \<and> equal_fold (trim_suffix (rq_Origin r) ''/'') (trim_suffix a ''/'')))"
  using assms equal_fold_trim_slash
  by (fastforce simp: checkOrigin_def Let_def list_ex_iff split: option.splits prod.splits if_splits)

definition example_request :: "string \<Rightarrow> ws_request" where
  "example_request origin = \<lparr>rq_Origin = origin, rq_Host = ''App.local'', rq_TLS = True, rq_ForwardedProto = []\<rparr>"

definition example_parse :: "string \<Rightarrow> (string \<times> string) option" where
  "example_parse s = (if prefix ''https://'' s then Some (''https'', drop 8 s) else None)"

lemma accepted_origins_witness:
  "checkOrigin example_parse [] (example_request ''https://app.LOCAL/'')
   \<and> equal_fold (trim_suffix ''https://app.LOCAL/'' ''/'') (same_origin (example_request ''https://app.LOCAL/''))"
proof -
  have c: "checkOrigin example_parse [] (example_request ''https://app.LOCAL/'')" by code_simp
  have "rq_Origin (example_request ''https://app.LOCAL/'') = ''https://app.LOCAL/''" by (simp add: example_request_def)
  then show ?thesis using accepted_origins [OF c] c by simp
qed

text \<open>
  A star in the list lets nobody in. With the star as the only entry the check accepts
  exactly what it accepts with no entry, for every origin that is not itself a star.
\<close>

theorem star_is_no_wildcard:
  assumes "trim_suffix (rq_Origin r) ''/'' \<noteq> ''*''"
  shows "checkOrigin parse [''*''] r = checkOrigin parse [] r"
proof -
  have "to_lower s = ''*'' \<Longrightarrow> s = ''*''" for s
  proof -
    assume s: "to_lower s = ''*''"
    then obtain c where c: "s = [c]" "lower_char c = CHR ''*''" by (cases s) (auto simp: to_lower_def)
    then have "(of_char (lower_char c) :: nat) = 42" by simp
    then have "(of_char c :: nat) = of_char CHR ''*''" by (simp add: of_char_lower_char split: if_splits)
    then show "s = ''*''" using c(1) by (simp only: of_char_eq_iff)
  qed
  moreover have star: "to_lower ''*'' = ''*''" "trim_suffix ''*'' ''/'' = ''*''" by code_simp+
  ultimately have n: "\<not> equal_fold (trim_suffix (rq_Origin r) ''/'') (trim_suffix ''*'' ''/'')"
    using assms unfolding equal_fold_def star by metis
  then have "\<not> equal_fold (rq_Origin r) ''*''" using equal_fold_trim_slash by blast
  then show ?thesis using n by (simp add: checkOrigin_def Let_def split: option.split prod.split)
qed

lemma star_is_no_wildcard_witness:
  "\<not> checkOrigin example_parse [''*''] (example_request ''https://evil.example'')"
proof -
  have "trim_suffix (rq_Origin (example_request ''https://evil.example'')) ''/'' \<noteq> ''*''"
    "\<not> checkOrigin example_parse [] (example_request ''https://evil.example'')" by code_simp+
  then show ?thesis using star_is_no_wildcard [of "example_request ''https://evil.example''" example_parse] by simp
qed

end
