(* ===== verification/NetText.thy ===== *)
theory NetText imports Prelude begin

text \<open>
  Positions in texts (strings.Index and strings.LastIndex of a character), the host and port form
  of addresses (net.SplitHostPort), and the fixed-point rendering of numbers (strconv.FormatFloat),
  shared by the components that read what the network gives them and answer in text.
\<close>

section \<open>Positions\<close>

definition index_last :: "char \<Rightarrow> string \<Rightarrow> nat option" where
  "index_last c s = (if c \<in> set s then Some (length s - 1 - length (takeWhile (\<lambda>x. x \<noteq> c) (rev s))) else None)"

definition index_first :: "char \<Rightarrow> string \<Rightarrow> nat option" where
  "index_first c s = (if c \<in> set s then Some (length (takeWhile (\<lambda>x. x \<noteq> c) s)) else None)"

text \<open>net.SplitHostPort: the host of a text with exactly one port.\<close>

definition split_host_port :: "string \<Rightarrow> string option" where
  "split_host_port s =
     (case index_last CHR '':'' s of
        None \<Rightarrow> None
      | Some i \<Rightarrow>
          (if s ! 0 = CHR ''['' then
             (case index_first CHR '']'' s of
                None \<Rightarrow> None
              | Some j \<Rightarrow>
                  (if j + 1 = i \<and> CHR ''['' \<notin> set (drop 1 s) \<and> CHR '']'' \<notin> set (drop (j + 1) s) then Some (take (j - 1) (drop 1 s)) else None))
           else
             (let host = take i s in
              if CHR '':'' \<in> set host \<or> CHR ''['' \<in> set s \<or> CHR '']'' \<in> set s then None else Some host)))"

lemma index_first_None: "index_first c s = None \<longleftrightarrow> c \<notin> set s"
  by (simp add: index_first_def)

lemma index_last_None: "index_last c s = None \<longleftrightarrow> c \<notin> set s"
  by (simp add: index_last_def)

lemma index_first_append: "c \<notin> set xs \<Longrightarrow> index_first c (xs @ c # ys) = Some (length xs)"
  by (induction xs) (auto simp: index_first_def)

lemma index_last_append: "c \<notin> set ys \<Longrightarrow> index_last c (xs @ c # ys) = Some (length xs)"
proof -
  assume "c \<notin> set ys"
  then have "takeWhile (\<lambda>x. x \<noteq> c) (rev ys @ c # rev xs) = rev ys"
    by (intro takeWhile_tail [THEN trans]) (auto simp: takeWhile_append)
  then show ?thesis by (simp add: index_last_def)
qed

section \<open>Fixed-point rendering\<close>

text \<open>FormatFloat(x, 'f', k, 64): the exact value rounded half to even at the k-th decimal.\<close>

definition pad_zeros :: "nat \<Rightarrow> string \<Rightarrow> string" where
  "pad_zeros k s = replicate (k - length s) CHR ''0'' @ s"

definition fixed_digits :: "nat \<Rightarrow> nat \<Rightarrow> string" where
  "fixed_digits k n = nat_str (n div 10 ^ k) @ (if k = 0 then [] else ''.'' @ pad_zeros k (nat_str (n mod 10 ^ k)))"

fun fmt_fixed :: "nat \<Rightarrow> f64 \<Rightarrow> string" where
  "fmt_fixed k NaN = ''NaN''"
| "fmt_fixed k PosInf = ''+Inf''"
| "fmt_fixed k NegInf = ''-Inf''"
| "fmt_fixed k (Fin r) = (if r < 0 then ''-'' else []) @ fixed_digits k (nat (round_half_even (\<bar>r\<bar> * 10 ^ k)))"

end
