(* ===== verification/DebugBuffers.thy ===== *)
theory DebugBuffers imports BoundedLog NetText begin

text \<open>
  Ultra debug (src/internal/udebug/manager.go and redact.go): the redaction of credentials in debug
  entries, the ring buffers that keep the newest entries within a byte budget, and the manager's
  buffers per device and per host.
\<close>

section \<open>Redaction\<close>

text \<open>A decoded JSON value; numbers keep their text.\<close>

datatype json = JNull | JBool bool | JNum string | JStr string | JArr "json list" | JObj "(string \<times> json) list"

definition redactedValue :: string where
  "redactedValue = ''[REDACTED]''"

definition normalizeSecretKey :: "string \<Rightarrow> string" where
  "normalizeSecretKey key = filter (\<lambda>c. c \<notin> {CHR ''-'', CHR ''_'', CHR ''.'', CHR '' ''}) (to_lower (trim_space key))"

definition sensitive_names :: "string list" where
  "sensitive_names =
     [''password'', ''passwd'', ''pass'', ''pwd'', ''token'', ''authtoken'', ''xauthtoken'', ''accesstoken'', ''refreshtoken'', ''idtoken'',
      ''authorization'', ''proxyauthorization'', ''cookie'', ''setcookie'', ''secret'', ''clientsecret'', ''privatekey'', ''secretkey'',
      ''signingkey'', ''apikey'', ''session'', ''sessionid'', ''csrf'', ''csrftoken'', ''xcsrftoken'']"

definition isSensitiveKey :: "string \<Rightarrow> bool" where
  "isSensitiveKey key \<longleftrightarrow> normalizeSecretKey key \<in> set sensitive_names"

text \<open>
  What redaction takes from the standard library: decoding and encoding JSON texts, the three
  regular expressions, and the parsing and printing of URLs and of their queries. A URL is its raw
  query, its user with an optional password, and the rest.
\<close>

record web_url =
  wu_RawQuery :: string
  wu_User :: "(string \<times> string option) option"
  wu_rest :: string

record text_tools =
  tt_parse :: "string \<Rightarrow> json option"
  tt_print :: "json \<Rightarrow> string"
  tt_patterns :: "string \<Rightarrow> string"
  tt_url_parse :: "string \<Rightarrow> web_url option"
  tt_url_print :: "web_url \<Rightarrow> string"
  tt_query :: "string \<Rightarrow> (string, string list) gomap"
  tt_encode :: "(string, string list) gomap \<Rightarrow> string"

definition redact_url_parts :: "text_tools \<Rightarrow> web_url \<Rightarrow> web_url" where
  "redact_url_parts tools u =
     (let q = tt_query tools (wu_RawQuery u);
          u1 = (if list_ex (\<lambda>(k, vs). isSensitiveKey k) q
                then u\<lparr>wu_RawQuery := tt_encode tools (map (\<lambda>(k, vs). (k, if isSensitiveKey k then [redactedValue] else vs)) q)\<rparr> else u)
      in case wu_User u1 of
           Some (name, Some password) \<Rightarrow> u1\<lparr>wu_User := Some (name, Some redactedValue)\<rparr>
         | _ \<Rightarrow> u1)"

text \<open>
  Redaction of a value below a key, and of a text. A text that is a JSON value is redacted inside;
  the nesting of texts in texts is bounded by the fuel, and a text beyond it is replaced.
\<close>

fun redactText :: "(json \<Rightarrow> json) \<Rightarrow> text_tools \<Rightarrow> string \<Rightarrow> string" where
  "redactText inner tools text =
     (let trimmed = trim_space text in
      if trimmed = [] then text
      else if prefix ''{'' trimmed \<or> prefix ''['' trimmed then
        (case tt_parse tools trimmed of Some v \<Rightarrow> tt_print tools (inner v) | None \<Rightarrow> tt_patterns tools text)
      else tt_patterns tools text)"

definition redactURL :: "(json \<Rightarrow> json) \<Rightarrow> text_tools \<Rightarrow> string \<Rightarrow> string" where
  "redactURL inner tools raw =
     (case tt_url_parse tools raw of
        None \<Rightarrow> redactText inner tools raw
      | Some u \<Rightarrow> redactText inner tools (tt_url_print tools (redact_url_parts tools u)))"

fun redact_tree :: "(json \<Rightarrow> json) \<Rightarrow> text_tools \<Rightarrow> string \<Rightarrow> json \<Rightarrow> json" where
  "redact_tree inner tools key (JObj fs) =
     (if isSensitiveKey key then JStr redactedValue else JObj (map (\<lambda>(k, v). (k, redact_tree inner tools k v)) fs))"
| "redact_tree inner tools key (JArr vs) =
     (if isSensitiveKey key then JStr redactedValue else JArr (map (redact_tree inner tools key) vs))"
| "redact_tree inner tools key (JStr s) =
     (if isSensitiveKey key then JStr redactedValue
      else if equal_fold (trim_space key) ''url'' then JStr (redactURL inner tools s) else JStr (redactText inner tools s))"
| "redact_tree inner tools key v = (if isSensitiveKey key then JStr redactedValue else v)"

fun redactValue :: "nat \<Rightarrow> text_tools \<Rightarrow> string \<Rightarrow> json \<Rightarrow> json" where
  "redactValue 0 tools key v = JStr redactedValue"
| "redactValue (Suc n) tools key v = redact_tree (redactValue n tools []) tools key v"

text \<open>An entry that cannot be serialised becomes a fixed one.\<close>

definition sanitizeEntry :: "nat \<Rightarrow> text_tools \<Rightarrow> json option \<Rightarrow> json" where
  "sanitizeEntry n tools entry =
     (case entry of
        None \<Rightarrow> JObj [(''type'', JStr ''redaction_error''), (''error'', JStr ''debug entry could not be serialized'')]
      | Some v \<Rightarrow> redactValue n tools [] v)"

section \<open>Hosts\<close>

definition trim_brackets :: "string \<Rightarrow> string" where
  "trim_brackets s = (let b = (\<lambda>c. c = CHR ''['' \<or> c = CHR '']'') in rev (dropWhile b (rev (dropWhile b s))))"

definition normalizeHost :: "string \<Rightarrow> string" where
  "normalizeHost input =
     (let h0 = trim_space input in
      if h0 = [] then []
      else
        (let h1 = trim_prefix (trim_prefix h0 ''http://'') ''https://'';
             h2 = takeWhile (\<lambda>c. c \<notin> {CHR ''/'', CHR ''?'', CHR ''#''}) h1;
             h3 = rev (takeWhile (\<lambda>c. c \<noteq> CHR ''@'') (rev h2));
             h4 = (case split_host_port h3 of None \<Rightarrow> h3 | Some host \<Rightarrow> host)
         in to_lower (trim_space (trim_brackets h4))))"

section \<open>Buffers\<close>

record buffer =
  bf_kind :: string
  bf_deviceID :: int
  bf_host :: string
  bf_created :: time
  bf_updated :: time
  bf_maxBytes :: nat
  bf_bytes :: nat
  bf_entries :: "string list"

definition newBuffer :: "time \<Rightarrow> string \<Rightarrow> int \<Rightarrow> string \<Rightarrow> nat \<Rightarrow> buffer" where
  "newBuffer now kind deviceID host maxBytes =
     \<lparr>bf_kind = kind, bf_deviceID = deviceID, bf_host = host, bf_created = now, bf_updated = now, bf_maxBytes = maxBytes, bf_bytes = 0,
      bf_entries = []\<rparr>"

definition clear_buffer :: "time \<Rightarrow> buffer \<Rightarrow> buffer" where
  "clear_buffer now b = b\<lparr>bf_created := now, bf_updated := now, bf_bytes := 0, bf_entries := []\<rparr>"

text \<open>Entries leave at the front until the new one has room or none is left.\<close>

fun evict :: "nat \<Rightarrow> nat \<Rightarrow> nat \<Rightarrow> string list \<Rightarrow> nat \<times> string list" where
  "evict cap sz bytes [] = (bytes, [])"
| "evict cap sz bytes (e # es) = (if bytes + sz > cap then evict cap sz (bytes - length e) es else (bytes, e # es))"

definition marshal_error :: string where
  "marshal_error = ''{\"type\":\"marshal_error\",\"error\":\"unable to marshal ultra debug entry\"}''"

text \<open>Appending the entry's text (none if it could not be marshalled).\<close>

definition append_entry :: "time \<Rightarrow> string option \<Rightarrow> buffer \<Rightarrow> buffer" where
  "append_entry now entry b0 =
     (let raw = (case entry of None \<Rightarrow> marshal_error | Some r \<Rightarrow> r);
          b = b0\<lparr>bf_updated := now\<rparr>;
          (bytes, es) = evict (bf_maxBytes b) (length raw) (bf_bytes b) (bf_entries b)
      in if length raw > bf_maxBytes b
         then let trunc = take (bf_maxBytes b) raw in b\<lparr>bf_entries := [trunc], bf_bytes := length trunc\<rparr>
         else b\<lparr>bf_entries := es @ [raw], bf_bytes := bytes + length raw\<rparr>)"

record buffer_info =
  bi_Key :: string
  bi_Kind :: string
  bi_DeviceID :: int
  bi_Host :: string
  bi_Created :: time
  bi_Updated :: time
  bi_Bytes :: nat
  bi_Entries :: nat

definition buffer_summary :: "string \<Rightarrow> buffer \<Rightarrow> buffer_info" where
  "buffer_summary key b =
     \<lparr>bi_Key = key, bi_Kind = bf_kind b, bi_DeviceID = bf_deviceID b, bi_Host = bf_host b, bi_Created = bf_created b, bi_Updated = bf_updated b,
      bi_Bytes = bf_bytes b, bi_Entries = length (bf_entries b)\<rparr>"

text \<open>A snapshot: the summary with the newest \<open>tail\<close> entries, or all of them.\<close>

definition snapshot :: "string \<Rightarrow> int \<Rightarrow> buffer \<Rightarrow> buffer_info \<times> string list" where
  "snapshot key tail b =
     (let n = int (length (bf_entries b)); start = (if 0 < tail \<and> tail < n then nat (n - tail) else 0) in
      (buffer_summary key b, drop start (bf_entries b)))"

section \<open>The manager\<close>

record debug_manager =
  dm_maxBytes :: nat
  dm_devices :: "(int, buffer) gomap"
  dm_hosts :: "(string, buffer) gomap"

definition DefaultMaxBytes :: nat where
  "DefaultMaxBytes = 32 * 2 ^ 20"

definition NewManager :: "int \<Rightarrow> debug_manager" where
  "NewManager maxBytes = \<lparr>dm_maxBytes = (if maxBytes \<le> 0 then DefaultMaxBytes else nat maxBytes), dm_devices = [], dm_hosts = []\<rparr>"

definition EnableDevice :: "time \<Rightarrow> int \<Rightarrow> debug_manager \<Rightarrow> debug_manager" where
  "EnableDevice now deviceID m =
     (if deviceID \<le> 0 then m
      else m\<lparr>dm_devices := AList.update deviceID (newBuffer now ''device'' deviceID [] (dm_maxBytes m)) (dm_devices m)\<rparr>)"

definition DisableDevice :: "int \<Rightarrow> debug_manager \<Rightarrow> debug_manager" where
  "DisableDevice deviceID m = (if deviceID \<le> 0 then m else m\<lparr>dm_devices := AList.delete deviceID (dm_devices m)\<rparr>)"

definition device_buffer :: "debug_manager \<Rightarrow> int \<Rightarrow> buffer option" where
  "device_buffer m deviceID = (if deviceID \<le> 0 then None else map_of (dm_devices m) deviceID)"

definition ClearDevice :: "time \<Rightarrow> int \<Rightarrow> debug_manager \<Rightarrow> debug_manager \<times> bool" where
  "ClearDevice now deviceID m =
     (case device_buffer m deviceID of
        None \<Rightarrow> (m, False)
      | Some b \<Rightarrow> (m\<lparr>dm_devices := AList.update deviceID (clear_buffer now b) (dm_devices m)\<rparr>, True))"

definition IsEnabled :: "debug_manager \<Rightarrow> int \<Rightarrow> bool" where
  "IsEnabled m deviceID \<longleftrightarrow> device_buffer m deviceID \<noteq> None"

definition Record :: "(json \<Rightarrow> string option) \<Rightarrow> nat \<Rightarrow> text_tools \<Rightarrow> time \<Rightarrow> int \<Rightarrow> json option \<Rightarrow> debug_manager \<Rightarrow> debug_manager" where
  "Record marshal n tools now deviceID entry m =
     (case device_buffer m deviceID of
        None \<Rightarrow> m
      | Some b \<Rightarrow> m\<lparr>dm_devices := AList.update deviceID (append_entry now (marshal (sanitizeEntry n tools entry)) b) (dm_devices m)\<rparr>)"

definition deviceKey :: "int \<Rightarrow> string" where
  "deviceKey deviceID = ''device:'' @ int_str deviceID"

definition hostKey :: "string \<Rightarrow> string" where
  "hostKey host = ''host:'' @ host"

definition SnapshotDevice :: "debug_manager \<Rightarrow> int \<Rightarrow> int \<Rightarrow> (buffer_info \<times> string list) option" where
  "SnapshotDevice m deviceID tail = map_option (snapshot (deviceKey deviceID) tail) (device_buffer m deviceID)"

definition DownloadDevice :: "debug_manager \<Rightarrow> int \<Rightarrow> string list option" where
  "DownloadDevice m deviceID = map_option snd (SnapshotDevice m deviceID 0)"

definition EnableHost :: "time \<Rightarrow> string \<Rightarrow> debug_manager \<Rightarrow> debug_manager \<times> string" where
  "EnableHost now host m =
     (let h = normalizeHost host in
      if h = [] then (m, []) else (m\<lparr>dm_hosts := AList.update h (newBuffer now ''host'' 0 h (dm_maxBytes m)) (dm_hosts m)\<rparr>, h))"

definition DisableHost :: "string \<Rightarrow> debug_manager \<Rightarrow> debug_manager" where
  "DisableHost host m = (let h = normalizeHost host in if h = [] then m else m\<lparr>dm_hosts := AList.delete h (dm_hosts m)\<rparr>)"

definition host_buffer :: "debug_manager \<Rightarrow> string \<Rightarrow> buffer option" where
  "host_buffer m host = (let h = normalizeHost host in if h = [] then None else map_of (dm_hosts m) h)"

definition ClearHost :: "time \<Rightarrow> string \<Rightarrow> debug_manager \<Rightarrow> debug_manager \<times> bool" where
  "ClearHost now host m =
     (case host_buffer m host of
        None \<Rightarrow> (m, False)
      | Some b \<Rightarrow> (m\<lparr>dm_hosts := AList.update (normalizeHost host) (clear_buffer now b) (dm_hosts m)\<rparr>, True))"

definition IsHostEnabled :: "debug_manager \<Rightarrow> string \<Rightarrow> bool" where
  "IsHostEnabled m host \<longleftrightarrow> host_buffer m host \<noteq> None"

definition RecordHost :: "(json \<Rightarrow> string option) \<Rightarrow> nat \<Rightarrow> text_tools \<Rightarrow> time \<Rightarrow> string \<Rightarrow> json option \<Rightarrow> debug_manager \<Rightarrow> debug_manager" where
  "RecordHost marshal n tools now host entry m =
     (case host_buffer m host of
        None \<Rightarrow> m
      | Some b \<Rightarrow> m\<lparr>dm_hosts := AList.update (normalizeHost host) (append_entry now (marshal (sanitizeEntry n tools entry)) b) (dm_hosts m)\<rparr>)"

definition SnapshotHost :: "debug_manager \<Rightarrow> string \<Rightarrow> int \<Rightarrow> (buffer_info \<times> string list) option" where
  "SnapshotHost m host tail = map_option (snapshot (hostKey (normalizeHost host)) tail) (host_buffer m host)"

definition DownloadHost :: "debug_manager \<Rightarrow> string \<Rightarrow> string list option" where
  "DownloadHost m host = map_option snd (SnapshotHost m host 0)"

definition ListBuffers :: "debug_manager \<Rightarrow> buffer_info list" where
  "ListBuffers m = map (\<lambda>(i, b). buffer_summary (deviceKey i) b) (dm_devices m) @ map (\<lambda>(h, b). buffer_summary (hostKey h) b) (dm_hosts m)"

section \<open>No secret survives\<close>

text \<open>Every field with a sensitive name, at any depth, holds the replacement.\<close>

fun redacted_json :: "json \<Rightarrow> bool" where
  "redacted_json (JObj fs) \<longleftrightarrow> list_all (\<lambda>(k, v). (\<not> isSensitiveKey k \<or> v = JStr redactedValue) \<and> redacted_json v) fs"
| "redacted_json (JArr vs) \<longleftrightarrow> list_all redacted_json vs"
| "redacted_json _ \<longleftrightarrow> True"

lemma redact_tree_sensitive: "isSensitiveKey key \<Longrightarrow> redact_tree inner tools key v = JStr redactedValue"
  by (cases v) simp_all

lemma redact_tree_clean: "redacted_json (redact_tree inner tools key v)"
proof (induction inner tools key v rule: redact_tree.induct)
  case (1 inner tools key fs)
  then show ?case using redact_tree_sensitive by (fastforce simp: list_all_iff)
qed (auto simp: list_all_iff)

text \<open>
  Nothing under a sensitive name is recorded. In the redacted form of any entry, every
  object field whose name is a credential's, however it is spelled (case, dashes, underscores,
  dots and blanks do not matter) and however deep it lies, holds the replacement text, and the
  object keeps its field names.
\<close>

theorem entries_redacted:
  "redacted_json (sanitizeEntry n tools entry)"
proof -
  have "redacted_json (redactValue n tools [] v)" for v by (cases n) (simp_all add: redact_tree_clean)
  moreover have "\<not> isSensitiveKey ''type''" "\<not> isSensitiveKey ''error''" by code_simp+
  ultimately show ?thesis by (cases entry) (simp_all add: sanitizeEntry_def)
qed

text \<open>
  The fuel is enough. The library's decoder gives values whose texts are shorter than what they
  were read from; a printed URL that reads as a JSON value has its quotes escaped, so that such a
  value is made of numbers and has no texts at all.
\<close>

fun longest_text :: "json \<Rightarrow> nat" where
  "longest_text (JObj fs) = fold max (map (\<lambda>(k, v). longest_text v) fs) 0"
| "longest_text (JArr vs) = fold max (map longest_text vs) 0"
| "longest_text (JStr s) = length s"
| "longest_text _ = 0"

definition tools_shrink :: "text_tools \<Rightarrow> bool" where
  "tools_shrink tools \<longleftrightarrow>
     (\<forall>s v. tt_parse tools s = Some v \<longrightarrow> longest_text v < length s)
     \<and> (\<forall>s u v. tt_url_parse tools s = Some u \<longrightarrow> tt_parse tools (trim_space (tt_url_print tools (redact_url_parts tools u))) = Some v
           \<longrightarrow> longest_text v < length s)"

lemma fold_max_le: "fold max xs (a :: nat) \<le> b \<longleftrightarrow> a \<le> b \<and> list_all (\<lambda>x. x \<le> b) xs"
  by (induction xs arbitrary: a) auto

lemma length_trim_space: "length (trim_space s) \<le> length s"
  using length_dropWhile_le le_trans by (metis length_rev trim_space_def)

lemma redactText_inner:
  assumes "\<And>v. tt_parse tools (trim_space s) = Some v \<Longrightarrow> f v = g v"
  shows "redactText f tools s = redactText g tools s"
  using assms by (auto simp: Let_def split: option.split)

lemma redactText_shorter:
  assumes "tools_shrink tools" and "length s \<le> b" and "\<And>v. longest_text v < b \<Longrightarrow> f v = g v"
  shows "redactText f tools s = redactText g tools s"
proof (rule redactText_inner)
  fix v assume "tt_parse tools (trim_space s) = Some v"
  then have "longest_text v < length (trim_space s)" using assms(1) by (simp add: tools_shrink_def)
  then show "f v = g v" using assms(2,3) length_trim_space [of s] by simp
qed

lemma redactURL_inner:
  assumes "tools_shrink tools" and "length s \<le> b" and "\<And>v. longest_text v < b \<Longrightarrow> f v = g v"
  shows "redactURL f tools s = redactURL g tools s"
proof (cases "tt_url_parse tools s")
  case None
  then show ?thesis using redactText_shorter [OF assms] by (simp add: redactURL_def del: redactText.simps)
next
  case (Some u)
  have "redactText f tools (tt_url_print tools (redact_url_parts tools u)) = redactText g tools (tt_url_print tools (redact_url_parts tools u))"
  proof (rule redactText_inner)
    fix v assume "tt_parse tools (trim_space (tt_url_print tools (redact_url_parts tools u))) = Some v"
    then have "longest_text v < length s" using assms(1) Some by (simp add: tools_shrink_def)
    then show "f v = g v" using assms(2,3) by simp
  qed
  then show ?thesis using Some by (simp add: redactURL_def del: redactText.simps)
qed

lemma redact_tree_inner:
  assumes "tools_shrink tools" and "\<And>v. longest_text v < b \<Longrightarrow> f v = g v"
  shows "longest_text v \<le> b \<Longrightarrow> redact_tree f tools key v = redact_tree g tools key v"
proof (induction v arbitrary: key)
  case (JObj fs)
  have "redact_tree f tools k v = redact_tree g tools k v" if "(k, v) \<in> set fs" for k v
    using JObj.IH [OF that, of v k] JObj.prems that by (auto simp: fold_max_le list_all_iff)
  then show ?case by (auto simp: list_all_iff)
next
  case (JArr vs)
  have "redact_tree f tools key v = redact_tree g tools key v" if "v \<in> set vs" for v
    using JArr.IH [OF that, of key] JArr.prems that by (auto simp: fold_max_le list_all_iff)
  then show ?case by auto
next
  case (JStr s)
  then show ?case
    using redactText_shorter [OF assms(1) _ assms(2)] redactURL_inner [OF assms(1) _ assms(2)]
    by (simp del: redactText.simps)
qed simp_all

lemma redact_fuel: "tools_shrink tools \<Longrightarrow> longest_text v < n \<Longrightarrow> longest_text v < m \<Longrightarrow> redactValue n tools key v = redactValue m tools key v"
proof (induction n arbitrary: m key v)
  case (Suc n)
  then obtain m' where m: "m = Suc m'" by (cases m) auto
  have IH: "redactValue n tools [] w = redactValue m' tools [] w" if "longest_text w < longest_text v" for w
    using Suc.IH [of w m' "[]"] Suc.prems that m by simp
  have "redact_tree (redactValue n tools []) tools key v = redact_tree (redactValue m' tools []) tools key v"
    using redact_tree_inner [OF Suc.prems(1), of "longest_text v" "redactValue n tools []" "redactValue m' tools []" v key] IH by blast
  then show ?case by (simp add: m)
qed simp

text \<open>
  Redaction always comes to an end. With one more unit of fuel than the longest text of an
  entry has bytes, the result is the one of every larger bound: nested texts get shorter, so the
  recursion of the code ends.
\<close>

theorem redaction_ends:
  assumes "tools_shrink tools" and "longest_text v < n"
  shows "sanitizeEntry n tools (Some v) = sanitizeEntry (Suc (longest_text v)) tools (Some v)"
  using redact_fuel [OF assms, of "Suc (longest_text v)"] by (simp add: sanitizeEntry_def)

definition plain_tools :: text_tools where
  "plain_tools = \<lparr>tt_parse = (\<lambda>_. None), tt_print = (\<lambda>_. []), tt_patterns = (\<lambda>s. s), tt_url_parse = (\<lambda>_. None),
     tt_url_print = wu_rest, tt_query = (\<lambda>_. []), tt_encode = (\<lambda>_. [])\<rparr>"

lemma redaction_ends_witness:
  "sanitizeEntry 50 plain_tools (Some (JObj [(''Api-Key'', JNum ''7''), (''x'', JStr ''y'')]))
   = JObj [(''Api-Key'', JStr redactedValue), (''x'', JStr ''y'')]"
proof -
  have t: "tools_shrink plain_tools" by (simp add: tools_shrink_def plain_tools_def)
  have v: "longest_text (JObj [(''Api-Key'', JNum ''7''), (''x'', JStr ''y'')]) < 50" by simp
  have "sanitizeEntry (Suc (longest_text (JObj [(''Api-Key'', JNum ''7''), (''x'', JStr ''y'')]))) plain_tools
      (Some (JObj [(''Api-Key'', JNum ''7''), (''x'', JStr ''y'')])) = JObj [(''Api-Key'', JStr redactedValue), (''x'', JStr ''y'')]" by code_simp
  then show ?thesis using redaction_ends [OF t v] by simp
qed

section \<open>What a buffer holds\<close>

definition total_bytes :: "string list \<Rightarrow> nat" where
  "total_bytes es = sum_list (map length es)"

text \<open>The longest suffix of a log that fits a budget.\<close>

fun fitting :: "nat \<Rightarrow> string list \<Rightarrow> string list" where
  "fitting cap [] = []"
| "fitting cap (e # es) = (if total_bytes (e # es) \<le> cap then e # es else fitting cap es)"

text \<open>What the buffer is meant to hold: the newest entries that fit, or the start of one that never does.\<close>

definition kept_entries :: "nat \<Rightarrow> string list \<Rightarrow> string list" where
  "kept_entries cap hist = (if hist \<noteq> [] \<and> cap < length (last hist) then [take cap (last hist)] else fitting cap hist)"

lemma total_bytes_simps [simp]: "total_bytes [] = 0" "total_bytes (e # es) = length e + total_bytes es" "total_bytes (xs @ ys) = total_bytes xs + total_bytes ys"
  by (simp_all add: total_bytes_def)

lemma evict_total: "bytes = total_bytes es \<Longrightarrow> fst (evict cap sz bytes es) = total_bytes (snd (evict cap sz bytes es))"
  by (induction cap sz bytes es rule: evict.induct) simp_all

lemma evict_fits: "bytes = total_bytes es \<Longrightarrow> sz \<le> cap \<Longrightarrow> total_bytes (snd (evict cap sz bytes es)) + sz \<le> cap"
  by (induction cap sz bytes es rule: evict.induct) simp_all

lemma fitting_snoc: "length e \<le> cap \<Longrightarrow> fitting cap (hist @ [e]) = snd (evict cap (length e) (total_bytes hist) hist) @ [e]"
  by (induction hist) auto

lemma fitting_suffix_evict:
  "snd (evict cap sz (total_bytes (fitting cap hist)) (fitting cap hist)) = snd (evict cap sz (total_bytes hist) hist)"
  by (induction hist) auto

text \<open>Every suffix that ends in an entry over budget is evicted.\<close>

lemma last_le_total: "hist \<noteq> [] \<Longrightarrow> length (last hist) \<le> total_bytes hist"
  by (induction hist) auto

lemma evict_over: "hist \<noteq> [] \<Longrightarrow> cap < length (last hist) \<Longrightarrow> snd (evict cap sz (total_bytes hist) hist) = []"
proof (induction hist)
  case (Cons a hist)
  then show ?case using last_le_total [of "a # hist"] by (cases "hist = []") auto
qed simp

definition buffer_ok :: "nat \<Rightarrow> buffer \<Rightarrow> bool" where
  "buffer_ok cap b \<longleftrightarrow> bf_maxBytes b = cap \<and> bf_bytes b = total_bytes (bf_entries b) \<and> bf_bytes b \<le> cap"

definition entry_text :: "string option \<Rightarrow> string" where
  "entry_text entry = (case entry of None \<Rightarrow> marshal_error | Some r \<Rightarrow> r)"

lemma append_entry_eq:
  assumes "buffer_ok cap b"
  shows "bf_entries (append_entry now entry b) =
      (if cap < length (entry_text entry) then [take cap (entry_text entry)]
       else snd (evict cap (length (entry_text entry)) (total_bytes (bf_entries b)) (bf_entries b)) @ [entry_text entry])"
    and "buffer_ok cap (append_entry now entry b)"
proof -
  obtain bytes es where e: "evict cap (length (entry_text entry)) (bf_bytes b) (bf_entries b) = (bytes, es)"
    by (cases "evict cap (length (entry_text entry)) (bf_bytes b) (bf_entries b)")
  have b: "bf_maxBytes b = cap" "bf_bytes b = total_bytes (bf_entries b)" using assms by (simp_all add: buffer_ok_def)
  have t: "bytes = total_bytes es" using evict_total [OF b(2), of cap "length (entry_text entry)"] e by simp
  have f: "length (entry_text entry) \<le> cap \<Longrightarrow> total_bytes es + length (entry_text entry) \<le> cap"
    using evict_fits [OF b(2)] e by (metis snd_conv)
  note A = append_entry_def [of now entry b, folded entry_text_def, unfolded Let_def, simplified, unfolded b(1) e prod.case]
  show "bf_entries (append_entry now entry b) =
      (if cap < length (entry_text entry) then [take cap (entry_text entry)]
       else snd (evict cap (length (entry_text entry)) (total_bytes (bf_entries b)) (bf_entries b)) @ [entry_text entry])"
    using e b unfolding A by simp
  show "buffer_ok cap (append_entry now entry b)" unfolding A using b t f by (auto simp: buffer_ok_def)
qed

lemma append_entry_kept:
  assumes "buffer_ok cap b" and "bf_entries b = kept_entries cap hist" and "entry_text entry \<noteq> []"
  shows "bf_entries (append_entry now entry b) = kept_entries cap (hist @ [entry_text entry])"
proof (cases "cap < length (entry_text entry)")
  case True
  then show ?thesis using append_entry_eq(1) [OF assms(1)] by (simp add: kept_entries_def)
next
  case False
  let ?e = "entry_text entry"
  have k: "kept_entries cap (hist @ [?e]) = snd (evict cap (length ?e) (total_bytes hist) hist) @ [?e]"
    using False fitting_snoc [of ?e cap hist] by (simp add: kept_entries_def)
  have "snd (evict cap (length ?e) (total_bytes (bf_entries b)) (bf_entries b)) = snd (evict cap (length ?e) (total_bytes hist) hist)"
  proof (cases "hist \<noteq> [] \<and> cap < length (last hist)")
    case True
    then have "bf_entries b = [take cap (last hist)]" using assms(2) by (simp add: kept_entries_def)
    then show ?thesis using True assms(3) evict_over [of hist cap "length ?e"] by simp
  next
    case False
    have "bf_entries b = fitting cap hist" using assms(2) unfolding kept_entries_def if_not_P [OF False] .
    then show ?thesis by (simp add: fitting_suffix_evict)
  qed
  then show ?thesis using append_entry_eq(1) [OF assms(1)] False k by simp
qed

lemma appends_kept:
  "buffer_ok cap b \<Longrightarrow> bf_entries b = kept_entries cap hist \<Longrightarrow> list_all (\<lambda>(now, e). entry_text e \<noteq> []) xs \<Longrightarrow>
   buffer_ok cap (fold (\<lambda>(now, e). append_entry now e) xs b)
   \<and> bf_entries (fold (\<lambda>(now, e). append_entry now e) xs b) = kept_entries cap (hist @ map (\<lambda>(now, e). entry_text e) xs)"
proof (induction xs arbitrary: b hist)
  case (Cons x xs)
  obtain now e where x: "x = (now, e)" by (cases x)
  show ?case
    using Cons.IH [of "append_entry now e b" "hist @ [entry_text e]"] append_entry_eq(2) [OF Cons.prems(1)] append_entry_kept [OF Cons.prems(1,2)]
      Cons.prems(3) by (simp add: x)
qed simp

text \<open>C26. A debug buffer holds the newest entries that fit. After any entries (marshalled ones are not
  empty) its contents are the longest run of newest entries within the byte budget, or the first
  bytes of the last one if that alone is over it; its byte count is that of its contents and within
  the budget.
\<close>

theorem buffer_keeps_newest:
  assumes "filter (\<lambda>(now, e). entry_text e = []) xs = []"
  shows "case fold (\<lambda>(now, e). append_entry now e) xs (newBuffer t kind i h cap) of b \<Rightarrow>
      bf_entries b = kept_entries cap (map (\<lambda>(now, e). entry_text e) xs)
      \<and> bf_bytes b = total_bytes (bf_entries b) \<and> bf_bytes b \<le> cap"
proof -
  have ok: "buffer_ok cap (newBuffer t kind i h cap)" "bf_entries (newBuffer t kind i h cap) = kept_entries cap []"
    by (simp_all add: buffer_ok_def newBuffer_def kept_entries_def)
  have ne: "list_all (\<lambda>(now, e). entry_text e \<noteq> []) xs" using assms by (auto simp: list_all_iff filter_empty_conv)
  show ?thesis using appends_kept [OF ok ne] unfolding buffer_ok_def append_Nil Let_def by blast
qed

lemma buffer_keeps_newest_witness:
  "bf_entries (fold (\<lambda>(now, e). append_entry now e) [(1, Some ''abc''), (2, Some ''de''), (3, Some ''f'')] (newBuffer 0 [] 1 [] 4)) = [''de'', ''f'']"
proof -
  have "filter (\<lambda>(now, e). entry_text e = []) [(1 :: time, Some ''abc''), (2, Some ''de''), (3, Some ''f'')] = []" by (simp add: entry_text_def)
  from buffer_keeps_newest [OF this, of 0 "[]" 1 "[]" 4] show ?thesis by (simp add: kept_entries_def entry_text_def)
qed

end
