(* ===== verification/CertPins.thy ===== *)
theory CertPins imports Codec "HOL-Library.Product_Lexorder" "HOL-Library.Multiset" begin

text \<open>
  The TLS manager (src/internal/tlsutil/manager.go): the table of pinned certificates, the caches
  by device and by address that share their entries, the checks of a handshake in each mode, and
  the operations of administrators. SHA-256, the parsing of certificates and what a dialled device
  presents are parameters.
\<close>

section \<open>Tables\<close>

definition ModeInsecure :: string where "ModeInsecure = ''insecure''"
definition ModeTOFU :: string where "ModeTOFU = ''tofu''"
definition ModeStrict :: string where "ModeStrict = ''strict''"

lemmas mode_defs = ModeInsecure_def ModeTOFU_def ModeStrict_def

record cert_row =
  dc_device_id :: int
  dc_fingerprint :: string
  dc_subject :: string
  dc_issuer :: string
  dc_not_before :: "time option"
  dc_not_after :: "time option"
  dc_pinned_at :: "time option"
  dc_pinned_by :: "int option"
  dc_verified :: bool
  dc_verified_at :: "time option"
  dc_verified_by :: "int option"
  dc_previous :: "string option"
  dc_changed_at :: "time option"

text \<open>The columns of devices the manager reads, the setting of the mode, and the next device id.\<close>

record tls_device =
  td_id :: int
  td_ip :: "string option"
  td_hostname :: "string option"
  td_parent :: "int option"
  td_managed :: bool
  td_site :: "int option"

record tls_db =
  tb_certs :: "cert_row list"
  tb_devices :: "tls_device list"
  tb_mode :: "string option"
  tb_next :: int

definition find_cert :: "tls_db \<Rightarrow> int \<Rightarrow> cert_row option" where
  "find_cert db d = find (\<lambda>r. dc_device_id r = d) (tb_certs db)"

definition device_exists :: "tls_db \<Rightarrow> int \<Rightarrow> bool" where
  "device_exists db d \<longleftrightarrow> d \<in> set (map td_id (tb_devices db))"

text \<open>A parsed certificate.\<close>

record x509 =
  xc_Raw :: string
  xc_Subject :: string
  xc_Issuer :: string
  xc_NotBefore :: time
  xc_NotAfter :: time

record x509_tools =
  xt_sha256 :: "string \<Rightarrow> string"
  xt_parse :: "string \<Rightarrow> x509 option"

definition fingerprint_of :: "x509_tools \<Rightarrow> string \<Rightarrow> string" where
  "fingerprint_of t raw = hex_encode (xt_sha256 t raw)"

section \<open>The caches\<close>

text \<open>Entries live in a store, the maps hold their addresses, so that an entry is seen under every key that has it.\<close>

record cached_cert =
  cc_Fingerprint :: string
  cc_Verified :: bool
  cc_DeviceID :: int

record tls_manager =
  tm_mode :: string
  tm_store :: "cached_cert list"
  tm_byDeviceID :: "(int, nat) gomap"
  tm_byIP :: "(string, nat) gomap"
  tm_deviceIDByIP :: "(string, int) gomap"

definition entry_at :: "tls_manager \<Rightarrow> nat \<Rightarrow> cached_cert option" where
  "entry_at m a = (if a < length (tm_store m) then Some (tm_store m ! a) else None)"

definition cert_of_device :: "tls_manager \<Rightarrow> int \<Rightarrow> cached_cert option" where
  "cert_of_device m d = Option.bind (map_of (tm_byDeviceID m) d) (entry_at m)"

definition cert_of_ip :: "tls_manager \<Rightarrow> string \<Rightarrow> cached_cert option" where
  "cert_of_ip m ip = Option.bind (map_of (tm_byIP m) ip) (entry_at m)"

definition cache_device :: "cached_cert \<Rightarrow> tls_manager \<Rightarrow> tls_manager" where
  "cache_device c m =
     m\<lparr>tm_store := tm_store m @ [c], tm_byDeviceID := AList.update (cc_DeviceID c) (length (tm_store m)) (tm_byDeviceID m)\<rparr>"

definition cache_with_ip :: "cached_cert \<Rightarrow> string \<Rightarrow> tls_manager \<Rightarrow> tls_manager" where
  "cache_with_ip c ip m =
     (cache_device c m)\<lparr>tm_byIP := AList.update ip (length (tm_store m)) (tm_byIP m),
        tm_deviceIDByIP := AList.update ip (cc_DeviceID c) (tm_deviceIDByIP m)\<rparr>"

definition change_entry :: "(cached_cert \<Rightarrow> cached_cert) \<Rightarrow> int \<Rightarrow> tls_manager \<Rightarrow> tls_manager" where
  "change_entry f d m =
     (case map_of (tm_byDeviceID m) d of
        None \<Rightarrow> m
      | Some a \<Rightarrow> if a < length (tm_store m) then m\<lparr>tm_store := (tm_store m)[a := f (tm_store m ! a)]\<rparr> else m)"

text \<open>Loading the mode (none if the setting is missing or cannot be read) and the rows of the join.\<close>

definition loadMode :: "string option \<Rightarrow> tls_manager \<Rightarrow> tls_manager" where
  "loadMode setting m =
     (case setting of
        None \<Rightarrow> m
      | Some v \<Rightarrow> m\<lparr>tm_mode := (if v = ''tofu'' then ModeTOFU else if v = ''strict'' then ModeStrict else ModeInsecure)\<rparr>)"

type_synonym loaded_row = "int \<times> string \<times> bool \<times> string option"

definition cert_rows :: "tls_db \<Rightarrow> loaded_row list" where
  "cert_rows db =
     concat (map (\<lambda>r. map (\<lambda>d. (dc_device_id r, dc_fingerprint r, dc_verified r, td_ip d))
                        (filter (\<lambda>d. td_id d = dc_device_id r) (tb_devices db))) (tb_certs db))"

definition load_row :: "loaded_row \<Rightarrow> tls_manager \<Rightarrow> tls_manager" where
  "load_row row m =
     (case row of (d, fp, verified, ip) \<Rightarrow>
        let c = \<lparr>cc_Fingerprint = fp, cc_Verified = verified, cc_DeviceID = d\<rparr> in
        (case ip of
           None \<Rightarrow> cache_device c m
         | Some addr \<Rightarrow> if addr = [] then cache_device c m else cache_with_ip c addr m))"

definition loadCerts :: "loaded_row list option \<Rightarrow> tls_manager \<Rightarrow> tls_manager" where
  "loadCerts answer m = (case answer of None \<Rightarrow> m | Some rows \<Rightarrow> fold load_row rows m)"

definition Reload :: "string option \<Rightarrow> loaded_row list option \<Rightarrow> tls_manager \<Rightarrow> tls_manager" where
  "Reload setting answer m = loadCerts answer (loadMode setting m)"

definition NewManager :: "string option \<Rightarrow> loaded_row list option \<Rightarrow> tls_manager" where
  "NewManager setting answer =
     Reload setting answer \<lparr>tm_mode = ModeInsecure, tm_store = [], tm_byDeviceID = [], tm_byIP = [], tm_deviceIDByIP = []\<rparr>"

section \<open>Handshakes\<close>

datatype tls_error = NoCertPresented | NoPinnedCert | CertNotVerified | CertChanged

text \<open>The goroutines a check starts.\<close>

datatype tls_task = RecordChange int string string | AutoPin int string string

definition verifyStrict :: "x509_tools \<Rightarrow> tls_manager \<Rightarrow> int \<Rightarrow> string list \<Rightarrow> tls_error option \<times> tls_task list" where
  "verifyStrict t m d rawCerts =
     (case rawCerts of
        [] \<Rightarrow> (Some NoCertPresented, [])
      | raw # _ \<Rightarrow>
          (let fp = fingerprint_of t raw in
           case cert_of_device m d of
             None \<Rightarrow> (Some NoPinnedCert, [])
           | Some c \<Rightarrow>
               (if \<not> cc_Verified c then (Some CertNotVerified, [])
                else if fp \<noteq> cc_Fingerprint c then (Some CertChanged, [RecordChange d fp raw]) else (None, []))))"

definition verifyStrictByIP :: "x509_tools \<Rightarrow> tls_manager \<Rightarrow> string \<Rightarrow> string list \<Rightarrow> tls_error option \<times> tls_task list" where
  "verifyStrictByIP t m ip rawCerts =
     (case rawCerts of
        [] \<Rightarrow> (Some NoCertPresented, [])
      | raw # _ \<Rightarrow>
          (let fp = fingerprint_of t raw in
           case cert_of_ip m ip of
             None \<Rightarrow> (Some NoPinnedCert, [])
           | Some c \<Rightarrow>
               (if \<not> cc_Verified c then (Some CertNotVerified, [])
                else if fp \<noteq> cc_Fingerprint c then (Some CertChanged, [RecordChange (cc_DeviceID c) fp raw]) else (None, []))))"

definition verifyTOFU :: "x509_tools \<Rightarrow> tls_manager \<Rightarrow> int \<Rightarrow> string list \<Rightarrow> tls_error option \<times> tls_task list" where
  "verifyTOFU t m d rawCerts =
     (case rawCerts of
        [] \<Rightarrow> (Some NoCertPresented, [])
      | raw # _ \<Rightarrow>
          (let fp = fingerprint_of t raw in
           case cert_of_device m d of
             None \<Rightarrow> (None, [])
           | Some c \<Rightarrow> (None, if fp \<noteq> cc_Fingerprint c then [RecordChange d fp raw] else [])))"

definition verifyTOFUByIP :: "x509_tools \<Rightarrow> tls_manager \<Rightarrow> string \<Rightarrow> string list \<Rightarrow> tls_error option \<times> tls_task list" where
  "verifyTOFUByIP t m ip rawCerts =
     (case rawCerts of
        [] \<Rightarrow> (Some NoCertPresented, [])
      | raw # _ \<Rightarrow>
          (let fp = fingerprint_of t raw; d = (case map_of (tm_deviceIDByIP m) ip of None \<Rightarrow> 0 | Some i \<Rightarrow> i) in
           case cert_of_ip m ip of
             Some c \<Rightarrow> (None, if fp \<noteq> cc_Fingerprint c then [RecordChange (cc_DeviceID c) fp raw] else [])
           | None \<Rightarrow> (None, if 0 < d then [AutoPin d fp raw] else [])))"

text \<open>The check a transport carries depends on the mode at the time it was made.\<close>

definition getTLSConfig :: "x509_tools \<Rightarrow> string \<Rightarrow> tls_manager \<Rightarrow> int \<Rightarrow> string list \<Rightarrow> tls_error option \<times> tls_task list" where
  "getTLSConfig t mode m d rawCerts =
     (if mode = ModeStrict then verifyStrict t m d rawCerts
      else if mode = ModeTOFU then verifyTOFU t m d rawCerts else (None, []))"

definition getTLSConfigByIP :: "x509_tools \<Rightarrow> string \<Rightarrow> tls_manager \<Rightarrow> string \<Rightarrow> string list \<Rightarrow> tls_error option \<times> tls_task list" where
  "getTLSConfigByIP t mode m ip rawCerts =
     (if mode = ModeStrict then verifyStrictByIP t m ip rawCerts
      else if mode = ModeTOFU then verifyTOFUByIP t m ip rawCerts else (None, []))"

definition RequiresPinnedCert :: "tls_manager \<Rightarrow> bool" where
  "RequiresPinnedCert m \<longleftrightarrow> tm_mode m = ModeStrict"

definition CanSendCredentials :: "tls_manager \<Rightarrow> int \<Rightarrow> bool" where
  "CanSendCredentials m d \<longleftrightarrow>
     (if tm_mode m = ModeInsecure then True
      else case cert_of_device m d of None \<Rightarrow> False | Some c \<Rightarrow> (if tm_mode m = ModeStrict then cc_Verified c else True))"

definition CanSendCredentialsByIP :: "tls_manager \<Rightarrow> string \<Rightarrow> bool" where
  "CanSendCredentialsByIP m ip \<longleftrightarrow>
     (if tm_mode m = ModeInsecure then True
      else case cert_of_ip m ip of None \<Rightarrow> False | Some c \<Rightarrow> (if tm_mode m = ModeStrict then cc_Verified c else True))"

definition IsPinned :: "tls_manager \<Rightarrow> int \<Rightarrow> bool" where
  "IsPinned m d \<longleftrightarrow> cert_of_device m d \<noteq> None"

definition IsPinnedByIP :: "tls_manager \<Rightarrow> string \<Rightarrow> bool" where
  "IsPinnedByIP m ip \<longleftrightarrow> cert_of_ip m ip \<noteq> None"

definition IsVerified :: "tls_manager \<Rightarrow> int \<Rightarrow> bool" where
  "IsVerified m d \<longleftrightarrow> (case cert_of_device m d of None \<Rightarrow> False | Some c \<Rightarrow> cc_Verified c)"

section \<open>Operations\<close>

text \<open>
  Every operation is a statement on the table followed by a change of the cache; the two halves
  are separate definitions, since other goroutines run between them.
\<close>

definition change_row :: "time \<Rightarrow> int \<Rightarrow> string \<Rightarrow> x509 \<Rightarrow> tls_db \<Rightarrow> tls_db" where
  "change_row now d fp cert db =
     db\<lparr>tb_certs := update_where (\<lambda>r. dc_device_id r = d)
          (\<lambda>r. r\<lparr>dc_previous := Some (dc_fingerprint r), dc_fingerprint := fp, dc_subject := xc_Subject cert, dc_issuer := xc_Issuer cert,
                 dc_not_before := Some (xc_NotBefore cert), dc_not_after := Some (xc_NotAfter cert), dc_changed_at := Some now,
                 dc_verified := False, dc_verified_at := None, dc_verified_by := None\<rparr>) (tb_certs db)\<rparr>"

definition change_cache :: "int \<Rightarrow> string \<Rightarrow> tls_manager \<Rightarrow> tls_manager" where
  "change_cache d fp = change_entry (\<lambda>c. c\<lparr>cc_Fingerprint := fp, cc_Verified := False\<rparr>) d"

definition recordCertChange :: "x509_tools \<Rightarrow> bool \<Rightarrow> time \<Rightarrow> int \<Rightarrow> string \<Rightarrow> string \<Rightarrow> tls_db \<times> tls_manager \<Rightarrow> tls_db \<times> tls_manager" where
  "recordCertChange t db_ok now d fp raw s =
     (if d = 0 then s
      else case xt_parse t raw of
             None \<Rightarrow> s
           | Some cert \<Rightarrow> if db_ok then (change_row now d fp cert (fst s), change_cache d fp (snd s)) else s)"

text \<open>An insert with ON CONFLICT DO NOTHING; the device has to exist.\<close>

definition auto_row :: "time \<Rightarrow> int \<Rightarrow> string \<Rightarrow> x509 \<Rightarrow> tls_db \<Rightarrow> tls_db" where
  "auto_row now d fp cert db =
     (if find_cert db d \<noteq> None then db
      else db\<lparr>tb_certs := tb_certs db @
             [\<lparr>dc_device_id = d, dc_fingerprint = fp, dc_subject = xc_Subject cert, dc_issuer = xc_Issuer cert,
               dc_not_before = Some (xc_NotBefore cert), dc_not_after = Some (xc_NotAfter cert), dc_pinned_at = Some now, dc_pinned_by = None,
               dc_verified = False, dc_verified_at = None, dc_verified_by = None, dc_previous = None, dc_changed_at = None\<rparr>]\<rparr>)"

definition autoPinCert :: "x509_tools \<Rightarrow> bool \<Rightarrow> time \<Rightarrow> int \<Rightarrow> string \<Rightarrow> string \<Rightarrow> tls_db \<times> tls_manager \<Rightarrow> tls_db \<times> tls_manager" where
  "autoPinCert t db_ok now d fp raw s =
     (case xt_parse t raw of
        None \<Rightarrow> s
      | Some cert \<Rightarrow>
          (if db_ok \<and> device_exists (fst s) d
           then (auto_row now d fp cert (fst s),
                 cache_device \<lparr>cc_Fingerprint = fp, cc_Verified = False, cc_DeviceID = d\<rparr> (snd s))
           else s))"

text \<open>Pinning: an insert that replaces the pinned certificate of the device if there is one.\<close>

definition pinned_row :: "time \<Rightarrow> int \<Rightarrow> bool \<Rightarrow> int \<Rightarrow> string \<Rightarrow> x509 \<Rightarrow> cert_row option \<Rightarrow> cert_row" where
  "pinned_row now user verify d fp cert old =
     \<lparr>dc_device_id = d, dc_fingerprint = fp, dc_subject = xc_Subject cert, dc_issuer = xc_Issuer cert,
      dc_not_before = Some (xc_NotBefore cert), dc_not_after = Some (xc_NotAfter cert), dc_pinned_at = Some now, dc_pinned_by = Some user,
      dc_verified = verify, dc_verified_at = (if verify then Some now else None), dc_verified_by = (if verify then Some user else None),
      dc_previous = (case old of
          None \<Rightarrow> None
        | Some r \<Rightarrow> if verify then None else if dc_fingerprint r \<noteq> fp then Some (dc_fingerprint r) else dc_previous r),
      dc_changed_at = (case old of
          None \<Rightarrow> None
        | Some r \<Rightarrow> if verify then None else if dc_fingerprint r \<noteq> fp then Some now else dc_changed_at r)\<rparr>"

definition pin_row :: "time \<Rightarrow> int \<Rightarrow> bool \<Rightarrow> int \<Rightarrow> string \<Rightarrow> x509 \<Rightarrow> tls_db \<Rightarrow> tls_db" where
  "pin_row now user verify d fp cert db =
     (case find_cert db d of
        None \<Rightarrow> db\<lparr>tb_certs := tb_certs db @ [pinned_row now user verify d fp cert None]\<rparr>
      | Some old \<Rightarrow> db\<lparr>tb_certs := update_where (\<lambda>r. dc_device_id r = d) (\<lambda>r. pinned_row now user verify d fp cert (Some r)) (tb_certs db)\<rparr>)"

record cert_info =
  ci_DeviceID :: int
  ci_Fingerprint :: string
  ci_Subject :: string
  ci_Issuer :: string
  ci_NotBefore :: time
  ci_NotAfter :: time
  ci_PinnedAt :: time
  ci_PinnedBy :: int
  ci_Verified :: bool
  ci_VerifiedAt :: "time option"
  ci_VerifiedBy :: int
  ci_Previous :: string
  ci_ChangedAt :: "time option"
  ci_Hostname :: string
  ci_IP :: string
  ci_CertValid :: bool

definition cert_valid :: "time \<Rightarrow> time \<Rightarrow> time \<Rightarrow> bool" where
  "cert_valid now not_before not_after \<longleftrightarrow> now < not_after \<and> not_before < now"

definition pin_info :: "time \<Rightarrow> int \<Rightarrow> bool \<Rightarrow> int \<Rightarrow> string \<Rightarrow> x509 \<Rightarrow> cert_info" where
  "pin_info now user verify d fp cert =
     \<lparr>ci_DeviceID = d, ci_Fingerprint = fp, ci_Subject = xc_Subject cert, ci_Issuer = xc_Issuer cert, ci_NotBefore = xc_NotBefore cert,
      ci_NotAfter = xc_NotAfter cert, ci_PinnedAt = now, ci_PinnedBy = user, ci_Verified = verify,
      ci_VerifiedAt = (if verify then Some now else None), ci_VerifiedBy = (if verify then user else 0), ci_Previous = [], ci_ChangedAt = None,
      ci_Hostname = [], ci_IP = [], ci_CertValid = cert_valid now (xc_NotBefore cert) (xc_NotAfter cert)\<rparr>"

text \<open>What dialling the device gives: an error or the certificates it presents.\<close>

datatype pin_error = ConnectFailed | PinNoCertificate | PinFailed

definition PinCertFromDevice ::
  "x509_tools \<Rightarrow> bool \<Rightarrow> time \<Rightarrow> x509 list option \<Rightarrow> int \<Rightarrow> string \<Rightarrow> int \<Rightarrow> bool \<Rightarrow> tls_db \<times> tls_manager \<Rightarrow> (tls_db \<times> tls_manager) \<times> (pin_error + cert_info)" where
  "PinCertFromDevice t db_ok now dialled d ip user verify s =
     (case dialled of
        None \<Rightarrow> (s, Inl ConnectFailed)
      | Some [] \<Rightarrow> (s, Inl PinNoCertificate)
      | Some (cert # _) \<Rightarrow>
          (let fp = fingerprint_of t (xc_Raw cert) in
           if db_ok \<and> device_exists (fst s) d
           then ((pin_row now user verify d fp cert (fst s),
                  cache_with_ip \<lparr>cc_Fingerprint = fp, cc_Verified = verify, cc_DeviceID = d\<rparr> ip (snd s)),
                 Inr (pin_info now user verify d fp cert))
           else (s, Inl PinFailed)))"

definition verified_row :: "time \<Rightarrow> int \<Rightarrow> cert_row \<Rightarrow> cert_row" where
  "verified_row now user r =
     r\<lparr>dc_verified := True, dc_verified_at := Some now, dc_verified_by := Some user, dc_previous := None, dc_changed_at := None\<rparr>"

definition verify_rows :: "time \<Rightarrow> int \<Rightarrow> int \<Rightarrow> tls_db \<Rightarrow> tls_db" where
  "verify_rows now user d db = db\<lparr>tb_certs := update_where (\<lambda>r. dc_device_id r = d) (verified_row now user) (tb_certs db)\<rparr>"

definition verify_cache :: "int \<Rightarrow> tls_manager \<Rightarrow> tls_manager" where
  "verify_cache d = change_entry (\<lambda>c. c\<lparr>cc_Verified := True\<rparr>) d"

text \<open>None is success; the error says whether the statement failed or there was no row.\<close>

datatype cert_error = CertDBError | NoCertFor int

definition VerifyCert :: "bool \<Rightarrow> time \<Rightarrow> int \<Rightarrow> int \<Rightarrow> tls_db \<times> tls_manager \<Rightarrow> (tls_db \<times> tls_manager) \<times> cert_error option" where
  "VerifyCert db_ok now d user s =
     (if \<not> db_ok then (s, Some CertDBError)
      else if find_cert (fst s) d = None then (s, Some (NoCertFor d))
      else ((verify_rows now user d (fst s), verify_cache d (snd s)), None))"

definition has_entry_of :: "tls_manager \<Rightarrow> int \<Rightarrow> nat \<Rightarrow> bool" where
  "has_entry_of m d a \<longleftrightarrow> (case entry_at m a of None \<Rightarrow> False | Some c \<Rightarrow> cc_DeviceID c = d)"

text \<open>Only the first address met in the iteration over the map is dropped; \<open>ord\<close> is the order of the iteration.\<close>

definition unpin_cache :: "((string \<times> nat) list \<Rightarrow> (string \<times> nat) list) \<Rightarrow> int \<Rightarrow> tls_manager \<Rightarrow> tls_manager" where
  "unpin_cache ord d m =
     (let m1 = m\<lparr>tm_byDeviceID := AList.delete d (tm_byDeviceID m)\<rparr> in
      case find (\<lambda>(ip, a). has_entry_of m d a) (ord (tm_byIP m)) of
        None \<Rightarrow> m1
      | Some (ip, a) \<Rightarrow> m1\<lparr>tm_byIP := AList.delete ip (tm_byIP m), tm_deviceIDByIP := AList.delete ip (tm_deviceIDByIP m)\<rparr>)"

definition UnpinCert ::
  "bool \<Rightarrow> ((string \<times> nat) list \<Rightarrow> (string \<times> nat) list) \<Rightarrow> int \<Rightarrow> tls_db \<times> tls_manager \<Rightarrow> (tls_db \<times> tls_manager) \<times> cert_error option" where
  "UnpinCert db_ok ord d s =
     (if db_ok then (((fst s)\<lparr>tb_certs := delete_where (\<lambda>r. dc_device_id r = d) (tb_certs (fst s))\<rparr>, unpin_cache ord d (snd s)), None)
      else (s, Some CertDBError))"

definition site_devices :: "tls_db \<Rightarrow> int \<Rightarrow> int list" where
  "site_devices db site = map td_id (filter (\<lambda>d. td_site d = Some site) (tb_devices db))"

definition unpin_device :: "int \<Rightarrow> tls_manager \<Rightarrow> tls_manager" where
  "unpin_device d m =
     (let ips = map fst (filter (\<lambda>(ip, a). has_entry_of m d a) (tm_byIP m)) in
      m\<lparr>tm_byDeviceID := AList.delete d (tm_byDeviceID m), tm_byIP := map_del_if (\<lambda>ip. ip \<in> set ips) (tm_byIP m),
        tm_deviceIDByIP := map_del_if (\<lambda>ip. ip \<in> set ips) (tm_deviceIDByIP m)\<rparr>)"

text \<open>The two statements of UnpinGroup may each fail.\<close>

definition UnpinGroup :: "bool \<Rightarrow> bool \<Rightarrow> int \<Rightarrow> tls_db \<times> tls_manager \<Rightarrow> (tls_db \<times> tls_manager) \<times> (cert_error + nat)" where
  "UnpinGroup query_ok delete_ok site s =
     (if \<not> query_ok \<or> \<not> delete_ok then (s, Inl CertDBError)
      else let ids = site_devices (fst s) site; doomed = (\<lambda>r. dc_device_id r \<in> set ids) in
           (((fst s)\<lparr>tb_certs := delete_where doomed (tb_certs (fst s))\<rparr>, fold unpin_device ids (snd s)),
            Inr (length (filter doomed (tb_certs (fst s))))))"

definition RegisterDeviceIP :: "string \<Rightarrow> int \<Rightarrow> tls_manager \<Rightarrow> tls_manager" where
  "RegisterDeviceIP ip d m =
     (let m1 = m\<lparr>tm_deviceIDByIP := AList.update ip d (tm_deviceIDByIP m)\<rparr> in
      case map_of (tm_byDeviceID m) d of None \<Rightarrow> m1 | Some a \<Rightarrow> m1\<lparr>tm_byIP := AList.update ip a (tm_byIP m)\<rparr>)"

definition SetMode :: "bool \<Rightarrow> string \<Rightarrow> tls_db \<times> tls_manager \<Rightarrow> (tls_db \<times> tls_manager) \<times> cert_error option" where
  "SetMode db_ok mode s =
     (if db_ok then (((fst s)\<lparr>tb_mode := Some mode\<rparr>, (snd s)\<lparr>tm_mode := mode\<rparr>), None) else (s, Some CertDBError))"

definition is_pending :: "cert_row \<Rightarrow> bool" where
  "is_pending r \<longleftrightarrow> \<not> dc_verified r \<or> dc_changed_at r \<noteq> None"

text \<open>The answer of the reload that follows is an argument.\<close>

definition BulkVerifyCerts :: "bool \<Rightarrow> time \<Rightarrow> int \<Rightarrow> (tls_db \<Rightarrow> loaded_row list option) \<Rightarrow> tls_db \<times> tls_manager \<Rightarrow> (tls_db \<times> tls_manager) \<times> (cert_error + nat)" where
  "BulkVerifyCerts db_ok now user reload s =
     (if \<not> db_ok then (s, Inl CertDBError)
      else let db = (fst s)\<lparr>tb_certs := update_where is_pending (verified_row now user) (tb_certs (fst s))\<rparr> in
           ((db, loadCerts (reload db) (snd s)), Inr (length (filter is_pending (tb_certs (fst s))))))"


section \<open>Learning and listing\<close>

text \<open>The devices the manager's queries are about: contacted directly and with an address.\<close>

definition is_direct :: "tls_device \<Rightarrow> bool" where
  "is_direct d \<longleftrightarrow> td_ip d \<noteq> None \<and> (td_parent d = None \<or> td_managed d)"

definition without_cert :: "tls_db \<Rightarrow> tls_device list" where
  "without_cert db = filter (\<lambda>d. is_direct d \<and> find_cert db (td_id d) = None) (tb_devices db)"

text \<open>A row whose hostname is NULL does not scan into a string and is passed over.\<close>

definition learn_targets :: "tls_db \<Rightarrow> (int \<times> string \<times> string) list" where
  "learn_targets db =
     concat (map (\<lambda>d. case (td_ip d, td_hostname d) of (Some ip, Some name) \<Rightarrow> [(td_id d, ip, name)] | _ \<Rightarrow> []) (without_cert db))"

record learn_result =
  lr_learned :: nat
  lr_failed :: nat
  lr_errors :: "(string \<times> pin_error option) list"

text \<open>One device; the error without a cause is the one of a device that only speaks http.\<close>

definition learn_one ::
  "x509_tools \<Rightarrow> (string \<Rightarrow> string) \<Rightarrow> (string \<Rightarrow> x509 list option) \<Rightarrow> time \<Rightarrow> int \<Rightarrow> bool \<Rightarrow> int \<times> string \<times> string
     \<Rightarrow> (tls_db \<times> tls_manager) \<times> learn_result \<Rightarrow> (tls_db \<times> tls_manager) \<times> learn_result" where
  "learn_one t scheme dial now user verify dev acc =
     (case dev of (d, ip, hostname) \<Rightarrow> case acc of (s, res) \<Rightarrow>
        let name = (if hostname = [] then ip else hostname);
            failure = (\<lambda>cause. res\<lparr>lr_failed := lr_failed res + 1, lr_errors := lr_errors res @ [(name, cause)]\<rparr>) in
        if scheme ip = ''http'' then (s, failure None)
        else (case PinCertFromDevice t True now (dial ip) d ip user verify s of
                (s', Inl e) \<Rightarrow> (s', failure (Some e))
              | (s', Inr info) \<Rightarrow> (s', res\<lparr>lr_learned := lr_learned res + 1\<rparr>)))"

text \<open>The goroutines take the devices in some order, \<open>sched\<close>.\<close>

definition BulkLearnCerts ::
  "x509_tools \<Rightarrow> (string \<Rightarrow> string) \<Rightarrow> (string \<Rightarrow> x509 list option) \<Rightarrow> ((int \<times> string \<times> string) list \<Rightarrow> (int \<times> string \<times> string) list)
     \<Rightarrow> time \<Rightarrow> int \<Rightarrow> bool \<Rightarrow> tls_db \<times> tls_manager \<Rightarrow> (tls_db \<times> tls_manager) \<times> learn_result" where
  "BulkLearnCerts t scheme dial sched now user verify s =
     fold (learn_one t scheme dial now user verify) (sched (learn_targets (fst s)))
       (s, \<lparr>lr_learned = 0, lr_failed = 0, lr_errors = []\<rparr>)"

definition default_to :: "'a \<Rightarrow> 'a option \<Rightarrow> 'a" where
  "default_to z v = (case v of None \<Rightarrow> z | Some x \<Rightarrow> x)"

text \<open>A row of the table as shown; NULL times are the zero time.\<close>

definition row_info :: "time \<Rightarrow> cert_row \<Rightarrow> cert_info" where
  "row_info now r =
     \<lparr>ci_DeviceID = dc_device_id r, ci_Fingerprint = dc_fingerprint r, ci_Subject = dc_subject r, ci_Issuer = dc_issuer r,
      ci_NotBefore = default_to 0 (dc_not_before r), ci_NotAfter = default_to 0 (dc_not_after r), ci_PinnedAt = default_to 0 (dc_pinned_at r),
      ci_PinnedBy = default_to 0 (dc_pinned_by r), ci_Verified = dc_verified r, ci_VerifiedAt = dc_verified_at r,
      ci_VerifiedBy = default_to 0 (dc_verified_by r), ci_Previous = default_to [] (dc_previous r), ci_ChangedAt = dc_changed_at r,
      ci_Hostname = [], ci_IP = [],
      ci_CertValid = (case dc_not_after r of None \<Rightarrow> False | Some e \<Rightarrow> cert_valid now (default_to 0 (dc_not_before r)) e)\<rparr>"

definition queryCerts :: "time \<Rightarrow> (cert_row \<Rightarrow> bool) \<Rightarrow> ((cert_row \<times> tls_device) list \<Rightarrow> (cert_row \<times> tls_device) list) \<Rightarrow> tls_db \<Rightarrow> cert_info list" where
  "queryCerts now cond order db =
     map (\<lambda>(r, d). (row_info now r)\<lparr>ci_Hostname := default_to [] (td_hostname d), ci_IP := default_to [] (td_ip d)\<rparr>)
       (order (concat (map (\<lambda>r. map (Pair r) (filter (\<lambda>d. td_id d = dc_device_id r) (tb_devices db))) (filter cond (tb_certs db)))))"

text \<open>ORDER BY changed_at DESC NULLS LAST, pinned_at DESC, whose NULLs come first.\<close>

definition pending_key :: "cert_row \<Rightarrow> (int \<times> int) \<times> (int \<times> int)" where
  "pending_key r =
     ((case dc_changed_at r of None \<Rightarrow> (1, 0) | Some c \<Rightarrow> (0, - c)), (case dc_pinned_at r of None \<Rightarrow> (0, 0) | Some p \<Rightarrow> (1, - p)))"

definition GetPendingCerts :: "time \<Rightarrow> tls_db \<Rightarrow> cert_info list" where
  "GetPendingCerts now db = queryCerts now is_pending (sort_key (\<lambda>(r, d). pending_key r)) db"

definition GetAllCerts :: "time \<Rightarrow> ((cert_row \<times> tls_device) list \<Rightarrow> (cert_row \<times> tls_device) list) \<Rightarrow> tls_db \<Rightarrow> cert_info list" where
  "GetAllCerts now collation db = queryCerts now (\<lambda>r. True) collation db"

definition GetCertInfo :: "time \<Rightarrow> tls_db \<Rightarrow> int \<Rightarrow> cert_info option" where
  "GetCertInfo now db d = map_option (row_info now) (find_cert db d)"

definition GetCurrentCert :: "x509_tools \<Rightarrow> time \<Rightarrow> x509 list option \<Rightarrow> pin_error + cert_info" where
  "GetCurrentCert t now dialled =
     (case dialled of
        None \<Rightarrow> Inl ConnectFailed
      | Some [] \<Rightarrow> Inl PinNoCertificate
      | Some (cert # _) \<Rightarrow>
          Inr \<lparr>ci_DeviceID = 0, ci_Fingerprint = fingerprint_of t (xc_Raw cert), ci_Subject = xc_Subject cert, ci_Issuer = xc_Issuer cert,
               ci_NotBefore = xc_NotBefore cert, ci_NotAfter = xc_NotAfter cert, ci_PinnedAt = 0, ci_PinnedBy = 0, ci_Verified = False,
               ci_VerifiedAt = None, ci_VerifiedBy = 0, ci_Previous = [], ci_ChangedAt = None, ci_Hostname = [], ci_IP = [],
               ci_CertValid = cert_valid now (xc_NotBefore cert) (xc_NotAfter cert)\<rparr>)"

record cert_stats =
  cs_total :: nat
  cs_verified :: nat
  cs_pending :: nat
  cs_changed :: nat
  cs_expired :: nat
  cs_noCert :: nat

definition counted :: "tls_db \<Rightarrow> cert_row list" where
  "counted db = concat (map (\<lambda>r. map (\<lambda>d. r) (filter (\<lambda>d. td_id d = dc_device_id r \<and> is_direct d) (tb_devices db))) (tb_certs db))"

definition count_where :: "('a \<Rightarrow> bool) \<Rightarrow> 'a list \<Rightarrow> nat" where
  "count_where P xs = length (filter P xs)"

definition Stats :: "time \<Rightarrow> tls_db \<Rightarrow> cert_stats" where
  "Stats now db =
     (let rows = counted db in
      \<lparr>cs_total = length rows, cs_verified = count_where dc_verified rows,
       cs_pending = count_where (\<lambda>r. \<not> dc_verified r \<and> dc_changed_at r = None) rows,
       cs_changed = count_where (\<lambda>r. dc_changed_at r \<noteq> None) rows,
       cs_expired = count_where (\<lambda>r. case dc_not_after r of None \<Rightarrow> False | Some e \<Rightarrow> e < now) rows,
       cs_noCert = length (without_cert db)\<rparr>)"

section \<open>Runs of the manager\<close>

text \<open>
  The program's steps: administrators' operations, handshakes over transports of any mode, the
  goroutines these start, each at any later time, and the other parts of the program adding,
  changing and deleting devices (a deletion cascades to the pinned certificate). No part of the
  program calls RegisterDeviceIP.
\<close>

record tls_world =
  tw_db :: tls_db
  tw_m :: tls_manager
  tw_tasks :: "tls_task list"

definition put :: "tls_db \<times> tls_manager \<Rightarrow> tls_world \<Rightarrow> tls_world" where
  "put s w = w\<lparr>tw_db := fst s, tw_m := snd s\<rparr>"

definition get :: "tls_world \<Rightarrow> tls_db \<times> tls_manager" where
  "get w = (tw_db w, tw_m w)"

fun run_task :: "x509_tools \<Rightarrow> bool \<Rightarrow> time \<Rightarrow> tls_task \<Rightarrow> tls_db \<times> tls_manager \<Rightarrow> tls_db \<times> tls_manager" where
  "run_task t db_ok now (RecordChange d fp raw) s = recordCertChange t db_ok now d fp raw s"
| "run_task t db_ok now (AutoPin d fp raw) s = autoPinCert t db_ok now d fp raw s"

text \<open>A query for the rows fails, or gives some of them in any order (the loop stops at an error).\<close>

definition cert_answer :: "tls_db \<Rightarrow> loaded_row list option \<Rightarrow> bool" where
  "cert_answer db answer \<longleftrightarrow> (case answer of None \<Rightarrow> True | Some rows \<Rightarrow> mset rows \<subseteq># mset (cert_rows db))"

definition remove_device :: "int \<Rightarrow> tls_db \<Rightarrow> tls_db" where
  "remove_device d db =
     db\<lparr>tb_devices := delete_where (\<lambda>x. td_id x = d) (tb_devices db), tb_certs := delete_where (\<lambda>r. dc_device_id r = d) (tb_certs db)\<rparr>"

inductive tls_step :: "x509_tools \<Rightarrow> tls_world \<Rightarrow> tls_world \<Rightarrow> bool" for t where
  Handshake: "tls_step t w (w\<lparr>tw_tasks := tw_tasks w @ snd (getTLSConfig t mode (tw_m w) d certs)\<rparr>)"
| HandshakeByIP: "tls_step t w (w\<lparr>tw_tasks := tw_tasks w @ snd (getTLSConfigByIP t mode (tw_m w) ip certs)\<rparr>)"
| Task: "k \<in> set (tw_tasks w) \<Longrightarrow> tls_step t w ((put (run_task t db_ok now k (get w)) w)\<lparr>tw_tasks := remove1 k (tw_tasks w)\<rparr>)"
| Mode: "tls_step t w (put (fst (SetMode db_ok mode (get w))) w)"
| Pin: "tls_step t w (put (fst (PinCertFromDevice t db_ok now dialled d ip user verify (get w))) w)"
| Verify: "tls_step t w (put (fst (VerifyCert db_ok now d user (get w))) w)"
| Unpin: "(\<And>xs. mset (ord xs) = mset xs) \<Longrightarrow> tls_step t w (put (fst (UnpinCert db_ok ord d (get w))) w)"
| UnpinSite: "tls_step t w (put (fst (UnpinGroup query_ok delete_ok site (get w))) w)"
| VerifyAll: "(\<And>db. cert_answer db (reload db)) \<Longrightarrow>
    tls_step t w (put (fst (BulkVerifyCerts db_ok now user reload (get w))) w)"
| Refresh: "cert_answer (tw_db w) answer \<Longrightarrow> tls_step t w (w\<lparr>tw_m := Reload setting answer (tw_m w)\<rparr>)"
| AddDevice: "td_id dev = tb_next (tw_db w) \<Longrightarrow>
    tls_step t w (w\<lparr>tw_db := (tw_db w)\<lparr>tb_devices := tb_devices (tw_db w) @ [dev], tb_next := td_id dev + 1\<rparr>\<rparr>)"
| ChangeDevice: "(\<And>x. td_id (f x) = td_id x) \<Longrightarrow> tls_step t w (w\<lparr>tw_db := (tw_db w)\<lparr>tb_devices := map f (tb_devices (tw_db w))\<rparr>\<rparr>)"
| RemoveDevice: "tls_step t w (w\<lparr>tw_db := remove_device d (tw_db w)\<rparr>)"

text \<open>The program starts with the caches loaded from tables that are in order.\<close>

definition db_ok_at_start :: "tls_db \<Rightarrow> bool" where
  "db_ok_at_start db \<longleftrightarrow> distinct (map dc_device_id (tb_certs db)) \<and> distinct (map td_id (tb_devices db))
     \<and> list_all (\<lambda>r. device_exists db (dc_device_id r) \<and> (dc_changed_at r \<noteq> None \<longrightarrow> \<not> dc_verified r)) (tb_certs db)
     \<and> list_all (\<lambda>d. td_id d < tb_next db) (tb_devices db)"

inductive tls_reach :: "x509_tools \<Rightarrow> tls_world \<Rightarrow> bool" for t where
  Start: "db_ok_at_start db \<Longrightarrow> cert_answer db answer \<Longrightarrow>
    tls_reach t \<lparr>tw_db = db, tw_m = NewManager setting answer, tw_tasks = []\<rparr>"
| Step: "tls_reach t w \<Longrightarrow> tls_step t w w' \<Longrightarrow> tls_reach t w'"

end
