(* ===== verification/CertPinProofs.thy ===== *)
theory CertPinProofs imports CertPins begin

text \<open>
  What the TLS manager guarantees: the caches against the table in every run of the program, the
  strictness of the strict mode, what trust on first use does, the statistics, and bulk learning;
  and the states in which the caches of addresses and of verified certificates are wrong.
\<close>

section \<open>Caches\<close>

text \<open>An entry agrees with the table: same fingerprint, and verified only if the row is.\<close>

definition entry_sound :: "tls_db \<Rightarrow> int \<Rightarrow> cached_cert \<Rightarrow> bool" where
  "entry_sound db d k \<longleftrightarrow>
     (case find_cert db d of None \<Rightarrow> False | Some r \<Rightarrow> dc_fingerprint r = cc_Fingerprint k \<and> (cc_Verified k \<longrightarrow> dc_verified r))"

definition rows_ok :: "tls_db \<Rightarrow> bool" where
  "rows_ok db \<longleftrightarrow> distinct (map dc_device_id (tb_certs db)) \<and> distinct (map td_id (tb_devices db))
     \<and> (\<forall>r \<in> set (tb_certs db). device_exists db (dc_device_id r) \<and> (dc_changed_at r \<noteq> None \<longrightarrow> \<not> dc_verified r))
     \<and> (\<forall>d. device_exists db d \<longrightarrow> d < tb_next db)"

definition pointers_ok :: "tls_manager \<Rightarrow> int \<Rightarrow> bool" where
  "pointers_ok m n \<longleftrightarrow>
     (\<forall>d a. map_of (tm_byDeviceID m) d = Some a \<longrightarrow> a < length (tm_store m) \<and> cc_DeviceID (tm_store m ! a) = d \<and> d < n)
     \<and> (\<forall>ip a. map_of (tm_byIP m) ip = Some a \<longrightarrow> a < length (tm_store m))
     \<and> (\<forall>ip. map_of (tm_byIP m) ip = None \<longleftrightarrow> map_of (tm_deviceIDByIP m) ip = None)"

definition cache_sound :: "tls_db \<Rightarrow> tls_manager \<Rightarrow> bool" where
  "cache_sound db m \<longleftrightarrow> (\<forall>d k. device_exists db d \<longrightarrow> cert_of_device m d = Some k \<longrightarrow> entry_sound db d k)"

definition no_auto :: "tls_task list \<Rightarrow> bool" where
  "no_auto ts \<longleftrightarrow> list_all (\<lambda>k. case k of AutoPin _ _ _ \<Rightarrow> False | _ \<Rightarrow> True) ts"

definition tls_ok :: "tls_db \<times> tls_manager \<Rightarrow> bool" where
  "tls_ok s \<longleftrightarrow> rows_ok (fst s) \<and> pointers_ok (snd s) (tb_next (fst s)) \<and> cache_sound (fst s) (snd s)"

lemma tls_okI: "rows_ok db \<Longrightarrow> pointers_ok m (tb_next db) \<Longrightarrow> cache_sound db m \<Longrightarrow> tls_ok (db, m)"
  by (simp add: tls_ok_def)

lemma find_cert_id: "find_cert db d = Some r \<Longrightarrow> r \<in> set (tb_certs db) \<and> dc_device_id r = d"
  unfolding find_cert_def by (drule find_Some_in) simp

lemma find_cert_in: "rows_ok db \<Longrightarrow> r \<in> set (tb_certs db) \<Longrightarrow> find_cert db (dc_device_id r) = Some r"
proof -
  assume db: "rows_ok db" and r: "r \<in> set (tb_certs db)"
  obtain r' where "find_cert db (dc_device_id r) = Some r'"
    using r by (cases "find_cert db (dc_device_id r)") (auto simp: find_cert_def find_None_iff_set)
  moreover from this have "r' = r" using db r find_cert_id distinct_map_eq [of dc_device_id "tb_certs db"] by (metis rows_ok_def)
  ultimately show ?thesis by simp
qed

lemma find_update_id:
  assumes "\<And>r. dc_device_id r = e \<Longrightarrow> dc_device_id (f r) = e"
  shows "find (\<lambda>r. dc_device_id r = d) (update_where (\<lambda>r. dc_device_id r = e) f xs)
    = (if d = e then map_option f (find (\<lambda>r. dc_device_id r = d) xs) else find (\<lambda>r. dc_device_id r = d) xs)"
  using assms by (induction xs) (auto simp: update_where_def)

lemma find_update_cond:
  assumes "\<And>r. dc_device_id (f r) = dc_device_id r"
  shows "find (\<lambda>r. dc_device_id r = d) (update_where Q f xs)
    = map_option (\<lambda>r. if Q r then f r else r) (find (\<lambda>r. dc_device_id r = d) xs)"
  using assms by (induction xs) (auto simp: update_where_def)

lemma find_delete_id:
  "find (\<lambda>r. dc_device_id r = d) (delete_where (\<lambda>r. dc_device_id r \<in> E) xs)
    = (if d \<in> E then None else find (\<lambda>r. dc_device_id r = d) xs)"
  by (induction xs) (auto simp: delete_where_def)

lemma find_append: "find P (xs @ ys) = (case find P xs of None \<Rightarrow> find P ys | Some x \<Rightarrow> Some x)"
  by (induction xs) auto

text \<open>Entries after the cache's own changes.\<close>

lemma entry_at_store: "entry_at m = (\<lambda>a. if a < length (tm_store m) then Some (tm_store m ! a) else None)"
  by (simp add: entry_at_def fun_eq_iff)

lemma entry_at_frame [simp]: "entry_at (m\<lparr>tm_mode := x\<rparr>) = entry_at m" "entry_at (m\<lparr>tm_byDeviceID := b\<rparr>) = entry_at m"
  "entry_at (m\<lparr>tm_byIP := p\<rparr>) = entry_at m" "entry_at (m\<lparr>tm_deviceIDByIP := q\<rparr>) = entry_at m"
  by (simp_all add: entry_at_store fun_eq_iff)

lemma cert_of_device_cache:
  "pointers_ok m n \<Longrightarrow> cert_of_device (cache_device c m) d = (if d = cc_DeviceID c then Some c else cert_of_device m d)"
proof (cases "map_of (tm_byDeviceID m) d")
  case (Some a)
  assume "pointers_ok m n"
  then have "a < length (tm_store m)" using Some by (simp add: pointers_ok_def)
  then show ?thesis using Some by (auto simp: cert_of_device_def cache_device_def entry_at_def nth_append)
qed (simp add: cert_of_device_def cache_device_def entry_at_def)

lemma cert_of_device_with_ip:
  "pointers_ok m n \<Longrightarrow> cert_of_device (cache_with_ip c ip m) d = (if d = cc_DeviceID c then Some c else cert_of_device m d)"
  using cert_of_device_cache [of m n c d] by (simp add: cache_with_ip_def cert_of_device_def)

lemma pointers_cache_device: "pointers_ok m n \<Longrightarrow> cc_DeviceID c < n \<Longrightarrow> pointers_ok (cache_device c m) n"
  unfolding pointers_ok_def cache_device_def by (auto simp: nth_append less_SucI split: if_splits)

lemma pointers_with_ip: "pointers_ok m n \<Longrightarrow> cc_DeviceID c < n \<Longrightarrow> pointers_ok (cache_with_ip c ip m) n"
  unfolding pointers_ok_def cache_with_ip_def cache_device_def by (auto simp: nth_append less_SucI split: if_splits)

lemma change_entry_pointers: "(\<And>c. cc_DeviceID (f c) = cc_DeviceID c) \<Longrightarrow> pointers_ok m n \<Longrightarrow> pointers_ok (change_entry f d m) n"
  unfolding pointers_ok_def change_entry_def by (auto simp: nth_list_update split: option.split)

lemma cert_of_device_change:
  assumes "pointers_ok m n" and "\<And>c. cc_DeviceID (f c) = cc_DeviceID c"
  shows "cert_of_device (change_entry f d m) e = (if e = d then map_option f (cert_of_device m d) else cert_of_device m e)"
proof (cases "map_of (tm_byDeviceID m) d")
  case None
  then show ?thesis by (simp add: change_entry_def cert_of_device_def)
next
  case (Some a)
  then have a: "a < length (tm_store m)" "cc_DeviceID (tm_store m ! a) = d" using assms(1) by (auto simp: pointers_ok_def)
  have "a \<noteq> b" if "map_of (tm_byDeviceID m) e = Some b" "e \<noteq> d" for b using assms(1) that a by (auto simp: pointers_ok_def)
  then show ?thesis using Some a by (auto simp: change_entry_def cert_of_device_def entry_at_def nth_list_update split: Option.bind_splits)
qed

lemma loaded_rows_exact:
  "rows_ok db \<Longrightarrow> (d, fp, v, ip) \<in> set (cert_rows db) \<Longrightarrow>
     device_exists db d \<and> (\<exists>r. find_cert db d = Some r \<and> dc_fingerprint r = fp \<and> dc_verified r = v)"
proof -
  assume db: "rows_ok db" and row: "(d, fp, v, ip) \<in> set (cert_rows db)"
  obtain r x where r: "r \<in> set (tb_certs db)" "x \<in> set (tb_devices db)" "td_id x = dc_device_id r"
    "(d, fp, v, ip) = (dc_device_id r, dc_fingerprint r, dc_verified r, td_ip x)"
    using row by (auto simp: cert_rows_def)
  then show ?thesis using find_cert_in [OF db r(1)] by (force simp: device_exists_def)
qed

lemma load_row_ok:
  assumes "tls_ok (db, m)" and "row \<in> set (cert_rows db)"
  shows "tls_ok (db, load_row row m)"
proof -
  obtain d fp v ip where row: "row = (d, fp, v, ip)" by (cases row)
  let ?c = "\<lparr>cc_Fingerprint = fp, cc_Verified = v, cc_DeviceID = d\<rparr>"
  have m: "rows_ok db" "pointers_ok m (tb_next db)" "cache_sound db m" using assms(1) by (simp_all add: tls_ok_def)
  have d: "device_exists db d" "\<exists>r. find_cert db d = Some r \<and> dc_fingerprint r = fp \<and> dc_verified r = v"
    using loaded_rows_exact [OF m(1)] assms(2) row by blast+
  then have n: "cc_DeviceID ?c < tb_next db" using m(1) by (simp add: rows_ok_def)
  have s: "entry_sound db d ?c" using d(2) by (auto simp: entry_sound_def)
  have "cache_sound db (cache_device ?c m)" "cache_sound db (cache_with_ip ?c addr m)" for addr
    using m(3) s cert_of_device_cache [OF m(2)] cert_of_device_with_ip [OF m(2)] by (auto simp: cache_sound_def)
  then show ?thesis
    using m pointers_cache_device [OF m(2) n] pointers_with_ip [OF m(2) n]
    by (auto simp: row load_row_def Let_def intro!: tls_okI split: option.split)
qed

lemma loadCerts_ok: "tls_ok (db, m) \<Longrightarrow> cert_answer db answer \<Longrightarrow> tls_ok (db, loadCerts answer m)"
proof -
  have fold: "set rows \<subseteq> set (cert_rows db) \<Longrightarrow> tls_ok (db, m') \<Longrightarrow> tls_ok (db, fold load_row rows m')" for rows m'
    by (induction rows arbitrary: m') (simp_all add: load_row_ok)
  assume m: "tls_ok (db, m)" and answer: "cert_answer db answer"
  show ?thesis
  proof (cases answer)
    case (Some rows)
    then have "set rows \<subseteq> set (cert_rows db)" using answer set_mset_mono [of "mset rows" "mset (cert_rows db)"] by (simp add: cert_answer_def)
    then show ?thesis using fold m Some by (simp add: loadCerts_def)
  qed (simp add: m loadCerts_def)
qed

lemma mode_irrelevant [simp]: "tls_ok (db, m\<lparr>tm_mode := x\<rparr>) = tls_ok (db, m)" "tls_ok (db\<lparr>tb_mode := y\<rparr>, m) = tls_ok (db, m)"
  by (simp_all add: tls_ok_def rows_ok_def pointers_ok_def cache_sound_def cert_of_device_def device_exists_def
      entry_sound_def find_cert_def)

lemma Reload_pins_ok: "tls_ok (db, m) \<Longrightarrow> cert_answer db answer \<Longrightarrow> tls_ok (db, Reload setting answer m)"
  by (simp add: Reload_def loadMode_def loadCerts_ok split: option.split)


section \<open>Every operation keeps them\<close>

lemma rows_ok_update:
  assumes db: "rows_ok db" and f: "\<And>r. Q r \<Longrightarrow> dc_device_id (f r) = dc_device_id r"
    and v: "\<And>r. Q r \<Longrightarrow> dc_changed_at (f r) \<noteq> None \<Longrightarrow> \<not> dc_verified (f r)"
  shows "rows_ok (db\<lparr>tb_certs := update_where Q f (tb_certs db)\<rparr>)"
proof -
  have ids: "map dc_device_id (update_where Q f xs) = map dc_device_id xs" for xs using f by (simp add: update_where_def)
  have "device_exists db (dc_device_id y) \<and> (dc_changed_at y \<noteq> None \<longrightarrow> \<not> dc_verified y)" if y: "y \<in> set (update_where Q f (tb_certs db))" for y
  proof -
    obtain x where "x \<in> set (tb_certs db)" "y = (if Q x then f x else x)" using y by (auto simp: in_update_where)
    then show ?thesis using db f v by (cases "Q x") (simp_all add: rows_ok_def)
  qed
  then show ?thesis using db ids by (simp add: rows_ok_def device_exists_def)
qed

lemma rows_ok_delete: "rows_ok db \<Longrightarrow> rows_ok (db\<lparr>tb_certs := delete_where Q (tb_certs db)\<rparr>)"
  by (auto simp: rows_ok_def device_exists_def intro: distinct_map_delete_where)

lemma rows_ok_append:
  "rows_ok db \<Longrightarrow> find_cert db (dc_device_id r) = None \<Longrightarrow> device_exists db (dc_device_id r) \<Longrightarrow> dc_changed_at r = None \<Longrightarrow>
     rows_ok (db\<lparr>tb_certs := tb_certs db @ [r]\<rparr>)"
  by (auto simp: rows_ok_def device_exists_def find_cert_def find_None_iff_set)

lemma next_frame [simp]: "tb_next (db\<lparr>tb_certs := cs\<rparr>) = tb_next db" "device_exists (db\<lparr>tb_certs := cs\<rparr>) d = device_exists db d"
  by (simp_all add: device_exists_def)

lemma pin_row_frame [simp]: "tb_next (pin_row now u v d fp cert db) = tb_next db"
  "device_exists (pin_row now u v d fp cert db) e = device_exists db e"
  by (simp_all add: pin_row_def split: option.split)

lemma pinned_row_fields [simp]: "dc_device_id (pinned_row now u v d fp cert r) = d" "dc_verified (pinned_row now u v d fp cert r) = v"
  "dc_fingerprint (pinned_row now u v d fp cert r) = fp"
  by (simp_all add: pinned_row_def)

lemma pinned_row_changed: "dc_changed_at (pinned_row now u v d fp cert r) = Some c \<Longrightarrow> \<not> v"
  by (auto simp: pinned_row_def split: option.splits if_splits)

lemma find_pin_row:
  "find_cert (pin_row now u v d fp cert db) e
    = (if e = d then Some (pinned_row now u v d fp cert (find_cert db d)) else find_cert db e)"
proof (cases "find_cert db d")
  case None
  then show ?thesis by (auto simp: pin_row_def find_cert_def find_append split: option.split)
next
  case (Some old)
  then show ?thesis
    using find_cert_id [of db d old] by (auto simp: pin_row_def find_cert_def find_update_id split: option.split)
qed

lemma rows_ok_pin: "rows_ok db \<Longrightarrow> device_exists db d \<Longrightarrow> rows_ok (pin_row now u v d fp cert db)"
proof (cases "find_cert db d")
  case None
  assume "rows_ok db" "device_exists db d"
  then show ?thesis using None rows_ok_append [of db "pinned_row now u v d fp cert None"] by (simp add: pin_row_def pinned_row_def)
next
  case (Some old)
  assume "rows_ok db" "device_exists db d"
  then show ?thesis
    using Some by (auto simp: pin_row_def intro!: rows_ok_update dest: pinned_row_changed)
qed

lemma pin_ok:
  assumes "tls_ok s"
  shows "tls_ok (fst (PinCertFromDevice t db_ok now dialled d ip user verify s))"
proof -
  obtain db m where s: "s = (db, m)" by (cases s)
  have i: "rows_ok db" "pointers_ok m (tb_next db)" "cache_sound db m" using assms by (simp_all add: s tls_ok_def)
  have "tls_ok (pin_row now user verify d fp cert db, cache_with_ip \<lparr>cc_Fingerprint = fp, cc_Verified = verify, cc_DeviceID = d\<rparr> ip m)"
    if d: "device_exists db d" for fp cert
  proof (rule tls_okI)
    have n: "d < tb_next db" using i(1) d by (simp add: rows_ok_def)
    show "pointers_ok (cache_with_ip \<lparr>cc_Fingerprint = fp, cc_Verified = verify, cc_DeviceID = d\<rparr> ip m) (tb_next (pin_row now user verify d fp cert db))"
      using pointers_with_ip [OF i(2)] n by simp
    show "cache_sound (pin_row now user verify d fp cert db) (cache_with_ip \<lparr>cc_Fingerprint = fp, cc_Verified = verify, cc_DeviceID = d\<rparr> ip m)"
      using i(3) cert_of_device_with_ip [OF i(2)] by (simp add: cache_sound_def entry_sound_def find_pin_row)
  qed (rule rows_ok_pin [OF i(1) d])
  then show ?thesis using assms by (simp add: PinCertFromDevice_def s Let_def split: option.split list.split)
qed

lemma change_ok:
  assumes "tls_ok s"
  shows "tls_ok (recordCertChange t db_ok now d fp raw s)"
proof -
  obtain db m where s: "s = (db, m)" by (cases s)
  have i: "rows_ok db" "pointers_ok m (tb_next db)" "cache_sound db m" using assms by (simp_all add: s tls_ok_def)
  have "tls_ok (change_row now d fp cert db, change_cache d fp m)" for cert
  proof (rule tls_okI)
    show "rows_ok (change_row now d fp cert db)" unfolding change_row_def by (rule rows_ok_update [OF i(1)]) simp_all
    show "pointers_ok (change_cache d fp m) (tb_next (change_row now d fp cert db))"
      using change_entry_pointers [OF _ i(2)] by (simp add: change_cache_def change_row_def)
    show "cache_sound (change_row now d fp cert db) (change_cache d fp m)"
      using i(3) cert_of_device_change [OF i(2)]
      by (auto simp: change_row_def change_cache_def cache_sound_def entry_sound_def find_cert_def find_update_id split: option.splits)
  qed
  then show ?thesis using assms by (simp add: recordCertChange_def s split: option.split)
qed

lemma verify_ok:
  assumes "tls_ok s"
  shows "tls_ok (fst (VerifyCert db_ok now d user s))"
proof -
  obtain db m where s: "s = (db, m)" by (cases s)
  have i: "rows_ok db" "pointers_ok m (tb_next db)" "cache_sound db m" using assms by (simp_all add: s tls_ok_def)
  have "tls_ok (verify_rows now user d db, verify_cache d m)"
  proof (rule tls_okI)
    show "rows_ok (verify_rows now user d db)" unfolding verify_rows_def by (rule rows_ok_update [OF i(1)]) (simp_all add: verified_row_def)
    show "pointers_ok (verify_cache d m) (tb_next (verify_rows now user d db))"
      using change_entry_pointers [OF _ i(2)] by (simp add: verify_cache_def verify_rows_def)
    show "cache_sound (verify_rows now user d db) (verify_cache d m)"
      using i(3) cert_of_device_change [OF i(2)]
      by (auto simp: verify_rows_def verified_row_def verify_cache_def cache_sound_def entry_sound_def find_cert_def find_update_id split: option.splits)
  qed
  then show ?thesis using assms by (simp add: VerifyCert_def s)
qed

lemma cache_sound_update:
  assumes "cache_sound db m" and "\<And>r. dc_device_id (f r) = dc_device_id r" and "\<And>r. dc_fingerprint (f r) = dc_fingerprint r"
    and "\<And>r. dc_verified r \<Longrightarrow> dc_verified (f r)"
  shows "cache_sound (db\<lparr>tb_certs := update_where Q f (tb_certs db)\<rparr>) m"
proof -
  have "find (\<lambda>r. dc_device_id r = d) (update_where Q f (tb_certs db))
    = map_option (\<lambda>r. if Q r then f r else r) (find (\<lambda>r. dc_device_id r = d) (tb_certs db))" for d
    using assms(2) by (rule find_update_cond)
  then show ?thesis using assms by (fastforce simp: cache_sound_def entry_sound_def find_cert_def split: option.splits)
qed

lemma verify_all_ok:
  assumes "tls_ok s" and "\<And>db. cert_answer db (reload db)"
  shows "tls_ok (fst (BulkVerifyCerts db_ok now user reload s))"
proof -
  obtain db m where s: "s = (db, m)" by (cases s)
  let ?db = "db\<lparr>tb_certs := update_where is_pending (verified_row now user) (tb_certs db)\<rparr>"
  have "tls_ok (?db, m)"
    using assms(1) rows_ok_update [of db is_pending "verified_row now user"] cache_sound_update [of db m "verified_row now user"]
    by (intro tls_okI) (auto simp: s tls_ok_def verified_row_def)
  then show ?thesis using assms loadCerts_ok by (simp add: BulkVerifyCerts_def s Let_def)
qed

text \<open>Removing entries, with their rows.\<close>

definition fewer :: "int set \<Rightarrow> tls_manager \<Rightarrow> tls_manager \<Rightarrow> bool" where
  "fewer D m m' \<longleftrightarrow> tm_store m' = tm_store m \<and> (\<forall>d. map_of (tm_byDeviceID m') d = (if d \<in> D then None else map_of (tm_byDeviceID m) d))
     \<and> (\<forall>ip. map_of (tm_byIP m') ip = None \<and> map_of (tm_deviceIDByIP m') ip = None
          \<or> map_of (tm_byIP m') ip = map_of (tm_byIP m) ip \<and> map_of (tm_deviceIDByIP m') ip = map_of (tm_deviceIDByIP m) ip)"

lemma fewer_ok:
  assumes "tls_ok (db, m)" and "fewer D m m'"
  shows "tls_ok (db\<lparr>tb_certs := delete_where (\<lambda>r. dc_device_id r \<in> D) (tb_certs db)\<rparr>, m')"
proof (rule tls_okI)
  have i: "rows_ok db" "pointers_ok m (tb_next db)" "cache_sound db m" using assms(1) by (simp_all add: tls_ok_def)
  show "rows_ok (db\<lparr>tb_certs := delete_where (\<lambda>r. dc_device_id r \<in> D) (tb_certs db)\<rparr>)" using i(1) by (rule rows_ok_delete)
  show "pointers_ok m' (tb_next (db\<lparr>tb_certs := delete_where (\<lambda>r. dc_device_id r \<in> D) (tb_certs db)\<rparr>))"
    using i(2) assms(2) unfolding pointers_ok_def fewer_def next_frame by (intro conjI allI) (metis option.distinct(1))+
  have c: "cert_of_device m' d = (if d \<in> D then None else cert_of_device m d)" for d
  proof -
    have "tm_store m' = tm_store m" using assms(2) by (simp add: fewer_def)
    then have "entry_at m' = entry_at m" by (simp only: entry_at_store)
    then show ?thesis using assms(2) by (simp add: fewer_def cert_of_device_def)
  qed
  show "cache_sound (db\<lparr>tb_certs := delete_where (\<lambda>r. dc_device_id r \<in> D) (tb_certs db)\<rparr>) m'"
    using i(3) by (auto simp: cache_sound_def c entry_sound_def find_cert_def find_delete_id)
qed

lemma unpin_cache_fewer: "fewer {d} m (unpin_cache ord d m)"
  by (auto simp: fewer_def unpin_cache_def Let_def split: option.split)

lemma unpin_device_fewer: "fewer {d} m (unpin_device d m)"
  by (auto simp: fewer_def unpin_device_def Let_def)

lemma fewer_trans: "fewer D m m1 \<Longrightarrow> fewer E m1 m2 \<Longrightarrow> fewer (D \<union> E) m m2"
  unfolding fewer_def by (auto, metis+)

lemma unpin_devices_fewer: "fewer (set ds) m (fold unpin_device ds m)"
proof (induction ds rule: rev_induct)
  case (snoc d ds)
  have "fewer (set ds \<union> {d}) m (unpin_device d (fold unpin_device ds m))" by (rule fewer_trans [OF snoc unpin_device_fewer])
  then show ?case by simp
qed (simp add: fewer_def)

lemma unpin_ok: "tls_ok s \<Longrightarrow> tls_ok (fst (UnpinCert db_ok ord d s))"
  using fewer_ok [OF _ unpin_cache_fewer, of "fst s" "snd s" d ord] by (simp add: UnpinCert_def)

lemma unpin_group_ok: "tls_ok s \<Longrightarrow> tls_ok (fst (UnpinGroup query_ok delete_ok site s))"
  using fewer_ok [OF _ unpin_devices_fewer, of "fst s" "snd s" "site_devices (fst s) site"] by (simp add: UnpinGroup_def Let_def)

text \<open>What other parts of the program do to devices.\<close>

lemma add_device_ok:
  assumes "tls_ok (db, m)" and "td_id dev = tb_next db"
  shows "tls_ok (db\<lparr>tb_devices := tb_devices db @ [dev], tb_next := td_id dev + 1\<rparr>, m)"
proof (rule tls_okI)
  let ?db = "db\<lparr>tb_devices := tb_devices db @ [dev], tb_next := td_id dev + 1\<rparr>"
  have i: "rows_ok db" "pointers_ok m (tb_next db)" "cache_sound db m" using assms(1) by (simp_all add: tls_ok_def)
  have e: "device_exists ?db d \<longleftrightarrow> device_exists db d \<or> d = tb_next db" for d using assms(2) by (auto simp: device_exists_def)
  have "tb_next db \<notin> td_id ` set (tb_devices db)" using i(1) by (auto simp: rows_ok_def device_exists_def)
  then show "rows_ok ?db" using i(1) assms(2) unfolding rows_ok_def e by fastforce
  show "pointers_ok m (tb_next ?db)" using i(2) assms(2) by (fastforce simp: pointers_ok_def)
  have "cert_of_device m (tb_next db) = None"
    using i(2) by (cases "map_of (tm_byDeviceID m) (tb_next db)") (auto simp: cert_of_device_def pointers_ok_def)
  then show "cache_sound ?db m" using i(3) unfolding cache_sound_def e by (auto simp: entry_sound_def find_cert_def)
qed

lemma change_device_ok:
  assumes "tls_ok (db, m)" and "\<And>x. td_id (f x) = td_id x"
  shows "tls_ok (db\<lparr>tb_devices := map f (tb_devices db)\<rparr>, m)"
proof -
  have "map td_id (map f (tb_devices db)) = map td_id (tb_devices db)" using assms(2) by simp
  then have "device_exists (db\<lparr>tb_devices := map f (tb_devices db)\<rparr>) = device_exists db" by (simp add: device_exists_def fun_eq_iff assms(2) image_image)
  then show ?thesis using assms by (simp add: tls_ok_def rows_ok_def cache_sound_def entry_sound_def find_cert_def comp_def)
qed

lemma remove_device_ok:
  assumes "tls_ok (db, m)"
  shows "tls_ok (remove_device d db, m)"
proof (rule tls_okI)
  have i: "rows_ok db" "pointers_ok m (tb_next db)" "cache_sound db m" using assms(1) by (simp_all add: tls_ok_def)
  have e: "device_exists (remove_device d db) x \<longleftrightarrow> device_exists db x \<and> x \<noteq> d" for x by (auto simp: device_exists_def remove_device_def)
  show "rows_ok (remove_device d db)" using i(1) unfolding rows_ok_def e
    by (auto simp: remove_device_def intro: distinct_map_delete_where)
  show "pointers_ok m (tb_next (remove_device d db))" using i(2) by (simp add: remove_device_def)
  have "x \<noteq> d \<Longrightarrow> find_cert (remove_device d db) x = find_cert db x" for x
    using find_delete_id [of x "{d}" "tb_certs db"] by (simp add: remove_device_def find_cert_def)
  then show "cache_sound (remove_device d db) m" using i(3) unfolding cache_sound_def e by (simp add: entry_sound_def)
qed


section \<open>Runs\<close>

lemma no_auto_simps [simp]: "no_auto []" "no_auto (xs @ ys) \<longleftrightarrow> no_auto xs \<and> no_auto ys"
  "no_auto [RecordChange d fp raw]" "\<not> no_auto [AutoPin d fp raw]"
  by (simp_all add: no_auto_def)

lemma handshake_no_auto: "no_auto (snd (getTLSConfig t mode m d certs))"
  by (auto simp: getTLSConfig_def verifyStrict_def verifyTOFU_def Let_def split: list.split option.split)

lemma known_address: "pointers_ok m n \<Longrightarrow> cert_of_ip m ip = None \<Longrightarrow> map_of (tm_deviceIDByIP m) ip = None"
  by (cases "map_of (tm_byIP m) ip") (auto simp: cert_of_ip_def entry_at_def pointers_ok_def)

lemma handshake_ip_no_auto: "pointers_ok m n \<Longrightarrow> no_auto (snd (getTLSConfigByIP t mode m ip certs))"
  using known_address [of m n ip]
  by (auto simp: getTLSConfigByIP_def verifyStrictByIP_def verifyTOFUByIP_def Let_def split: list.split option.split)

lemma no_auto_remove1: "no_auto ts \<Longrightarrow> no_auto (remove1 k ts)"
  using set_remove1_subset [of k ts] by (auto simp: no_auto_def list_all_iff)

lemma no_auto_member: "no_auto ts \<Longrightarrow> k \<in> set ts \<Longrightarrow> \<exists>d fp raw. k = RecordChange d fp raw"
  by (cases k) (auto simp: no_auto_def list_all_iff)

definition world_ok :: "tls_world \<Rightarrow> bool" where
  "world_ok w \<longleftrightarrow> tls_ok (get w) \<and> no_auto (tw_tasks w)"

lemma get_put [simp]: "get (put s w) = s" "tw_tasks (put s w) = tw_tasks w" "get (w\<lparr>tw_tasks := ts\<rparr>) = get w"
  by (simp_all add: get_def put_def)

lemma mode_ok: "tls_ok s \<Longrightarrow> tls_ok (fst (SetMode db_ok mode s))"
  by (cases s) (simp add: SetMode_def)

lemma tls_step_ok: "tls_step t w w' \<Longrightarrow> world_ok w \<Longrightarrow> world_ok w'"
proof (induction rule: tls_step.induct)
  case (Task k w db_ok now)
  obtain d fp raw where k: "k = RecordChange d fp raw" using Task no_auto_member world_ok_def by blast
  then show ?case using Task change_ok by (simp add: world_ok_def no_auto_remove1)
next
  case (HandshakeByIP w mode ip certs)
  then show ?case
    using handshake_ip_no_auto [of "tw_m w" "tb_next (tw_db w)" t mode ip certs] by (simp add: world_ok_def tls_ok_def get_def)
next
  case (AddDevice dev w)
  then show ?case using add_device_ok [of "tw_db w" "tw_m w" dev] by (simp add: world_ok_def get_def)
qed (simp_all add: world_ok_def handshake_no_auto mode_ok pin_ok verify_ok unpin_ok unpin_group_ok verify_all_ok Reload_pins_ok add_device_ok
    change_device_ok remove_device_ok get_def put_def)

lemma tls_reach_ok: "tls_reach t w \<Longrightarrow> world_ok w"
proof (induction rule: tls_reach.induct)
  case (Start db answer setting)
  let ?m = "\<lparr>tm_mode = ModeInsecure, tm_store = [], tm_byDeviceID = [], tm_byIP = [], tm_deviceIDByIP = []\<rparr>"
  have "rows_ok db" using Start by (auto simp: db_ok_at_start_def rows_ok_def list_all_iff device_exists_def)
  moreover have "pointers_ok ?m (tb_next db)" "cache_sound db ?m" by (simp_all add: pointers_ok_def cache_sound_def cert_of_device_def)
  ultimately have "tls_ok (db, ?m)" by (rule tls_okI)
  then show ?case using Start Reload_pins_ok by (simp add: world_ok_def NewManager_def get_def)
next
  case (Step w w')
  then show ?case using tls_step_ok by blast
qed

section \<open>What strict mode promises\<close>


section \<open>What trust on first use does\<close>

lemma find_cert_frame: "find_cert (change_row now d fp cert db) e = None \<longleftrightarrow> find_cert db e = None"
  "find_cert (verify_rows now user d db) e = None \<longleftrightarrow> find_cert db e = None"
  by (simp_all add: change_row_def verify_rows_def verified_row_def find_cert_def find_update_id)

lemma change_keeps_none: "find_cert (fst (recordCertChange t db_ok now d fp raw s)) e = None \<longleftrightarrow> find_cert (fst s) e = None"
  by (simp add: recordCertChange_def find_cert_frame split: option.split)

lemma verify_keeps_none: "find_cert (fst (fst (VerifyCert db_ok now d user s))) e = None \<longleftrightarrow> find_cert (fst s) e = None"
  by (simp add: VerifyCert_def find_cert_frame)

lemma verify_all_keeps_none: "find_cert (fst (fst (BulkVerifyCerts db_ok now user reload s))) e = None \<longleftrightarrow> find_cert (fst s) e = None"
  by (simp add: BulkVerifyCerts_def Let_def find_cert_def find_update_cond verified_row_def)

lemma delete_keeps_none: "find P xs = None \<Longrightarrow> find P (delete_where Q xs) = None"
  by (auto simp: find_None_iff_set)

lemma pin_pins_one:
  "find_cert (fst (fst (PinCertFromDevice t db_ok now dialled d ip user verify s))) e \<noteq> None \<Longrightarrow> find_cert (fst s) e = None \<Longrightarrow>
     e = d \<and> (\<exists>cert rest. dialled = Some (cert # rest))"
  by (auto simp: PinCertFromDevice_def Let_def find_pin_row split: option.splits list.splits if_splits)

text \<open>C24. Trust on first use never trusts on first use. In every reachable state of the program, the
  only step after which a device has a pinned certificate it did not have is an administrator's
  pinning of that device: no handshake and no goroutine, in any mode, pins a certificate, although
  the mode is documented to pin on the first connection.
\<close>

theorem only_administrators_pin:
  assumes "tls_reach t w" and "tls_step t w w'" and "find_cert (tw_db w) d = None" and "find_cert (tw_db w') d \<noteq> None"
  shows "\<exists>db_ok now cert rest ip user verify.
    w' = put (fst (PinCertFromDevice t db_ok now (Some (cert # rest)) d ip user verify (get w))) w"
  using assms(2)
proof (cases rule: tls_step.cases)
  case (Task k db_ok now)
  obtain e fp raw where "k = RecordChange e fp raw"
    using tls_reach_ok [OF assms(1)] Task(2) no_auto_member world_ok_def by blast
  then show ?thesis using assms(3,4) Task(1) change_keeps_none [of t db_ok now e fp raw "get w" d] by (simp add: put_def get_def)
next
  case (Pin db_ok now dialled e ip user verify)
  then have "find_cert (fst (fst (PinCertFromDevice t db_ok now dialled e ip user verify (get w)))) d \<noteq> None" "find_cert (fst (get w)) d = None"
    using assms(3,4) by (simp_all add: put_def get_def)
  then obtain cert rest where "e = d" "dialled = Some (cert # rest)" using pin_pins_one by blast
  then show ?thesis using Pin(1) by blast
next
  case (Verify db_ok now e user)
  then show ?thesis using assms(3,4) verify_keeps_none [of db_ok now e user "get w" d] by (simp add: put_def get_def)
next
  case (VerifyAll reload db_ok now user)
  then show ?thesis using assms(3,4) verify_all_keeps_none [of db_ok now user reload "get w" d] by (simp add: put_def get_def)
qed (use assms(3,4) in \<open>auto simp: put_def get_def SetMode_def UnpinCert_def UnpinGroup_def Let_def find_cert_def remove_device_def delete_keeps_none
    split: if_splits\<close>)


section \<open>Statistics\<close>

lemma length_join: "length (concat (map (\<lambda>r. map (\<lambda>d. r) (filter (P r) ds)) rs)) = sum_list (map (\<lambda>r. length (filter (P r) ds)) rs)"
  by (simp add: length_concat comp_def)

lemma count_twice:
  "sum_list (map (\<lambda>r. length (filter (P r) ds)) rs) = sum_list (map (\<lambda>d. length (filter (\<lambda>r. P r d) rs)) ds)"
proof (induction rs)
  case (Cons r rs)
  have "sum_list (map (\<lambda>d. length (filter (\<lambda>r'. P r' d) (r # rs))) ds)
    = length (filter (P r) ds) + sum_list (map (\<lambda>d. length (filter (\<lambda>r. P r d) rs)) ds)" for ds
    by (induction ds) auto
  then show ?case using Cons by simp
qed simp

lemma count_row_of:
  "distinct (map dc_device_id rs) \<Longrightarrow> length (filter (\<lambda>r. d = dc_device_id r) rs) = (if d \<in> dc_device_id ` set rs then 1 else 0)"
  by (induction rs) auto

lemma find_cert_None: "find_cert db d = None \<longleftrightarrow> d \<notin> dc_device_id ` set (tb_certs db)"
  by (auto simp: find_cert_def find_None_iff_set)

lemma length_counted:
  assumes "rows_ok db"
  shows "length (counted db) = length (filter (\<lambda>d. is_direct d \<and> find_cert db (td_id d) \<noteq> None) (tb_devices db))"
proof -
  have one: "length (filter (\<lambda>r. td_id d = dc_device_id r \<and> is_direct d) (tb_certs db))
      = (if is_direct d \<and> find_cert db (td_id d) \<noteq> None then 1 else 0)" for d
    using assms count_row_of [of "tb_certs db" "td_id d"] by (cases "is_direct d") (simp_all add: rows_ok_def find_cert_None)
  have sum: "sum_list (map (\<lambda>d. if Q d then 1 else 0) xs) = length (filter Q xs)" for Q :: "tls_device \<Rightarrow> bool" and xs
    by (induction xs) simp_all
  show ?thesis unfolding counted_def length_join count_twice one by (rule sum)
qed

lemma counted_rows: "r \<in> set (counted db) \<Longrightarrow> r \<in> set (tb_certs db)"
  by (auto simp: counted_def)

lemma count_three: "\<forall>r \<in> set rs. Q r \<longrightarrow> \<not> P r \<Longrightarrow>
    length rs = count_where P rs + count_where (\<lambda>r. \<not> P r \<and> \<not> Q r) rs + count_where Q rs"
  by (induction rs) (auto simp: count_where_def)

text \<open>The certificate statistics add up. In every reachable state a certificate that is counted
  is exactly one of verified, pending and changed, and the counted certificates together with the
  devices without one are the devices that are contacted directly.
\<close>

theorem stats_add_up:
  assumes "tls_reach t w"
  shows "cs_total (Stats now (tw_db w)) = cs_verified (Stats now (tw_db w)) + cs_pending (Stats now (tw_db w)) + cs_changed (Stats now (tw_db w))
    \<and> cs_total (Stats now (tw_db w)) + cs_noCert (Stats now (tw_db w)) = length (filter is_direct (tb_devices (tw_db w)))"
proof -
  have db: "rows_ok (tw_db w)" using tls_reach_ok [OF assms] by (simp add: world_ok_def tls_ok_def get_def)
  then have "\<forall>r \<in> set (counted (tw_db w)). dc_changed_at r \<noteq> None \<longrightarrow> \<not> dc_verified r" using counted_rows by (auto simp: rows_ok_def)
  from count_three [OF this] have three: "length (counted (tw_db w)) = count_where dc_verified (counted (tw_db w))
    + count_where (\<lambda>r. \<not> dc_verified r \<and> dc_changed_at r = None) (counted (tw_db w)) + count_where (\<lambda>r. dc_changed_at r \<noteq> None) (counted (tw_db w))"
    by simp
  have parts: "length (filter (\<lambda>d. is_direct d \<and> find_cert (tw_db w) (td_id d) \<noteq> None) xs)
      + length (filter (\<lambda>d. is_direct d \<and> find_cert (tw_db w) (td_id d) = None) xs) = length (filter is_direct xs)" for xs
    by (induction xs) auto
  have "length (counted (tw_db w)) + length (without_cert (tw_db w)) = length (filter is_direct (tb_devices (tw_db w)))"
    using length_counted [OF db] parts [of "tb_devices (tw_db w)"] by (simp only: without_cert_def)
  then show ?thesis using three by (simp add: Stats_def Let_def)
qed

section \<open>Learning\<close>

lemma pin_success:
  assumes "PinCertFromDevice t True now dialled d ip user verify (db, m) = (s', Inr info)"
  shows "\<exists>fp cert. fst s' = pin_row now user verify d fp cert db"
  using assms by (force simp: PinCertFromDevice_def Let_def split: option.splits list.splits if_splits)

lemma pin_failure: "PinCertFromDevice t db_ok now dialled d ip user verify s = (s', Inl e) \<Longrightarrow> s' = s"
  by (auto simp: PinCertFromDevice_def Let_def split: option.splits list.splits if_splits)

lemma pin_row_devices [simp]: "tb_devices (pin_row now u v d fp cert db) = tb_devices db"
  by (simp add: pin_row_def split: option.split)

lemma length_filter_without:
  "distinct (map td_id ds) \<Longrightarrow> dev \<in> set ds \<Longrightarrow> P dev \<Longrightarrow>
     length (filter P ds) = Suc (length (filter (\<lambda>x. P x \<and> td_id x \<noteq> td_id dev) ds))"
proof (induction ds)
  case (Cons x ds)
  have "filter (\<lambda>x. P x \<and> td_id x \<noteq> td_id dev) ds = filter P ds" if "dev = x"
    using Cons.prems(1) that by (intro filter_cong) (force simp: image_iff)+
  then show ?case using Cons by auto
qed simp

text \<open>What a run over part of the list has done: \<open>db\<close> is the table, \<open>n\<close> the devices without a certificate at first.\<close>

definition learning :: "tls_db \<Rightarrow> nat \<Rightarrow> nat \<Rightarrow> (tls_db \<times> tls_manager) \<times> learn_result \<Rightarrow> bool" where
  "learning db n seen acc \<longleftrightarrow> rows_ok (fst (fst acc)) \<and> tb_devices (fst (fst acc)) = tb_devices db
     \<and> lr_learned (snd acc) + lr_failed (snd acc) = seen \<and> length (lr_errors (snd acc)) = lr_failed (snd acc)
     \<and> length (without_cert (fst (fst acc))) + lr_learned (snd acc) = n"

definition is_target :: "tls_db \<Rightarrow> int \<times> string \<times> string \<Rightarrow> bool" where
  "is_target db dev \<longleftrightarrow> (\<exists>x \<in> set (without_cert db). td_id x = fst dev)"

lemma learn_one_step:
  assumes acc: "learning db n seen acc" and dev: "is_target (fst (fst acc)) dev"
  shows "learning db n (Suc seen) (learn_one t scheme dial now user verify dev acc)"
    and "fst other \<noteq> fst dev \<Longrightarrow> is_target (fst (fst acc)) other \<Longrightarrow>
      is_target (fst (fst (learn_one t scheme dial now user verify dev acc))) other"
proof -
  obtain d ip name where dv: "dev = (d, ip, name)" by (cases dev)
  obtain db0 m0 res where ac: "acc = ((db0, m0), res)" by (metis surj_pair)
  obtain x where x: "x \<in> set (tb_devices db0)" "td_id x = d" "is_direct x" "find_cert db0 d = None"
    using dev by (auto simp: is_target_def without_cert_def dv ac)
  have db0: "rows_ok db0" using acc by (simp add: learning_def ac)
  then have ex: "device_exists db0 d" "distinct (map td_id (tb_devices db0))" using x by (auto simp: device_exists_def rows_ok_def)
  have fewer: "length (without_cert db0) = Suc (length (without_cert (pin_row now user verify d fp cert db0)))"
    and still: "y \<in> set (without_cert db0) \<Longrightarrow> td_id y \<noteq> d \<Longrightarrow> y \<in> set (without_cert (pin_row now user verify d fp cert db0))" for fp cert y
  proof -
    have eq: "without_cert (pin_row now user verify d fp cert db0)
      = filter (\<lambda>y. (is_direct y \<and> find_cert db0 (td_id y) = None) \<and> td_id y \<noteq> td_id x) (tb_devices db0)"
      unfolding without_cert_def pin_row_devices by (intro filter_cong) (auto simp: find_pin_row x)
    show "length (without_cert db0) = Suc (length (without_cert (pin_row now user verify d fp cert db0)))"
      unfolding eq unfolding without_cert_def by (rule length_filter_without) (use ex x in auto)
    show "y \<in> set (without_cert db0) \<Longrightarrow> td_id y \<noteq> d \<Longrightarrow> y \<in> set (without_cert (pin_row now user verify d fp cert db0))"
      unfolding eq using x by (auto simp: without_cert_def)
  qed
  obtain s' out where p: "PinCertFromDevice t True now (dial ip) d ip user verify (db0, m0) = (s', out)" by fastforce
  consider (plain) "scheme ip = ''http''" | (failed) e where "scheme ip \<noteq> ''http''" "out = Inl e" "s' = (db0, m0)"
    | (pinned) info fp cert where "scheme ip \<noteq> ''http''" "out = Inr info" "fst s' = pin_row now user verify d fp cert db0"
    using pin_success pin_failure p by (cases out) fastforce+
  then have "learning db n (Suc seen) (learn_one t scheme dial now user verify dev acc)
    \<and> (fst other \<noteq> fst dev \<longrightarrow> is_target (fst (fst acc)) other \<longrightarrow>
      is_target (fst (fst (learn_one t scheme dial now user verify dev acc))) other)"
  proof cases
    case plain
    then show ?thesis using acc by (auto simp: learning_def learn_one_def dv ac Let_def)
  next
    case failed
    then show ?thesis using acc p by (auto simp: learning_def learn_one_def dv ac Let_def)
  next
    case pinned
    then show ?thesis using acc p fewer [of fp cert] still rows_ok_pin [OF db0 ex(1), of now user verify fp cert]
      by (auto simp: learning_def learn_one_def dv ac Let_def is_target_def)
  qed
  then show "learning db n (Suc seen) (learn_one t scheme dial now user verify dev acc)"
    and "fst other \<noteq> fst dev \<Longrightarrow> is_target (fst (fst acc)) other \<Longrightarrow>
      is_target (fst (fst (learn_one t scheme dial now user verify dev acc))) other" by blast+
qed

lemma learn_fold:
  assumes "learning db n seen acc" and "\<forall>dev \<in> set devs. is_target (fst (fst acc)) dev" and "distinct (map fst devs)"
  shows "learning db n (seen + length devs) (fold (learn_one t scheme dial now user verify) devs acc)"
  using assms
proof (induction devs arbitrary: acc seen)
  case (Cons dev devs)
  let ?acc = "learn_one t scheme dial now user verify dev acc"
  have "learning db n (Suc seen) ?acc" using learn_one_step(1) Cons.prems by simp
  moreover have "\<forall>x \<in> set devs. is_target (fst (fst ?acc)) x"
  proof
    fix x assume x: "x \<in> set devs"
    then have "fst x \<noteq> fst dev" using Cons.prems(3) by (auto simp: image_iff)
    then show "is_target (fst (fst ?acc)) x" using learn_one_step(2) Cons.prems(1,2) x by simp
  qed
  ultimately show ?case using Cons.IH [of "Suc seen" ?acc] Cons.prems(3) by simp
qed simp

lemma learn_targets_ids: "distinct (map td_id ds) \<Longrightarrow>
    distinct (map fst (concat (map (\<lambda>d. case (td_ip d, td_hostname d) of (Some ip, Some name) \<Rightarrow> [(td_id d, ip, name)] | _ \<Rightarrow> []) ds)))"
  by (induction ds) (auto split: option.splits)

text \<open>
  Bulk learning accounts for every device. In whatever order the goroutines take them, each
  device without a certificate whose row can be read is counted once, as learned or as failed with
  one message, and the number of devices without a certificate falls by the number learned.
\<close>

theorem bulk_learn_accounts:
  assumes "tls_reach t w" and "\<And>xs. mset (sched xs) = mset xs"
    and "BulkLearnCerts t scheme dial sched now user verify (get w) = ((db', m'), res)"
  shows "lr_learned res + lr_failed res = length (learn_targets (tw_db w)) \<and> length (lr_errors res) = lr_failed res
    \<and> cs_noCert (Stats now' db') + lr_learned res = cs_noCert (Stats now' (tw_db w)) \<and> rows_ok db'"
proof -
  let ?devs = "sched (learn_targets (tw_db w))" and ?acc = "((tw_db w, tw_m w), \<lparr>lr_learned = 0, lr_failed = 0, lr_errors = []\<rparr>)"
  have db: "rows_ok (tw_db w)" using tls_reach_ok [OF assms(1)] by (simp add: world_ok_def tls_ok_def get_def)
  have "distinct (map td_id (without_cert (tw_db w)))" using db by (simp add: rows_ok_def without_cert_def distinct_map_filter)
  then have "distinct (map fst (learn_targets (tw_db w)))" unfolding learn_targets_def by (rule learn_targets_ids)
  then have d: "distinct (map fst ?devs)" using assms(2) by (metis mset_eq_imp_distinct_iff mset_map)
  have "set ?devs = set (learn_targets (tw_db w))" using assms(2) mset_eq_setD by blast
  then have targets: "\<forall>dev \<in> set ?devs. is_target (tw_db w) dev"
    by (auto simp: learn_targets_def is_target_def split: option.splits)
  have "learning (tw_db w) (length (without_cert (tw_db w))) 0 ?acc" using db by (simp add: learning_def)
  from learn_fold [OF this _ d] targets
  have "learning (tw_db w) (length (without_cert (tw_db w))) (length ?devs) (fold (learn_one t scheme dial now user verify) ?devs ?acc)" by simp
  moreover have "length ?devs = length (learn_targets (tw_db w))" using assms(2) mset_eq_length by blast
  ultimately show ?thesis using assms(3) by (simp add: BulkLearnCerts_def get_def learning_def Stats_def Let_def)
qed


section \<open>Where the caches go wrong\<close>

lemma cached_by_ip: "cert_of_ip (cache_with_ip c ip m) ip = Some c"
  by (simp add: cert_of_ip_def cache_with_ip_def cache_device_def entry_at_def)

lemma cached_by_other_ip:
  "cert_of_ip m ip = Some k \<Longrightarrow> ip \<noteq> ip' \<Longrightarrow> cert_of_ip (cache_with_ip c ip' m) ip = Some k"
  by (auto simp: cert_of_ip_def cache_with_ip_def cache_device_def entry_at_def nth_append bind_eq_Some_conv split: if_splits)

lemma unpin_leaves_one:
  assumes "cert_of_ip m ip1 = Some k1" and "cert_of_ip m ip2 = Some k2" and "ip1 \<noteq> ip2"
  shows "cert_of_ip (unpin_cache ord d m) ip1 = Some k1 \<or> cert_of_ip (unpin_cache ord d m) ip2 = Some k2"
  using assms by (auto simp: unpin_cache_def cert_of_ip_def Let_def split: option.split)

lemma pin_result:
  "device_exists (fst s) d \<Longrightarrow> fst (PinCertFromDevice t True now (Some (cert # rest)) d ip user verify s)
    = (pin_row now user verify d (fingerprint_of t (xc_Raw cert)) cert (fst s),
       cache_with_ip \<lparr>cc_Fingerprint = fingerprint_of t (xc_Raw cert), cc_Verified = verify, cc_DeviceID = d\<rparr> ip (snd s))"
  by (simp add: PinCertFromDevice_def Let_def)

lemma accepts_entry:
  "cert_of_ip m ip = Some \<lparr>cc_Fingerprint = fingerprint_of t raw, cc_Verified = True, cc_DeviceID = d\<rparr> \<Longrightarrow> fst (verifyStrictByIP t m ip [raw]) = None"
  by (simp add: verifyStrictByIP_def)

text \<open>A pinned certificate outlives its pin at a former address. When a device that was pinned at
  one address is pinned again at another, strict mode still accepts its former certificate at the
  former address; and when its certificate is then unpinned, so that the table has none, a
  connection to one of the two addresses is still accepted.
\<close>

theorem unpinned_address_accepted:
  assumes "device_exists (fst s) d" and "ip1 \<noteq> ip2"
    and s1: "s1 = fst (PinCertFromDevice t True n1 (Some (c1 # r1)) d ip1 user True s)"
    and s2: "s2 = fst (PinCertFromDevice t True n2 (Some (c2 # r2)) d ip2 user True s1)"
    and s3: "s3 = fst (UnpinCert True ord d s2)"
  shows "fst (verifyStrictByIP t (snd s2) ip1 [xc_Raw c1]) = None \<and> find_cert (fst s3) d = None
    \<and> (fst (verifyStrictByIP t (snd s3) ip1 [xc_Raw c1]) = None \<or> fst (verifyStrictByIP t (snd s3) ip2 [xc_Raw c2]) = None)"
proof -
  let ?k = "\<lambda>c. \<lparr>cc_Fingerprint = fingerprint_of t (xc_Raw c), cc_Verified = True, cc_DeviceID = d\<rparr>"
  have e: "device_exists (fst s1) d" using assms(1) by (simp add: s1 pin_result)
  have m2: "snd s2 = cache_with_ip (?k c2) ip2 (cache_with_ip (?k c1) ip1 (snd s))" using assms(1) e by (simp add: s2 s1 pin_result)
  have k: "cert_of_ip (snd s2) ip1 = Some (?k c1)" "cert_of_ip (snd s2) ip2 = Some (?k c2)"
    unfolding m2 using assms(2) cached_by_other_ip cached_by_ip by auto
  have m3: "snd s3 = unpin_cache ord d (snd s2)" by (simp add: s3 UnpinCert_def)
  have "find_cert (fst s3) d = None" using find_delete_id [of d "{d}"] by (simp add: s3 UnpinCert_def find_cert_def)
  then show ?thesis using k unpin_leaves_one [OF k assms(2), of ord d] accepts_entry m3 by metis
qed

text \<open>C34. Verifying a certificate while it changes lets the new one in. When the goroutine that
  records a changed certificate runs between the statement and the cache update of a verification,
  strict mode accepts the new certificate although the table holds it as changed and not verified;
  when the two operations run one after the other it is refused.
\<close>

theorem verification_race:
  assumes "tls_reach t w" and "cert_of_device (tw_m w) d = Some k" and "device_exists (tw_db w) d" and "d \<noteq> 0"
    and "xt_parse t raw = Some cert"
    and db: "db' = change_row now d (fingerprint_of t raw) cert (verify_rows now user d (tw_db w))"
    and m: "m' = verify_cache d (change_cache d (fingerprint_of t raw) (tw_m w))"
  shows "fst (verifyStrict t m' d [raw]) = None
    \<and> (\<exists>r. find_cert db' d = Some r \<and> \<not> dc_verified r \<and> dc_fingerprint r = fingerprint_of t raw \<and> dc_changed_at r = Some now)
    \<and> fst (verifyStrict t (snd (recordCertChange t True now d (fingerprint_of t raw) raw (fst (VerifyCert True now d user (get w))))) d [raw])
        = Some CertNotVerified"
proof -
  have i: "pointers_ok (tw_m w) (tb_next (tw_db w))" "entry_sound (tw_db w) d k"
    using tls_reach_ok [OF assms(1)] assms(2,3) by (auto simp: world_ok_def tls_ok_def get_def cache_sound_def)
  obtain r where r: "find_cert (tw_db w) d = Some r" using i(2) by (auto simp: entry_sound_def split: option.splits)
  have c: "cert_of_device (change_cache d fp m0) d = map_option (\<lambda>c. c\<lparr>cc_Fingerprint := fp, cc_Verified := False\<rparr>) (cert_of_device m0 d)"
    and v: "cert_of_device (verify_cache d m0) d = map_option (\<lambda>c. c\<lparr>cc_Verified := True\<rparr>) (cert_of_device m0 d)"
    and pc: "pointers_ok (change_cache d fp m0) (tb_next (tw_db w))" and pv: "pointers_ok (verify_cache d m0) (tb_next (tw_db w))"
    if "pointers_ok m0 (tb_next (tw_db w))" for m0 fp
    using that by (simp_all add: change_cache_def verify_cache_def cert_of_device_change change_entry_pointers)
  have "fst (verifyStrict t m' d [raw]) = None"
    using assms(2) by (simp add: m verifyStrict_def v [OF pc [OF i(1)]] c [OF i(1)])
  moreover have "\<exists>r. find_cert db' d = Some r \<and> \<not> dc_verified r \<and> dc_fingerprint r = fingerprint_of t raw \<and> dc_changed_at r = Some now"
    using r by (simp add: db change_row_def verify_rows_def verified_row_def find_cert_def find_update_id)
  moreover have "fst (verifyStrict t (snd (recordCertChange t True now d (fingerprint_of t raw) raw (fst (VerifyCert True now d user (get w))))) d [raw])
      = Some CertNotVerified"
    using assms(2,4,5) r by (simp add: recordCertChange_def VerifyCert_def get_def verifyStrict_def c [OF pv [OF i(1)]] v [OF i(1)])
  ultimately show ?thesis by blast
qed

section \<open>Instances\<close>

definition toy_x509 :: "string \<Rightarrow> x509" where
  "toy_x509 raw = \<lparr>xc_Raw = raw, xc_Subject = ''CN=radio'', xc_Issuer = ''CN=radio'', xc_NotBefore = 0, xc_NotAfter = 1000\<rparr>"

definition toy_tools :: x509_tools where
  "toy_tools = \<lparr>xt_sha256 = (\<lambda>raw. raw), xt_parse = (\<lambda>raw. Some (toy_x509 raw))\<rparr>"

definition toy_device :: "int \<Rightarrow> string \<Rightarrow> tls_device" where
  "toy_device d ip = \<lparr>td_id = d, td_ip = Some ip, td_hostname = Some ''ap'', td_parent = None, td_managed = False, td_site = None\<rparr>"

definition toy_db :: tls_db where
  "toy_db = \<lparr>tb_certs = [pinned_row 5 7 True 1 (fingerprint_of toy_tools ''A'') (toy_x509 ''A'') None],
     tb_devices = [toy_device 1 ''10.0.0.1'', toy_device 2 ''10.0.0.2''], tb_mode = Some ''strict'', tb_next = 3\<rparr>"

definition toy_tls :: tls_world where
  "toy_tls = \<lparr>tw_db = toy_db, tw_m = NewManager (Some ''strict'') (Some (cert_rows toy_db)), tw_tasks = []\<rparr>"

lemma toy_reach: "tls_reach toy_tools toy_tls"
proof -
  have "db_ok_at_start toy_db" by code_simp
  moreover have "cert_answer toy_db (Some (cert_rows toy_db))" by (simp add: cert_answer_def)
  ultimately show ?thesis unfolding toy_tls_def by (rule tls_reach.Start)
qed


lemma only_administrators_pin_witness:
  "\<exists>db_ok now cert rest ip user verify.
    put (fst (PinCertFromDevice toy_tools True 9 (Some [toy_x509 ''B'']) 2 ''10.0.0.2'' 7 False (get toy_tls))) toy_tls
    = put (fst (PinCertFromDevice toy_tools db_ok now (Some (cert # rest)) 2 ip user verify (get toy_tls))) toy_tls"
proof -
  let ?w = "put (fst (PinCertFromDevice toy_tools True 9 (Some [toy_x509 ''B'']) 2 ''10.0.0.2'' 7 False (get toy_tls))) toy_tls"
  have "tls_step toy_tools toy_tls ?w" by (rule tls_step.Pin)
  moreover have "find_cert (tw_db toy_tls) 2 = None" by (simp add: toy_tls_def toy_db_def find_cert_def)
  moreover have "find_cert (tw_db ?w) 2 \<noteq> None"
    by (simp add: put_def get_def toy_tls_def toy_db_def toy_device_def pin_result device_exists_def find_pin_row)
  ultimately show ?thesis by (rule only_administrators_pin [OF toy_reach])
qed

lemma stats_add_up_witness: "cs_total (Stats 7 (tw_db toy_tls)) + cs_noCert (Stats 7 (tw_db toy_tls)) = 2"
  using stats_add_up [OF toy_reach, of 7] by (simp add: toy_tls_def toy_db_def toy_device_def is_direct_def)

lemma bulk_learn_accounts_witness:
  "lr_learned (snd (BulkLearnCerts toy_tools (\<lambda>ip. ''https'') (\<lambda>ip. Some [toy_x509 ip]) rev 9 7 True (get toy_tls)))
   + lr_failed (snd (BulkLearnCerts toy_tools (\<lambda>ip. ''https'') (\<lambda>ip. Some [toy_x509 ip]) rev 9 7 True (get toy_tls))) = 1"
proof -
  obtain db' m' res where r: "BulkLearnCerts toy_tools (\<lambda>ip. ''https'') (\<lambda>ip. Some [toy_x509 ip]) rev 9 7 True (get toy_tls) = ((db', m'), res)"
    by (metis surj_pair)
  have "length (learn_targets (tw_db toy_tls)) = 1" by code_simp
  then show ?thesis using bulk_learn_accounts [OF toy_reach _ r] by (simp add: r)
qed

lemma unpinned_address_accepted_witness:
  "find_cert (fst (fst (UnpinCert True id 1 (fst (PinCertFromDevice toy_tools True 9 (Some [toy_x509 ''C'']) 1 ''10.0.0.9'' 7 True
      (fst (PinCertFromDevice toy_tools True 8 (Some [toy_x509 ''B'']) 1 ''10.0.0.1'' 7 True (get toy_tls)))))))) 1 = None"
proof -
  have "device_exists (fst (get toy_tls)) 1" by code_simp
  from unpinned_address_accepted [OF this _ refl refl refl, where t = toy_tools and ?ip1.0 = "''10.0.0.1''"
      and ?ip2.0 = "''10.0.0.9''" and ?n1.0 = 8 and ?n2.0 = 9 and ?c1.0 = "toy_x509 ''B''" and ?c2.0 = "toy_x509 ''C''"
      and ?r1.0 = "[]" and ?r2.0 = "[]" and user = 7 and ord = id]
  show ?thesis by simp
qed

lemma verification_race_witness:
  "fst (verifyStrict toy_tools (verify_cache 1 (change_cache 1 (fingerprint_of toy_tools ''B'') (tw_m toy_tls))) 1 [''B'']) = None"
proof -
  have d: "device_exists (tw_db toy_tls) 1" by code_simp
  have "cert_of_device (tw_m toy_tls) 1 = Some \<lparr>cc_Fingerprint = fingerprint_of toy_tools ''A'', cc_Verified = True, cc_DeviceID = 1\<rparr>" by code_simp
  from verification_race [OF toy_reach this d _ _ refl refl, of "''B''" "toy_x509 ''B''" 9 7] show ?thesis by (simp add: toy_tools_def)
qed

end
