(* ===== verification/Schemes.thy ===== *)
theory Schemes imports Prelude begin

text \<open>
  Which scheme a radio is addressed with (src/internal/netutil): the probe of its ports and the
  cache of answers with its expiry. Whether a port accepts a connection is a parameter.
\<close>

definition dialTCP :: "(string \<Rightarrow> int \<Rightarrow> duration \<Rightarrow> bool) \<Rightarrow> string \<Rightarrow> int \<Rightarrow> duration \<Rightarrow> bool" where
  "dialTCP connects host port timeout = connects host port (if timeout \<le> 0 then 500 * 1000000 else timeout)"

definition ProbeScheme :: "(string \<Rightarrow> int \<Rightarrow> duration \<Rightarrow> bool) \<Rightarrow> string \<Rightarrow> duration \<Rightarrow> string" where
  "ProbeScheme connects ip timeout =
     (if ip = [] then ''https''
      else if dialTCP connects ip 443 timeout then ''https''
      else if dialTCP connects ip 80 timeout then ''http'' else ''https'')"

record scheme_hint =
  sh_Platform :: string
  sh_PreferHTTPS :: bool
  sh_TLSPinned :: bool
  sh_Timeout :: duration

definition schemeCacheTTL :: duration where
  "schemeCacheTTL = 5 * minute"

type_synonym scheme_cache = "(string, string \<times> time) gomap"

definition cache_hit :: "scheme_cache \<Rightarrow> time \<Rightarrow> string \<Rightarrow> string option" where
  "cache_hit cache now host =
     (case map_of cache host of
        None \<Rightarrow> None
      | Some (scheme, expires) \<Rightarrow> if now < expires \<and> (scheme = ''http'' \<or> scheme = ''https'') then Some scheme else None)"

definition ResolveScheme ::
  "(string \<Rightarrow> int \<Rightarrow> duration \<Rightarrow> bool) \<Rightarrow> time \<Rightarrow> string \<Rightarrow> scheme_hint \<Rightarrow> scheme_cache \<Rightarrow> scheme_cache \<times> string" where
  "ResolveScheme connects now host hint cache =
     (let store = (\<lambda>scheme. AList.update host (scheme, now + schemeCacheTTL) cache) in
      if host = [] then (cache, ''https'')
      else if sh_TLSPinned hint then (store ''https'', ''https'')
      else if sh_PreferHTTPS hint then (store ''https'', ''https'')
      else case cache_hit cache now host of
             Some scheme \<Rightarrow> (cache, scheme)
           | None \<Rightarrow>
               (let timeout = (if sh_Timeout hint \<le> 0 then 750 * 1000000 else sh_Timeout hint);
                    scheme = ProbeScheme connects host timeout
                in (store scheme, scheme)))"

definition ClearSchemeCache :: "string \<Rightarrow> scheme_cache \<Rightarrow> scheme_cache" where
  "ClearSchemeCache host cache = (if host = [] then cache else AList.delete host cache)"

text \<open>
  A history of the cache: at each instant a scheme is resolved for a host, with the state the
  network has then, or an entry is cleared. \<open>plain_answer\<close> is what a probe of the host gives.
\<close>

datatype scheme_op = Resolve "string \<Rightarrow> int \<Rightarrow> duration \<Rightarrow> bool" string scheme_hint | ClearEntry string

fun scheme_apply :: "time \<Rightarrow> scheme_op \<Rightarrow> scheme_cache \<Rightarrow> scheme_cache" where
  "scheme_apply now (Resolve connects host hint) cache = fst (ResolveScheme connects now host hint cache)"
| "scheme_apply now (ClearEntry host) cache = ClearSchemeCache host cache"

fun scheme_runs :: "(time \<times> scheme_op) list \<Rightarrow> scheme_cache" where
  "scheme_runs [] = []"
| "scheme_runs ((now, op) # ops) = scheme_apply now op (scheme_runs ops)"

definition closed_443 :: "(string \<Rightarrow> int \<Rightarrow> duration \<Rightarrow> bool) \<Rightarrow> string \<Rightarrow> bool" where
  "closed_443 connects host \<longleftrightarrow> (\<exists>t > 0. \<not> connects host 443 t \<and> connects host 80 t)"

text \<open>Every plain entry goes back to a resolution that found the port closed, at most the lifetime ago.\<close>

definition plain_since :: "(time \<times> scheme_op) list \<Rightarrow> string \<Rightarrow> time \<Rightarrow> bool" where
  "plain_since ops host since \<longleftrightarrow>
     (\<exists>t0 connects hint. (t0, Resolve connects host hint) \<in> set ops \<and> closed_443 connects host \<and> since < t0 + schemeCacheTTL)"

lemma plain_since_Cons: "plain_since ops host since \<Longrightarrow> plain_since (x # ops) host since"
  by (auto simp: plain_since_def)

lemma ProbeScheme_http: "ProbeScheme connects host timeout = ''http'' \<Longrightarrow> closed_443 connects host"
  unfolding ProbeScheme_def dialTCP_def closed_443_def
  by (cases "timeout \<le> 0") (auto split: if_splits intro: exI [of _ "500000000 :: int"] exI [of _ timeout])

lemma ResolveScheme_fresh:
  "ResolveScheme connects now host hint cache = (cache', scheme) \<Longrightarrow>
     cache' = cache \<and> (host = [] \<and> scheme = ''https'' \<or> cache_hit cache now host = Some scheme)
     \<or> cache' = AList.update host (scheme, now + schemeCacheTTL) cache \<and> (scheme = ''http'' \<longrightarrow> closed_443 connects host)"
  by (auto simp: ResolveScheme_def Let_def intro: ProbeScheme_http split: if_splits option.splits)

lemma scheme_runs_plain:
  "map_of (scheme_runs ops) host = Some (''http'', expires) \<Longrightarrow> now < expires \<Longrightarrow> plain_since ops host now"
proof (induction ops arbitrary: expires)
  case (Cons x ops)
  obtain t0 op where x: "x = (t0, op)" by (cases x)
  show ?case
  proof (cases op)
    case (Resolve connects h hint)
    obtain cache' scheme where r: "ResolveScheme connects t0 h hint (scheme_runs ops) = (cache', scheme)" by fastforce
    consider "map_of (scheme_runs ops) host = Some (''http'', expires)"
      | "h = host" "scheme = ''http''" "expires = t0 + schemeCacheTTL" "closed_443 connects h"
      using ResolveScheme_fresh [OF r] Cons.prems(1) r x Resolve by (auto split: if_splits)
    then show ?thesis
    proof cases
      case 1
      then show ?thesis using Cons.IH Cons.prems(2) plain_since_Cons by blast
    next
      case 2
      then show ?thesis using Cons.prems(2) x Resolve by (auto simp: plain_since_def)
    qed
  next
    case (ClearEntry h)
    then show ?thesis using Cons x plain_since_Cons by (auto simp: ClearSchemeCache_def split: if_splits)
  qed
qed simp

text \<open>C37. A radio is addressed in the clear only after its secure port was found closed. After any
  history of resolutions and clearings, whatever the network answered, the scheme is http or https,
  and it is http only if now or within the last five minutes a probe of that host found port 443
  closed and port 80 open; with a pinned certificate it is https.
\<close>

theorem plain_only_when_probed:
  assumes "ResolveScheme connects now host hint (scheme_runs ops) = (cache', scheme)"
  shows "(scheme = ''https'' \<or> scheme = ''http'' \<and> (closed_443 connects host \<or> plain_since ops host now))
    \<and> (sh_TLSPinned hint \<longrightarrow> scheme = ''https'')"
proof -
  have pin: "sh_TLSPinned hint \<longrightarrow> scheme = ''https''" using assms by (auto simp: ResolveScheme_def Let_def split: if_splits)
  have http: "scheme = ''https'' \<or> scheme = ''http''"
    using assms by (auto simp: ResolveScheme_def Let_def cache_hit_def ProbeScheme_def split: if_splits option.splits prod.splits)
  have "closed_443 connects host \<or> plain_since ops host now" if h: "scheme = ''http''"
    using ResolveScheme_fresh [OF assms]
  proof (elim disjE conjE)
    assume "cache_hit (scheme_runs ops) now host = Some scheme"
    then show ?thesis using h scheme_runs_plain by (auto simp: cache_hit_def split: option.splits prod.splits if_splits)
  qed (use h in auto)
  then show ?thesis using pin http by blast
qed

lemma plain_only_when_probed_witness:
  "closed_443 (\<lambda>h port t. port = 80) ''10.0.0.9''
   \<or> plain_since [(0, Resolve (\<lambda>h port t. port = 80) ''10.0.0.9'' \<lparr>sh_Platform = [], sh_PreferHTTPS = False, sh_TLSPinned = False, sh_Timeout = 0\<rparr>)] ''10.0.0.9'' 100"
proof -
  let ?hint = "\<lparr>sh_Platform = [], sh_PreferHTTPS = False, sh_TLSPinned = False, sh_Timeout = 0\<rparr>"
  let ?ops = "[(0, Resolve (\<lambda>h port t. port = 80) ''10.0.0.9'' ?hint)]"
  have "ResolveScheme (\<lambda>h port t. port = 80) 100 ''10.0.0.9'' ?hint (scheme_runs ?ops) = (scheme_runs ?ops, ''http'')"
    by code_simp
  from plain_only_when_probed [OF this] show ?thesis by simp
qed

end
