(* ===== verification/ZabbixBridge.thy ===== *)
theory ZabbixBridge imports NetText StatsInvariant WebhookGuard "HOL-Library.Signed_Division" begin

text \<open>
  The Zabbix bridge (src/internal/zabbix/bridge.go): who may connect, the framing of requests and
  answers, the item keys, and the metrics of devices and peers over the live statistics store.
  Address parsing, name resolution and JSON encoding are parameters. Sums of radio powers are real
  numbers, where the code has floating-point ones.
\<close>

section \<open>Allowed hosts\<close>

record net_tools =
  nt_parse_ip :: "string \<Rightarrow> net_ip option"
  nt_ip_string :: "net_ip \<Rightarrow> string"
  nt_parse_cidr :: "string \<Rightarrow> prefix4or6 option"
  nt_lookup :: "string \<Rightarrow> net_ip list option"

text \<open>IPNet.Contains: the IPv4 form of an address where it has one.\<close>

definition net_contains :: "prefix4or6 \<Rightarrow> net_ip \<Rightarrow> bool" where
  "net_contains p ip = (case addr_from_slice ip of None \<Rightarrow> False | Some a \<Rightarrow> prefix_contains p (unmap a))"

record allow_list =
  al_nets :: "prefix4or6 list"
  al_ips :: "string list"

definition add_allowed :: "net_tools \<Rightarrow> string \<Rightarrow> allow_list \<Rightarrow> allow_list" where
  "add_allowed t entry b =
     (let h = trim_space entry in
      if h = [] then b
      else if contains_str h ''/'' then
        (case nt_parse_cidr t h of None \<Rightarrow> b | Some net \<Rightarrow> b\<lparr>al_nets := al_nets b @ [net]\<rparr>)
      else
        (case nt_parse_ip t h of
           Some ip \<Rightarrow> b\<lparr>al_ips := al_ips b @ [nt_ip_string t ip]\<rparr>
         | None \<Rightarrow>
             (case nt_lookup t h of None \<Rightarrow> b | Some addrs \<Rightarrow> b\<lparr>al_ips := al_ips b @ map (nt_ip_string t) addrs\<rparr>)))"

definition SetAllowedHosts :: "net_tools \<Rightarrow> string \<Rightarrow> allow_list" where
  "SetAllowedHosts t hosts =
     (let b = \<lparr>al_nets = [], al_ips = []\<rparr> in
      if hosts = [] then b else fold (add_allowed t) (split_on (\<lambda>c. c = CHR '','') hosts) b)"

definition isAllowed :: "net_tools \<Rightarrow> allow_list \<Rightarrow> string \<Rightarrow> bool" where
  "isAllowed t b remote =
     (if al_nets b = [] \<and> al_ips b = [] then True
      else
        (let host = (case split_host_port remote of None \<Rightarrow> remote | Some h \<Rightarrow> h) in
         case nt_parse_ip t host of
           None \<Rightarrow> False
         | Some ip \<Rightarrow> nt_ip_string t ip \<in> set (al_ips b) \<or> list_ex (\<lambda>net. net_contains net ip) (al_nets b)))"

section \<open>Radio figures of a peer\<close>

definition getPeerSignal :: "peer_stats \<Rightarrow> int" where
  "getPeerSignal p =
     (case peer_Radio60GHz p of
        Some r \<Rightarrow> if pr_Active r then pr_Signal r
          else (case peer_RadioLTU p of Some l \<Rightarrow> pr_Signal l | None \<Rightarrow> (case peer_Radio5GHz p of Some f \<Rightarrow> pr_Signal f | None \<Rightarrow> 0))
      | None \<Rightarrow> (case peer_RadioLTU p of Some l \<Rightarrow> pr_Signal l | None \<Rightarrow> (case peer_Radio5GHz p of Some f \<Rightarrow> pr_Signal f | None \<Rightarrow> 0)))"

definition chains_of :: "peer_radio_stats option \<Rightarrow> int list" where
  "chains_of r = (case r of None \<Rightarrow> [] | Some x \<Rightarrow> pr_SignalPerChain x)"

definition getPeerSignalChains :: "peer_stats \<Rightarrow> int list" where
  "getPeerSignalChains p =
     (if chains_of (peer_Radio5GHz p) \<noteq> [] then chains_of (peer_Radio5GHz p) else chains_of (peer_RadioLTU p))"

definition get5GHzSignal :: "peer_stats \<Rightarrow> int" where
  "get5GHzSignal p =
     (let s5 = (case peer_Radio5GHz p of None \<Rightarrow> 0 | Some r \<Rightarrow> pr_Signal r);
          sl = (case peer_RadioLTU p of None \<Rightarrow> 0 | Some r \<Rightarrow> pr_Signal r)
      in if s5 \<noteq> 0 then s5 else if sl \<noteq> 0 then sl else if peer_Signal p \<noteq> 0 then peer_Signal p else 0)"

definition get5GHzChains :: "peer_stats \<Rightarrow> int list" where
  "get5GHzChains p =
     (if chains_of (peer_Radio5GHz p) \<noteq> [] then chains_of (peer_Radio5GHz p)
      else if chains_of (peer_RadioLTU p) \<noteq> [] then chains_of (peer_RadioLTU p)
      else if chains_of (peer_Radio5GHz p) \<noteq> [] then chains_of (peer_Radio5GHz p) else [])"

text \<open>math.Round: halves go away from zero.\<close>

definition go_round :: "real \<Rightarrow> int" where
  "go_round x = (if x < 0 then - \<lfloor>1 / 2 - x\<rfloor> else \<lfloor>x + 1 / 2\<rfloor>)"

definition linear_sum :: "int list \<Rightarrow> real" where
  "linear_sum dBms = sum_list (map (\<lambda>d. 10 powr (of_int d / 10)) dBms)"

definition combineSignals :: "int list \<Rightarrow> int" where
  "combineSignals sigs =
     (case sigs of
        [] \<Rightarrow> 0
      | [c] \<Rightarrow> c
      | _ \<Rightarrow>
          (case filter (\<lambda>d. d \<noteq> 0 \<and> d < 0) sigs of
             [] \<Rightarrow> 0
           | [d] \<Rightarrow> d
           | valid \<Rightarrow> go_round (10 * log 10 (linear_sum valid))))"

definition active60 :: "peer_stats \<Rightarrow> peer_radio_stats option" where
  "active60 p = (case peer_Radio60GHz p of Some r \<Rightarrow> if pr_Active r then Some r else None | None \<Rightarrow> None)"

definition first_some :: "'a option list \<Rightarrow> 'a option" where
  "first_some xs = (case filter (\<lambda>x. x \<noteq> None) xs of [] \<Rightarrow> None | x # _ \<Rightarrow> x)"

definition getPeerMCS :: "peer_stats \<Rightarrow> mcs_stats option" where
  "getPeerMCS p = first_some (map (\<lambda>r. Option.bind r pr_MCS) [active60 p, peer_RadioLTU p, peer_Radio5GHz p])"

definition getPeerAirtime :: "peer_stats \<Rightarrow> string \<Rightarrow> f64" where
  "getPeerAirtime p dir =
     (case first_some [active60 p, peer_RadioLTU p, peer_Radio5GHz p] of
        None \<Rightarrow> Fin 0
      | Some r \<Rightarrow> if dir = ''dl'' then pr_AirtimeDL r else pr_AirtimeUL r)"

definition getPeerCapacity :: "peer_stats \<Rightarrow> capacity_stats option" where
  "getPeerCapacity p = first_some (map (\<lambda>r. Option.bind r pr_Capacity) [active60 p, peer_RadioLTU p, peer_Radio5GHz p])"

section \<open>Metrics\<close>

text \<open>An answer to a key; a slice out of bounds or a nil peer ends the process.\<close>

datatype answer = Answer string | Panic

definition unsupported :: string where
  "unsupported = ''ZBX_NOTSUPPORTED''"

definition boolToStr :: "bool \<Rightarrow> string" where
  "boolToStr b = (if b then ''1'' else ''0'')"

text \<open>time.Unix of an instant counted from Go's zero time.\<close>

definition unix_seconds :: "time \<Rightarrow> int" where
  "unix_seconds t = t div second - 62135596800"

definition cpu_metric :: "device_stats \<Rightarrow> string" where
  "cpu_metric d =
     (if ds_CPU d \<noteq> [] then int_str (sum_list (map core_Usage (ds_CPU d)) sdiv int (length (ds_CPU d))) else ''0'')"

definition opt_int :: "'a option \<Rightarrow> ('a \<Rightarrow> int) \<Rightarrow> string" where
  "opt_int v f = (case v of None \<Rightarrow> ''0'' | Some x \<Rightarrow> int_str (f x))"

definition radio_cap :: "radio_stats option \<Rightarrow> capacity_stats option" where
  "radio_cap r = Option.bind r radio_Capacity"

text \<open>The cases of the switch over a device's metric, with what each answers.\<close>

definition device_metrics :: "device_stats \<Rightarrow> (string \<times> string) list" where
  "device_metrics d =
     (let w = ds_Wireless d; temp = ds_Temperature d; gps = ds_GPS d in
      [(''online'', boolToStr (ds_Online d)),
       (''uptime'', int_str (ds_Uptime d)),
       (''last_seen'', int_str (unix_seconds (ds_LastSeen d))),
       (''cpu'', cpu_metric d),
       (''ram.usage'', int_str (ram_Usage (ds_RAM d))),
       (''ram.free'', int_str (ram_Free (ds_RAM d))),
       (''temp.cpu'', fmt_fixed 1 (temp_CPU temp)),
       (''temp.radio60'', fmt_fixed 1 (temp_Radio60 temp)),
       (''temp.radio5'', fmt_fixed 1 (temp_Radio5 temp)),
       (''gps.fix'', boolToStr (gps_Fix gps)),
       (''gps.lat'', fmt_fixed 6 (gps_Lat gps)),
       (''gps.lon'', fmt_fixed 6 (gps_Lon gps)),
       (''gps.sats'', int_str (gps_Sats gps)),
       (''wireless.tx_rate'', int_str (wl_TxRate w)),
       (''wireless.rx_rate'', int_str (wl_RxRate w)),
       (''wireless.service_uptime'', int_str (wl_ServiceUptime w)),
       (''radio60.capacity'', opt_int (radio_cap (wl_Radio60GHz w)) cap_Combined),
       (''radio60.capacity.ideal'', opt_int (radio_cap (wl_Radio60GHz w)) cap_CombinedIdeal),
       (''radio60.frequency'', opt_int (wl_Radio60GHz w) radio_Frequency),
       (''radio60.channel_width'', opt_int (wl_Radio60GHz w) radio_ChannelWidth),
       (''radio5.capacity'', opt_int (radio_cap (wl_Radio5GHz w)) cap_Combined),
       (''radio5.frequency'', opt_int (wl_Radio5GHz w) radio_Frequency),
       (''radioltu.capacity'', opt_int (radio_cap (wl_RadioLTU w)) cap_Combined),
       (''radioltu.frequency'', opt_int (wl_RadioLTU w) radio_Frequency),
       (''link_score.dl'', opt_int (wl_LinkScore w) ls_DL),
       (''link_score.ul'', opt_int (wl_LinkScore w) ls_UL),
       (''peer_count'', int_str (ds_PeerCount d))])"

definition switch_on :: "(string \<times> string) list \<Rightarrow> string \<Rightarrow> string" where
  "switch_on cases x = (case map_of cases x of None \<Rightarrow> unsupported | Some a \<Rightarrow> a)"

definition deviceMetric :: "store \<Rightarrow> string \<Rightarrow> string \<Rightarrow> string" where
  "deviceMetric s ip metric =
     (let by_mac = (if contains_str ip '':'' \<or> contains_str ip ''-'' then GetByMAC s ip else None) in
      case (case by_mac of None \<Rightarrow> Get s ip | Some d \<Rightarrow> Some d) of
        None \<Rightarrow> unsupported
      | Some d \<Rightarrow> switch_on (device_metrics d) metric)"

definition chain_at :: "int list \<Rightarrow> nat \<Rightarrow> string" where
  "chain_at sigs i = (if i < length sigs then int_str (sigs ! i) else ''0'')"

definition combined60 :: "peer_stats \<Rightarrow> string" where
  "combined60 p =
     (case peer_Radio60GHz p of
        None \<Rightarrow> ''0''
      | Some r \<Rightarrow> if length (pr_SignalPerChain r) \<ge> 2 then int_str (combineSignals (pr_SignalPerChain r)) else int_str (pr_Signal r))"

definition combined5 :: "peer_stats \<Rightarrow> string" where
  "combined5 p =
     (let sigs = get5GHzChains p in if length sigs \<ge> 2 then int_str (combineSignals sigs) else int_str (get5GHzSignal p))"

definition peer_metrics :: "peer_stats \<Rightarrow> (string \<times> string) list" where
  "peer_metrics p =
     [(''ip'', peer_IP p),
      (''hostname'', peer_Hostname p),
      (''firmware'', peer_Firmware p),
      (''distance'', fmt_fixed 0 (peer_Distance p)),
      (''uptime'', int_str (peer_Uptime p)),
      (''tx_bytes'', int_str (peer_TxBytes p)),
      (''rx_bytes'', int_str (peer_RxBytes p)),
      (''tx_rate'', int_str (peer_TxRate p)),
      (''rx_rate'', int_str (peer_RxRate p)),
      (''signal.60ghz'', opt_int (peer_Radio60GHz p) pr_Signal),
      (''signal.60ghz.chain0'', chain_at (chains_of (peer_Radio60GHz p)) 0),
      (''signal.60ghz.chain1'', chain_at (chains_of (peer_Radio60GHz p)) 1),
      (''signal.60ghz.combined'', combined60 p),
      (''signal.5ghz'', int_str (get5GHzSignal p)),
      (''signal.5ghz.chain0'', chain_at (get5GHzChains p) 0),
      (''signal.5ghz.chain1'', chain_at (get5GHzChains p) 1),
      (''signal.5ghz.combined'', combined5 p),
      (''signal'', int_str (getPeerSignal p)),
      (''signal.chain0'', chain_at (getPeerSignalChains p) 0),
      (''signal.chain1'', chain_at (getPeerSignalChains p) 1),
      (''cinr.dl'', opt_int (Option.bind (peer_RadioLTU p) pr_CINR) cinr_DL),
      (''cinr.ul'', opt_int (Option.bind (peer_RadioLTU p) pr_CINR) cinr_UL),
      (''mcs.tx'', opt_int (getPeerMCS p) mcs_TxIdx),
      (''mcs.rx'', opt_int (getPeerMCS p) mcs_RxIdx),
      (''airtime.dl'', fmt_fixed 1 (getPeerAirtime p ''dl'')),
      (''airtime.ul'', fmt_fixed 1 (getPeerAirtime p ''ul'')),
      (''link_score.dl'', opt_int (peer_LinkScore p) ls_DL),
      (''link_score.ul'', opt_int (peer_LinkScore p) ls_UL),
      (''capacity'', opt_int (getPeerCapacity p) cap_Combined)]"

text \<open>The search dereferences each entry it passes.\<close>

fun find_peer :: "string \<Rightarrow> peer_stats option list \<Rightarrow> peer_stats option option" where
  "find_peer sta [] = Some None"
| "find_peer sta (None # ps) = None"
| "find_peer sta (Some p # ps) = (if equal_fold (peer_MAC p) sta \<or> peer_IP p = sta then Some (Some p) else find_peer sta ps)"

definition peerMetric :: "store \<Rightarrow> string \<Rightarrow> string \<Rightarrow> string \<Rightarrow> answer" where
  "peerMetric s apIP sta metric =
     (case Get s apIP of
        None \<Rightarrow> Answer unsupported
      | Some ap \<Rightarrow>
          (case find_peer sta (ds_Peers ap) of
             None \<Rightarrow> Panic
           | Some None \<Rightarrow> Answer unsupported
           | Some (Some p) \<Rightarrow> Answer (switch_on (peer_metrics p) metric)))"

definition count_metric :: "store \<Rightarrow> string list \<Rightarrow> string" where
  "count_metric s args =
     (let sel = (case args of [] \<Rightarrow> [] | a # _ \<Rightarrow> to_lower a) in
      case CountsByStatus s of (online, offline, unknown, all) \<Rightarrow>
        if sel = ''online'' then nat_str online
        else if sel = ''offline'' then nat_str offline
        else if sel = ''unknown'' then nat_str unknown
        else if sel = ''ap'' \<or> sel = ''aps'' then nat_str (length (ListAPs s))
        else if sel = [] then nat_str all else unsupported)"

section \<open>Discovery\<close>

record lld_device =
  lld_IP :: string
  lld_MAC :: string
  lld_Hostname :: string
  lld_Platform :: string
  lld_IsAP :: string

definition detectPlatform :: "device_stats \<Rightarrow> string" where
  "detectPlatform d =
     (if wl_Radio60GHz (ds_Wireless d) \<noteq> None then ''wave''
      else if wl_RadioLTU (ds_Wireless d) \<noteq> None then ''ltu'' else ''unknown'')"

definition lld_of :: "device_stats \<Rightarrow> lld_device" where
  "lld_of d =
     \<lparr>lld_IP = ds_IP d, lld_MAC = ds_MAC d, lld_Hostname = ds_Hostname d, lld_Platform = detectPlatform d,
      lld_IsAP = (if ds_ParentIP d = [] then ''1'' else ''0'')\<rparr>"

text \<open>The slice is nil when there is no device; \<open>marshal\<close> encodes the object around it.\<close>

definition discovery :: "(lld_device list option \<Rightarrow> string) \<Rightarrow> store \<Rightarrow> string" where
  "discovery marshal s = marshal (if ListAll s = [] then None else Some (map lld_of (ListAll s)))"

section \<open>Keys\<close>

definition processKey :: "(lld_device list option \<Rightarrow> string) \<Rightarrow> store \<Rightarrow> string \<Rightarrow> answer" where
  "processKey marshal s key0 =
     (let key = trim_space key0 in
      if key = ''wavecontrol.discovery'' \<or> key = ''wavecontrol.discovery[]'' then Answer (discovery marshal s)
      else if \<not> prefix ''wavecontrol.'' key then Answer unsupported
      else (case (index_first CHR ''['' key, index_last CHR '']'' key) of
              (Some i, Some j) \<Rightarrow>
                (if j < i + 1 then Panic
                 else
                   (let func = take (i - 12) (drop 12 key); args = split_on (\<lambda>c. c = CHR '','') (take (j - (i + 1)) (drop (i + 1) key)) in
                    if func = ''device'' then
                      (if length args < 2 then Answer unsupported else Answer (deviceMetric s (args ! 0) (args ! 1)))
                    else if func = ''peer'' then
                      (if length args < 3 then Answer unsupported else peerMetric s (args ! 0) (args ! 1) (args ! 2))
                    else if func = ''count'' then Answer (count_metric s args)
                    else Answer unsupported))
            | _ \<Rightarrow> Answer unsupported))"

section \<open>Connections\<close>

definition zbx_header :: string where
  "zbx_header = ''ZBXD'' @ [CHR 0x01]"

fun le_bytes :: "nat \<Rightarrow> nat \<Rightarrow> string" where
  "le_bytes 0 n = []"
| "le_bytes (Suc k) n = char_of n # le_bytes k (n div 256)"

fun le_value :: "string \<Rightarrow> nat" where
  "le_value [] = 0"
| "le_value (c # cs) = of_char c + 256 * le_value cs"

definition sendResponse :: "string \<Rightarrow> string" where
  "sendResponse s = zbx_header @ le_bytes 8 (length s) @ s"

datatype connection = Closed | Sent string | Crashed

definition reply :: "answer \<Rightarrow> connection" where
  "reply a = (case a of Answer s \<Rightarrow> Sent (sendResponse s) | Panic \<Rightarrow> Crashed)"

text \<open>What the peer sends until it stops is \<open>input\<close>; a read that it cannot satisfy closes the connection.\<close>

definition handleConnection :: "(string \<Rightarrow> answer) \<Rightarrow> string \<Rightarrow> connection" where
  "handleConnection process input =
     (if length input < 5 then Closed
      else if take 5 input \<noteq> zbx_header then
        (let rest = drop 5 input; line = takeWhile (\<lambda>c. c \<noteq> CHR 0x0A) rest in reply (process (take 5 input @ trim_space line)))
      else if length input < 13 then Closed
      else
        (let dataLen = le_value (take 8 (drop 5 input)) in
         if dataLen > 65536 then Closed
         else if length input < 13 + dataLen then Closed
         else reply (process (trim_space (take dataLen (drop 13 input))))))"

text \<open>What the accept loop does with a connection.\<close>

definition accept :: "net_tools \<Rightarrow> allow_list \<Rightarrow> (lld_device list option \<Rightarrow> string) \<Rightarrow> store \<Rightarrow> string \<Rightarrow> string \<Rightarrow> connection" where
  "accept t b marshal s remote input =
     (if isAllowed t b remote then handleConnection (processKey marshal s) input else Closed)"

end
