(* ===== verification/ZabbixProofs.thy ===== *)
theory ZabbixProofs imports ZabbixBridge begin

text \<open>
  What the Zabbix bridge guarantees: who is let in, which request crashes it, that a request is
  read as it was framed, that a device has the same figures under both of its names, that the
  counts add up, and the bounds of a combined signal.
\<close>

section \<open>Framing\<close>

lemma length_le_bytes [simp]: "length (le_bytes k n) = k"
  by (induction k arbitrary: n) simp_all

lemma le_value_bytes: "n < 256 ^ k \<Longrightarrow> le_value (le_bytes k n) = n"
proof (induction k arbitrary: n)
  case (Suc k)
  then have "n div 256 < 256 ^ k" by (simp add: less_mult_imp_div_less mult.commute)
  then show ?case using Suc.IH by simp
qed simp

lemma zbx_header_length [simp]: "length zbx_header = 5"
  by (simp add: zbx_header_def)

lemma framed_parts: "take 5 (sendResponse body @ rest) = zbx_header" "take 8 (drop 5 (sendResponse body @ rest)) = le_bytes 8 (length body)"
  "drop 13 (sendResponse body @ rest) = body @ rest" "length (sendResponse body @ rest) = 13 + length body + length rest"
proof -
  have d: "drop 5 (sendResponse body @ rest) = le_bytes 8 (length body) @ body @ rest" by (simp add: sendResponse_def)
  show "take 8 (drop 5 (sendResponse body @ rest)) = le_bytes 8 (length body)" unfolding d by simp
  have "drop 13 xs = drop 8 (drop 5 xs)" for xs :: string by simp
  then have "drop 13 (sendResponse body @ rest) = drop 8 (drop 5 (sendResponse body @ rest))" by blast
  then show "drop 13 (sendResponse body @ rest) = body @ rest" unfolding d by simp
qed (simp_all add: sendResponse_def)

text \<open>
  A request is read as it was framed. What follows the header and the length, up to 65536
  bytes, reaches the key handler unchanged but for blanks around it, whatever comes after it; a
  longer request closes the connection; and the answer is framed the same way.
\<close>

theorem request_roundtrip:
  assumes "length body < 256 ^ 8"
  shows "handleConnection process (sendResponse body @ rest)
      = (if length body \<le> 65536 then reply (process (trim_space body)) else Closed)
    \<and> le_value (take 8 (drop 5 (sendResponse body))) = length body \<and> drop 13 (sendResponse body) = body"
  using le_value_bytes [OF assms] framed_parts [of body rest] framed_parts [of body "[]"]
  by (simp add: handleConnection_def Let_def)

lemma request_roundtrip_witness:
  "handleConnection (\<lambda>k. Answer (rev k)) (sendResponse ''abc '' @ ''xyz'') = Sent (sendResponse ''cba'')"
proof -
  have "trim_space ''abc '' = ''abc''" by code_simp
  then show ?thesis using request_roundtrip [of "''abc ''" "\<lambda>k. Answer (rev k)" "''xyz''"] by (simp add: reply_def)
qed

section \<open>Keys\<close>

lemma find_peer_safe: "None \<notin> set ps \<Longrightarrow> find_peer sta ps \<noteq> None"
  by (induction sta ps rule: find_peer.induct) auto

text \<open>No device of the store has a nil peer.\<close>

definition no_nil_peers :: "store \<Rightarrow> bool" where
  "no_nil_peers s \<longleftrightarrow> list_all (\<lambda>d. None \<notin> set (ds_Peers d)) (ListAll s)"

lemma Get_listed: "Get s ip = Some d \<Longrightarrow> d \<in> set (ListAll s)"
  by (auto simp: Get_def ListAll_def Let_def image_iff dest!: map_of_SomeD split: if_splits option.splits) force+

lemma peerMetric_safe: "no_nil_peers s \<Longrightarrow> peerMetric s ip sta metric \<noteq> Panic"
proof (cases "Get s ip")
  case (Some d)
  assume "no_nil_peers s"
  then have "None \<notin> set (ds_Peers d)" using Get_listed [OF Some] by (simp add: no_nil_peers_def list_all_iff)
  then have "find_peer sta (ds_Peers d) \<noteq> None" by (rule find_peer_safe)
  then show ?thesis using Some by (auto simp: peerMetric_def split: option.split)
qed (simp add: peerMetric_def)

definition reversed_brackets :: "string \<Rightarrow> bool" where
  "reversed_brackets key \<longleftrightarrow> prefix ''wavecontrol.'' key \<and> key \<noteq> ''wavecontrol.discovery[]''
     \<and> (case (index_first CHR ''['' key, index_last CHR '']'' key) of (Some i, Some j) \<Rightarrow> j \<le> i | _ \<Rightarrow> False)"

lemma processKey_panics:
  assumes "no_nil_peers s"
  shows "processKey marshal s key0 = Panic \<longleftrightarrow> reversed_brackets (trim_space key0)"
proof -
  define key where "key = trim_space key0"
  consider "key = ''wavecontrol.discovery''" | "key = ''wavecontrol.discovery[]''"
    | "key \<noteq> ''wavecontrol.discovery''" "key \<noteq> ''wavecontrol.discovery[]''" by blast
  then show ?thesis
  proof cases
    case 1
    have "index_first CHR ''['' ''wavecontrol.discovery'' = None" by code_simp
    then show ?thesis using 1 by (simp add: processKey_def reversed_brackets_def key_def [symmetric])
  next
    case 2
    then show ?thesis by (simp add: processKey_def reversed_brackets_def key_def [symmetric])
  next
    case 3
    show ?thesis
    proof (cases "index_first CHR ''['' key")
      case None
      then show ?thesis using 3 by (simp add: processKey_def reversed_brackets_def key_def [symmetric])
    next
      case i: (Some i)
      show ?thesis
      proof (cases "index_last CHR '']'' key")
        case None
        then show ?thesis using 3 i by (simp add: processKey_def reversed_brackets_def key_def [symmetric])
      next
        case j: (Some j)
        show ?thesis using 3 i j peerMetric_safe [OF assms]
          by (simp add: processKey_def reversed_brackets_def key_def [symmetric] Let_def not_less_eq_eq)
      qed
    qed
  qed
qed

text \<open>C17. One request ends the process. Over a store without nil peers the key handler panics exactly
  for a key of the bridge whose first opening bracket does not come before its last closing one:
  the text between them is sliced without comparing the positions. Nothing recovers the panic, so
  that a client that may connect ends the program by sending a key such as wavecontrol.][.
\<close>

theorem reversed_brackets_crash:
  assumes "no_nil_peers s" and "length key < 65536" and "trim_space key = key" and "isAllowed t b remote"
  shows "accept t b marshal s remote (sendResponse key) = Crashed \<longleftrightarrow> reversed_brackets key"
proof -
  have v: "le_value (le_bytes 8 (length key)) = length key" using assms(2) by (intro le_value_bytes) simp
  have f: "handleConnection (processKey marshal s) (sendResponse key) = reply (processKey marshal s key)"
    using v framed_parts [of key "[]"] assms(2,3) by (simp add: handleConnection_def Let_def)
  have "reply (processKey marshal s key) = Crashed \<longleftrightarrow> processKey marshal s key = Panic" by (simp add: reply_def split: answer.split)
  then show ?thesis using processKey_panics [OF assms(1), of marshal key] assms(3,4) f by (simp add: accept_def)
qed

definition no_net :: net_tools where
  "no_net = \<lparr>nt_parse_ip = (\<lambda>_. None), nt_ip_string = (\<lambda>_. []), nt_parse_cidr = (\<lambda>_. None), nt_lookup = (\<lambda>_. None)\<rparr>"

lemma reversed_brackets_crash_witness:
  "accept no_net \<lparr>al_nets = [], al_ips = []\<rparr> (\<lambda>_. []) NewStore ''10.0.0.7:4711'' (sendResponse ''wavecontrol.]['') = Crashed"
proof -
  have "trim_space ''wavecontrol.]['' = ''wavecontrol.][''" "reversed_brackets ''wavecontrol.][''" "no_nil_peers NewStore" by code_simp+
  then show ?thesis by (subst reversed_brackets_crash) (simp_all add: isAllowed_def)
qed

section \<open>Access\<close>

text \<open>What one entry of the configured list lets in, and whether it is one that lets anything in.\<close>

definition entry_ips :: "net_tools \<Rightarrow> string \<Rightarrow> string list" where
  "entry_ips t e =
     (let h = trim_space e in
      if h = [] \<or> contains_str h ''/'' then []
      else case nt_parse_ip t h of
             Some ip \<Rightarrow> [nt_ip_string t ip]
           | None \<Rightarrow> (case nt_lookup t h of None \<Rightarrow> [] | Some addrs \<Rightarrow> map (nt_ip_string t) addrs))"

definition entry_nets :: "net_tools \<Rightarrow> string \<Rightarrow> prefix4or6 list" where
  "entry_nets t e =
     (let h = trim_space e in
      if h \<noteq> [] \<and> contains_str h ''/'' then (case nt_parse_cidr t h of None \<Rightarrow> [] | Some net \<Rightarrow> [net]) else [])"

definition entry_valid :: "net_tools \<Rightarrow> string \<Rightarrow> bool" where
  "entry_valid t e \<longleftrightarrow> entry_ips t e \<noteq> [] \<or> entry_nets t e \<noteq> []"

definition entry_lets_in :: "net_tools \<Rightarrow> net_ip \<Rightarrow> string \<Rightarrow> bool" where
  "entry_lets_in t ip e \<longleftrightarrow> nt_ip_string t ip \<in> set (entry_ips t e) \<or> list_ex (\<lambda>net. net_contains net ip) (entry_nets t e)"

lemma add_allowed_entry: "add_allowed t e b = \<lparr>al_nets = al_nets b @ entry_nets t e, al_ips = al_ips b @ entry_ips t e\<rparr>"
  by (auto simp: add_allowed_def entry_nets_def entry_ips_def Let_def split: option.split)

lemma add_allowed_fold:
  "fold (add_allowed t) es b = \<lparr>al_nets = al_nets b @ concat (map (entry_nets t) es), al_ips = al_ips b @ concat (map (entry_ips t) es)\<rparr>"
  by (induction es arbitrary: b) (simp_all add: add_allowed_entry)

lemma SetAllowedHosts_entries:
  "SetAllowedHosts t hosts = \<lparr>al_nets = concat (map (entry_nets t) (split_on (\<lambda>c. c = CHR '','') hosts)),
     al_ips = concat (map (entry_ips t) (split_on (\<lambda>c. c = CHR '','') hosts))\<rparr>"
  by (cases hosts) (simp_all add: SetAllowedHosts_def Let_def add_allowed_fold entry_nets_def entry_ips_def)


section \<open>Figures\<close>

lemma unix_seconds_zero: "unix_seconds 0 = -62135596800"
  by (simp add: unix_seconds_def)

text \<open>
  A device has the same figures under its MAC and under its address. In every reachable store,
  for a device with a colon in its MAC and an address without colon and dash, each metric is
  answered alike by either name, from the entry of that device.
\<close>

theorem same_figures:
  assumes "reachable_store s" and "GetByMAC s m = Some d" and "GetIPByMAC s m = ip" and "ip \<noteq> []"
    and "contains_str m '':''" and "\<not> contains_str ip '':''" and "\<not> contains_str ip ''-''"
  shows "deviceMetric s m metric = deviceMetric s ip metric \<and> deviceMetric s m metric = switch_on (device_metrics d) metric"
proof -
  have l: "links_ok s" using reachable_store_ok [OF assms(1)] by (rule store_ok_parts(1))
  have "map_of (so_byMAC s) (NormalizeMAC m) = Some ip" using assms(3,4) by (auto simp: GetIPByMAC_def get_str_def split: option.splits)
  then have "map_of (so_byIP s) ip = Some (NormalizeMAC m)" using l assms(4) by (simp add: links_ok_def)
  moreover have "NormalizeMAC m \<noteq> []" "map_of (so_devices s) (NormalizeMAC m) = Some d"
    using assms(2) by (auto simp: GetByMAC_def Let_def split: if_splits)
  ultimately have "Get s ip = Some d" using assms(4) by (simp add: Get_def get_str_def)
  then show ?thesis using assms(2,5,6,7) by (simp add: deviceMetric_def)
qed

definition figure_store :: store where
  "figure_store = snd (Update 100 ''10.0.0.1'' (zero_device_stats\<lparr>ds_MAC := ''aa:bb'', ds_Uptime := 77\<rparr>) NewStore)"

lemma same_figures_witness: "deviceMetric figure_store ''AA:BB'' ''uptime'' = deviceMetric figure_store ''10.0.0.1'' ''uptime''"
proof -
  have "mac_arg (ds_MAC (zero_device_stats\<lparr>ds_MAC := ''aa:bb'', ds_Uptime := 77\<rparr>))" by code_simp
  then have r: "reachable_store figure_store" unfolding figure_store_def by (intro reachable_store.step [OF reachable_store.new] store_step.s_update)
  have "GetByMAC figure_store ''AA:BB'' \<noteq> None" by code_simp
  then obtain d where d: "GetByMAC figure_store ''AA:BB'' = Some d" by blast
  have "GetIPByMAC figure_store ''AA:BB'' = ''10.0.0.1''" "contains_str ''AA:BB'' '':''" "\<not> contains_str ''10.0.0.1'' '':''" "\<not> contains_str ''10.0.0.1'' ''-''"
    by code_simp+
  then show ?thesis using same_figures [OF r d] by blast
qed

text \<open>The states a device can be in, for the counts.\<close>

lemma status_class_cases: "status_class d \<in> {StatusOnline, StatusOffline, StatusUnknown}"
  by (auto simp: status_class_def)

lemma three_classes:
  assumes "a \<noteq> b" "b \<noteq> c" "a \<noteq> c" and "\<forall>x \<in> set xs. f x \<in> {a, b, c}"
  shows "length (filter (\<lambda>x. f x = a) xs) + length (filter (\<lambda>x. f x = b) xs) + length (filter (\<lambda>x. f x = c) xs) = length xs"
  using assms by (induction xs) auto

lemma counts_sum: "CountsByStatus s = (online, offline, unknown, all) \<Longrightarrow> online + offline + unknown = all"
  using three_classes [of StatusOnline StatusOffline StatusUnknown "ListAll s" status_class] status_class_cases
  by (auto simp: CountsByStatus_def Let_def)

text \<open>
  The counts the bridge reports add up. The number of all devices, as sent for the key without
  a state, is the sum of the numbers sent for online, offline and unknown, at any time and for
  every store.
\<close>

theorem reported_counts_add_up:
  "\<exists>online offline unknown.
     processKey marshal s ''wavecontrol.count[online]'' = Answer (nat_str online)
     \<and> processKey marshal s ''wavecontrol.count[offline]'' = Answer (nat_str offline)
     \<and> processKey marshal s ''wavecontrol.count[Unknown]'' = Answer (nat_str unknown)
     \<and> processKey marshal s ''wavecontrol.count[]'' = Answer (nat_str (online + offline + unknown))"
proof -
  obtain online offline unknown all where c: "CountsByStatus s = (online, offline, unknown, all)" by (cases "CountsByStatus s")
  have on: "processKey marshal s ''wavecontrol.count[online]'' = Answer (count_metric s [''online''])"
    and off: "processKey marshal s ''wavecontrol.count[offline]'' = Answer (count_metric s [''offline''])"
    and unk: "processKey marshal s ''wavecontrol.count[Unknown]'' = Answer (count_metric s [''Unknown''])"
    and all: "processKey marshal s ''wavecontrol.count[]'' = Answer (count_metric s [[]])"
    by (simp_all add: processKey_def trim_space_def is_space_def index_first_def index_last_def Let_def)
  have "to_lower ''online'' = ''online''" "to_lower ''offline'' = ''offline''" "to_lower ''Unknown'' = ''unknown''" by code_simp+
  then show ?thesis using c counts_sum [OF c] unfolding on off unk all by (auto simp: count_metric_def)
qed


section \<open>Combined signals\<close>

lemma log_powers: "log 10 (10 ^ n :: real) = real n" "log 10 (2 ^ n :: real) = real n * log 10 2"
  by (simp_all add: log_nat_power)

lemma log2_low: "3 \<le> 10 * log 10 (2 :: real)"
proof -
  have "log 10 (10 ^ 3 :: real) \<le> log 10 (2 ^ 10)" by (intro log_mono) simp_all
  then show ?thesis unfolding log_powers by simp
qed

lemma log2_high: "10 * log 10 (2 :: real) < 7 / 2"
proof -
  have "log 10 (2 ^ 20 :: real) < log 10 (10 ^ 7)" by (intro log_less) simp_all
  then show ?thesis unfolding log_powers by simp
qed

lemma go_round_lower: "of_int n \<le> x \<Longrightarrow> n \<le> go_round x"
  unfolding go_round_def by (auto simp: le_floor_iff) linarith+

lemma go_round_upper: "x < of_int n + 1 / 2 \<Longrightarrow> go_round x \<le> n"
  unfolding go_round_def by (auto simp: floor_le_iff) linarith+

lemma two_signals: "a < 0 \<Longrightarrow> b < 0 \<Longrightarrow> combineSignals [a, b] = go_round (10 * log 10 (10 powr (of_int a / 10) + 10 powr (of_int b / 10)))"
  by (simp add: combineSignals_def linear_sum_def)

lemma power_bounds:
  fixes a b :: int
  assumes "b \<le> a"
  defines "s \<equiv> 10 * log 10 (10 powr (of_int a / 10) + 10 powr (of_int b / 10) :: real)"
  shows "of_int a \<le> s" and "s \<le> of_int a + 10 * log 10 2" and "a = b \<longrightarrow> s = of_int a + 10 * log 10 2"
proof -
  let ?p = "10 powr (of_int a / 10) :: real" and ?q = "10 powr (of_int b / 10) :: real"
  have pos: "0 < ?p" "0 < ?q" "?q \<le> ?p" using assms(1) by simp_all
  have "log 10 ?p \<le> log 10 (?p + ?q)" using pos by (intro log_mono) simp_all
  then show "of_int a \<le> s" by (simp add: s_def)
  have two: "log 10 (2 * ?p) = log 10 2 + of_int a / 10" by (subst log_mult) simp_all
  have "log 10 (?p + ?q) \<le> log 10 (2 * ?p)" using pos by (intro log_mono add_pos_pos) simp_all
  then show "s \<le> of_int a + 10 * log 10 2" using two by (simp add: s_def)
  show "a = b \<longrightarrow> s = of_int a + 10 * log 10 2" using two by (auto simp: s_def mult_2 [symmetric])
qed

text \<open>
  Two chains combine to at least the stronger one and at most three decibels more. For two
  received levels below zero the combined one lies between their maximum and the maximum plus
  three, and two equal levels give exactly three decibels more, as documented for -63 and -60.
\<close>

theorem combined_signal_bounds:
  assumes "a < 0" and "b < 0"
  shows "max a b \<le> combineSignals [a, b] \<and> combineSignals [a, b] \<le> max a b + 3 \<and> combineSignals [a, a] = a + 3"
proof -
  have pair: "x \<le> combineSignals [x, y] \<and> combineSignals [x, y] \<le> x + 3" if "y \<le> x" "x < 0" for x y
    using power_bounds [OF that(1)] log2_high that two_signals [of x y] go_round_lower go_round_upper [of _ "x + 3"] by force
  have sym: "combineSignals [x, y] = combineSignals [y, x]" if "x < 0" "y < 0" for x y
    using two_signals that by (simp add: add.commute)
  have "a + 3 \<le> combineSignals [a, a]"
    using power_bounds(3) [of a a] log2_low two_signals [OF assms(1) assms(1)] go_round_lower [of "a + 3"] by force
  then show ?thesis using pair [of b a] pair [of a b] pair [of a a] sym [of a b] assms by (cases "b \<le> a") auto
qed

lemma combined_signal_bounds_witness: "combineSignals [-63, -63] = -60"
  using combined_signal_bounds [of "-63" "-63"] by simp

end
