(* ===== verification/ConfigBackup.thy ===== *)
theory ConfigBackup imports Codec begin

text \<open>
  The files of configuration backups (src/internal/configbackup/configbackup.go): names and
  directories below the backup root, writing without overwriting, and reading an existing backup.
  What the operating system answers (absolute paths, links, the kind of a file) is a parameter.
\<close>

section \<open>Paths\<close>

text \<open>filepath.Join of two non-empty paths, and the components of a cleaned path.\<close>

definition file_join :: "string \<Rightarrow> string \<Rightarrow> string" where
  "file_join a b = path_clean (a @ ''/'' @ b)"

definition components :: "string \<Rightarrow> string list" where
  "components p = (if p = ''.'' then [] else filter (\<lambda>c. c \<noteq> []) (path_parts p))"

fun strip_common :: "string list \<Rightarrow> string list \<Rightarrow> string list \<times> string list" where
  "strip_common (x # xs) (y # ys) = (if x = y then strip_common xs ys else (x # xs, y # ys))"
| "strip_common xs ys = (xs, ys)"

text \<open>filepath.Rel.\<close>

definition path_rel :: "string \<Rightarrow> string \<Rightarrow> string option" where
  "path_rel basepath targpath =
     (let b = path_clean basepath; t = path_clean targpath in
      if b = t then Some ''.''
      else if is_abs b \<noteq> is_abs t then None
      else case strip_common (components b) (components t) of (bs, ts) \<Rightarrow>
        (if bs \<noteq> [] \<and> hd bs = ''..'' then None else Some (join ''/'' (replicate (length bs) ''..'' @ ts))))"

definition within_root :: "string \<Rightarrow> string \<Rightarrow> bool" where
  "within_root rootdir candidate =
     (case path_rel rootdir candidate of
        None \<Rightarrow> False
      | Some rel \<Rightarrow> rel = ''.'' \<or> rel \<noteq> ''..'' \<and> \<not> prefix ''../'' rel \<and> \<not> is_abs rel)"

section \<open>Names\<close>

definition safe_char :: "char \<Rightarrow> bool" where
  "safe_char c \<longleftrightarrow>
     list_ex (\<lambda>(lo, hi). lo \<le> c \<and> c \<le> hi) [(CHR ''a'', CHR ''z''), (CHR ''A'', CHR ''Z''), (CHR ''0'', CHR ''9'')] \<or> c \<in> set ''._-''"

text \<open>Runs of other characters become one dash; \<open>dash\<close> says that the last one written is such a dash.\<close>

fun safe_runs :: "bool \<Rightarrow> string \<Rightarrow> string" where
  "safe_runs dash [] = []"
| "safe_runs dash (c # cs) =
     (if safe_char c then c # safe_runs False cs else if dash then safe_runs True cs else CHR ''-'' # safe_runs True cs)"

definition trim_chars :: "string \<Rightarrow> string \<Rightarrow> string" where
  "trim_chars cutset s = rev (dropWhile (\<lambda>c. c \<in> set cutset) (rev (dropWhile (\<lambda>c. c \<in> set cutset) s)))"

definition SafeName :: "string \<Rightarrow> string" where
  "SafeName value = trim_chars ''.-_ '' (safe_runs False (trim_space value))"

section \<open>Directories\<close>

record file_info =
  fi_regular :: bool
  fi_dir :: bool
  fi_size :: int

record os_tools =
  os_abs :: "string \<Rightarrow> string option"
  os_mkdir_all :: "string \<Rightarrow> bool"
  os_chmod :: "string \<Rightarrow> bool"
  os_eval_symlinks :: "string \<Rightarrow> string option"
  os_stat :: "string \<Rightarrow> file_info option"
  os_read :: "string \<Rightarrow> string option"

datatype backup_error = RootEmpty | ResolveRoot | CreateRoot | SecureRoot | CanonRoot | StatRoot | RootNotDir
  | BadComponent string | DirEscapes | CreateDir | SecureDir
  | PathEmpty | ResolvePath | PathEscapes | BadExtension | StatPath | NotRegular
  | TooLarge | OpenFailed | NoUniqueName | CreateFailed | WriteFailed | CloseFailed

definition EnsureRoot :: "os_tools \<Rightarrow> string \<Rightarrow> backup_error + string" where
  "EnsureRoot t root0 =
     (let rootdir = trim_space root0 in
      if rootdir = [] then Inl RootEmpty
      else case os_abs t rootdir of
             None \<Rightarrow> Inl ResolveRoot
           | Some abspath \<Rightarrow>
               (if \<not> os_mkdir_all t abspath then Inl CreateRoot
                else if \<not> os_chmod t abspath then Inl SecureRoot
                else case os_eval_symlinks t abspath of
                       None \<Rightarrow> Inl CanonRoot
                     | Some realpath \<Rightarrow>
                         (case os_stat t realpath of
                            None \<Rightarrow> Inl StatRoot
                          | Some info \<Rightarrow> if fi_dir info then Inr realpath else Inl RootNotDir)))"

definition bad_component :: "string \<Rightarrow> bool" where
  "bad_component part \<longleftrightarrow> part = [] \<or> part = ''.'' \<or> part = ''..'' \<or> path_base part \<noteq> part \<or> contains_any part [CHR ''/'', CHR 0x5C]"

definition chmod_below :: "os_tools \<Rightarrow> string \<Rightarrow> string list \<Rightarrow> bool" where
  "chmod_below t rootdir parts = list_all (\<lambda>i. os_chmod t (foldl file_join rootdir (take i parts))) [1..<Suc (length parts)]"

definition EnsureDir :: "os_tools \<Rightarrow> string \<Rightarrow> string list \<Rightarrow> backup_error + string" where
  "EnsureDir t rootdir parts =
     (case EnsureRoot t rootdir of
        Inl e \<Rightarrow> Inl e
      | Inr realRoot \<Rightarrow>
          (let clean = map trim_space parts in
           case find bad_component clean of
             Some part \<Rightarrow> Inl (BadComponent part)
           | None \<Rightarrow>
               (let dir = path_clean (join ''/'' (realRoot # clean)) in
                if \<not> within_root realRoot dir then Inl DirEscapes
                else if \<not> os_mkdir_all t dir then Inl CreateDir
                else if \<not> chmod_below t realRoot clean then Inl SecureDir else Inr dir)))"

section \<open>Reading\<close>

definition maxReadSize :: int where
  "maxReadSize = 64 * 2 ^ 20"

definition ResolveExisting :: "os_tools \<Rightarrow> string \<Rightarrow> string \<Rightarrow> backup_error + string \<times> file_info" where
  "ResolveExisting t rootdir requested0 =
     (case EnsureRoot t rootdir of
        Inl e \<Rightarrow> Inl e
      | Inr realRoot \<Rightarrow>
          (let requested = trim_space requested0 in
           if requested = [] then Inl PathEmpty
           else
             (let abspath = (if is_abs requested then path_clean requested else file_join realRoot (path_clean requested)) in
              case os_eval_symlinks t abspath of
                None \<Rightarrow> Inl ResolvePath
              | Some realpath \<Rightarrow>
                  (if \<not> within_root realRoot realpath then Inl PathEscapes
                   else if \<not> equal_fold (path_ext realpath) ''.cfg'' then Inl BadExtension
                   else case os_stat t realpath of
                          None \<Rightarrow> Inl StatPath
                        | Some info \<Rightarrow> if fi_regular info then Inr (realpath, info) else Inl NotRegular))))"

text \<open>At most one byte more than the limit is read.\<close>

definition ReadExisting :: "os_tools \<Rightarrow> string \<Rightarrow> string \<Rightarrow> backup_error + string \<times> string \<times> file_info" where
  "ReadExisting t rootdir requested =
     (case ResolveExisting t rootdir requested of
        Inl e \<Rightarrow> Inl e
      | Inr (realpath, info) \<Rightarrow>
          (if fi_size info > maxReadSize then Inl TooLarge
           else case os_read t realpath of
                  None \<Rightarrow> Inl OpenFailed
                | Some content \<Rightarrow>
                    (let data = take (nat (maxReadSize + 1)) content in
                     if int (length data) > maxReadSize then Inl TooLarge else Inr (data, realpath, info))))"

section \<open>Writing\<close>

type_synonym files = "(string, string) gomap"

text \<open>
  What happens to a file that could be created: all is written, or the write or the close fails
  and the file is removed or stays with what was written so far.
\<close>

datatype write_outcome = CreateError | Written | WriteError "string option" | CloseError "string option"

definition backup_name :: "string \<Rightarrow> string \<Rightarrow> nat \<Rightarrow> string" where
  "backup_name base stamp attempt =
     (if attempt > 0 then base @ ''_'' @ stamp @ ''_'' @ nat_str attempt @ ''.cfg'' else base @ ''_'' @ stamp @ ''.cfg'')"

definition leave_file :: "string \<Rightarrow> string option \<Rightarrow> files \<Rightarrow> files" where
  "leave_file path rest fs = (case rest of None \<Rightarrow> fs | Some d \<Rightarrow> AList.update path d fs)"

fun write_loop :: "(nat \<Rightarrow> string) \<Rightarrow> (nat \<Rightarrow> write_outcome) \<Rightarrow> string \<Rightarrow> string \<Rightarrow> string \<Rightarrow> nat \<Rightarrow> nat \<Rightarrow> files \<Rightarrow> files \<times> (backup_error + string)" where
  "write_loop stamp outcome dir base data 0 attempt fs = (fs, Inl NoUniqueName)"
| "write_loop stamp outcome dir base data (Suc left) attempt fs =
     (let path = file_join dir (backup_name base (stamp attempt) attempt) in
      if has_key fs path then write_loop stamp outcome dir base data left (Suc attempt) fs
      else (case outcome attempt of
              CreateError \<Rightarrow> (fs, Inl CreateFailed)
            | WriteError rest \<Rightarrow> (leave_file path rest fs, Inl WriteFailed)
            | CloseError rest \<Rightarrow> (leave_file path rest fs, Inl CloseFailed)
            | Written \<Rightarrow> (AList.update path data fs, Inr path)))"

definition Write :: "(nat \<Rightarrow> string) \<Rightarrow> (nat \<Rightarrow> write_outcome) \<Rightarrow> string \<Rightarrow> string \<Rightarrow> string \<Rightarrow> files \<Rightarrow> files \<times> (backup_error + string)" where
  "Write stamp outcome dir baseName data fs =
     (let base = (if SafeName baseName = [] then ''device'' else SafeName baseName) in write_loop stamp outcome dir base data 10 0 fs)"

section \<open>What lies below the rootdir\<close>

definition plain_part :: "string \<Rightarrow> bool" where
  "plain_part p \<longleftrightarrow> p \<noteq> [] \<and> p \<noteq> ''.'' \<and> p \<noteq> ''..'' \<and> CHR ''/'' \<notin> set p"

definition abs_path :: "string list \<Rightarrow> string" where
  "abs_path ps = ''/'' @ join ''/'' ps"

lemma plain_parts_split: "list_all plain_part ps \<Longrightarrow> path_parts (join ''/'' ps) = (if ps = [] then [[]] else ps)"
  unfolding path_parts_def by (intro split_on_join) (auto simp: list_all_iff plain_part_def)

lemma abs_path_parts: "list_all plain_part ps \<Longrightarrow> path_parts (abs_path ps) = [] # (if ps = [] then [[]] else ps)"
  using plain_parts_split [of ps] by (simp add: abs_path_def path_parts_def)

lemma is_abs_path [simp]: "is_abs (abs_path ps)"
  by (simp add: is_abs_def abs_path_def)

lemma fold_clean_plain: "list_all plain_part ps \<Longrightarrow> fold (clean_part r) ps kept = rev ps @ kept"
  by (rule fold_clean_walked) (auto simp: list_all_iff plain_part_def)

lemma path_clean_abs: "list_all plain_part ps \<Longrightarrow> path_clean (abs_path ps) = abs_path ps"
  using fold_clean_plain [of ps True "[]"]
  by (auto simp: path_clean_def Let_def abs_path_parts clean_part_def split: if_splits) (simp_all add: abs_path_def)

lemma components_abs: "list_all plain_part ps \<Longrightarrow> components (abs_path ps) = ps"
proof -
  assume ps: "list_all plain_part ps"
  then have "filter (\<lambda>c. c \<noteq> []) ps = ps" by (auto simp: filter_id_conv list_all_iff plain_part_def)
  moreover have "abs_path ps \<noteq> ''.''" by (simp add: abs_path_def)
  ultimately show ?thesis using ps by (simp add: components_def abs_path_parts)
qed

lemma strip_common_spec:
  "strip_common xs ys = (as, bs) \<Longrightarrow>
     \<exists>c. xs = c @ as \<and> ys = c @ bs \<and> (as = [] \<or> bs = [] \<or> hd as \<noteq> hd bs)"
proof (induction xs ys rule: strip_common.induct)
  case (1 x xs y ys)
  show ?case
  proof (cases "x = y")
    case True
    then obtain c where "xs = c @ as" "ys = c @ bs" "as = [] \<or> bs = [] \<or> hd as \<noteq> hd bs" using 1 by auto
    then show ?thesis using True by (intro exI [of _ "x # c"]) simp
  qed (use 1 in auto)
qed auto

lemma abs_path_inject: "list_all plain_part ps \<Longrightarrow> list_all plain_part qs \<Longrightarrow> abs_path ps = abs_path qs \<longleftrightarrow> ps = qs"
  using components_abs by metis

lemma up_path: "\<exists>s. join ''/'' (''..'' # ps) = ''..'' @ s \<and> (s = [] \<or> prefix ''/'' s)"
  by (cases ps) auto

text \<open>For cleaned absolute paths, lying within a root is a matter of components.\<close>

lemma within_components:
  assumes "list_all plain_part rs" and "list_all plain_part cs"
  shows "within_root (abs_path rs) (abs_path cs) \<longleftrightarrow> prefix rs cs"
proof (cases "rs = cs")
  case True
  then show ?thesis using assms by (simp add: within_root_def path_rel_def path_clean_abs)
next
  case False
  obtain as bs where s: "strip_common rs cs = (as, bs)" by (cases "strip_common rs cs")
  then obtain c where c: "rs = c @ as" "cs = c @ bs" "as = [] \<or> bs = [] \<or> hd as \<noteq> hd bs" using strip_common_spec by blast
  have plain: "list_all plain_part as" "list_all plain_part bs" using assms c by simp_all
  have head: "\<not> (as \<noteq> [] \<and> hd as = ''..'')" using plain(1) by (cases as) (simp_all add: plain_part_def)
  have rel: "path_rel (abs_path rs) (abs_path cs) = Some (join ''/'' (replicate (length as) ''..'' @ bs))"
    using False assms head s by (simp add: path_rel_def path_clean_abs abs_path_inject components_abs Let_def)
  show ?thesis
  proof (cases as)
    case Nil
    then have "bs \<noteq> []" using False c by auto
    have "walked (join ''/'' bs)" using plain(2) \<open>bs \<noteq> []\<close>
      by (simp add: walked_def plain_parts_split) (auto simp: list_all_iff plain_part_def)
    then have w: "\<not> is_abs (join ''/'' bs)" "\<not> prefix ''../'' (join ''/'' bs)" by (rule walked_relative)+
    have "join ''/'' bs \<noteq> ''..''"
    proof
      assume "join ''/'' bs = ''..''"
      then have "path_parts (join ''/'' bs) = [''..'']" by (simp add: path_parts_def)
      then show False using plain(2) \<open>bs \<noteq> []\<close> by (simp add: plain_parts_split plain_part_def)
    qed
    then show ?thesis using w Nil rel c by (simp add: within_root_def)
  next
    case (Cons a as')
    have "\<not> prefix rs cs" using c Cons False by (cases bs) (auto simp: prefix_def)
    moreover obtain s where "join ''/'' (''..'' # replicate (length as') ''..'' @ bs) = ''..'' @ s" "s = [] \<or> prefix ''/'' s" using up_path by blast
    ultimately show ?thesis using rel Cons by (auto simp: within_root_def prefix_def)
  qed
qed

text \<open>Resolving links gives the cleaned absolute path of a file, as documented for absolute paths.\<close>

definition links_clean :: "os_tools \<Rightarrow> bool" where
  "links_clean t \<longleftrightarrow> (\<forall>p q. os_eval_symlinks t p = Some q \<longrightarrow> (\<exists>ps. q = abs_path ps \<and> list_all plain_part ps))"

lemma EnsureRoot_clean: "links_clean t \<Longrightarrow> EnsureRoot t rootdir = Inr r \<Longrightarrow> \<exists>ps. r = abs_path ps \<and> list_all plain_part ps"
  by (auto simp: EnsureRoot_def links_clean_def Let_def split: if_splits option.splits)


definition demo_os :: os_tools where
  "demo_os = \<lparr>os_abs = Some, os_mkdir_all = (\<lambda>_. True), os_chmod = (\<lambda>_. True),
     os_eval_symlinks = (\<lambda>p. if p = ''/var/b'' then Some (abs_path [''var'', ''b'']) else if p = ''/var/b/x.cfg'' then Some (abs_path [''var'', ''b'', ''x.cfg'']) else None),
     os_stat = (\<lambda>p. Some \<lparr>fi_regular = (p \<noteq> ''/var/b''), fi_dir = (p = ''/var/b''), fi_size = 3\<rparr>), os_read = (\<lambda>_. Some ''abc'')\<rparr>"

lemma demo_paths:
  "abs_path [''var'', ''b''] = ''/var/b''" "abs_path [''var'', ''b'', ''x.cfg''] = ''/var/b/x.cfg''"
  "trim_space ''/var/b'' = ''/var/b''" "trim_space '' x.cfg'' = ''x.cfg''" "is_abs ''x.cfg'' = False"
  "file_join ''/var/b'' (path_clean ''x.cfg'') = ''/var/b/x.cfg''"
  "within_root ''/var/b'' ''/var/b/x.cfg''" "equal_fold (path_ext ''/var/b/x.cfg'') ''.cfg''"
  by code_simp+


text \<open>Writing.\<close>

lemma write_loop_spec:
  "write_loop stamp outcome dir base data n attempt fs = (fs', Inr path) \<Longrightarrow>
     \<not> has_key fs path \<and> fs' = AList.update path data fs \<and>
     (\<exists>i. attempt \<le> i \<and> i < attempt + n \<and> outcome i = Written \<and> path = file_join dir (backup_name base (stamp i) i))"
proof (induction n arbitrary: attempt)
  case (Suc n)
  show ?case
  proof (cases "has_key fs (file_join dir (backup_name base (stamp attempt) attempt))")
    case True
    then have "write_loop stamp outcome dir base data n (Suc attempt) fs = (fs', Inr path)" using Suc.prems by (simp add: Let_def)
    from Suc.IH [OF this] show ?thesis by auto (metis Suc_leD add_Suc_right)
  next
    case False
    then show ?thesis using Suc.prems by (auto simp: Let_def split: write_outcome.splits)
  qed
qed simp

lemma write_loop_keeps:
  "fst (write_loop stamp outcome dir base data n attempt fs) = fs'' \<Longrightarrow> map_of fs k = Some v \<Longrightarrow> map_of fs'' k = Some v"
  by (induction n arbitrary: attempt)
     (auto simp: Let_def leave_file_def has_key_def update_conv' split: write_outcome.splits option.splits if_splits)

lemma safe_runs_safe: "list_all safe_char (safe_runs d cs)"
  by (induction d cs rule: safe_runs.induct) (auto simp: safe_char_def)

lemma trim_chars_sub: "set (trim_chars cutset s) \<subseteq> set s"
  unfolding trim_chars_def by (auto dest!: set_dropWhileD)

lemma SafeName_safe: "list_all safe_char (SafeName v)"
  using safe_runs_safe [of False "trim_space v"] trim_chars_sub by (fastforce simp: SafeName_def list_all_iff)

end
