(* ===== verification/WaveParse.thy ===== *)
theory WaveParse imports StatsHistory begin

text \<open>
  Reading the statistics of a Wave or LTU radio (src/internal/poller/wave_parse.go, wave_band.go,
  wave_telemetry.go and the accessors of settings.go): from decoded JSON to the records of the live
  store, field by field, with the assignment of radios to band slots. Decoding the JSON text is a
  parameter; numbers are exact, and a number outside int64, whose conversion Go leaves to the
  implementation, is truncated like any other.
\<close>

section \<open>Decoded JSON\<close>

datatype jval = Null | Boolean bool | Number f64 | Text string | Items "jval list" | Members "(string \<times> jval) list"

type_synonym obj = "(string, jval) gomap"

definition getFloat :: "obj \<Rightarrow> string \<Rightarrow> f64" where
  "getFloat m key = (case map_of m key of Some (Number x) \<Rightarrow> x | _ \<Rightarrow> Fin 0)"

definition getString :: "obj \<Rightarrow> string \<Rightarrow> string" where
  "getString m key = (case map_of m key of Some (Text s) \<Rightarrow> s | _ \<Rightarrow> [])"

definition getBool :: "obj \<Rightarrow> string \<Rightarrow> bool" where
  "getBool m key = (case map_of m key of Some (Boolean b) \<Rightarrow> b | _ \<Rightarrow> False)"

text \<open>The conversion of a float64 to an integer type cuts off its fraction.\<close>

fun to_int :: "f64 \<Rightarrow> int" where
  "to_int (Fin r) = (if r < 0 then - \<lfloor>- r\<rfloor> else \<lfloor>r\<rfloor>)"
| "to_int _ = 0"

fun times1000 :: "f64 \<Rightarrow> f64" where
  "times1000 (Fin r) = Fin (r * 1000)"
| "times1000 x = x"

definition get_int :: "obj \<Rightarrow> string \<Rightarrow> int" where
  "get_int m key = to_int (getFloat m key)"

definition sub_obj :: "obj \<Rightarrow> string \<Rightarrow> obj option" where
  "sub_obj m key = (case map_of m key of Some (Members o') \<Rightarrow> Some o' | _ \<Rightarrow> None)"

definition sub_arr :: "obj \<Rightarrow> string \<Rightarrow> jval list option" where
  "sub_arr m key = (case map_of m key of Some (Items xs) \<Rightarrow> Some xs | _ \<Rightarrow> None)"

text \<open>What is done with a part that is there, and nothing otherwise.\<close>

definition with_obj :: "obj \<Rightarrow> string \<Rightarrow> (obj \<Rightarrow> 'a \<Rightarrow> 'a) \<Rightarrow> 'a \<Rightarrow> 'a" where
  "with_obj m key f x = (case sub_obj m key of None \<Rightarrow> x | Some o' \<Rightarrow> f o' x)"

text \<open>The loops over an array skip what is not an object, or not a number.\<close>

definition objects :: "jval list \<Rightarrow> obj list" where
  "objects xs = List.map_filter (\<lambda>v. case v of Members o' \<Rightarrow> Some o' | _ \<Rightarrow> None) xs"

definition objects_at :: "obj \<Rightarrow> string \<Rightarrow> obj list" where
  "objects_at m key = (case sub_arr m key of None \<Rightarrow> [] | Some xs \<Rightarrow> objects xs)"

definition ints_at :: "obj \<Rightarrow> string \<Rightarrow> int list" where
  "ints_at m key =
     (case sub_arr m key of None \<Rightarrow> []
      | Some xs \<Rightarrow> List.map_filter (\<lambda>v. case v of Number x \<Rightarrow> Some (to_int x) | _ \<Rightarrow> None) xs)"

section \<open>Combined signal\<close>

definition CombineSignals :: "int list \<Rightarrow> int" where
  "CombineSignals levels =
     (case levels of
        [] \<Rightarrow> 0
      | [c] \<Rightarrow> c
      | _ \<Rightarrow>
          (case filter (\<lambda>c. c < 0) levels of
             [] \<Rightarrow> 0
           | [c] \<Rightarrow> c
           | valid \<Rightarrow>
               (let x = 10 * log 10 (sum_list (map (\<lambda>d. 10 powr (of_int d / 10)) valid)) in
                if x < 0 then - \<lfloor>1 / 2 - x\<rfloor> else \<lfloor>x + 1 / 2\<rfloor>)))"

section \<open>Parts of a radio\<close>

definition parseLinkScore :: "obj \<Rightarrow> link_score" where
  "parseLinkScore ls = \<lparr>ls_DL = get_int ls ''dl'', ls_UL = get_int ls ''ul'', ls_DL2 = get_int ls ''dl2'',
     ls_UL2 = get_int ls ''ul2'', ls_DL24 = get_int ls ''dl24'', ls_UL24 = get_int ls ''ul24''\<rparr>"

text \<open>Kilobits to bits; the first key unless its value is zero.\<close>

definition kbps :: "obj \<Rightarrow> string \<Rightarrow> int" where
  "kbps m key = to_int (times1000 (getFloat m key))"

definition kbps_or :: "obj \<Rightarrow> string \<Rightarrow> string \<Rightarrow> int" where
  "kbps_or m key other = (if \<not> feq (getFloat m key) (Fin 0) then kbps m key else kbps m other)"

definition parseCapacity :: "obj \<Rightarrow> capacity_stats" where
  "parseCapacity c = \<lparr>cap_DL = kbps_or c ''dl'' ''tx'', cap_UL = kbps_or c ''ul'' ''rx'', cap_Combined = kbps c ''combined'',
     cap_DLIdeal = kbps_or c ''dlIdeal'' ''txIdeal'', cap_ULIdeal = kbps_or c ''ulIdeal'' ''rxIdeal'',
     cap_CombinedIdeal = kbps c ''combinedIdeal''\<rparr>"

definition parse_afc_regulatory :: "obj \<Rightarrow> afc_regulatory" where
  "parse_afc_regulatory rm = \<lparr>afcreg_ChannelWidthMHz = get_int rm ''channelWidth'',
     afcreg_Channels = map (\<lambda>c. \<lparr>afcch_CenterMHz = get_int c ''center'', afcch_MaxEIRPDbm = get_int c ''maxEirp''\<rparr>) (objects_at rm ''channels''),
     afcreg_FreqRanges = map (\<lambda>f. \<lparr>afcfr_StartMHz = get_int f ''start'', afcfr_EndMHz = get_int f ''end''\<rparr>) (objects_at rm ''freqRanges'')\<rparr>"

definition parseAFCStats :: "obj \<Rightarrow> afc_stats option" where
  "parseAFCStats am =
     (let afc = \<lparr>afc_Label = getString am ''label'', afc_Status = getString am ''status'', afc_Type = getString am ''type'',
                 afc_Detail = getString am ''detail'', afc_Reason = getString am ''reason'', afc_ExpiryMs = get_int am ''expiry'',
                 afc_Regulatory = map parse_afc_regulatory (objects_at am ''regulatory'')\<rparr>
      in if afc_Label afc = [] \<and> afc_Status afc = [] \<and> afc_Type afc = [] \<and> afc_ExpiryMs afc = 0 \<and> afc_Regulatory afc = []
         then None else Some afc)"

definition maxAirViewUtilizationPoints :: nat where "maxAirViewUtilizationPoints = 512"

fun airview_loop :: "jval list \<Rightarrow> airview_point list \<Rightarrow> airview_point list" where
  "airview_loop [] out = out"
| "airview_loop (r # rs) out =
     (if maxAirViewUtilizationPoints \<le> length out then out
      else case r of
             Members m \<Rightarrow>
               (if get_int m ''frequency'' = 0 then airview_loop rs out
                else airview_loop rs (out @ [\<lparr>av_FrequencyMHz = get_int m ''frequency'', av_UsagePct = get_int m ''usage''\<rparr>]))
           | _ \<Rightarrow> airview_loop rs out)"

definition parseAirViewUtilization :: "jval list \<Rightarrow> airview_point list" where
  "parseAirViewUtilization raw = airview_loop raw []"

text \<open>The share of the air: each figure from the part "common" if it is there, else from the object itself.\<close>

definition parse_utilization :: "obj \<Rightarrow> utilization" where
  "parse_utilization cu =
     (let from_part = (\<lambda>key. case sub_obj cu ''common'' of
                               Some common \<Rightarrow> if has_key common key then getFloat common key else getFloat cu key
                             | None \<Rightarrow> getFloat cu key)
      in \<lparr>util_DL = from_part ''dl'', util_UL = from_part ''ul'', util_Interference = from_part ''interference''\<rparr>)"

definition parse_frequency :: "obj \<Rightarrow> int" where
  "parse_frequency freq = (if get_int freq ''tx'' = 0 then get_int freq ''center'' else get_int freq ''tx'')"

definition parseRadioStats :: "obj \<Rightarrow> radio_stats" where
  "parseRadioStats rm =
     (let r0 = zero_radio_stats\<lparr>radio_ID := getString rm ''id'', radio_LinkState := getString rm ''linkState''\<rparr>;
          r1 = with_obj rm ''frequency'' (\<lambda>f r. r\<lparr>radio_Frequency := parse_frequency f\<rparr>) r0;
          r2 = with_obj rm ''channelWidth'' (\<lambda>c r. r\<lparr>radio_ChannelWidth := get_int c ''tx''\<rparr>) r1;
          r3 = with_obj rm ''outputPower'' (\<lambda>p r. r\<lparr>radio_TxPower := get_int p ''conducted'', radio_TxPowerEIRP := get_int p ''eirp''\<rparr>) r2;
          r4 = with_obj rm ''antenna'' (\<lambda>a r. r\<lparr>radio_AntennaName := getString a ''name'', radio_AntennaGain := get_int a ''gain''\<rparr>) r3;
          r5 = (if get_int rm ''noiseFloor'' \<noteq> 0 then r4\<lparr>radio_NoiseFloor := get_int rm ''noiseFloor''\<rparr> else r4);
          r6 = r5\<lparr>radio_DLRatio := get_int rm ''dlRatio'', radio_FrameLength := getFloat rm ''frameLength'',
                  radio_RxEfficiency := getFloat rm ''rxEfficiency''\<rparr>;
          r7 = with_obj rm ''linkQuality''
                 (\<lambda>lq r. let r' = with_obj lq ''capacity'' (\<lambda>c r. r\<lparr>radio_Capacity := Some (parseCapacity c)\<rparr>) r in
                         if get_int lq ''noiseFloor'' \<noteq> 0 \<and> radio_NoiseFloor r' = 0
                         then r'\<lparr>radio_NoiseFloor := get_int lq ''noiseFloor''\<rparr> else r') r6;
          r8 = with_obj rm ''channelUtilization'' (\<lambda>cu r. r\<lparr>radio_Utilization := Some (parse_utilization cu)\<rparr>) r7;
          r9 = r8\<lparr>radio_GPSSyncState := get_int rm ''gpsSyncState''\<rparr>;
          r10 = with_obj rm ''dfs''
                  (\<lambda>d r. r\<lparr>radio_DFS := Some \<lparr>dfs_Enabled = getBool d ''enabled'', dfs_CACDuration = get_int d ''cacDuration'',
                                              dfs_CACRemaining = get_int d ''cacRemaining''\<rparr>\<rparr>) r9
      in with_obj rm ''afc'' (\<lambda>a r. r\<lparr>radio_AFC := parseAFCStats a\<rparr>) r10)"

section \<open>A peer's view of a radio\<close>

definition parse_histogram :: "obj \<Rightarrow> peer_radio_stats \<Rightarrow> peer_radio_stats" where
  "parse_histogram sh rs =
     (if ints_at sh ''histogram'' \<noteq> []
      then rs\<lparr>pr_SignalHistogram := Some \<lparr>hist_Histogram = ints_at sh ''histogram'', hist_MinSignal = get_int sh ''minSignal'',
                hist_MaxSignal = get_int sh ''maxSignal'', hist_Period = get_int sh ''period''\<rparr>\<rparr> else rs)"

definition parse_mcs :: "obj \<Rightarrow> mcs_stats" where
  "parse_mcs m = \<lparr>mcs_TxIdx = get_int m ''txIdx'', mcs_RxIdx = get_int m ''rxIdx'', mcs_TxLabel = getString m ''txLabel'',
     mcs_RxLabel = getString m ''rxLabel'', mcs_TxRate = get_int m ''txRate'', mcs_RxRate = get_int m ''rxRate'',
     mcs_TxIdxIdeal = get_int m ''txIdxIdeal'', mcs_RxIdxIdeal = get_int m ''rxIdxIdeal''\<rparr>"

definition parse_link_quality :: "obj \<Rightarrow> peer_radio_stats \<Rightarrow> peer_radio_stats" where
  "parse_link_quality lq rs =
     (let r1 = rs\<lparr>pr_Signal := get_int lq ''signal'', pr_SignalDay := get_int lq ''signalDay'', pr_IdealSignal := get_int lq ''idealSignal'',
                  pr_NoiseFloor := get_int lq ''noiseFloor'', pr_SignalPerChain := ints_at lq ''signalPerChain''\<rparr>;
          r2 = with_obj lq ''signalHistogram'' parse_histogram r1;
          r3 = with_obj lq ''cinr'' (\<lambda>c r. r\<lparr>pr_CINR := Some \<lparr>cinr_DL = get_int c ''dl'', cinr_UL = get_int c ''ul''\<rparr>\<rparr>) r2;
          r4 = with_obj lq ''mcs'' (\<lambda>m r. r\<lparr>pr_MCS := Some (parse_mcs m)\<rparr>) r3;
          r5 = with_obj lq ''airtime'' (\<lambda>a r. r\<lparr>pr_AirtimeDL := getFloat a ''dl'', pr_AirtimeUL := getFloat a ''ul''\<rparr>) r4;
          r6 = with_obj lq ''capacity'' (\<lambda>c r. r\<lparr>pr_Capacity := Some (parseCapacity c)\<rparr>) r5
      in with_obj lq ''linkScore'' (\<lambda>l r. r\<lparr>pr_LinkScore := Some (parseLinkScore l)\<rparr>) r6)"

text \<open>The difference of signal and noise, where both are known.\<close>

definition snr_of :: "int \<Rightarrow> int \<Rightarrow> int \<Rightarrow> int" where
  "snr_of combined signal noise =
     (let sig = (if combined = 0 then signal else combined) in if noise \<noteq> 0 \<and> sig \<noteq> 0 then sig - noise else 0)"

definition parsePeerRadioStats :: "obj \<Rightarrow> peer_radio_stats" where
  "parsePeerRadioStats lm =
     (let r0 = zero_peer_radio_stats\<lparr>pr_ID := getString lm ''id'', pr_Active := getBool lm ''active'', pr_Connected := getBool lm ''connected'',
                 pr_LinkState := getString lm ''linkState'', pr_ConnectionTime := get_int lm ''connectionTime''\<rparr>;
          r1 = with_obj lm ''linkQuality'' parse_link_quality r0;
          r2 = (if 1 < length (pr_SignalPerChain r1) then r1\<lparr>pr_SignalCombined := CombineSignals (pr_SignalPerChain r1)\<rparr>
                else if pr_Signal r1 \<noteq> 0 then r1\<lparr>pr_SignalCombined := pr_Signal r1\<rparr> else r1);
          r3 = (if pr_SignalCombined r2 \<noteq> 0 then r2\<lparr>pr_SignalQuality := SignalQuality5GHz (pr_SignalCombined r2)\<rparr> else r2)
      in r3\<lparr>pr_SNR := snr_of (pr_SignalCombined r3) (pr_Signal r3) (pr_NoiseFloor r3)\<rparr>)"

section \<open>Interfaces\<close>

text \<open>Both loops over interfaces do the same, apart from the flag an interface without status has.\<close>

definition infer_iface_type :: "string \<Rightarrow> string \<Rightarrow> string" where
  "infer_iface_type name0 id0 =
     (let name = to_lower name0; rid = to_lower id0 in
      if prefix ''eth'' name \<or> prefix ''lan/'' rid \<or> prefix ''eth'' rid \<or> prefix ''br'' rid then ''ethernet''
      else if prefix ''wifi'' name \<or> rid = ''main'' \<or> rid = ''backup'' then ''wireless'' else [])"

definition parse_iface :: "bool \<Rightarrow> obj \<Rightarrow> interface_stats" where
  "parse_iface enabled im =
     (let i0 = zero_interface_stats\<lparr>ifc_ID := getString im ''id'', ifc_Name := getString im ''name'', ifc_Enabled := enabled\<rparr>;
          i1 = with_obj im ''status''
                 (\<lambda>st i. let i' = i\<lparr>ifc_Type := getString st ''type'', ifc_Enabled := getBool st ''enabled'', ifc_Plugged := getBool st ''plugged'',
                                    ifc_Description := getString st ''description'', ifc_ConfiguredSpeed := getString st ''speed'',
                                    ifc_CurrentSpeed := getString st ''currentSpeed''\<rparr>;
                             i'' = (if ifc_Plugged i' then i'\<lparr>ifc_Status := ''up''\<rparr> else if ifc_Enabled i' then i'\<lparr>ifc_Status := ''down''\<rparr> else i')
                         in if ifc_Type i'' = [] then i''\<lparr>ifc_Type := infer_iface_type (ifc_Name i'') (ifc_ID i'')\<rparr> else i'') i0
      in with_obj im ''statistics''
           (\<lambda>st i. i\<lparr>ifc_TxBytes := get_int st ''txBytes'', ifc_RxBytes := get_int st ''rxBytes'', ifc_TxRate := get_int st ''txRate'',
                     ifc_RxRate := get_int st ''rxRate'', ifc_TxPackets := get_int st ''txPackets'', ifc_RxPackets := get_int st ''rxPackets'',
                     ifc_TxErrors := get_int st ''txErrors'', ifc_RxErrors := get_int st ''rxErrors''\<rparr>) i1)"

section \<open>Shared blocks\<close>

definition parse_cpus :: "obj \<Rightarrow> cpu_core list" where
  "parse_cpus m = map (\<lambda>c. \<lparr>core_ID = getString c ''identifier'', core_Usage = get_int c ''usage''\<rparr>) (objects_at m ''cpu'')"

definition parse_ram :: "obj \<Rightarrow> ram_stats" where
  "parse_ram r = \<lparr>ram_Total = get_int r ''total'', ram_Free = get_int r ''free'', ram_Usage = get_int r ''usage''\<rparr>"

definition parse_gps :: "obj \<Rightarrow> gps_stats" where
  "parse_gps g = \<lparr>gps_Fix = getBool g ''fix'', gps_Lat = getFloat g ''lat'', gps_Lon = getFloat g ''lon'',
     gps_Alt = getFloat g ''alt'', gps_Sats = get_int g ''sats''\<rparr>"

definition parse_orientation :: "obj \<Rightarrow> orientation_stats" where
  "parse_orientation o' = \<lparr>orient_Tilt = getFloat o' ''tilt'', orient_Roll = getFloat o' ''roll'',
     orient_Tilt24 = getFloat o' ''tilt24'', orient_Roll24 = getFloat o' ''roll24''\<rparr>"

section \<open>Peers\<close>

definition slot_of :: "string \<Rightarrow> (string, string) gomap option \<Rightarrow> string \<Rightarrow> string" where
  "slot_of platform slots rid =
     (let slot = (case slots of None \<Rightarrow> [] | Some m \<Rightarrow> get_str m rid);
          slot' = (if slot = [] then
                     (if platform = ''ltu'' then (if rid = ''main'' then ''ltu'' else if rid = ''backup'' then ''60'' else [])
                      else (if rid = ''main'' then ''60'' else if rid = ''backup'' then ''5'' else []))
                   else slot)
      in if slot' = ''second5'' then ''5'' else slot')"

definition on_slot :: "string \<Rightarrow> (peer_radio_stats option \<Rightarrow> peer_radio_stats option) \<Rightarrow> peer_stats \<Rightarrow> peer_stats" where
  "on_slot slot f p =
     (if slot = ''ltu'' then p\<lparr>peer_RadioLTU := f (peer_RadioLTU p)\<rparr>
      else if slot = ''60'' then p\<lparr>peer_Radio60GHz := f (peer_Radio60GHz p)\<rparr>
      else if slot = ''6'' then p\<lparr>peer_Radio6GHz := f (peer_Radio6GHz p)\<rparr>
      else if slot = ''5'' then p\<lparr>peer_Radio5GHz := f (peer_Radio5GHz p)\<rparr> else p)"

definition parse_local :: "string \<Rightarrow> (string, string) gomap option \<Rightarrow> obj \<Rightarrow> peer_stats \<Rightarrow> peer_stats" where
  "parse_local platform slots lm p = on_slot (slot_of platform slots (getString lm ''id'')) (\<lambda>_. Some (parsePeerRadioStats lm)) p"

record remote_view =
  rv_signal :: int
  rv_ideal :: int
  rv_noise :: int
  rv_chains :: "int list"

definition remote_of :: "obj \<Rightarrow> remote_view" where
  "remote_of rm =
     (case sub_obj rm ''linkQuality'' of
        None \<Rightarrow> \<lparr>rv_signal = 0, rv_ideal = 0, rv_noise = 0, rv_chains = []\<rparr>
      | Some lq \<Rightarrow> \<lparr>rv_signal = get_int lq ''signal'', rv_ideal = get_int lq ''idealSignal'', rv_noise = get_int lq ''noiseFloor'',
          rv_chains = ints_at lq ''signalPerChain''\<rparr>)"

definition parse_remote :: "string \<Rightarrow> (string, string) gomap option \<Rightarrow> obj \<Rightarrow> peer_stats \<Rightarrow> peer_stats" where
  "parse_remote platform slots rm p =
     (let rid = getString rm ''id''; v = remote_of rm;
          combined = (if 1 < length (rv_chains v) then CombineSignals (rv_chains v) else rv_signal v);
          slot = slot_of platform slots rid;
          quality = (if slot = ''60'' then SignalQuality60GHz combined else SignalQuality5GHz combined);
          p1 = on_slot slot (map_option (\<lambda>r. r\<lparr>pr_RemoteSignal := rv_signal v, pr_RemoteSignalCombined := combined,
                 pr_RemoteSignalQuality := quality, pr_RemoteIdealSignal := rv_ideal v, pr_RemoteNoiseFloor := rv_noise v,
                 pr_RemoteSNR := snr_of combined (rv_signal v) (rv_noise v), pr_RemoteSignalPerChain := rv_chains v\<rparr>)) p
      in if rid = ''main'' then p1\<lparr>peer_RemoteSignal := rv_signal v, peer_RemoteNoiseFloor := rv_noise v, peer_RemoteSignalPerChain := rv_chains v\<rparr> else p1)"

definition parse_peer_ident :: "obj \<Rightarrow> peer_stats \<Rightarrow> peer_stats" where
  "parse_peer_ident ident p =
     (let full = getString ident ''firmware''; version = getString ident ''firmwareVersion'' in
      p\<lparr>peer_MAC := to_lower (getString ident ''mac''), peer_Model := getString ident ''model'', peer_FirmwareFull := full,
        peer_Firmware := (if version \<noteq> [] then version else full)\<rparr>)"

definition parse_common :: "obj \<Rightarrow> peer_stats" where
  "parse_common common =
     (let p0 = zero_peer_stats\<lparr>peer_IP := getString common ''mgmtIp'', peer_Hostname := getString common ''hostname'',
                 peer_Distance := getFloat common ''distance'', peer_Uptime := get_int common ''uptime''\<rparr>;
          p1 = with_obj common ''identification'' parse_peer_ident p0;
          p2 = with_obj common ''counters'' (\<lambda>c p. p\<lparr>peer_TxBytes := get_int c ''txBytes'', peer_RxBytes := get_int c ''rxBytes'',
                 peer_TxRate := get_int c ''txRate'', peer_RxRate := get_int c ''rxRate'', peer_TxPackets := get_int c ''txPackets'',
                 peer_RxPackets := get_int c ''rxPackets''\<rparr>) p1;
          p3 = with_obj common ''trafficShaping'' (\<lambda>t p. p\<lparr>peer_DLRateLimit := kbps t ''dlRate'', peer_ULRateLimit := kbps t ''ulRate''\<rparr>) p2;
          p4 = with_obj common ''linkQuality'' (\<lambda>lq. with_obj lq ''linkScore'' (\<lambda>l p. p\<lparr>peer_LinkScore := Some (parseLinkScore l)\<rparr>)) p3;
          p5 = with_obj common ''gps'' (\<lambda>g p. p\<lparr>peer_GPS := parse_gps g\<rparr>) p4;
          p6 = with_obj common ''orientation'' (\<lambda>o' p. p\<lparr>peer_Orientation := Some (parse_orientation o')\<rparr>) p5;
          p7 = p6\<lparr>peer_NetMode := getString common ''netMode'', peer_PowerTime := get_int common ''powerTime'',
                  peer_ServiceUptime := get_int common ''serviceUptime''\<rparr>;
          p8 = with_obj common ''carrierDrop'' (\<lambda>c p. p\<lparr>peer_CarrierDrop := getBool c ''dropped''\<rparr>) p7;
          p9 = p8\<lparr>peer_CPU := parse_cpus common\<rparr>;
          p10 = with_obj common ''ram'' (\<lambda>r p. p\<lparr>peer_RAM := parse_ram r\<rparr>) p9
      in p10\<lparr>peer_Interfaces := map (parse_iface True) (objects_at common ''interfaces'')\<rparr>)"

definition parsePeer :: "string \<Rightarrow> (string, string) gomap option \<Rightarrow> obj \<Rightarrow> peer_stats option" where
  "parsePeer platform slots pm =
     (case sub_obj pm ''common'' of
        None \<Rightarrow> None
      | Some common \<Rightarrow>
          Some (fold (parse_remote platform slots) (objects_at pm ''remote'')
                 (fold (parse_local platform slots) (objects_at pm ''local'') (parse_common common))))"

section \<open>Bands\<close>

datatype waveBand = waveBandUnknown | waveBand5GHz | waveBand6GHz | waveBand60GHz

text \<open>The statistics of the radio may be missing.\<close>

definition inferWaveBand :: "obj \<Rightarrow> radio_stats option \<Rightarrow> waveBand" where
  "inferWaveBand raw rs =
     (if has_key raw ''afc'' then waveBand6GHz
      else case rs of
             None \<Rightarrow> waveBandUnknown
           | Some r \<Rightarrow>
               (if radio_Frequency r \<ge> 57000 then waveBand60GHz
                else if radio_ChannelWidth r \<ge> 1000 then waveBand60GHz
                else if radio_Frequency r \<ge> 5945 then waveBand6GHz
                else if radio_Frequency r > 0 then waveBand5GHz
                else waveBandUnknown))"

record WaveParseCounters =
  wc_band5GHz :: int
  wc_band6GHz :: int
  wc_band60GHz :: int
  wc_bandUnknown :: int
  wc_peerFromStats :: int
  wc_peerFromFallback :: int
  wc_peerFallbackAttempted :: int
  wc_peerNone :: int

fun recordWaveBand :: "waveBand \<Rightarrow> WaveParseCounters \<Rightarrow> WaveParseCounters" where
  "recordWaveBand waveBand5GHz c = c\<lparr>wc_band5GHz := wc_band5GHz c + 1\<rparr>"
| "recordWaveBand waveBand6GHz c = c\<lparr>wc_band6GHz := wc_band6GHz c + 1\<rparr>"
| "recordWaveBand waveBand60GHz c = c\<lparr>wc_band60GHz := wc_band60GHz c + 1\<rparr>"
| "recordWaveBand waveBandUnknown c = c\<lparr>wc_bandUnknown := wc_bandUnknown c + 1\<rparr>"

definition recordWavePeerSource :: "bool \<Rightarrow> bool \<Rightarrow> WaveParseCounters \<Rightarrow> WaveParseCounters" where
  "recordWavePeerSource fromStats fromFallback c =
     (if fromStats then c\<lparr>wc_peerFromStats := wc_peerFromStats c + 1\<rparr>
      else if fromFallback then c\<lparr>wc_peerFromFallback := wc_peerFromFallback c + 1\<rparr>
      else c\<lparr>wc_peerNone := wc_peerNone c + 1\<rparr>)"

definition recordWavePeerFallbackAttempt :: "WaveParseCounters \<Rightarrow> WaveParseCounters" where
  "recordWavePeerFallbackAttempt c = c\<lparr>wc_peerFallbackAttempted := wc_peerFallbackAttempted c + 1\<rparr>"

section \<open>The radios of a device\<close>

text \<open>What the loop over the radios carries along; the second 5 GHz radio comes with its id.\<close>

record radio_scan =
  sc_wireless :: wireless_stats
  sc_slots :: "(string, string) gomap"
  sc_second5 :: "(radio_stats \<times> string) option"
  sc_counters :: WaveParseCounters

definition keep_first :: "radio_stats \<Rightarrow> radio_stats option \<Rightarrow> radio_stats option" where
  "keep_first radio old = (case old of None \<Rightarrow> Some radio | Some r \<Rightarrow> Some r)"

definition name_slot :: "string \<Rightarrow> string \<Rightarrow> radio_scan \<Rightarrow> radio_scan" where
  "name_slot rid slot st = (if rid = [] then st else st\<lparr>sc_slots := AList.update rid slot (sc_slots st)\<rparr>)"

definition fill60 :: "radio_stats \<Rightarrow> radio_scan \<Rightarrow> radio_scan" where
  "fill60 radio st = st\<lparr>sc_wireless := (sc_wireless st)\<lparr>wl_Radio60GHz := keep_first radio (wl_Radio60GHz (sc_wireless st))\<rparr>\<rparr>"

definition fill6 :: "radio_stats \<Rightarrow> radio_scan \<Rightarrow> radio_scan" where
  "fill6 radio st = st\<lparr>sc_wireless := (sc_wireless st)\<lparr>wl_Radio6GHz := keep_first radio (wl_Radio6GHz (sc_wireless st))\<rparr>\<rparr>"

definition fill5 :: "radio_stats \<Rightarrow> radio_scan \<Rightarrow> radio_scan" where
  "fill5 radio st = st\<lparr>sc_wireless := (sc_wireless st)\<lparr>wl_Radio5GHz := keep_first radio (wl_Radio5GHz (sc_wireless st))\<rparr>\<rparr>"

definition fillLTU :: "radio_stats \<Rightarrow> radio_scan \<Rightarrow> radio_scan" where
  "fillLTU radio st = st\<lparr>sc_wireless := (sc_wireless st)\<lparr>wl_RadioLTU := keep_first radio (wl_RadioLTU (sc_wireless st))\<rparr>\<rparr>"

text \<open>Historically the radio "main" is the 60 GHz one and "backup" the 5 GHz one.\<close>

definition legacy_slot :: "string \<Rightarrow> string \<Rightarrow> radio_stats \<Rightarrow> radio_scan \<Rightarrow> radio_scan" where
  "legacy_slot key rid radio st =
     (if key = ''main'' then name_slot rid ''60'' (fill60 radio st)
      else if key = ''backup'' then name_slot rid ''5'' (fill5 radio st) else st)"

definition place_radio :: "string \<Rightarrow> bool \<Rightarrow> obj \<Rightarrow> radio_scan \<Rightarrow> radio_scan" where
  "place_radio platform mlo rm st0 =
     (let radio = parseRadioStats rm; rid = getString rm ''id'';
          st = st0\<lparr>sc_wireless := (sc_wireless st0)\<lparr>wl_Radios := wl_Radios (sc_wireless st0) @ [radio]\<rparr>\<rparr>
      in if platform = ''ltu'' then
           (if rid = ''main'' then name_slot rid ''ltu'' (fillLTU radio st)
            else if rid = ''backup'' then name_slot rid ''60'' (fill60 radio st) else st)
         else if \<not> mlo then legacy_slot (to_lower rid) rid radio st
         else
           (let band = inferWaveBand rm (Some radio); st' = st\<lparr>sc_counters := recordWaveBand band (sc_counters st)\<rparr> in
            case band of
              waveBand60GHz \<Rightarrow> name_slot rid ''60'' (fill60 radio st')
            | waveBand6GHz \<Rightarrow> name_slot rid ''6'' (fill6 radio st')
            | waveBand5GHz \<Rightarrow>
                (if wl_Radio5GHz (sc_wireless st') = None then name_slot rid ''5'' (fill5 radio st')
                 else if sc_second5 st' = None then name_slot rid ''second5'' (st'\<lparr>sc_second5 := Some (radio, rid)\<rparr>)
                 else st')
            | waveBandUnknown \<Rightarrow> legacy_slot rid rid radio st'))"

text \<open>A second 5 GHz radio goes to the 6 GHz slot when that is free.\<close>

definition finish_radios :: "radio_scan \<Rightarrow> radio_scan" where
  "finish_radios st =
     (case sc_second5 st of
        None \<Rightarrow> st
      | Some (radio, rid) \<Rightarrow>
          (if wl_Radio6GHz (sc_wireless st) = None then
             name_slot rid ''6'' (st\<lparr>sc_wireless := (sc_wireless st)\<lparr>wl_Radio6GHz := Some (radio\<lparr>radio_DisplayBandOverride := ''5 GHz #2''\<rparr>)\<rparr>\<rparr>)
           else if rid \<noteq> [] \<and> get_str (sc_slots st) rid = ''second5'' then name_slot rid ''5'' st
           else st))"

definition scan_radios :: "string \<Rightarrow> bool \<Rightarrow> obj list \<Rightarrow> radio_scan \<Rightarrow> radio_scan" where
  "scan_radios platform mlo radios st = finish_radios (fold (place_radio platform mlo) radios st)"

section \<open>The statistics of a device\<close>

text \<open>The signal an LTU station reports beside its radios.\<close>

definition root_signal :: "obj \<Rightarrow> radio_stats \<Rightarrow> radio_stats" where
  "root_signal wireless radio =
     (let sig = get_int wireless ''signal'';
          r1 = radio\<lparr>radio_Signal := sig, radio_NoiseFloor := get_int wireless ''noise'',
                     radio_SignalPerChain := radio_SignalPerChain radio @ ints_at wireless ''signalPerChain''\<rparr>;
          r2 = r1\<lparr>radio_SignalCombined := (if 1 < length (radio_SignalPerChain r1) then CombineSignals (radio_SignalPerChain r1) else sig)\<rparr>
      in r2\<lparr>radio_SignalQuality := SignalQuality5GHz (radio_SignalCombined r2)\<rparr>)"

definition parse_root_signal :: "string \<Rightarrow> obj \<Rightarrow> wireless_stats \<Rightarrow> wireless_stats" where
  "parse_root_signal platform wireless w0 =
     (if get_int wireless ''signal'' = 0 then w0
      else
        (let w = (if wl_RadioLTU w0 = None \<and> platform = ''ltu''
                  then w0\<lparr>wl_RadioLTU := Some (zero_radio_stats\<lparr>radio_ID := ''main'', radio_LinkState := ''connected''\<rparr>)\<rparr> else w0)
         in case wl_RadioLTU w of
              Some r \<Rightarrow> w\<lparr>wl_RadioLTU := Some (root_signal wireless r)\<rparr>
            | None \<Rightarrow>
                (case wl_Radio5GHz w of
                   Some r \<Rightarrow> w\<lparr>wl_Radio5GHz := Some (root_signal wireless r)\<rparr>
                 | None \<Rightarrow> w)))"

definition parse_wireless_quality :: "obj \<Rightarrow> wireless_stats \<Rightarrow> wireless_stats" where
  "parse_wireless_quality lq w =
     (let w1 = with_obj lq ''counters'' (\<lambda>c w. w\<lparr>wl_TxRate := get_int c ''txRate'', wl_RxRate := get_int c ''rxRate''\<rparr>) w
      in with_obj lq ''linkScore'' (\<lambda>l w. w\<lparr>wl_LinkScore := Some (parseLinkScore l)\<rparr>) w1)"

definition parse_wireless ::
  "string \<Rightarrow> bool \<Rightarrow> WaveParseCounters \<Rightarrow> obj \<Rightarrow> wireless_stats \<Rightarrow> wireless_stats \<times> peer_stats list \<times> WaveParseCounters" where
  "parse_wireless platform mlo counters wireless w0 =
     (let w1 = w0\<lparr>wl_ServiceUptime := get_int wireless ''serviceUptime'', wl_ServiceDowntime := get_int wireless ''serviceDowntime''\<rparr>;
          w2 = parse_root_signal platform wireless w1;
          w3 = with_obj wireless ''linkQuality'' parse_wireless_quality w2;
          st0 = \<lparr>sc_wireless = w3, sc_slots = [], sc_second5 = None, sc_counters = counters\<rparr>;
          st = scan_radios platform mlo (objects_at wireless ''radios'') st0
      in (sc_wireless st, List.map_filter (parsePeer platform (Some (sc_slots st))) (objects_at wireless ''peers''), sc_counters st))"

definition parse_temperature :: "obj \<Rightarrow> temp_stats \<Rightarrow> temp_stats" where
  "parse_temperature tm ts =
     (let name = getString tm ''name''; v = getFloat tm ''value'' in
      if name = ''cpu'' then ts\<lparr>temp_CPU := v\<rparr>
      else if name = ''main'' then ts\<lparr>temp_Radio60 := v\<rparr>
      else if name = ''backup'' then ts\<lparr>temp_Radio5 := v\<rparr>
      else if name = ''board'' then ts\<lparr>temp_Board := v\<rparr> else ts)"

definition parse_device :: "obj \<Rightarrow> device_stats \<Rightarrow> device_stats" where
  "parse_device device ds =
     (let d1 = ds\<lparr>ds_Uptime := get_int device ''uptime'', ds_PowerTime := get_int device ''powerTime''\<rparr>;
          d2 = (if getString device ''mac'' \<noteq> [] then d1\<lparr>ds_MAC := to_lower (getString device ''mac'')\<rparr> else d1);
          d3 = (if getString device ''hostname'' \<noteq> [] then d2\<lparr>ds_Hostname := getString device ''hostname''\<rparr>
                else if getString device ''name'' \<noteq> [] then d2\<lparr>ds_Hostname := getString device ''name''\<rparr> else d2);
          d4 = with_obj device ''ram'' (\<lambda>r d. d\<lparr>ds_RAM := parse_ram r\<rparr>) d3;
          d5 = d4\<lparr>ds_CPU := ds_CPU d4 @ parse_cpus device,
                  ds_Temperature := fold parse_temperature (objects_at device ''temperatures'') (ds_Temperature d4)\<rparr>;
          d6 = with_obj device ''gps'' (\<lambda>g d. d\<lparr>ds_GPS := parse_gps g\<rparr>) d5
      in with_obj device ''orientation'' (\<lambda>o' d. d\<lparr>ds_Orientation := Some (parse_orientation o')\<rparr>) d6)"

text \<open>Fallbacks for figures that some firmwares report outside the device block.\<close>

definition root_gps :: "obj \<Rightarrow> gps_stats \<Rightarrow> gps_stats" where
  "root_gps g old =
     (let g1 = parse_gps g;
          g2 = (if \<not> feq (getFloat g ''altitude'') (Fin 0) then g1\<lparr>gps_Alt := getFloat g ''altitude''\<rparr> else g1)
      in if get_int g ''satellites'' \<noteq> 0 then g2\<lparr>gps_Sats := get_int g ''satellites''\<rparr> else g2)"

definition root_identification :: "obj \<Rightarrow> device_stats \<Rightarrow> device_stats" where
  "root_identification ident d =
     (let d1 = (if ds_MAC d = [] \<and> getString ident ''mac'' \<noteq> [] then d\<lparr>ds_MAC := to_lower (getString ident ''mac'')\<rparr> else d)
      in if ds_Hostname d1 = [] then
           (if getString ident ''hostname'' \<noteq> [] then d1\<lparr>ds_Hostname := getString ident ''hostname''\<rparr>
            else if getString ident ''name'' \<noteq> [] then d1\<lparr>ds_Hostname := getString ident ''name''\<rparr> else d1)
         else d1)"

text \<open>time.UnixMilli, counted from Go's zero time.\<close>

definition unix_milli :: "int \<Rightarrow> time" where
  "unix_milli ms = ms * 1000000 + 62135596800 * second"

definition parse_snapshot ::
  "string \<Rightarrow> bool \<Rightarrow> time \<Rightarrow> WaveParseCounters \<Rightarrow> obj \<Rightarrow> device_stats \<times> peer_stats list \<times> WaveParseCounters" where
  "parse_snapshot platform mlo now counters r =
     (let ts = get_int r ''timestamp'';
          d0 = zero_device_stats\<lparr>ds_Online := True, ds_LastSeen := (if ts > 0 then unix_milli ts else now)\<rparr>;
          d1 = with_obj r ''device'' parse_device d0;
          d2 = (if feq (gps_Lat (ds_GPS d1)) (Fin 0) \<and> feq (gps_Lon (ds_GPS d1)) (Fin 0)
                then with_obj r ''gps'' (\<lambda>g d. d\<lparr>ds_GPS := root_gps g (ds_GPS d)\<rparr>) d1 else d1);
          d3 = (if ds_Orientation d2 = None
                then with_obj r ''orientation'' (\<lambda>o' d. d\<lparr>ds_Orientation := Some (parse_orientation o')\<rparr>) d2 else d2);
          d4 = (if ds_MAC d3 = [] \<or> ds_Hostname d3 = [] then with_obj r ''identification'' root_identification d3 else d3);
          (w, peers, counters') = (case sub_obj r ''wireless'' of
                                     None \<Rightarrow> (ds_Wireless d4, [], counters)
                                   | Some wireless \<Rightarrow> parse_wireless platform mlo counters wireless (ds_Wireless d4));
          w' = with_obj r ''airview''
                 (\<lambda>av w. case sub_arr av ''utilization'' of None \<Rightarrow> w | Some raw \<Rightarrow> w\<lparr>wl_AirViewUtilization := parseAirViewUtilization raw\<rparr>) w
      in (d4\<lparr>ds_Wireless := w', ds_Interfaces := map (parse_iface False) (objects_at r ''interfaces'')\<rparr>, peers, counters'))"

text \<open>Decoding into a list of maps: null is the empty list, a null element the empty map.\<close>

fun as_object :: "jval \<Rightarrow> obj option" where
  "as_object (Members o') = Some o'"
| "as_object Null = Some []"
| "as_object _ = None"

fun as_snapshots :: "jval option \<Rightarrow> obj list option" where
  "as_snapshots (Some (Items vs)) = those (map as_object vs)"
| "as_snapshots (Some Null) = Some []"
| "as_snapshots _ = None"

definition parseStats ::
  "(string \<Rightarrow> jval option) \<Rightarrow> string \<Rightarrow> bool \<Rightarrow> time \<Rightarrow> WaveParseCounters \<Rightarrow> string
     \<Rightarrow> device_stats \<times> peer_stats list \<times> WaveParseCounters" where
  "parseStats unmarshal platform mlo now counters data =
     (case as_snapshots (unmarshal data) of
        Some (r # _) \<Rightarrow> parse_snapshot platform mlo now counters r
      | _ \<Rightarrow> (zero_device_stats, [], counters))"

section \<open>The configuration of a device\<close>

text \<open>The first figure that falls into a known range decides.\<close>

fun band_of_figures :: "int list \<Rightarrow> waveBand option" where
  "band_of_figures [] = None"
| "band_of_figures (v # vs) =
     (if v = 0 then band_of_figures vs
      else if v \<ge> 57000 then Some waveBand60GHz
      else if v \<ge> 5925 then Some waveBand6GHz
      else if v \<ge> 4900 then Some waveBand5GHz
      else if v \<ge> 2300 then Some waveBandUnknown
      else band_of_figures vs)"

definition inferWaveBandFromConfigInterface :: "obj \<Rightarrow> waveBand" where
  "inferWaveBandFromConfigInterface iface =
     (if inferWaveBand iface None \<noteq> waveBandUnknown then inferWaveBand iface None
      else case sub_obj iface ''frequency'' of
             None \<Rightarrow> waveBandUnknown
           | Some freq \<Rightarrow>
               (case band_of_figures [get_int freq ''band'', get_int freq ''control'', get_int freq ''tx''] of
                  Some b \<Rightarrow> b
                | None \<Rightarrow> if sub_obj iface ''afc'' \<noteq> None then waveBand6GHz else waveBandUnknown))"

definition auto_freq :: "obj \<Rightarrow> wireless_config \<Rightarrow> wireless_config" where
  "auto_freq iface cfg =
     (case sub_obj iface ''frequency'' of
        None \<Rightarrow> cfg
      | Some freq \<Rightarrow>
          (case inferWaveBandFromConfigInterface iface of
             waveBand60GHz \<Rightarrow> cfg\<lparr>cfg_AutoFreq60 := cfg_AutoFreq60 cfg \<or> getBool freq ''auto''\<rparr>
           | waveBand6GHz \<Rightarrow> cfg\<lparr>cfg_AutoFreq6 := cfg_AutoFreq6 cfg \<or> getBool freq ''auto''\<rparr>
           | waveBand5GHz \<Rightarrow> cfg\<lparr>cfg_AutoFreq5 := cfg_AutoFreq5 cfg \<or> getBool freq ''auto''\<rparr>
           | waveBandUnknown \<Rightarrow> cfg))"

definition first_text :: "string list \<Rightarrow> string" where
  "first_text xs = (case filter (\<lambda>s. s \<noteq> []) xs of [] \<Rightarrow> [] | s # _ \<Rightarrow> s)"

definition any_iface :: "obj list \<Rightarrow> string \<Rightarrow> bool" where
  "any_iface ifaces key = list_ex (\<lambda>i. getBool i key) ifaces"

definition parseWaveConfig :: "obj \<Rightarrow> wireless_config option" where
  "parseWaveConfig data =
     (case sub_obj data ''wireless'' of
        None \<Rightarrow> None
      | Some wireless \<Rightarrow>
          (let ifaces = objects_at wireless ''interfaces'' in
           if ifaces = [] then None
           else
             (let declared = to_lower (getString wireless ''mode''); net = to_lower (getString wireless ''netMode'');
                  mode = (if declared \<noteq> [] then declared else if any_iface ifaces ''apMode'' then ''ap'' else ''sta'');
                  cfg = zero_wireless_config\<lparr>cfg_SSID := first_text (map (\<lambda>i. getString i ''ssid'') ifaces), cfg_Mode := mode,
                          cfg_NetMode := (if net \<noteq> [] then net else if any_iface ifaces ''ptpMode'' then ''ptp'' else []),
                          cfg_WaveAI := (mode = ''ap'' \<and> any_iface ifaces ''waveAi'')\<rparr>
              in Some (fold auto_freq ifaces cfg))))"

definition parseWaveNetwork :: "obj \<Rightarrow> network_config option" where
  "parseWaveNetwork data =
     (case sub_obj data ''network'' of
        None \<Rightarrow> None
      | Some raw \<Rightarrow>
          (let n0 = zero_network_config\<lparr>net_Mode := getString raw ''mode'', net_MTU := get_int raw ''mtu'',
                      net_DNSServers := filter (\<lambda>a. a \<noteq> []) (map (\<lambda>m. getString m ''address'') (objects_at raw ''dnsServers''))\<rparr>;
               n1 = with_obj raw ''interfaces'' (\<lambda>ifs. with_obj ifs ''data'' (\<lambda>d n.
                      with_obj d ''ipv4'' (\<lambda>v n. n\<lparr>net_DataIPv4CIDR := getString v ''cidr'', net_DataIPv4Mode := getString v ''mode'',
                                                  net_DefaultGateway := getString v ''defaultGateway''\<rparr>)
                        (n\<lparr>net_MgmtVLAN := get_int d ''mgmtVLAN''\<rparr>))) n0
           in if n1 = zero_network_config then None else Some n1))"

definition wave_config_of :: "jval option \<Rightarrow> wireless_config option \<times> network_config option" where
  "wave_config_of body =
     (case Option.bind body as_object of
        None \<Rightarrow> (None, None)
      | Some data \<Rightarrow> (parseWaveConfig data, parseWaveNetwork data))"

end
