(* ===== verification/PollBreaker.thy ===== *)
theory PollBreaker imports Prelude begin

text \<open>
  The poller's memory about each address and access point (src/internal/poller/poller_core.go): the
  circuit breaker that backs off failing addresses and decides when a device is offline, the filter
  of empty peer lists, and the cycle counter for configuration fetches. Durations are 64-bit: the
  back-off is computed with their wrap-around.
\<close>

unbundle bit_operations_syntax

section \<open>Circuit breaker\<close>

record circuitBreaker =
  cb_failures :: nat
  cb_unreachable :: nat
  cb_lastFail :: time
  cb_nextRetry :: time

type_synonym circuits = "(string, circuitBreaker) gomap"

definition maxFailures :: nat where "maxFailures = 3"
definition offlineThreshold :: nat where "offlineThreshold = 3"
definition baseBackoff :: duration where "baseBackoff = minute"
definition maxBackoff :: duration where "maxBackoff = 15 * minute"

definition shouldSkip :: "time \<Rightarrow> string \<Rightarrow> circuits \<Rightarrow> bool" where
  "shouldSkip now ip s = (case map_of s ip of None \<Rightarrow> False | Some cb \<Rightarrow> now < cb_nextRetry cb)"

definition recordSuccess :: "string \<Rightarrow> circuits \<Rightarrow> circuits" where
  "recordSuccess ip s = AList.delete ip s"

text \<open>The product of two 64-bit durations; the shift count is the number of failures past the third.\<close>

definition raw_backoff :: "nat \<Rightarrow> duration" where
  "raw_backoff k = sint ((word_of_int baseBackoff :: 64 word) * push_bit k 1)"

definition backoff :: "nat \<Rightarrow> duration" where
  "backoff k = (if raw_backoff k > maxBackoff then maxBackoff else raw_backoff k)"

definition note_failure :: "time \<Rightarrow> bool \<Rightarrow> circuitBreaker \<Rightarrow> circuitBreaker" where
  "note_failure now unreachable cb =
     (let n = Suc (cb_failures cb);
          cb' = cb\<lparr>cb_failures := n, cb_lastFail := now, cb_unreachable := (if unreachable then Suc (cb_unreachable cb) else 0)\<rparr>
      in if maxFailures \<le> n then cb'\<lparr>cb_nextRetry := now + backoff (n - maxFailures)\<rparr> else cb')"

definition recordFailure :: "time \<Rightarrow> string \<Rightarrow> bool \<Rightarrow> circuits \<Rightarrow> circuits" where
  "recordFailure now ip unreachable s =
     (let cb = (case map_of s ip of
                  None \<Rightarrow> \<lparr>cb_failures = 0, cb_unreachable = 0, cb_lastFail = 0, cb_nextRetry = 0\<rparr>
                | Some cb \<Rightarrow> cb)
      in AList.update ip (note_failure now unreachable cb) s)"

definition getDeviceStatus :: "string \<Rightarrow> bool \<Rightarrow> circuits \<Rightarrow> string" where
  "getDeviceStatus ip unreachable s =
     (if \<not> unreachable then ''unknown''
      else
        (let consecutive = (case map_of s ip of None \<Rightarrow> 1 | Some cb \<Rightarrow> cb_unreachable cb + 1)
         in if offlineThreshold \<le> consecutive then ''offline'' else ''unknown''))"

definition cleanCircuitBreakers :: "time \<Rightarrow> circuits \<Rightarrow> circuits" where
  "cleanCircuitBreakers now s = filter (\<lambda>(ip, cb). \<not> cb_lastFail cb < now - 30 * minute) s"

section \<open>Peer lists and configuration cycles\<close>

text \<open>acceptPeerSnapshot over the number of peers of a snapshot.\<close>

definition acceptPeerSnapshot :: "int \<Rightarrow> nat \<Rightarrow> (int, nat) gomap \<Rightarrow> bool \<times> (int, nat) gomap" where
  "acceptPeerSnapshot ap peers empties =
     (if peers > 0 then (True, AList.delete ap empties)
      else
        (let n = Suc (case map_of empties ap of None \<Rightarrow> 0 | Some k \<Rightarrow> k)
         in if n < 2 then (False, AList.update ap n empties) else (True, AList.update ap 2 empties)))"

definition shouldFetchConfig :: "string \<Rightarrow> (string, nat) gomap \<Rightarrow> bool \<times> (string, nat) gomap" where
  "shouldFetchConfig ip cycles =
     (let cycle = Suc (case map_of cycles ip of None \<Rightarrow> 0 | Some k \<Rightarrow> k)
      in (cycle = 1 \<or> even cycle, AList.update ip cycle cycles))"

section \<open>The breaker as a function of the contacts\<close>

text \<open>One contact with an address: a failed poll with its time and reachability, or a successful one.\<close>

datatype contact = Failed time bool | Answered

fun contacted :: "string \<times> contact \<Rightarrow> circuits \<Rightarrow> circuits" where
  "contacted (ip, Failed now u) s = recordFailure now ip u s"
| "contacted (ip, Answered) s = recordSuccess ip s"

text \<open>The failures of an address since its last successful poll, latest first, over a log that is latest first.\<close>

fun streak :: "string \<Rightarrow> (string \<times> contact) list \<Rightarrow> (time \<times> bool) list" where
  "streak ip [] = []"
| "streak ip ((ip', c) # trail) =
     (if ip' \<noteq> ip then streak ip trail else case c of Answered \<Rightarrow> [] | Failed t u \<Rightarrow> (t, u) # streak ip trail)"

definition breaker_of :: "(time \<times> bool) list \<Rightarrow> circuitBreaker option" where
  "breaker_of fs =
     (case fs of
        [] \<Rightarrow> None
      | (t, u) # _ \<Rightarrow> Some \<lparr>cb_failures = length fs, cb_unreachable = length (takeWhile snd fs), cb_lastFail = t,
          cb_nextRetry = (if maxFailures \<le> length fs then t + backoff (length fs - maxFailures) else 0)\<rparr>)"

definition circuits_after :: "(string \<times> contact) list \<Rightarrow> circuits" where
  "circuits_after trail = foldr contacted trail []"

lemma note_failure_breaker:
  "note_failure now u (case breaker_of fs of None \<Rightarrow> \<lparr>cb_failures = 0, cb_unreachable = 0, cb_lastFail = 0, cb_nextRetry = 0\<rparr> | Some cb \<Rightarrow> cb)
     = the (breaker_of ((now, u) # fs))"
  by (cases fs) (auto simp: note_failure_def breaker_of_def Let_def split: prod.splits)

lemma breaker_of_log: "map_of (circuits_after trail) ip = breaker_of (streak ip trail)"
proof (induction trail)
  case (Cons e trail)
  obtain ip' c where e: "e = (ip', c)" by (cases e)
  show ?case
  proof (cases c)
    case (Failed t u)
    then have "circuits_after (e # trail) = recordFailure t ip' u (circuits_after trail)" using e by (simp add: circuits_after_def)
    then show ?thesis using Cons e Failed note_failure_breaker [of t u "streak ip trail"]
      by (auto simp: recordFailure_def Let_def) (simp add: breaker_of_def)
  next
    case Answered
    then show ?thesis using Cons e by (simp add: circuits_after_def recordSuccess_def) (simp add: breaker_of_def)
  qed
qed (simp add: circuits_after_def breaker_of_def)

section \<open>Back-off\<close>

lemma raw_backoff_int: "raw_backoff k = signed_take_bit 63 (60000000000 * 2 ^ k)"
proof -
  have "(word_of_int baseBackoff :: 64 word) * push_bit k 1 = word_of_int (60000000000 * 2 ^ k)"
    by (simp add: baseBackoff_def time_defs push_bit_eq_mult)
  then show ?thesis unfolding raw_backoff_def by (simp only: sint_sbintrunc') simp
qed

lemma raw_backoff_small: "k \<le> 27 \<Longrightarrow> raw_backoff k = 60000000000 * 2 ^ k"
proof -
  assume k: "k \<le> 27"
  have "(2 :: int) ^ k \<le> 2 ^ 27" using k by (intro power_increasing) auto
  then have "(60000000000 :: int) * 2 ^ k < 2 ^ 63" by simp
  moreover have "- (2 ^ 63) \<le> (60000000000 :: int) * 2 ^ k"
    by (rule order_trans [of _ 0]) auto
  ultimately show ?thesis unfolding raw_backoff_int by (rule signed_take_bit_int_eq_self [rotated])
qed

lemma raw_backoff_large: "53 \<le> k \<Longrightarrow> raw_backoff k = 0"
proof -
  assume "53 \<le> k"
  then have "k = 53 + (k - 53)" by simp
  then have "(2 :: int) ^ k = 2 ^ 53 * 2 ^ (k - 53)" by (metis power_add)
  then have "(60000000000 :: int) * 2 ^ k = 2 ^ 64 * (29296875 * 2 ^ (k - 53))" by simp
  then have "take_bit (Suc 63) ((60000000000 :: int) * 2 ^ k) = 0" by (simp add: take_bit_eq_mod)
  then show ?thesis
    by (simp add: raw_backoff_int signed_take_bit_eq_take_bit_shift take_bit_add [symmetric])
qed

lemma backoff_grows: "k \<le> 27 \<Longrightarrow> backoff k = min (2 ^ k * minute) (15 * minute)"
  by (auto simp: backoff_def raw_backoff_small maxBackoff_def time_defs min_def)

lemma backoff_vanishes: "53 \<le> k \<Longrightarrow> backoff k = 0"
  by (simp add: backoff_def raw_backoff_large maxBackoff_def time_defs)

text \<open>C0. An address whose last successful poll lies behind \<open>n\<close> failures is skipped for one minute
  after the third failure, twice as long after each further one, and never longer than a quarter of
  an hour. From the 56th failure on it is not skipped at all: the doubled duration has wrapped to
  zero, so that a device that stays dead is polled in every cycle.
\<close>

theorem backoff_vanishes_in_the_end:
  assumes "streak ip trail = (t, u) # fs" and "0 \<le> now"
  shows "(Suc (length fs) < 3 \<longrightarrow> \<not> shouldSkip now ip (circuits_after trail))
    \<and> (3 \<le> Suc (length fs) \<and> Suc (length fs) \<le> 30 \<longrightarrow>
         (shouldSkip now ip (circuits_after trail) \<longleftrightarrow> now < t + min (2 ^ (Suc (length fs) - 3) * minute) (15 * minute)))
    \<and> (56 \<le> Suc (length fs) \<longrightarrow> (shouldSkip now ip (circuits_after trail) \<longleftrightarrow> now < t))"
proof -
  have cb: "map_of (circuits_after trail) ip = breaker_of ((t, u) # fs)" using assms(1) by (simp add: breaker_of_log)
  show ?thesis
    using assms(2) backoff_grows [of "Suc (length fs) - 3"] backoff_vanishes [of "Suc (length fs) - 3"]
    by (auto simp: shouldSkip_def cb breaker_of_def maxFailures_def)
qed

definition dead_log :: "(string \<times> contact) list" where
  "dead_log = replicate 56 (''10.0.0.9'', Failed (100 * minute) True)"

lemma streak_dead: "streak ip (replicate n (ip, Failed t u)) = replicate n (t, u)"
  by (induction n) simp_all

lemma backoff_vanishes_in_the_end_witness:
  "shouldSkip (100 * minute) ''10.0.0.9'' (circuits_after (take 30 dead_log))
     \<and> \<not> shouldSkip (100 * minute) ''10.0.0.9'' (circuits_after dead_log)"
proof -
  have s: "streak ''10.0.0.9'' dead_log = (100 * minute, True) # replicate 55 (100 * minute, True)"
    "streak ''10.0.0.9'' (take 30 dead_log) = (100 * minute, True) # replicate 29 (100 * minute, True)"
    by (simp_all add: dead_log_def streak_dead flip: replicate_Suc)
  have now: "0 \<le> 100 * minute" by (simp add: time_defs)
  show ?thesis
    using backoff_vanishes_in_the_end [OF s(1) now] backoff_vanishes_in_the_end [OF s(2) now]
    by (simp add: time_defs)
qed

section \<open>Offline and empty snapshots\<close>

text \<open>
  A device that cannot be reached is reported offline exactly if its two previous polls since
  the last successful one could not reach it either; a device that answered in any way, be it with
  an error, is unknown.
\<close>

theorem offline_after_three:
  "getDeviceStatus ip unreachable (circuits_after trail) =
     (if unreachable \<and> take 2 (map snd (streak ip trail)) = [True, True] then ''offline'' else ''unknown'')"
proof -
  have two: "2 \<le> length (takeWhile snd fs) \<longleftrightarrow> take 2 (map snd fs) = [True, True]" for fs :: "(time \<times> bool) list"
    by (cases fs; cases "tl fs") (auto simp: numeral_2_eq_2 split: prod.splits)
  show ?thesis
  proof (cases "streak ip trail")
    case Nil
    then show ?thesis by (simp add: getDeviceStatus_def breaker_of_log breaker_of_def offlineThreshold_def)
  next
    case (Cons f fs)
    then show ?thesis using two [of "streak ip trail"]
      by (cases f) (auto simp: getDeviceStatus_def breaker_of_log breaker_of_def offlineThreshold_def Let_def split: if_splits)
  qed
qed

text \<open>The snapshots of an access point, latest first, and the decision on the next one.\<close>

fun snapshots :: "(int \<times> nat) list \<Rightarrow> (int, nat) gomap" where
  "snapshots [] = []"
| "snapshots ((ap, n) # trail) = snd (acceptPeerSnapshot ap n (snapshots trail))"

definition last_snapshot :: "int \<Rightarrow> (int \<times> nat) list \<Rightarrow> nat option" where
  "last_snapshot ap trail = map_of trail ap"

lemma snapshots_count:
  "map_of (snapshots trail) ap = (case last_snapshot ap trail of Some 0 \<Rightarrow> map_of (snapshots trail) ap | _ \<Rightarrow> None) \<and>
   (last_snapshot ap trail = Some 0 \<longrightarrow> map_of (snapshots trail) ap \<in> {Some 1, Some 2})"
  by (induction trail) (auto simp: last_snapshot_def acceptPeerSnapshot_def Let_def split: option.splits nat.splits if_splits)

text \<open>
  A peer list replaces the stored one exactly if it is not empty or the previous list of the
  same access point was empty too, whatever other access points report in between.
\<close>

theorem empty_twice:
  "fst (acceptPeerSnapshot ap n (snapshots trail)) \<longleftrightarrow> n > 0 \<or> last_snapshot ap trail = Some 0"
  using snapshots_count [of trail ap]
  by (auto simp: acceptPeerSnapshot_def Let_def split: option.splits nat.splits if_splits)

end
