(* ===== verification/PollErrors.thy ===== *)
theory PollErrors imports StatsStore begin

text \<open>
  What a failed poll means and whose answer it is (src/internal/poller/network.go,
  canonical_mac.go): the classification of an error into "could not be reached" and "answered in
  some way" with its reason, and the comparison of the MAC a device reports with the one of its
  record.
\<close>

section \<open>Errors\<close>

datatype errno = ETIMEDOUT | EHOSTUNREACH | ENETUNREACH | EHOSTDOWN | ENETDOWN | ECONNREFUSED | ECONNRESET
  | ECONNABORTED | EPIPE | EADDRNOTAVAIL | EAGAIN | OtherErrno nat

text \<open>
  An error is its chain under errors.Unwrap, outermost first. \<open>Wrapping\<close> is a layer without a type
  of its own (fmt.Errorf); \<open>NetFailure\<close> is any other net.Error, with the answer of its Timeout.
\<close>

datatype layer = HttpStatus int | DeadlineExceeded | ContextCanceled | DNSFailure bool bool | UnknownAuthority | HostnameInvalid
  | CertificateInvalid | RecordHeader | UrlError | OpError | SyscallError | Errno errno | EOF | NetFailure bool | Wrapping

type_synonym go_error = "layer list"

text \<open>The method Timeout: url.Error, net.OpError and os.SyscallError ask the error they wrap.\<close>

fun is_timeout :: "go_error \<Rightarrow> bool" where
  "is_timeout (UrlError # e) = is_timeout e"
| "is_timeout (OpError # e) = is_timeout e"
| "is_timeout (SyscallError # e) = is_timeout e"
| "is_timeout (Errno n # e) = (n = ETIMEDOUT \<or> n = EAGAIN)"
| "is_timeout (DNSFailure nf t # e) = t"
| "is_timeout (DeadlineExceeded # e) = True"
| "is_timeout (NetFailure t # e) = t"
| "is_timeout _ = False"

definition is_net_error :: "layer \<Rightarrow> bool" where
  "is_net_error l = (case l of UrlError \<Rightarrow> True | OpError \<Rightarrow> True | Errno n \<Rightarrow> True | DNSFailure nf t \<Rightarrow> True
     | DeadlineExceeded \<Rightarrow> True | NetFailure t \<Rightarrow> True | _ \<Rightarrow> False)"

text \<open>errors.As and errors.Is: the chain from the first layer that fits.\<close>

definition as_layer :: "(layer \<Rightarrow> bool) \<Rightarrow> go_error \<Rightarrow> go_error" where
  "as_layer P e = dropWhile (\<lambda>l. \<not> P l) e"

fun as_errno :: "go_error \<Rightarrow> errno option" where
  "as_errno (Errno n # e) = Some n"
| "as_errno (l # e) = as_errno e"
| "as_errno [] = None"

fun as_status :: "go_error \<Rightarrow> int option" where
  "as_status (HttpStatus c # e) = Some c"
| "as_status (l # e) = as_status e"
| "as_status [] = None"

fun as_dns :: "go_error \<Rightarrow> (bool \<times> bool) option" where
  "as_dns (DNSFailure nf t # e) = Some (nf, t)"
| "as_dns (l # e) = as_dns e"
| "as_dns [] = None"

fun extractSyscallErrno :: "go_error \<Rightarrow> errno option" where
  "extractSyscallErrno [] = None"
| "extractSyscallErrno (Errno n # e) = Some n"
| "extractSyscallErrno (SyscallError # e) = (case as_errno e of Some n \<Rightarrow> Some n | None \<Rightarrow> extractSyscallErrno e)"
| "extractSyscallErrno (OpError # e) = (case as_errno e of Some n \<Rightarrow> Some n | None \<Rightarrow> extractSyscallErrno e)"
| "extractSyscallErrno (l # e) = extractSyscallErrno e"

fun errno_class :: "errno \<Rightarrow> bool \<times> string" where
  "errno_class ETIMEDOUT = (True, ''timeout'')"
| "errno_class EHOSTUNREACH = (True, ''unreachable'')"
| "errno_class ENETUNREACH = (True, ''unreachable'')"
| "errno_class EHOSTDOWN = (True, ''host_down'')"
| "errno_class ENETDOWN = (True, ''net_down'')"
| "errno_class ECONNREFUSED = (False, ''conn_refused'')"
| "errno_class ECONNRESET = (False, ''conn_reset'')"
| "errno_class ECONNABORTED = (False, ''conn_aborted'')"
| "errno_class EPIPE = (False, ''broken_pipe'')"
| "errno_class EADDRNOTAVAIL = (True, ''addr_not_available'')"
| "errno_class _ = (False, ''syscall_error'')"

definition status_class_of :: "int \<Rightarrow> bool \<times> string" where
  "status_class_of c = (False, if c = 401 then ''auth_401'' else if c = 403 then ''auth_403'' else if c = 404 then ''http_404'' else ''http_'' @ int_str c)"

text \<open>The last resort reads the text of the error.\<close>

definition text_class :: "string \<Rightarrow> bool \<times> string" where
  "text_class msg =
     (let s = to_lower msg; has = contains_str s in
      if has ''no route to host'' \<or> has ''network is unreachable'' \<or> has ''host unreachable'' \<or> has ''host is down'' then (True, ''unreachable'')
      else if has ''i/o timeout'' \<or> has ''timed out'' \<or> has ''timeout'' \<or> has ''deadline exceeded'' then (True, ''timeout'')
      else if has ''connection refused'' then (False, ''conn_refused'')
      else if has ''connection reset'' \<or> has ''reset by peer'' then (False, ''conn_reset'')
      else if has ''tls'' \<and> has ''handshake'' then (False, ''tls_handshake'')
      else if has ''x509'' then (False, ''x509_error'')
      else if has ''unauthorized'' \<or> has ''forbidden'' then (False, ''auth_failed'')
      else if has ''login'' \<and> has ''fail'' then (False, ''auth_failed'')
      else (False, ''error''))"

definition classifyPollError :: "go_error option \<Rightarrow> string \<Rightarrow> bool \<times> string" where
  "classifyPollError err msg =
     (case err of
        None \<Rightarrow> (False, [])
      | Some e \<Rightarrow>
          (case as_status e of
             Some c \<Rightarrow> status_class_of c
           | None \<Rightarrow>
               (if DeadlineExceeded \<in> set e then (True, ''timeout'')
                else if ContextCanceled \<in> set e then (True, ''canceled'')
                else case as_dns e of
                       Some (nf, t) \<Rightarrow> (True, if nf then ''dns_not_found'' else if t then ''dns_timeout'' else ''dns_error'')
                     | None \<Rightarrow>
                         (if UnknownAuthority \<in> set e then (False, ''x509_unknown_authority'')
                          else if HostnameInvalid \<in> set e then (False, ''x509_hostname'')
                          else if CertificateInvalid \<in> set e then (False, ''x509_invalid'')
                          else if RecordHeader \<in> set e then (False, ''tls_record_header'')
                          else if is_timeout (as_layer (\<lambda>l. l = UrlError) e) then (True, ''timeout'')
                          else if is_timeout (as_layer is_net_error e) then (True, ''timeout'')
                          else case extractSyscallErrno e of
                                 Some n \<Rightarrow> errno_class n
                               | None \<Rightarrow> if EOF \<in> set e then (False, ''eof'') else text_class msg))))"

definition isNetworkUnreachable :: "go_error option \<Rightarrow> string \<Rightarrow> bool" where
  "isNetworkUnreachable err msg = fst (classifyPollError err msg)"

definition statusReasonFromError :: "go_error option \<Rightarrow> string \<Rightarrow> string" where
  "statusReasonFromError err msg = snd (classifyPollError err msg)"

section \<open>Identity\<close>

record canonicalMACResult =
  cm_Expected :: string
  cm_Canonical :: string
  cm_Observed :: "string list"
  cm_Mismatch :: bool

text \<open>Normalised candidates without blanks and repetitions, \<open>seen\<close> being the ones so far.\<close>

fun observe_macs :: "string list \<Rightarrow> string list \<Rightarrow> string list" where
  "observe_macs seen [] = []"
| "observe_macs seen (c # cs) =
     (let m = NormalizeMAC (trim_space c) in
      if m = [] \<or> m \<in> set seen then observe_macs seen cs else m # observe_macs (m # seen) cs)"

definition canonicalizeDeviceMAC :: "string \<Rightarrow> string list \<Rightarrow> canonicalMACResult" where
  "canonicalizeDeviceMAC expected candidates =
     (let exp = NormalizeMAC expected; obs = observe_macs [] candidates in
      if exp \<noteq> [] then
        (if exp \<in> set obs then \<lparr>cm_Expected = exp, cm_Canonical = exp, cm_Observed = obs, cm_Mismatch = False\<rparr>
         else if obs \<noteq> [] then \<lparr>cm_Expected = exp, cm_Canonical = exp, cm_Observed = obs, cm_Mismatch = True\<rparr>
         else \<lparr>cm_Expected = exp, cm_Canonical = exp, cm_Observed = obs, cm_Mismatch = False\<rparr>)
      else (case obs of
              m # _ \<Rightarrow> \<lparr>cm_Expected = [], cm_Canonical = m, cm_Observed = obs, cm_Mismatch = False\<rparr>
            | [] \<Rightarrow> \<lparr>cm_Expected = [], cm_Canonical = [], cm_Observed = obs, cm_Mismatch = False\<rparr>))"

definition canonicalizeDeviceMACPreferred :: "string \<Rightarrow> string \<Rightarrow> string list \<Rightarrow> canonicalMACResult" where
  "canonicalizeDeviceMACPreferred expected preferred others =
     (let exp = NormalizeMAC expected; pref = NormalizeMAC (trim_space preferred);
          obs = (if pref \<noteq> [] then pref # observe_macs [pref] others else observe_macs [] others)
      in if exp \<noteq> [] then
           (if pref \<noteq> [] then \<lparr>cm_Expected = exp, cm_Canonical = exp, cm_Observed = obs, cm_Mismatch = (pref \<noteq> exp)\<rparr>
            else (canonicalizeDeviceMAC exp obs)\<lparr>cm_Observed := obs\<rparr>)
         else if pref \<noteq> [] then \<lparr>cm_Expected = [], cm_Canonical = pref, cm_Observed = obs, cm_Mismatch = False\<rparr>
         else (case obs of
                 m # _ \<Rightarrow> \<lparr>cm_Expected = [], cm_Canonical = m, cm_Observed = obs, cm_Mismatch = False\<rparr>
               | [] \<Rightarrow> \<lparr>cm_Expected = [], cm_Canonical = [], cm_Observed = obs, cm_Mismatch = False\<rparr>))"

section \<open>Facts\<close>

lemma extract_as_errno: "extractSyscallErrno e = as_errno e"
  by (induction e rule: extractSyscallErrno.induct) (auto split: option.splits)

lemma as_status_None: "as_status e = None \<longleftrightarrow> (\<forall>c. HttpStatus c \<notin> set e)"
  by (induction e rule: as_status.induct) auto

text \<open>The causes that decide without a look at the text.\<close>

definition recognised :: "go_error \<Rightarrow> bool" where
  "recognised e \<longleftrightarrow> as_status e \<noteq> None \<or> as_dns e \<noteq> None \<or> as_errno e \<noteq> None \<or> is_timeout (as_layer is_net_error e) \<or>
     list_ex (\<lambda>l. l \<in> {DeadlineExceeded, ContextCanceled, UnknownAuthority, HostnameInvalid, CertificateInvalid, RecordHeader, EOF}) e"

text \<open>
  An answer of the device, an HTTP status however deeply wrapped, is never taken for an
  unreachable device; and wrapping an error whose cause is recognised changes neither verdict nor
  reason, whatever its text becomes.
\<close>

theorem answers_are_reachable:
  "(HttpStatus c \<in> set e \<longrightarrow> \<not> isNetworkUnreachable (Some e) msg) \<and>
   (recognised e \<longrightarrow> classifyPollError (Some (replicate n Wrapping @ e)) msg' = classifyPollError (Some e) msg)"
proof (intro conjI impI)
  assume "HttpStatus c \<in> set e"
  then obtain c' where "as_status e = Some c'" using as_status_None by fastforce
  then show "\<not> isNetworkUnreachable (Some e) msg" by (simp add: isNetworkUnreachable_def classifyPollError_def status_class_of_def)
next
  assume r: "recognised e"
  have w: "as_status (replicate n Wrapping @ e) = as_status e" "as_dns (replicate n Wrapping @ e) = as_dns e"
    "as_errno (replicate n Wrapping @ e) = as_errno e"
    "\<And>P. \<not> P Wrapping \<Longrightarrow> as_layer P (replicate n Wrapping @ e) = as_layer P e"
    "\<And>l. l \<noteq> Wrapping \<Longrightarrow> (l \<in> set (replicate n Wrapping @ e)) = (l \<in> set e)"
    by (induction n) (simp_all add: as_layer_def)
  show "classifyPollError (Some (replicate n Wrapping @ e)) msg' = classifyPollError (Some e) msg"
    using r unfolding classifyPollError_def recognised_def extract_as_errno
    by (auto simp: w is_net_error_def list_ex_iff split: option.splits prod.splits)
qed

lemma answers_are_reachable_witness:
  "\<not> isNetworkUnreachable (Some [Wrapping, HttpStatus 403]) ''timeout''
     \<and> classifyPollError (Some [Wrapping, Wrapping, UrlError, OpError, SyscallError, Errno ECONNREFUSED]) ''login: connection timed out'' = (False, ''conn_refused'')"
proof -
  have "HttpStatus 403 \<in> set [Wrapping, HttpStatus 403]" by simp
  then have a: "\<not> isNetworkUnreachable (Some [Wrapping, HttpStatus 403]) ''timeout''"
    using answers_are_reachable [of 403 "[Wrapping, HttpStatus 403]" "''timeout''"] by blast
  let ?e = "[UrlError, OpError, SyscallError, Errno ECONNREFUSED]"
  have "recognised ?e" by (simp add: recognised_def)
  then have "classifyPollError (Some (replicate 2 Wrapping @ ?e)) ''login: connection timed out'' = classifyPollError (Some ?e) []"
    using answers_are_reachable by blast
  moreover have "classifyPollError (Some ?e) [] = (False, ''conn_refused'')" by code_simp
  ultimately show ?thesis using a by (simp add: numeral_2_eq_2)
qed

lemma observe_macs_set: "set (observe_macs seen cs) = set (map (NormalizeMAC \<circ> trim_space) cs) - insert [] (set seen)"
  by (induction seen cs rule: observe_macs.induct) (auto simp: Let_def)

lemma NormalizeMAC_again [simp]: "NormalizeMAC (NormalizeMAC m) = NormalizeMAC m"
  by (simp add: NormalizeMAC_def to_lower_def)

lemma observe_macs_normal: "m \<in> set (observe_macs seen cs) \<Longrightarrow> NormalizeMAC (trim_space m) = m \<and> m \<noteq> []"
  unfolding observe_macs_set by (auto simp: NormalizeMAC_def)

lemma canonical_known:
  "NormalizeMAC expected \<noteq> [] \<Longrightarrow> canonicalizeDeviceMAC expected cs =
     \<lparr>cm_Expected = NormalizeMAC expected, cm_Canonical = NormalizeMAC expected, cm_Observed = observe_macs [] cs,
      cm_Mismatch = (NormalizeMAC expected \<notin> set (observe_macs [] cs) \<and> observe_macs [] cs \<noteq> [])\<rparr>"
  by (simp add: canonicalizeDeviceMAC_def Let_def)

lemma observe_again: "set (observe_macs [] (observe_macs [] cs)) = set (observe_macs [] cs)"
proof -
  have "(NormalizeMAC \<circ> trim_space) ` set (observe_macs [] cs) = set (observe_macs [] cs)" "[] \<notin> set (observe_macs [] cs)"
    using observe_macs_normal [of _ "[]" cs] by (force simp: image_iff)+
  then show ?thesis using observe_macs_set [of "[]" "observe_macs [] cs"] by simp
qed

lemma preferred_known:
  assumes "NormalizeMAC expected \<noteq> []"
  shows "cm_Canonical (canonicalizeDeviceMACPreferred expected p cs) = NormalizeMAC expected"
    and "cm_Mismatch (canonicalizeDeviceMACPreferred expected p cs) =
          (if NormalizeMAC (trim_space p) \<noteq> [] then NormalizeMAC (trim_space p) \<noteq> NormalizeMAC expected
           else cm_Mismatch (canonicalizeDeviceMAC expected cs))"
proof -
  have e: "NormalizeMAC (NormalizeMAC expected) \<noteq> []" using assms by simp
  have "observe_macs [] (observe_macs [] cs) = [] \<longleftrightarrow> observe_macs [] cs = []"
    using observe_again [of cs] by (metis set_empty)
  then show "cm_Mismatch (canonicalizeDeviceMACPreferred expected p cs) =
          (if NormalizeMAC (trim_space p) \<noteq> [] then NormalizeMAC (trim_space p) \<noteq> NormalizeMAC expected
           else cm_Mismatch (canonicalizeDeviceMAC expected cs))"
    using assms by (simp add: canonicalizeDeviceMACPreferred_def Let_def canonical_known [OF e] canonical_known [OF assms] observe_again)
  show "cm_Canonical (canonicalizeDeviceMACPreferred expected p cs) = NormalizeMAC expected"
    using assms by (simp add: canonicalizeDeviceMACPreferred_def Let_def canonical_known [OF e])
qed

text \<open>
  A record with a MAC keeps it whatever the device reports: the canonical MAC is the expected
  one, and a mismatch is reported exactly if some MAC was observed and none of them, or not the
  preferred one where there is one, is the expected MAC.
\<close>

theorem identity_is_kept:
  assumes "NormalizeMAC expected \<noteq> []"
  shows "cm_Canonical (canonicalizeDeviceMAC expected cs) = NormalizeMAC expected
     \<and> (cm_Mismatch (canonicalizeDeviceMAC expected cs) \<longleftrightarrow>
          NormalizeMAC expected \<notin> set (map (NormalizeMAC \<circ> trim_space) cs) \<and> (\<exists>c\<in>set cs. NormalizeMAC (trim_space c) \<noteq> []))
     \<and> cm_Canonical (canonicalizeDeviceMACPreferred expected p cs) = NormalizeMAC expected
     \<and> (cm_Mismatch (canonicalizeDeviceMACPreferred expected p cs) \<longleftrightarrow>
          (if NormalizeMAC (trim_space p) \<noteq> [] then NormalizeMAC (trim_space p) \<noteq> NormalizeMAC expected
           else cm_Mismatch (canonicalizeDeviceMAC expected cs)))"
proof -
  have obs: "set (observe_macs [] cs) = set (map (NormalizeMAC \<circ> trim_space) cs) - {[]}" by (simp add: observe_macs_set)
  then have "observe_macs [] cs \<noteq> [] \<longleftrightarrow> (\<exists>c\<in>set cs. NormalizeMAC (trim_space c) \<noteq> [])"
    unfolding set_empty [symmetric] by auto
  then show ?thesis using assms obs by (simp add: canonical_known preferred_known)
qed

lemma identity_is_kept_witness:
  "\<not> cm_Mismatch (canonicalizeDeviceMAC ''AA'' ['' bb '', ''aa''])
     \<and> cm_Mismatch (canonicalizeDeviceMACPreferred ''AA'' ''bb'' [''aa''])"
proof -
  have e: "NormalizeMAC ''AA'' \<noteq> []" by code_simp
  have v: "NormalizeMAC ''AA'' \<in> set (map (NormalizeMAC \<circ> trim_space) ['' bb '', ''aa''])"
    "NormalizeMAC (trim_space ''bb'') \<noteq> []" "NormalizeMAC (trim_space ''bb'') \<noteq> NormalizeMAC ''AA''" by code_simp+
  have "\<not> cm_Mismatch (canonicalizeDeviceMAC ''AA'' ['' bb '', ''aa''])"
    using identity_is_kept [OF e, where cs = "['' bb '', ''aa'']" and p = "[]"] v(1) by blast
  moreover have "cm_Mismatch (canonicalizeDeviceMACPreferred ''AA'' ''bb'' [''aa''])"
    using identity_is_kept [OF e, where cs = "[''aa'']" and p = "''bb''"] v(2,3) by (simp only: if_True not_False_eq_True)
  ultimately show ?thesis ..
qed

end
