(* ===== verification/PollInventory.thy ===== *)
theory PollInventory imports WaveParse PollBreaker PollErrors FirmwareUpgrade begin

text \<open>
  The poller's state and its dealings with the inventory (src/internal/poller/children.go,
  poller_core.go, canonical_mac.go): stations discovered below an access point, stations that are
  missing from its list, the status of its children, parent loops, and durable identity mismatches.
  Each SQL statement is an operation on the table of devices that may fail.
\<close>

section \<open>State\<close>

text \<open>
  The columns of table devices the poller reads and writes. An absent text is the empty text,
  except for the network name, which the code compares only where it is present.
\<close>

record inv_row =
  iv_id :: int
  iv_mac :: string
  iv_ip :: string
  iv_hostname :: string
  iv_model :: string
  iv_product :: string
  iv_platform :: string
  iv_flavor :: string
  iv_firmware :: string
  iv_firmware_version :: string
  iv_role :: string
  iv_parent :: "int option"
  iv_parent_mac :: string
  iv_ssid :: "string option"
  iv_site :: "int option"
  iv_managed :: bool
  iv_username :: string
  iv_password :: string

record mismatch_row =
  mm_device :: int
  mm_expected :: string
  mm_observed :: "string list"
  mm_ip :: string
  mm_source :: string
  mm_error :: string

record pollJob =
  pj_DeviceID :: int
  pj_SiteID :: int
  pj_MAC :: string
  pj_IP :: string
  pj_Username :: string
  pj_Password :: string
  pj_Platform :: string
  pj_Product :: string
  pj_Flavor :: string
  pj_Role :: string

text \<open>What the poller tells the hub.\<close>

datatype notice =
    StatsNotice int string string "device_stats option"
  | StatusNotice int string string string string string
  | MismatchNotice int string string string "string list"
  | ChildNotice int string string string
  | MovedNotice int string int string
  | AddedNotice int string string int string
  | ParentCleared int string
  | RoleNotice int string string
  | InfoNotice int string string

record pollerConfig =
  pc_interval :: duration
  pc_workerCount :: int
  pc_apCreds :: "Credential list"
  pc_staCreds :: "Credential list"
  pc_mgmtPrefixes :: "(string \<Rightarrow> bool) list"
  pc_wavePeerFallback :: bool
  pc_waveMLOMultiRadio :: bool

record poller =
  po_cfg :: pollerConfig
  po_store :: store
  po_circuits :: circuits
  po_cycles :: "(string, nat) gomap"
  po_empties :: "(int, nat) gomap"
  po_counters :: WaveParseCounters
  po_table :: "inv_row list"
  po_next :: int
  po_mismatches :: "mismatch_row list"
  po_jobs :: "pollJob list"
  po_hub :: bool
  po_notices :: "notice list"

text \<open>
  The surroundings: whether a statement fails, by its label and the MAC or id it is about, and
  whether a text is an address. A management prefix is the set of addresses it contains.
\<close>

record poll_env =
  pe_fails :: "string \<Rightarrow> string \<Rightarrow> bool"
  pe_is_ip :: "string \<Rightarrow> bool"
  pe_secret :: "aead option"
  pe_unmarshal :: "string \<Rightarrow> jval option"

definition tell :: "notice \<Rightarrow> poller \<Rightarrow> poller" where
  "tell n p = (if po_hub p then p\<lparr>po_notices := po_notices p @ [n]\<rparr> else p)"

definition on_store :: "(store \<Rightarrow> store) \<Rightarrow> poller \<Rightarrow> poller" where
  "on_store f p = p\<lparr>po_store := f (po_store p)\<rparr>"

definition set_status :: "time \<Rightarrow> string \<Rightarrow> string \<Rightarrow> string \<Rightarrow> string \<Rightarrow> string \<Rightarrow> bool \<Rightarrow> poller \<Rightarrow> bool \<times> poller" where
  "set_status now mac ip status reason msg seen p =
     (case SetStatusByMAC now mac ip status reason msg seen (po_store p) of (left, s) \<Rightarrow> (left, p\<lparr>po_store := s\<rparr>))"

text \<open>SQL's COALESCE(NULLIF(new, ''), old), and the truncation of a text to the width of its column.\<close>

definition keep_or :: "string \<Rightarrow> string \<Rightarrow> string" where
  "keep_or new old = (if new = [] then old else new)"

definition truncateForDB :: "string \<Rightarrow> nat \<Rightarrow> string" where
  "truncateForDB value n = (if n = 0 \<or> value = [] then value else truncate_runes value n)"

definition isAllowedIP :: "poll_env \<Rightarrow> pollerConfig \<Rightarrow> string \<Rightarrow> bool" where
  "isAllowedIP e c ip =
     (if pc_mgmtPrefixes c = [] then True
      else if \<not> pe_is_ip e ip then False else list_ex (\<lambda>contains. contains ip) (pc_mgmtPrefixes c))"

section \<open>Children of an access point\<close>

definition child_status :: "time \<Rightarrow> string \<Rightarrow> string \<Rightarrow> inv_row \<Rightarrow> poller \<Rightarrow> poller" where
  "child_status now status reason r p =
     (let mac = to_lower (iv_mac r); ip = iv_ip r;
          p1 = on_store (BindIdentityByMAC mac ip (iv_id r) (case iv_site r of None \<Rightarrow> 0 | Some s \<Rightarrow> s)) p
      in tell (ChildNotice (iv_id r) ip status reason) (snd (set_status now mac ip status reason [] False p1)))"

definition updateChildrenStatus :: "poll_env \<Rightarrow> time \<Rightarrow> int \<Rightarrow> string \<Rightarrow> poller \<Rightarrow> poller" where
  "updateChildrenStatus e now ap status p =
     (let reason = (if status \<noteq> StatusOnline then ''parent_'' @ status else []) in
      if pe_fails e ''children'' (int_str ap) then p
      else fold (child_status now status reason) (filter (\<lambda>r. iv_parent r = Some ap \<and> iv_role r = ''sta'') (po_table p)) p)"

definition mark_missing :: "time \<Rightarrow> inv_row \<Rightarrow> poller \<Rightarrow> poller" where
  "mark_missing now r p =
     (let mac = to_lower (iv_mac r); ip = iv_ip r;
          p1 = on_store (BindIdentityByMAC mac ip (iv_id r) (case iv_site r of None \<Rightarrow> 0 | Some s \<Rightarrow> s)) p
      in case SetStatusByMACChanged now mac ip StatusOffline ''not_associated'' [] False (po_store p1) of
           ((_, changed), s) \<Rightarrow>
             (if changed then tell (ChildNotice (iv_id r) ip ''offline'' ''not_associated'') (p1\<lparr>po_store := s\<rparr>) else p1\<lparr>po_store := s\<rparr>))"

definition markMissingSTAsOffline :: "poll_env \<Rightarrow> time \<Rightarrow> int \<Rightarrow> string list \<Rightarrow> poller \<Rightarrow> poller" where
  "markMissingSTAsOffline e now ap associated p =
     (if pe_fails e ''mark_missing_stas_offline'' (int_str ap) then p
      else fold (mark_missing now)
             (filter (\<lambda>r. iv_parent r = Some ap \<and> iv_role r = ''sta'' \<and> to_lower (iv_mac r) \<notin> set associated) (po_table p)) p)"

section \<open>Stations found below an access point\<close>

definition flavors :: "string list" where
  "flavors = [''GMC'', ''GMP'', ''MGMP'', ''GP'', ''MW'', ''AFLTUROCKET'', ''AFLTU'', ''AF5XHD'', ''XC'', ''WA'', ''2XC'', ''2WA'',
     ''XM'', ''XW'', ''TI'', ''AF11'', ''AF5X'', ''AF5U'', ''AF5'', ''AF3X'', ''AF2X'']"

definition flavor_of :: "string \<Rightarrow> string" where
  "flavor_of firmware = (let pre = to_upper (hd (split_on (\<lambda>c. c = CHR ''.'') firmware)) in if pre \<in> set flavors then pre else [])"

definition starts_with_any :: "string list \<Rightarrow> string \<Rightarrow> bool" where
  "starts_with_any ps s = list_ex (\<lambda>p. prefix p s) ps"

definition platform_of :: "string \<Rightarrow> string \<Rightarrow> string \<Rightarrow> string" where
  "platform_of fwDetect model apPlatform =
     (let fw = to_lower fwDetect; m = to_lower model;
          detected =
            (if starts_with_any [''afltu'', ''af5xhd''] fw then ''ltu''
             else if starts_with_any [''xc.'', ''2xc.'', ''wa.'', ''2wa.'', ''xm.'', ''xw.'', ''ti.''] fw then ''airmax''
             else if starts_with_any [''af11.'', ''af5x.'', ''af5u.'', ''af5.'', ''af3x.'', ''af2x.''] fw then ''airmax''
             else if contains_str m ''airfiber'' \<or> prefix ''af'' m then ''airmax'' else [])
      in if detected \<noteq> [] then detected else if apPlatform \<noteq> [] then apPlatform else ''wave'')"

text \<open>What the station takes over from its access point.\<close>

record ap_view =
  apv_mac :: string
  apv_site :: "int option"
  apv_ssid :: "string option"
  apv_platform :: string

definition ap_view_of :: "poll_env \<Rightarrow> int \<Rightarrow> poller \<Rightarrow> ap_view" where
  "ap_view_of e ap p =
     (case (if pe_fails e ''ap'' (int_str ap) then None else find (\<lambda>r. iv_id r = ap) (po_table p)) of
        None \<Rightarrow> \<lparr>apv_mac = [], apv_site = None, apv_ssid = None, apv_platform = []\<rparr>
      | Some r \<Rightarrow> \<lparr>apv_mac = NormalizeMAC (iv_mac r), apv_site = iv_site r, apv_ssid = iv_ssid r, apv_platform = iv_platform r\<rparr>)"

text \<open>The texts written, each cut to its column.\<close>

record sta_texts =
  st_hostname :: string
  st_model :: string
  st_firmware :: string
  st_platform :: string
  st_flavor :: string
  st_ssid :: string

definition texts_of :: "ap_view \<Rightarrow> peer_stats \<Rightarrow> sta_texts" where
  "texts_of av peer =
     (let fwDetect = keep_or (peer_FirmwareFull peer) (peer_Firmware peer) in
      \<lparr>st_hostname = truncateForDB (peer_Hostname peer) 128, st_model = truncateForDB (peer_Model peer) 32,
       st_firmware = truncateForDB (peer_Firmware peer) 128,
       st_platform = truncateForDB (platform_of fwDetect (peer_Model peer) (apv_platform av)) 16,
       st_flavor = truncateForDB (flavor_of fwDetect) 16,
       st_ssid = truncateForDB (case apv_ssid av of None \<Rightarrow> [] | Some s \<Rightarrow> s) 64\<rparr>)"

definition write_texts :: "sta_texts \<Rightarrow> inv_row \<Rightarrow> inv_row" where
  "write_texts t r = r\<lparr>iv_hostname := keep_or (st_hostname t) (iv_hostname r), iv_model := keep_or (st_model t) (iv_model r),
     iv_platform := keep_or (st_platform t) (iv_platform r), iv_flavor := keep_or (st_flavor t) (iv_flavor r),
     iv_firmware := keep_or (st_firmware t) (iv_firmware r),
     iv_ssid := (if st_ssid t = [] then iv_ssid r else Some (st_ssid t))\<rparr>"

text \<open>The UPDATE of a known station, in its four variants: with or without a new address, with the site cleared or inherited.\<close>

definition sta_update :: "int \<Rightarrow> string \<Rightarrow> string option \<Rightarrow> bool \<Rightarrow> int option \<Rightarrow> sta_texts \<Rightarrow> inv_row \<Rightarrow> inv_row" where
  "sta_update ap apMAC newIP clearSite site t r =
     (write_texts t r)\<lparr>iv_ip := (case newIP of None \<Rightarrow> iv_ip r | Some ip \<Rightarrow> ip), iv_parent := Some ap, iv_parent_mac := apMAC,
        iv_role := ''sta'', iv_site := (if clearSite then None else case iv_site r of None \<Rightarrow> site | Some s \<Rightarrow> Some s)\<rparr>"

definition known_station :: "poll_env \<Rightarrow> time \<Rightarrow> int \<Rightarrow> ap_view \<Rightarrow> string option \<Rightarrow> peer_stats \<Rightarrow> inv_row \<Rightarrow> poller \<Rightarrow> poller" where
  "known_station e now ap av newIP peer r p0 =
     (let mac = NormalizeMAC (peer_MAC peer);
          p = (if iv_ip r \<noteq> [] \<and> GetIPByMAC (po_store p0) mac = [] \<and> isAllowedIP e (po_cfg p0) (iv_ip r)
               then on_store (\<lambda>s. snd (SetIPForMAC mac (iv_ip r) s)) p0 else p0)
      in if NormalizeRole (iv_role r) = ''ap'' then
           (let p1 = on_store (BindIdentityByMAC mac (iv_ip r) (iv_id r) (case iv_site r of None \<Rightarrow> 0 | Some s \<Rightarrow> s)) p in
            if (iv_parent r \<noteq> None \<or> iv_parent_mac r \<noteq> []) \<and> \<not> pe_fails e ''ap_peer_clear_parent'' mac
            then p1\<lparr>po_table := update_where (\<lambda>x. iv_id x = iv_id r) (\<lambda>x. x\<lparr>iv_parent := None, iv_parent_mac := []\<rparr>) (po_table p1)\<rparr>
            else p1)
         else
           (let apChanged = (iv_parent r \<noteq> None \<and> iv_parent r \<noteq> Some ap);
                clearSite = (iv_parent r = None \<or> (case (iv_ssid r, apv_ssid av) of (Some a, Some b) \<Rightarrow> a \<noteq> b | _ \<Rightarrow> False));
                staHost = (case newIP of Some ip \<Rightarrow> ip | None \<Rightarrow> keep_or (iv_ip r) (peer_IP peer));
                newSite = (case iv_site r of None \<Rightarrow> apv_site av | Some s \<Rightarrow> Some s);
                site = (if clearSite then 0 else case newSite of None \<Rightarrow> 0 | Some s \<Rightarrow> s);
                p1 = (if pe_fails e (if clearSite then ''sta_update_clear_site'' else ''sta_update_normal'') mac then p
                      else
                        (let p' = p\<lparr>po_table := update_where (\<lambda>x. to_lower (iv_mac x) = mac)
                                      (sta_update ap (apv_mac av) newIP clearSite newSite (texts_of av peer)) (po_table p)\<rparr>
                         in snd (set_status now mac staHost StatusOnline [] [] True (on_store (BindIdentityByMAC mac staHost (iv_id r) site) p'))))
            in if apChanged then tell (MovedNotice (iv_id r) staHost ap (apv_mac av)) p1 else p1))"

text \<open>
  The INSERT of an unknown station. Its ON CONFLICT branch meets a row whose MAC is spelled exactly
  alike, which the lookup before has ruled out, so that the row is new.
\<close>

definition new_station :: "poll_env \<Rightarrow> time \<Rightarrow> int \<Rightarrow> ap_view \<Rightarrow> string option \<Rightarrow> peer_stats \<Rightarrow> poller \<Rightarrow> poller" where
  "new_station e now ap av newIP peer p =
     (let mac = NormalizeMAC (peer_MAC peer); effectiveIP = GetIPByMAC (po_store p) mac in
      if effectiveIP = [] \<and> pc_mgmtPrefixes (po_cfg p) \<noteq> [] then p
      else
        (let ip = (if effectiveIP = [] then peer_IP peer else effectiveIP) in
         if ip = [] then p
         else if pe_fails e ''sta_upsert'' mac then p
         else
           (let rowid = po_next p; t = texts_of av peer;
                row = \<lparr>iv_id = rowid, iv_mac = mac, iv_ip = (case newIP of None \<Rightarrow> ip | Some a \<Rightarrow> a), iv_hostname = st_hostname t,
                       iv_model = st_model t, iv_product = [], iv_platform = st_platform t, iv_flavor = st_flavor t,
                       iv_firmware = st_firmware t, iv_firmware_version = [], iv_role = ''sta'', iv_parent = Some ap,
                       iv_parent_mac = apv_mac av, iv_ssid = Some (st_ssid t), iv_site = apv_site av, iv_managed = False,
                       iv_username = [], iv_password = []\<rparr>;
                p1 = p\<lparr>po_table := po_table p @ [row], po_next := rowid + 1\<rparr>;
                p2 = on_store (BindIdentityByMAC mac ip rowid (case apv_site av of None \<Rightarrow> 0 | Some s \<Rightarrow> s)) p1
            in tell (AddedNotice rowid mac ip ap (apv_mac av)) (snd (set_status now mac ip StatusOnline [] [] True p2)))))"

definition sync_station :: "poll_env \<Rightarrow> time \<Rightarrow> int \<Rightarrow> ap_view \<Rightarrow> (string, string) gomap \<Rightarrow> peer_stats \<Rightarrow> poller \<Rightarrow> poller" where
  "sync_station e now ap av ipChanges peer p =
     (if peer_MAC peer = [] then p
      else
        (let mac = NormalizeMAC (peer_MAC peer); newIP = map_of ipChanges mac in
         if pe_fails e ''sta_lookup'' mac then p
         else case find (\<lambda>r. to_lower (iv_mac r) = mac) (po_table p) of
                Some r \<Rightarrow> known_station e now ap av newIP peer r p
              | None \<Rightarrow> new_station e now ap av newIP peer p))"

definition updateSTAsInDB :: "poll_env \<Rightarrow> time \<Rightarrow> int \<Rightarrow> peer_stats list \<Rightarrow> (string, string) gomap \<Rightarrow> poller \<Rightarrow> poller" where
  "updateSTAsInDB e now ap peers ipChanges p =
     (let av = ap_view_of e ap p;
          macs = map (\<lambda>x. NormalizeMAC (peer_MAC x)) (filter (\<lambda>x. peer_MAC x \<noteq> []) peers)
      in markMissingSTAsOffline e now ap macs (fold (sync_station e now ap av ipChanges) peers p))"

section \<open>Parent loops\<close>

definition bad_parent :: "inv_row list \<Rightarrow> inv_row \<Rightarrow> bool" where
  "bad_parent table r \<longleftrightarrow>
     iv_parent r = Some (iv_id r)
     \<or> to_lower (iv_role r) = ''ap'' \<and> iv_parent r \<noteq> None
     \<or> to_lower (iv_role r) = ''sta'' \<and> list_ex (\<lambda>q. iv_parent r = Some (iv_id q) \<and> to_lower (iv_role q) = ''sta'') table"

definition breakStaParentLoops :: "poll_env \<Rightarrow> poller \<Rightarrow> poller" where
  "breakStaParentLoops e p =
     (if pe_fails e ''break_loops'' [] then p
      else p\<lparr>po_table := update_where (bad_parent (po_table p)) (\<lambda>r. r\<lparr>iv_parent := None, iv_parent_mac := []\<rparr>) (po_table p)\<rparr>)"

section \<open>Identity mismatches\<close>

definition persistIdentityMismatch :: "poll_env \<Rightarrow> pollJob \<Rightarrow> string \<Rightarrow> string \<Rightarrow> string list \<Rightarrow> string \<Rightarrow> poller \<Rightarrow> poller" where
  "persistIdentityMismatch e job api expected observed msg p =
     (if pj_DeviceID job = 0 \<or> expected = [] \<or> observed = [] \<or> trim_space (pj_IP job) = [] then p
      else if pe_fails e ''identity_mismatch'' (int_str (pj_DeviceID job)) \<or> \<not> pe_is_ip e (pj_IP job) then p
      else
        (let row = \<lparr>mm_device = pj_DeviceID job, mm_expected = expected, mm_observed = observed, mm_ip = pj_IP job,
                    mm_source = to_lower api, mm_error = msg\<rparr>
         in p\<lparr>po_mismatches := (if list_ex (\<lambda>m. mm_device m = pj_DeviceID job) (po_mismatches p)
                then update_where (\<lambda>m. mm_device m = pj_DeviceID job) (\<lambda>_. row) (po_mismatches p) else po_mismatches p @ [row])\<rparr>))"

definition clearIdentityMismatch :: "poll_env \<Rightarrow> int \<Rightarrow> poller \<Rightarrow> poller" where
  "clearIdentityMismatch e device p =
     (if device = 0 \<or> pe_fails e ''clear_identity_mismatch'' (int_str device) then p
      else p\<lparr>po_mismatches := delete_where (\<lambda>m. mm_device m = device) (po_mismatches p)\<rparr>)"

definition handleMACMismatch :: "poll_env \<Rightarrow> time \<Rightarrow> pollJob \<Rightarrow> string \<Rightarrow> string list \<Rightarrow> poller \<Rightarrow> poller" where
  "handleMACMismatch e now job api observed p =
     (let expected = NormalizeMAC (pj_MAC job); obs = join '','' observed;
          msg = api @ '' mac mismatch: expected='' @ expected @ '' observed='' @ obs;
          p1 = p\<lparr>po_circuits := recordFailure now (pj_IP job) False (po_circuits p)\<rparr>;
          p2 = snd (set_status now (pj_MAC job) (pj_IP job) StatusUnknown ''mac_mismatch'' msg False p1);
          p3 = on_store (TrackStabilityStatus now (pj_IP job) [] StatusUnknown 0) p2;
          p4 = tell (MismatchNotice (pj_DeviceID job) expected (pj_IP job) msg observed) p3;
          p5 = persistIdentityMismatch e job api expected observed msg p4
      in updateChildrenStatus e now (pj_DeviceID job) ''unknown'' p5)"

end
