(* ===== verification/PollWave.thy ===== *)
theory PollWave imports PollInventory begin

text \<open>
  One poll of a Wave or LTU radio (src/internal/poller/wave_poll.go, wave_api.go,
  wave_peer_fallback.go) and the polling of devices (poller_core.go): credentials, login, statistics,
  identity, role, the update of the live store and the inventory. The answers of the radio and the
  poll of an airMAX radio are parameters.
\<close>

section \<open>Credentials of a job\<close>

definition prepareJobCredential :: "poll_env \<Rightarrow> pollerConfig \<Rightarrow> bool \<Rightarrow> pollJob \<Rightarrow> string + pollJob" where
  "prepareJobCredential e cfg isSTA job =
     (case (if pj_Password job = [] then Inr [] else decryptSecret (pe_secret e) (pj_Password job)) of
        Inl err \<Rightarrow> Inl (''decrypt credential for device '' @ int_str (pj_DeviceID job) @ '': '' @ err)
      | Inr plain \<Rightarrow>
          (if pj_Username job \<noteq> [] \<and> plain \<noteq> [] then Inr (job\<lparr>pj_Password := plain\<rparr>)
           else case (if isSTA then pc_staCreds cfg else pc_apCreds cfg) of
                  [] \<Rightarrow> Inr (job\<lparr>pj_Username := [], pj_Password := []\<rparr>)
                | c # _ \<Rightarrow> Inr (job\<lparr>pj_Username := cr_user c, pj_Password := cr_pass c\<rparr>)))"

section \<open>Talking to the radio\<close>

text \<open>
  A failed login: its error chain and text and, for an HTTP status, content type and body.
  The answer to a plain GET; and everything a radio answers during one poll.
\<close>

record login_failure =
  lf_chain :: go_error
  lf_text :: string
  lf_ctype :: string
  lf_snippet :: string

datatype get_result = GetFailed string | ReadFailed string | GotBody int string

record wave_radio =
  wr_login :: "Credential \<Rightarrow> login_failure + string"
  wr_stats :: "string + string"
  wr_config :: get_result
  wr_peers :: "string \<Rightarrow> get_result"
  wr_device :: get_result
  wr_system :: get_result

definition likelyJSON :: "login_failure \<Rightarrow> bool" where
  "likelyJSON lf =
     (let ct = to_lower (lf_ctype lf); s = trim_space (lf_snippet lf) in
      contains_str ct ''application/json'' \<or> contains_str ct ''application/problem+json'' \<or> prefix ''{'' s \<or> prefix ''['' s)"

definition lf_unreachable :: "login_failure \<Rightarrow> bool" where
  "lf_unreachable lf = isNetworkUnreachable (Some (lf_chain lf)) (lf_text lf)"

fun try_creds :: "wave_radio \<Rightarrow> pollJob \<Rightarrow> Credential list \<Rightarrow> login_failure \<Rightarrow> login_failure + string" where
  "try_creds r job [] err = Inl err"
| "try_creds r job (c # cs) err =
     (if cr_user c = pj_Username job \<and> cr_pass c = pj_Password job then try_creds r job cs err
      else case wr_login r c of
             Inr token \<Rightarrow> Inr token
           | Inl err' \<Rightarrow> if lf_unreachable err' then Inl err' else try_creds r job cs err')"

definition wave_login :: "wave_radio \<Rightarrow> pollJob \<Rightarrow> Credential list \<Rightarrow> login_failure + string" where
  "wave_login r job creds =
     (case wr_login r \<lparr>cr_user = pj_Username job, cr_pass = pj_Password job\<rparr> of
        Inr token \<Rightarrow> Inr token
      | Inl err \<Rightarrow> if lf_unreachable err then Inl err else try_creds r job creds err)"

text \<open>The body of an answer with status 200, decoded.\<close>

definition decoded :: "poll_env \<Rightarrow> get_result \<Rightarrow> jval option" where
  "decoded e g = (case g of GotBody c body \<Rightarrow> if c = 200 then pe_unmarshal e body else None | _ \<Rightarrow> None)"

definition fetchWaveConfig :: "poll_env \<Rightarrow> wave_radio \<Rightarrow> wireless_config option \<times> network_config option" where
  "fetchWaveConfig e r = wave_config_of (decoded e (wr_config r))"

section \<open>Peers from other endpoints\<close>

definition wavePeerCandidatePaths :: "string list" where
  "wavePeerCandidatePaths = [''/api/v1.0/wireless/peers'', ''/api/v1.0/statistics/wireless/peers'', ''/api/v1.0/peers'']"

definition parseWavePeerPayload :: "poll_env \<Rightarrow> string \<Rightarrow> string + jval list" where
  "parseWavePeerPayload e body =
     (if trim_space body = [] then Inr []
      else case pe_unmarshal e body of
             None \<Rightarrow> Inl ''unmarshal''
           | Some (Items vs) \<Rightarrow> Inr vs
           | Some (Members t) \<Rightarrow>
               (case sub_arr t ''peers'' of
                  Some vs \<Rightarrow> Inr vs
                | None \<Rightarrow> (case Option.bind (sub_obj t ''wireless'') (\<lambda>w. sub_arr w ''peers'') of Some vs \<Rightarrow> Inr vs | None \<Rightarrow> Inr []))
           | Some _ \<Rightarrow> Inr [])"

text \<open>The first non-empty list with its path, or the last error.\<close>

fun fetch_peers_from :: "poll_env \<Rightarrow> wave_radio \<Rightarrow> string list \<Rightarrow> string option \<Rightarrow> string option + jval list \<times> string" where
  "fetch_peers_from e r [] lastErr = Inl lastErr"
| "fetch_peers_from e r (path # paths) lastErr =
     (case wr_peers r path of
        GetFailed err \<Rightarrow> fetch_peers_from e r paths (Some err)
      | ReadFailed err \<Rightarrow> fetch_peers_from e r paths (Some err)
      | GotBody c body \<Rightarrow>
          (if c \<noteq> 200 then fetch_peers_from e r paths lastErr
           else case parseWavePeerPayload e body of
                  Inl err \<Rightarrow> fetch_peers_from e r paths (Some err)
                | Inr [] \<Rightarrow> fetch_peers_from e r paths lastErr
                | Inr vs \<Rightarrow> Inr (vs, path)))"

definition fetchWavePeersFallback :: "poll_env \<Rightarrow> wave_radio \<Rightarrow> string option + jval list \<times> string" where
  "fetchWavePeersFallback e r = fetch_peers_from e r wavePeerCandidatePaths None"

section \<open>Static information\<close>

definition first_of :: "obj \<Rightarrow> string list \<Rightarrow> string" where
  "first_of m keys = first_text (map (getString m) keys)"

definition first_in :: "obj \<Rightarrow> string \<Rightarrow> string list \<Rightarrow> string" where
  "first_in m part keys = (case sub_obj m part of None \<Rightarrow> [] | Some o' \<Rightarrow> first_of o' keys)"

definition fetchSystemName :: "poll_env \<Rightarrow> wave_radio \<Rightarrow> string" where
  "fetchSystemName e r =
     (case Option.bind (decoded e (wr_system r)) as_object of
        None \<Rightarrow> []
      | Some sys \<Rightarrow>
          first_text [first_of sys [''name'', ''hostname'', ''deviceName''],
            first_in sys ''general'' [''name'', ''deviceName'', ''hostname''],
            first_in sys ''device'' [''name'', ''deviceName''],
            first_in sys ''identification'' [''hostname'', ''name'']])"

definition static_hostname :: "poll_env \<Rightarrow> wave_radio \<Rightarrow> obj \<Rightarrow> obj \<Rightarrow> string" where
  "static_hostname e r device ident =
     (let known = first_text [first_of ident [''hostname'', ''name''], first_in device ''host'' [''hostname'', ''name''],
            first_in device ''device'' [''name'', ''hostname''], first_in device ''general'' [''name'', ''deviceName'']]
      in if known \<noteq> [] then known else fetchSystemName e r)"

definition isHexString :: "string \<Rightarrow> bool" where
  "isHexString s = list_all (\<lambda>c. is_digit c \<or> CHR ''a'' \<le> c \<and> c \<le> CHR ''f'' \<or> CHR ''A'' \<le> c \<and> c \<le> CHR ''F'') s"

text \<open>What follows the dot of the first ".v".\<close>

fun after_dot_v :: "string \<Rightarrow> string option" where
  "after_dot_v [] = None"
| "after_dot_v (c # cs) = (if prefix ''.v'' (c # cs) then Some cs else after_dot_v cs)"

fun version_parts :: "string list \<Rightarrow> string list" where
  "version_parts [] = []"
| "version_parts (p # ps) =
     (if p = [] then version_parts ps
      else if is_digit (hd p) then (if 6 \<le> length p \<and> isHexString (take 6 p) then [] else p # version_parts ps)
      else [])"

definition extractFirmwareVersion :: "string \<Rightarrow> string" where
  "extractFirmwareVersion firmware =
     (let fw = (case (if prefix ''.v'' firmware then None else after_dot_v firmware) of
                  Some rest \<Rightarrow> rest
                | None \<Rightarrow> if prefix ''v'' firmware then firmware else [])
      in if \<not> prefix ''v'' fw then []
         else
           (let parts = split_on (\<lambda>c. c = CHR ''.'') fw; result = hd parts # version_parts (tl parts)
            in if 2 \<le> length result then join ''.'' result else []))"

definition supported_flavor :: "obj \<Rightarrow> string" where
  "supported_flavor device =
     (case Option.bind (Option.bind (sub_obj device ''capabilities'') (\<lambda>c. sub_obj c ''device'')) (\<lambda>d. sub_arr d ''supportedFirmwares'') of
        Some (Members first # _) \<Rightarrow> to_lower (getString first ''flavor'')
      | _ \<Rightarrow> [])"

text \<open>The columns a poll of the static information may change.\<close>

record static_info =
  si_firmware :: string
  si_version :: string
  si_hostname :: string
  si_product :: string
  si_model :: string
  si_mac :: string
  si_flavor :: string

definition static_info_of :: "poll_env \<Rightarrow> wave_radio \<Rightarrow> string \<Rightarrow> obj \<Rightarrow> obj \<Rightarrow> static_info" where
  "static_info_of e r expectedMAC device ident =
     (let full = getString ident ''firmware'';
          version = (let v = getString ident ''firmwareVersion'' in if v = [] then extractFirmwareVersion full else v);
          res = canonicalizeDeviceMAC expectedMAC [to_lower (getString ident ''mac'')];
          mac = (if cm_Mismatch res then [] else if cm_Canonical res \<noteq> [] then cm_Canonical res else to_lower (getString ident ''mac''));
          flavor = keep_or (supported_flavor device) (flavor_of full)
      in \<lparr>si_firmware = truncateForDB (if full = [] \<and> version \<noteq> [] then version else full) 128,
          si_version = truncateForDB version 32, si_hostname = truncateForDB (static_hostname e r device ident) 128,
          si_product = truncateForDB (getString ident ''product'') 64, si_model = truncateForDB (getString ident ''model'') 32,
          si_mac = truncateForDB mac 17, si_flavor = truncateForDB flavor 16\<rparr>)"

definition mac_taken :: "inv_row list \<Rightarrow> string \<Rightarrow> int \<Rightarrow> bool" where
  "mac_taken table mac device = list_ex (\<lambda>d. iv_mac d = mac \<and> iv_id d \<noteq> device) table"

definition static_update :: "inv_row list \<Rightarrow> static_info \<Rightarrow> inv_row \<Rightarrow> inv_row" where
  "static_update table i r = r\<lparr>iv_firmware := keep_or (si_firmware i) (iv_firmware r),
     iv_firmware_version := keep_or (si_version i) (iv_firmware_version r), iv_hostname := keep_or (si_hostname i) (iv_hostname r),
     iv_product := keep_or (si_product i) (iv_product r), iv_model := keep_or (si_model i) (iv_model r),
     iv_mac := (if si_mac i = [] \<or> mac_taken table (si_mac i) (iv_id r) then iv_mac r else si_mac i),
     iv_flavor := keep_or (si_flavor i) (iv_flavor r)\<rparr>"

text \<open>The condition of the statement: some column would differ from what was read.\<close>

definition static_differs :: "inv_row list \<Rightarrow> static_info \<Rightarrow> inv_row \<Rightarrow> bool" where
  "static_differs table i r \<longleftrightarrow>
     iv_firmware r \<noteq> si_firmware i \<or> iv_firmware_version r \<noteq> si_version i \<or> iv_hostname r \<noteq> si_hostname i
     \<or> iv_product r \<noteq> si_product i \<or> iv_model r \<noteq> si_model i \<or> si_flavor i \<noteq> [] \<and> iv_flavor r \<noteq> si_flavor i
     \<or> si_mac i \<noteq> [] \<and> \<not> mac_taken table (si_mac i) (iv_id r) \<and> iv_mac r \<noteq> si_mac i"

text \<open>The host of the notice is the base URL without "https://".\<close>

definition checkStaticInfo :: "poll_env \<Rightarrow> wave_radio \<Rightarrow> string \<Rightarrow> int \<Rightarrow> string \<Rightarrow> poller \<Rightarrow> poller" where
  "checkStaticInfo e r baseURL device expectedMAC p =
     (case Option.bind (decoded e (wr_device r)) as_object of
        None \<Rightarrow> p
      | Some dev \<Rightarrow>
          (case sub_obj dev ''identification'' of
             None \<Rightarrow> p
           | Some ident \<Rightarrow>
               (let i = static_info_of e r expectedMAC dev ident; hit = (\<lambda>x. iv_id x = device \<and> static_differs (po_table p) i x) in
                if pe_fails e ''wave_static_info_update'' (int_str device) then p
                else if list_ex hit (po_table p)
                then tell (InfoNotice device (trim_prefix baseURL ''https://'') (if mac_taken (po_table p) (si_mac i) device then [] else si_mac i))
                       (p\<lparr>po_table := update_where hit (static_update (po_table p) i) (po_table p)\<rparr>)
                else p)))"

section \<open>One poll\<close>

datatype pollResult = pollNotThisType | pollFailed | pollSuccess

definition existing_entry :: "pollJob \<Rightarrow> store \<Rightarrow> device_stats option" where
  "existing_entry job s = (case GetByMAC s (pj_MAC job) of Some d \<Rightarrow> Some d | None \<Rightarrow> Get s (pj_IP job))"

text \<open>A radio that answered, but not with statistics: the device is unknown, and so are its stations.\<close>

definition answered_badly :: "poll_env \<Rightarrow> time \<Rightarrow> pollJob \<Rightarrow> string \<Rightarrow> string \<Rightarrow> string \<Rightarrow> poller \<Rightarrow> poller" where
  "answered_badly e now job reason msg err p =
     (let p1 = p\<lparr>po_circuits := recordFailure now (pj_IP job) False (po_circuits p)\<rparr> in
      case set_status now (pj_MAC job) (pj_IP job) StatusUnknown reason msg True p1 of
        (leftOnline, p2) \<Rightarrow>
          (let p3 = on_store (TrackStabilityStatus now (pj_IP job) [] StatusUnknown 0) p2;
               p4 = tell (StatusNotice (pj_DeviceID job) (pj_MAC job) (pj_IP job) ''unknown'' reason err) p3
           in if leftOnline then updateChildrenStatus e now (pj_DeviceID job) ''unknown'' p4 else p4))"

definition with_config :: "poll_env \<Rightarrow> wave_radio \<Rightarrow> pollJob \<Rightarrow> device_stats \<Rightarrow> poller \<Rightarrow> device_stats \<times> poller" where
  "with_config e r job ds p =
     (case shouldFetchConfig (pj_IP job) (po_cycles p) of
        (fetch, cycles) \<Rightarrow>
          (let (cfg, net) = (if fetch then fetchWaveConfig e r
                             else case existing_entry job (po_store p) of
                                    None \<Rightarrow> (None, None) | Some old \<Rightarrow> (ds_Config old, ds_Network old));
               ds1 = (if cfg \<noteq> None then ds\<lparr>ds_Config := cfg\<rparr> else ds)
           in (if net \<noteq> None then ds1\<lparr>ds_Network := net\<rparr> else ds1, p\<lparr>po_cycles := cycles\<rparr>)))"

definition synced :: "radio_stats option \<Rightarrow> bool" where
  "synced r = (case r of None \<Rightarrow> False | Some x \<Rightarrow> radio_GPSSyncState x = 2)"

definition with_gps_sync :: "device_stats \<Rightarrow> device_stats" where
  "with_gps_sync ds =
     (let w = ds_Wireless ds in
      ds\<lparr>ds_Config := map_option (\<lambda>c. c\<lparr>cfg_GPSSync := (synced (wl_Radio60GHz w) \<or> synced (wl_RadioLTU w) \<or> synced (wl_Radio5GHz w))\<rparr>) (ds_Config ds)\<rparr>)"

definition with_fallback_peers ::
  "poll_env \<Rightarrow> wave_radio \<Rightarrow> pollJob \<Rightarrow> device_stats \<Rightarrow> peer_stats list \<Rightarrow> poller \<Rightarrow> peer_stats list \<times> poller" where
  "with_fallback_peers e r job ds peers p =
     (let isAP = (case ds_Config ds of Some c \<Rightarrow> cfg_Mode c = ''ap'' \<or> to_lower (pj_Role job) = ''ap'' | None \<Rightarrow> to_lower (pj_Role job) = ''ap'') in
      if \<not> isAP then (peers, p)
      else
        (let attempt = (peers = [] \<and> pc_wavePeerFallback (po_cfg p));
             counters = (if attempt then recordWavePeerFallbackAttempt (po_counters p) else po_counters p);
             found = (if attempt then
                        (case fetchWavePeersFallback e r of
                           Inr (vs, _) \<Rightarrow> List.map_filter (parsePeer (pj_Platform job) None) (objects vs)
                         | Inl _ \<Rightarrow> peers)
                      else peers)
         in (found, p\<lparr>po_counters := recordWavePeerSource (peers \<noteq> []) (attempt \<and> found \<noteq> []) counters\<rparr>)))"

definition detect_role :: "pollJob \<Rightarrow> device_stats \<Rightarrow> string" where
  "detect_role job ds =
     (let inferred = ri_Role (InferRoleFromIdentity (pj_Platform job) (pj_Product job) (pj_Flavor job));
          r1 = (if equal_fold (pj_Platform job) ''ltu'' then inferred else []);
          r2 = (if r1 = [] then (case ds_Config ds of Some c \<Rightarrow> if cfg_Mode c \<noteq> [] then NormalizeRole (cfg_Mode c) else [] | None \<Rightarrow> []) else r1)
      in if r2 = [] then inferred else r2)"

definition enrichPeersWithMAC :: "poll_env \<Rightarrow> pollerConfig \<Rightarrow> inv_row list \<Rightarrow> peer_stats list \<Rightarrow> peer_stats list" where
  "enrichPeersWithMAC e cfg table peers =
     (if pc_mgmtPrefixes cfg = [] then peers
      else map (\<lambda>x. if peer_MAC x \<noteq> [] \<or> peer_IP x = [] \<or> \<not> isAllowedIP e cfg (peer_IP x) then x
                    else if pe_fails e ''enrich'' (peer_IP x) then x
                    else case find (\<lambda>r. iv_ip r = peer_IP x) table of
                           Some r \<Rightarrow> if iv_mac r \<noteq> [] then x\<lparr>peer_MAC := iv_mac r\<rparr> else x
                         | None \<Rightarrow> x) peers)"

text \<open>The role is an access point's: its parent is cleared; and the stored role follows the detected one.\<close>

definition clear_ap_parent :: "poll_env \<Rightarrow> pollJob \<Rightarrow> poller \<Rightarrow> poller" where
  "clear_ap_parent e job p =
     (let hit = (\<lambda>r. iv_id r = pj_DeviceID job \<and> (iv_parent r \<noteq> None \<or> iv_parent_mac r \<noteq> [])) in
      if pe_fails e ''clear_parent'' (int_str (pj_DeviceID job)) \<or> \<not> list_ex hit (po_table p) then p
      else tell (ParentCleared (pj_DeviceID job) (pj_IP job))
             (p\<lparr>po_table := update_where hit (\<lambda>r. r\<lparr>iv_parent := None, iv_parent_mac := []\<rparr>) (po_table p)\<rparr>))"

definition store_role :: "poll_env \<Rightarrow> pollJob \<Rightarrow> string \<Rightarrow> poller \<Rightarrow> poller" where
  "store_role e job role p =
     (if role = [] \<or> role = pj_Role job then p
      else
        (let f = (if role = ''ap'' then (\<lambda>r. r\<lparr>iv_role := ''ap'', iv_parent := None, iv_parent_mac := []\<rparr>) else (\<lambda>r. r\<lparr>iv_role := ''sta''\<rparr>));
             p1 = (if pe_fails e ''wave_role'' (int_str (pj_DeviceID job)) then p
                   else p\<lparr>po_table := update_where (\<lambda>r. iv_id r = pj_DeviceID job) f (po_table p)\<rparr>)
         in tell (RoleNotice (pj_DeviceID job) (pj_IP job) role) p1))"

definition store_hostname :: "poll_env \<Rightarrow> pollJob \<Rightarrow> string \<Rightarrow> poller \<Rightarrow> poller" where
  "store_hostname e job name p =
     (if pe_fails e ''wave_update_hostname'' (int_str (pj_DeviceID job)) then p
      else p\<lparr>po_table := update_where (\<lambda>r. iv_id r = pj_DeviceID job) (\<lambda>r. r\<lparr>iv_hostname := name\<rparr>) (po_table p)\<rparr>)"

text \<open>What follows once the statistics are the device's own.\<close>

definition apply_stats ::
  "poll_env \<Rightarrow> time \<Rightarrow> wave_radio \<Rightarrow> string \<Rightarrow> pollJob \<Rightarrow> device_stats \<Rightarrow> peer_stats list \<Rightarrow> poller \<Rightarrow> poller" where
  "apply_stats e now r baseURL job ds0 peers p =
     (let old = existing_entry job (po_store p);
          hostnameChanged = (ds_Hostname ds0 \<noteq> [] \<and> (case old of None \<Rightarrow> True | Some o' \<Rightarrow> ds_Hostname o' \<noteq> ds_Hostname ds0));
          role = detect_role job ds0;
          (accepted, empties) = (if role = ''ap'' then acceptPeerSnapshot (pj_DeviceID job) (length peers) (po_empties p) else (True, po_empties p));
          ds = (case old of Some o' \<Rightarrow> if accepted then ds0 else ds0\<lparr>ds_PeerCount := ds_PeerCount o', ds_Peers := ds_Peers o'\<rparr> | None \<Rightarrow> ds0);
          (becameOnline, s1) = Update now (pj_IP job) ds (po_store p);
          s2 = TrackStabilityStatus now (pj_IP job) (ds_Hostname ds) StatusOnline (ds_Uptime ds) s1;
          peers' = (if role = ''ap'' \<and> accepted then enrichPeersWithMAC e (po_cfg p) (po_table p) peers else peers);
          (changes, s3) = (if role = ''ap'' then (if accepted then UpdatePeers now (ds_MAC ds) (pj_IP job) (map Some peers') s2 else ([], s2))
                           else UpdatePeers now (ds_MAC ds) (pj_IP job) [] s2);
          entry = map_of (so_devices s3) (device_key (NormalizeMAC (ds_MAC ds)) (pj_IP job));
          p1 = tell (StatsNotice (pj_DeviceID job) (NormalizeMAC (ds_MAC ds)) (pj_IP job) entry) (p\<lparr>po_store := s3, po_empties := empties\<rparr>);
          p2 = (if role = ''ap'' then clear_ap_parent e job p1 else p1);
          p3 = (if role = ''ap'' \<and> accepted then updateSTAsInDB e now (pj_DeviceID job) peers' changes p2 else p2);
          p4 = store_role e job role p3;
          p5 = (if becameOnline then clearIdentityMismatch e (pj_DeviceID job) p4 else p4);
          p6 = (if hostnameChanged then store_hostname e job (ds_Hostname ds) p5 else p5)
      in checkStaticInfo e r baseURL (pj_DeviceID job) (pj_MAC job) p6)"

definition pollDeviceWave :: "poll_env \<Rightarrow> time \<Rightarrow> wave_radio \<Rightarrow> string \<Rightarrow> pollJob \<Rightarrow> poller \<Rightarrow> pollResult \<times> poller" where
  "pollDeviceWave e now r scheme job p =
     (let baseURL = scheme @ ''://'' @ pj_IP job in
      case wave_login r job (pc_apCreds (po_cfg p)) of
        Inl lf \<Rightarrow>
          (case lf_chain lf of
             HttpStatus c # _ \<Rightarrow>
               (if (c = 401 \<or> c = 403) \<and> likelyJSON lf
                then (pollFailed, answered_badly e now job ''auth_failed'' (''wave auth failed: '' @ lf_text lf) (lf_text lf) p)
                else (pollNotThisType, p))
           | _ \<Rightarrow> (pollNotThisType, p))
      | Inr token \<Rightarrow>
          (case wr_stats r of
             Inl err \<Rightarrow> (pollFailed, answered_badly e now job ''stats_failed'' (''stats failed: '' @ err) err p)
           | Inr body \<Rightarrow>
               (case parseStats (pe_unmarshal e) (pj_Platform job) (pc_waveMLOMultiRadio (po_cfg p)) now (po_counters p) body of
                  (ds, peers, counters) \<Rightarrow>
                    (let p1 = p\<lparr>po_counters := counters\<rparr>; res = canonicalizeDeviceMAC (pj_MAC job) [ds_MAC ds] in
                     if cm_Mismatch res then (pollFailed, handleMACMismatch e now job ''wave'' (cm_Observed res) p1)
                     else
                       (let ds1 = ds\<lparr>ds_IP := pj_IP job, ds_MAC := (if cm_Canonical res \<noteq> [] then cm_Canonical res else ds_MAC ds)\<rparr>;
                            (ds2, p2) = with_config e r job ds1 p1;
                            ds3 = with_gps_sync ds2;
                            (peers', p3) = with_fallback_peers e r job ds3 peers p2
                        in (pollSuccess, apply_stats e now r baseURL job ds3 peers' p3))))))"

section \<open>Polling all devices\<close>

text \<open>\<open>airmax\<close> is the poll of an airMAX radio.\<close>

definition correct_platform :: "poll_env \<Rightarrow> pollJob \<Rightarrow> poller \<Rightarrow> poller" where
  "correct_platform e job p =
     (if pe_fails e ''correct_platform_airmax'' (int_str (pj_DeviceID job)) then p
      else p\<lparr>po_table := update_where (\<lambda>r. iv_id r = pj_DeviceID job) (\<lambda>r. r\<lparr>iv_platform := ''airmax''\<rparr>) (po_table p)\<rparr>)"

definition poll_succeeded :: "pollJob \<Rightarrow> poller \<Rightarrow> poller" where
  "poll_succeeded job p = p\<lparr>po_circuits := recordSuccess (pj_IP job) (po_circuits p)\<rparr>"

definition pollDevice ::
  "poll_env \<Rightarrow> time \<Rightarrow> wave_radio \<Rightarrow> string \<Rightarrow> (pollJob \<Rightarrow> poller \<Rightarrow> pollResult \<times> poller) \<Rightarrow> pollJob \<Rightarrow> poller \<Rightarrow> poller" where
  "pollDevice e now r scheme airmax job p0 =
     (let p = on_store (BindIdentityByMAC (pj_MAC job) (pj_IP job) (pj_DeviceID job) (pj_SiteID job)) p0;
          platform = to_lower (pj_Platform job)
      in if platform \<in> {''airmax'', ''ac'', ''m''} then
           (case airmax job p of (res, p1) \<Rightarrow> if res = pollSuccess then poll_succeeded job p1 else p1)
         else
           (case pollDeviceWave e now r scheme job p of
              (pollSuccess, p1) \<Rightarrow> poll_succeeded job p1
            | (pollFailed, p1) \<Rightarrow> p1
            | (pollNotThisType, p1) \<Rightarrow>
                (case airmax job p1 of
                   (res, p2) \<Rightarrow>
                     (if res = pollSuccess
                      then (let p3 = poll_succeeded job p2 in if platform = [] \<or> platform = ''wave'' then correct_platform e job p3 else p3)
                      else p2))))"

definition jobQueueSize :: nat where "jobQueueSize = 2500"

definition job_of :: "inv_row \<Rightarrow> pollJob" where
  "job_of r = \<lparr>pj_DeviceID = iv_id r, pj_SiteID = (case iv_site r of None \<Rightarrow> 0 | Some s \<Rightarrow> s), pj_MAC = to_lower (iv_mac r), pj_IP = iv_ip r,
     pj_Username = iv_username r, pj_Password = iv_password r, pj_Platform = iv_platform r, pj_Product = iv_product r,
     pj_Flavor = iv_flavor r, pj_Role = iv_role r\<rparr>"

definition station_credentials :: "inv_row \<Rightarrow> bool" where
  "station_credentials r \<longleftrightarrow> equal_fold (iv_role r) ''sta'' \<or> iv_parent r \<noteq> None"

text \<open>The loop ends when the queue is full.\<close>

fun enqueue_all :: "poll_env \<Rightarrow> time \<Rightarrow> inv_row list \<Rightarrow> poller \<Rightarrow> poller" where
  "enqueue_all e now [] p = p"
| "enqueue_all e now (r # rs) p =
     (if shouldSkip now (iv_ip r) (po_circuits p) then enqueue_all e now rs p
      else case prepareJobCredential e (po_cfg p) (station_credentials r) (job_of r) of
             Inl _ \<Rightarrow> enqueue_all e now rs p
           | Inr job \<Rightarrow>
               (if length (po_jobs p) < jobQueueSize then enqueue_all e now rs (p\<lparr>po_jobs := po_jobs p @ [job]\<rparr>) else p))"

text \<open>ORDER BY ip_address; \<open>rank\<close> is the order of addresses.\<close>

definition pollAllDevices :: "poll_env \<Rightarrow> (string \<Rightarrow> nat) \<Rightarrow> time \<Rightarrow> poller \<Rightarrow> poller" where
  "pollAllDevices e rank now p0 =
     (let p = breakStaParentLoops e p0 in
      if pe_fails e ''poll_all'' [] then p
      else on_store (\<lambda>s. RecordThroughputSample now (SetLastPoll now s))
             (enqueue_all e now (sort_key (\<lambda>r. rank (iv_ip r)) (filter (\<lambda>r. iv_parent r = None \<or> iv_managed r) (po_table p))) p))"

text \<open>A manual refresh: the breaker is cleared before the job is queued.\<close>

definition refresh_row :: "poll_env \<Rightarrow> inv_row \<Rightarrow> poller \<Rightarrow> poller" where
  "refresh_row e r p0 =
     (let p = p0\<lparr>po_circuits := recordSuccess (iv_ip r) (po_circuits p0)\<rparr> in
      case prepareJobCredential e (po_cfg p) (station_credentials r) (job_of r) of
        Inl _ \<Rightarrow> p
      | Inr job \<Rightarrow> if length (po_jobs p) < jobQueueSize then p\<lparr>po_jobs := po_jobs p @ [job]\<rparr> else p)"

definition RefreshDevice :: "poll_env \<Rightarrow> string \<Rightarrow> poller \<Rightarrow> poller" where
  "RefreshDevice e ip p =
     (let rows = filter (\<lambda>r. iv_ip r = ip) (po_table p); rank = (\<lambda>r. (\<not> iv_managed r, iv_parent r \<noteq> None, - iv_id r)) in
      if pe_fails e ''refresh'' ip then p
      else case least_by rank rows of None \<Rightarrow> p | Some r \<Rightarrow> refresh_row e r p)"

text \<open>By id, a full queue is waited for until the time-out, which is an error like the others.\<close>

definition RefreshDeviceByID :: "poll_env \<Rightarrow> int \<Rightarrow> poller \<Rightarrow> string option \<times> poller" where
  "RefreshDeviceByID e device p =
     (case (if pe_fails e ''refresh_by_id'' (int_str device) then None else find (\<lambda>r. iv_id r = device) (po_table p)) of
        None \<Rightarrow> (Some (''device id '' @ int_str device @ '' not found''), p)
      | Some r \<Rightarrow>
          (let p1 = p\<lparr>po_circuits := recordSuccess (iv_ip r) (po_circuits p)\<rparr> in
           case prepareJobCredential e (po_cfg p1) (station_credentials r) (job_of r) of
             Inl err \<Rightarrow> (Some err, p1)
           | Inr job \<Rightarrow>
               (if length (po_jobs p1) < jobQueueSize then (None, p1\<lparr>po_jobs := po_jobs p1 @ [job]\<rparr>)
                else (Some (''timeout queueing poll for device id '' @ int_str device), p1))))"

end
