(* ===== verification/WaveProofs.thy ===== *)
theory WaveProofs imports WaveParse begin

text \<open>
  What the reading of a radio's statistics guarantees: radios land in the slots of their bands, a
  slot that is named is filled, spectrum samples are bounded, and where two readings disagree.
\<close>

section \<open>Slots\<close>

definition slot_filled :: "wireless_stats \<Rightarrow> string \<Rightarrow> bool" where
  "slot_filled w s \<longleftrightarrow>
     s = ''ltu'' \<and> wl_RadioLTU w \<noteq> None \<or> s = ''60'' \<and> wl_Radio60GHz w \<noteq> None
     \<or> s = ''6'' \<and> wl_Radio6GHz w \<noteq> None \<or> s = ''5'' \<and> wl_Radio5GHz w \<noteq> None"

text \<open>While the loop runs, the id of the second 5 GHz radio has a provisional slot.\<close>

definition scan_ok :: "radio_scan \<Rightarrow> bool" where
  "scan_ok st \<longleftrightarrow>
     (\<forall>rid s. map_of (sc_slots st) rid = Some s \<longrightarrow> slot_filled (sc_wireless st) s \<or> s = ''second5'' \<and> map_option snd (sc_second5 st) = Some rid)
     \<and> (sc_second5 st \<noteq> None \<longrightarrow> wl_Radio5GHz (sc_wireless st) \<noteq> None) \<and> \<not> has_key (sc_slots st) []"

lemma keep_first_None [simp]: "keep_first r None = Some r"
  by (simp add: keep_first_def)

lemma keep_first_Some [simp]: "keep_first r old \<noteq> None" "old \<noteq> None \<Longrightarrow> keep_first r old = old"
  by (auto simp: keep_first_def split: option.splits)

lemma scan_ok_name:
  "scan_ok st \<Longrightarrow> slot_filled (sc_wireless st) s \<Longrightarrow> scan_ok (name_slot rid s st)"
  by (auto simp: scan_ok_def name_slot_def has_key_def)

lemma scan_ok_grow:
  assumes "scan_ok st" and "\<And>s. slot_filled (sc_wireless st) s \<Longrightarrow> slot_filled w s"
    and "wl_Radio5GHz (sc_wireless st) \<noteq> None \<Longrightarrow> wl_Radio5GHz w \<noteq> None"
  shows "scan_ok (st\<lparr>sc_wireless := w\<rparr>)"
proof -
  have "slot_filled w s \<or> s = ''second5'' \<and> map_option snd (sc_second5 st) = Some rid" if "map_of (sc_slots st) rid = Some s" for rid s
    using assms(1,2) that unfolding scan_ok_def by blast
  moreover have "sc_second5 st \<noteq> None \<Longrightarrow> wl_Radio5GHz w \<noteq> None" "\<not> has_key (sc_slots st) []"
    using assms(1,3) unfolding scan_ok_def by blast+
  ultimately show ?thesis unfolding scan_ok_def by simp
qed

lemma slot_filled_grow:
  assumes "wl_RadioLTU w \<noteq> None \<Longrightarrow> wl_RadioLTU w' \<noteq> None" "wl_Radio60GHz w \<noteq> None \<Longrightarrow> wl_Radio60GHz w' \<noteq> None"
    "wl_Radio6GHz w \<noteq> None \<Longrightarrow> wl_Radio6GHz w' \<noteq> None" "wl_Radio5GHz w \<noteq> None \<Longrightarrow> wl_Radio5GHz w' \<noteq> None"
  shows "slot_filled w s \<Longrightarrow> slot_filled w' s"
  using assms unfolding slot_filled_def by blast

lemma fill_ok:
  "scan_ok st \<Longrightarrow> scan_ok (fill60 r st)" "scan_ok st \<Longrightarrow> scan_ok (fill6 r st)"
  "scan_ok st \<Longrightarrow> scan_ok (fill5 r st)" "scan_ok st \<Longrightarrow> scan_ok (fillLTU r st)"
  unfolding fill60_def fill6_def fill5_def fillLTU_def
  by (rule scan_ok_grow, assumption, erule slot_filled_grow [rotated 4], simp_all)+

lemma slot_filled_fill:
  "slot_filled (sc_wireless (fill60 r st)) ''60''" "slot_filled (sc_wireless (fill6 r st)) ''6''"
  "slot_filled (sc_wireless (fill5 r st)) ''5''" "slot_filled (sc_wireless (fillLTU r st)) ''ltu''"
  by (auto simp: slot_filled_def fill60_def fill6_def fill5_def fillLTU_def)

lemma scan_ok_legacy: "scan_ok st \<Longrightarrow> scan_ok (legacy_slot key rid r st)"
  by (simp add: legacy_slot_def scan_ok_name fill_ok slot_filled_fill)

lemma scan_ok_counters [simp]: "scan_ok (st\<lparr>sc_counters := c\<rparr>) = scan_ok st"
  by (simp add: scan_ok_def)

lemma scan_ok_radios [simp]: "scan_ok (st\<lparr>sc_wireless := (sc_wireless st)\<lparr>wl_Radios := rs\<rparr>\<rparr>) = scan_ok st"
  by (simp add: scan_ok_def slot_filled_def)

lemma scan_ok_second:
  "scan_ok st \<Longrightarrow> sc_second5 st = None \<Longrightarrow> wl_Radio5GHz (sc_wireless st) \<noteq> None \<Longrightarrow>
     scan_ok (name_slot rid ''second5'' (st\<lparr>sc_second5 := Some (r, rid)\<rparr>))"
  by (auto simp: scan_ok_def name_slot_def has_key_def)

lemma scan_ok_place: "scan_ok st \<Longrightarrow> scan_ok (place_radio platform mlo rm st)"
  unfolding place_radio_def Let_def
  by (auto simp: scan_ok_name fill_ok slot_filled_fill scan_ok_legacy split: waveBand.split intro!: scan_ok_second)

lemma scan_ok_fold: "scan_ok st \<Longrightarrow> scan_ok (fold (place_radio platform mlo) radios st)"
  by (induction radios arbitrary: st) (simp_all add: scan_ok_place)

lemma finish_filled:
  assumes ok: "scan_ok st" and s: "map_of (sc_slots (finish_radios st)) rid = Some s"
  shows "slot_filled (sc_wireless (finish_radios st)) s"
proof -
  have old: "slot_filled (sc_wireless st) s' \<or> s' = ''second5'' \<and> map_option snd (sc_second5 st) = Some rid" if "map_of (sc_slots st) rid = Some s'" for s'
    using ok that unfolding scan_ok_def by blast
  have no_empty: "map_of (sc_slots st) [] = None" using ok by (simp add: scan_ok_def has_key_def)
  show ?thesis
  proof (cases "sc_second5 st")
    case None
    then show ?thesis using old s by (simp add: finish_radios_def)
  next
    case (Some x)
    then obtain radio rid' where x: "sc_second5 st = Some (radio, rid')" by (cases x) auto
    have five: "wl_Radio5GHz (sc_wireless st) \<noteq> None" using ok x by (simp add: scan_ok_def)
    show ?thesis
    proof (cases "wl_Radio6GHz (sc_wireless st)")
      case None
      let ?w = "(sc_wireless st)\<lparr>wl_Radio6GHz := Some (radio\<lparr>radio_DisplayBandOverride := ''5 GHz #2''\<rparr>)\<rparr>"
      have grow: "slot_filled (sc_wireless st) s' \<Longrightarrow> slot_filled ?w s'" for s' by (erule slot_filled_grow [rotated 4]) simp_all
      have six: "slot_filled ?w ''6''" by (simp add: slot_filled_def)
      show ?thesis using s x None old [of s] no_empty grow [of s] six by (auto simp: finish_radios_def name_slot_def split: if_splits)
    next
      case (Some r6)
      have "slot_filled (sc_wireless st) ''5''" using five by (simp add: slot_filled_def)
      then show ?thesis using s x Some old [of s] no_empty by (auto simp: finish_radios_def name_slot_def get_str_def split: if_splits)
    qed
  qed
qed

text \<open>
  After the radios of a device are read, every id that was given a slot names a slot of the
  device that is filled: a peer that reports under such an id is stored beside a radio the device
  has, and no provisional slot is left over.
\<close>

theorem named_slots_are_filled:
  assumes "get_str (sc_slots (scan_radios platform mlo radios \<lparr>sc_wireless = w, sc_slots = [], sc_second5 = None, sc_counters = c\<rparr>)) rid \<noteq> []"
  shows "slot_filled (sc_wireless (scan_radios platform mlo radios \<lparr>sc_wireless = w, sc_slots = [], sc_second5 = None, sc_counters = c\<rparr>))
           (slot_of platform (Some (sc_slots (scan_radios platform mlo radios \<lparr>sc_wireless = w, sc_slots = [], sc_second5 = None, sc_counters = c\<rparr>))) rid)"
proof -
  let ?st = "fold (place_radio platform mlo) radios \<lparr>sc_wireless = w, sc_slots = [], sc_second5 = None, sc_counters = c\<rparr>"
  have ok: "scan_ok ?st" by (rule scan_ok_fold) (simp add: scan_ok_def has_key_def)
  obtain s where s: "map_of (sc_slots (finish_radios ?st)) rid = Some s" "s \<noteq> []"
    using assms by (auto simp: scan_radios_def get_str_def split: option.splits)
  have "slot_filled (sc_wireless (finish_radios ?st)) s" by (rule finish_filled [OF ok s(1)])
  moreover have "s \<noteq> ''second5''" using calculation by (auto simp: slot_filled_def)
  ultimately show ?thesis using s by (simp add: scan_radios_def slot_of_def get_str_def Let_def)
qed

section \<open>Bands\<close>

definition band_of :: "obj \<Rightarrow> waveBand" where
  "band_of rm = inferWaveBand rm (Some (parseRadioStats rm))"

definition in_band :: "waveBand \<Rightarrow> obj list \<Rightarrow> radio_stats list" where
  "in_band b radios = map parseRadioStats (filter (\<lambda>rm. band_of rm = b) radios)"

definition first_radio :: "radio_stats list \<Rightarrow> radio_stats option" where
  "first_radio rs = (case rs of [] \<Rightarrow> None | r # _ \<Rightarrow> Some r)"

text \<open>The loop after \<open>radios\<close>, where all bands are known.\<close>

lemma name_slot_sel [simp]:
  "sc_wireless (name_slot rid s st) = sc_wireless st" "sc_second5 (name_slot rid s st) = sc_second5 st"
  by (simp_all add: name_slot_def)

lemma place_by_band:
  fixes st :: radio_scan
  assumes "platform \<noteq> ''ltu''" and "band_of rm \<noteq> waveBandUnknown"
  defines "st' \<equiv> place_radio platform True rm st" and "r \<equiv> parseRadioStats rm"
  shows "wl_Radio60GHz (sc_wireless st') = (if band_of rm = waveBand60GHz then keep_first r (wl_Radio60GHz (sc_wireless st)) else wl_Radio60GHz (sc_wireless st))"
    and "wl_Radio6GHz (sc_wireless st') = (if band_of rm = waveBand6GHz then keep_first r (wl_Radio6GHz (sc_wireless st)) else wl_Radio6GHz (sc_wireless st))"
    and "wl_Radio5GHz (sc_wireless st') = (if band_of rm = waveBand5GHz then keep_first r (wl_Radio5GHz (sc_wireless st)) else wl_Radio5GHz (sc_wireless st))"
    and "map_option fst (sc_second5 st') =
           (if band_of rm = waveBand5GHz \<and> wl_Radio5GHz (sc_wireless st) \<noteq> None then keep_first r (map_option fst (sc_second5 st)) else map_option fst (sc_second5 st))"
    and "wl_Radios (sc_wireless st') = wl_Radios (sc_wireless st) @ [r]"
  using assms(1,2) unfolding st'_def r_def band_of_def
  by (auto simp: place_radio_def Let_def fill60_def fill6_def fill5_def keep_first_def split: waveBand.split option.splits)

lemma in_band_snoc: "in_band b (radios @ [rm]) = in_band b radios @ (if band_of rm = b then [parseRadioStats rm] else [])"
  by (simp add: in_band_def)

lemma first_radio_simps [simp]: "first_radio [] = None" "first_radio (r # rs) = Some r"
  by (simp_all add: first_radio_def)

lemma first_radio_None [simp]: "first_radio rs = None \<longleftrightarrow> rs = []"
  by (cases rs) simp_all

lemma keep_first_snoc: "first_radio (rs @ [r]) = keep_first r (first_radio rs)"
  by (cases rs) (simp_all add: keep_first_def)

lemma second_snoc: "first_radio (drop 1 (rs @ [r])) = (if rs = [] then None else keep_first r (first_radio (drop 1 rs)))"
  by (cases rs; cases "tl rs") (auto simp: keep_first_def)

lemma scan_by_band:
  fixes c :: WaveParseCounters
  assumes "platform \<noteq> ''ltu''" and "waveBandUnknown \<notin> band_of ` set radios"
    and "wl_Radio60GHz w = None" "wl_Radio6GHz w = None" "wl_Radio5GHz w = None"
  defines "st \<equiv> fold (place_radio platform True) radios \<lparr>sc_wireless = w, sc_slots = [], sc_second5 = None, sc_counters = c\<rparr>"
  shows "wl_Radio60GHz (sc_wireless st) = first_radio (in_band waveBand60GHz radios)
    \<and> wl_Radio6GHz (sc_wireless st) = first_radio (in_band waveBand6GHz radios)
    \<and> wl_Radio5GHz (sc_wireless st) = first_radio (in_band waveBand5GHz radios)
    \<and> map_option fst (sc_second5 st) = first_radio (drop 1 (in_band waveBand5GHz radios))
    \<and> wl_Radios (sc_wireless st) = wl_Radios w @ map parseRadioStats radios"
  using assms(2) unfolding st_def
proof (induction radios rule: rev_induct)
  case Nil
  then show ?case using assms(3-5) by (simp add: in_band_def)
next
  case (snoc rm radios)
  then have "band_of rm \<noteq> waveBandUnknown" by auto
  note step = place_by_band [OF assms(1) this]
  show ?case using snoc by (simp add: step in_band_snoc keep_first_snoc second_snoc [unfolded One_nat_def] del: drop_append)
qed

lemma finish_sel:
  "wl_Radio60GHz (sc_wireless (finish_radios st)) = wl_Radio60GHz (sc_wireless st)"
  "wl_Radio5GHz (sc_wireless (finish_radios st)) = wl_Radio5GHz (sc_wireless st)"
  "wl_Radios (sc_wireless (finish_radios st)) = wl_Radios (sc_wireless st)"
  "wl_Radio6GHz (sc_wireless (finish_radios st)) =
     (case wl_Radio6GHz (sc_wireless st) of
        Some r \<Rightarrow> Some r
      | None \<Rightarrow> map_option (\<lambda>r. r\<lparr>radio_DisplayBandOverride := ''5 GHz #2''\<rparr>) (map_option fst (sc_second5 st)))"
  by (auto simp: finish_radios_def split: option.splits prod.splits)

text \<open>C40. With band inference on, and every band recognised, the slots of a Wave radio are the first
  radios of their bands; a second 5 GHz radio is stored as "5 GHz #2" in the 6 GHz slot exactly when
  there is no 6 GHz radio; and the list of radios is complete, in order.
\<close>

theorem radios_by_band:
  assumes "platform \<noteq> ''ltu''" and "waveBandUnknown \<notin> band_of ` set radios"
    and "wl_Radio60GHz w = None" "wl_Radio6GHz w = None" "wl_Radio5GHz w = None" "wl_Radios w = []"
    and "w' = sc_wireless (scan_radios platform True radios \<lparr>sc_wireless = w, sc_slots = [], sc_second5 = None, sc_counters = c\<rparr>)"
  shows "wl_Radio60GHz w' = first_radio (in_band waveBand60GHz radios)
    \<and> wl_Radio5GHz w' = first_radio (in_band waveBand5GHz radios)
    \<and> wl_Radio6GHz w' =
        (if in_band waveBand6GHz radios \<noteq> [] then first_radio (in_band waveBand6GHz radios)
         else map_option (\<lambda>r. r\<lparr>radio_DisplayBandOverride := ''5 GHz #2''\<rparr>) (first_radio (drop 1 (in_band waveBand5GHz radios))))
    \<and> wl_Radios w' = map parseRadioStats radios"
  using scan_by_band [OF assms(1-5), of c] assms(6) unfolding assms(7) scan_radios_def finish_sel
  by (cases "in_band waveBand6GHz radios") simp_all

definition no_counters :: WaveParseCounters where
  "no_counters = \<lparr>wc_band5GHz = 0, wc_band6GHz = 0, wc_band60GHz = 0, wc_bandUnknown = 0, wc_peerFromStats = 0,
     wc_peerFromFallback = 0, wc_peerFallbackAttempted = 0, wc_peerNone = 0\<rparr>"

definition demo_radio_json :: "string \<Rightarrow> obj" where
  "demo_radio_json rid = [(''id'', Text rid), (''frequency'', Members [(''tx'', Number (Fin 5500))])]"

lemma demo_band: "band_of (demo_radio_json rid) = waveBand5GHz"
  by (simp add: band_of_def inferWaveBand_def demo_radio_json_def parseRadioStats_def parse_frequency_def with_obj_def sub_obj_def
      get_int_def getFloat_def getString_def has_key_def zero_radio_stats_def Let_def)

text \<open>Two 5 GHz radios: the second goes to the 6 GHz slot.\<close>

theorem radios_by_band_witness:
  "wl_Radio6GHz (sc_wireless (scan_radios ''wave'' True [demo_radio_json ''main'', demo_radio_json ''backup'']
       \<lparr>sc_wireless = zero_wireless_stats, sc_slots = [], sc_second5 = None, sc_counters = no_counters\<rparr>))
     = Some ((parseRadioStats (demo_radio_json ''backup''))\<lparr>radio_DisplayBandOverride := ''5 GHz #2''\<rparr>)"
  using radios_by_band [of "''wave''" "[demo_radio_json ''main'', demo_radio_json ''backup'']" zero_wireless_stats, OF _ _ _ _ _ _ refl]
  by (simp add: demo_band in_band_def zero_wireless_stats_def)

section \<open>Spectrum samples\<close>

definition airview_point_of :: "jval \<Rightarrow> airview_point option" where
  "airview_point_of v =
     (case v of Members m \<Rightarrow> if get_int m ''frequency'' = 0 then None
                             else Some \<lparr>av_FrequencyMHz = get_int m ''frequency'', av_UsagePct = get_int m ''usage''\<rparr>
      | _ \<Rightarrow> None)"

lemma airview_loop_take:
  "airview_loop rs out = out @ take (512 - length out) (List.map_filter airview_point_of rs)"
proof (induction rs arbitrary: out)
  case (Cons r rs)
  show ?case
  proof (cases "512 \<le> length out")
    case False
    then show ?thesis using Cons
      by (cases r) (auto simp: airview_point_of_def List.map_filter_simps maxAirViewUtilizationPoints_def Suc_diff_Suc take_Cons' split: if_splits)
  qed (simp add: maxAirViewUtilizationPoints_def)
qed (simp add: List.map_filter_simps)

lemma airview_is_prefix: "parseAirViewUtilization raw = take 512 (List.map_filter airview_point_of raw)"
  by (simp add: parseAirViewUtilization_def airview_loop_take)

section \<open>Disagreements\<close>

lemma place_keeps_ltu:
  "wl_RadioLTU (sc_wireless st) \<noteq> None \<Longrightarrow> wl_RadioLTU (sc_wireless (place_radio platform mlo rm st)) = wl_RadioLTU (sc_wireless st)"
  by (auto simp: place_radio_def Let_def legacy_slot_def fill60_def fill6_def fill5_def fillLTU_def split: waveBand.split)

lemma scan_keeps_ltu:
  "wl_RadioLTU (sc_wireless st) \<noteq> None \<Longrightarrow> wl_RadioLTU (sc_wireless (scan_radios platform mlo radios st)) = wl_RadioLTU (sc_wireless st)"
proof -
  have "wl_RadioLTU (sc_wireless st) \<noteq> None \<Longrightarrow>
      wl_RadioLTU (sc_wireless (fold (place_radio platform mlo) radios st)) = wl_RadioLTU (sc_wireless st)"
    by (induction radios arbitrary: st) (simp_all add: place_keeps_ltu)
  then show "wl_RadioLTU (sc_wireless st) \<noteq> None \<Longrightarrow> ?thesis"
    by (auto simp: scan_radios_def finish_radios_def split: option.splits prod.splits)
qed

text \<open>
  The statistics of an LTU station that reports its signal beside its radios never contain its
  radio: the placeholder made for the signal fills the slot, so that frequency, width, power and
  capacity of the radio "main" are lost.
\<close>

theorem ltu_station_loses_radio:
  assumes "get_int wireless ''signal'' \<noteq> 0" and "wl_RadioLTU w0 = None"
    and "parse_wireless ''ltu'' mlo c wireless w0 = (w, peers, c')"
  shows "\<exists>r. wl_RadioLTU w = Some r \<and> radio_Signal r = get_int wireless ''signal'' \<and> radio_Frequency r = 0 \<and> radio_ChannelWidth r = 0
    \<and> radio_TxPower r = 0 \<and> radio_Capacity r = None"
proof -
  let ?w1 = "w0\<lparr>wl_ServiceUptime := get_int wireless ''serviceUptime'', wl_ServiceDowntime := get_int wireless ''serviceDowntime''\<rparr>"
  let ?w2 = "parse_root_signal ''ltu'' wireless ?w1"
  let ?w3 = "with_obj wireless ''linkQuality'' parse_wireless_quality ?w2"
  have two: "wl_RadioLTU ?w2 = Some (root_signal wireless (zero_radio_stats\<lparr>radio_ID := ''main'', radio_LinkState := ''connected''\<rparr>))"
    using assms(1,2) by (simp add: parse_root_signal_def Let_def)
  have three: "wl_RadioLTU ?w3 = wl_RadioLTU ?w2"
    by (auto simp: with_obj_def parse_wireless_quality_def Let_def split: option.splits)
  have "w = sc_wireless (scan_radios ''ltu'' mlo (objects_at wireless ''radios'') \<lparr>sc_wireless = ?w3, sc_slots = [], sc_second5 = None, sc_counters = c\<rparr>)"
    using assms(3) by (simp add: parse_wireless_def Let_def)
  then have "wl_RadioLTU w = wl_RadioLTU ?w3" using two three by (simp add: scan_keeps_ltu)
  then show ?thesis using two three by (simp add: root_signal_def Let_def zero_radio_stats_def)
qed

text \<open>
  The reading of the statistics and of the configuration put the lower end of the 6 GHz band at
  different frequencies: a radio between 5925 and 5944 MHz is a 5 GHz one by its statistics and a
  6 GHz one by its configuration.
\<close>

theorem band_limits_disagree:
  assumes "5925 \<le> f" and "f < 5945" and "radio_Frequency rs = f" and "radio_ChannelWidth rs < 1000" and "\<not> has_key raw ''afc''"
    and "\<not> has_key iface ''afc''" and "sub_obj iface ''frequency'' = Some freq" and "get_int freq ''band'' = f"
  shows "inferWaveBand raw (Some rs) = waveBand5GHz \<and> inferWaveBandFromConfigInterface iface = waveBand6GHz"
  using assms by (simp add: inferWaveBand_def inferWaveBandFromConfigInterface_def)

end
