(* ===== verification/PollProofs.thy ===== *)
theory PollProofs imports PollWave WaveProofs StatsInvariant begin

text \<open>
  What a poll may do to the inventory and the live store: access points stay access points, stations
  missing from an accepted list go offline, a foreign or unreadable answer, the queue, and the
  parents that are polled.
\<close>

section \<open>Entries of the store\<close>

lemma NormalizeMAC_lower [simp]: "NormalizeMAC (to_lower m) = NormalizeMAC m" "to_lower (NormalizeMAC m) = NormalizeMAC m"
  by (simp_all add: NormalizeMAC_def to_lower_def)

lemma NormalizeMAC_Nil [simp]: "NormalizeMAC m = [] \<longleftrightarrow> m = []"
  by (simp add: NormalizeMAC_def to_lower_def)

lemma SetStatus_entry:
  assumes "mac \<noteq> []"
  shows "\<exists>d. map_of (so_devices (snd (SetStatusByMACChanged now mac ip st reason msg seen s))) (NormalizeMAC mac) = Some d
     \<and> ds_Status d = normalizeStatus st \<and> ds_Online d = (normalizeStatus st = StatusOnline) \<and> ds_StatusReason d = reason"
    and "k \<noteq> NormalizeMAC mac \<Longrightarrow>
      map_of (so_devices (snd (SetStatusByMACChanged now mac ip st reason msg seen s))) k = map_of (so_devices s) k"
  using assms by (auto simp: SetStatusByMACChanged_def Let_def resolve_mac_def device_key_def)

lemma set_status_store: "po_store (snd (set_status now mac ip st reason msg seen p)) = snd (SetStatusByMACChanged now mac ip st reason msg seen (po_store p))"
  by (simp add: set_status_def SetStatusByMAC_def split: prod.splits)

lemma set_status_table [simp]: "po_table (snd (set_status now mac ip st reason msg seen p)) = po_table p"
  by (simp add: set_status_def split: prod.splits)

lemma Bind_entry:
  "mac \<noteq> [] \<Longrightarrow> k \<noteq> NormalizeMAC mac \<Longrightarrow> \<not> prefix ''ip:'' k \<Longrightarrow>
     map_of (so_devices (BindIdentityByMAC mac ip i j s)) k = map_of (so_devices s) k"
  by (auto simp: BindIdentityByMAC_def Let_def resolve_mac_def device_key_def ipKey_def)

lemma tell_sel [simp]: "po_store (tell n p) = po_store p" "po_table (tell n p) = po_table p" "po_cfg (tell n p) = po_cfg p"
  by (simp_all add: tell_def)

lemma on_store_sel [simp]: "po_store (on_store f p) = f (po_store p)" "po_table (on_store f p) = po_table p"
  by (simp_all add: on_store_def)

section \<open>Stations missing from the list\<close>

lemma mark_missing_table [simp]: "po_table (mark_missing now r p) = po_table p"
  by (simp add: mark_missing_def Let_def split: prod.splits)

lemma mark_missing_store:
  "po_store (mark_missing now r p) = snd (SetStatusByMACChanged now (to_lower (iv_mac r)) (iv_ip r) StatusOffline ''not_associated'' [] False
     (BindIdentityByMAC (to_lower (iv_mac r)) (iv_ip r) (iv_id r) (case iv_site r of None \<Rightarrow> 0 | Some s \<Rightarrow> s) (po_store p)))"
  by (simp add: mark_missing_def Let_def split: prod.split)

lemma offline_is_normal: "normalizeStatus StatusOffline = StatusOffline"
  by (simp add: normalizeStatus_def)

lemma mark_missing_entry:
  assumes "iv_mac r \<noteq> []"
  shows "\<exists>d. map_of (so_devices (po_store (mark_missing now r p))) (NormalizeMAC (iv_mac r)) = Some d
     \<and> ds_Status d = StatusOffline \<and> \<not> ds_Online d \<and> ds_StatusReason d = ''not_associated''"
proof -
  have "to_lower (iv_mac r) \<noteq> []" using assms by simp
  from SetStatus_entry(1) [OF this, of now "iv_ip r" StatusOffline "''not_associated''" "[]" False] show ?thesis
    unfolding mark_missing_store offline_is_normal by simp
qed

lemma mark_missing_other:
  assumes "iv_mac r \<noteq> []" and "k \<noteq> NormalizeMAC (iv_mac r)" and "\<not> prefix ''ip:'' k"
  shows "map_of (so_devices (po_store (mark_missing now r p))) k = map_of (so_devices (po_store p)) k"
proof -
  have a: "to_lower (iv_mac r) \<noteq> []" and b: "k \<noteq> NormalizeMAC (to_lower (iv_mac r))" using assms by simp_all
  show ?thesis unfolding mark_missing_store by (simp only: SetStatus_entry(2) [OF a b] Bind_entry [OF a b assms(3)])
qed

lemma child_status_store:
  "po_store (child_status now status reason r p) = snd (SetStatusByMACChanged now (to_lower (iv_mac r)) (iv_ip r) status reason [] False
     (BindIdentityByMAC (to_lower (iv_mac r)) (iv_ip r) (iv_id r) (case iv_site r of None \<Rightarrow> 0 | Some s \<Rightarrow> s) (po_store p)))"
  by (simp add: child_status_def set_status_store Let_def)

lemma child_status_table [simp]: "po_table (child_status now status reason r p) = po_table p"
  by (simp add: child_status_def Let_def)

lemma child_status_other:
  assumes "iv_mac r \<noteq> []" and "k \<noteq> NormalizeMAC (iv_mac r)" and "\<not> prefix ''ip:'' k"
  shows "map_of (so_devices (po_store (child_status now status reason r p))) k = map_of (so_devices (po_store p)) k"
proof -
  have a: "to_lower (iv_mac r) \<noteq> []" and b: "k \<noteq> NormalizeMAC (to_lower (iv_mac r))" using assms by simp_all
  show ?thesis unfolding child_status_store by (simp only: SetStatus_entry(2) [OF a b] Bind_entry [OF a b assms(3)])
qed

lemma child_status_entry:
  assumes "iv_mac r \<noteq> []"
  shows "\<exists>d. map_of (so_devices (po_store (child_status now status reason r p))) (NormalizeMAC (iv_mac r)) = Some d
     \<and> ds_Status d = normalizeStatus status \<and> ds_StatusReason d = reason"
proof -
  have "to_lower (iv_mac r) \<noteq> []" using assms by simp
  from SetStatus_entry(1) [OF this, of now "iv_ip r" status reason "[]" False] show ?thesis
    unfolding child_status_store by auto
qed

text \<open>A loop over rows that writes a status for each of them.\<close>

locale status_loop =
  fixes mark :: "inv_row \<Rightarrow> poller \<Rightarrow> poller" and marked :: "device_stats \<Rightarrow> bool"
  assumes own_entry: "iv_mac r \<noteq> [] \<Longrightarrow> \<exists>d. map_of (so_devices (po_store (mark r p))) (NormalizeMAC (iv_mac r)) = Some d \<and> marked d"
    and other_entry: "iv_mac r \<noteq> [] \<Longrightarrow> k \<noteq> NormalizeMAC (iv_mac r) \<Longrightarrow> \<not> prefix ''ip:'' k \<Longrightarrow>
      map_of (so_devices (po_store (mark r p))) k = map_of (so_devices (po_store p)) k"
    and own_table: "po_table (mark r p) = po_table p"
begin

lemma loop_table: "po_table (fold mark rows p) = po_table p"
  by (induction rows arbitrary: p) (simp_all add: own_table)

lemma loop_others:
  "\<not> prefix ''ip:'' k \<Longrightarrow> list_all (\<lambda>r. iv_mac r \<noteq> [] \<and> NormalizeMAC (iv_mac r) \<noteq> k) rows \<Longrightarrow>
     map_of (so_devices (po_store (fold mark rows p))) k = map_of (so_devices (po_store p)) k"
  by (induction rows arbitrary: p) (auto simp: other_entry)

lemma loop_marks:
  assumes "list_all (\<lambda>r. iv_mac r \<noteq> []) rows" and "r \<in> set rows" and "\<not> prefix ''ip:'' (NormalizeMAC (iv_mac r))"
  shows "\<exists>d. map_of (so_devices (po_store (fold mark rows p))) (NormalizeMAC (iv_mac r)) = Some d \<and> marked d"
  using assms(1,2)
proof (induction rows rule: rev_induct)
  case (snoc x rows)
  have x: "iv_mac x \<noteq> []" using snoc.prems(1) by simp
  show ?case
  proof (cases "NormalizeMAC (iv_mac r) = NormalizeMAC (iv_mac x)")
    case True
    then show ?thesis using own_entry [OF x, of "fold mark rows p"] by simp
  next
    case False
    then have "r \<in> set rows" using snoc.prems(2) by auto
    then show ?thesis using other_entry [OF x False assms(3), of "fold mark rows p"] snoc.IH snoc.prems(1) by simp
  qed
qed simp

end

interpretation missing_loop: status_loop "mark_missing now"
  "\<lambda>d. ds_Status d = StatusOffline \<and> \<not> ds_Online d \<and> ds_StatusReason d = ''not_associated''" for now
  by unfold_locales (simp_all add: mark_missing_entry mark_missing_other)

interpretation child_loop: status_loop "child_status now status reason"
  "\<lambda>d. ds_Status d = normalizeStatus status \<and> ds_StatusReason d = reason" for now status reason
  by unfold_locales (simp_all add: child_status_entry child_status_other)

definition offline_entry :: "string \<Rightarrow> store \<Rightarrow> bool" where
  "offline_entry mac s \<longleftrightarrow> (\<exists>d. GetByMAC s mac = Some d \<and> ds_Status d = StatusOffline \<and> \<not> ds_Online d \<and> ds_StatusReason d = ''not_associated'')"

lemma markMissing_table [simp]: "po_table (markMissingSTAsOffline e now ap macs p) = po_table p"
  by (simp add: markMissingSTAsOffline_def missing_loop.loop_table)

section \<open>Access points\<close>

abbreviation macs_of :: "inv_row list \<Rightarrow> string list" where
  "macs_of table \<equiv> map (\<lambda>r. to_lower (iv_mac r)) table"

lemma sta_update_mac [simp]: "iv_mac (sta_update ap m ip c s t r) = iv_mac r"
  by (simp add: sta_update_def write_texts_def)

text \<open>Ids and MACs are unique, as the table demands.\<close>

definition inventory_ok :: "poller \<Rightarrow> bool" where
  "inventory_ok p \<longleftrightarrow> distinct (map iv_id (po_table p)) \<and> distinct (macs_of (po_table p))
     \<and> list_all (\<lambda>r. iv_id r < po_next p \<and> iv_mac r \<noteq> []) (po_table p)"

lemma sta_update_id [simp]: "iv_id (sta_update ap m ip c s t r) = iv_id r"
  by (simp add: sta_update_def write_texts_def)

lemma po_next_simps [simp]: "po_next (tell n p) = po_next p" "po_next (on_store f p) = po_next p" "po_next (snd (set_status now mac ip st reason msg seen p)) = po_next p"
  by (simp_all add: tell_def on_store_def set_status_def split: prod.splits)

text \<open>What a poll does to the rows of the table it has not added.\<close>

definition row_step :: "string \<Rightarrow> inv_row \<Rightarrow> inv_row \<Rightarrow> bool" where
  "row_step mac r r' \<longleftrightarrow> iv_id r' = iv_id r \<and> iv_mac r' = iv_mac r
     \<and> (NormalizeRole (iv_role r) = ''ap'' \<longrightarrow> r' = r \<or> r' = r\<lparr>iv_parent := None, iv_parent_mac := []\<rparr>)
     \<and> (to_lower (iv_mac r) \<noteq> mac \<longrightarrow> r' = r)"

lemma row_step_refl [simp]: "row_step mac r r"
  by (simp add: row_step_def)

lemma known_station_rows:
  assumes ok: "inventory_ok p" and r0: "find (\<lambda>x. to_lower (iv_mac x) = NormalizeMAC (peer_MAC peer)) (po_table p) = Some r0"
  shows "po_next (known_station e now ap av newIP peer r0 p) = po_next p
    \<and> list_all2 (row_step (NormalizeMAC (peer_MAC peer))) (po_table p) (po_table (known_station e now ap av newIP peer r0 p))"
proof -
  let ?mac = "NormalizeMAC (peer_MAC peer)"
  have in0: "r0 \<in> set (po_table p)" "to_lower (iv_mac r0) = ?mac" using find_Some_in [OF r0] by auto
  have same_id: "x = r0" if "x \<in> set (po_table p)" "iv_id x = iv_id r0" for x
    using ok distinct_map_eq [OF _ that(1) in0(1) that(2)] by (simp add: inventory_ok_def)
  have same_mac: "x = r0" if "x \<in> set (po_table p)" "to_lower (iv_mac x) = ?mac" for x
    using ok distinct_map_eq [OF _ that(1) in0(1), of "\<lambda>r. to_lower (iv_mac r)"] that(2) in0(2) by (simp add: inventory_ok_def)
  have upd: "list_all2 (row_step ?mac) (po_table p) (update_where P f (po_table p))"
    if "\<And>x. x \<in> set (po_table p) \<Longrightarrow> P x \<Longrightarrow> row_step ?mac x (f x)" for P f
    using that by (simp add: update_where_def list_all2_conv_all_nth)
  have refl: "list_all2 (row_step ?mac) (po_table p) (po_table p)" by (simp add: list.rel_refl)
  show ?thesis
  proof (cases "NormalizeRole (iv_role r0) = ''ap''")
    case True
    have "list_all2 (row_step ?mac) (po_table p) (update_where (\<lambda>x. iv_id x = iv_id r0) (\<lambda>x. x\<lparr>iv_parent := None, iv_parent_mac := []\<rparr>) (po_table p))"
      by (rule upd) (use same_id True in0(2) in \<open>auto simp: row_step_def\<close>)
    then show ?thesis using True refl by (simp add: known_station_def Let_def)
  next
    case False
    have "list_all2 (row_step ?mac) (po_table p) (update_where (\<lambda>x. to_lower (iv_mac x) = ?mac) (sta_update ap m ip c s t) (po_table p))" for m ip c s t
      by (rule upd) (use same_mac False in \<open>auto simp: row_step_def\<close>)
    then show ?thesis using False refl by (simp add: known_station_def Let_def)
  qed
qed

lemma new_station_rows:
  "new_station e now ap av newIP peer p = p
   \<or> (\<exists>row. po_table (new_station e now ap av newIP peer p) = po_table p @ [row] \<and> iv_id row = po_next p
        \<and> iv_mac row = NormalizeMAC (peer_MAC peer) \<and> po_next (new_station e now ap av newIP peer p) = po_next p + 1)"
  by (auto simp: new_station_def Let_def)

lemma row_steps_same: "list_all2 (row_step mac) rs rs' \<Longrightarrow> map iv_id rs' = map iv_id rs \<and> map iv_mac rs' = map iv_mac rs"
  by (induction rule: list_all2_induct) (auto simp: row_step_def)

text \<open>Every row of the old table has its successor in the new one.\<close>

definition rows_follow :: "string \<Rightarrow> poller \<Rightarrow> poller \<Rightarrow> bool" where
  "rows_follow mac p p' \<longleftrightarrow> list_all (\<lambda>r. list_ex (row_step mac r) (po_table p')) (po_table p)"

lemma sync_station_rows:
  assumes ok: "inventory_ok p"
  shows "inventory_ok (sync_station e now ap av ipc peer p) \<and> rows_follow (NormalizeMAC (peer_MAC peer)) p (sync_station e now ap av ipc peer p)"
proof -
  let ?mac = "NormalizeMAC (peer_MAC peer)"
  have refl: "rows_follow ?mac p p" by (auto simp: rows_follow_def list_all_iff list_ex_iff intro: row_step_refl)
  have "sync_station e now ap av ipc peer p = p
    \<or> (\<exists>r0. find (\<lambda>r. to_lower (iv_mac r) = ?mac) (po_table p) = Some r0 \<and> sync_station e now ap av ipc peer p = known_station e now ap av (map_of ipc ?mac) peer r0 p)
    \<or> peer_MAC peer \<noteq> [] \<and> find (\<lambda>r. to_lower (iv_mac r) = ?mac) (po_table p) = None \<and> sync_station e now ap av ipc peer p = new_station e now ap av (map_of ipc ?mac) peer p"
    by (simp add: sync_station_def Let_def split: option.split)
  then consider (skip) "sync_station e now ap av ipc peer p = p"
    | (known) r0 newIP where "find (\<lambda>r. to_lower (iv_mac r) = ?mac) (po_table p) = Some r0" "sync_station e now ap av ipc peer p = known_station e now ap av newIP peer r0 p"
    | (new) newIP where "peer_MAC peer \<noteq> []" "find (\<lambda>r. to_lower (iv_mac r) = ?mac) (po_table p) = None" "sync_station e now ap av ipc peer p = new_station e now ap av newIP peer p"
    by blast
  then show ?thesis
  proof cases
    case skip
    then show ?thesis using ok refl by simp
  next
    case known
    let ?p' = "known_station e now ap av newIP peer r0 p"
    have n: "po_next ?p' = po_next p" and step: "list_all2 (row_step ?mac) (po_table p) (po_table ?p')"
      using known_station_rows [OF ok known(1)] by auto
    have same: "map iv_id (po_table ?p') = map iv_id (po_table p)" "map iv_mac (po_table ?p') = map iv_mac (po_table p)"
      using row_steps_same [OF step] by auto
    have macs: "macs_of (po_table ?p') = macs_of (po_table p)"
      using arg_cong [OF same(2), of "map to_lower"] by (simp add: comp_def)
    have bounds: "list_all (\<lambda>r. iv_id r < po_next p \<and> iv_mac r \<noteq> []) (po_table ?p')"
      using step ok unfolding inventory_ok_def by (auto simp: list_all2_conv_all_nth list_all_length row_step_def)
    have "rows_follow ?mac p ?p'" using step by (auto simp: rows_follow_def list_all2_conv_all_nth list_all_length list_ex_length)
    then show ?thesis using bounds n ok by (simp add: known(2) inventory_ok_def same(1) macs)
  next
    case new
    have fresh: "?mac \<notin> set (macs_of (po_table p))" using new(2) by (auto simp: find_None_iff_set)
    have lower: "to_lower ?mac = ?mac" by simp
    show ?thesis using new_station_rows [of e now ap av newIP peer p]
    proof
      assume "new_station e now ap av newIP peer p = p"
      then show ?thesis using new(3) ok refl by simp
    next
      assume "\<exists>row. po_table (new_station e now ap av newIP peer p) = po_table p @ [row] \<and> iv_id row = po_next p
        \<and> iv_mac row = ?mac \<and> po_next (new_station e now ap av newIP peer p) = po_next p + 1"
      then obtain row where row: "po_table (new_station e now ap av newIP peer p) = po_table p @ [row]" "iv_id row = po_next p"
        "iv_mac row = ?mac" "po_next (new_station e now ap av newIP peer p) = po_next p + 1" by blast
      have "po_next p \<notin> iv_id ` set (po_table p)" using ok by (auto simp: inventory_ok_def list_all_iff)
      then show ?thesis using row fresh ok new(1) by (auto simp: new(3) inventory_ok_def rows_follow_def list_all_iff list_ex_iff lower intro: row_step_refl)
    qed
  qed
qed

lemma inventory_ok_row: "inventory_ok p \<Longrightarrow> r \<in> set (po_table p) \<Longrightarrow> r' \<in> set (po_table p) \<Longrightarrow> to_lower (iv_mac r) = to_lower (iv_mac r') \<Longrightarrow> r = r'"
  using distinct_map_eq [of "\<lambda>r. to_lower (iv_mac r)"] by (auto simp: inventory_ok_def)

lemma sync_all_ok: "inventory_ok p \<Longrightarrow> inventory_ok (fold (sync_station e now ap av ipc) peers p)"
  by (induction peers arbitrary: p) (simp_all add: sync_station_rows)

lemma sync_all_keeps:
  "inventory_ok p \<Longrightarrow> r \<in> set (po_table p) \<Longrightarrow> to_lower (iv_mac r) \<notin> (\<lambda>x. NormalizeMAC (peer_MAC x)) ` set peers
     \<Longrightarrow> r \<in> set (po_table (fold (sync_station e now ap av ipc) peers p))"
proof (induction peers arbitrary: p)
  case (Cons x xs)
  have "r \<in> set (po_table (sync_station e now ap av ipc x p))"
    using sync_station_rows [OF Cons.prems(1), of e now ap av ipc x] Cons.prems(2,3)
    by (auto simp: rows_follow_def list_all_iff list_ex_iff row_step_def dest!: bspec [OF _ Cons.prems(2)])
  then show ?case using Cons sync_station_rows [OF Cons.prems(1), of e now ap av ipc x] by simp
qed simp

lemma sync_all_aps:
  assumes "inventory_ok p" and "NormalizeRole (iv_role r) = ''ap''"
    and "r \<in> set (po_table p) \<or> r\<lparr>iv_parent := None, iv_parent_mac := []\<rparr> \<in> set (po_table p)"
  shows "r \<in> set (po_table (fold (sync_station e now ap av ipc) peers p))
     \<or> r\<lparr>iv_parent := None, iv_parent_mac := []\<rparr> \<in> set (po_table (fold (sync_station e now ap av ipc) peers p))"
  using assms(1,3)
proof (induction peers arbitrary: p)
  case (Cons x xs)
  let ?p' = "sync_station e now ap av ipc x p" and ?r = "r\<lparr>iv_parent := None, iv_parent_mac := []\<rparr>"
  have ok: "inventory_ok ?p'" and fol: "rows_follow (NormalizeMAC (peer_MAC x)) p ?p'"
    using sync_station_rows [OF Cons.prems(1)] by auto
  have "r \<in> set (po_table ?p') \<or> ?r \<in> set (po_table ?p')" using Cons.prems(2)
  proof
    assume "r \<in> set (po_table p)"
    then obtain r' where "r' \<in> set (po_table ?p')" "row_step (NormalizeMAC (peer_MAC x)) r r'"
      using fol by (auto simp: rows_follow_def list_all_iff list_ex_iff)
    then show ?thesis using assms(2) by (auto simp: row_step_def)
  next
    assume "?r \<in> set (po_table p)"
    then obtain r' where "r' \<in> set (po_table ?p')" "row_step (NormalizeMAC (peer_MAC x)) ?r r'"
      using fol by (auto simp: rows_follow_def list_all_iff list_ex_iff)
    then show ?thesis using assms(2) by (auto simp: row_step_def)
  qed
  then show ?case using Cons.IH [OF ok] by simp
qed simp

section \<open>An inventory\<close>

definition demo_row :: "int \<Rightarrow> string \<Rightarrow> string \<Rightarrow> string \<Rightarrow> int option \<Rightarrow> inv_row" where
  "demo_row i mac ip role parent = \<lparr>iv_id = i, iv_mac = mac, iv_ip = ip, iv_hostname = [], iv_model = [], iv_product = [], iv_platform = [],
     iv_flavor = [], iv_firmware = [], iv_firmware_version = [], iv_role = role, iv_parent = parent, iv_parent_mac = [], iv_ssid = None,
     iv_site = None, iv_managed = False, iv_username = [], iv_password = []\<rparr>"

text \<open>An access point with a station, and a second access point below the first.\<close>

definition demo_table :: "inv_row list" where
  "demo_table = [demo_row 1 ''a1'' ''10.0.0.1'' ''ap'' None, demo_row 2 ''a2'' ''10.0.0.2'' ''ap'' (Some 1), demo_row 3 ''a3'' ''10.0.0.3'' ''sta'' (Some 1)]"

text \<open>A radio that accepts every login and answers a request for statistics with a text.\<close>

definition demo_radio :: "string \<Rightarrow> wave_radio" where
  "demo_radio body = \<lparr>wr_login = (\<lambda>_. Inr ''token''), wr_stats = Inr body, wr_config = GetFailed [], wr_peers = (\<lambda>_. GetFailed []),
     wr_device = GetFailed [], wr_system = GetFailed []\<rparr>"

definition foreign_json :: jval where
  "foreign_json = Items [Members [(''identification'', Members [(''mac'', Text ''B7'')])]]"

definition demo_poller :: poller where
  "demo_poller = \<lparr>po_cfg = \<lparr>pc_interval = 0, pc_workerCount = 1, pc_apCreds = [], pc_staCreds = [], pc_mgmtPrefixes = [],
     pc_wavePeerFallback = False, pc_waveMLOMultiRadio = False\<rparr>, po_store = NewStore, po_circuits = [], po_cycles = [], po_empties = [],
     po_counters = no_counters, po_table = demo_table, po_next = 4, po_mismatches = [], po_jobs = [], po_hub = False, po_notices = []\<rparr>"

definition demo_env :: "(string \<Rightarrow> jval option) \<Rightarrow> poll_env" where
  "demo_env parse = \<lparr>pe_fails = (\<lambda>_ _. False), pe_is_ip = (\<lambda>_. True), pe_secret = None, pe_unmarshal = parse\<rparr>"

lemma demo_poller_ok: "inventory_ok demo_poller"
  by (simp add: inventory_ok_def demo_poller_def demo_table_def demo_row_def to_lower_def) code_simp

text \<open>C8. A station the inventory places below an access point, and that an accepted list of peers does
  not name, is offline afterwards with the reason "not_associated", whatever the other peers are and
  whichever statements about them fail.
\<close>

theorem missing_stations_go_offline:
  assumes "inventory_ok p" and "r \<in> set (po_table p)" and "iv_parent r = Some ap" and "iv_role r = ''sta''"
    and "to_lower (iv_mac r) \<notin> (\<lambda>x. NormalizeMAC (peer_MAC x)) ` set peers"
    and "\<not> prefix ''ip:'' (to_lower (iv_mac r))" and "\<not> pe_fails e ''mark_missing_stas_offline'' (int_str ap)"
  shows "offline_entry (iv_mac r) (po_store (updateSTAsInDB e now ap peers changes p))"
proof -
  let ?av = "ap_view_of e ap p" let ?q = "fold (sync_station e now ap ?av changes) peers p"
  let ?macs = "map (\<lambda>x. NormalizeMAC (peer_MAC x)) (filter (\<lambda>x. peer_MAC x \<noteq> []) peers)"
  let ?P = "\<lambda>r. iv_parent r = Some ap \<and> iv_role r = ''sta'' \<and> to_lower (iv_mac r) \<notin> set ?macs"
  have ok: "inventory_ok ?q" by (rule sync_all_ok [OF assms(1)])
  have "r \<in> set (po_table ?q)" by (rule sync_all_keeps [OF assms(1,2,5)])
  then have r: "r \<in> set (filter ?P (po_table ?q))" using assms(3-5) by auto
  have "list_all (\<lambda>r. iv_mac r \<noteq> []) (filter ?P (po_table ?q))" using ok by (auto simp: inventory_ok_def list_all_iff)
  moreover have "\<not> prefix ''ip:'' (NormalizeMAC (iv_mac r))" "iv_mac r \<noteq> []"
    using assms(1,2,6) by (auto simp: NormalizeMAC_def inventory_ok_def list_all_iff)
  ultimately have "offline_entry (iv_mac r) (po_store (fold (mark_missing now) (filter ?P (po_table ?q)) ?q))"
    using missing_loop.loop_marks [OF _ r] by (simp add: offline_entry_def GetByMAC_def Let_def)
  then show ?thesis using assms(7) by (simp add: updateSTAsInDB_def Let_def markMissingSTAsOffline_def)
qed

theorem missing_stations_go_offline_witness:
  "offline_entry ''a3'' (po_store (updateSTAsInDB (demo_env (\<lambda>_. None)) 0 1 [] [] demo_poller))"
proof -
  let ?r = "demo_row 3 ''a3'' ''10.0.0.3'' ''sta'' (Some 1)"
  have r: "?r \<in> set (po_table demo_poller)" by (simp add: demo_poller_def demo_table_def)
  have ip: "\<not> prefix ''ip:'' (to_lower (iv_mac ?r))" by code_simp
  have "offline_entry (iv_mac ?r) (po_store (updateSTAsInDB (demo_env (\<lambda>_. None)) 0 1 [] [] demo_poller))"
    by (rule missing_stations_go_offline [OF demo_poller_ok r _ _ _ ip]) (simp_all add: demo_row_def demo_env_def)
  then show ?thesis by (simp add: demo_row_def)
qed

text \<open>C9. An access point that another access point lists among its peers stays one: its row is left as
  it is, or only loses its parent, and is never turned into a station.
\<close>

theorem aps_stay_aps:
  assumes "inventory_ok p" and "r \<in> set (po_table p)" and "NormalizeRole (iv_role r) = ''ap''"
  shows "r \<in> set (po_table (updateSTAsInDB e now ap peers changes p))
    \<or> r\<lparr>iv_parent := None, iv_parent_mac := []\<rparr> \<in> set (po_table (updateSTAsInDB e now ap peers changes p))"
  using sync_all_aps [OF assms(1,3)] assms(2) by (simp add: updateSTAsInDB_def Let_def)

theorem aps_stay_aps_witness:
  "list_ex (\<lambda>r. iv_id r = 2 \<and> iv_role r = ''ap'')
     (po_table (updateSTAsInDB (demo_env (\<lambda>_. None)) 0 1 [zero_peer_stats\<lparr>peer_MAC := ''A2'', peer_IP := ''10.0.0.2''\<rparr>] [] demo_poller))"
proof -
  let ?r = "demo_row 2 ''a2'' ''10.0.0.2'' ''ap'' (Some 1)"
  have r: "?r \<in> set (po_table demo_poller)" by (simp add: demo_poller_def demo_table_def)
  have ap: "NormalizeRole (iv_role ?r) = ''ap''" by code_simp
  show ?thesis
    using aps_stay_aps [OF demo_poller_ok r ap, of "demo_env (\<lambda>_. None)" 0 1 "[zero_peer_stats\<lparr>peer_MAC := ''A2'', peer_IP := ''10.0.0.2''\<rparr>]" "[]"]
    by (auto simp: list_ex_iff demo_row_def intro: bexI [rotated])
qed

text \<open>Taking over a list of peers keeps ids and MACs of the inventory unique, below the next id and present.\<close>

theorem inventory_is_kept: "inventory_ok p \<Longrightarrow> inventory_ok (updateSTAsInDB e now ap peers changes p)"
proof -
  have next_kept: "po_next (markMissingSTAsOffline e now ap macs q) = po_next q" for macs q
  proof -
    have "po_next (fold (mark_missing now) rows q) = po_next q" for rows
      by (induction rows arbitrary: q) (simp_all add: mark_missing_def Let_def split: prod.split)
    then show ?thesis by (simp add: markMissingSTAsOffline_def)
  qed
  show "inventory_ok p \<Longrightarrow> ?thesis"
    using sync_all_ok [of p] by (simp add: updateSTAsInDB_def Let_def inventory_ok_def next_kept)
qed

section \<open>Parents\<close>



section \<open>The queue\<close>

definition queued_job :: "poll_env \<Rightarrow> time \<Rightarrow> pollerConfig \<Rightarrow> circuits \<Rightarrow> inv_row \<Rightarrow> pollJob option" where
  "queued_job e now cfg cs r =
     (if shouldSkip now (iv_ip r) cs then None
      else case prepareJobCredential e cfg (station_credentials r) (job_of r) of Inl _ \<Rightarrow> None | Inr job \<Rightarrow> Some job)"


section \<open>Answers that are not the device's\<close>

lemma circuits_kept [simp]:
  "po_circuits (tell n p) = po_circuits p" "po_circuits (on_store f p) = po_circuits p" "po_circuits (snd (set_status now mac ip st reason msg seen p)) = po_circuits p"
  by (simp_all add: tell_def on_store_def set_status_def split: prod.splits)

lemma correct_platform_circuits [simp]: "po_circuits (correct_platform e job p) = po_circuits p"
  by (simp add: correct_platform_def)

text \<open>C39. Statistics that cannot be decoded count as a poll that succeeded: the record of failures of the
  device is deleted as after a real answer, whatever it held.
\<close>

theorem unreadable_answer_is_success:
  assumes "wave_login r (job\<lparr>pj_Platform := ''wave''\<rparr>) (pc_apCreds (po_cfg p)) = Inr token" and "wr_stats r = Inr body"
    and "pe_unmarshal e body = None"
  shows "map_of (po_circuits (pollDevice e now r scheme airmax (job\<lparr>pj_Platform := ''wave''\<rparr>) p)) (pj_IP job) = None"
proof -
  let ?job = "job\<lparr>pj_Platform := ''wave''\<rparr>"
  let ?p = "on_store (BindIdentityByMAC (pj_MAC job) (pj_IP job) (pj_DeviceID job) (pj_SiteID job)) p"
  have "fst (pollDeviceWave e now r scheme ?job ?p) = pollSuccess"
    using assms(1-3) by (auto simp: pollDeviceWave_def parseStats_def canonicalizeDeviceMAC_def zero_device_stats_def on_store_def Let_def split: prod.split)
  then obtain p1 where "pollDeviceWave e now r scheme ?job ?p = (pollSuccess, p1)" by (cases "pollDeviceWave e now r scheme ?job ?p") auto
  then have "pollDevice e now r scheme airmax ?job p = poll_succeeded ?job p1"
    by (simp add: pollDevice_def Let_def to_lower_def)
  then show ?thesis by (simp add: poll_succeeded_def recordSuccess_def delete_conv)
qed

theorem unreadable_answer_is_success_witness:
  "map_of (po_circuits (pollDevice (demo_env (\<lambda>_. None)) 0 (demo_radio ''<html>'') ''https'' (\<lambda>_ p. (pollFailed, p))
     ((job_of (demo_row 1 ''a1'' ''10.0.0.1'' ''ap'' None))\<lparr>pj_Platform := ''wave''\<rparr>)
     (demo_poller\<lparr>po_circuits := recordFailure 0 ''10.0.0.1'' True []\<rparr>))) ''10.0.0.1'' = None"
proof -
  let ?job = "job_of (demo_row 1 ''a1'' ''10.0.0.1'' ''ap'' None)"
  let ?p = "demo_poller\<lparr>po_circuits := recordFailure 0 ''10.0.0.1'' True []\<rparr>"
  have "wave_login (demo_radio ''<html>'') (?job\<lparr>pj_Platform := ''wave''\<rparr>) (pc_apCreds (po_cfg ?p)) = Inr ''token''"
    by (simp add: wave_login_def demo_radio_def)
  from unreadable_answer_is_success [OF this, of "''<html>''" "demo_env (\<lambda>_. None)" 0 "''https''" "\<lambda>_ p. (pollFailed, p)"]
  show ?thesis by (simp add: demo_radio_def demo_env_def job_of_def demo_row_def)
qed

lemma updateChildren_other:
  assumes "\<not> prefix ''ip:'' k" and "list_all (\<lambda>r. iv_parent r = Some ap \<longrightarrow> iv_mac r \<noteq> [] \<and> NormalizeMAC (iv_mac r) \<noteq> k) (po_table p)"
  shows "map_of (so_devices (po_store (updateChildrenStatus e now ap status p))) k = map_of (so_devices (po_store p)) k
    \<and> po_table (updateChildrenStatus e now ap status p) = po_table p"
  using child_loop.loop_others [OF assms(1), of "filter (\<lambda>r. iv_parent r = Some ap \<and> iv_role r = ''sta'') (po_table p)"] assms(2)
  by (auto simp: updateChildrenStatus_def Let_def list_all_iff child_loop.loop_table)

lemma persist_sel [simp]:
  "po_store (persistIdentityMismatch e job api ex obs msg p) = po_store p" "po_table (persistIdentityMismatch e job api ex obs msg p) = po_table p"
  by (simp_all add: persistIdentityMismatch_def Let_def)

lemma Track_devices [simp]: "so_devices (TrackStabilityStatus now ip h st u s) = so_devices s"
  by (simp add: TrackStabilityStatus_def Let_def)

lemma mismatch_other:
  assumes "pj_MAC job \<noteq> []" and "k \<noteq> NormalizeMAC (pj_MAC job)" and "\<not> prefix ''ip:'' k"
    and "list_all (\<lambda>r. iv_parent r = Some (pj_DeviceID job) \<longrightarrow> iv_mac r \<noteq> [] \<and> NormalizeMAC (iv_mac r) \<noteq> k) (po_table p)"
  shows "map_of (so_devices (po_store (handleMACMismatch e now job api obs p))) k = map_of (so_devices (po_store p)) k
    \<and> po_table (handleMACMismatch e now job api obs p) = po_table p"
  using assms(4) updateChildren_other [OF assms(3), of "pj_DeviceID job"] SetStatus_entry(2) [OF assms(1,2)]
  by (simp add: handleMACMismatch_def Let_def set_status_store)



end
