(* ===== verification/Spec2Isabelle.thy ===== *)
theory Spec2Isabelle imports AlertProperties WebhookGuard SysmonClient StatsProperties StatsHistory BulkJobs JobRunner FirmwareUpgradeProofs FirmwareReboot WebHub DebugBuffers CertPinProofs Schemes ZabbixProofs ConfigBackup PollProofs begin

text \<open>
  A verification library for wavecontrol, a server that polls point-to-multipoint radios, keeps
  their live statistics, raises alerts, upgrades firmware and serves a web interface.

  The parts and how they interact. The poller (internal/poller) logs in to every access point in a
  round, reads statistics and the list of stations, and writes both into the live store
  (internal/stats) and the inventory table. The alert manager (internal/alerting) evaluates rules
  over the live store, keeps alerts and their states in the database, and puts notifications into an
  outbox table, from which workers deliver them by e-mail, webhook or the sysmon-web alerter client
  (internal/sysmonalerter). The scheduler (internal/scheduler), the bulk operations controller
  (internal/bulkops) and the runner of interactive jobs (internal/jobs) start firmware upgrades and
  reboots (internal/firmware), whose credentials are decrypted by internal/secrets and whose
  connections are checked against pinned certificates (internal/tlsutil) after a scheme was found for
  the host (internal/netutil). The web socket hub (internal/websocket), the Zabbix bridge
  (internal/zabbix), the debug buffers (internal/udebug) and the configuration backups
  (internal/configbackup) are fed by them.

  Conventions. Prelude holds what all parts share: Go strings as byte lists with the functions of
  package strings in use, decimal rendering, floating-point numbers as reals with infinities and NaN
  (without rounding), Go maps as association lists, SQL UPDATE, DELETE and ORDER BY over tables as
  lists of rows, and the oracle through which every database call may fail. A struct is a record whose
  fields keep the Go name behind a short prefix, a status constant a constructor or its text, a
  pointer an option, an error a value of a sum type. An operation takes the state and returns the new
  one; what the code reads from elsewhere (the clock, the network, package crypto, JSON decoding, an
  operating system call) is an argument. Goroutines are steps of an inductive relation, split where
  the code releases a lock or waits.

  Theories, parts and what is proved.
  \<^item> Alerts: WebhookGuard (unsafeWebhookIP, the protected dialer: addresses at 32 and 128 bits),
    AlertRules (normalizeRule, ValidateRule, condition and severity), AlertStore (the tables and
    resolveAlertTx), NotificationOutbox (claiming, delivering, retry policy), AlertManager (every
    operation of the manager), AlertSystem (all of them as steps with restarts and workers, and the
    invariant of their reachable states), AlertProperties (one open alert per rule and device).
    SysmonClient: configuration, protocol and sessions of the alerter client.
  \<^item> Live store: StatsTypes (the records), StatsStore (its operations), StatsInvariant (the lookups
    are inverse and entries sit under their keys, kept by every operation), StatsHistory (ring and
    windows refine unbounded logs), StatsProperties.
  \<^item> Poller: PollBreaker (circuit breaker at 64 bits, empty peer lists), PollErrors (classifyPollError,
    canonicalizeDeviceMAC), WaveParse (parseStats and parsePeer field by field, bands and slots, the
    configuration), PollInventory (updateSTAsInDB, markMissingSTAsOffline, breakStaParentLoops,
    identity mismatches), PollWave (pollDeviceWave, checkStaticInfo, pollDevice, the queue), and
    WaveProofs and PollProofs: what a poll keeps of the inventory, what a foreign, empty or unreadable
    answer does, and which jobs a round queues.
  \<^item> Jobs: BulkOps and BulkJobs (retries, fan-out, limits), Scheduler and SchedulerRuns (maintenance
    windows, claims, interleaved runs and cancellation), JobRunner (executeJob and its pool).
  \<^item> Firmware: FirmwareVersions (comparison as a library order), FirmwareFiles (references resolve
    below the directory), FirmwareUpgrade and FirmwareUpgradeProofs, FirmwareReboot.
  \<^item> Secrets and connections: Codec (base64 and hexadecimal, Unix paths), Secrets (stored form,
    migration), CertPins and CertPinProofs (trust on first use, strict mode, pinning), Schemes.
  \<^item> Outside: WebHub (queues that keep the newest, hub and pumps as steps), NetText, DebugBuffers,
    ZabbixBridge and ZabbixProofs, ConfigBackup.

  Interfaces. \<open>bounded_log\<close> (BoundedLog) is the contract of a store that keeps the newest entries; the
  throughput ring and the send queue of a web socket client are interpretations. \<open>tx_loop\<close>
  (AlertSystem) is the contract of a loop of statements in a transaction, interpreted on the four loops
  of the manager; \<open>b64_alphabet\<close> (Codec) the contract of an alphabet, interpreted on both in use;
  \<open>status_loop\<close> (PollProofs) the contract of a loop that writes the status of rows, interpreted on the
  two loops over an access point's stations.

  Bounds and fuel. Loops are structural recursions or come with a measure, but for two: nested texts
  in debug entries (DebugBuffers) are followed with fuel, the length of the longest text plus one,
  which is shown to be enough because decoding a text gives shorter ones; durations (Scheduler) and
  replies (SysmonClient) take the length of the text plus one, and every turn removes a character. An
  operation that may wait for ever returns a value for it. Durations and shift counts of the back-off,
  addresses and byte counts are kept at their width; other Go integers are unbounded.

  Defects. Theorems of kind error, and some that are not properties, state what the code does where
  that is not what it means to do, among them: a worker that dies in the last attempt strands its
  notification; a cancelled run is overwritten by its completion; a fan-out never upgrades; a
  verification can accept a certificate that changed meanwhile; a malformed Zabbix request crashes the
  process; the back-off of a dead device wraps to zero; unreadable statistics count as success.

  Not modelled. Handlers of the HTTP API (cmd/server): they decode a request, run one query and encode
  the answer. The HTTP clients of the radios (internal/airmax, internal/wave), whose answers are
  parameters, and with them the poll of an airMAX radio, which is a parameter of pollDevice.
  Drill-down polling, backup downloads, timers and worker goroutines of the poller. The TLS
  handshake, the cipher, SMTP, and the debug transport. SQL is modelled by its effect on tables, with
  one transaction at a time unless a theory says otherwise; rounding of floating-point numbers and
  Unicode beyond ASCII case are not modelled.
\<close>

end
